(* ===== verification/Prelude.thy ===== *)
theory Prelude
  imports Main "HOL-Library.Char_ord" "HOL-Library.List_Lexorder"
    "HOL-Library.Product_Lexorder" "HOL-Library.Option_ord" "HOL-Library.Sublist"
    "HOL-Library.Word" "HOL-Library.Code_Target_Nat"
begin

text \<open>
  Shared vocabulary of the development.

  \<^item> Results: \<open>model_error\<close> is what a Rust function of the crate can fail with
    (\<open>ModelError\<close>, identified by its diagnostic code, or a panic), \<open>'a model_result\<close> is
    \<open>ModelResult<T>\<close>, \<open>and_then\<close> is the \<open>?\<close> operator, \<open>all_ok\<close> a
    straight-line sequence of checks and \<open>foldM\<close>, \<open>each\<close> and \<open>unique_loop\<close> the
    loop shapes of the validators.
  \<^item> Ordered maps: \<open>BTreeMap\<close> as a strictly sorted association list, behind the
    locale \<open>ordered_map\<close>, with the counting idiom \<open>*map.entry(k).or_default() += 1\<close>.
  \<^item> Machine integers: saturating and checked arithmetic of Rust on words.
\<close>

named_theorems res_simps \<open>characterisations of successful results\<close>
named_theorems no_panic \<open>conditional rewrites that rule out a panic\<close>

section \<open>Results\<close>

text \<open>\<open>diagnostic.rs\<close>: the machine-readable error codes.\<close>

datatype diagnostic_code =
    WorkInvalid | WorkTooComplex | ArtifactBudgetExceeded | ArtifactMissing
  | ArtifactDigestMismatch | InvalidId | AssemblyCycle | PortUnresolved | PortIncompatible
  | BindingAmbiguous | BindingUnavailable | BindingExpired | UnsupportedInteraction
  | StateMigrationRequired | StateResetRequired | RightsBlocked | EntitlementRequired
  | AuthorityDenied | TargetUnsatisfied | PlanStale | PlanDigestMismatch | ApprovalRequired
  | OutcomeUnknown | RecoveryRequired | UnsupportedBackend | RawSecret | RawPath

text \<open>
  A failure is a \<open>ModelError\<close> (kept as its code; the message text is presentation only)
  or a panic of the process: an \<open>expect\<close> on \<open>None\<close> or an index into a missing key.
\<close>

datatype model_error = Err diagnostic_code | Panic

type_synonym 'a model_result = "model_error + 'a"

definition and_then :: "'e + 'a \<Rightarrow> ('a \<Rightarrow> 'e + 'b) \<Rightarrow> 'e + 'b" where
  "and_then r k = (case r of Inl e \<Rightarrow> Inl e | Inr x \<Rightarrow> k x)"

definition ensure :: "bool \<Rightarrow> diagnostic_code \<Rightarrow> unit model_result" where
  "ensure b c = (if b then Inr () else Inl (Err c))"

text \<open>\<open>Option::ok_or_else\<close>.\<close>

definition ok_or :: "'a option \<Rightarrow> 'e \<Rightarrow> 'e + 'a" where
  "ok_or x e = (case x of None \<Rightarrow> Inl e | Some v \<Rightarrow> Inr v)"

text \<open>\<open>Result::map_err\<close> with a fixed error, as every \<open>map_err(|_| ...)\<close> of the crate is.\<close>

definition map_err :: "model_error \<Rightarrow> 'e + 'a \<Rightarrow> 'a model_result" where
  "map_err c r = (case r of Inl _ \<Rightarrow> Inl c | Inr x \<Rightarrow> Inr x)"

definition is_ok :: "'e + 'a \<Rightarrow> bool" where
  "is_ok r = (case r of Inl _ \<Rightarrow> False | Inr _ \<Rightarrow> True)"

fun all_ok :: "('e + unit) list \<Rightarrow> 'e + unit" where
  "all_ok [] = Inr ()"
| "all_ok (r # rs) = and_then r (\<lambda>_. all_ok rs)"

definition each :: "('a \<Rightarrow> 'e + unit) \<Rightarrow> 'a list \<Rightarrow> 'e + unit" where
  "each f xs = all_ok (map f xs)"

fun foldM :: "('a \<Rightarrow> 's \<Rightarrow> 'e + 's) \<Rightarrow> 'a list \<Rightarrow> 's \<Rightarrow> 'e + 's" where
  "foldM f [] s = Inr s"
| "foldM f (x # xs) s = and_then (f x s) (foldM f xs)"

text \<open>\<open>iter().map(f).collect::<Result<Vec<_>, _>>()\<close>, and the loops that push one result per
  element.\<close>

fun mapM :: "('a \<Rightarrow> 'e + 'b) \<Rightarrow> 'a list \<Rightarrow> 'e + 'b list" where
  "mapM f [] = Inr []"
| "mapM f (x # xs) = and_then (f x) (\<lambda>y. and_then (mapM f xs) (\<lambda>ys. Inr (y # ys)))"

text \<open>
  The validators' loop over a collection with a \<open>BTreeSet\<close> of keys already seen:
  \<open>for x in xs { pre(x)?; if !seen.insert(key(x)) { return Err(e) } post(x)?; }\<close>
\<close>

fun unique_loop :: "('a \<Rightarrow> 'e + unit) \<Rightarrow> ('a \<Rightarrow> 'k) \<Rightarrow> 'e \<Rightarrow> ('a \<Rightarrow> 'e + unit)
    \<Rightarrow> 'k set \<Rightarrow> 'a list \<Rightarrow> 'e + unit" where
  "unique_loop pre key e post seen [] = Inr ()"
| "unique_loop pre key e post seen (x # xs) =
     and_then (pre x) (\<lambda>_. if key x \<in> seen then Inl e else
       and_then (post x) (\<lambda>_. unique_loop pre key e post (insert (key x) seen) xs))"

abbreviation no_check :: "'a \<Rightarrow> 'e + unit" where
  "no_check \<equiv> \<lambda>_. Inr ()"

lemma and_then_simps [simp]:
  "and_then (Inl e) k = Inl e"
  "and_then (Inr x) k = k x"
  by (simp_all add: and_then_def)

lemma and_then_Inr [res_simps]:
  "and_then r k = Inr y \<longleftrightarrow> (\<exists>x. r = Inr x \<and> k x = Inr y)"
  by (cases r) auto

lemma and_then_Inl:
  "and_then r k = Inl e \<longleftrightarrow> r = Inl e \<or> (\<exists>x. r = Inr x \<and> k x = Inl e)"
  by (cases r) auto

lemma and_then_cong [fundef_cong]:
  "r = r' \<Longrightarrow> (\<And>x. r' = Inr x \<Longrightarrow> k x = k' x) \<Longrightarrow> and_then r k = and_then r' k'"
  by (cases r') auto

lemma and_then_assoc: "and_then (and_then r k) l = and_then r (\<lambda>x. and_then (k x) l)"
  by (cases r) auto

lemma ensure_Inr [res_simps]: "ensure b c = Inr u \<longleftrightarrow> b"
  by (simp add: ensure_def)

lemma ensure_simps [simp]:
  "ensure True c = Inr ()" "ensure False c = Inl (Err c)"
  by (simp_all add: ensure_def)

lemma ensure_no_panic [simp]: "ensure b c \<noteq> Inl Panic"
  by (simp add: ensure_def)

lemma ok_or_Inr [res_simps]: "ok_or x e = Inr v \<longleftrightarrow> x = Some v"
  by (cases x) (auto simp: ok_or_def)

lemma ok_or_simps [simp]: "ok_or None e = Inl e" "ok_or (Some v) e = Inr v"
  by (simp_all add: ok_or_def)

lemma map_err_Inr [res_simps]: "map_err c r = Inr x \<longleftrightarrow> r = Inr x"
  by (cases r) (auto simp: map_err_def)

lemma map_err_Inl: "map_err c r = Inl e \<longleftrightarrow> e = c \<and> (\<exists>e'. r = Inl e')"
  by (cases r) (auto simp: map_err_def)

lemma is_ok_Inr: "is_ok r \<longleftrightarrow> (\<exists>x. r = Inr x)"
  by (cases r) (auto simp: is_ok_def)

lemma is_ok_unit [res_simps]: "is_ok (r :: 'e + unit) \<longleftrightarrow> r = Inr ()"
  by (cases r) (auto simp: is_ok_def)

lemma is_ok_simps [simp]: "is_ok (Inr x)" "\<not> is_ok (Inl e)"
  by (simp_all add: is_ok_def)

lemma all_ok_Inr [res_simps]: "all_ok rs = Inr u \<longleftrightarrow> (\<forall>r\<in>set rs. r = Inr ())"
  by (induction rs) (auto simp: and_then_Inr)

lemma all_ok_Inl: "all_ok rs = Inl e \<Longrightarrow> Inl e \<in> set rs"
  by (induction rs) (auto simp: and_then_Inl)

declare all_ok.simps(2) [simp del]

lemma each_Inr [res_simps]: "each f xs = Inr u \<longleftrightarrow> (\<forall>x\<in>set xs. f x = Inr ())"
  by (simp add: each_def res_simps)

lemma each_Inl: "each f xs = Inl e \<Longrightarrow> \<exists>x\<in>set xs. f x = Inl e"
  unfolding each_def by (drule all_ok_Inl) auto

lemma unique_loop_Inr [res_simps]:
  "unique_loop pre key e post seen xs = Inr u \<longleftrightarrow>
     distinct (map key xs) \<and> key ` set xs \<inter> seen = {}
     \<and> (\<forall>x\<in>set xs. pre x = Inr () \<and> post x = Inr ())"
  by (induction xs arbitrary: seen) (auto simp: and_then_Inr)

lemma unique_loop_Inl:
  "unique_loop pre key e post seen xs = Inl e' \<Longrightarrow>
     e' = e \<or> (\<exists>x\<in>set xs. pre x = Inl e' \<or> post x = Inl e')"
  by (induction xs arbitrary: seen) (auto simp: and_then_Inl split: if_splits)

lemma foldM_cong [fundef_cong]:
  assumes "xs = ys" and "s = t" and "\<And>x a. x \<in> set ys \<Longrightarrow> f x a = g x a"
  shows "foldM f xs s = foldM g ys t"
  unfolding assms(1,2) using assms(3) by (induction ys arbitrary: t) (auto intro: and_then_cong)

lemma each_cong [fundef_cong]:
  "xs = ys \<Longrightarrow> (\<And>x. x \<in> set ys \<Longrightarrow> f x = g x) \<Longrightarrow> each f xs = each g ys"
  unfolding each_def by (auto intro: arg_cong [of _ _ all_ok])

lemma foldM_append: "foldM f (xs @ ys) s = and_then (foldM f xs s) (foldM f ys)"
  by (induction xs arbitrary: s) (simp_all add: and_then_assoc cong: and_then_cong)

lemma mapM_Inr [res_simps]: "mapM f xs = Inr ys \<longleftrightarrow> list_all2 (\<lambda>x y. f x = Inr y) xs ys"
proof (induction xs arbitrary: ys)
  case (Cons x xs)
  then show ?case by (cases ys) (auto simp: and_then_Inr list_all2_Cons1)
qed auto

lemma mapM_no_panic [no_panic]: "(\<And>x. x \<in> set xs \<Longrightarrow> f x \<noteq> Inl e) \<Longrightarrow> mapM f xs \<noteq> Inl e"
  by (induction xs) (auto simp: and_then_Inl)

text \<open>Hoare-style rules for \<open>foldM\<close>: an invariant kept by every step holds of the result,
  and a fault the steps never produce from the invariant is not produced by the loop.\<close>

lemma foldM_inv:
  assumes "foldM f xs s = Inr t" and "I s"
    and "\<And>x a b. x \<in> set xs \<Longrightarrow> I a \<Longrightarrow> f x a = Inr b \<Longrightarrow> I b"
  shows "I t"
  using assms
proof (induction xs arbitrary: s)
  case (Cons x xs)
  then obtain b where b: "f x s = Inr b" "foldM f xs b = Inr t"
    by (auto simp: and_then_Inr)
  have "I b" by (rule Cons.prems(3) [OF _ Cons.prems(2) b(1)]) simp
  then show ?case using Cons.IH [OF b(2)] Cons.prems(3) by auto
qed simp

lemma foldM_no_fault:
  assumes "I s" and "\<And>x a b. x \<in> set xs \<Longrightarrow> I a \<Longrightarrow> f x a = Inr b \<Longrightarrow> I b"
    and "\<And>x a. x \<in> set xs \<Longrightarrow> I a \<Longrightarrow> f x a \<noteq> Inl e"
  shows "foldM f xs s \<noteq> Inl e"
  using assms
proof (induction xs arbitrary: s)
  case (Cons x xs)
  show ?case
  proof (cases "f x s")
    case (Inl e')
    then show ?thesis using Cons.prems by auto
  next
    case (Inr b)
    then have "I b" by (intro Cons.prems(2) [OF _ Cons.prems(1)]) simp_all
    then have "foldM f xs b \<noteq> Inl e" using Cons by auto
    then show ?thesis by (simp add: Inr)
  qed
qed simp

text \<open>The same with an invariant that sees the elements already processed.\<close>

lemma foldM_prefix_inv:
  assumes "foldM f xs s = Inr t" and "I [] s"
    and "\<And>ys x zs a b. xs = ys @ x # zs \<Longrightarrow> I ys a \<Longrightarrow> f x a = Inr b \<Longrightarrow> I (ys @ [x]) b"
  shows "I xs t"
  using assms
proof (induction xs arbitrary: t rule: rev_induct)
  case (snoc x xs)
  then obtain a where a: "foldM f xs s = Inr a" "f x a = Inr t"
    by (auto simp: foldM_append and_then_Inr)
  have "I xs a" using a(1) snoc.prems(2) by (rule snoc.IH) (auto intro: snoc.prems(3))
  then show ?case using snoc.prems(3) [of xs x "[]" a t] a(2) by simp
qed simp

lemma foldM_prefix_fault:
  assumes "foldM f xs s = Inl e" and "I [] s"
    and "\<And>ys x zs a b. xs = ys @ x # zs \<Longrightarrow> I ys a \<Longrightarrow> f x a = Inr b \<Longrightarrow> I (ys @ [x]) b"
  shows "\<exists>ys x zs a. xs = ys @ x # zs \<and> I ys a \<and> f x a = Inl e"
  using assms
proof (induction xs rule: rev_induct)
  case (snoc x xs)
  then consider (before) "foldM f xs s = Inl e" | (here) a where "foldM f xs s = Inr a" "f x a = Inl e"
    by (auto simp: foldM_append and_then_Inl and_then_Inr)
  then show ?case
  proof cases
    case before
    then obtain ys y zs a where "xs = ys @ y # zs" "I ys a" "f y a = Inl e"
      using snoc.IH [OF before snoc.prems(2)] snoc.prems(3) by (metis append_Cons append_assoc)
    then show ?thesis by (intro exI [of _ ys] exI [of _ y] exI [of _ "zs @ [x]"]) auto
  next
    case here
    have "I xs a"
      by (rule foldM_prefix_inv [of f xs s a I]) (use here snoc.prems in auto)
    with here show ?thesis by blast
  qed
qed simp

text \<open>A panic can only come from one of the parts.\<close>

lemma all_ok_no_panic [no_panic]:
  "list_all (\<lambda>r. r \<noteq> Inl Panic) rs \<Longrightarrow> all_ok rs \<noteq> Inl Panic"
  by (auto dest!: all_ok_Inl simp: list_all_iff)

lemma each_no_panic [no_panic]: "(\<And>x. x \<in> set xs \<Longrightarrow> f x \<noteq> Inl Panic) \<Longrightarrow> each f xs \<noteq> Inl Panic"
  by (auto dest!: each_Inl)

lemma unique_loop_no_panic [no_panic]:
  "e \<noteq> Panic \<Longrightarrow> (\<And>x. x \<in> set xs \<Longrightarrow> pre x \<noteq> Inl Panic \<and> post x \<noteq> Inl Panic)
     \<Longrightarrow> unique_loop pre key e post seen xs \<noteq> Inl Panic"
  by (auto dest!: unique_loop_Inl)

lemma and_then_no_panic [no_panic]:
  "r \<noteq> Inl Panic \<Longrightarrow> (\<And>x. r = Inr x \<Longrightarrow> k x \<noteq> Inl Panic) \<Longrightarrow> and_then r k \<noteq> Inl Panic"
  by (auto simp: and_then_Inl)

section \<open>Ordered maps\<close>

text \<open>\<open>BTreeMap\<close>: the entries in strictly ascending key order.\<close>

type_synonym ('k, 'v) btree_map = "('k \<times> 'v) list"

abbreviation bt_get :: "('k, 'v) btree_map \<Rightarrow> 'k \<Rightarrow> 'v option" where
  "bt_get \<equiv> map_of"

fun bt_insert :: "'k::linorder \<Rightarrow> 'v \<Rightarrow> ('k, 'v) btree_map \<Rightarrow> ('k, 'v) btree_map" where
  "bt_insert k v [] = [(k, v)]"
| "bt_insert k v ((a, b) # m) =
     (if k < a then (k, v) # (a, b) # m
      else if a < k then (a, b) # bt_insert k v m
      else (k, v) # m)"

definition bt_wf :: "('k::linorder, 'v) btree_map \<Rightarrow> bool" where
  "bt_wf m = sorted_wrt (<) (map fst m)"

text \<open>\<open>collect::<BTreeMap>()\<close>: later entries replace earlier ones.\<close>

definition bt_of_list :: "('k::linorder \<times> 'v) list \<Rightarrow> ('k, 'v) btree_map" where
  "bt_of_list es = fold (\<lambda>(k, v). bt_insert k v) es []"

lemma bt_get_insert: "bt_get (bt_insert k v m) = (bt_get m)(k \<mapsto> v)"
  by (induction k v m rule: bt_insert.induct) (auto simp: fun_eq_iff)

lemma fst_set_bt_insert: "fst ` set (bt_insert k v m) = insert k (fst ` set m)"
  by (induction k v m rule: bt_insert.induct) auto

lemma set_bt_insert_subset: "set (bt_insert k v m) \<subseteq> insert (k, v) (set m)"
  by (induction k v m rule: bt_insert.induct) auto

lemma bt_wf_Nil [simp]: "bt_wf []"
  by (simp add: bt_wf_def)

lemma bt_wf_Cons: "bt_wf ((k, v) # m) \<longleftrightarrow> (\<forall>x \<in> fst ` set m. k < x) \<and> bt_wf m"
  by (auto simp: bt_wf_def)

lemma bt_wf_insert: "bt_wf m \<Longrightarrow> bt_wf (bt_insert k v m)"
proof (induction k v m rule: bt_insert.induct)
  case (2 k v a b m)
  then show ?case
    by (auto simp: bt_wf_Cons fst_set_bt_insert simp del: bt_insert.simps) 
       (auto simp: bt_wf_Cons fst_set_bt_insert)
qed (simp add: bt_wf_def)

lemma bt_wf_distinct: "bt_wf m \<Longrightarrow> distinct (map fst m)"
  unfolding bt_wf_def by (simp add: strict_sorted_iff)

lemma bt_get_mem: "bt_wf m \<Longrightarrow> bt_get m k = Some v \<longleftrightarrow> (k, v) \<in> set m"
  by (simp add: bt_wf_distinct)

lemma bt_wf_bt_of_list: "bt_wf (bt_of_list es)"
proof -
  have "bt_wf m \<Longrightarrow> bt_wf (fold (\<lambda>(k, v). bt_insert k v) es m)" for m :: "('a, 'b) btree_map"
    by (induction es arbitrary: m) (auto simp: bt_wf_insert split: prod.splits)
  then show ?thesis by (simp add: bt_of_list_def)
qed

text \<open>\<open>*map.entry(k).or_default() += 1\<close> and \<open>map.get(&k).copied().unwrap_or(0)\<close>.\<close>

definition bt_count :: "('k, nat) btree_map \<Rightarrow> 'k \<Rightarrow> nat" where
  "bt_count m k = (case bt_get m k of None \<Rightarrow> 0 | Some n \<Rightarrow> n)"

definition bt_bump :: "'k::linorder \<Rightarrow> ('k, nat) btree_map \<Rightarrow> ('k, nat) btree_map" where
  "bt_bump k m = bt_insert k (Suc (bt_count m k)) m"

text \<open>What a client of an ordered map relies on: a lookup after an insertion.\<close>

locale ordered_map =
  fixes get :: "'m \<Rightarrow> 'k \<Rightarrow> 'v option"
    and ins :: "'k \<Rightarrow> 'v \<Rightarrow> 'm \<Rightarrow> 'm"
    and emp :: 'm
  assumes get_emp: "get emp k = None"
    and get_ins: "get (ins k v m) = (get m)(k \<mapsto> v)"
begin

lemma get_fold_ins:
  "get (fold (\<lambda>(k, v). ins k v) es m) k =
     (case map_of (rev es) k of None \<Rightarrow> get m k | Some v \<Rightarrow> Some v)"
  by (induction es arbitrary: m)
     (auto simp: get_ins map_add_def split: option.splits prod.splits)

end

text \<open>Maps of counters: the number of times a key was bumped.\<close>

locale counting_map = ordered_map get ins emp
  for get :: "'m \<Rightarrow> 'k \<Rightarrow> nat option" and ins and emp +
  fixes bump :: "'k \<Rightarrow> 'm \<Rightarrow> 'm"
    and count_of :: "'m \<Rightarrow> 'k \<Rightarrow> nat"
  assumes bump_eq: "bump k m = ins k (Suc (count_of m k)) m"
    and count_of_eq: "count_of m k = (case get m k of None \<Rightarrow> 0 | Some n \<Rightarrow> n)"
begin

lemma count_emp: "count_of emp k = 0"
  by (simp add: count_of_eq get_emp)

lemma count_bump: "count_of (bump k m) k' = count_of m k' + (if k = k' then 1 else 0)"
  by (simp add: count_of_eq bump_eq get_ins)

lemma count_fold_bump: "count_of (fold bump ks m) k = count_of m k + count_list ks k"
  by (induction ks arbitrary: m) (simp_all add: count_bump)

end

interpretation btree: ordered_map bt_get bt_insert "[]"
  by unfold_locales (simp_all add: bt_get_insert)

interpretation btree_counts: counting_map bt_get bt_insert "[]" bt_bump bt_count
  by unfold_locales (simp_all add: bt_bump_def bt_count_def)

lemma bt_get_of_list: "bt_get (bt_of_list es) k = map_of (rev es) k"
  using btree.get_fold_ins [of es "[]" k]
  by (simp add: bt_of_list_def split: option.splits)

lemma bt_wf_bump: "bt_wf m \<Longrightarrow> bt_wf (bt_bump k m)"
  by (simp add: bt_bump_def bt_wf_insert)

lemma bt_wf_fold_bump: "bt_wf m \<Longrightarrow> bt_wf (fold bt_bump ks m)"
  by (induction ks arbitrary: m) (simp_all add: bt_wf_bump)

text \<open>A counting loop over a key of each element counts the elements with that key.\<close>

lemma bt_count_by: "bt_count (fold bt_bump (map f xs) []) k = length (filter (\<lambda>x. f x = k) xs)"
proof -
  have "count_list (map f xs) k = length (filter (\<lambda>x. f x = k) xs)"
    by (induction xs) auto
  then show ?thesis
    by (simp add: btree_counts.count_fold_bump btree_counts.count_emp)
qed

lemma bt_get_fold_bump:
  "bt_get (fold bt_bump ks m) k = Some n \<Longrightarrow> bt_count (fold bt_bump ks m) k = n"
  by (simp add: bt_count_def)

text \<open>A bound on all counters of the loop is a bound on the number of elements per key.\<close>

lemma bt_counts_bounded:
  "\<not> list_ex (\<lambda>(_, count). limit < count) (fold bt_bump (map f xs) []) \<longleftrightarrow>
     (\<forall>k. length (filter (\<lambda>x. f x = k) xs) \<le> limit)"
proof -
  let ?m = "fold bt_bump (map f xs) []"
  have wf: "bt_wf ?m" by (simp add: bt_wf_fold_bump)
  have "(\<not> list_ex (\<lambda>(_, count). limit < count) ?m) \<longleftrightarrow> (\<forall>k n. bt_get ?m k = Some n \<longrightarrow> n \<le> limit)"
    unfolding bt_get_mem [OF wf] list_ex_iff by (force simp: not_less)
  also have "\<dots> \<longleftrightarrow> (\<forall>k. bt_count ?m k \<le> limit)"
    by (auto simp: bt_count_def split: option.splits)
  finally show ?thesis by (simp add: bt_count_by)
qed

section \<open>Sorting and deduplication\<close>

text \<open>\<open>slice::sort_by\<close> is stable, as \<^const>\<open>sort_key\<close> is. \<open>Vec::dedup_by\<close> removes an
  element whose key equals that of the last element kept.\<close>

fun dedup_key :: "('a \<Rightarrow> 'k) \<Rightarrow> 'a list \<Rightarrow> 'a list" where
  "dedup_key f [] = []"
| "dedup_key f [x] = [x]"
| "dedup_key f (x # y # xs) =
     (if f x = f y then dedup_key f (x # xs) else x # dedup_key f (y # xs))"

lemma set_dedup_key_subset: "set (dedup_key f xs) \<subseteq> set xs"
  by (induction f xs rule: dedup_key.induct) auto

lemma dedup_key_keys: "f ` set (dedup_key f xs) = f ` set xs"
  by (induction f xs rule: dedup_key.induct) auto

lemma hd_dedup_key: "xs \<noteq> [] \<Longrightarrow> \<exists>ys. dedup_key f xs = hd xs # ys"
  by (induction f xs rule: dedup_key.induct) auto

lemma sorted_dedup_key_distinct:
  fixes f :: "'a \<Rightarrow> 'k::linorder"
  assumes "sorted (map f xs)"
  shows "sorted_wrt (<) (map f (dedup_key f xs))"
  using assms
proof (induction f xs rule: dedup_key.induct)
  case (3 f x y xs)
  show ?case
  proof (cases "f x = f y")
    case False
    with 3 have "f ` set (dedup_key f (y # xs)) = f ` set (y # xs)"
      and "\<forall>z \<in> f ` set (y # xs). f x < z"
      by (auto simp: dedup_key_keys order.strict_iff_order)
    with False 3 show ?thesis by auto
  qed (use 3 in auto)
qed auto

section \<open>Machine integers\<close>

lemma unat_max_word: "unat (- 1 :: 'a::len word) = 2 ^ LENGTH('a) - 1"
  by (simp add: unsigned_minus_1_eq_mask mask_eq_exp_minus_1)

type_synonym u16 = "16 word"
type_synonym u32 = "32 word"
type_synonym u64 = "64 word"

definition saturating_add :: "'a::len word \<Rightarrow> 'a word \<Rightarrow> 'a word" where
  "saturating_add a b = (if unat a + unat b < 2 ^ LENGTH('a) then a + b else - 1)"

definition saturating_mul :: "'a::len word \<Rightarrow> 'a word \<Rightarrow> 'a word" where
  "saturating_mul a b = (if unat a * unat b < 2 ^ LENGTH('a) then a * b else - 1)"

lemma unat_saturating_add:
  "unat (saturating_add a b) = min (unat a + unat b) (2 ^ LENGTH('a) - 1)"
  for a b :: "'a::len word"
proof (cases "unat a + unat b < 2 ^ LENGTH('a)")
  case True
  then show ?thesis by (simp add: saturating_add_def unat_word_ariths)
next
  case False
  then show ?thesis by (simp add: saturating_add_def unat_max_word)
qed

lemma unat_saturating_mul:
  "unat (saturating_mul a b) = min (unat a * unat b) (2 ^ LENGTH('a) - 1)"
  for a b :: "'a::len word"
proof (cases "unat a * unat b < 2 ^ LENGTH('a)")
  case True
  then show ?thesis by (simp add: saturating_mul_def unat_word_ariths)
next
  case False
  then show ?thesis by (simp add: saturating_mul_def unat_max_word)
qed

end
