(* ===== verification/Rust_Text.thy ===== *)
theory Rust_Text
  imports Prelude
begin

text \<open>
  The string operations of the Rust standard library the program uses. A Rust \<open>String\<close> is
  its UTF-8 byte sequence, so a \<open>char\<close> of the model is one byte, \<open>length\<close> is
  \<open>str::len\<close> and the lexicographic order is \<open>Ord for str\<close>. Operations on Unicode
  scalar values (\<open>trim\<close>, \<open>char::is_whitespace\<close>, \<open>char::is_control\<close>) are
  written on the UTF-8 encodings of the scalars concerned; UTF-8 is self-synchronising, so a
  match at any byte position is a match at a character boundary.
\<close>

type_synonym str = string

abbreviation byte :: "char \<Rightarrow> nat" where
  "byte c \<equiv> of_char c"

section \<open>ASCII classes\<close>

definition is_ascii_digit :: "char \<Rightarrow> bool" where
  "is_ascii_digit c = (48 \<le> byte c \<and> byte c \<le> 57)"

definition is_ascii_uppercase :: "char \<Rightarrow> bool" where
  "is_ascii_uppercase c = (65 \<le> byte c \<and> byte c \<le> 90)"

definition is_ascii_lowercase :: "char \<Rightarrow> bool" where
  "is_ascii_lowercase c = (97 \<le> byte c \<and> byte c \<le> 122)"

definition is_ascii_alphabetic :: "char \<Rightarrow> bool" where
  "is_ascii_alphabetic c = (is_ascii_uppercase c \<or> is_ascii_lowercase c)"

definition is_ascii_alphanumeric :: "char \<Rightarrow> bool" where
  "is_ascii_alphanumeric c = (is_ascii_alphabetic c \<or> is_ascii_digit c)"

definition is_ascii_hexdigit :: "char \<Rightarrow> bool" where
  "is_ascii_hexdigit c =
     (is_ascii_digit c \<or> (97 \<le> byte c \<and> byte c \<le> 102) \<or> (65 \<le> byte c \<and> byte c \<le> 70))"

definition ascii_lower :: "char \<Rightarrow> char" where
  "ascii_lower c = (if is_ascii_uppercase c then char_of (byte c + 32) else c)"

definition to_ascii_lowercase :: "str \<Rightarrow> str" where
  "to_ascii_lowercase s = map ascii_lower s"

section \<open>Unicode white space and control characters\<close>

text \<open>The length in bytes of the white-space scalar \<open>s\<close> begins with, 0 when it begins with
  none. The \<open>White_Space\<close> scalars are U+0009 to U+000D, U+0020, U+0085, U+00A0, U+1680,
  U+2000 to U+200A, U+2028, U+2029, U+202F, U+205F and U+3000.\<close>

definition ws_len2 :: "nat \<Rightarrow> nat \<Rightarrow> bool" where
  "ws_len2 x y = (x = 194 \<and> (y = 133 \<or> y = 160))"

definition ws_len3 :: "nat \<Rightarrow> nat \<Rightarrow> nat \<Rightarrow> bool" where
  "ws_len3 x y z =
     ((x = 225 \<and> y = 154 \<and> z = 128)
      \<or> (x = 226 \<and> y = 128 \<and> ((128 \<le> z \<and> z \<le> 138) \<or> z = 168 \<or> z = 169 \<or> z = 175))
      \<or> (x = 226 \<and> y = 129 \<and> z = 159)
      \<or> (x = 227 \<and> y = 128 \<and> z = 128))"

definition ws_len1 :: "nat \<Rightarrow> bool" where
  "ws_len1 x = ((9 \<le> x \<and> x \<le> 13) \<or> x = 32)"

fun ws_len :: "str \<Rightarrow> nat" where
  "ws_len (a # b # c # _) =
     (if ws_len1 (byte a) then 1 else if ws_len2 (byte a) (byte b) then 2
      else if ws_len3 (byte a) (byte b) (byte c) then 3 else 0)"
| "ws_len [a, b] =
     (if ws_len1 (byte a) then 1 else if ws_len2 (byte a) (byte b) then 2 else 0)"
| "ws_len [a] = (if ws_len1 (byte a) then 1 else 0)"
| "ws_len [] = 0"

lemma ws_len_le: "ws_len s \<le> length s"
  by (induction s rule: ws_len.induct) auto

text \<open>\<open>str::trim_start\<close>.\<close>

function trim_start :: "str \<Rightarrow> str" where
  "trim_start s = (if ws_len s = 0 then s else trim_start (drop (ws_len s) s))"
  by pat_completeness auto
termination
proof (relation "measure length")
  fix s :: str
  assume "ws_len s \<noteq> 0"
  then show "(drop (ws_len s) s, s) \<in> measure length"
    using ws_len_le [of s] by auto
qed simp

declare trim_start.simps [simp del]

text \<open>The length of the white-space scalar \<open>s\<close> ends with.\<close>

definition ws_end :: "str \<Rightarrow> nat \<Rightarrow> bool" where
  "ws_end s n = (n \<le> length s \<and> ws_len (drop (length s - n) s) = n)"

function trim_end :: "str \<Rightarrow> str" where
  "trim_end s =
     (if s = [] then []
      else if ws_end s 1 then trim_end (take (length s - 1) s)
      else if ws_end s 2 then trim_end (take (length s - 2) s)
      else if ws_end s 3 then trim_end (take (length s - 3) s)
      else s)"
  by pat_completeness auto
termination
  by (relation "measure length") (auto simp: ws_end_def)

declare trim_end.simps [simp del]

definition trim :: "str \<Rightarrow> str" where
  "trim s = trim_end (trim_start s)"

text \<open>\<open>s.trim().is_empty()\<close>.\<close>

definition blank :: "str \<Rightarrow> bool" where
  "blank s = (trim s = [])"

text \<open>\<open>s.chars().any(char::is_whitespace)\<close> and \<open>s.chars().any(char::is_control)\<close>
  (general category Cc: U+0000 to U+001F and U+007F to U+009F).\<close>

fun any_whitespace :: "str \<Rightarrow> bool" where
  "any_whitespace [] = False"
| "any_whitespace (c # s) = (0 < ws_len (c # s) \<or> any_whitespace s)"

fun any_control :: "str \<Rightarrow> bool" where
  "any_control [] = False"
| "any_control (c # s) =
     (byte c < 32 \<or> byte c = 127
      \<or> (byte c = 194 \<and> (case s of [] \<Rightarrow> False | d # _ \<Rightarrow> 128 \<le> byte d \<and> byte d \<le> 159))
      \<or> any_control s)"

section \<open>Searching and splitting\<close>

definition starts_with :: "str \<Rightarrow> str \<Rightarrow> bool" where
  "starts_with s p = (take (length p) s = p)"

definition ends_with :: "str \<Rightarrow> str \<Rightarrow> bool" where
  "ends_with s p = (length p \<le> length s \<and> drop (length s - length p) s = p)"

definition strip_prefix :: "str \<Rightarrow> str \<Rightarrow> str option" where
  "strip_prefix s p = (if starts_with s p then Some (drop (length p) s) else None)"

fun contains :: "str \<Rightarrow> str \<Rightarrow> bool" where
  "contains [] p = (p = [])"
| "contains (c # s) p = (starts_with (c # s) p \<or> contains s p)"

text \<open>\<open>s.split(sep).collect()\<close>: always at least one segment.\<close>

fun split_on :: "char \<Rightarrow> str \<Rightarrow> str list" where
  "split_on sep [] = [[]]"
| "split_on sep (c # s) =
     (if c = sep then [] # split_on sep s
      else (case split_on sep s of [] \<Rightarrow> [[c]] | p # ps \<Rightarrow> (c # p) # ps))"

text \<open>\<open>s.rsplit(seps).next()\<close>: the part after the last separator.\<close>

definition after_last :: "char set \<Rightarrow> str \<Rightarrow> str" where
  "after_last seps s = rev (takeWhile (\<lambda>c. c \<notin> seps) (rev s))"

definition replace_char :: "char \<Rightarrow> char \<Rightarrow> str \<Rightarrow> str" where
  "replace_char a b s = map (\<lambda>c. if c = a then b else c) s"

text \<open>\<open>s.chars()\<close> as Unicode scalar values.\<close>

fun chars :: "str \<Rightarrow> nat list" where
  "chars [] = []"
| "chars [a] = [byte a]"
| "chars [a, b] = (if byte a < 128 then byte a # chars [b] else [(byte a mod 32) * 64 + byte b mod 64])"
| "chars [a, b, c] =
     (if byte a < 128 then byte a # chars [b, c]
      else if byte a < 224 then ((byte a mod 32) * 64 + byte b mod 64) # chars [c]
      else [((byte a mod 16) * 64 + byte b mod 64) * 64 + byte c mod 64])"
| "chars (a # b # c # d # s) =
     (if byte a < 128 then byte a # chars (b # c # d # s)
      else if byte a < 224 then ((byte a mod 32) * 64 + byte b mod 64) # chars (c # d # s)
      else if byte a < 240
      then (((byte a mod 16) * 64 + byte b mod 64) * 64 + byte c mod 64) # chars (d # s)
      else ((((byte a mod 8) * 64 + byte b mod 64) * 64 + byte c mod 64) * 64 + byte d mod 64)
             # chars s)"

text \<open>Decimal rendering of a \<open>usize\<close>, as \<open>format!("{}")\<close> gives it.\<close>

fun decimal :: "nat \<Rightarrow> str" where
  "decimal n = (if n < 10 then [char_of (48 + n)] else decimal (n div 10) @ [char_of (48 + n mod 10)])"

declare decimal.simps [simp del]

section \<open>Efficient evaluation\<close>

text \<open>Code equations for evaluating concrete inputs: character classes by the bits of a byte and
  prefix tests by recursion.\<close>

lemma is_ascii_digit_code [code]:
  "is_ascii_digit (Char b0 b1 b2 b3 b4 b5 b6 b7) =
     (\<not> b7 \<and> \<not> b6 \<and> b5 \<and> b4 \<and> \<not> (b3 \<and> (b2 \<or> b1)))"
  by (cases b0; cases b1; cases b2; cases b3; cases b4; cases b5; cases b6; cases b7)
     (simp_all add: is_ascii_digit_def)

lemma is_ascii_uppercase_code [code]:
  "is_ascii_uppercase (Char b0 b1 b2 b3 b4 b5 b6 b7) =
     (\<not> b7 \<and> b6 \<and> \<not> b5 \<and> (b0 \<or> b1 \<or> b2 \<or> b3 \<or> b4) \<and> \<not> (b4 \<and> b3 \<and> (b2 \<or> (b1 \<and> b0))))"
  by (cases b0; cases b1; cases b2; cases b3; cases b4; cases b5; cases b6; cases b7)
     (simp_all add: is_ascii_uppercase_def)

lemma is_ascii_lowercase_code [code]:
  "is_ascii_lowercase (Char b0 b1 b2 b3 b4 b5 b6 b7) =
     (\<not> b7 \<and> b6 \<and> b5 \<and> (b0 \<or> b1 \<or> b2 \<or> b3 \<or> b4) \<and> \<not> (b4 \<and> b3 \<and> (b2 \<or> (b1 \<and> b0))))"
  by (cases b0; cases b1; cases b2; cases b3; cases b4; cases b5; cases b6; cases b7)
     (simp_all add: is_ascii_lowercase_def)

lemma ascii_lower_code [code]:
  "ascii_lower (Char b0 b1 b2 b3 b4 b5 b6 b7) =
     (if is_ascii_uppercase (Char b0 b1 b2 b3 b4 b5 b6 b7) then Char b0 b1 b2 b3 b4 True b6 b7
      else Char b0 b1 b2 b3 b4 b5 b6 b7)"
proof -
  have "byte (ascii_lower (Char b0 b1 b2 b3 b4 b5 b6 b7)) =
      byte (if is_ascii_uppercase (Char b0 b1 b2 b3 b4 b5 b6 b7) then Char b0 b1 b2 b3 b4 True b6 b7
            else Char b0 b1 b2 b3 b4 b5 b6 b7)"
    by (cases b0; cases b1; cases b2; cases b3; cases b4; cases b5; cases b6; cases b7)
       (simp_all add: ascii_lower_def is_ascii_uppercase_code)
  then show ?thesis by (simp only: of_char_eq_iff)
qed

text \<open>A visible ASCII byte neither begins nor ends a white-space scalar.\<close>

fun visible_ascii :: "char \<Rightarrow> bool" where
  "visible_ascii (Char b0 b1 b2 b3 b4 b5 b6 b7) = (\<not> b7 \<and> (b6 \<or> b5 \<and> (b0 \<or> b1 \<or> b2 \<or> b3 \<or> b4)))"

lemma visible_ascii_byte: "visible_ascii c \<longleftrightarrow> 33 \<le> byte c \<and> byte c < 128"
  by (cases c rule: visible_ascii.cases)
     (rename_tac b0 b1 b2 b3 b4 b5 b6 b7,
      case_tac b0; case_tac b1; case_tac b2; case_tac b3; case_tac b4; case_tac b5; case_tac b6; case_tac b7;
      simp)

lemma ws_len_visible: "visible_ascii a \<Longrightarrow> ws_len (a # s) = 0"
  by (induction "a # s" rule: ws_len.induct)
     (auto simp: visible_ascii_byte ws_len1_def ws_len2_def ws_len3_def)

lemma ws_len_code [code]:
  "ws_len [] = 0"
  "ws_len (a # s) =
     (if visible_ascii a then 0 else if ws_len1 (byte a) then 1
      else (case s of [] \<Rightarrow> 0
            | b # t \<Rightarrow> if ws_len2 (byte a) (byte b) then 2
                else (case t of [] \<Rightarrow> 0 | c # _ \<Rightarrow> if ws_len3 (byte a) (byte b) (byte c) then 3 else 0)))"
  by (auto simp: ws_len_visible split: list.splits)

lemma drop_last: "n < length s \<Longrightarrow> \<exists>t. drop n s = t @ [last s] \<and> length t = length s - Suc n"
  by (intro exI [of _ "butlast (drop n s)"]) (simp add: last_drop [symmetric] del: last_drop)

lemma ws_end_visible:
  assumes "s \<noteq> []" and "visible_ascii (last s)" and "0 < n"
  shows "\<not> ws_end s n"
proof
  assume e: "ws_end s n"
  then have n: "n \<le> length s" "ws_len (drop (length s - n) s) = n" by (auto simp: ws_end_def)
  obtain t where t: "drop (length s - n) s = t @ [last s]" "length t = n - 1"
    using drop_last [of "length s - n" s] n assms by auto
  have "ws_len (t @ [c]) \<noteq> Suc (length t)" if "visible_ascii c" for t c
    using that by (cases t rule: ws_len.cases) 
      (auto simp: visible_ascii_byte ws_len1_def ws_len2_def ws_len3_def split: if_splits)
  from this [OF assms(2), of t] t n assms(3) show False by simp
qed

lemma trim_end_code [code]:
  "trim_end s =
     (case rev s of
        [] \<Rightarrow> []
      | c # _ \<Rightarrow>
          if visible_ascii c then s
          else if ws_end s 1 then trim_end (take (length s - 1) s)
          else if ws_end s 2 then trim_end (take (length s - 2) s)
          else if ws_end s 3 then trim_end (take (length s - 3) s)
          else s)"
proof (cases s rule: rev_cases)
  case (snoc t c)
  have "trim_end s = s" if "visible_ascii c"
    using ws_end_visible [of s] that snoc by (subst trim_end.simps) simp
  then show ?thesis using snoc by (cases "visible_ascii c") (simp, subst trim_end.simps, simp)
qed (simp add: trim_end.simps)

lemma ends_with_code [code]: "ends_with s p = starts_with (rev s) (rev p)"
proof -
  have "length p \<le> length s \<Longrightarrow> take (length p) (rev s) = rev (drop (length s - length p) s)"
    by (simp add: take_rev)
  moreover have "take (length p) (rev s) = rev p \<Longrightarrow> length p \<le> length s"
    by (metis length_rev length_take min.cobounded1 nle_le min_def)
  ultimately show ?thesis by (auto simp: ends_with_def starts_with_def)
qed

lemma starts_with_code [code]:
  "starts_with s [] = True"
  "starts_with [] (c # p) = False"
  "starts_with (x # s) (c # p) = (x = c \<and> starts_with s p)"
  by (auto simp: starts_with_def)

section \<open>Lemmas\<close>

lemma starts_with_iff: "starts_with s p \<longleftrightarrow> (\<exists>t. s = p @ t)"
proof
  assume "starts_with s p"
  then have "s = p @ drop (length p) s"
    unfolding starts_with_def by (metis append_take_drop_id)
  then show "\<exists>t. s = p @ t" ..
qed (auto simp: starts_with_def)

lemma starts_with_append [simp]: "starts_with (p @ t) p"
  by (auto simp: starts_with_iff)

lemma strip_prefix_Some: "strip_prefix s p = Some t \<longleftrightarrow> s = p @ t"
  by (auto simp: strip_prefix_def starts_with_iff)

lemma contains_iff: "contains s p \<longleftrightarrow> (\<exists>u t. s = u @ p @ t)"
proof (induction s)
  case (Cons c s)
  have "(\<exists>u t. c # s = u @ p @ t) \<longleftrightarrow> (\<exists>t. c # s = p @ t) \<or> (\<exists>u t. s = u @ p @ t)" (is "?l \<longleftrightarrow> ?r")
  proof
    assume ?l
    then obtain u t where "c # s = u @ p @ t" by blast
    then show ?r by (cases u) auto
  next
    assume ?r
    then show ?l by (metis append_Cons append_Nil)
  qed
  then show ?case by (simp add: starts_with_iff Cons)
qed auto

lemma split_on_nonempty [simp]: "split_on sep s \<noteq> []"
  by (induction s) (auto split: list.splits)

lemma split_on_no_sep: "seg \<in> set (split_on sep s) \<Longrightarrow> sep \<notin> set seg"
proof (induction s arbitrary: seg)
  case (Cons c s)
  obtain p ps where p: "split_on sep s = p # ps"
    by (cases "split_on sep s") auto
  then have "sep \<notin> set p" and "\<And>q. q \<in> set ps \<Longrightarrow> sep \<notin> set q"
    using Cons.IH by auto
  with Cons.prems p show ?case by (auto split: if_splits)
qed simp

lemma blank_Nil [simp]: "blank []"
  by (simp add: blank_def trim_def trim_start.simps trim_end.simps)

lemma no_whitespace_ws_len: "\<not> any_whitespace s \<Longrightarrow> ws_len s = 0"
  by (cases s) auto

lemma any_whitespace_append: "any_whitespace t \<Longrightarrow> any_whitespace (u @ t)"
  by (induction u) auto

lemma no_whitespace_trim:
  assumes "\<not> any_whitespace s"
  shows "trim s = s"
proof -
  have "\<not> ws_end s n" if "0 < n" for n
  proof
    assume e: "ws_end s n"
    let ?t = "drop (length s - n) s"
    have "ws_len ?t \<noteq> 0" using e that by (simp add: ws_end_def)
    then have "any_whitespace ?t" by (rule contrapos_np) (rule no_whitespace_ws_len)
    then have "any_whitespace (take (length s - n) s @ ?t)" by (rule any_whitespace_append)
    then show False using assms by simp
  qed
  then have "\<not> ws_end s 1" "\<not> ws_end s 2" "\<not> ws_end s 3" by simp_all
  then have "trim_end s = s" by (subst trim_end.simps) simp
  moreover have "trim_start s = s"
    using no_whitespace_ws_len [OF assms] by (subst trim_start.simps) simp
  ultimately show ?thesis by (simp add: trim_def)
qed

lemma blank_whitespace: "blank s \<Longrightarrow> s \<noteq> [] \<Longrightarrow> any_whitespace s"
  using no_whitespace_trim [of s] by (auto simp: blank_def)

lemma decimal_digits: "c \<in> set (decimal n) \<Longrightarrow> is_ascii_digit c"
proof (induction n rule: decimal.induct)
  case (1 n)
  show ?case
  proof (cases "n < 10")
    case True
    with 1 show ?thesis by (simp add: decimal.simps [of n] is_ascii_digit_def)
  next
    case False
    with 1 show ?thesis by (auto simp: decimal.simps [of n] is_ascii_digit_def)
  qed
qed

lemma decimal_nonempty: "decimal n \<noteq> []"
  by (subst decimal.simps) simp

lemma decimal_inj: "decimal m = decimal n \<Longrightarrow> m = n"
proof (induction m arbitrary: n rule: decimal.induct)
  case (1 m)
  have digit: "a = b" if "(char_of (48 + a) :: char) = char_of (48 + b)" "a < 10" "b < 10" for a b :: nat
    using arg_cong [OF that(1), of "of_char :: char \<Rightarrow> nat"] that by simp
  have small: "length (decimal k) = 1 \<longleftrightarrow> k < 10" for k
    using decimal_nonempty [of "k div 10"] by (subst decimal.simps) simp
  show ?case
  proof (cases "m < 10")
    case True
    then have "n < 10" using small [of m] small [of n] 1(2) by simp
    with True 1(2) have "(char_of (48 + m) :: char) = char_of (48 + n)"
      by (simp add: decimal.simps [of m] decimal.simps [of n])
    then show ?thesis using True \<open>n < 10\<close> by (rule digit)
  next
    case False
    then have n: "\<not> n < 10" using small [of m] small [of n] 1(2) by simp
    from False n 1(2) have "decimal (m div 10) = decimal (n div 10)"
      and "(char_of (48 + m mod 10) :: char) = char_of (48 + n mod 10)"
      by (simp_all add: decimal.simps [of m] decimal.simps [of n])
    then have "m div 10 = n div 10" and "m mod 10 = n mod 10"
      using 1(1) [OF False, of "n div 10"] digit [of "m mod 10" "n mod 10"] by simp_all
    then show ?thesis by (metis div_mult_mod_eq)
  qed
qed

end
