(* ===== verification/Json_Model.thy ===== *)
theory Json_Model
  imports Rust_Text "HOL-Library.Multiset"
begin

text \<open>
  \<open>serde_json::Value\<close>, the functions of third-party crates the program calls, and the
  canonical JSON encoding of \<open>crates/plurora-core/src/world_bundle.rs\<close>.

  An object is the entry list of \<open>serde_json::Map\<close> (a \<open>BTreeMap\<close>, since the
  workspace does not enable \<open>preserve_order\<close>).
\<close>

datatype json_number = PosInt nat | NegInt int | FloatBits nat

datatype json =
    JNull
  | JBool bool
  | JNum json_number
  | JStr str
  | JArr "json list"
  | JObj "(str \<times> json) list"

text \<open>
  Code outside the repository that the modelled functions call: the Unicode alphanumeric table
  beyond ASCII, the \<open>semver\<close> crate (\<open>Version::parse\<close>, \<open>VersionReq::parse\<close>,
  \<open>VersionReq::matches\<close>), the hexadecimal SHA-256 of the \<open>sha2\<close> crate,
  \<open>serde_json::to_vec\<close> and the RFC 3339 rendering of \<open>chrono\<close>. Every definition
  that calls one of them takes this record as an argument.
\<close>

record ext =
  unicode_alphanumeric :: "nat \<Rightarrow> bool"
  version_parses :: "str \<Rightarrow> bool"
  version_req_parses :: "str \<Rightarrow> bool"
  version_req_matches :: "str \<Rightarrow> str \<Rightarrow> bool"
  sha256_hex :: "str \<Rightarrow> str"
  json_to_vec :: "json \<Rightarrow> str"
  rfc3339 :: "int \<Rightarrow> str"

text \<open>\<open>serde_json::Map::from_iter\<close>: the entries in key order.\<close>

definition jobj :: "(str \<times> json) list \<Rightarrow> json" where
  "jobj fs = JObj (bt_of_list fs)"

text \<open>Serde's field attributes: a field that is always written, one with
  \<open>skip_serializing_if = "Option::is_none"\<close>, and one with \<open>"Vec::is_empty"\<close> or
  \<open>"BTreeMap::is_empty"\<close>.\<close>

definition jfield :: "str \<Rightarrow> json \<Rightarrow> (str \<times> json) list" where
  "jfield k v = [(k, v)]"

definition jopt :: "str \<Rightarrow> ('a \<Rightarrow> json) \<Rightarrow> 'a option \<Rightarrow> (str \<times> json) list" where
  "jopt k f x = (case x of None \<Rightarrow> [] | Some v \<Rightarrow> [(k, f v)])"

definition jarr :: "('a \<Rightarrow> json) \<Rightarrow> 'a list \<Rightarrow> json" where
  "jarr f xs = JArr (map f xs)"

definition jvec :: "str \<Rightarrow> ('a \<Rightarrow> json) \<Rightarrow> 'a list \<Rightarrow> (str \<times> json) list" where
  "jvec k f xs = (if xs = [] then [] else [(k, jarr f xs)])"

definition jmap :: "str \<Rightarrow> (str, json) btree_map \<Rightarrow> (str \<times> json) list" where
  "jmap k m = (if m = [] then [] else [(k, JObj m)])"

abbreviation jnat :: "nat \<Rightarrow> json" where
  "jnat n \<equiv> JNum (PosInt n)"

section \<open>Canonical encoding\<close>

fun sort_json_value :: "json \<Rightarrow> json" where
  "sort_json_value (JArr vs) = JArr (map sort_json_value vs)"
| "sort_json_value (JObj fs) = JObj (bt_of_list (map (\<lambda>(k, v). (k, sort_json_value v)) fs))"
| "sort_json_value v = v"

definition core_canonical_json_bytes :: "ext \<Rightarrow> json \<Rightarrow> str" where
  "core_canonical_json_bytes E v = json_to_vec E (sort_json_value v)"

definition sha256_digest :: "ext \<Rightarrow> str \<Rightarrow> str" where
  "sha256_digest E bytes = ''sha256:'' @ sha256_hex E bytes"

definition is_lower_hex :: "char \<Rightarrow> bool" where
  "is_lower_hex c = (is_ascii_digit c \<or> (97 \<le> byte c \<and> byte c \<le> 102))"

text \<open>\<open>validate_sha256\<close>, whose \<open>anyhow\<close> error every caller replaces.\<close>

definition validate_sha256 :: "str \<Rightarrow> bool" where
  "validate_sha256 digest =
     (case strip_prefix digest ''sha256:'' of
        None \<Rightarrow> False
      | Some hex \<Rightarrow> length hex = 64 \<and> list_all is_lower_hex hex)"

text \<open>What \<open>format!("{:x}", Sha256::digest(bytes))\<close> is documented to produce.\<close>

definition sha256_hex_ok :: "ext \<Rightarrow> bool" where
  "sha256_hex_ok E = (\<forall>b. length (sha256_hex E b) = 64 \<and> list_all is_lower_hex (sha256_hex E b))"

lemma validate_sha256_digest: "sha256_hex_ok E \<Longrightarrow> validate_sha256 (sha256_digest E b)"
  by (simp add: validate_sha256_def sha256_digest_def sha256_hex_ok_def strip_prefix_def
      starts_with_def)

text \<open>Well-formed values: the keys of every object strictly ascend, as in a \<open>BTreeMap\<close>.\<close>

fun json_wf :: "json \<Rightarrow> bool" where
  "json_wf (JArr vs) = (\<forall>v\<in>set vs. json_wf v)"
| "json_wf (JObj fs) = (bt_wf fs \<and> (\<forall>kv\<in>set fs. json_wf (snd kv)))"
| "json_wf v = True"

text \<open>Two values that differ in the order of object entries only, at any depth.\<close>

inductive json_perm :: "json \<Rightarrow> json \<Rightarrow> bool" where
  refl: "json_perm v v"
| arr: "list_all2 json_perm vs ws \<Longrightarrow> json_perm (JArr vs) (JArr ws)"
| obj: "list_all2 (\<lambda>a b. fst a = fst b \<and> json_perm (snd a) (snd b)) fs gs \<Longrightarrow>
        mset gs = mset hs \<Longrightarrow> distinct (map fst hs) \<Longrightarrow> json_perm (JObj fs) (JObj hs)"

lemma bt_wf_eq:
  assumes "bt_wf m" and "bt_wf n" and "bt_get m = bt_get n"
  shows "m = n"
proof -
  have "set m = set n" using assms by (auto simp flip: bt_get_mem)
  then show ?thesis
    using assms(1,2)
    by (intro map_sorted_distinct_set_unique [of fst]) (auto simp: bt_wf_def strict_sorted_iff distinct_map)
qed

lemma bt_of_list_perm:
  assumes "mset es = mset fs" and "distinct (map fst fs)"
  shows "bt_of_list es = bt_of_list fs"
proof (rule bt_wf_eq [OF bt_wf_bt_of_list bt_wf_bt_of_list], rule ext)
  fix k
  have d: "distinct (map fst es)" using assms by (metis mset_map mset_eq_imp_distinct_iff)
  have "map_of (rev es) = map_of (rev fs)"
    using assms d by (intro map_of_eqI)
      (auto simp: set_eq_iff image_iff rev_map [symmetric] dest: mset_eq_setD)
  then show "bt_get (bt_of_list es) k = bt_get (bt_of_list fs) k"
    by (simp add: bt_get_of_list)
qed

lemma bt_of_list_wf:
  assumes "bt_wf m"
  shows "bt_of_list m = m"
proof (rule bt_wf_eq [OF bt_wf_bt_of_list assms], rule ext)
  fix k
  have "map_of (rev m) = map_of m"
    using bt_wf_distinct [OF assms] by (subst map_of_inject_set) (auto simp: rev_map [symmetric])
  then show "bt_get (bt_of_list m) k = bt_get m k" by (simp add: bt_get_of_list)
qed

lemma set_bt_of_list: "set (bt_of_list es) \<subseteq> set es"
proof -
  have "set (fold (\<lambda>(k, v). bt_insert k v) es m) \<subseteq> set es \<union> set m"
    for m :: "('a, 'b) btree_map"
  proof (induction es arbitrary: m)
    case (Cons e es)
    obtain k v where e: "e = (k, v)" by fastforce
    show ?case using Cons.IH [of "bt_insert k v m"] set_bt_insert_subset [of k v m]
      by (auto simp: e)
  qed simp
  from this [of "[]"] show ?thesis by (simp add: bt_of_list_def)
qed

lemma sort_json_value_wf: "json_wf v \<Longrightarrow> sort_json_value v = v"
proof (induction v rule: sort_json_value.induct)
  case (2 fs)
  then have "map (\<lambda>(k, v). (k, sort_json_value v)) fs = fs"
    by (intro map_idI) auto
  with 2 show ?case by (simp add: bt_of_list_wf)
qed (auto intro: map_idI)

lemma json_wf_sort: "json_wf (sort_json_value v)"
proof (induction v rule: sort_json_value.induct)
  case (2 fs)
  let ?gs = "map (\<lambda>(k, v). (k, sort_json_value v)) fs"
  have "\<forall>kv\<in>set ?gs. json_wf (snd kv)" using 2 by fastforce
  then show ?case using set_bt_of_list [of ?gs] by (auto simp: bt_wf_bt_of_list)
qed auto

lemma sort_json_perm: "json_perm v w \<Longrightarrow> sort_json_value v = sort_json_value w"
proof (induction rule: json_perm.induct)
  case (arr vs ws)
  then have "map sort_json_value vs = map sort_json_value ws"
    by (auto simp: list_all2_conv_all_nth intro: nth_equalityI)
  then show ?case by simp
next
  case (obj fs gs hs)
  let ?g = "\<lambda>(k, v). (k, sort_json_value v)"
  have "map ?g fs = map ?g gs"
    using obj(1) by (auto simp: list_all2_conv_all_nth case_prod_beta intro!: nth_equalityI)
  moreover have "mset (map ?g gs) = mset (map ?g hs)" using obj(2) by simp
  moreover have "map fst (map ?g hs) = map fst hs" by (simp add: case_prod_beta comp_def)
  ultimately have "bt_of_list (map ?g fs) = bt_of_list (map ?g hs)"
    using obj(3) by (metis bt_of_list_perm)
  then show ?case by simp
qed simp

section \<open>A concrete instance of the external functions\<close>

text \<open>Used to evaluate the definitions on concrete inputs: a plain rendering of JSON text, a
  64-digit hexadecimal value that distinguishes texts mentioning \<open>nested\<close>, and versions
  compared literally.\<close>

fun json_text :: "json \<Rightarrow> str" where
  "json_text JNull = ''null''"
| "json_text (JBool b) = (if b then ''true'' else ''false'')"
| "json_text (JNum n) = ''0''"
| "json_text (JStr s) = s"
| "json_text (JArr vs) = concat (map (\<lambda>v. json_text v @ '','') vs)"
| "json_text (JObj fs) = concat (map (\<lambda>kv. fst kv @ '':'' @ json_text (snd kv) @ '','') fs)"

definition sample_ext :: ext where
  "sample_ext = \<lparr>unicode_alphanumeric = (\<lambda>_. False), version_parses = (\<lambda>v. v \<noteq> []),
     version_req_parses = (\<lambda>v. v \<noteq> []), version_req_matches = (\<lambda>r v. r = v),
     sha256_hex = (\<lambda>b. replicate 64 (if contains b ''nested'' then CHR ''c'' else CHR ''a'')),
     json_to_vec = json_text, rfc3339 = (\<lambda>_. ''2026-08-09T00:00:00Z'')\<rparr>"

lemma sample_sha256_ok: "sha256_hex_ok sample_ext"
proof -
  have "is_lower_hex (CHR ''a'')" "is_lower_hex (CHR ''c'')" by code_simp+
  then show ?thesis by (simp add: sha256_hex_ok_def sample_ext_def list_all_iff)
qed

end
