(* ===== verification/Secrets.thy ===== *)
theory Secrets
  imports Json_Model
begin

text \<open>
  \<open>crates/plurora-core/src/secret_ref.rs\<close>: the grammar of secret references and the
  heuristics that recognise a raw secret or a secret-bearing field name.
\<close>

definition SECRET_REF_PREFIX :: str where
  "SECRET_REF_PREFIX = ''secret_ref:''"

definition SECRET_REF_ALT_PREFIXES :: "str list" where
  "SECRET_REF_ALT_PREFIXES = [''secretRef:'', ''secret-ref:'']"

definition SECRET_FIELD_NAMES :: "str list" where
  "SECRET_FIELD_NAMES =
     [''api_key'', ''apikey'', ''api_secret'', ''apisecret'', ''secret_key'', ''secretkey'',
      ''secret'', ''token'', ''access_token'', ''access_secret'', ''auth_token'', ''password'',
      ''passwd'', ''private_key'', ''privatekey'', ''credential'', ''credentials'',
      ''bearer_token'', ''x-api-key'']"

text \<open>The parts of \<open>s.splitn(2, ':')\<close>; a missing second part reads as the empty string.\<close>

definition before_colon :: "str \<Rightarrow> str" where
  "before_colon s = takeWhile (\<lambda>c. c \<noteq> CHR '':'') s"

definition after_colon :: "str \<Rightarrow> str" where
  "after_colon s = drop 1 (dropWhile (\<lambda>c. c \<noteq> CHR '':'') s)"

definition is_valid_ref :: "str \<Rightarrow> bool" where
  "is_valid_ref s =
     (if starts_with s SECRET_REF_PREFIX \<or> list_ex (starts_with s) SECRET_REF_ALT_PREFIXES
      then let after_prefix = after_colon s;
               vault = before_colon after_prefix;
               key = after_colon after_prefix
           in vault \<noteq> [] \<and> vault \<noteq> ''project'' \<and> key \<noteq> []
      else if starts_with s ''host:'' then 5 < length s
      else False)"

definition env_name_ok :: "str \<Rightarrow> bool" where
  "env_name_ok rest =
     (case strip_prefix rest ''env:'' of None \<Rightarrow> False | Some name \<Rightarrow> name \<noteq> [])"

definition is_env_backed_ref :: "str \<Rightarrow> bool" where
  "is_env_backed_ref s =
     (case strip_prefix s ''secret_ref:'' of Some rest \<Rightarrow> env_name_ok rest | None \<Rightarrow>
      (case strip_prefix s ''secretRef:'' of Some rest \<Rightarrow> env_name_ok rest | None \<Rightarrow>
      (case strip_prefix s ''secret-ref:'' of Some rest \<Rightarrow> env_name_ok rest | None \<Rightarrow>
      (case strip_prefix s ''host:'' of Some rest \<Rightarrow> env_name_ok rest | None \<Rightarrow> False))))"

text \<open>The \<open>for prefix in [...]\<close> loop of \<open>extract_store_name\<close> and
  \<open>extract_installation_name\<close>: the first prefix that matches decides.\<close>

fun extract_name :: "str \<Rightarrow> str list \<Rightarrow> str \<Rightarrow> str option" where
  "extract_name vault [] ref_id = None"
| "extract_name vault (p # ps) ref_id =
     (case strip_prefix ref_id p of
        None \<Rightarrow> extract_name vault ps ref_id
      | Some rest \<Rightarrow>
          (case strip_prefix rest vault of
             None \<Rightarrow> None
           | Some name \<Rightarrow> if name \<noteq> [] then Some name else None))"

definition extract_store_name :: "str \<Rightarrow> str option" where
  "extract_store_name ref_id =
     extract_name ''store:'' [''secret_ref:'', ''secretRef:'', ''secret-ref:''] ref_id"

definition is_store_backed_ref :: "str \<Rightarrow> bool" where
  "is_store_backed_ref s = (extract_store_name s \<noteq> None)"

definition extract_installation_name :: "str \<Rightarrow> str option" where
  "extract_installation_name ref_id =
     extract_name ''installation:'' [''secret_ref:'', ''secretRef:'', ''secret-ref:''] ref_id"

definition is_installation_backed_ref :: "str \<Rightarrow> bool" where
  "is_installation_backed_ref s = (extract_installation_name s \<noteq> None)"

text \<open>\<open>char::is_alphanumeric\<close>: the ASCII part is fixed, the rest is the Unicode table.\<close>

definition is_alphanumeric :: "ext \<Rightarrow> nat \<Rightarrow> bool" where
  "is_alphanumeric E n =
     (if n < 128 then is_ascii_alphanumeric (char_of n) else unicode_alphanumeric E n)"

definition looks_like_raw_secret :: "ext \<Rightarrow> str \<Rightarrow> bool" where
  "looks_like_raw_secret E value =
     (if is_valid_ref value then False
      else if starts_with value ''Bearer '' \<or> starts_with value ''bearer '' then True
      else if 32 \<le> length value
           \<and> list_all (\<lambda>n. is_alphanumeric E n \<or> n = 95 \<or> n = 45 \<or> n = 46) (chars value)
           \<and> ((list_ex is_ascii_uppercase value \<and> list_ex is_ascii_lowercase value
                \<and> list_ex is_ascii_digit value)
              \<or> list_all is_ascii_hexdigit value)
      then True
      else if starts_with value ''sk-'' \<or> starts_with value ''sk_'' then True
      else False)"

lemma looks_like_raw_secret_code [code]:
  "looks_like_raw_secret E value =
     (if is_valid_ref value then False
      else if starts_with value ''Bearer '' \<or> starts_with value ''bearer '' then True
      else if 32 \<le> length value
           \<and> ((list_ex is_ascii_uppercase value \<and> list_ex is_ascii_lowercase value
                \<and> list_ex is_ascii_digit value)
              \<or> list_all is_ascii_hexdigit value)
           \<and> list_all (\<lambda>n. is_alphanumeric E n \<or> n = 95 \<or> n = 45 \<or> n = 46) (chars value)
      then True
      else starts_with value ''sk-'' \<or> starts_with value ''sk_'')"
  unfolding looks_like_raw_secret_def by auto

text \<open>
  \<open>str::to_lowercase\<close>, as far as a comparison with ASCII text can see it: ASCII letters, and
  the two other scalars whose lower case has an ASCII part, U+212A (the Kelvin sign, to
  \<open>k\<close>) and U+0130 (to \<open>i\<close> and a combining dot). Every other scalar is mapped to scalars beyond
  ASCII, and is left as it is here.
\<close>

fun to_lowercase :: "str \<Rightarrow> str" where
  "to_lowercase (a # b # c # s) =
     (if byte a = 226 \<and> byte b = 132 \<and> byte c = 170 then CHR ''k'' # to_lowercase s
      else if byte a = 196 \<and> byte b = 176
      then CHR ''i'' # char_of (204 :: nat) # char_of (135 :: nat) # to_lowercase (c # s)
      else ascii_lower a # to_lowercase (b # c # s))"
| "to_lowercase [a, b] =
     (if byte a = 196 \<and> byte b = 176
      then [CHR ''i'', char_of (204 :: nat), char_of (135 :: nat)]
      else [ascii_lower a, ascii_lower b])"
| "to_lowercase [a] = [ascii_lower a]"
| "to_lowercase [] = []"

definition is_secret_field_name :: "str \<Rightarrow> bool" where
  "is_secret_field_name field_name =
     (let lower = to_lowercase field_name
      in lower \<in> set SECRET_FIELD_NAMES
         \<or> contains lower ''secret'' \<and> \<not> contains lower ''secret_ref''
           \<and> \<not> contains lower ''secretref'' \<and> \<not> contains lower ''secret-ref'')"

section \<open>Properties\<close>

lemmas secret_prefix_defs = SECRET_REF_PREFIX_def SECRET_REF_ALT_PREFIXES_def

lemma extract_name_Some:
  "extract_name vault ps r = Some n \<Longrightarrow> n \<noteq> [] \<and> (\<exists>p\<in>set ps. r = p @ vault @ n)"
  by (induction ps) (auto simp: strip_prefix_Some split: option.splits if_splits)

lemma env_backed_forms:
  "is_env_backed_ref s \<Longrightarrow>
     \<exists>p\<in>set [''secret_ref:'', ''secretRef:'', ''secret-ref:'', ''host:'']. \<exists>n. n \<noteq> [] \<and> s = p @ ''env:'' @ n"
  unfolding is_env_backed_ref_def env_name_ok_def
  by (simp add: strip_prefix_Some split: option.splits)

text \<open>The vault of a reference is the text between its first and second colon.\<close>

definition vault_of :: "str \<Rightarrow> str" where
  "vault_of s = before_colon (after_colon s)"

lemma after_colon_prefix:
  "p \<in> set [''secret_ref:'', ''secretRef:'', ''secret-ref:'', ''host:''] \<Longrightarrow> after_colon (p @ r) = r"
  by (auto simp: after_colon_def)

lemma split_at_colon:
  assumes "CHR '':'' \<notin> set v"
  shows "before_colon (v @ CHR '':'' # n) = v" "after_colon (v @ CHR '':'' # n) = n"
proof -
  have "dropWhile (\<lambda>c. c \<noteq> CHR '':'') (v @ CHR '':'' # n) = CHR '':'' # n"
    using assms by (induction v) auto
  then show "after_colon (v @ CHR '':'' # n) = n" by (simp add: after_colon_def)
  show "before_colon (v @ CHR '':'' # n) = v"
    using assms by (induction v) (auto simp: before_colon_def)
qed

lemma is_valid_ref_vault:
  assumes "p \<in> set [''secret_ref:'', ''secretRef:'', ''secret-ref:'']"
    and "CHR '':'' \<notin> set v" and "v \<noteq> []" and "v \<noteq> ''project''" and "n \<noteq> []"
  shows "is_valid_ref (p @ v @ CHR '':'' # n)"
proof -
  have "starts_with (p @ v @ CHR '':'' # n) SECRET_REF_PREFIX
      \<or> list_ex (starts_with (p @ v @ CHR '':'' # n)) SECRET_REF_ALT_PREFIXES"
    using assms(1) by (auto simp: secret_prefix_defs starts_with_def)
  moreover have "after_colon (p @ v @ CHR '':'' # n) = v @ CHR '':'' # n"
    using assms(1) by (intro after_colon_prefix) auto
  ultimately show ?thesis
    using assms by (simp add: is_valid_ref_def split_at_colon Let_def)
qed

lemma vault_of_prefix:
  assumes "p \<in> set [''secret_ref:'', ''secretRef:'', ''secret-ref:'', ''host:'']"
    and "CHR '':'' \<notin> set v"
  shows "vault_of (p @ v @ CHR '':'' # n) = v"
  unfolding vault_of_def after_colon_prefix [OF assms(1)] by (rule split_at_colon(1) [OF assms(2)])

lemma extracted_name_valid:
  assumes "extract_name (v @ '':'') [''secret_ref:'', ''secretRef:'', ''secret-ref:''] s = Some n"
    and "CHR '':'' \<notin> set v" and "v \<noteq> []" and "v \<noteq> ''project''"
  shows "is_valid_ref s \<and> vault_of s = v"
proof -
  from extract_name_Some [OF assms(1)] obtain p
    where p: "p \<in> set [''secret_ref:'', ''secretRef:'', ''secret-ref:'']"
      and "s = p @ (v @ '':'') @ n" and n: "n \<noteq> []" by blast
  then have s: "s = p @ v @ CHR '':'' # n" by simp
  have "p \<in> set [''secret_ref:'', ''secretRef:'', ''secret-ref:'', ''host:'']" using p by auto
  then show ?thesis unfolding s
    using is_valid_ref_vault [OF p assms(2-4) n] vault_of_prefix [OF _ assms(2)] by blast
qed

lemma store_backed_valid: "is_store_backed_ref s \<Longrightarrow> is_valid_ref s \<and> vault_of s = ''store''"
  unfolding is_store_backed_ref_def extract_store_name_def
  using extracted_name_valid [of "''store''" s] by auto

lemma installation_backed_valid:
  "is_installation_backed_ref s \<Longrightarrow> is_valid_ref s \<and> vault_of s = ''installation''"
  unfolding is_installation_backed_ref_def extract_installation_name_def
  using extracted_name_valid [of "''installation''" s] by auto

lemma env_backed_valid:
  assumes "is_env_backed_ref s"
  shows "is_valid_ref s \<and> vault_of s = ''env''"
proof -
  from env_backed_forms [OF assms] obtain p n
    where p: "p \<in> set [''secret_ref:'', ''secretRef:'', ''secret-ref:'', ''host:'']"
      and n: "n \<noteq> []" and "s = p @ ''env:'' @ n" by blast
  then have s: "s = p @ ''env'' @ CHR '':'' # n" by simp
  have "is_valid_ref s"
  proof (cases "p = ''host:''")
    case True
    then show ?thesis
      using n by (simp add: s is_valid_ref_def secret_prefix_defs starts_with_def)
  next
    case False
    with p have "p \<in> set [''secret_ref:'', ''secretRef:'', ''secret-ref:'']" by auto
    then show ?thesis unfolding s using n by (intro is_valid_ref_vault) auto
  qed
  moreover have "vault_of s = ''env''" unfolding s by (rule vault_of_prefix [OF p]) simp
  ultimately show ?thesis by simp
qed

text \<open>A reference that the environment, store or installation resolver accepts is a valid
  secret reference, is never mistaken for a raw secret, and belongs to exactly one of the
  three kinds, so no reference can be resolved through two vaults.\<close>

theorem backed_refs_accepted_and_exclusive:
  assumes "is_env_backed_ref s \<or> is_store_backed_ref s \<or> is_installation_backed_ref s"
  shows "is_valid_ref s \<and> \<not> looks_like_raw_secret E s
    \<and> length (filter (\<lambda>kind. kind s)
        [is_env_backed_ref, is_store_backed_ref, is_installation_backed_ref]) = 1"
proof -
  have valid: "is_valid_ref s"
    using assms env_backed_valid store_backed_valid installation_backed_valid by blast
  then have "\<not> looks_like_raw_secret E s" by (simp add: looks_like_raw_secret_def)
  then show ?thesis
    using valid assms env_backed_valid [of s] store_backed_valid [of s]
      installation_backed_valid [of s] by auto
qed

theorem backed_refs_accepted_and_exclusive_witness:
  "is_store_backed_ref ''secret_ref:store:KEY'' \<and> is_valid_ref ''secret_ref:store:KEY''
   \<and> \<not> looks_like_raw_secret undefined ''secret_ref:store:KEY''"
proof -
  have h: "is_store_backed_ref ''secret_ref:store:KEY''" by code_simp
  show ?thesis using backed_refs_accepted_and_exclusive [of "''secret_ref:store:KEY''" undefined] h
    by blast
qed

end
