(* ===== verification/Canonical.thy ===== *)
theory Canonical
  imports Secrets
begin

text \<open>
  \<open>crates/plurora-work/src/canonical.rs\<close> with \<open>ArtifactDescriptor\<close> of
  \<open>crates/plurora-core/src/asset.rs\<close> and \<open>CanonicalArtifactObject\<close> of
  \<open>package.rs\<close>: the redlines every portable value must respect, content addressing, and
  the \<open>ArtifactModel\<close> trait, whose contract is the locale \<open>artifact_model\<close>.
\<close>

section \<open>Artifact descriptors\<close>

record artifact_descriptor =
  ad_artifact_type_uri :: str
  ad_media_type :: str
  ad_digest :: str
  ad_size_bytes :: u64
  ad_references :: "str list"
  ad_annotations :: "(str, json) btree_map"

definition artifact_descriptor_value :: "artifact_descriptor \<Rightarrow> json" where
  "artifact_descriptor_value d = jobj
     (jfield ''artifact_type_uri'' (JStr (ad_artifact_type_uri d))
      @ jfield ''media_type'' (JStr (ad_media_type d))
      @ jfield ''digest'' (JStr (ad_digest d))
      @ jfield ''size_bytes'' (jnat (unat (ad_size_bytes d)))
      @ jfield ''references'' (jarr JStr (ad_references d))
      @ jfield ''annotations'' (JObj (ad_annotations d)))"

section \<open>Portable values\<close>

definition secret_value_field :: "str \<Rightarrow> bool" where
  "secret_value_field key =
     (let lower = to_ascii_lowercase key
      in is_secret_field_name key
         \<and> \<not> ends_with lower ''_id'' \<and> \<not> ends_with lower ''_ids'' \<and> \<not> ends_with lower ''_policy''
         \<and> \<not> ends_with lower ''_requirements'' \<and> \<not> ends_with lower ''_imports''
         \<and> \<not> ends_with lower ''_scope'')"

abbreviation backslash :: char where
  "backslash \<equiv> CHR 0x5C"

fun drive_absolute :: "str \<Rightarrow> bool" where
  "drive_absolute (a # b # c # _) =
     (is_ascii_alphabetic a \<and> b = CHR '':'' \<and> (c = CHR ''/'' \<or> c = backslash))"
| "drive_absolute _ = False"

definition is_json_pointer :: "str \<Rightarrow> str option \<Rightarrow> bool" where
  "is_json_pointer trimmed field_name =
     (case field_name of
        None \<Rightarrow> False
      | Some f \<Rightarrow>
          (let field = to_ascii_lowercase f
           in (contains field ''json_pointer'' \<or> contains field ''json-pointer'')
              \<and> starts_with trimmed ''/''))"

definition looks_like_host_path :: "str \<Rightarrow> str option \<Rightarrow> bool" where
  "looks_like_host_path value field_name =
     (let trimmed = trim value; lower = to_ascii_lowercase trimmed
      in if trimmed = [] then False
         else drive_absolute trimmed
            \<or> (starts_with trimmed ''/'' \<and> \<not> is_json_pointer trimmed field_name)
            \<or> starts_with trimmed [backslash, backslash]
            \<or> starts_with trimmed ''~/''
            \<or> starts_with trimmed [CHR ''~'', backslash]
            \<or> trimmed = ''..''
            \<or> starts_with trimmed ''../''
            \<or> starts_with trimmed (''..'' @ [backslash])
            \<or> contains trimmed ''/../''
            \<or> contains trimmed ([backslash] @ ''..'' @ [backslash])
            \<or> starts_with lower ''file:''
            \<or> starts_with lower ''unix:'')"

text \<open>The value allowed under a secret-bearing key.\<close>

definition secret_slot_ok :: "json \<Rightarrow> bool" where
  "secret_slot_ok v =
     (case v of
        JNull \<Rightarrow> True
      | JStr reference \<Rightarrow> is_valid_ref reference
      | JArr refs \<Rightarrow> list_all (\<lambda>r. case r of JStr s \<Rightarrow> is_valid_ref s | _ \<Rightarrow> False) refs
      | _ \<Rightarrow> False)"

text \<open>The checks on one object entry before the walk enters its value.\<close>

definition check_object_entry :: "ext \<Rightarrow> str \<Rightarrow> json \<Rightarrow> unit model_result" where
  "check_object_entry E key value =
     (if looks_like_raw_secret E key \<or> looks_like_host_path key None
      then Inl (Err (if looks_like_host_path key None then RawPath else RawSecret))
      else if secret_value_field key \<and> \<not> secret_slot_ok value then Inl (Err RawSecret)
      else Inr ())"

definition check_string :: "ext \<Rightarrow> str \<Rightarrow> str option \<Rightarrow> unit model_result" where
  "check_string E value field_name =
     (if looks_like_raw_secret E value then Inl (Err RawSecret)
      else if looks_like_host_path value field_name then Inl (Err RawPath)
      else Inr ())"

fun validate_portable_value_at :: "ext \<Rightarrow> json \<Rightarrow> str option \<Rightarrow> unit model_result" where
  "validate_portable_value_at E (JArr vs) f = each (\<lambda>v. validate_portable_value_at E v f) vs"
| "validate_portable_value_at E (JObj fs) f =
     each (\<lambda>kv. and_then (check_object_entry E (fst kv) (snd kv))
                  (\<lambda>_. validate_portable_value_at E (snd kv) (Some (fst kv)))) fs"
| "validate_portable_value_at E (JStr s) f = check_string E s f"
| "validate_portable_value_at E v f = Inr ()"

definition validate_portable_value :: "ext \<Rightarrow> json \<Rightarrow> unit model_result" where
  "validate_portable_value E v = validate_portable_value_at E v None"

section \<open>Canonical metadata\<close>

definition is_volatile_metadata_key :: "str \<Rightarrow> bool" where
  "is_volatile_metadata_key key =
     (let normalized = to_ascii_lowercase (replace_char (CHR ''-'') (CHR ''_'')
                         (after_last {CHR ''/'', CHR '':''} key))
      in normalized \<in> set [''generated_at'', ''build_time'', ''current_time'', ''pid'',
           ''process_id'', ''actual_port'', ''host_port'', ''temporary_id'', ''temp_id'',
           ''random_id''])"

definition opens_metadata :: "str \<Rightarrow> bool" where
  "opens_metadata key =
     (to_ascii_lowercase key \<in> set [''annotations'', ''extensions'', ''properties''])"

fun validate_canonical_value :: "json \<Rightarrow> bool \<Rightarrow> unit model_result" where
  "validate_canonical_value (JArr vs) open_md = each (\<lambda>v. validate_canonical_value v open_md) vs"
| "validate_canonical_value (JObj fs) open_md =
     each (\<lambda>kv. let child = open_md \<or> opens_metadata (fst kv)
                in if child \<and> is_volatile_metadata_key (fst kv) then Inl (Err WorkInvalid)
                   else validate_canonical_value (snd kv) child) fs"
| "validate_canonical_value v open_md = Inr ()"

definition MAX_CANONICAL_METADATA_BYTES :: nat where
  "MAX_CANONICAL_METADATA_BYTES = 4 * 1024 * 1024"

definition canonical_json_bytes :: "ext \<Rightarrow> json \<Rightarrow> str model_result" where
  "canonical_json_bytes E v =
     (let bytes = core_canonical_json_bytes E v
      in if MAX_CANONICAL_METADATA_BYTES < length bytes then Inl (Err ArtifactBudgetExceeded)
         else Inr bytes)"

definition canonical_digest :: "ext \<Rightarrow> json \<Rightarrow> str model_result" where
  "canonical_digest E v =
     and_then (validate_portable_value E v) (\<lambda>_.
     and_then (validate_canonical_value v False) (\<lambda>_.
     and_then (canonical_json_bytes E v) (\<lambda>bytes. Inr (sha256_digest E bytes))))"

section \<open>Descriptor validation\<close>

definition validate_artifact_descriptor :: "ext \<Rightarrow> artifact_descriptor \<Rightarrow> unit model_result" where
  "validate_artifact_descriptor E d = all_ok
     [ensure (\<not> (blank (ad_artifact_type_uri d) \<or> blank (ad_media_type d))) WorkInvalid,
      ensure (validate_sha256 (ad_digest d)) ArtifactDigestMismatch,
      unique_loop
        (\<lambda>r. all_ok [ensure (validate_sha256 r) ArtifactDigestMismatch,
                     ensure (r \<noteq> ad_digest d) ArtifactDigestMismatch])
        id (Err ArtifactDigestMismatch) no_check {} (ad_references d),
      validate_portable_value E (JObj (ad_annotations d))]"

definition validate_descriptor_type ::
    "ext \<Rightarrow> artifact_descriptor \<Rightarrow> str \<Rightarrow> unit model_result" where
  "validate_descriptor_type E d expected =
     all_ok [validate_artifact_descriptor E d,
             ensure (ad_artifact_type_uri d = expected) WorkInvalid]"

section \<open>The \<open>ArtifactModel\<close> trait\<close>

text \<open>The trait's default methods, over an implementer's \<open>validate\<close>, its serialisation,
  its \<open>referenced_artifacts\<close> and its \<open>descriptor_annotations\<close>.\<close>

definition canonical_bytes ::
    "ext \<Rightarrow> ('a \<Rightarrow> unit model_result) \<Rightarrow> ('a \<Rightarrow> json) \<Rightarrow> 'a \<Rightarrow> str model_result" where
  "canonical_bytes E validate to_value x =
     and_then (validate x) (\<lambda>_.
     and_then (validate_portable_value E (to_value x)) (\<lambda>_.
     and_then (validate_canonical_value (to_value x) False) (\<lambda>_.
     canonical_json_bytes E (to_value x))))"

definition model_descriptor :: "ext \<Rightarrow> ('a \<Rightarrow> unit model_result) \<Rightarrow> ('a \<Rightarrow> json) \<Rightarrow> str
    \<Rightarrow> ('a \<Rightarrow> artifact_descriptor list) \<Rightarrow> ('a \<Rightarrow> (str, json) btree_map) \<Rightarrow> 'a
    \<Rightarrow> artifact_descriptor model_result" where
  "model_descriptor E validate to_value type_uri referenced annots x =
     and_then (canonical_bytes E validate to_value x) (\<lambda>bytes.
     and_then (each (validate_artifact_descriptor E) (referenced x)) (\<lambda>_.
     Inr \<lparr>ad_artifact_type_uri = type_uri, ad_media_type = ''application/json'',
          ad_digest = sha256_digest E bytes, ad_size_bytes = of_nat (length bytes),
          ad_references = sorted_list_of_set (ad_digest ` set (referenced x)),
          ad_annotations = annots x\<rparr>))"

record canonical_artifact_object =
  cao_descriptor :: artifact_descriptor
  cao_bytes :: str

definition canonical_artifact_object_new ::
    "ext \<Rightarrow> artifact_descriptor \<Rightarrow> str \<Rightarrow> canonical_artifact_object model_result" where
  "canonical_artifact_object_new E d bytes =
     and_then (validate_artifact_descriptor E d) (\<lambda>_.
       if ad_digest d \<noteq> sha256_digest E bytes \<or> ad_size_bytes d \<noteq> of_nat (length bytes)
       then Inl (Err ArtifactDigestMismatch)
       else Inr \<lparr>cao_descriptor = d, cao_bytes = bytes\<rparr>)"

definition canonical_artifact_object_from_model :: "ext \<Rightarrow> ('a \<Rightarrow> unit model_result)
    \<Rightarrow> ('a \<Rightarrow> json) \<Rightarrow> str \<Rightarrow> ('a \<Rightarrow> artifact_descriptor list)
    \<Rightarrow> ('a \<Rightarrow> (str, json) btree_map) \<Rightarrow> 'a \<Rightarrow> canonical_artifact_object model_result" where
  "canonical_artifact_object_from_model E validate to_value type_uri referenced annots x =
     and_then (canonical_bytes E validate to_value x) (\<lambda>bytes.
     and_then (model_descriptor E validate to_value type_uri referenced annots x)
       (\<lambda>d. canonical_artifact_object_new E d bytes))"

section \<open>Lemmas\<close>

text \<open>The occurrences of a value inside another, each with the field name the walk carries:
  the innermost object key above it.\<close>

inductive occurs :: "json \<Rightarrow> str option \<Rightarrow> json \<Rightarrow> str option \<Rightarrow> bool" where
  here: "occurs v f v f"
| elem: "v \<in> set vs \<Longrightarrow> occurs v f w g \<Longrightarrow> occurs (JArr vs) f w g"
| entry: "(k, v) \<in> set fs \<Longrightarrow> occurs v (Some k) w g \<Longrightarrow> occurs (JObj fs) f w g"

inductive_simps occurs_simps:
  "occurs (JArr vs) f w g"
  "occurs (JObj fs) f w g"
  "occurs (JStr s) f w g"
  "occurs (JNum n) f w g"
  "occurs (JBool b) f w g"
  "occurs JNull f w g"

text \<open>What a portable value must satisfy at each of its occurrences.\<close>

definition portable_at :: "ext \<Rightarrow> json \<Rightarrow> str option \<Rightarrow> bool" where
  "portable_at E w f =
     (case w of
        JStr s \<Rightarrow> \<not> looks_like_raw_secret E s \<and> \<not> looks_like_host_path s f
      | JObj fs \<Rightarrow> list_all (\<lambda>(k, v). \<not> looks_like_raw_secret E k \<and> \<not> looks_like_host_path k None
                             \<and> (secret_value_field k \<longrightarrow> secret_slot_ok v)) fs
      | _ \<Rightarrow> True)"

lemma check_object_entry_Inr [res_simps]:
  "check_object_entry E k v = Inr u \<longleftrightarrow>
     \<not> looks_like_raw_secret E k \<and> \<not> looks_like_host_path k None
     \<and> (secret_value_field k \<longrightarrow> secret_slot_ok v)"
  by (auto simp: check_object_entry_def)

lemma check_string_Inr [res_simps]:
  "check_string E s f = Inr u \<longleftrightarrow> \<not> looks_like_raw_secret E s \<and> \<not> looks_like_host_path s f"
  by (auto simp: check_string_def)

lemma portable_at_sound:
  "occurs v f w g \<Longrightarrow> validate_portable_value_at E v f = Inr () \<Longrightarrow> portable_at E w g"
proof (induction rule: occurs.induct)
  case (here v f)
  then show ?case
    by (cases v) (auto simp: portable_at_def res_simps list_all_iff)
qed (fastforce simp: res_simps)+

lemma portable_at_complete:
  "(\<And>w g. occurs v f w g \<Longrightarrow> portable_at E w g) \<Longrightarrow> validate_portable_value_at E v f = Inr ()"
proof (induction E v f rule: validate_portable_value_at.induct)
  case (2 E fs f)
  have top: "portable_at E (JObj fs) f" using 2(2) here by blast
  show ?case
  proof (simp add: res_simps, intro ballI conjI)
    fix kv assume kv: "kv \<in> set fs"
    obtain k v where kv_eq: "kv = (k, v)" by fastforce
    from top kv show "\<not> looks_like_raw_secret E (fst kv)" "\<not> looks_like_host_path (fst kv) None"
      "secret_value_field (fst kv) \<longrightarrow> secret_slot_ok (snd kv)"
      by (auto simp: portable_at_def list_all_iff kv_eq)
    show "validate_portable_value_at E (snd kv) (Some (fst kv)) = Inr ()"
    proof (rule 2(1) [OF kv])
      show "check_object_entry E (fst kv) (snd kv) = Inr ()"
        using top kv by (auto simp: portable_at_def list_all_iff kv_eq check_object_entry_Inr)
      fix w g assume "occurs (snd kv) (Some (fst kv)) w g"
      then show "portable_at E w g" using kv by (intro 2(2)) (auto simp: kv_eq intro: entry)
    qed
  qed
next
  case (1 E vs f)
  then show ?case by (auto simp: each_Inr intro: elem)
next
  case (3 E s f)
  from 3 [OF here] show ?case by (simp add: portable_at_def check_string_Inr)
qed simp_all

lemma validate_portable_value_iff:
  "validate_portable_value E v = Inr () \<longleftrightarrow> (\<forall>w f. occurs v None w f \<longrightarrow> portable_at E w f)"
  unfolding validate_portable_value_def using portable_at_sound portable_at_complete by blast

lemma validate_portable_value_fault:
  "validate_portable_value E v = Inl e \<Longrightarrow> e = Err RawSecret \<or> e = Err RawPath"
proof -
  have "validate_portable_value_at E v f = Inl e \<Longrightarrow> e = Err RawSecret \<or> e = Err RawPath" for f
  proof (induction E v f rule: validate_portable_value_at.induct)
    case (2 E fs f)
    then obtain kv where kv: "kv \<in> set fs"
      "and_then (check_object_entry E (fst kv) (snd kv))
         (\<lambda>_. validate_portable_value_at E (snd kv) (Some (fst kv))) = Inl e"
      by (auto dest: each_Inl)
    show ?case
    proof (cases "check_object_entry E (fst kv) (snd kv)")
      case (Inl e')
      with kv show ?thesis by (auto simp: check_object_entry_def split: if_splits)
    next
      case (Inr u)
      with kv 2(1) [OF kv(1)] show ?thesis by simp
    qed
  qed (auto simp: check_string_def split: if_splits dest!: each_Inl)
  then show "validate_portable_value E v = Inl e \<Longrightarrow> e = Err RawSecret \<or> e = Err RawPath"
    by (simp add: validate_portable_value_def)
qed

lemma validate_canonical_value_fault: "validate_canonical_value v b = Inl e \<Longrightarrow> e = Err WorkInvalid"
  by (induction v b rule: validate_canonical_value.induct)
     (auto simp: Let_def split: if_splits dest!: each_Inl)

lemma validate_artifact_descriptor_Inr [res_simps]:
  "validate_artifact_descriptor E d = Inr u \<longleftrightarrow>
     \<not> blank (ad_artifact_type_uri d) \<and> \<not> blank (ad_media_type d)
     \<and> validate_sha256 (ad_digest d)
     \<and> distinct (ad_references d) \<and> ad_digest d \<notin> set (ad_references d)
     \<and> (\<forall>r\<in>set (ad_references d). validate_sha256 r)
     \<and> validate_portable_value E (JObj (ad_annotations d)) = Inr ()"
  by (auto simp: validate_artifact_descriptor_def res_simps)

lemma validate_descriptor_type_Inr [res_simps]:
  "validate_descriptor_type E d uri = Inr u \<longleftrightarrow>
     validate_artifact_descriptor E d = Inr () \<and> ad_artifact_type_uri d = uri"
  by (auto simp: validate_descriptor_type_def all_ok_Inr ensure_Inr)

lemma validate_portable_value_no_panic [simp]: "validate_portable_value E v \<noteq> Inl Panic"
  by (auto dest: validate_portable_value_fault)

lemma validate_artifact_descriptor_no_panic [simp]:
  "validate_artifact_descriptor E d \<noteq> Inl Panic"
  by (simp add: validate_artifact_descriptor_def no_panic)

lemma validate_descriptor_type_no_panic [simp]: "validate_descriptor_type E d uri \<noteq> Inl Panic"
  by (simp add: validate_descriptor_type_def no_panic)

lemma canonical_bytes_Inr [res_simps]:
  "canonical_bytes E validate to_value x = Inr b \<longleftrightarrow>
     validate x = Inr () \<and> validate_portable_value E (to_value x) = Inr ()
     \<and> validate_canonical_value (to_value x) False = Inr ()
     \<and> length b \<le> MAX_CANONICAL_METADATA_BYTES \<and> b = core_canonical_json_bytes E (to_value x)"
  by (auto simp: canonical_bytes_def canonical_json_bytes_def Let_def res_simps)

lemma json_media_type_present: "\<not> blank ''application/json''"
  by code_simp

text \<open>
  The contract of an \<open>ArtifactModel\<close>: its type URI is present, and a value that validates
  has valid references and portable descriptor annotations.
\<close>

locale artifact_model =
  fixes E :: ext
    and validate :: "'a \<Rightarrow> unit model_result"
    and to_value :: "'a \<Rightarrow> json"
    and type_uri :: str
    and referenced :: "'a \<Rightarrow> artifact_descriptor list"
    and annots :: "'a \<Rightarrow> (str, json) btree_map"
  assumes type_uri_present: "\<not> blank type_uri"
    and referenced_valid:
      "validate x = Inr () \<Longrightarrow> r \<in> set (referenced x) \<Longrightarrow> validate_artifact_descriptor E r = Inr ()"
    and annots_portable:
      "validate x = Inr () \<Longrightarrow> validate_portable_value E (JObj (annots x)) = Inr ()"
begin

lemma model_descriptor_Inr:
  "model_descriptor E validate to_value type_uri referenced annots x = Inr d \<longleftrightarrow>
     (\<exists>b. canonical_bytes E validate to_value x = Inr b
        \<and> d = \<lparr>ad_artifact_type_uri = type_uri, ad_media_type = ''application/json'',
               ad_digest = sha256_digest E b, ad_size_bytes = of_nat (length b),
               ad_references = sorted_list_of_set (ad_digest ` set (referenced x)),
               ad_annotations = annots x\<rparr>)"
  by (auto simp: model_descriptor_def and_then_Inr each_Inr canonical_bytes_Inr
      dest: referenced_valid)

text \<open>Computing a descriptor fails only where encoding the model fails.\<close>

lemma model_descriptor_total:
  "canonical_bytes E validate to_value x = Inr b \<Longrightarrow>
     \<exists>d. model_descriptor E validate to_value type_uri referenced annots x = Inr d
       \<and> ad_digest d = sha256_digest E b"
  by (auto simp: model_descriptor_Inr)

text \<open>A computed descriptor is valid, unless the model references its own digest.\<close>

lemma model_descriptor_valid:
  assumes "sha256_hex_ok E"
    and d: "model_descriptor E validate to_value type_uri referenced annots x = Inr d"
    and "ad_digest d \<notin> ad_digest ` set (referenced x)"
  shows "validate_artifact_descriptor E d = Inr ()"
proof -
  obtain b where b: "canonical_bytes E validate to_value x = Inr b"
    using d by (auto simp: model_descriptor_Inr)
  then have v: "validate x = Inr ()" by (simp add: canonical_bytes_Inr)
  have "\<forall>r\<in>set (referenced x). validate_sha256 (ad_digest r)"
    using referenced_valid [OF v] by (auto simp: validate_artifact_descriptor_Inr)
  then show ?thesis
    using d b assms type_uri_present annots_portable [OF v] json_media_type_present
    by (auto simp: model_descriptor_Inr validate_artifact_descriptor_Inr validate_sha256_digest)
qed

lemma from_model_Inr:
  assumes "canonical_artifact_object_from_model E validate to_value type_uri referenced annots x = Inr ob"
  shows "model_descriptor E validate to_value type_uri referenced annots x = Inr (cao_descriptor ob)
    \<and> canonical_bytes E validate to_value x = Inr (cao_bytes ob)
    \<and> validate_artifact_descriptor E (cao_descriptor ob) = Inr ()
    \<and> ad_digest (cao_descriptor ob) = sha256_digest E (cao_bytes ob)"
  using assms
  by (auto simp: canonical_artifact_object_from_model_def canonical_artifact_object_new_def
      and_then_Inr split: if_splits)

lemma model_descriptor_no_panic:
  assumes "validate x \<noteq> Inl Panic"
  shows "model_descriptor E validate to_value type_uri referenced annots x \<noteq> Inl Panic"
    and "canonical_bytes E validate to_value x \<noteq> Inl Panic"
  using assms
  by (auto simp: model_descriptor_def canonical_bytes_def canonical_json_bytes_def Let_def
      and_then_Inl dest!: each_Inl validate_portable_value_fault validate_canonical_value_fault
      split: if_splits)

lemma from_model_no_panic:
  assumes "validate x \<noteq> Inl Panic"
  shows "canonical_artifact_object_from_model E validate to_value type_uri referenced annots x \<noteq> Inl Panic"
  using model_descriptor_no_panic [OF assms]
  by (auto simp: canonical_artifact_object_from_model_def canonical_artifact_object_new_def
      and_then_Inl split: if_splits)

end

section \<open>Properties\<close>

text \<open>C28: The recursive redline check accepts a JSON value exactly when every string that occurs
  anywhere in it is neither a raw secret nor a host-local path (under the field name the walk
  carries to it), no object key is either, and every secret-bearing key holds only secret
  references. A rejection carries the code \<open>raw_secret\<close> or \<open>raw_path\<close>.\<close>

theorem portable_value_characterised:
  "(validate_portable_value E v = Inr () \<longleftrightarrow> (\<forall>w f. occurs v None w f \<longrightarrow> portable_at E w f))
   \<and> (validate_portable_value E v \<noteq> Inr () \<longrightarrow>
        validate_portable_value E v \<in> {Inl (Err RawSecret), Inl (Err RawPath)})"
  using validate_portable_value_iff [of E v] validate_portable_value_fault [of E v]
  by (cases "validate_portable_value E v") auto

theorem portable_value_characterised_witness:
  "validate_portable_value sample_ext (JObj [(''docs'', JStr ''https://p.dev'')]) = Inr ()
   \<and> portable_at sample_ext (JStr ''https://p.dev'') (Some ''docs'')
   \<and> validate_portable_value sample_ext (JObj [(''source'', JStr ''/home/me'')]) = Inl (Err RawPath)"
proof -
  have ok: "validate_portable_value sample_ext (JObj [(''docs'', JStr ''https://p.dev'')]) = Inr ()"
    by code_simp
  have bad: "validate_portable_value sample_ext (JObj [(''source'', JStr ''/home/me'')]) = Inl (Err RawPath)"
    by code_simp
  have "occurs (JObj [(''docs'', JStr ''https://p.dev'')]) None (JStr ''https://p.dev'') (Some ''docs'')"
    by (auto simp: occurs_simps)
  then show ?thesis
    using ok bad portable_value_characterised [of sample_ext "JObj [(''docs'', JStr ''https://p.dev'')]"]
    by blast
qed

text \<open>Content addressing does not depend on the order in which object fields were written:
  two values that differ only in the order of entries, at any depth, have the same canonical
  bytes, and the encoder's input is always in the normal form with strictly ascending keys, on
  which a second normalisation changes nothing.\<close>

theorem canonical_bytes_independent_of_field_order:
  assumes "json_perm v w"
  shows "canonical_json_bytes E v = canonical_json_bytes E w
    \<and> json_wf (sort_json_value v) \<and> sort_json_value (sort_json_value v) = sort_json_value v"
  using sort_json_perm [OF assms] json_wf_sort [of v] sort_json_value_wf [OF json_wf_sort [of v]]
  by (simp add: canonical_json_bytes_def core_canonical_json_bytes_def)

theorem canonical_bytes_independent_of_field_order_witness:
  "canonical_json_bytes sample_ext (JObj [(''b'', JNull), (''a'', JArr [JBool True])])
   = canonical_json_bytes sample_ext (JObj [(''a'', JArr [JBool True]), (''b'', JNull)])"
proof -
  have "json_perm (JObj [(''b'', JNull), (''a'', JArr [JBool True])])
                  (JObj [(''a'', JArr [JBool True]), (''b'', JNull)])"
    by (rule json_perm.obj [of _ "[(''b'', JNull), (''a'', JArr [JBool True])]"])
       (auto intro: json_perm.refl)
  from canonical_bytes_independent_of_field_order [OF this, of sample_ext] show ?thesis by blast
qed

end
