(* ===== verification/Ids.thy ===== *)
theory Ids
  imports Rust_Text
begin

text \<open>
  \<open>crates/plurora-work/src/ids.rs\<close>: the identifier grammar. The newtypes \<open>WorkId\<close>,
  \<open>AssemblyId\<close>, \<open>NodeId\<close>, \<open>PortId\<close>, \<open>StateSlotId\<close> and the Host UUID ids are
  strings here; \<open>parse\<close> is the only way the program builds one, so the grammar predicates
  below are the types' invariants.
\<close>

type_synonym node_id = str
type_synonym port_id = str
type_synonym assembly_id = str
type_synonym work_id = str
type_synonym state_slot_id = str
type_synonym installation_id = str
type_synonym run_id = str

definition local_id_byte :: "char \<Rightarrow> bool" where
  "local_id_byte c =
     (is_ascii_alphanumeric c \<or> c = CHR ''-'' \<or> c = CHR ''_'' \<or> c = CHR ''.'')"

definition validate_local_id :: "str \<Rightarrow> unit model_result" where
  "validate_local_id value =
     (if value = [] \<or> contains value ''..'' \<or> \<not> list_all local_id_byte value
      then Inl (Err InvalidId) else Inr ())"

definition validate_namespaced_id :: "str \<Rightarrow> unit model_result" where
  "validate_namespaced_id value =
     (let segments = split_on (CHR ''/'') value
      in if length segments < 2 then Inl (Err InvalidId)
         else each validate_local_id segments)"

text \<open>\<open>parse\<close> of the \<open>logical_id!\<close> types.\<close>

definition parse_local_id :: "str \<Rightarrow> str model_result" where
  "parse_local_id value = and_then (validate_local_id value) (\<lambda>_. Inr value)"

definition parse_namespaced_id :: "str \<Rightarrow> str model_result" where
  "parse_namespaced_id value = and_then (validate_namespaced_id value) (\<lambda>_. Inr value)"

text \<open>\<open>host.rs\<close>: the Host resource id of one port of an installation.\<close>

definition installation_port_resource_id :: "installation_id \<Rightarrow> port_id \<Rightarrow> str" where
  "installation_port_resource_id installation_id port_id = installation_id @ ''/'' @ port_id"

text \<open>
  The wire grammar the JSON schema publishes for a local id,
  \<open>^(?!.*\.\.)[A-Za-z0-9._-]+$\<close>: a word over the class, with no two adjacent dots. It is
  written without the validator's helpers.
\<close>

definition schema_class :: "char set" where
  "schema_class = {c. (48 \<le> byte c \<and> byte c \<le> 57) \<or> (65 \<le> byte c \<and> byte c \<le> 90)
     \<or> (97 \<le> byte c \<and> byte c \<le> 122)} \<union> {CHR ''.'', CHR ''_'', CHR ''-''}"

definition local_id_grammar :: "str \<Rightarrow> bool" where
  "local_id_grammar s =
     (s \<noteq> [] \<and> set s \<subseteq> schema_class
      \<and> (\<forall>i. Suc i < length s \<longrightarrow> \<not> (s ! i = CHR ''.'' \<and> s ! Suc i = CHR ''.'')))"

text \<open>A namespaced id, \<open>^(?!.*\.\.)[A-Za-z0-9._-]+(?:/[A-Za-z0-9._-]+)+$\<close>: two or more
  words over the class, joined by slashes, with no two adjacent dots anywhere.\<close>

definition namespaced_id_grammar :: "str \<Rightarrow> bool" where
  "namespaced_id_grammar s =
     (\<exists>segs. 2 \<le> length segs \<and> (\<forall>g\<in>set segs. g \<noteq> [] \<and> set g \<subseteq> schema_class)
        \<and> s = concat (butlast (map (\<lambda>g. g @ ''/'') segs)) @ last segs
        \<and> (\<forall>i. Suc i < length s \<longrightarrow> \<not> (s ! i = CHR ''.'' \<and> s ! Suc i = CHR ''.'')))"

section \<open>Lemmas\<close>

lemma local_id_byte_class: "local_id_byte c \<longleftrightarrow> c \<in> schema_class"
  by (auto simp: local_id_byte_def schema_class_def is_ascii_alphanumeric_def
      is_ascii_alphabetic_def is_ascii_uppercase_def is_ascii_lowercase_def is_ascii_digit_def)

lemma contains_pair_iff:
  "contains s [a, b] \<longleftrightarrow> (\<exists>i. Suc i < length s \<and> s ! i = a \<and> s ! Suc i = b)"
proof
  assume "contains s [a, b]"
  then obtain u t where "s = u @ [a, b] @ t" by (auto simp: contains_iff)
  then show "\<exists>i. Suc i < length s \<and> s ! i = a \<and> s ! Suc i = b"
    by (intro exI [of _ "length u"]) (auto simp: nth_append)
next
  assume "\<exists>i. Suc i < length s \<and> s ! i = a \<and> s ! Suc i = b"
  then obtain i where i: "Suc i < length s" "s ! i = a" "s ! Suc i = b" by blast
  then have "s = take i s @ [a, b] @ drop (Suc (Suc i)) s"
    by (metis append_Cons append_Nil Cons_nth_drop_Suc Suc_lessD append_take_drop_id)
  then show "contains s [a, b]" unfolding contains_iff by blast
qed

lemma validate_local_id_Inr [res_simps]:
  "validate_local_id s = Inr u \<longleftrightarrow> s \<noteq> [] \<and> \<not> contains s ''..'' \<and> list_all local_id_byte s"
  by (auto simp: validate_local_id_def)

lemma validate_local_id_cases: "validate_local_id s = Inl e \<Longrightarrow> e = Err InvalidId"
  by (auto simp: validate_local_id_def split: if_splits)

lemma local_id_grammar_iff: "validate_local_id s = Inr () \<longleftrightarrow> local_id_grammar s"
  by (auto simp: res_simps local_id_grammar_def list_all_iff local_id_byte_class
      contains_pair_iff)

lemma local_id_no_slash: "validate_local_id s = Inr () \<Longrightarrow> CHR ''/'' \<notin> set s"
  by (auto simp: res_simps list_all_iff local_id_byte_def is_ascii_alphanumeric_def
      is_ascii_alphabetic_def is_ascii_uppercase_def is_ascii_lowercase_def is_ascii_digit_def)

lemma join_split_on:
  "concat (butlast (map (\<lambda>g. g @ [sep]) (split_on sep s))) @ last (split_on sep s) = s"
proof (induction s)
  case (Cons c s)
  obtain p ps where p: "split_on sep s = p # ps" by (cases "split_on sep s") auto
  with Cons show ?case by (cases ps) auto
qed simp

lemma split_on_join:
  assumes "segs \<noteq> []" and "\<forall>g\<in>set segs. sep \<notin> set g"
  shows "split_on sep (concat (butlast (map (\<lambda>g. g @ [sep]) segs)) @ last segs) = segs"
proof -
  have word: "split_on sep g = [g]" if "sep \<notin> set g" for g
    using that by (induction g) auto
  have step: "split_on sep (g @ sep # t) = g # split_on sep t" if "sep \<notin> set g" for g t
    using that by (induction g) auto
  show ?thesis using assms
    by (induction segs rule: induct_list012) (auto simp: word step)
qed

lemma no_pair_across:
  assumes "a \<noteq> sep" and "b \<noteq> sep"
  shows "contains s [a, b] \<longleftrightarrow> (\<exists>g\<in>set (split_on sep s). contains g [a, b])"
proof (induction s)
  case (Cons c s)
  obtain p ps where p: "split_on sep s = p # ps" by (cases "split_on sep s") auto
  have hd: "s = [] \<or> hd s = (case p of [] \<Rightarrow> sep | x # _ \<Rightarrow> x)"
    using p by (cases s) (auto split: if_splits list.splits)
  have head: "starts_with s [b] \<longleftrightarrow> starts_with p [b]"
    using hd p assms by (cases s; cases p) (auto simp: starts_with_def split: if_splits list.splits)
  show ?case
    using Cons p assms head by (auto simp: starts_with_def)
qed (simp add: starts_with_def)

lemma validate_namespaced_id_Inr [res_simps]:
  "validate_namespaced_id s = Inr u \<longleftrightarrow>
     2 \<le> length (split_on (CHR ''/'') s)
     \<and> (\<forall>g\<in>set (split_on (CHR ''/'') s). validate_local_id g = Inr ())"
  by (auto simp: validate_namespaced_id_def Let_def each_Inr)

lemma no_double_dot: "contains s ''..'' \<longleftrightarrow>
    (\<exists>i. Suc i < length s \<and> s ! i = CHR ''.'' \<and> s ! Suc i = CHR ''.'')"
  by (rule contains_pair_iff)

lemma namespaced_id_grammar_iff:
  "validate_namespaced_id s = Inr () \<longleftrightarrow> namespaced_id_grammar s" (is "?l \<longleftrightarrow> ?r")
proof
  let ?segs = "split_on (CHR ''/'') s"
  assume l: ?l
  then have segs: "2 \<le> length ?segs" "\<forall>g\<in>set ?segs. validate_local_id g = Inr ()"
    by (auto simp: validate_namespaced_id_Inr)
  then have "\<not> contains s ''..''"
    using no_pair_across [of "CHR ''.''" "CHR ''/''" "CHR ''.''" s]
    by (auto simp: validate_local_id_Inr)
  with segs show ?r unfolding namespaced_id_grammar_def
    by (intro exI [of _ ?segs])
       (auto simp: join_split_on validate_local_id_Inr list_all_iff local_id_byte_class
          contains_pair_iff)
next
  assume ?r
  then obtain segs where len: "2 \<le> length segs"
    and cls: "\<forall>g\<in>set segs. g \<noteq> [] \<and> set g \<subseteq> schema_class"
    and s: "s = concat (butlast (map (\<lambda>g. g @ ''/'') segs)) @ last segs"
    and dots: "\<not> contains s ''..''"
    by (auto simp: namespaced_id_grammar_def no_double_dot)
  have "CHR ''/'' \<notin> schema_class" by (simp add: schema_class_def)
  then have segs: "split_on (CHR ''/'') s = segs"
    unfolding s using len cls by (intro split_on_join) auto
  with dots have "\<forall>g\<in>set segs. \<not> contains g ''..''"
    using no_pair_across [of "CHR ''.''" "CHR ''/''" "CHR ''.''" s] by auto
  then show ?l using len cls
    by (auto simp: validate_namespaced_id_Inr segs validate_local_id_Inr list_all_iff
        local_id_byte_class)
qed

text \<open>C29: The Rust validators accept exactly the languages that the published JSON schemas
  describe with regular expressions: local ids (\<open>NodeId\<close>, \<open>PortId\<close>, \<open>StateSlotId\<close>)
  and namespaced ids (\<open>WorkId\<close>, \<open>AssemblyId\<close>). Parsing returns the text unchanged.\<close>

theorem id_validators_match_schema_grammar:
  "parse_local_id s = (if local_id_grammar s then Inr s else Inl (Err InvalidId))
   \<and> parse_namespaced_id s = (if namespaced_id_grammar s then Inr s else Inl (Err InvalidId))"
proof -
  have "validate_namespaced_id s = Inl e \<Longrightarrow> e = Err InvalidId" for e
    by (auto simp: validate_namespaced_id_def Let_def split: if_splits
        dest!: each_Inl validate_local_id_cases)
  then show ?thesis
    unfolding parse_local_id_def parse_namespaced_id_def
    using local_id_grammar_iff [of s] namespaced_id_grammar_iff [of s] validate_local_id_cases [of s]
    by (cases "validate_local_id s"; cases "validate_namespaced_id s") auto
qed

text \<open>The Host resource id of an installation port identifies the installation and the
  port: two pairs with the same resource id are equal. Installation ids are UUIDs, which
  contain no slash.\<close>

theorem installation_port_resource_id_inject:
  assumes "CHR ''/'' \<notin> set i" and "CHR ''/'' \<notin> set j"
    and "installation_port_resource_id i p = installation_port_resource_id j q"
  shows "i = j \<and> p = q"
proof -
  have "takeWhile (\<lambda>c. c \<noteq> CHR ''/'') (k @ CHR ''/'' # r) = k" if "CHR ''/'' \<notin> set k" for k r
    using that by (induction k) auto
  from this [OF assms(1), of p] this [OF assms(2), of q] assms(3)
  show ?thesis by (simp add: installation_port_resource_id_def)
qed

theorem installation_port_resource_id_inject_witness:
  "installation_port_resource_id ''7f9c'' ''in.0'' = ''7f9c/in.0''
   \<and> installation_port_resource_id ''7f9c'' ''in.0'' \<noteq> installation_port_resource_id ''7f9c'' ''in.1''"
proof -
  have "installation_port_resource_id ''7f9c'' ''in.0'' \<noteq> installation_port_resource_id ''7f9c'' ''in.1''"
    using installation_port_resource_id_inject [of "''7f9c''" "''7f9c''" "''in.0''" "''in.1''"] by auto
  then show ?thesis by (simp add: installation_port_resource_id_def)
qed

end
