(* ===== verification/Ports.thy ===== *)
theory Ports
  imports Canonical Ids
begin

text \<open>
  \<open>crates/plurora-work/src/port.rs\<close>: ports, their contracts, transport requirements and
  the compatibility of a provider with a consumer.
\<close>

section \<open>Data\<close>

datatype binding_phase = Authoring | Installation | Launch | Runtime

fun phase_rank :: "binding_phase \<Rightarrow> nat" where
  "phase_rank Authoring = 0"
| "phase_rank Installation = 1"
| "phase_rank Launch = 2"
| "phase_rank Runtime = 3"

text \<open>The derived \<open>Ord\<close>: the order of the variants.\<close>

instantiation binding_phase :: linorder
begin

definition less_eq_binding_phase :: "binding_phase \<Rightarrow> binding_phase \<Rightarrow> bool" where
  "less_eq_binding_phase p q = (phase_rank p \<le> phase_rank q)"

definition less_binding_phase :: "binding_phase \<Rightarrow> binding_phase \<Rightarrow> bool" where
  "less_binding_phase p q = (phase_rank p < phase_rank q)"

instance
proof
  fix p q :: binding_phase
  show "p \<le> q \<Longrightarrow> q \<le> p \<Longrightarrow> p = q"
    by (cases p; cases q) (auto simp: less_eq_binding_phase_def)
qed (auto simp: less_eq_binding_phase_def less_binding_phase_def)

end

datatype availability_policy = Required | DegradedWithout | Optional

datatype effect_class =
    Pure | DeterministicStateful | RecordedNondeterministic | ExternalEffecting | RealtimeBestEffort

datatype port_direction = Import_Direction | Export_Direction

record port_contract =
  pc_protocol_id :: str
  pc_interface_id :: str
  pc_version :: str
  pc_profiles :: "str list"

record port_multiplicity =
  pm_min :: u16
  pm_max :: "u16 option"

datatype port_role =
    Import (role_multiplicity: port_multiplicity) (role_latest_binding_phase: binding_phase)
      (role_availability: availability_policy) (role_accepted_effects: "effect_class list")
  | Export (role_multiplicity: port_multiplicity) (role_effect_class: effect_class)

record transport_requirements =
  tr_same_process :: bool
  tr_local_only :: bool
  tr_ordered :: bool
  tr_reliable :: bool
  tr_max_latency_class :: "str option"
  tr_large_payload :: bool
  tr_shared_memory_allowed :: bool
  tr_allowed_classes :: "str list"
  tr_extensions :: "(str, json) btree_map"

record transport_policy =
  tp_requirements :: transport_requirements
  tp_preferred_classes :: "str list"

text \<open>The derived \<open>Default\<close> of the two transport structs.\<close>

definition default_transport_requirements :: transport_requirements where
  "default_transport_requirements =
     \<lparr>tr_same_process = False, tr_local_only = False, tr_ordered = False, tr_reliable = False,
      tr_max_latency_class = None, tr_large_payload = False, tr_shared_memory_allowed = False,
      tr_allowed_classes = [], tr_extensions = []\<rparr>"

definition default_transport_policy :: transport_policy where
  "default_transport_policy =
     \<lparr>tp_requirements = default_transport_requirements, tp_preferred_classes = []\<rparr>"

record port_descriptor =
  pd_port_id :: port_id
  pd_contract :: port_contract
  pd_interaction :: str
  pd_role :: port_role
  pd_transport :: transport_requirements
  pd_annotations :: "(str, json) btree_map"

record selected_transport =
  st_class_id :: str
  st_properties :: "(str, json) btree_map"

datatype port_endpoint = PortEndpoint (ep_node_id: node_id) (ep_port_id: port_id)

text \<open>The derived \<open>Ord\<close> of \<open>PortEndpoint\<close>: lexicographic in the fields.\<close>

instantiation port_endpoint :: linorder
begin

definition less_eq_port_endpoint :: "port_endpoint \<Rightarrow> port_endpoint \<Rightarrow> bool" where
  "less_eq_port_endpoint a b = ((ep_node_id a, ep_port_id a) \<le> (ep_node_id b, ep_port_id b))"

definition less_port_endpoint :: "port_endpoint \<Rightarrow> port_endpoint \<Rightarrow> bool" where
  "less_port_endpoint a b = ((ep_node_id a, ep_port_id a) < (ep_node_id b, ep_port_id b))"

instance
proof
  fix a b :: port_endpoint
  show "(a < b) = (a \<le> b \<and> \<not> b \<le> a)"
    by (simp only: less_eq_port_endpoint_def less_port_endpoint_def less_le_not_le)
  show "a \<le> b \<Longrightarrow> b \<le> a \<Longrightarrow> a = b"
    unfolding less_eq_port_endpoint_def by (drule (1) order_antisym) (simp add: port_endpoint.expand)
  show "a \<le> b \<or> b \<le> a" unfolding less_eq_port_endpoint_def by (rule linear)
qed (auto simp only: less_eq_port_endpoint_def intro: order_trans)

end

section \<open>Serialisation\<close>

fun phase_value :: "binding_phase \<Rightarrow> json" where
  "phase_value Authoring = JStr ''authoring''"
| "phase_value Installation = JStr ''installation''"
| "phase_value Launch = JStr ''launch''"
| "phase_value Runtime = JStr ''runtime''"

fun availability_value :: "availability_policy \<Rightarrow> json" where
  "availability_value Required = JStr ''required''"
| "availability_value DegradedWithout = JStr ''degraded_without''"
| "availability_value Optional = JStr ''optional''"

fun effect_class_value :: "effect_class \<Rightarrow> json" where
  "effect_class_value Pure = JStr ''pure''"
| "effect_class_value DeterministicStateful = JStr ''deterministic_stateful''"
| "effect_class_value RecordedNondeterministic = JStr ''recorded_nondeterministic''"
| "effect_class_value ExternalEffecting = JStr ''external_effecting''"
| "effect_class_value RealtimeBestEffort = JStr ''realtime_best_effort''"

fun direction_value :: "port_direction \<Rightarrow> json" where
  "direction_value Import_Direction = JStr ''import''"
| "direction_value Export_Direction = JStr ''export''"

definition port_contract_value :: "port_contract \<Rightarrow> json" where
  "port_contract_value c = jobj
     (jfield ''protocol_id'' (JStr (pc_protocol_id c)) @ jfield ''interface_id'' (JStr (pc_interface_id c))
      @ jfield ''version'' (JStr (pc_version c)) @ jvec ''profiles'' JStr (pc_profiles c))"

definition multiplicity_value :: "port_multiplicity \<Rightarrow> json" where
  "multiplicity_value m = jobj
     (jfield ''min'' (jnat (unat (pm_min m))) @ jopt ''max'' (\<lambda>x. jnat (unat x)) (pm_max m))"

fun port_role_value :: "port_role \<Rightarrow> json" where
  "port_role_value (Import m phase availability effects) = jobj
     (jfield ''kind'' (JStr ''import'') @ jfield ''multiplicity'' (multiplicity_value m)
      @ jfield ''latest_binding_phase'' (phase_value phase)
      @ jfield ''availability'' (availability_value availability)
      @ jfield ''accepted_effects'' (jarr effect_class_value effects))"
| "port_role_value (Export m effect) = jobj
     (jfield ''kind'' (JStr ''export'') @ jfield ''multiplicity'' (multiplicity_value m)
      @ jfield ''effect_class'' (effect_class_value effect))"

definition transport_requirements_value :: "transport_requirements \<Rightarrow> json" where
  "transport_requirements_value t = jobj
     (jfield ''same_process'' (JBool (tr_same_process t))
      @ jfield ''local_only'' (JBool (tr_local_only t))
      @ jfield ''ordered'' (JBool (tr_ordered t))
      @ jfield ''reliable'' (JBool (tr_reliable t))
      @ jopt ''max_latency_class'' JStr (tr_max_latency_class t)
      @ jfield ''large_payload'' (JBool (tr_large_payload t))
      @ jfield ''shared_memory_allowed'' (JBool (tr_shared_memory_allowed t))
      @ jvec ''allowed_classes'' JStr (tr_allowed_classes t)
      @ jmap ''extensions'' (tr_extensions t))"

definition transport_policy_value :: "transport_policy \<Rightarrow> json" where
  "transport_policy_value p = jobj
     (jfield ''requirements'' (transport_requirements_value (tp_requirements p))
      @ jvec ''preferred_classes'' JStr (tp_preferred_classes p))"

definition port_descriptor_value :: "port_descriptor \<Rightarrow> json" where
  "port_descriptor_value p = jobj
     (jfield ''port_id'' (JStr (pd_port_id p))
      @ jfield ''contract'' (port_contract_value (pd_contract p))
      @ jfield ''interaction'' (JStr (pd_interaction p))
      @ jfield ''role'' (port_role_value (pd_role p))
      @ jfield ''transport'' (transport_requirements_value (pd_transport p))
      @ jmap ''annotations'' (pd_annotations p))"

definition port_endpoint_value :: "port_endpoint \<Rightarrow> json" where
  "port_endpoint_value e = jobj
     (jfield ''node_id'' (JStr (ep_node_id e)) @ jfield ''port_id'' (JStr (ep_port_id e)))"

definition selected_transport_value :: "selected_transport \<Rightarrow> json" where
  "selected_transport_value t = jobj
     (jfield ''class_id'' (JStr (st_class_id t)) @ jmap ''properties'' (st_properties t))"

section \<open>Validation\<close>

definition validate_protocol_text :: "str \<Rightarrow> unit model_result" where
  "validate_protocol_text value =
     (if blank value \<or> any_whitespace value \<or> any_control value
      then Inl (Err WorkInvalid) else Inr ())"

definition is_directly_supported :: "str \<Rightarrow> bool" where
  "is_directly_supported interaction =
     (interaction \<in> set
        [''plurora.interaction.capability-unary/v1'', ''plurora.interaction.capability-stream/v1'',
         ''plurora.interaction.artifact/v1'', ''plurora.interaction.snapshot/v1'',
         ''plurora.interaction.endpoint/v1''])"

definition is_known_interaction :: "str \<Rightarrow> bool" where
  "is_known_interaction interaction =
     (interaction \<in> set
        [''plurora.interaction.capability-unary/v1'', ''plurora.interaction.capability-stream/v1'',
         ''plurora.interaction.event-stream/v1'', ''plurora.interaction.duplex-stream/v1'',
         ''plurora.interaction.artifact/v1'', ''plurora.interaction.snapshot/v1'',
         ''plurora.interaction.endpoint/v1''])"

definition validate_port_multiplicity :: "port_multiplicity \<Rightarrow> unit model_result" where
  "validate_port_multiplicity m =
     ensure (\<not> (case pm_max m of None \<Rightarrow> False | Some mx \<Rightarrow> mx < pm_min m)) PortIncompatible"

definition validate_transport_requirements ::
    "ext \<Rightarrow> transport_requirements \<Rightarrow> unit model_result" where
  "validate_transport_requirements E t = all_ok
     [case tr_max_latency_class t of None \<Rightarrow> Inr () | Some l \<Rightarrow> validate_protocol_text l,
      unique_loop validate_protocol_text id (Err PortIncompatible) no_check {} (tr_allowed_classes t),
      each (\<lambda>kv. all_ok [validate_protocol_text (fst kv), validate_portable_value E (snd kv)])
        (tr_extensions t)]"

definition validate_transport_policy :: "ext \<Rightarrow> transport_policy \<Rightarrow> unit model_result" where
  "validate_transport_policy E p = all_ok
     [validate_transport_requirements E (tp_requirements p),
      unique_loop validate_protocol_text id (Err PortIncompatible) no_check {}
        (tp_preferred_classes p)]"

definition validate_port_role :: "ext \<Rightarrow> port_contract \<Rightarrow> port_role \<Rightarrow> unit model_result" where
  "validate_port_role E contract role =
     (case role of
        Import _ _ _ accepted_effects \<Rightarrow> all_ok
          [ensure (version_req_parses E (pc_version contract)) PortIncompatible,
           ensure (accepted_effects \<noteq> [] \<and> distinct accepted_effects) PortIncompatible]
      | Export _ _ \<Rightarrow> ensure (version_parses E (pc_version contract)) PortIncompatible)"

definition validate_port_descriptor :: "ext \<Rightarrow> port_descriptor \<Rightarrow> unit model_result" where
  "validate_port_descriptor E p = all_ok
     [validate_protocol_text (pc_protocol_id (pd_contract p)),
      validate_protocol_text (pc_interface_id (pd_contract p)),
      validate_protocol_text (pd_interaction p),
      validate_port_multiplicity (role_multiplicity (pd_role p)),
      validate_port_role E (pd_contract p) (pd_role p),
      unique_loop validate_protocol_text id (Err PortIncompatible) no_check {}
        (pc_profiles (pd_contract p)),
      validate_transport_requirements E (pd_transport p),
      validate_portable_value E (port_descriptor_value p)]"

definition validate_selected_transport :: "ext \<Rightarrow> selected_transport \<Rightarrow> unit model_result" where
  "validate_selected_transport E t = all_ok
     [validate_protocol_text (st_class_id t), validate_portable_value E (selected_transport_value t)]"

section \<open>Transport negotiation\<close>

text \<open>The loop over \<open>allowed_classes\<close>: \<open>None\<close> until a participant constrains the class.\<close>

definition narrow_candidates :: "transport_requirements \<Rightarrow> str set option \<Rightarrow> str set option" where
  "narrow_candidates r acc =
     (if tr_allowed_classes r = [] then acc
      else Some (case acc of None \<Rightarrow> set (tr_allowed_classes r)
                           | Some existing \<Rightarrow> existing \<inter> set (tr_allowed_classes r)))"

definition latency_classes :: "transport_requirements list \<Rightarrow> str set" where
  "latency_classes rs = set (List.map_filter tr_max_latency_class rs)"

definition merge_transport_requirement_sets ::
    "ext \<Rightarrow> transport_requirements list \<Rightarrow> transport_requirements model_result" where
  "merge_transport_requirement_sets E rs =
     and_then (each (\<lambda>r. all_ok [validate_transport_requirements E r,
                                 ensure (tr_extensions r = []) PortIncompatible]) rs) (\<lambda>_.
     let candidates = fold narrow_candidates rs None;
         latencies = latency_classes rs
     in and_then (ensure (candidates \<noteq> Some {}) PortIncompatible) (\<lambda>_.
        and_then (ensure (card latencies \<le> 1) PortIncompatible) (\<lambda>_.
        Inr \<lparr>tr_same_process = list_ex tr_same_process rs,
             tr_local_only = list_ex tr_local_only rs,
             tr_ordered = list_ex tr_ordered rs,
             tr_reliable = list_ex tr_reliable rs,
             tr_max_latency_class = (case sorted_list_of_set latencies of [] \<Rightarrow> None | l # _ \<Rightarrow> Some l),
             tr_large_payload = list_ex tr_large_payload rs,
             tr_shared_memory_allowed = list_all tr_shared_memory_allowed rs,
             tr_allowed_classes =
               (case candidates of None \<Rightarrow> [] | Some c \<Rightarrow> sorted_list_of_set c),
             tr_extensions = []\<rparr>)))"

definition merged_transport_requirements :: "ext \<Rightarrow> transport_requirements
    \<Rightarrow> transport_requirements \<Rightarrow> transport_policy \<Rightarrow> transport_requirements model_result" where
  "merged_transport_requirements E provider consumer policy =
     and_then (validate_transport_policy E policy) (\<lambda>_.
       merge_transport_requirement_sets E [provider, consumer, tp_requirements policy])"

definition check_transport_policy_compatibility :: "ext \<Rightarrow> transport_requirements
    \<Rightarrow> transport_requirements \<Rightarrow> transport_policy \<Rightarrow> unit model_result" where
  "check_transport_policy_compatibility E provider consumer policy =
     and_then (merged_transport_requirements E provider consumer policy) (\<lambda>_. Inr ())"

definition default_transport_class :: "transport_requirements \<Rightarrow> str" where
  "default_transport_class merged =
     (if tr_same_process merged then ''plurora.transport.same-process/v1''
      else if tr_local_only merged then ''plurora.transport.local/v1''
      else ''plurora.transport.capability/v1'')"

definition choose_transport_class :: "transport_requirements \<Rightarrow> transport_policy \<Rightarrow> str" where
  "choose_transport_class merged policy =
     (case List.find (\<lambda>c. tr_allowed_classes merged = [] \<or> c \<in> set (tr_allowed_classes merged))
             (tp_preferred_classes policy) of
        Some c \<Rightarrow> c
      | None \<Rightarrow> (case tr_allowed_classes merged of c # _ \<Rightarrow> c | [] \<Rightarrow> default_transport_class merged))"

definition transport_properties :: "transport_requirements \<Rightarrow> (str, json) btree_map" where
  "transport_properties merged =
     (let base = bt_of_list
        [(''same_process'', JBool (tr_same_process merged)),
         (''local_only'', JBool (tr_local_only merged)),
         (''ordered'', JBool (tr_ordered merged)),
         (''reliable'', JBool (tr_reliable merged)),
         (''large_payload'', JBool (tr_large_payload merged)),
         (''shared_memory'', JBool (tr_shared_memory_allowed merged))]
      in (case tr_max_latency_class merged of
            None \<Rightarrow> base
          | Some latency \<Rightarrow> bt_insert ''max_latency_class'' (JStr latency) base))"

definition select_transport :: "ext \<Rightarrow> transport_requirements \<Rightarrow> transport_requirements
    \<Rightarrow> transport_policy \<Rightarrow> selected_transport model_result" where
  "select_transport E provider consumer policy =
     and_then (merged_transport_requirements E provider consumer policy) (\<lambda>merged.
     let selected = \<lparr>st_class_id = choose_transport_class merged policy,
                     st_properties = transport_properties merged\<rparr>
     in and_then (validate_selected_transport E selected) (\<lambda>_. Inr selected))"

section \<open>Port compatibility\<close>

definition contracts_compatible ::
    "ext \<Rightarrow> port_descriptor \<Rightarrow> port_descriptor \<Rightarrow> effect_class list \<Rightarrow> effect_class \<Rightarrow> bool" where
  "contracts_compatible E provider consumer accepted effect =
     (let p = pd_contract provider; c = pd_contract consumer
      in pc_protocol_id p = pc_protocol_id c \<and> pc_interface_id p = pc_interface_id c
         \<and> pd_interaction provider = pd_interaction consumer
         \<and> version_req_matches E (pc_version c) (pc_version p)
         \<and> set (pc_profiles c) \<subseteq> set (pc_profiles p)
         \<and> effect \<in> set accepted
         \<and> pm_max (role_multiplicity (pd_role provider)) \<noteq> Some 0
         \<and> pm_max (role_multiplicity (pd_role consumer)) \<noteq> Some 0)"

definition check_port_compatibility ::
    "ext \<Rightarrow> port_descriptor \<Rightarrow> port_descriptor \<Rightarrow> unit model_result" where
  "check_port_compatibility E provider consumer =
     and_then (validate_port_descriptor E provider) (\<lambda>_.
     and_then (validate_port_descriptor E consumer) (\<lambda>_.
     (case pd_role provider of
        Import _ _ _ _ \<Rightarrow> Inl (Err PortIncompatible)
      | Export _ effect \<Rightarrow>
          (case pd_role consumer of
             Export _ _ \<Rightarrow> Inl (Err PortIncompatible)
           | Import _ _ _ accepted \<Rightarrow>
               and_then (merge_transport_requirement_sets E [pd_transport provider, pd_transport consumer])
               (\<lambda>_. all_ok
                 [ensure (is_directly_supported (pd_interaction provider)
                          \<and> is_directly_supported (pd_interaction consumer)) UnsupportedInteraction,
                  ensure (version_parses E (pc_version (pd_contract provider))) PortIncompatible,
                  ensure (version_req_parses E (pc_version (pd_contract consumer))) PortIncompatible,
                  ensure (contracts_compatible E provider consumer accepted effect)
                    PortIncompatible])))))"

section \<open>Lemmas\<close>

text \<open>The class \<open>c\<close> satisfies every participant that constrains the transport class.\<close>

definition acceptable :: "transport_requirements list \<Rightarrow> str \<Rightarrow> bool" where
  "acceptable rs c =
     list_all (\<lambda>r. tr_allowed_classes r = [] \<or> c \<in> set (tr_allowed_classes r)) rs"

definition unconstrained :: "transport_requirements list \<Rightarrow> bool" where
  "unconstrained rs = list_all (\<lambda>r. tr_allowed_classes r = []) rs"

lemma narrow_candidates_Some:
  "fold narrow_candidates rs (Some A) = Some (A \<inter> {c. acceptable rs c})"
  by (induction rs arbitrary: A) (auto simp: narrow_candidates_def acceptable_def)

lemma narrow_candidates_None:
  "fold narrow_candidates rs None = (if unconstrained rs then None else Some {c. acceptable rs c})"
proof (induction rs)
  case (Cons r rs)
  have "narrow_candidates r None =
      (if tr_allowed_classes r = [] then None else Some (set (tr_allowed_classes r)))"
    by (simp add: narrow_candidates_def)
  with Cons show ?case
    by (auto simp: narrow_candidates_Some unconstrained_def acceptable_def)
qed (simp add: unconstrained_def)

lemma finite_acceptable:
  assumes "\<not> unconstrained rs"
  shows "finite {c. acceptable rs c}"
proof -
  from assms obtain r where r: "r \<in> set rs" "tr_allowed_classes r \<noteq> []"
    by (auto simp: unconstrained_def list_all_iff)
  then have "{c. acceptable rs c} \<subseteq> set (tr_allowed_classes r)"
    by (auto simp: acceptable_def list_all_iff)
  then show ?thesis using finite_subset by blast
qed

lemma latency_classes_mem:
  "l \<in> latency_classes rs \<longleftrightarrow> (\<exists>r\<in>set rs. tr_max_latency_class r = Some l)"
  by (induction rs) (auto simp: latency_classes_def List.map_filter_simps split: option.splits)

text \<open>What a successful merge means for the participants.\<close>

definition merge_of :: "transport_requirements list \<Rightarrow> transport_requirements \<Rightarrow> bool" where
  "merge_of rs m =
     ((tr_same_process m \<longleftrightarrow> list_ex tr_same_process rs)
      \<and> (tr_local_only m \<longleftrightarrow> list_ex tr_local_only rs)
      \<and> (tr_ordered m \<longleftrightarrow> list_ex tr_ordered rs)
      \<and> (tr_reliable m \<longleftrightarrow> list_ex tr_reliable rs)
      \<and> (tr_large_payload m \<longleftrightarrow> list_ex tr_large_payload rs)
      \<and> (tr_shared_memory_allowed m \<longleftrightarrow> list_all tr_shared_memory_allowed rs)
      \<and> (\<forall>l. (\<exists>r\<in>set rs. tr_max_latency_class r = Some l) \<longleftrightarrow> tr_max_latency_class m = Some l)
      \<and> (tr_allowed_classes m = [] \<longleftrightarrow> unconstrained rs)
      \<and> (\<not> unconstrained rs \<longrightarrow> set (tr_allowed_classes m) = {c. acceptable rs c})
      \<and> tr_extensions m = [])"

definition mergeable :: "ext \<Rightarrow> transport_requirements list \<Rightarrow> bool" where
  "mergeable E rs =
     ((\<forall>r\<in>set rs. validate_transport_requirements E r = Inr () \<and> tr_extensions r = [])
      \<and> (\<not> unconstrained rs \<longrightarrow> (\<exists>c. acceptable rs c))
      \<and> (\<forall>r\<in>set rs. \<forall>q\<in>set rs. \<forall>l k. tr_max_latency_class r = Some l
            \<longrightarrow> tr_max_latency_class q = Some k \<longrightarrow> l = k))"

lemma card_le_1_iff: "finite A \<Longrightarrow> card A \<le> 1 \<longleftrightarrow> (\<forall>x\<in>A. \<forall>y\<in>A. x = y)"
  using card_le_Suc0_iff_eq [of A] by simp

lemma finite_latency_classes [simp]: "finite (latency_classes rs)"
  by (simp add: latency_classes_def)

lemma mergeable_latency:
  "card (latency_classes rs) \<le> Suc 0 \<longleftrightarrow>
     (\<forall>r\<in>set rs. \<forall>q\<in>set rs. \<forall>l k. tr_max_latency_class r = Some l
        \<longrightarrow> tr_max_latency_class q = Some k \<longrightarrow> l = k)"
  using card_le_1_iff [OF finite_latency_classes, of rs]
  unfolding One_nat_def Ball_def latency_classes_mem by blast

lemma single_latency:
  assumes "card (latency_classes rs) \<le> 1"
  shows "(case sorted_list_of_set (latency_classes rs) of [] \<Rightarrow> None | l # _ \<Rightarrow> Some l) = Some l
    \<longleftrightarrow> l \<in> latency_classes rs"
proof (cases "latency_classes rs = {}")
  case False
  then obtain k where "latency_classes rs = {k}"
    using assms by (metis One_nat_def card_1_singletonE card_gt_0_iff finite_latency_classes
        le_antisym less_eq_Suc_le)
  then show ?thesis by auto
qed simp

lemma merge_Inr_iff:
  "is_ok (merge_transport_requirement_sets E rs) \<longleftrightarrow> mergeable E rs"
proof -
  have "fold narrow_candidates rs None \<noteq> Some {} \<longleftrightarrow> unconstrained rs \<or> (\<exists>c. acceptable rs c)"
    by (auto simp: narrow_candidates_None)
  then show ?thesis
    unfolding is_ok_Inr merge_transport_requirement_sets_def Let_def mergeable_def
    by (auto simp: res_simps mergeable_latency)
qed

lemma merge_sound:
  assumes "merge_transport_requirement_sets E rs = Inr m"
  shows "merge_of rs m"
proof -
  have lat: "card (latency_classes rs) \<le> 1"
    and cand: "fold narrow_candidates rs None \<noteq> Some {}"
    using assms by (auto simp: merge_transport_requirement_sets_def Let_def res_simps)
  have cand: "\<not> unconstrained rs \<Longrightarrow> {c. acceptable rs c} \<noteq> {}"
    using cand by (simp add: narrow_candidates_None)
  have "tr_max_latency_class m = Some l \<longleftrightarrow> (\<exists>r\<in>set rs. tr_max_latency_class r = Some l)" for l
    using assms single_latency [OF lat, of l] unfolding latency_classes_mem
    by (auto simp: merge_transport_requirement_sets_def Let_def res_simps)
  then show ?thesis
    using assms cand finite_acceptable [of rs] unfolding merge_of_def
    by (cases "unconstrained rs")
       (auto simp: merge_transport_requirement_sets_def Let_def res_simps narrow_candidates_None)
qed

text \<open>No validator of this file can panic.\<close>

lemma validate_protocol_text_no_panic [no_panic]: "validate_protocol_text t \<noteq> Inl Panic"
  by (simp add: validate_protocol_text_def)

lemma validate_transport_requirements_no_panic [no_panic]:
  "validate_transport_requirements E t \<noteq> Inl Panic"
  by (simp add: validate_transport_requirements_def no_panic split: option.splits)

lemma validate_transport_policy_no_panic [no_panic]: "validate_transport_policy E p \<noteq> Inl Panic"
  by (simp add: validate_transport_policy_def no_panic)

lemma validate_port_role_no_panic [no_panic]: "validate_port_role E c r \<noteq> Inl Panic"
  by (simp add: validate_port_role_def no_panic split: port_role.splits)

lemma validate_port_descriptor_no_panic [no_panic]: "validate_port_descriptor E p \<noteq> Inl Panic"
  by (simp add: validate_port_descriptor_def validate_port_multiplicity_def no_panic)

lemma merge_no_panic [no_panic]: "merge_transport_requirement_sets E rs \<noteq> Inl Panic"
  by (simp add: merge_transport_requirement_sets_def Let_def no_panic)

lemma check_transport_policy_no_panic [no_panic]:
  "check_transport_policy_compatibility E p c pol \<noteq> Inl Panic"
  by (simp add: check_transport_policy_compatibility_def merged_transport_requirements_def no_panic)

lemma select_transport_no_panic [no_panic]: "select_transport E p c pol \<noteq> Inl Panic"
  by (simp add: select_transport_def merged_transport_requirements_def Let_def
      validate_selected_transport_def no_panic)

lemma check_port_compatibility_no_panic [no_panic]: "check_port_compatibility E p c \<noteq> Inl Panic"
  by (simp add: check_port_compatibility_def no_panic split: port_role.splits)

text \<open>The compatibility relation, written over the two descriptors only.\<close>

definition ports_compatible :: "ext \<Rightarrow> port_descriptor \<Rightarrow> port_descriptor \<Rightarrow> bool" where
  "ports_compatible E provider consumer =
     (validate_port_descriptor E provider = Inr () \<and> validate_port_descriptor E consumer = Inr ()
      \<and> mergeable E [pd_transport provider, pd_transport consumer]
      \<and> is_directly_supported (pd_interaction provider)
      \<and> (\<exists>pmul effect cmul phase avail accepted.
           pd_role provider = Export pmul effect \<and> pd_role consumer = Import cmul phase avail accepted
           \<and> contracts_compatible E provider consumer accepted effect))"

lemma validate_export_version:
  "validate_port_descriptor E p = Inr () \<Longrightarrow> pd_role p = Export m e
     \<Longrightarrow> version_parses E (pc_version (pd_contract p))"
  by (simp add: validate_port_descriptor_def validate_port_role_def res_simps)

lemma validate_import_version:
  "validate_port_descriptor E p = Inr () \<Longrightarrow> pd_role p = Import m ph a es
     \<Longrightarrow> version_req_parses E (pc_version (pd_contract p)) \<and> es \<noteq> [] \<and> distinct es"
  by (simp add: validate_port_descriptor_def validate_port_role_def res_simps)

lemma check_port_compatibility_iff:
  "check_port_compatibility E provider consumer = Inr () \<longleftrightarrow> ports_compatible E provider consumer"
proof -
  have interaction: "contracts_compatible E provider consumer accepted effect
      \<Longrightarrow> pd_interaction provider = pd_interaction consumer" for accepted effect
    by (simp add: contracts_compatible_def Let_def)
  show ?thesis
    unfolding check_port_compatibility_def ports_compatible_def
    by (cases "pd_role provider"; cases "pd_role consumer")
       (auto simp: res_simps simp flip: merge_Inr_iff simp: is_ok_Inr
          dest: interaction validate_export_version validate_import_version)
qed

lemma merge_of_class:
  "merge_of rs m \<Longrightarrow> tr_allowed_classes m = [] \<or> c \<in> set (tr_allowed_classes m) \<longleftrightarrow> acceptable rs c"
  by (auto simp: merge_of_def unconstrained_def acceptable_def list_all_iff)

lemma choose_class_acceptable:
  assumes "merge_of rs m"
  shows "acceptable rs (choose_transport_class m policy)"
proof (cases "List.find (\<lambda>c. tr_allowed_classes m = [] \<or> c \<in> set (tr_allowed_classes m))
    (tp_preferred_classes policy)")
  case None
  have "tr_allowed_classes m = [] \<or> choose_transport_class m policy \<in> set (tr_allowed_classes m)"
    using None by (simp add: choose_transport_class_def split: list.splits)
  then show ?thesis using merge_of_class [OF assms] by blast
next
  case (Some c)
  then have "tr_allowed_classes m = [] \<or> c \<in> set (tr_allowed_classes m)"
    by (auto simp: find_Some_iff)
  with Some show ?thesis using merge_of_class [OF assms] by (simp add: choose_transport_class_def)
qed

lemma find_first: "P x \<Longrightarrow> \<forall>y\<in>set ys. \<not> P y \<Longrightarrow> List.find P (ys @ x # zs) = Some x"
  by (induction ys) auto

lemma choose_class_preferred:
  assumes "merge_of rs m" and "tp_preferred_classes policy = before @ c # after"
    and "acceptable rs c" and "\<forall>b\<in>set before. \<not> acceptable rs b"
  shows "choose_transport_class m policy = c"
  using assms find_first [of "acceptable rs" c before after]
  by (simp add: choose_transport_class_def merge_of_class [OF assms(1)])

lemma transport_properties_get:
  "bt_get (transport_properties m) ''shared_memory'' = Some (JBool (tr_shared_memory_allowed m))"
  "bt_get (transport_properties m) ''ordered'' = Some (JBool (tr_ordered m))"
  "bt_get (transport_properties m) ''reliable'' = Some (JBool (tr_reliable m))"
  "bt_get (transport_properties m) ''local_only'' = Some (JBool (tr_local_only m))"
  "bt_get (transport_properties m) ''same_process'' = Some (JBool (tr_same_process m))"
  "bt_get (transport_properties m) ''large_payload'' = Some (JBool (tr_large_payload m))"
  "bt_get (transport_properties m) ''max_latency_class'' = map_option JStr (tr_max_latency_class m)"
  by (simp_all add: transport_properties_def Let_def bt_get_insert bt_get_of_list split: option.split)

section \<open>Properties\<close>


text \<open>Transport negotiation. When a transport is selected for a binding, its class is allowed
  by every participant (provider, consumer and binding policy) that restricts the classes; it is
  the first of the policy's preferred classes all of them accept, when there is one; it is
  advertised as shared memory only if all three allow that; ordering, reliability, locality and
  payload demands of any participant are carried; and a latency class is recorded exactly when
  some participant asks for it.\<close>

theorem selected_transport_respects_participants:
  assumes "select_transport E provider consumer policy = Inr sel"
  shows "let rs = [provider, consumer, tp_requirements policy]; prop = bt_get (st_properties sel)
    in acceptable rs (st_class_id sel)
     \<and> (\<forall>before c after. tp_preferred_classes policy = before @ c # after \<and> acceptable rs c
           \<and> (\<forall>b\<in>set before. \<not> acceptable rs b) \<longrightarrow> st_class_id sel = c)
     \<and> prop ''shared_memory'' = Some (JBool (list_all tr_shared_memory_allowed rs))
     \<and> prop ''ordered'' = Some (JBool (list_ex tr_ordered rs))
     \<and> prop ''reliable'' = Some (JBool (list_ex tr_reliable rs))
     \<and> prop ''local_only'' = Some (JBool (list_ex tr_local_only rs))
     \<and> prop ''same_process'' = Some (JBool (list_ex tr_same_process rs))
     \<and> prop ''large_payload'' = Some (JBool (list_ex tr_large_payload rs))
     \<and> (\<forall>l. prop ''max_latency_class'' = Some (JStr l)
              \<longleftrightarrow> (\<exists>r\<in>set rs. tr_max_latency_class r = Some l))"
proof -
  let ?rs = "[provider, consumer, tp_requirements policy]"
  obtain m where mrg: "merge_transport_requirement_sets E ?rs = Inr m"
    and sel: "sel = \<lparr>st_class_id = choose_transport_class m policy, st_properties = transport_properties m\<rparr>"
    using assms(1) by (auto simp: select_transport_def merged_transport_requirements_def
        Let_def res_simps)
  note m = merge_sound [OF mrg]
  show ?thesis
    unfolding sel Let_def selected_transport.select_convs
    using choose_class_acceptable [OF m] choose_class_preferred [OF m] m
    by (auto simp: transport_properties_get merge_of_def)
qed

definition sample_requirements :: "str list \<Rightarrow> transport_requirements" where
  "sample_requirements classes =
     default_transport_requirements\<lparr>tr_ordered := True, tr_allowed_classes := classes\<rparr>"

definition sample_policy :: transport_policy where
  "sample_policy = \<lparr>tp_requirements = default_transport_requirements,
     tp_preferred_classes = [''x.bus'', ''x.pipe'']\<rparr>"

theorem selected_transport_respects_participants_witness:
  "\<exists>sel. select_transport sample_ext (sample_requirements [''x.pipe'', ''x.tcp''])
           (sample_requirements [''x.shm'', ''x.pipe'']) sample_policy = Inr sel
     \<and> acceptable [sample_requirements [''x.pipe'', ''x.tcp''],
          sample_requirements [''x.shm'', ''x.pipe''], tp_requirements sample_policy] (st_class_id sel)
     \<and> st_class_id sel = ''x.pipe''"
proof -
  let ?p = "sample_requirements [''x.pipe'', ''x.tcp'']"
  let ?c = "sample_requirements [''x.shm'', ''x.pipe'']"
  have "is_ok (select_transport sample_ext ?p ?c sample_policy)" by code_simp
  then obtain sel where sel: "select_transport sample_ext ?p ?c sample_policy = Inr sel"
    by (auto simp: is_ok_Inr)
  have acc: "acceptable [?p, ?c, tp_requirements sample_policy] ''x.pipe''"
    "\<not> acceptable [?p, ?c, tp_requirements sample_policy] ''x.bus''" by code_simp+
  have "tp_preferred_classes sample_policy = [''x.bus''] @ ''x.pipe'' # []"
    by (simp add: sample_policy_def)
  moreover have "\<forall>b\<in>set [''x.bus'']. \<not> acceptable [?p, ?c, tp_requirements sample_policy] b"
    using acc(2) by simp
  ultimately have "st_class_id sel = ''x.pipe''"
    using selected_transport_respects_participants [OF sel] acc(1) unfolding Let_def by blast
  with sel acc(1) show ?thesis by auto
qed

end
