(* ===== verification/State_Slots.thy ===== *)
theory State_Slots
  imports Ports
begin

text \<open>\<open>crates/plurora-work/src/state.rs\<close>: the state slots an assembly declares, and when a
  slot may replace another without losing durable state.\<close>

datatype state_scope = Run_Scope | Installation_Scope | User_Scope | Shared_Scope | External_Scope

datatype state_portability = Portable | OpaqueExportable | HostBound | ExternalAuthority

datatype backup_policy = Backup_Required | Backup_Allowed | Backup_Forbidden

record state_slot_descriptor =
  ss_state_slot_id :: state_slot_id
  ss_owner_node_id :: node_id
  ss_schema_ref :: "artifact_descriptor option"
  ss_scope :: state_scope
  ss_portability :: state_portability
  ss_migration_port :: "port_endpoint option"
  ss_backup_policy :: backup_policy
  ss_annotations :: "(str, json) btree_map"

fun state_scope_value :: "state_scope \<Rightarrow> json" where
  "state_scope_value Run_Scope = JStr ''run''"
| "state_scope_value Installation_Scope = JStr ''installation''"
| "state_scope_value User_Scope = JStr ''user''"
| "state_scope_value Shared_Scope = JStr ''shared''"
| "state_scope_value External_Scope = JStr ''external''"

fun state_portability_value :: "state_portability \<Rightarrow> json" where
  "state_portability_value Portable = JStr ''portable''"
| "state_portability_value OpaqueExportable = JStr ''opaque_exportable''"
| "state_portability_value HostBound = JStr ''host_bound''"
| "state_portability_value ExternalAuthority = JStr ''external_authority''"

fun backup_policy_value :: "backup_policy \<Rightarrow> json" where
  "backup_policy_value Backup_Required = JStr ''required''"
| "backup_policy_value Backup_Allowed = JStr ''allowed''"
| "backup_policy_value Backup_Forbidden = JStr ''forbidden''"

definition state_slot_value :: "state_slot_descriptor \<Rightarrow> json" where
  "state_slot_value s = jobj
     (jfield ''state_slot_id'' (JStr (ss_state_slot_id s))
      @ jfield ''owner_node_id'' (JStr (ss_owner_node_id s))
      @ jopt ''schema_ref'' artifact_descriptor_value (ss_schema_ref s)
      @ jfield ''scope'' (state_scope_value (ss_scope s))
      @ jfield ''portability'' (state_portability_value (ss_portability s))
      @ jopt ''migration_port'' port_endpoint_value (ss_migration_port s)
      @ jfield ''backup_policy'' (backup_policy_value (ss_backup_policy s))
      @ jmap ''annotations'' (ss_annotations s))"

definition validate_state_slot :: "ext \<Rightarrow> state_slot_descriptor \<Rightarrow> unit model_result" where
  "validate_state_slot E s = all_ok
     [ensure (\<not> (ss_portability s = Portable \<and> ss_schema_ref s = None)) WorkInvalid,
      (case ss_schema_ref s of None \<Rightarrow> Inr () | Some schema \<Rightarrow> validate_artifact_descriptor E schema),
      validate_portable_value E (JObj (ss_annotations s))]"

definition is_durable :: "state_slot_descriptor \<Rightarrow> bool" where
  "is_durable s = (ss_scope s \<noteq> Run_Scope)"

definition validate_state_replacement ::
    "ext \<Rightarrow> state_slot_descriptor \<Rightarrow> state_slot_descriptor \<Rightarrow> bool \<Rightarrow> unit model_result" where
  "validate_state_replacement E current candidate reset_approved =
     and_then (validate_state_slot E current) (\<lambda>_.
     and_then (validate_state_slot E candidate) (\<lambda>_.
       if \<not> is_durable current then Inr ()
       else
         let compatible = ss_owner_node_id current = ss_owner_node_id candidate
               \<and> map_option ad_digest (ss_schema_ref current) = map_option ad_digest (ss_schema_ref candidate)
               \<and> ss_portability current = ss_portability candidate
         in if \<not> compatible \<and> ss_migration_port candidate = None \<and> \<not> reset_approved
            then Inl (Err StateMigrationRequired) else Inr ()))"

lemma validate_state_slot_no_panic [no_panic]: "validate_state_slot E s \<noteq> Inl Panic"
  by (simp add: validate_state_slot_def no_panic split: option.splits)

lemma validate_state_slot_schema:
  "validate_state_slot E s = Inr () \<Longrightarrow> ss_schema_ref s = Some d
     \<Longrightarrow> validate_artifact_descriptor E d = Inr ()"
  by (auto simp: validate_state_slot_def res_simps)

end
