(* ===== verification/Assemblies.thy ===== *)
theory Assemblies
  imports State_Slots
begin

text \<open>
  \<open>crates/plurora-work/src/assembly.rs\<close>: the revision of an assembly (a graph of component
  and nested assembly nodes), its validation against itself and against a catalog of ports,
  and the closure check over nested assemblies.
\<close>

section \<open>Data\<close>

definition ASSEMBLY_REVISION_TYPE_URI :: str where
  "ASSEMBLY_REVISION_TYPE_URI = ''urn:plurora:assembly-revision:v1''"

definition COMPONENT_DESCRIPTOR_TYPE_URI :: str where
  "COMPONENT_DESCRIPTOR_TYPE_URI = ''urn:plurora:component-descriptor:v1''"

definition ASSEMBLY_REVISION_SCHEMA :: str where
  "ASSEMBLY_REVISION_SCHEMA = ''plurora.assembly-revision.v1''"

definition MAX_ASSEMBLY_NODES :: nat where "MAX_ASSEMBLY_NODES = 4096"

definition MAX_ASSEMBLY_BINDINGS :: nat where "MAX_ASSEMBLY_BINDINGS = 16384"

definition MAX_ASSEMBLY_DEPTH :: nat where "MAX_ASSEMBLY_DEPTH = 32"

definition MAX_PORTS_PER_NODE :: nat where "MAX_PORTS_PER_NODE = 1024"

definition MAX_EXPOSED_PORTS :: nat where "MAX_EXPOSED_PORTS = 4096"

definition MAX_STATE_SLOTS :: nat where "MAX_STATE_SLOTS = 4096"

datatype assembly_node_source =
    Component (source_artifact: artifact_descriptor)
  | Assembly (source_artifact: artifact_descriptor)

fun is_component :: "assembly_node_source \<Rightarrow> bool" where
  "is_component (Component _) = True"
| "is_component (Assembly _) = False"

record assembly_node =
  an_node_id :: node_id
  an_source :: assembly_node_source
  an_ports :: "port_descriptor list"
  an_configuration :: "artifact_descriptor option"
  an_annotations :: "(str, json) btree_map"

record assembly_binding =
  ab_binding_id :: str
  ab_provider :: port_endpoint
  ab_consumer :: port_endpoint
  ab_phase :: binding_phase
  ab_transport_policy :: transport_policy
  ab_annotations :: "(str, json) btree_map"

record assembly_port_exposure =
  ax_port_id :: port_id
  ax_direction :: port_direction
  ax_target :: port_endpoint
  ax_annotations :: "(str, json) btree_map"

record assembly_revision =
  ar_schema :: str
  ar_assembly_id :: assembly_id
  ar_nodes :: "assembly_node list"
  ar_bindings :: "assembly_binding list"
  ar_exposed_ports :: "assembly_port_exposure list"
  ar_state_slots :: "state_slot_descriptor list"
  ar_annotations :: "(str, json) btree_map"

type_synonym port_catalog = "(port_endpoint, port_descriptor) btree_map"

type_synonym assembly_map = "(str, assembly_revision) btree_map"

fun node_source_value :: "assembly_node_source \<Rightarrow> json" where
  "node_source_value (Component d) = jobj
     (jfield ''kind'' (JStr ''component'') @ jfield ''component'' (artifact_descriptor_value d))"
| "node_source_value (Assembly d) = jobj
     (jfield ''kind'' (JStr ''assembly'') @ jfield ''assembly'' (artifact_descriptor_value d))"

definition assembly_node_value :: "assembly_node \<Rightarrow> json" where
  "assembly_node_value n = jobj
     (jfield ''node_id'' (JStr (an_node_id n))
      @ jfield ''source'' (node_source_value (an_source n))
      @ jvec ''ports'' port_descriptor_value (an_ports n)
      @ jopt ''configuration'' artifact_descriptor_value (an_configuration n)
      @ jmap ''annotations'' (an_annotations n))"

definition assembly_binding_value :: "assembly_binding \<Rightarrow> json" where
  "assembly_binding_value b = jobj
     (jfield ''binding_id'' (JStr (ab_binding_id b))
      @ jfield ''provider'' (port_endpoint_value (ab_provider b))
      @ jfield ''consumer'' (port_endpoint_value (ab_consumer b))
      @ jfield ''phase'' (phase_value (ab_phase b))
      @ jfield ''transport_policy'' (transport_policy_value (ab_transport_policy b))
      @ jmap ''annotations'' (ab_annotations b))"

definition assembly_port_exposure_value :: "assembly_port_exposure \<Rightarrow> json" where
  "assembly_port_exposure_value x = jobj
     (jfield ''port_id'' (JStr (ax_port_id x))
      @ jfield ''direction'' (direction_value (ax_direction x))
      @ jfield ''target'' (port_endpoint_value (ax_target x))
      @ jmap ''annotations'' (ax_annotations x))"

definition assembly_revision_value :: "assembly_revision \<Rightarrow> json" where
  "assembly_revision_value a = jobj
     (jfield ''schema'' (JStr (ar_schema a))
      @ jfield ''assembly_id'' (JStr (ar_assembly_id a))
      @ jfield ''nodes'' (jarr assembly_node_value (ar_nodes a))
      @ jvec ''bindings'' assembly_binding_value (ar_bindings a)
      @ jvec ''exposed_ports'' assembly_port_exposure_value (ar_exposed_ports a)
      @ jvec ''state_slots'' state_slot_value (ar_state_slots a)
      @ jmap ''annotations'' (ar_annotations a))"

section \<open>\<open>AssemblyRevision::validate\<close>\<close>

definition validate_node_source :: "ext \<Rightarrow> assembly_node_source \<Rightarrow> unit model_result" where
  "validate_node_source E source =
     (case source of
        Component d \<Rightarrow> validate_descriptor_type E d COMPONENT_DESCRIPTOR_TYPE_URI
      | Assembly d \<Rightarrow> validate_descriptor_type E d ASSEMBLY_REVISION_TYPE_URI)"

definition node_ids :: "assembly_revision \<Rightarrow> node_id set" where
  "node_ids a = set (map an_node_id (ar_nodes a))"

definition validate_assembly_node :: "ext \<Rightarrow> assembly_node \<Rightarrow> unit model_result" where
  "validate_assembly_node E n = all_ok
     [validate_node_source E (an_source n),
      ensure (length (an_ports n) \<le> MAX_PORTS_PER_NODE) WorkTooComplex,
      ensure (\<not> (\<not> is_component (an_source n) \<and> an_ports n \<noteq> [])) WorkInvalid,
      unique_loop (validate_port_descriptor E) pd_port_id (Err WorkInvalid) no_check {} (an_ports n),
      (case an_configuration n of None \<Rightarrow> Inr () | Some c \<Rightarrow> validate_artifact_descriptor E c)]"

definition validate_assembly_binding ::
    "ext \<Rightarrow> node_id set \<Rightarrow> assembly_binding \<Rightarrow> unit model_result" where
  "validate_assembly_binding E ids b = all_ok
     [ensure (ep_node_id (ab_provider b) \<in> ids \<and> ep_node_id (ab_consumer b) \<in> ids) PortUnresolved,
      validate_transport_policy E (ab_transport_policy b)]"

definition validate_assembly_slot ::
    "ext \<Rightarrow> node_id set \<Rightarrow> state_slot_descriptor \<Rightarrow> unit model_result" where
  "validate_assembly_slot E ids s = all_ok
     [ensure (\<not> (ss_owner_node_id s \<notin> ids
          \<or> (case ss_migration_port s of None \<Rightarrow> False | Some port \<Rightarrow> ep_node_id port \<notin> ids))) WorkInvalid,
      validate_state_slot E s]"

definition assembly_validate :: "ext \<Rightarrow> assembly_revision \<Rightarrow> unit model_result" where
  "assembly_validate E a = all_ok
     [ensure (ar_schema a = ASSEMBLY_REVISION_SCHEMA) WorkInvalid,
      ensure (\<not> (MAX_ASSEMBLY_NODES < length (ar_nodes a)
          \<or> MAX_ASSEMBLY_BINDINGS < length (ar_bindings a)
          \<or> MAX_EXPOSED_PORTS < length (ar_exposed_ports a)
          \<or> MAX_STATE_SLOTS < length (ar_state_slots a))) WorkTooComplex,
      unique_loop no_check an_node_id (Err WorkInvalid) (validate_assembly_node E) {} (ar_nodes a),
      unique_loop (\<lambda>b. validate_local_id (ab_binding_id b)) ab_binding_id (Err WorkInvalid)
        (validate_assembly_binding E (node_ids a)) {} (ar_bindings a),
      unique_loop no_check ax_port_id (Err WorkInvalid)
        (\<lambda>x. ensure (ep_node_id (ax_target x) \<in> node_ids a) PortUnresolved) {} (ar_exposed_ports a),
      unique_loop no_check ss_state_slot_id (Err WorkInvalid)
        (validate_assembly_slot E (node_ids a)) {} (ar_state_slots a),
      validate_portable_value E (assembly_revision_value a)]"

section \<open>\<open>AssemblyRevision::validate_ports\<close>\<close>

definition component_node_ids :: "assembly_revision \<Rightarrow> node_id set" where
  "component_node_ids a = set (map an_node_id (filter (\<lambda>n. is_component (an_source n)) (ar_nodes a)))"

definition declared_component_ports :: "assembly_revision \<Rightarrow> port_catalog" where
  "declared_component_ports a = bt_of_list
     (concat (map (\<lambda>n. map (\<lambda>p. (PortEndpoint (an_node_id n) (pd_port_id p), p)) (an_ports n))
        (filter (\<lambda>n. is_component (an_source n)) (ar_nodes a))))"

definition check_catalog_entry :: "ext \<Rightarrow> assembly_revision
    \<Rightarrow> port_endpoint \<times> port_descriptor \<Rightarrow> unit model_result" where
  "check_catalog_entry E a ed = (let endpoint = fst ed; descriptor = snd ed in all_ok
     [ensure (\<not> (ep_node_id endpoint \<notin> node_ids a \<or> ep_port_id endpoint \<noteq> pd_port_id descriptor))
        PortUnresolved,
      ensure (\<not> (ep_node_id endpoint \<in> component_node_ids a
          \<and> bt_get (declared_component_ports a) endpoint = None)) ArtifactDigestMismatch,
      validate_port_descriptor E descriptor])"

definition check_port_catalog ::
    "ext \<Rightarrow> assembly_revision \<Rightarrow> port_catalog \<Rightarrow> unit model_result" where
  "check_port_catalog E a ports = all_ok
     [each (\<lambda>(endpoint, descriptor).
         ensure (bt_get ports endpoint = Some descriptor) ArtifactDigestMismatch)
       (declared_component_ports a),
      each (check_catalog_entry E a) ports,
      ensure (\<not> list_ex (\<lambda>(_, count). MAX_PORTS_PER_NODE < count)
          (fold bt_bump (map (ep_node_id \<circ> fst) ports) [])) WorkTooComplex]"

text \<open>The phase rule: a binding may not come after the consumer's latest phase.\<close>

definition phase_allowed :: "binding_phase \<Rightarrow> port_descriptor \<Rightarrow> bool" where
  "phase_allowed phase consumer =
     (case pd_role consumer of
        Import _ latest_binding_phase _ _ \<Rightarrow> \<not> latest_binding_phase < phase
      | Export _ _ \<Rightarrow> True)"

definition check_binding_ports ::
    "ext \<Rightarrow> port_catalog \<Rightarrow> assembly_binding \<Rightarrow> unit model_result" where
  "check_binding_ports E ports b =
     and_then (ok_or (bt_get ports (ab_provider b)) (Err PortUnresolved)) (\<lambda>provider.
     and_then (ok_or (bt_get ports (ab_consumer b)) (Err PortUnresolved)) (\<lambda>consumer.
     all_ok
       [check_port_compatibility E provider consumer,
        check_transport_policy_compatibility E (pd_transport provider) (pd_transport consumer)
          (ab_transport_policy b),
        ensure (phase_allowed (ab_phase b) consumer) PortIncompatible]))"

definition provider_counts :: "assembly_binding list \<Rightarrow> (port_endpoint, nat) btree_map" where
  "provider_counts bs = fold bt_bump (map ab_provider bs) []"

definition consumer_counts :: "assembly_binding list \<Rightarrow> (port_endpoint, nat) btree_map" where
  "consumer_counts bs = fold bt_bump (map ab_consumer bs) []"

definition check_port_cardinality :: "(port_endpoint, nat) btree_map
    \<Rightarrow> (port_endpoint, nat) btree_map \<Rightarrow> port_endpoint \<times> port_descriptor \<Rightarrow> unit model_result" where
  "check_port_cardinality providers consumers ed =
     (let role = pd_role (snd ed); multiplicity = role_multiplicity role;
          count = (case role of
              Import _ _ _ _ \<Rightarrow> bt_count consumers (fst ed)
            | Export _ _ \<Rightarrow> bt_count providers (fst ed))
      in all_ok
        [ensure (\<not> (case pm_max multiplicity of None \<Rightarrow> False | Some mx \<Rightarrow> unat mx < count))
           PortIncompatible,
         (case role of
            Import _ Authoring Required _ \<Rightarrow> ensure (\<not> count < unat (pm_min multiplicity)) PortUnresolved
          | _ \<Rightarrow> Inr ())])"

fun direction_matches :: "port_direction \<Rightarrow> port_role \<Rightarrow> bool" where
  "direction_matches Import_Direction (Import _ _ _ _) = True"
| "direction_matches Export_Direction (Export _ _) = True"
| "direction_matches _ _ = False"

definition check_exposed_port ::
    "port_catalog \<Rightarrow> assembly_port_exposure \<Rightarrow> unit model_result" where
  "check_exposed_port ports x =
     and_then (ok_or (bt_get ports (ax_target x)) (Err PortUnresolved)) (\<lambda>target.
       ensure (direction_matches (ax_direction x) (pd_role target)) PortIncompatible)"

definition check_migration_port ::
    "port_catalog \<Rightarrow> state_slot_descriptor \<Rightarrow> unit model_result" where
  "check_migration_port ports s =
     (case ss_migration_port s of
        None \<Rightarrow> Inr ()
      | Some endpoint \<Rightarrow>
          and_then (ok_or (bt_get ports endpoint) (Err PortUnresolved)) (\<lambda>descriptor.
            ensure (is_directly_supported (pd_interaction descriptor)) UnsupportedInteraction))"

definition validate_ports :: "ext \<Rightarrow> assembly_revision \<Rightarrow> port_catalog \<Rightarrow> unit model_result" where
  "validate_ports E a ports = all_ok
     [assembly_validate E a,
      check_port_catalog E a ports,
      each (check_binding_ports E ports) (ar_bindings a),
      each (check_port_cardinality (provider_counts (ar_bindings a)) (consumer_counts (ar_bindings a))) ports,
      each (check_exposed_port ports) (ar_exposed_ports a),
      each (check_migration_port ports) (ar_state_slots a)]"

section \<open>\<open>impl ArtifactModel for AssemblyRevision\<close>\<close>

definition option_list :: "'a option \<Rightarrow> 'a list" where
  "option_list x = (case x of None \<Rightarrow> [] | Some v \<Rightarrow> [v])"

definition assembly_referenced_artifacts :: "assembly_revision \<Rightarrow> artifact_descriptor list" where
  "assembly_referenced_artifacts a =
     concat (map (\<lambda>n. source_artifact (an_source n) # option_list (an_configuration n)) (ar_nodes a))
     @ concat (map (\<lambda>s. option_list (ss_schema_ref s)) (ar_state_slots a))"

text \<open>The trait's default: no descriptor annotations.\<close>

definition no_annotations :: "'a \<Rightarrow> (str, json) btree_map" where
  "no_annotations _ = []"

definition assembly_descriptor :: "ext \<Rightarrow> assembly_revision \<Rightarrow> artifact_descriptor model_result" where
  "assembly_descriptor E = model_descriptor E (assembly_validate E) assembly_revision_value
     ASSEMBLY_REVISION_TYPE_URI assembly_referenced_artifacts no_annotations"

section \<open>Nested assemblies\<close>

text \<open>\<open>ensure_assembly_depth\<close>. The arguments never exceed 33 and 32 in the program, so the
  checked additions on \<open>usize\<close> are exact.\<close>

definition ensure_assembly_depth :: "nat \<Rightarrow> nat \<Rightarrow> unit model_result" where
  "ensure_assembly_depth depth height =
     ensure (\<not> MAX_ASSEMBLY_DEPTH < depth + (height - 1)) WorkTooComplex"

definition nested_digests :: "assembly_revision \<Rightarrow> str list" where
  "nested_digests a =
     concat (map (\<lambda>n. case an_source n of Assembly d \<Rightarrow> [ad_digest d] | Component _ \<Rightarrow> []) (ar_nodes a))"

lemma ensure_assembly_depth_Inr [res_simps]:
  "ensure_assembly_depth depth height = Inr u \<longleftrightarrow> depth + (height - 1) \<le> MAX_ASSEMBLY_DEPTH"
  by (auto simp: ensure_assembly_depth_def ensure_def)

text \<open>
  \<open>validate_assembly_subtree\<close>. The set \<open>visiting\<close> is an argument: the code inserts a
  digest that was absent and removes it before it returns, so a call leaves the set as it found
  it. The heights are threaded through.
\<close>

function validate_assembly_subtree :: "str \<Rightarrow> nat \<Rightarrow> assembly_map \<Rightarrow> str set
    \<Rightarrow> (str, nat) btree_map \<Rightarrow> (nat \<times> (str, nat) btree_map) model_result" where
  "validate_assembly_subtree digest depth assemblies visiting heights =
     and_then (ensure_assembly_depth depth 1) (\<lambda>_.
     case bt_get heights digest of
       Some height \<Rightarrow> and_then (ensure_assembly_depth depth height) (\<lambda>_. Inr (height, heights))
     | None \<Rightarrow>
         if digest \<in> visiting then Inl (Err AssemblyCycle)
         else
           and_then (ok_or (bt_get assemblies digest) (Err ArtifactMissing)) (\<lambda>assembly.
           and_then (foldM (\<lambda>child (maximum, hs).
                and_then (validate_assembly_subtree child (depth + 1) assemblies (insert digest visiting) hs)
                  (\<lambda>(child_height, hs'). Inr (max maximum child_height, hs')))
              (nested_digests assembly) (0, heights)) (\<lambda>(maximum, hs).
           and_then (ensure_assembly_depth depth (maximum + 1)) (\<lambda>_.
             Inr (maximum + 1, bt_insert digest (maximum + 1) hs)))))"
  by pat_completeness auto

termination
  by (relation "measure (\<lambda>(digest, depth, rest). Suc MAX_ASSEMBLY_DEPTH - depth)")
     (auto simp: res_simps)

declare validate_assembly_subtree.simps [simp del]

definition validate_assembly_closure ::
    "ext \<Rightarrow> artifact_descriptor \<Rightarrow> assembly_map \<Rightarrow> unit model_result" where
  "validate_assembly_closure E root assemblies =
     and_then (validate_descriptor_type E root ASSEMBLY_REVISION_TYPE_URI) (\<lambda>_.
     and_then (validate_assembly_subtree (ad_digest root) 1 assemblies {} []) (\<lambda>(_, heights).
     each (\<lambda>(digest, assembly).
         if bt_get heights digest = None then Inr ()
         else
           and_then (assembly_validate E assembly) (\<lambda>_.
           and_then (assembly_descriptor E assembly) (\<lambda>descriptor.
             ensure (ad_digest descriptor = digest) ArtifactDigestMismatch)))
       assemblies))"

section \<open>Lemmas\<close>

lemma validate_node_source_no_panic [no_panic]: "validate_node_source E src \<noteq> Inl Panic"
  by (simp add: validate_node_source_def split: assembly_node_source.splits)

lemma validate_assembly_node_no_panic [no_panic]: "validate_assembly_node E n \<noteq> Inl Panic"
  by (simp add: validate_assembly_node_def no_panic split: option.splits)

lemma validate_local_id_no_panic [no_panic]: "validate_local_id s \<noteq> Inl Panic"
  by (simp add: validate_local_id_def)

lemma assembly_validate_no_panic [no_panic]: "assembly_validate E a \<noteq> Inl Panic"
  by (simp add: assembly_validate_def validate_assembly_binding_def validate_assembly_slot_def no_panic)

lemma validate_node_source_artifact:
  "validate_node_source E src = Inr () \<Longrightarrow> validate_artifact_descriptor E (source_artifact src) = Inr ()"
  by (cases src) (auto simp: validate_node_source_def res_simps)

lemma assembly_validate_node:
  assumes "assembly_validate E a = Inr ()"
  shows "distinct (map an_node_id (ar_nodes a))"
    and "n \<in> set (ar_nodes a) \<Longrightarrow> validate_assembly_node E n = Inr ()"
  using assms by (auto simp: assembly_validate_def all_ok_Inr unique_loop_Inr)

lemma validate_assembly_node_Inr [res_simps]:
  "validate_assembly_node E n = Inr u \<longleftrightarrow>
     validate_node_source E (an_source n) = Inr () \<and> length (an_ports n) \<le> MAX_PORTS_PER_NODE
     \<and> (is_component (an_source n) \<or> an_ports n = [])
     \<and> distinct (map pd_port_id (an_ports n))
     \<and> (\<forall>p\<in>set (an_ports n). validate_port_descriptor E p = Inr ())
     \<and> (\<forall>c. an_configuration n = Some c \<longrightarrow> validate_artifact_descriptor E c = Inr ())"
  by (auto simp: validate_assembly_node_def res_simps split: option.splits)

lemma assembly_referenced_valid:
  assumes v: "assembly_validate E a = Inr ()" and r: "r \<in> set (assembly_referenced_artifacts a)"
  shows "validate_artifact_descriptor E r = Inr ()"
proof -
  have slots: "s \<in> set (ar_state_slots a) \<Longrightarrow> validate_state_slot E s = Inr ()" for s
    using v by (auto simp: assembly_validate_def all_ok_Inr unique_loop_Inr validate_assembly_slot_def)
  from r consider (node) n where "n \<in> set (ar_nodes a)"
      "r = source_artifact (an_source n) \<or> an_configuration n = Some r"
    | (slot) s where "s \<in> set (ar_state_slots a)" "ss_schema_ref s = Some r"
    by (auto simp: assembly_referenced_artifacts_def option_list_def split: option.splits)
  then show ?thesis
  proof cases
    case node
    then show ?thesis using assembly_validate_node(2) [OF v node(1)]
      by (auto simp: validate_assembly_node_Inr dest: validate_node_source_artifact)
  next
    case slot
    then show ?thesis using slots validate_state_slot_schema by blast
  qed
qed

lemma assembly_type_uri_present: "\<not> blank ASSEMBLY_REVISION_TYPE_URI"
  by code_simp

interpretation assembly_artifacts: artifact_model E "assembly_validate E" assembly_revision_value
    ASSEMBLY_REVISION_TYPE_URI assembly_referenced_artifacts no_annotations
  for E
  by unfold_locales
     (auto simp: assembly_type_uri_present no_annotations_def validate_portable_value_def each_def
        dest: assembly_referenced_valid)

lemma assembly_descriptor_no_panic [no_panic]: "assembly_descriptor E a \<noteq> Inl Panic"
  unfolding assembly_descriptor_def
  by (rule assembly_artifacts.model_descriptor_no_panic(1)) (rule assembly_validate_no_panic)

subsection \<open>The port catalog\<close>

lemma declared_component_ports_get:
  assumes "assembly_validate E a = Inr ()"
  shows "bt_get (declared_component_ports a) ep = Some p \<longleftrightarrow>
    (\<exists>n\<in>set (ar_nodes a). is_component (an_source n) \<and> p \<in> set (an_ports n)
       \<and> ep = PortEndpoint (an_node_id n) (pd_port_id p))"
proof -
  define ns where "ns = filter (\<lambda>n. is_component (an_source n)) (ar_nodes a)"
  define entry where "entry n = map (\<lambda>p. (PortEndpoint (an_node_id n) (pd_port_id p), p)) (an_ports n)"
    for n :: assembly_node
  have ids: "distinct (map an_node_id ns)"
    using assembly_validate_node(1) [OF assms] by (simp add: ns_def distinct_map_filter)
  have pids: "distinct (map pd_port_id (an_ports n))" if "n \<in> set ns" for n
    using assembly_validate_node(2) [OF assms] that by (auto simp: ns_def validate_assembly_node_Inr)
  have "distinct (map fst (concat (map entry ns)))"
    using ids pids
  proof (induction ns)
    case (Cons n ns)
    have "map fst (entry n) = map (PortEndpoint (an_node_id n)) (map pd_port_id (an_ports n))"
      by (simp add: entry_def)
    moreover have "distinct (map (PortEndpoint (an_node_id n)) (map pd_port_id (an_ports n)))"
      using Cons.prems(2) [of n] by (subst distinct_map) (auto intro: inj_onI)
    ultimately show ?case using Cons by (auto simp: entry_def comp_def)
  qed simp
  then have "bt_get (declared_component_ports a) ep = Some p \<longleftrightarrow> (ep, p) \<in> set (concat (map entry ns))"
    unfolding declared_component_ports_def ns_def [symmetric] entry_def [symmetric]
    by (simp add: bt_get_of_list rev_map [symmetric] map_of_eq_Some_iff del: set_concat)
  then show ?thesis by (auto simp: ns_def entry_def)
qed

lemma node_ids_mem: "nid \<in> node_ids a \<longleftrightarrow> (\<exists>n\<in>set (ar_nodes a). an_node_id n = nid)"
  by (auto simp: node_ids_def)

lemma component_node_ids_mem:
  "nid \<in> component_node_ids a \<longleftrightarrow> (\<exists>n\<in>set (ar_nodes a). an_node_id n = nid \<and> is_component (an_source n))"
  by (auto simp: component_node_ids_def)

text \<open>What the catalog must be: exactly the declared ports of the component nodes, and valid
  ports of known nested nodes, within the budget per node.\<close>

definition catalog_matches :: "ext \<Rightarrow> assembly_revision \<Rightarrow> port_catalog \<Rightarrow> bool" where
  "catalog_matches E a ports =
     ((\<forall>n\<in>set (ar_nodes a). is_component (an_source n) \<longrightarrow>
         (\<forall>p\<in>set (an_ports n). bt_get ports (PortEndpoint (an_node_id n) (pd_port_id p)) = Some p))
      \<and> (\<forall>ep d. bt_get ports ep = Some d \<longrightarrow>
           (\<exists>n\<in>set (ar_nodes a). an_node_id n = ep_node_id ep
              \<and> (is_component (an_source n) \<longrightarrow> d \<in> set (an_ports n)))
           \<and> ep_port_id ep = pd_port_id d \<and> validate_port_descriptor E d = Inr ())
      \<and> (\<forall>nid. length (filter (\<lambda>ed. ep_node_id (fst ed) = nid) ports) \<le> MAX_PORTS_PER_NODE))"

lemma check_catalog_entry_Inr:
  "check_catalog_entry E a (ep, d) = Inr u \<longleftrightarrow>
     ep_node_id ep \<in> node_ids a \<and> ep_port_id ep = pd_port_id d
     \<and> (ep_node_id ep \<in> component_node_ids a \<longrightarrow> bt_get (declared_component_ports a) ep \<noteq> None)
     \<and> validate_port_descriptor E d = Inr ()"
  by (auto simp: check_catalog_entry_def Let_def res_simps)

lemma check_port_catalog_iff:
  assumes v: "assembly_validate E a = Inr ()" and wf: "bt_wf ports"
  shows "check_port_catalog E a ports = Inr () \<longleftrightarrow> catalog_matches E a ports"
proof -
  note decl = declared_component_ports_get [OF v]
  have inj: "an_node_id n = an_node_id m \<Longrightarrow> n = m" if "n \<in> set (ar_nodes a)" "m \<in> set (ar_nodes a)" for n m
    using assembly_validate_node(1) [OF v] that by (auto simp: distinct_map dest: inj_onD)
  have wfd: "bt_wf (declared_component_ports a)"
    by (simp add: declared_component_ports_def bt_wf_bt_of_list)
  have declared: "(\<forall>ed\<in>set (declared_component_ports a). bt_get ports (fst ed) = Some (snd ed)) \<longleftrightarrow>
      (\<forall>n\<in>set (ar_nodes a). is_component (an_source n) \<longrightarrow>
         (\<forall>p\<in>set (an_ports n). bt_get ports (PortEndpoint (an_node_id n) (pd_port_id p)) = Some p))"
    (is "?all \<longleftrightarrow> _")
  proof -
    have "?all \<longleftrightarrow> (\<forall>ep p. bt_get (declared_component_ports a) ep = Some p \<longrightarrow> bt_get ports ep = Some p)"
      unfolding bt_get_mem [OF wfd] by force
    then show ?thesis unfolding decl by blast
  qed
  have entry: "check_catalog_entry E a (ep, d) = Inr () \<longleftrightarrow>
      (\<exists>n\<in>set (ar_nodes a). an_node_id n = ep_node_id ep
          \<and> (is_component (an_source n) \<longrightarrow> d \<in> set (an_ports n)))
      \<and> ep_port_id ep = pd_port_id d \<and> validate_port_descriptor E d = Inr ()"
    if declared: "\<forall>ed\<in>set (declared_component_ports a). bt_get ports (fst ed) = Some (snd ed)"
      and d: "bt_get ports ep = Some d" for ep d
  proof -
    have known: "bt_get (declared_component_ports a) ep = None \<or> bt_get (declared_component_ports a) ep = Some d"
      using declared d by (cases "bt_get (declared_component_ports a) ep")
        (auto simp: bt_get_mem [OF wfd])
    have some: "bt_get (declared_component_ports a) ep \<noteq> None \<longleftrightarrow>
        (\<exists>n\<in>set (ar_nodes a). is_component (an_source n) \<and> d \<in> set (an_ports n)
           \<and> ep = PortEndpoint (an_node_id n) (pd_port_id d))"
      using known decl [of ep d] by auto
    show ?thesis
      unfolding check_catalog_entry_Inr some node_ids_mem component_node_ids_mem
      by (cases ep) (auto dest: inj)
  qed
  have "each (\<lambda>(endpoint, descriptor).
         ensure (bt_get ports endpoint = Some descriptor) ArtifactDigestMismatch)
       (declared_component_ports a) = Inr () \<longleftrightarrow>
      (\<forall>ed\<in>set (declared_component_ports a). bt_get ports (fst ed) = Some (snd ed))"
    by (auto simp: each_Inr ensure_Inr split: prod.splits)
  moreover have "each (check_catalog_entry E a) ports = Inr () \<longleftrightarrow>
      (\<forall>ep d. bt_get ports ep = Some d \<longrightarrow> check_catalog_entry E a (ep, d) = Inr ())"
    by (auto simp: each_Inr bt_get_mem [OF wf])
  moreover have "(\<not> list_ex (\<lambda>(_, count). MAX_PORTS_PER_NODE < count)
        (fold bt_bump (map (ep_node_id \<circ> fst) ports) [])) \<longleftrightarrow>
      (\<forall>nid. length (filter (\<lambda>ed. ep_node_id (fst ed) = nid) ports) \<le> MAX_PORTS_PER_NODE)"
    by (simp add: bt_counts_bounded)
  ultimately show ?thesis
    unfolding check_port_catalog_def catalog_matches_def declared [symmetric]
    using entry by (simp add: all_ok_Inr ensure_Inr) blast
qed

subsection \<open>Bindings and cardinality\<close>

text \<open>The bindings of the revision that use the port \<open>ep\<close> in its role.\<close>

definition bound_count :: "assembly_revision \<Rightarrow> port_endpoint \<Rightarrow> port_descriptor \<Rightarrow> nat" where
  "bound_count a ep d =
     (case pd_role d of
        Import _ _ _ _ \<Rightarrow> length (filter (\<lambda>b. ab_consumer b = ep) (ar_bindings a))
      | Export _ _ \<Rightarrow> length (filter (\<lambda>b. ab_provider b = ep) (ar_bindings a)))"

definition binding_admissible :: "ext \<Rightarrow> port_catalog \<Rightarrow> assembly_binding \<Rightarrow> bool" where
  "binding_admissible E ports b =
     (\<exists>p c m latest av es. bt_get ports (ab_provider b) = Some p \<and> bt_get ports (ab_consumer b) = Some c
        \<and> ports_compatible E p c
        \<and> validate_transport_policy E (ab_transport_policy b) = Inr ()
        \<and> mergeable E [pd_transport p, pd_transport c, tp_requirements (ab_transport_policy b)]
        \<and> pd_role c = Import m latest av es \<and> ab_phase b \<le> latest)"

definition cardinality_respected :: "assembly_revision \<Rightarrow> port_catalog \<Rightarrow> bool" where
  "cardinality_respected a ports =
     (\<forall>ep d. bt_get ports ep = Some d \<longrightarrow>
        (\<forall>mx. pm_max (role_multiplicity (pd_role d)) = Some mx \<longrightarrow> bound_count a ep d \<le> unat mx)
        \<and> (\<forall>m es. pd_role d = Import m Authoring Required es \<longrightarrow> unat (pm_min m) \<le> bound_count a ep d))"

definition ports_admissible :: "ext \<Rightarrow> assembly_revision \<Rightarrow> port_catalog \<Rightarrow> bool" where
  "ports_admissible E a ports =
     (assembly_validate E a = Inr () \<and> catalog_matches E a ports
      \<and> (\<forall>b\<in>set (ar_bindings a). binding_admissible E ports b)
      \<and> cardinality_respected a ports
      \<and> (\<forall>x\<in>set (ar_exposed_ports a). \<exists>d. bt_get ports (ax_target x) = Some d
            \<and> direction_matches (ax_direction x) (pd_role d))
      \<and> (\<forall>s\<in>set (ar_state_slots a). \<forall>ep. ss_migration_port s = Some ep \<longrightarrow>
            (\<exists>d. bt_get ports ep = Some d \<and> is_directly_supported (pd_interaction d))))"

lemma check_transport_policy_iff:
  "check_transport_policy_compatibility E p c pol = Inr () \<longleftrightarrow>
     validate_transport_policy E pol = Inr () \<and> mergeable E [p, c, tp_requirements pol]"
  unfolding check_transport_policy_compatibility_def merged_transport_requirements_def
    merge_Inr_iff [symmetric] is_ok_Inr
  by (auto simp: and_then_Inr)

lemma check_binding_ports_iff:
  "check_binding_ports E ports b = Inr () \<longleftrightarrow> binding_admissible E ports b"
proof -
  have phase: "ports_compatible E p c \<Longrightarrow> phase_allowed (ab_phase b) c \<longleftrightarrow>
      (\<exists>m latest av es. pd_role c = Import m latest av es \<and> ab_phase b \<le> latest)" for p c
    by (auto simp: ports_compatible_def phase_allowed_def not_less)
  have "check_binding_ports E ports b = Inr () \<longleftrightarrow>
      (\<exists>p c. bt_get ports (ab_provider b) = Some p \<and> bt_get ports (ab_consumer b) = Some c
        \<and> ports_compatible E p c
        \<and> (validate_transport_policy E (ab_transport_policy b) = Inr ()
            \<and> mergeable E [pd_transport p, pd_transport c, tp_requirements (ab_transport_policy b)])
        \<and> phase_allowed (ab_phase b) c)"
    unfolding check_binding_ports_def
    by (simp add: and_then_Inr ok_or_Inr all_ok_Inr ensure_Inr check_port_compatibility_iff
        check_transport_policy_iff)
  then show ?thesis unfolding binding_admissible_def using phase by (elim ssubst) blast
qed

lemma check_port_cardinality_iff:
  "check_port_cardinality (provider_counts (ar_bindings a)) (consumer_counts (ar_bindings a)) (ep, d) = Inr ()
   \<longleftrightarrow> (\<forall>mx. pm_max (role_multiplicity (pd_role d)) = Some mx \<longrightarrow> bound_count a ep d \<le> unat mx)
     \<and> (\<forall>m es. pd_role d = Import m Authoring Required es \<longrightarrow> unat (pm_min m) \<le> bound_count a ep d)"
proof -
  have counts: "(case pd_role d of
              Import _ _ _ _ \<Rightarrow> bt_count (consumer_counts (ar_bindings a)) ep
            | Export _ _ \<Rightarrow> bt_count (provider_counts (ar_bindings a)) ep) = bound_count a ep d"
    by (simp add: bound_count_def provider_counts_def consumer_counts_def bt_count_by
        split: port_role.split)
  show ?thesis
    unfolding check_port_cardinality_def Let_def fst_conv snd_conv counts
    by (cases "pd_role d")
       (auto simp: all_ok_Inr ensure_Inr not_less split: option.splits binding_phase.splits
          availability_policy.splits)
qed

lemma check_exposed_port_Inr:
  "check_exposed_port ports x = Inr () \<longleftrightarrow>
     (\<exists>d. bt_get ports (ax_target x) = Some d \<and> direction_matches (ax_direction x) (pd_role d))"
  by (auto simp: check_exposed_port_def and_then_Inr ok_or_Inr ensure_Inr)

lemma check_migration_port_Inr:
  "check_migration_port ports s = Inr () \<longleftrightarrow>
     (\<forall>ep. ss_migration_port s = Some ep \<longrightarrow>
        (\<exists>d. bt_get ports ep = Some d \<and> is_directly_supported (pd_interaction d)))"
  by (auto simp: check_migration_port_def and_then_Inr ok_or_Inr ensure_Inr split: option.split)

lemma validate_ports_iff:
  assumes "bt_wf ports"
  shows "validate_ports E a ports = Inr () \<longleftrightarrow> ports_admissible E a ports"
proof -
  have "each (check_port_cardinality (provider_counts (ar_bindings a)) (consumer_counts (ar_bindings a))) ports
      = Inr () \<longleftrightarrow> cardinality_respected a ports"
    unfolding cardinality_respected_def check_port_cardinality_iff [symmetric] bt_get_mem [OF assms]
    by (auto simp: each_Inr)
  then show ?thesis
    unfolding validate_ports_def ports_admissible_def
    using check_port_catalog_iff [OF _ assms, of E a]
    by (auto simp: all_ok_Inr each_Inr check_binding_ports_iff check_exposed_port_Inr
        check_migration_port_Inr)
qed

lemma validate_ports_no_panic [no_panic]: "validate_ports E a ports \<noteq> Inl Panic"
  by (auto simp: validate_ports_def check_port_catalog_def check_catalog_entry_def Let_def
      check_binding_ports_def check_port_cardinality_def check_exposed_port_def check_migration_port_def
      ok_or_def no_panic split: option.splits port_role.splits binding_phase.splits
      availability_policy.splits prod.splits)

subsection \<open>Containment\<close>

definition nests :: "assembly_map \<Rightarrow> str \<Rightarrow> str \<Rightarrow> bool" where
  "nests A d e = (case bt_get A d of None \<Rightarrow> False | Some a \<Rightarrow> e \<in> set (nested_digests a))"

text \<open>The chains of containment from an assembly; the last digest may be absent from the map.\<close>

inductive nest_path :: "assembly_map \<Rightarrow> str \<Rightarrow> str list \<Rightarrow> bool" for A where
  stop: "nest_path A d [d]"
| step: "nests A d e \<Longrightarrow> nest_path A e p \<Longrightarrow> nest_path A d (d # p)"

inductive_simps nest_path_Nil: "nest_path A d []"
inductive_simps nest_path_Cons: "nest_path A d (x # p)"

text \<open>\<open>h\<close> is the height of \<open>d\<close>: every chain is complete and of at most \<open>h\<close> assemblies,
  and one has \<open>h\<close>.\<close>

definition height_spec :: "assembly_map \<Rightarrow> str \<Rightarrow> nat \<Rightarrow> bool" where
  "height_spec A d h =
     ((\<forall>p. nest_path A d p \<longrightarrow> length p \<le> h \<and> (\<forall>x\<in>set p. bt_get A x \<noteq> None))
      \<and> (\<exists>p. nest_path A d p \<and> length p = h))"

lemma nests_present: "nests A d e \<Longrightarrow> bt_get A d \<noteq> None"
  by (auto simp: nests_def split: option.splits)

lemma height_spec_pos: "height_spec A d h \<Longrightarrow> 1 \<le> h"
  by (auto simp: height_spec_def intro: nest_path.stop dest: spec [of _ "[d]"])

lemma height_spec_unique: "height_spec A d h \<Longrightarrow> height_spec A d k \<Longrightarrow> h = k"
  unfolding height_spec_def by (metis order_antisym)

lemma height_spec_step:
  assumes a: "bt_get A d = Some a"
    and all: "\<forall>c\<in>set (nested_digests a). \<exists>k\<le>m. height_spec A c k"
    and max: "m = 0 \<and> nested_digests a = [] \<or> (\<exists>c\<in>set (nested_digests a). height_spec A c m)"
  shows "height_spec A d (Suc m)"
  unfolding height_spec_def
proof (intro conjI allI impI)
  fix p assume "nest_path A d p"
  then have "length p \<le> Suc m \<and> (\<forall>x\<in>set p. bt_get A x \<noteq> None)"
  proof cases
    case (step e q)
    then obtain k where "k \<le> m" "height_spec A e k" using all a by (auto simp: nests_def)
    with step a show ?thesis by (force simp: height_spec_def)
  qed (simp add: a)
  then show "length p \<le> Suc m" and "\<forall>x\<in>set p. bt_get A x \<noteq> None" by blast+
next
  show "\<exists>p. nest_path A d p \<and> length p = Suc m"
    using max
  proof (elim disjE conjE bexE)
    assume "m = 0"
    then show ?thesis by (intro exI [of _ "[d]"]) (simp add: nest_path.stop)
  next
    fix c assume c: "c \<in> set (nested_digests a)" "height_spec A c m"
    then obtain p where "nest_path A c p" "length p = m" by (auto simp: height_spec_def)
    then show ?thesis using c a
      by (intro exI [of _ "d # p"]) (auto intro!: nest_path.step simp: nests_def)
  qed
qed

lemma nest_path_reach: "nest_path A d p \<Longrightarrow> x \<in> set p \<Longrightarrow> (nests A)\<^sup>*\<^sup>* d x"
  by (induction rule: nest_path.induct) (auto intro: converse_rtranclp_into_rtranclp)

lemma reach_nest_path: "(nests A)\<^sup>*\<^sup>* d x \<Longrightarrow> \<exists>p. nest_path A d p \<and> x \<in> set p"
proof (induction rule: converse_rtranclp_induct)
  case base
  show ?case by (intro exI [of _ "[x]"]) (simp add: nest_path.stop)
next
  case (step d e)
  then obtain p where "nest_path A e p" "x \<in> set p" by blast
  with step(1) show ?case by (intro exI [of _ "d # p"]) (simp add: nest_path.step)
qed

lemma nest_path_prepend:
  assumes "(nests A)\<^sup>+\<^sup>+ d x" and "nest_path A x p"
  shows "\<exists>q. nest_path A d q \<and> length p < length q"
  using assms(1)
proof (induction rule: converse_tranclp_induct)
  case (base d)
  then show ?case using assms(2) by (intro exI [of _ "d # p"]) (auto intro: nest_path.step)
next
  case (step d e)
  then obtain q where "nest_path A e q" "length p < length q" by blast
  with step(1) show ?case by (intro exI [of _ "d # q"]) (auto intro: nest_path.step)
qed

lemma cycle_long_paths:
  assumes "(nests A)\<^sup>*\<^sup>* d x" and cyc: "(nests A)\<^sup>+\<^sup>+ x x"
  shows "\<exists>p. nest_path A d p \<and> n \<le> length p"
proof -
  have from_x: "\<exists>p. nest_path A x p \<and> n \<le> length p"
  proof (induction n)
    case 0
    show ?case using nest_path.stop by blast
  next
    case (Suc n)
    then show ?case using nest_path_prepend [OF cyc] by (meson Suc_leI le_less_trans)
  qed
  show ?thesis
    using assms(1) from_x nest_path_prepend [of A d x]
    by (metis less_imp_le order_trans rtranclpD)
qed

text \<open>The memo table holds true heights and is closed under nesting.\<close>

definition heights_ok :: "assembly_map \<Rightarrow> (str, nat) btree_map \<Rightarrow> bool" where
  "heights_ok A hs =
     (\<forall>x k. bt_get hs x = Some k \<longrightarrow>
        height_spec A x k \<and> (\<forall>y. nests A x y \<longrightarrow> bt_get hs y \<noteq> None))"

text \<open>What one successful call from \<open>hs\<close> leaves in \<open>hs'\<close>.\<close>

definition heights_step ::
    "assembly_map \<Rightarrow> str set \<Rightarrow> (str, nat) btree_map \<Rightarrow> (str, nat) btree_map \<Rightarrow> bool" where
  "heights_step A roots hs hs' =
     (heights_ok A hs' \<and> bt_get hs \<subseteq>\<^sub>m bt_get hs'
      \<and> (\<forall>x. bt_get hs' x \<noteq> None \<longrightarrow> bt_get hs x \<noteq> None \<or> (\<exists>r\<in>roots. (nests A)\<^sup>*\<^sup>* r x)))"

lemma heights_step_trans:
  "heights_step A R hs hs' \<Longrightarrow> heights_step A S hs' hs'' \<Longrightarrow> heights_step A (R \<union> S) hs hs''"
  unfolding heights_step_def by (blast intro: map_le_trans)

text \<open>The loop over the nested assemblies after the prefix \<open>ys\<close>.\<close>

definition children_inv :: "assembly_map \<Rightarrow> (str, nat) btree_map \<Rightarrow> str list
    \<Rightarrow> nat \<times> (str, nat) btree_map \<Rightarrow> bool" where
  "children_inv A hs ys st =
     (heights_step A (set ys) hs (snd st)
      \<and> (\<forall>c\<in>set ys. \<exists>k\<le>fst st. height_spec A c k \<and> bt_get (snd st) c = Some k)
      \<and> (fst st = 0 \<and> ys = [] \<or> (\<exists>c\<in>set ys. height_spec A c (fst st))))"

lemma children_inv_start: "heights_ok A hs \<Longrightarrow> children_inv A hs [] (0, hs)"
  by (simp add: children_inv_def heights_step_def)

lemma children_inv_step:
  assumes "children_inv A hs ys (m, hs1)" and "height_spec A c k" and "bt_get hs2 c = Some k"
    and "heights_step A {c} hs1 hs2"
  shows "children_inv A hs (ys @ [c]) (max m k, hs2)"
  unfolding children_inv_def fst_conv snd_conv
proof (intro conjI)
  show "heights_step A (set (ys @ [c])) hs hs2"
    using heights_step_trans [of A "set ys" hs hs1 "{c}" hs2] assms(1,4) by (simp add: children_inv_def)
  have le: "bt_get hs1 x = Some v \<Longrightarrow> bt_get hs2 x = Some v" for x v
    using assms(4) by (auto simp: heights_step_def map_le_def dom_def)
  show "\<forall>x\<in>set (ys @ [c]). \<exists>j\<le>max m k. height_spec A x j \<and> bt_get hs2 x = Some j"
  proof
    fix x assume "x \<in> set (ys @ [c])"
    then consider "x = c" | "x \<in> set ys" by auto
    then show "\<exists>j\<le>max m k. height_spec A x j \<and> bt_get hs2 x = Some j"
    proof cases
      case 1
      then show ?thesis using assms(2,3) by (intro exI [of _ k]) simp
    next
      case 2
      then obtain j where "j \<le> m" "height_spec A x j" "bt_get hs1 x = Some j"
        using assms(1) by (auto simp: children_inv_def)
      then show ?thesis using le by (intro exI [of _ j]) auto
    qed
  qed
  show "max m k = 0 \<and> ys @ [c] = [] \<or> (\<exists>x\<in>set (ys @ [c]). height_spec A x (max m k))"
  proof (cases "m \<le> k")
    case False
    then have "m \<noteq> 0" by simp
    then have "\<exists>x\<in>set ys. height_spec A x m" using assms(1) by (auto simp: children_inv_def)
    with False show ?thesis by (auto simp: max_def)
  qed (use assms(2) in \<open>auto simp: max_def\<close>)
qed

lemma heights_step_finish:
  assumes a: "bt_get A d = Some a" and inv: "children_inv A hs (nested_digests a) (m, hs1)"
  shows "height_spec A d (Suc m) \<and> heights_step A {d} hs (bt_insert d (Suc m) hs1)
    \<and> bt_get (bt_insert d (Suc m) hs1) d = Some (Suc m)"
proof -
  have h: "height_spec A d (Suc m)"
    by (rule height_spec_step [OF a]) (use inv in \<open>auto simp: children_inv_def\<close>)
  have step: "heights_step A (set (nested_digests a)) hs hs1" using inv by (simp add: children_inv_def)
  have child: "nests A d y \<Longrightarrow> bt_get hs1 y \<noteq> None" for y
    using inv a by (auto simp: children_inv_def nests_def)
  have reach: "r \<in> set (nested_digests a) \<Longrightarrow> (nests A)\<^sup>*\<^sup>* r x \<Longrightarrow> (nests A)\<^sup>*\<^sup>* d x" for r x
    using a by (auto simp: nests_def intro: converse_rtranclp_into_rtranclp)
  have same: "bt_get hs1 d = Some k \<Longrightarrow> k = Suc m" for k
    using step height_spec_unique [OF _ h] by (simp add: heights_step_def heights_ok_def)
  have get: "bt_get (bt_insert d (Suc m) hs1) x = (if x = d then Some (Suc m) else bt_get hs1 x)" for x
    by (simp add: bt_get_insert)
  have le: "bt_get hs1 \<subseteq>\<^sub>m bt_get (bt_insert d (Suc m) hs1)"
    using same by (auto simp: map_le_def get)
  have "heights_ok A (bt_insert d (Suc m) hs1)"
    using step child h unfolding heights_step_def heights_ok_def get by (auto split: if_splits)
  moreover have "\<forall>x. bt_get (bt_insert d (Suc m) hs1) x \<noteq> None \<longrightarrow>
      bt_get hs x \<noteq> None \<or> (\<exists>r\<in>{d}. (nests A)\<^sup>*\<^sup>* r x)"
    using step reach unfolding heights_step_def get by (auto split: if_splits)
  ultimately show ?thesis
    using h step le unfolding heights_step_def by (auto simp: get intro: map_le_trans)
qed

lemma subtree_sound:
  assumes "validate_assembly_subtree d depth A vis hs = Inr (h, hs')" and "heights_ok A hs"
  shows "height_spec A d h \<and> depth + h \<le> Suc MAX_ASSEMBLY_DEPTH
    \<and> heights_step A {d} hs hs' \<and> bt_get hs' d = Some h"
  using assms
proof (induction d depth A vis hs arbitrary: h hs' rule: validate_assembly_subtree.induct)
  case (1 d depth A vis hs)
  show ?case
  proof (cases "bt_get hs d")
    case (Some k)
    then have "h = k" "hs' = hs" "depth + (k - 1) \<le> MAX_ASSEMBLY_DEPTH"
      using 1(2) by (auto simp: validate_assembly_subtree.simps [of d] res_simps)
    moreover have "height_spec A d k" using Some 1(3) by (simp add: heights_ok_def)
    ultimately show ?thesis using Some 1(3) height_spec_pos [of A d k]
      by (auto simp: heights_step_def)
  next
    case None
    let ?f = "\<lambda>child (maximum, hs). and_then
        (validate_assembly_subtree child (depth + 1) A (insert d vis) hs)
        (\<lambda>(child_height, hs'). Inr (max maximum child_height, hs'))"
    from None 1(2) obtain a m hs1 where depth: "depth \<le> MAX_ASSEMBLY_DEPTH" and vis: "d \<notin> vis"
      and a: "bt_get A d = Some a" and loop: "foldM ?f (nested_digests a) (0, hs) = Inr (m, hs1)"
      and res: "depth + m \<le> MAX_ASSEMBLY_DEPTH" "h = Suc m" "hs' = bt_insert d (Suc m) hs1"
      by (auto simp: validate_assembly_subtree.simps [of d] res_simps split: if_splits)
    have inv: "children_inv A hs (nested_digests a) (m, hs1)"
    proof (rule foldM_prefix_inv [where I = "children_inv A hs", OF loop children_inv_start [OF 1(3)]])
      fix ys c zs st st'
      assume split: "nested_digests a = ys @ c # zs" and I: "children_inv A hs ys st"
        and f: "?f c st = Inr st'"
      obtain mx hsa where st: "st = (mx, hsa)" by fastforce
      from f obtain k hsb where call: "validate_assembly_subtree c (depth + 1) A (insert d vis) hsa = Inr (k, hsb)"
        and st': "st' = (max mx k, hsb)" by (auto simp: st and_then_Inr)
      have "heights_ok A hsa" using I by (simp add: children_inv_def st heights_step_def)
      then have "height_spec A c k \<and> Suc (depth + k) \<le> Suc MAX_ASSEMBLY_DEPTH
          \<and> heights_step A {c} hsa hsb \<and> bt_get hsb c = Some k"
        using 1(1) [OF _ None vis _ _ _ call] depth a split by (auto simp: res_simps)
      then show "children_inv A hs (ys @ [c]) st'"
        using children_inv_step I unfolding st st' by blast
    qed
    from heights_step_finish [OF a inv] res show ?thesis by auto
  qed
qed

text \<open>What each error says about the containment graph.\<close>

definition containment_fault ::
    "assembly_map \<Rightarrow> str \<Rightarrow> nat \<Rightarrow> str set \<Rightarrow> model_error \<Rightarrow> bool" where
  "containment_fault A d depth vis e =
     (e = Err WorkTooComplex \<and> (\<exists>p. nest_path A d p \<and> Suc MAX_ASSEMBLY_DEPTH < depth + length p)
      \<or> e = Err ArtifactMissing \<and> (\<exists>x. (nests A)\<^sup>*\<^sup>* d x \<and> bt_get A x = None)
      \<or> e = Err AssemblyCycle \<and> (\<exists>x. (nests A)\<^sup>*\<^sup>* d x \<and> (x \<in> vis \<or> (nests A)\<^sup>+\<^sup>+ x x)))"

lemma containment_fault_child:
  assumes "nests A d c" and "containment_fault A c (Suc depth) (insert d vis) e"
  shows "containment_fault A d depth vis e"
proof -
  have reach: "(nests A)\<^sup>*\<^sup>* c x \<Longrightarrow> (nests A)\<^sup>*\<^sup>* d x" for x
    using assms(1) by (rule converse_rtranclp_into_rtranclp)
  have loop: "(nests A)\<^sup>*\<^sup>* c d \<Longrightarrow> (nests A)\<^sup>+\<^sup>+ d d"
    using assms(1) by (rule rtranclp_into_tranclp2)
  have path: "nest_path A c p \<Longrightarrow> nest_path A d (d # p)" for p
    using assms(1) by (rule nest_path.step)
  from assms(2) consider
      (deep) p where "e = Err WorkTooComplex" "nest_path A c p" "Suc MAX_ASSEMBLY_DEPTH < Suc depth + length p"
    | (missing) x where "e = Err ArtifactMissing" "(nests A)\<^sup>*\<^sup>* c x" "bt_get A x = None"
    | (cycle) x where "e = Err AssemblyCycle" "(nests A)\<^sup>*\<^sup>* c x" "x = d \<or> x \<in> vis \<or> (nests A)\<^sup>+\<^sup>+ x x"
    unfolding containment_fault_def by auto
  then show ?thesis
  proof cases
    case deep
    then show ?thesis using path unfolding containment_fault_def by (auto intro!: exI [of _ "d # p"])
  next
    case missing
    then show ?thesis using reach unfolding containment_fault_def by auto
  next
    case cycle
    then show ?thesis using reach loop unfolding containment_fault_def by blast
  qed
qed

text \<open>One iteration of the loop, and its invariant when the recursive call succeeds.\<close>

abbreviation child_step :: "assembly_map \<Rightarrow> str \<Rightarrow> nat \<Rightarrow> str set \<Rightarrow> str
    \<Rightarrow> nat \<times> (str, nat) btree_map \<Rightarrow> (nat \<times> (str, nat) btree_map) model_result" where
  "child_step A d depth vis \<equiv> \<lambda>child (maximum, hs). and_then
      (validate_assembly_subtree child (depth + 1) A (insert d vis) hs)
      (\<lambda>(child_height, hs'). Inr (max maximum child_height, hs'))"

lemma child_step_inv:
  assumes I: "children_inv A hs ys st" and f: "child_step A d depth vis c st = Inr st'"
  shows "children_inv A hs (ys @ [c]) st'"
proof -
  obtain mx hsa where st: "st = (mx, hsa)" by fastforce
  from f obtain k hsb
    where call: "validate_assembly_subtree c (depth + 1) A (insert d vis) hsa = Inr (k, hsb)"
      and st': "st' = (max mx k, hsb)" by (auto simp: st and_then_Inr)
  have "heights_ok A hsa" using I by (simp add: children_inv_def st heights_step_def)
  then show ?thesis using subtree_sound [OF call] children_inv_step I unfolding st st' by blast
qed

lemma children_loop:
  assumes "heights_ok A hs"
  shows "foldM (child_step A d depth vis) cs (0, hs) = Inr st \<Longrightarrow> children_inv A hs cs st"
    and "foldM (child_step A d depth vis) cs (0, hs) = Inl e \<Longrightarrow>
      \<exists>c hsa. c \<in> set cs \<and> heights_ok A hsa
        \<and> validate_assembly_subtree c (depth + 1) A (insert d vis) hsa = Inl e"
proof -
  note start = children_inv_start [OF assms]
  show "children_inv A hs cs st" if "foldM (child_step A d depth vis) cs (0, hs) = Inr st"
    using that by (rule foldM_prefix_inv [where I = "children_inv A hs", OF _ start]) (rule child_step_inv)
  assume "foldM (child_step A d depth vis) cs (0, hs) = Inl e"
  then have "\<exists>ys c zs st. cs = ys @ c # zs \<and> children_inv A hs ys st \<and> child_step A d depth vis c st = Inl e"
    by (rule foldM_prefix_fault [where I = "children_inv A hs", OF _ start]) (rule child_step_inv)
  then obtain ys c zs st where "cs = ys @ c # zs" and I: "children_inv A hs ys st"
    and f: "child_step A d depth vis c st = Inl e" by (elim exE conjE)
  moreover have "heights_ok A (snd st)" using I by (simp add: children_inv_def heights_step_def)
  moreover have "validate_assembly_subtree c (depth + 1) A (insert d vis) (snd st) = Inl e"
    using f by (auto simp: and_then_Inl split: prod.splits)
  ultimately show "\<exists>c hsa. c \<in> set cs \<and> heights_ok A hsa
        \<and> validate_assembly_subtree c (depth + 1) A (insert d vis) hsa = Inl e" by auto
qed

lemma subtree_memo:
  "depth \<le> MAX_ASSEMBLY_DEPTH \<Longrightarrow> bt_get hs d = Some k \<Longrightarrow>
     validate_assembly_subtree d depth A vis hs =
       and_then (ensure_assembly_depth depth k) (\<lambda>_. Inr (k, hs))"
  by (simp add: validate_assembly_subtree.simps [of d] ensure_assembly_depth_def)

lemma subtree_fresh:
  "depth \<le> MAX_ASSEMBLY_DEPTH \<Longrightarrow> bt_get hs d = None \<Longrightarrow> d \<notin> vis \<Longrightarrow> bt_get A d = Some a \<Longrightarrow>
     validate_assembly_subtree d depth A vis hs =
       and_then (foldM (child_step A d depth vis) (nested_digests a) (0, hs)) (\<lambda>(m, hs1).
         and_then (ensure_assembly_depth depth (m + 1)) (\<lambda>_. Inr (m + 1, bt_insert d (m + 1) hs1)))"
  by (simp add: validate_assembly_subtree.simps [of d] ensure_assembly_depth_def)

lemma too_deep_fault:
  assumes "height_spec A d k" and "ensure_assembly_depth depth k = Inl e"
  shows "containment_fault A d depth vis e"
proof -
  have "e = Err WorkTooComplex" "MAX_ASSEMBLY_DEPTH < depth + (k - 1)"
    using assms(2) by (auto simp: ensure_assembly_depth_def ensure_def split: if_splits)
  then show ?thesis using assms(1) height_spec_pos [OF assms(1)]
    by (force simp: containment_fault_def height_spec_def)
qed

lemma subtree_fault:
  assumes "validate_assembly_subtree d depth A vis hs = Inl e" and "heights_ok A hs"
  shows "containment_fault A d depth vis e"
  using assms
proof (induction "Suc MAX_ASSEMBLY_DEPTH - depth" arbitrary: d depth vis hs e rule: less_induct)
  case less
  consider (deep) "MAX_ASSEMBLY_DEPTH < depth"
    | (memo) k where "depth \<le> MAX_ASSEMBLY_DEPTH" "bt_get hs d = Some k"
    | (visiting) "depth \<le> MAX_ASSEMBLY_DEPTH" "bt_get hs d = None" "d \<in> vis"
    | (missing) "depth \<le> MAX_ASSEMBLY_DEPTH" "bt_get hs d = None" "d \<notin> vis" "bt_get A d = None"
    | (fresh) a where "depth \<le> MAX_ASSEMBLY_DEPTH" "bt_get hs d = None" "d \<notin> vis" "bt_get A d = Some a"
    by (metis not_le not_None_eq)
  then show ?case
  proof cases
    case deep
    then have "e = Err WorkTooComplex"
      using less(2) by (simp add: validate_assembly_subtree.simps [of d] ensure_assembly_depth_def)
    with deep show ?thesis
      by (auto simp: containment_fault_def intro!: exI [of _ "[d]"] nest_path.stop)
  next
    case memo
    then have "ensure_assembly_depth depth k = Inl e" "height_spec A d k"
      using less(2,3) by (auto simp: subtree_memo and_then_Inl heights_ok_def)
    then show ?thesis by (intro too_deep_fault)
  next
    case fresh
    show ?thesis
    proof (cases "foldM (child_step A d depth vis) (nested_digests a) (0, hs)")
      case (Inr st)
      then have "children_inv A hs (nested_digests a) (fst st, snd st)"
        using children_loop(1) [OF less(3)] by simp
      then have "height_spec A d (Suc (fst st))" using heights_step_finish [OF fresh(4)] by blast
      moreover have "ensure_assembly_depth depth (Suc (fst st)) = Inl e"
        using less(2) unfolding subtree_fresh [OF fresh] Inr by (auto simp: and_then_Inl split: prod.splits)
      ultimately show ?thesis by (rule too_deep_fault)
    next
      case (Inl e')
      then have "e' = e" using less(2) unfolding subtree_fresh [OF fresh] by simp
      then obtain c hsa where c: "c \<in> set (nested_digests a)" "heights_ok A hsa"
        "validate_assembly_subtree c (depth + 1) A (insert d vis) hsa = Inl e"
        using children_loop(2) [OF less(3) Inl] by blast
      have "containment_fault A c (Suc depth) (insert d vis) e"
        using less(1) [OF _ c(3,2)] fresh(1) by simp
      then show ?thesis
        by (rule containment_fault_child [rotated]) (simp add: nests_def fresh(4) c(1))
    qed
  qed (use less(2) in \<open>auto simp: validate_assembly_subtree.simps [of d] ensure_assembly_depth_def
         containment_fault_def\<close>)
qed

lemma heights_ok_Nil [simp]: "heights_ok A []"
  by (simp add: heights_ok_def)

lemma closed_reach:
  assumes "heights_ok A hs" and "(nests A)\<^sup>*\<^sup>* d x" and "bt_get hs d \<noteq> None"
  shows "bt_get hs x \<noteq> None"
  using assms(2,3)
proof (induction rule: rtranclp_induct)
  case (step y z)
  then obtain k where "bt_get hs y = Some k" by auto
  then show ?case using assms(1) step(2) unfolding heights_ok_def by blast
qed

lemma subtree_root_sound:
  assumes "validate_assembly_subtree d 1 A {} [] = Inr (h, hs)"
  shows "height_spec A d h" and "h \<le> MAX_ASSEMBLY_DEPTH"
    and "bt_get hs x \<noteq> None \<longleftrightarrow> (nests A)\<^sup>*\<^sup>* d x"
    and "bt_get hs x = Some k \<Longrightarrow> height_spec A x k"
proof -
  note res = subtree_sound [OF assms heights_ok_Nil]
  then have ok: "heights_ok A hs" by (simp add: heights_step_def)
  show "height_spec A d h" "h \<le> MAX_ASSEMBLY_DEPTH" using res by auto
  show "bt_get hs x \<noteq> None \<longleftrightarrow> (nests A)\<^sup>*\<^sup>* d x"
    using res closed_reach [OF ok, of d x] by (auto simp: heights_step_def)
  show "bt_get hs x = Some k \<Longrightarrow> height_spec A x k" using ok by (simp add: heights_ok_def)
qed

lemma no_fault_when_bounded:
  assumes "\<forall>p. nest_path A d p \<longrightarrow> length p \<le> MAX_ASSEMBLY_DEPTH \<and> (\<forall>x\<in>set p. bt_get A x \<noteq> None)"
  shows "\<not> containment_fault A d 1 {} e"
proof
  assume "containment_fault A d 1 {} e"
  then consider p where "nest_path A d p" "MAX_ASSEMBLY_DEPTH < length p"
    | x where "(nests A)\<^sup>*\<^sup>* d x" "bt_get A x = None"
    | x where "(nests A)\<^sup>*\<^sup>* d x" "(nests A)\<^sup>+\<^sup>+ x x"
    by (auto simp: containment_fault_def)
  then show False
  proof cases
    case 1
    then show ?thesis using assms by (meson leD)
  next
    case 2
    then show ?thesis using assms reach_nest_path by blast
  next
    case 3
    then show ?thesis
      using assms cycle_long_paths [OF 3, of "Suc MAX_ASSEMBLY_DEPTH"] by (meson not_less_eq_eq)
  qed
qed

lemma subtree_root_iff:
  "is_ok (validate_assembly_subtree d 1 A {} []) \<longleftrightarrow>
     (\<forall>p. nest_path A d p \<longrightarrow> length p \<le> MAX_ASSEMBLY_DEPTH \<and> (\<forall>x\<in>set p. bt_get A x \<noteq> None))"
proof
  assume "is_ok (validate_assembly_subtree d 1 A {} [])"
  then obtain h hs where "validate_assembly_subtree d 1 A {} [] = Inr (h, hs)" by (auto simp: is_ok_Inr)
  from subtree_root_sound(1,2) [OF this]
  show "\<forall>p. nest_path A d p \<longrightarrow> length p \<le> MAX_ASSEMBLY_DEPTH \<and> (\<forall>x\<in>set p. bt_get A x \<noteq> None)"
    unfolding height_spec_def by (meson le_trans)
next
  assume ok: "\<forall>p. nest_path A d p \<longrightarrow> length p \<le> MAX_ASSEMBLY_DEPTH \<and> (\<forall>x\<in>set p. bt_get A x \<noteq> None)"
  have "validate_assembly_subtree d 1 A {} [] \<noteq> Inl e" for e
    using subtree_fault [of d 1 A "{}" "[]" e] no_fault_when_bounded [OF ok, of e] by auto
  then show "is_ok (validate_assembly_subtree d 1 A {} [])"
    by (cases "validate_assembly_subtree d 1 A {} []") auto
qed

lemma closure_checks_Inr:
  assumes wf: "bt_wf A" and run: "validate_assembly_subtree (ad_digest root) 1 A {} [] = Inr (h, hs)"
    and root: "validate_descriptor_type E root ASSEMBLY_REVISION_TYPE_URI = Inr ()"
  shows "validate_assembly_closure E root A = Inr () \<longleftrightarrow>
    (\<forall>x a. (nests A)\<^sup>*\<^sup>* (ad_digest root) x \<and> bt_get A x = Some a \<longrightarrow>
       assembly_validate E a = Inr () \<and> (\<exists>d. assembly_descriptor E a = Inr d \<and> ad_digest d = x))"
proof -
  have "validate_assembly_closure E root A = Inr () \<longleftrightarrow>
     (\<forall>(x, a)\<in>set A. bt_get hs x \<noteq> None \<longrightarrow>
       assembly_validate E a = Inr () \<and> (\<exists>d. assembly_descriptor E a = Inr d \<and> ad_digest d = x))"
    unfolding validate_assembly_closure_def run root
    by (auto simp: each_Inr and_then_Inr ensure_Inr split: if_splits prod.splits)
  also have "\<dots> \<longleftrightarrow> (\<forall>x a. bt_get hs x \<noteq> None \<and> bt_get A x = Some a \<longrightarrow>
       assembly_validate E a = Inr () \<and> (\<exists>d. assembly_descriptor E a = Inr d \<and> ad_digest d = x))"
    unfolding bt_get_mem [OF wf] by blast
  finally show ?thesis using subtree_root_sound(3) [OF run] by simp
qed

lemma validate_assembly_closure_iff:
  assumes "bt_wf A"
  shows "validate_assembly_closure E root A = Inr () \<longleftrightarrow>
     validate_descriptor_type E root ASSEMBLY_REVISION_TYPE_URI = Inr ()
     \<and> (\<forall>p. nest_path A (ad_digest root) p \<longrightarrow> length p \<le> 32 \<and> (\<forall>x\<in>set p. bt_get A x \<noteq> None))
     \<and> (\<forall>x a. (nests A)\<^sup>*\<^sup>* (ad_digest root) x \<and> bt_get A x = Some a \<longrightarrow>
          assembly_validate E a = Inr () \<and> (\<exists>d. assembly_descriptor E a = Inr d \<and> ad_digest d = x))"
    (is "?ok \<longleftrightarrow> ?root \<and> ?chains \<and> ?valid")
proof -
  have "?ok \<Longrightarrow> ?root \<and> is_ok (validate_assembly_subtree (ad_digest root) 1 A {} [])"
    by (auto simp: validate_assembly_closure_def and_then_Inr)
  moreover have "?chains \<longleftrightarrow> is_ok (validate_assembly_subtree (ad_digest root) 1 A {} [])"
    unfolding subtree_root_iff MAX_ASSEMBLY_DEPTH_def ..
  moreover have "?root \<Longrightarrow> is_ok (validate_assembly_subtree (ad_digest root) 1 A {} []) \<Longrightarrow> ?ok \<longleftrightarrow> ?valid"
    using closure_checks_Inr [OF assms] by (fastforce simp: is_ok_Inr)
  ultimately show ?thesis by blast
qed

section \<open>A small instance\<close>

text \<open>Two components joined by one binding, and an assembly that nests this one.\<close>

definition sample_digest :: "char \<Rightarrow> str" where
  "sample_digest c = ''sha256:'' @ replicate 64 c"

definition sample_ref :: "str \<Rightarrow> char \<Rightarrow> artifact_descriptor" where
  "sample_ref uri c = \<lparr>ad_artifact_type_uri = uri, ad_media_type = ''application/json'',
     ad_digest = sample_digest c, ad_size_bytes = 7, ad_references = [], ad_annotations = []\<rparr>"

definition sample_port :: "port_id \<Rightarrow> port_role \<Rightarrow> port_descriptor" where
  "sample_port pid role = \<lparr>pd_port_id = pid,
     pd_contract = \<lparr>pc_protocol_id = ''x.p'', pc_interface_id = ''x.i'', pc_version = ''1.0.0'', pc_profiles = []\<rparr>,
     pd_interaction = ''plurora.interaction.capability-unary/v1'', pd_role = role,
     pd_transport = default_transport_requirements, pd_annotations = []\<rparr>"

definition sample_export :: port_descriptor where
  "sample_export = sample_port ''out'' (Export \<lparr>pm_min = 0, pm_max = Some 2\<rparr> Pure)"

definition sample_import :: port_descriptor where
  "sample_import = sample_port ''in'' (Import \<lparr>pm_min = 1, pm_max = Some 1\<rparr> Launch Required [Pure])"

definition sample_component :: "node_id \<Rightarrow> port_descriptor list \<Rightarrow> assembly_node" where
  "sample_component nid ports = \<lparr>an_node_id = nid,
     an_source = Component (sample_ref COMPONENT_DESCRIPTOR_TYPE_URI CHR ''b''), an_ports = ports,
     an_configuration = None, an_annotations = []\<rparr>"

definition sample_binding :: assembly_binding where
  "sample_binding = \<lparr>ab_binding_id = ''b1'', ab_provider = PortEndpoint ''p'' ''out'',
     ab_consumer = PortEndpoint ''u'' ''in'', ab_phase = Authoring,
     ab_transport_policy = default_transport_policy, ab_annotations = []\<rparr>"

definition sample_leaf :: assembly_revision where
  "sample_leaf = \<lparr>ar_schema = ASSEMBLY_REVISION_SCHEMA, ar_assembly_id = ''x/leaf'',
     ar_nodes = [sample_component ''p'' [sample_export], sample_component ''u'' [sample_import]],
     ar_bindings = [sample_binding], ar_exposed_ports = [], ar_state_slots = [], ar_annotations = []\<rparr>"

definition sample_catalog :: port_catalog where
  "sample_catalog = [(PortEndpoint ''p'' ''out'', sample_export), (PortEndpoint ''u'' ''in'', sample_import)]"

definition sample_root :: assembly_revision where
  "sample_root = \<lparr>ar_schema = ASSEMBLY_REVISION_SCHEMA, ar_assembly_id = ''x/root'',
     ar_nodes = [\<lparr>an_node_id = ''nested'', an_source = Assembly (sample_ref ASSEMBLY_REVISION_TYPE_URI CHR ''a''),
                 an_ports = [], an_configuration = None, an_annotations = []\<rparr>],
     ar_bindings = [], ar_exposed_ports = [], ar_state_slots = [], ar_annotations = []\<rparr>"

definition sample_empty :: assembly_revision where
  "sample_empty = \<lparr>ar_schema = ASSEMBLY_REVISION_SCHEMA, ar_assembly_id = ''x/none'', ar_nodes = [],
     ar_bindings = [], ar_exposed_ports = [], ar_state_slots = [], ar_annotations = []\<rparr>"

definition sample_assemblies :: assembly_map where
  "sample_assemblies = [(sample_digest CHR ''a'', sample_empty), (sample_digest CHR ''c'', sample_root)]"

section \<open>Properties\<close>

text \<open>C25: The closure check over nested assemblies accepts exactly when the root reference is a
  valid assembly descriptor, every containment chain from it is complete and has at most 32
  assemblies (so the containment graph is acyclic), and every assembly reachable from it is
  valid and stored under the digest of its own canonical bytes.\<close>

theorem assembly_closure_characterised:
  assumes "bt_wf A"
  shows "validate_assembly_closure E root A = Inr () \<longleftrightarrow>
     validate_descriptor_type E root ASSEMBLY_REVISION_TYPE_URI = Inr ()
     \<and> (\<forall>p. nest_path A (ad_digest root) p \<longrightarrow> length p \<le> 32 \<and> (\<forall>x\<in>set p. bt_get A x \<noteq> None))
     \<and> (\<forall>x a. (nests A)\<^sup>*\<^sup>* (ad_digest root) x \<and> bt_get A x = Some a \<longrightarrow>
          assembly_validate E a = Inr () \<and> (\<exists>d. assembly_descriptor E a = Inr d \<and> ad_digest d = x))"
  by (rule validate_assembly_closure_iff [OF assms])

theorem assembly_closure_characterised_witness:
  "validate_assembly_closure sample_ext (sample_ref ASSEMBLY_REVISION_TYPE_URI CHR ''c'') sample_assemblies = Inr ()
   \<and> nest_path sample_assemblies (sample_digest CHR ''c'') [sample_digest CHR ''c'', sample_digest CHR ''a'']
   \<and> assembly_validate sample_ext sample_empty = Inr ()"
proof -
  let ?root = "sample_ref ASSEMBLY_REVISION_TYPE_URI CHR ''c''"
  have wf: "bt_wf sample_assemblies" by code_simp
  have ok: "validate_assembly_closure sample_ext ?root sample_assemblies = Inr ()" by code_simp
  have nests: "nests sample_assemblies (sample_digest CHR ''c'') (sample_digest CHR ''a'')" by code_simp
  have leaf: "bt_get sample_assemblies (sample_digest CHR ''a'') = Some sample_empty"
    by (simp add: sample_assemblies_def)
  have "ad_digest ?root = sample_digest CHR ''c''" by (simp add: sample_ref_def)
  then have "assembly_validate sample_ext sample_empty = Inr ()"
    using assembly_closure_characterised [OF wf, of sample_ext ?root] ok nests leaf
    by (metis r_into_rtranclp)
  with ok nests show ?thesis by (blast intro: nest_path.intros)
qed

text \<open>The traversal of nested assemblies is exact. When it succeeds, the memo table holds
  precisely the assemblies reachable from the root, each with the length of its longest
  containment chain. When it fails, the error names a real defect: too complex only if some
  chain exceeds 32 assemblies, missing only if a reachable digest is absent, a cycle only if a
  reachable assembly contains itself.\<close>

theorem assembly_nesting_traversal_exact:
  "case validate_assembly_subtree d 1 A {} [] of
     Inr (h, hs) \<Rightarrow> height_spec A d h \<and> h \<le> 32
       \<and> (\<forall>x. bt_get hs x \<noteq> None \<longleftrightarrow> (nests A)\<^sup>*\<^sup>* d x)
       \<and> (\<forall>x k. bt_get hs x = Some k \<longrightarrow> height_spec A x k)
   | Inl e \<Rightarrow>
       e = Err WorkTooComplex \<and> (\<exists>p. nest_path A d p \<and> 32 < length p)
       \<or> e = Err ArtifactMissing \<and> (\<exists>x. (nests A)\<^sup>*\<^sup>* d x \<and> bt_get A x = None)
       \<or> e = Err AssemblyCycle \<and> (\<exists>x. (nests A)\<^sup>*\<^sup>* d x \<and> (nests A)\<^sup>+\<^sup>+ x x)"
proof (cases "validate_assembly_subtree d 1 A {} []")
  case (Inl e)
  then have "containment_fault A d 1 {} e" by (rule subtree_fault) simp
  then show ?thesis using Inl by (auto simp: containment_fault_def MAX_ASSEMBLY_DEPTH_def)
next
  case (Inr r)
  then obtain h hs where "validate_assembly_subtree d 1 A {} [] = Inr (h, hs)" by (cases r) auto
  from Inr this subtree_root_sound [OF this] show ?thesis by (simp add: MAX_ASSEMBLY_DEPTH_def)
qed

theorem assembly_nesting_traversal_exact_witness:
  "height_spec sample_assemblies (sample_digest CHR ''c'') 2
   \<and> (\<exists>x. (nests [(''loop'', sample_root)])\<^sup>*\<^sup>* ''loop'' x \<and> bt_get [(''loop'', sample_root)] x = None)"
proof -
  have run: "validate_assembly_subtree (sample_digest CHR ''c'') 1 sample_assemblies {} []
      = Inr (2, [(sample_digest CHR ''a'', 1), (sample_digest CHR ''c'', 2)])" by code_simp
  have bad: "validate_assembly_subtree ''loop'' 1 [(''loop'', sample_root)] {} [] = Inl (Err ArtifactMissing)"
    by code_simp
  show ?thesis
    using assembly_nesting_traversal_exact [of sample_assemblies "sample_digest CHR ''c''"]
      assembly_nesting_traversal_exact [of "[(''loop'', sample_root)]" "''loop''"]
    unfolding run bad by simp
qed

text \<open>The check of a revision against its port catalog is complete and sound: it accepts
  exactly the admissible catalogs. The catalog holds the declared ports of every component node
  and nothing else for it, every binding joins two compatible ports under its transport policy
  no later than the consumer's latest phase, every port is bound at most as often as its maximum
  and authoring-time required imports at least as often as their minimum, exposures point at a
  port of their direction and migration ports at a supported interaction.\<close>

theorem validate_ports_characterised:
  assumes "bt_wf ports"
  shows "(validate_ports E a ports = Inr () \<longleftrightarrow> ports_admissible E a ports)
    \<and> validate_ports E a ports \<noteq> Inl Panic"
  using validate_ports_iff [OF assms] validate_ports_no_panic by blast

theorem validate_ports_characterised_witness:
  "validate_ports sample_ext sample_leaf sample_catalog = Inr ()
   \<and> cardinality_respected sample_leaf sample_catalog
   \<and> binding_admissible sample_ext sample_catalog sample_binding"
proof -
  have wf: "bt_wf sample_catalog" by code_simp
  have ok: "validate_ports sample_ext sample_leaf sample_catalog = Inr ()" by code_simp
  have "sample_binding \<in> set (ar_bindings sample_leaf)" by (simp add: sample_leaf_def)
  with ok validate_ports_characterised [OF wf, of sample_ext sample_leaf] show ?thesis
    unfolding ports_admissible_def by blast
qed

end
