(* ===== verification/Containment.thy ===== *)
theory Containment
  imports Assemblies
begin

text \<open>
  \<open>validate_resolver_containment\<close> of \<open>crates/plurora-work/src/resolver.rs\<close>: the resolver's
  own walk over nested assemblies. It visits every occurrence with an explicit stack, and
  unlike the closure check of \<open>assembly.rs\<close> it also compares the descriptors that refer to
  one digest.
\<close>

section \<open>The stack loop\<close>

definition child_refs :: "assembly_revision \<Rightarrow> artifact_descriptor list" where
  "child_refs a =
     concat (map (\<lambda>n. case an_source n of Assembly d \<Rightarrow> [d] | Component _ \<Rightarrow> []) (ar_nodes a))"

text \<open>A stack entry: the expected descriptor, its depth and the digests above it.\<close>

type_synonym containment_entry = "artifact_descriptor \<times> nat \<times> str list"

text \<open>Every step replaces an entry by finitely many deeper ones, and the depth is bounded.\<close>

definition stack_weight :: "containment_entry list \<Rightarrow> nat multiset" where
  "stack_weight stack = mset (map (\<lambda>entry. Suc MAX_ASSEMBLY_DEPTH - fst (snd entry)) stack)"

lemma stack_weight_append: "stack_weight (new @ stack) = stack_weight stack + stack_weight new"
  by (simp add: stack_weight_def add.commute)

lemma stack_weight_Cons:
  "stack_weight ((e, depth, anc) # stack) = stack_weight stack + {#Suc MAX_ASSEMBLY_DEPTH - depth#}"
  by (simp add: stack_weight_def)

text \<open>The head of the list is the top of the stack, so the sorted children, pushed in reverse,
  stand in front in their order.\<close>

function containment_loop :: "assembly_map \<Rightarrow> containment_entry list
    \<Rightarrow> (str, artifact_descriptor) btree_map \<Rightarrow> (str, artifact_descriptor) btree_map model_result" where
  "containment_loop A [] seen = Inr seen"
| "containment_loop A ((expected, depth, ancestors) # stack) seen =
     (let digest = ad_digest expected in
      if MAX_ASSEMBLY_DEPTH < depth then Inl (Err WorkTooComplex)
      else if digest \<in> set ancestors then Inl (Err AssemblyCycle)
      else
        (case bt_get A digest of
           None \<Rightarrow> Inl (Err ArtifactMissing)
         | Some assembly \<Rightarrow>
             if (case bt_get seen digest of None \<Rightarrow> False | Some previous \<Rightarrow> previous \<noteq> expected)
             then Inl (Err ArtifactDigestMismatch)
             else
               containment_loop A
                 (map (\<lambda>child. (child, depth + 1, ancestors @ [digest]))
                    (sort_key ad_digest (child_refs assembly)) @ stack)
                 (bt_insert digest expected seen)))"
  by pat_completeness auto

termination
proof (relation "inv_image (mult less_than) (\<lambda>(A, stack, seen). stack_weight stack)")
  fix A :: assembly_map and expected :: artifact_descriptor and depth ancestors and stack :: "containment_entry list"
    and seen and digest :: str and assembly :: assembly_revision
  assume "\<not> MAX_ASSEMBLY_DEPTH < depth"
  then have lt: "Suc MAX_ASSEMBLY_DEPTH - (depth + 1) < Suc MAX_ASSEMBLY_DEPTH - depth" by simp
  let ?new = "map (\<lambda>child. (child, depth + 1, ancestors @ [digest])) (sort_key ad_digest (child_refs assembly))"
  have "(stack_weight stack + stack_weight ?new, stack_weight stack + {#Suc MAX_ASSEMBLY_DEPTH - depth#})
      \<in> mult less_than"
    by (rule one_step_implies_mult) (use lt in \<open>auto simp: stack_weight_def\<close>)
  then show "((A, ?new @ stack, bt_insert digest expected seen), (A, (expected, depth, ancestors) # stack, seen))
      \<in> inv_image (mult less_than) (\<lambda>(A, stack, seen). stack_weight stack)"
    by (simp only: in_inv_image prod.case stack_weight_append stack_weight_Cons)
qed (auto intro: wf_mult wf_less_than)

text \<open>The final pass indexes \<open>assemblies[&digest]\<close>, which panics on a missing key.\<close>

definition check_expected_descriptor ::
    "ext \<Rightarrow> assembly_map \<Rightarrow> str \<times> artifact_descriptor \<Rightarrow> unit model_result" where
  "check_expected_descriptor E A entry =
     and_then (ok_or (bt_get A (fst entry)) Panic) (\<lambda>assembly.
     and_then (assembly_validate E assembly) (\<lambda>_.
     and_then (assembly_descriptor E assembly) (\<lambda>descriptor.
       ensure (descriptor = snd entry) ArtifactDigestMismatch)))"

definition validate_resolver_containment ::
    "ext \<Rightarrow> artifact_descriptor \<Rightarrow> assembly_map \<Rightarrow> unit model_result" where
  "validate_resolver_containment E root A =
     and_then (validate_descriptor_type E root ASSEMBLY_REVISION_TYPE_URI) (\<lambda>_.
     and_then (containment_loop A [(root, 1, [])] []) (\<lambda>seen.
       each (check_expected_descriptor E A) seen))"

section \<open>Reference chains\<close>

text \<open>The chains of references from a descriptor, and the set of references below it.\<close>

inductive ref_path :: "assembly_map \<Rightarrow> artifact_descriptor \<Rightarrow> artifact_descriptor list \<Rightarrow> bool" for A where
  ref_stop: "ref_path A e [e]"
| ref_step: "bt_get A (ad_digest e) = Some a \<Longrightarrow> c \<in> set (child_refs a) \<Longrightarrow> ref_path A c p
    \<Longrightarrow> ref_path A e (e # p)"

inductive refs_below :: "assembly_map \<Rightarrow> artifact_descriptor \<Rightarrow> artifact_descriptor \<Rightarrow> bool" for A root where
  ref_root: "refs_below A root root"
| ref_child: "refs_below A root e \<Longrightarrow> bt_get A (ad_digest e) = Some a \<Longrightarrow> c \<in> set (child_refs a)
    \<Longrightarrow> refs_below A root c"

lemma nested_digests_child_refs: "nested_digests a = map ad_digest (child_refs a)"
proof -
  have "(case s of Assembly d \<Rightarrow> [ad_digest d] | Component _ \<Rightarrow> [])
      = map ad_digest (case s of Assembly d \<Rightarrow> [d] | Component _ \<Rightarrow> [])" for s
    by (cases s) auto
  then show ?thesis by (simp add: nested_digests_def child_refs_def map_concat comp_def)
qed

lemma nests_child_refs:
  "nests A d x \<longleftrightarrow> (\<exists>a c. bt_get A d = Some a \<and> c \<in> set (child_refs a) \<and> ad_digest c = x)"
  by (auto simp: nests_def nested_digests_child_refs split: option.splits)

lemma ref_path_nest_path: "ref_path A e p \<Longrightarrow> nest_path A (ad_digest e) (map ad_digest p)"
  by (induction rule: ref_path.induct) (auto intro!: nest_path.intros simp: nests_child_refs)

lemma nest_path_ref_path:
  "nest_path A d q \<Longrightarrow> ad_digest e = d \<Longrightarrow> \<exists>p. ref_path A e p \<and> map ad_digest p = q"
proof (induction arbitrary: e rule: nest_path.induct)
  case (stop d)
  then show ?case by (intro exI [of _ "[e]"]) (auto intro: ref_stop)
next
  case (step d x q)
  then obtain a c where a: "bt_get A d = Some a" and c: "c \<in> set (child_refs a)" and x: "ad_digest c = x"
    by (auto simp: nests_child_refs)
  from step.IH [OF x] obtain p where p: "ref_path A c p" "map ad_digest p = q" by blast
  have "ref_path A e (e # p)"
    by (rule ref_step [OF _ c p(1)]) (simp add: a step.prems)
  then show ?case by (intro exI [of _ "e # p"]) (simp add: p(2) step.prems)
qed

lemma refs_below_path: "refs_below A root e \<Longrightarrow> ref_path A e q \<Longrightarrow> \<exists>p. ref_path A root p \<and> set q \<subseteq> set p"
proof (induction arbitrary: q rule: refs_below.induct)
  case (ref_child e a c)
  then have "ref_path A e (e # q)" by (blast intro: ref_step)
  from ref_child.IH [OF this] show ?case by auto
qed blast

lemma ref_path_refs_below: "ref_path A e p \<Longrightarrow> refs_below A root e \<Longrightarrow> x \<in> set p \<Longrightarrow> refs_below A root x"
  by (induction rule: ref_path.induct) (auto intro: ref_child)

lemma refs_below_iff: "refs_below A root x \<longleftrightarrow> (\<exists>p. ref_path A root p \<and> x \<in> set p)"
  using refs_below_path [OF _ ref_stop] ref_path_refs_below [OF _ ref_root] by fastforce

lemma refs_below_nests: "refs_below A root e \<Longrightarrow> (nests A)\<^sup>*\<^sup>* (ad_digest root) (ad_digest e)"
  by (induction rule: refs_below.induct) (auto simp: nests_child_refs intro: rtranclp.rtrancl_into_rtrancl)

lemma nests_refs_below:
  "(nests A)\<^sup>*\<^sup>* (ad_digest root) x \<Longrightarrow> \<exists>e. refs_below A root e \<and> ad_digest e = x"
  by (induction rule: rtranclp_induct) (auto simp: nests_child_refs intro: ref_root ref_child)

section \<open>What the loop establishes\<close>

declare containment_loop.simps(2) [simp del]

lemma containment_loop_Inr:
  assumes "containment_loop A ((e, depth, anc) # stack) seen = Inr seen'"
  obtains a where "depth \<le> MAX_ASSEMBLY_DEPTH" and "ad_digest e \<notin> set anc"
    and "bt_get A (ad_digest e) = Some a"
    and "bt_get seen (ad_digest e) = None \<or> bt_get seen (ad_digest e) = Some e"
    and "containment_loop A (map (\<lambda>child. (child, depth + 1, anc @ [ad_digest e]))
           (sort_key ad_digest (child_refs a)) @ stack) (bt_insert (ad_digest e) e seen) = Inr seen'"
  using assms by (auto simp: containment_loop.simps(2) Let_def split: if_splits option.splits)

text \<open>A finished run has followed every chain below the stack and recorded every reference.\<close>

definition chain_covered ::
    "assembly_map \<Rightarrow> (str, artifact_descriptor) btree_map \<Rightarrow> containment_entry \<Rightarrow> bool" where
  "chain_covered A seen entry =
     (\<forall>p. ref_path A (fst entry) p \<longrightarrow> fst (snd entry) + length p \<le> Suc MAX_ASSEMBLY_DEPTH
        \<and> (\<forall>x\<in>set p. bt_get A (ad_digest x) \<noteq> None \<and> bt_get seen (ad_digest x) = Some x))"

lemma chain_covered_step:
  assumes "depth \<le> MAX_ASSEMBLY_DEPTH" and a: "bt_get A (ad_digest e) = Some a"
    and "bt_get seen (ad_digest e) = Some e"
    and children: "\<forall>c\<in>set (child_refs a). chain_covered A seen (c, depth + 1, anc')"
  shows "chain_covered A seen (e, depth, anc)"
  unfolding chain_covered_def fst_conv snd_conv
proof (intro allI impI)
  fix p assume "ref_path A e p"
  then show "depth + length p \<le> Suc MAX_ASSEMBLY_DEPTH
      \<and> (\<forall>x\<in>set p. bt_get A (ad_digest x) \<noteq> None \<and> bt_get seen (ad_digest x) = Some x)"
  proof cases
    case ref_stop
    then show ?thesis using assms by simp
  next
    case (ref_step a' c q)
    then show ?thesis using children a assms(3) by (auto simp: chain_covered_def)
  qed
qed

lemma containment_loop_sound:
  assumes "containment_loop A stack seen = Inr seen'"
  shows "bt_get seen \<subseteq>\<^sub>m bt_get seen' \<and> (\<forall>entry\<in>set stack. chain_covered A seen' entry)"
  using assms
proof (induction A stack seen rule: containment_loop.induct)
  case (2 A e depth anc stack seen)
  obtain a where h: "depth \<le> MAX_ASSEMBLY_DEPTH" "ad_digest e \<notin> set anc" "bt_get A (ad_digest e) = Some a"
    "bt_get seen (ad_digest e) = None \<or> bt_get seen (ad_digest e) = Some e"
    and rec: "containment_loop A (map (\<lambda>child. (child, depth + 1, anc @ [ad_digest e]))
        (sort_key ad_digest (child_refs a)) @ stack) (bt_insert (ad_digest e) e seen) = Inr seen'"
    using 2(2) by (rule containment_loop_Inr)
  have ih: "bt_get (bt_insert (ad_digest e) e seen) \<subseteq>\<^sub>m bt_get seen'
      \<and> (\<forall>entry\<in>set (map (\<lambda>child. (child, depth + 1, anc @ [ad_digest e]))
           (sort_key ad_digest (child_refs a)) @ stack). chain_covered A seen' entry)"
    by (rule 2(1) [OF HOL.refl _ _ _ _ rec]) (use h in \<open>auto split: option.splits\<close>)
  have le: "bt_get seen \<subseteq>\<^sub>m bt_get (bt_insert (ad_digest e) e seen)"
    using h(4) by (auto simp: bt_get_insert map_le_def)
  have "bt_get seen' (ad_digest e) = Some e"
    using ih by (auto simp: bt_get_insert map_le_def dest: bspec [of _ _ "ad_digest e"])
  then have "chain_covered A seen' (e, depth, anc)"
    by (rule chain_covered_step [OF h(1,3), where anc' = "anc @ [ad_digest e]"]) (use ih in auto)
  then show ?case using ih le by (auto intro: map_le_trans)
qed simp

text \<open>The references recorded come from the start or from a set closed under nesting.\<close>

definition refs_closed :: "assembly_map \<Rightarrow> artifact_descriptor set \<Rightarrow> bool" where
  "refs_closed A R =
     (\<forall>e\<in>R. \<forall>a. bt_get A (ad_digest e) = Some a \<longrightarrow> set (child_refs a) \<subseteq> R)"

definition seen_ok :: "assembly_map \<Rightarrow> artifact_descriptor set
    \<Rightarrow> (str, artifact_descriptor) btree_map \<Rightarrow> bool" where
  "seen_ok A R seen =
     (bt_wf seen \<and> (\<forall>x e. bt_get seen x = Some e \<longrightarrow> ad_digest e = x \<and> e \<in> R \<and> bt_get A x \<noteq> None))"

lemma seen_ok_insert:
  "seen_ok A R seen \<Longrightarrow> e \<in> R \<Longrightarrow> bt_get A (ad_digest e) = Some a \<Longrightarrow> seen_ok A R (bt_insert (ad_digest e) e seen)"
  by (auto simp: seen_ok_def bt_get_insert bt_wf_insert)

lemma containment_loop_seen:
  assumes "containment_loop A stack seen = Inr seen'" and "refs_closed A R"
    and "seen_ok A R seen" and "fst ` set stack \<subseteq> R"
  shows "seen_ok A R seen'"
  using assms
proof (induction A stack seen rule: containment_loop.induct)
  case (2 A e depth anc stack seen)
  obtain a where h: "depth \<le> MAX_ASSEMBLY_DEPTH" "ad_digest e \<notin> set anc" "bt_get A (ad_digest e) = Some a"
    "bt_get seen (ad_digest e) = None \<or> bt_get seen (ad_digest e) = Some e"
    and rec: "containment_loop A (map (\<lambda>child. (child, depth + 1, anc @ [ad_digest e]))
        (sort_key ad_digest (child_refs a)) @ stack) (bt_insert (ad_digest e) e seen) = Inr seen'"
    using 2(2) by (rule containment_loop_Inr)
  have e: "e \<in> R" using 2(5) by simp
  then have children: "set (child_refs a) \<subseteq> R" using 2(3) h(3) by (auto simp: refs_closed_def)
  show ?case
    by (rule 2(1) [OF HOL.refl _ _ _ _ rec 2(3)])
       (use h children 2(5) seen_ok_insert [OF 2(4) e h(3)] in \<open>auto split: option.splits\<close>)
qed simp

section \<open>What an error of the loop says\<close>

definition ancestors_ok :: "assembly_map \<Rightarrow> containment_entry \<Rightarrow> bool" where
  "ancestors_ok A entry = (\<forall>x\<in>set (snd (snd entry)). (nests A)\<^sup>+\<^sup>+ x (ad_digest (fst entry)))"

definition loop_fault :: "assembly_map \<Rightarrow> artifact_descriptor set \<Rightarrow> containment_entry set
    \<Rightarrow> model_error \<Rightarrow> bool" where
  "loop_fault A R entries err =
     (err = Err WorkTooComplex \<and> (\<exists>entry\<in>entries. \<exists>p. ref_path A (fst entry) p
          \<and> Suc MAX_ASSEMBLY_DEPTH < fst (snd entry) + length p)
      \<or> err = Err ArtifactMissing \<and> (\<exists>e\<in>R. bt_get A (ad_digest e) = None)
      \<or> err = Err AssemblyCycle \<and> (\<exists>e\<in>R. (nests A)\<^sup>+\<^sup>+ (ad_digest e) (ad_digest e))
      \<or> err = Err ArtifactDigestMismatch \<and> (\<exists>e\<in>R. \<exists>e'\<in>R. ad_digest e = ad_digest e' \<and> e \<noteq> e'))"

lemma loop_fault_deep:
  "loop_fault A R entries (Err WorkTooComplex) \<longleftrightarrow>
     (\<exists>entry\<in>entries. \<exists>p. ref_path A (fst entry) p \<and> Suc MAX_ASSEMBLY_DEPTH < fst (snd entry) + length p)"
  by (simp add: loop_fault_def)

lemma loop_fault_children:
  assumes a: "bt_get A (ad_digest e) = Some a"
    and fault: "loop_fault A R (set (map (\<lambda>child. (child, depth + 1, anc')) (sort_key ad_digest (child_refs a)) @ stack)) err"
  shows "loop_fault A R (set ((e, depth, anc) # stack)) err"
proof (cases "err = Err WorkTooComplex")
  case True
  then obtain entry p where p: "ref_path A (fst entry) p" "Suc MAX_ASSEMBLY_DEPTH < fst (snd entry) + length p"
    and entry: "entry \<in> set (map (\<lambda>child. (child, depth + 1, anc')) (sort_key ad_digest (child_refs a)) @ stack)"
    using fault unfolding True loop_fault_deep by blast
  show ?thesis
  proof (cases "entry \<in> set stack")
    case True
    with p \<open>err = Err WorkTooComplex\<close> show ?thesis unfolding loop_fault_def by auto
  next
    case False
    with entry obtain c where c: "c \<in> set (child_refs a)" "entry = (c, depth + 1, anc')" by auto
    then have "ref_path A e (e # p)" using ref_step [OF a c(1)] p(1) by simp
    moreover have "Suc MAX_ASSEMBLY_DEPTH < depth + length (e # p)" using p(2) c(2) by simp
    ultimately show ?thesis using True unfolding loop_fault_def by fastforce
  qed
qed (use fault in \<open>simp add: loop_fault_def\<close>)

lemma ancestors_ok_child:
  assumes "ancestors_ok A (e, depth, anc)" and "bt_get A (ad_digest e) = Some a" and "c \<in> set (child_refs a)"
  shows "ancestors_ok A (c, depth', anc @ [ad_digest e])"
proof -
  have "nests A (ad_digest e) (ad_digest c)" using assms(2,3) by (auto simp: nests_child_refs)
  then show ?thesis using assms(1) by (auto simp: ancestors_ok_def intro: tranclp.trancl_into_trancl)
qed

lemma containment_loop_fault:
  assumes "containment_loop A stack seen = Inl err" and "refs_closed A R"
    and "seen_ok A R seen" and "fst ` set stack \<subseteq> R" and "\<forall>entry\<in>set stack. ancestors_ok A entry"
  shows "loop_fault A R (set stack) err"
  using assms
proof (induction A stack seen rule: containment_loop.induct)
  case (2 A e depth anc stack seen)
  have e: "e \<in> R" using 2(5) by simp
  have anc: "ad_digest e \<in> set anc \<Longrightarrow> (nests A)\<^sup>+\<^sup>+ (ad_digest e) (ad_digest e)"
    using 2(6) by (simp add: ancestors_ok_def)
  consider (deep) "MAX_ASSEMBLY_DEPTH < depth" "err = Err WorkTooComplex"
    | (cycle) "ad_digest e \<in> set anc" "err = Err AssemblyCycle"
    | (missing) "bt_get A (ad_digest e) = None" "err = Err ArtifactMissing"
    | (mismatch) e' where "bt_get seen (ad_digest e) = Some e'" "e' \<noteq> e" "err = Err ArtifactDigestMismatch"
    | (step) a where "\<not> MAX_ASSEMBLY_DEPTH < depth" "ad_digest e \<notin> set anc" "bt_get A (ad_digest e) = Some a"
        "\<not> (case bt_get seen (ad_digest e) of None \<Rightarrow> False | Some previous \<Rightarrow> previous \<noteq> e)"
        "containment_loop A (map (\<lambda>child. (child, depth + 1, anc @ [ad_digest e]))
           (sort_key ad_digest (child_refs a)) @ stack) (bt_insert (ad_digest e) e seen) = Inl err"
    using 2(2) by (auto simp: containment_loop.simps(2) Let_def split: if_splits option.splits)
  then show ?case
  proof cases
    case deep
    then show ?thesis unfolding loop_fault_def by (auto intro!: exI [of _ "[e]"] ref_stop)
  next
    case cycle
    then show ?thesis using anc e unfolding loop_fault_def by auto
  next
    case missing
    then show ?thesis using e unfolding loop_fault_def by auto
  next
    case mismatch
    then show ?thesis using 2(4) e unfolding loop_fault_def seen_ok_def by blast
  next
    case step
    have children: "set (child_refs a) \<subseteq> R" using 2(3) step(3) e by (auto simp: refs_closed_def)
    have "loop_fault A R (set (map (\<lambda>child. (child, depth + 1, anc @ [ad_digest e]))
        (sort_key ad_digest (child_refs a)) @ stack)) err"
      by (rule 2(1) [OF HOL.refl step 2(3)])
         (use children 2(5,6) seen_ok_insert [OF 2(4) e step(3)] step(3) in
            \<open>auto intro: ancestors_ok_child\<close>)
    then show ?thesis by (rule loop_fault_children [OF step(3)])
  qed
qed simp

section \<open>The whole check\<close>

lemma refs_closed_below: "refs_closed A {e. refs_below A root e}"
  by (auto simp: refs_closed_def intro: ref_child)

lemma seen_ok_Nil: "seen_ok A R []"
  by (simp add: seen_ok_def)

lemma containment_run_sound:
  assumes "containment_loop A [(root, 1, [])] [] = Inr seen"
  shows "\<forall>p. ref_path A root p \<longrightarrow> length p \<le> MAX_ASSEMBLY_DEPTH"
    and "bt_wf seen" and "bt_get seen x = Some e \<longleftrightarrow> refs_below A root e \<and> ad_digest e = x"
    and "refs_below A root e \<Longrightarrow> bt_get A (ad_digest e) \<noteq> None"
proof -
  have cov: "chain_covered A seen (root, 1, [])" using containment_loop_sound [OF assms] by simp
  then show "\<forall>p. ref_path A root p \<longrightarrow> length p \<le> MAX_ASSEMBLY_DEPTH" by (auto simp: chain_covered_def)
  have ok: "seen_ok A {e. refs_below A root e} seen"
    by (rule containment_loop_seen [OF assms refs_closed_below seen_ok_Nil]) (simp add: ref_root)
  then show "bt_wf seen" by (simp add: seen_ok_def)
  have below: "refs_below A root e \<Longrightarrow> bt_get seen (ad_digest e) = Some e \<and> bt_get A (ad_digest e) \<noteq> None" for e
    using cov unfolding refs_below_iff chain_covered_def by auto
  then show "bt_get seen x = Some e \<longleftrightarrow> refs_below A root e \<and> ad_digest e = x"
    using ok by (auto simp: seen_ok_def)
  show "refs_below A root e \<Longrightarrow> bt_get A (ad_digest e) \<noteq> None" using below by blast
qed

lemma containment_run_total:
  assumes "\<forall>p. nest_path A (ad_digest root) p \<longrightarrow> length p \<le> MAX_ASSEMBLY_DEPTH \<and> (\<forall>x\<in>set p. bt_get A x \<noteq> None)"
    and unique: "\<And>e e'. refs_below A root e \<Longrightarrow> refs_below A root e' \<Longrightarrow> ad_digest e = ad_digest e' \<Longrightarrow> e = e'"
  shows "is_ok (containment_loop A [(root, 1, [])] [])"
proof (cases "containment_loop A [(root, 1, [])] []")
  case (Inl err)
  let ?R = "{e. refs_below A root e}"
  have "loop_fault A ?R (set [(root, 1, [])]) err"
    by (rule containment_loop_fault [OF Inl refs_closed_below seen_ok_Nil])
       (auto simp: ref_root ancestors_ok_def)
  then consider p where "ref_path A root p" "MAX_ASSEMBLY_DEPTH < length p"
    | e where "refs_below A root e" "bt_get A (ad_digest e) = None"
    | e where "refs_below A root e" "(nests A)\<^sup>+\<^sup>+ (ad_digest e) (ad_digest e)"
    using unique unfolding loop_fault_def by auto
  then have "containment_fault A (ad_digest root) 1 {} (Err WorkTooComplex)
      \<or> containment_fault A (ad_digest root) 1 {} (Err ArtifactMissing)
      \<or> containment_fault A (ad_digest root) 1 {} (Err AssemblyCycle)"
  proof cases
    case (1 p)
    then have "nest_path A (ad_digest root) (map ad_digest p)" by (rule_tac ref_path_nest_path)
    with 1(2) show ?thesis unfolding containment_fault_def by force
  qed (auto simp: containment_fault_def dest: refs_below_nests)
  then show ?thesis using no_fault_when_bounded [OF assms(1)] by blast
qed simp

lemma check_expected_Inr:
  "check_expected_descriptor E A (x, e) = Inr () \<longleftrightarrow>
     (\<exists>a. bt_get A x = Some a \<and> assembly_validate E a = Inr () \<and> assembly_descriptor E a = Inr e)"
  by (auto simp: check_expected_descriptor_def and_then_Inr ok_or_Inr ensure_Inr)

lemma resolver_containment_Inr:
  "validate_resolver_containment E root A = Inr () \<longleftrightarrow>
     validate_descriptor_type E root ASSEMBLY_REVISION_TYPE_URI = Inr ()
     \<and> is_ok (containment_loop A [(root, 1, [])] [])
     \<and> (\<forall>e. refs_below A root e \<longrightarrow> (\<exists>a. bt_get A (ad_digest e) = Some a
            \<and> assembly_validate E a = Inr () \<and> assembly_descriptor E a = Inr e))"
proof (cases "containment_loop A [(root, 1, [])] []")
  case (Inr seen)
  note run = containment_run_sound [OF Inr]
  have "each (check_expected_descriptor E A) seen = Inr () \<longleftrightarrow>
      (\<forall>x e. bt_get seen x = Some e \<longrightarrow> check_expected_descriptor E A (x, e) = Inr ())"
    by (auto simp: each_Inr bt_get_mem [OF run(2)])
  then have "each (check_expected_descriptor E A) seen = Inr () \<longleftrightarrow>
      (\<forall>e. refs_below A root e \<longrightarrow> (\<exists>a. bt_get A (ad_digest e) = Some a
            \<and> assembly_validate E a = Inr () \<and> assembly_descriptor E a = Inr e))"
    by (simp add: run(3) check_expected_Inr)
  then show ?thesis unfolding validate_resolver_containment_def Inr and_then_Inr by simp
qed (auto simp: validate_resolver_containment_def and_then_Inr)

lemma resolver_containment_no_panic [no_panic]: "validate_resolver_containment E root A \<noteq> Inl Panic"
proof -
  have "containment_loop A stack seen \<noteq> Inl Panic" for stack seen
    by (induction A stack seen rule: containment_loop.induct)
       (auto simp: containment_loop.simps(2) Let_def split: option.splits)
  moreover have "each (check_expected_descriptor E A) seen \<noteq> Inl Panic"
    if "containment_loop A [(root, 1, [])] [] = Inr seen" for seen
  proof -
    note run = containment_run_sound [OF that]
    have "check_expected_descriptor E A entry \<noteq> Inl Panic" if "entry \<in> set seen" for entry
    proof -
      obtain x e where entry: "entry = (x, e)" by fastforce
      then have "bt_get seen x = Some e" using that by (simp add: bt_get_mem [OF run(2)])
      then have "refs_below A root e" "ad_digest e = x" by (simp_all add: run(3))
      then obtain a where "bt_get A x = Some a" using run(4) by fastforce
      then show ?thesis
        by (simp add: check_expected_descriptor_def entry no_panic)
    qed
    then show ?thesis by (rule each_no_panic)
  qed
  ultimately show ?thesis
    unfolding validate_resolver_containment_def by (intro and_then_no_panic) auto
qed

lemma resolver_containment_closure:
  assumes wf: "bt_wf A" and ok: "validate_resolver_containment E root A = Inr ()"
  shows "validate_assembly_closure E root A = Inr ()"
    and "refs_below A root e \<Longrightarrow> bt_get A (ad_digest e) = Some a \<Longrightarrow> assembly_descriptor E a = Inr e"
proof -
  obtain seen where run: "containment_loop A [(root, 1, [])] [] = Inr seen"
    using ok by (auto simp: resolver_containment_Inr is_ok_Inr)
  have refs: "refs_below A root e \<Longrightarrow> \<exists>a. bt_get A (ad_digest e) = Some a
      \<and> assembly_validate E a = Inr () \<and> assembly_descriptor E a = Inr e" for e
    using ok by (simp add: resolver_containment_Inr)
  show "refs_below A root e \<Longrightarrow> bt_get A (ad_digest e) = Some a \<Longrightarrow> assembly_descriptor E a = Inr e"
    using refs [of e] by auto
  have "length p \<le> MAX_ASSEMBLY_DEPTH \<and> (\<forall>x\<in>set p. bt_get A x \<noteq> None)"
    if p: "nest_path A (ad_digest root) p" for p
  proof -
    obtain q where q: "ref_path A root q" "p = map ad_digest q"
      using nest_path_ref_path [OF p HOL.refl] by blast
    have "length p \<le> MAX_ASSEMBLY_DEPTH" using containment_run_sound(1) [OF run] q by simp
    moreover have "bt_get A (ad_digest e) \<noteq> None" if "e \<in> set q" for e
      using containment_run_sound(4) [OF run] q(1) that refs_below_iff by blast
    ultimately show ?thesis by (auto simp: q(2))
  qed
  moreover have "assembly_validate E a = Inr () \<and> (\<exists>d. assembly_descriptor E a = Inr d \<and> ad_digest d = x)"
    if "(nests A)\<^sup>*\<^sup>* (ad_digest root) x \<and> bt_get A x = Some a" for x a
    using nests_refs_below [of A root x] refs that by fastforce
  ultimately show "validate_assembly_closure E root A = Inr ()"
    using ok unfolding validate_assembly_closure_iff [OF wf] resolver_containment_Inr MAX_ASSEMBLY_DEPTH_def
    by blast
qed

lemma closure_resolver_containment:
  assumes wf: "bt_wf A" and closed: "validate_assembly_closure E root A = Inr ()"
    and full: "\<And>e a. refs_below A root e \<Longrightarrow> bt_get A (ad_digest e) = Some a \<Longrightarrow> assembly_descriptor E a = Inr e"
  shows "validate_resolver_containment E root A = Inr ()"
proof -
  note closure = closed [unfolded validate_assembly_closure_iff [OF wf]]
  then have chains: "\<forall>p. nest_path A (ad_digest root) p \<longrightarrow>
      length p \<le> MAX_ASSEMBLY_DEPTH \<and> (\<forall>x\<in>set p. bt_get A x \<noteq> None)"
    by (simp add: MAX_ASSEMBLY_DEPTH_def)
  have present: "\<exists>a. bt_get A (ad_digest e) = Some a \<and> assembly_validate E a = Inr () \<and> assembly_descriptor E a = Inr e"
    if e: "refs_below A root e" for e
  proof -
    obtain p where "nest_path A (ad_digest root) p" "ad_digest e \<in> set p"
      using reach_nest_path [OF refs_below_nests [OF e]] by blast
    then obtain a where "bt_get A (ad_digest e) = Some a" using chains by blast
    with closure full [OF e] refs_below_nests [OF e] show ?thesis by auto
  qed
  have "is_ok (containment_loop A [(root, 1, [])] [])"
    by (rule containment_run_total [OF chains]) (metis present option.inject sum.inject(2))
  then show ?thesis using closure present by (simp add: resolver_containment_Inr)
qed

section \<open>Properties\<close>

text \<open>C24: The two independent checks of nested assemblies agree. The resolver's stack walk
  accepts a root exactly when the recursive closure check accepts it and, in addition, every
  reference below the root is the full descriptor computed from the assembly it names (not
  only its digest). The walk terminates, and its map index never panics.\<close>

theorem resolver_containment_refines_closure:
  assumes "bt_wf A"
  shows "(validate_resolver_containment E root A = Inr () \<longleftrightarrow>
      validate_assembly_closure E root A = Inr ()
      \<and> (\<forall>e a. refs_below A root e \<and> bt_get A (ad_digest e) = Some a \<longrightarrow> assembly_descriptor E a = Inr e))
    \<and> validate_resolver_containment E root A \<noteq> Inl Panic"
  using resolver_containment_closure [OF assms] closure_resolver_containment [OF assms]
    resolver_containment_no_panic by blast

text \<open>The reference of the small instance, with the references of its own canonical form.\<close>

definition sample_empty_ref :: artifact_descriptor where
  "sample_empty_ref = (case assembly_descriptor sample_ext sample_empty of
     Inr d \<Rightarrow> d | Inl _ \<Rightarrow> sample_ref [] CHR ''0'')"

theorem resolver_containment_refines_closure_witness:
  "validate_resolver_containment sample_ext sample_empty_ref [(sample_digest CHR ''a'', sample_empty)] = Inr ()
   \<and> validate_assembly_closure sample_ext sample_empty_ref [(sample_digest CHR ''a'', sample_empty)] = Inr ()"
proof -
  let ?A = "[(sample_digest CHR ''a'', sample_empty)]"
  have "bt_wf ?A" by (simp add: bt_wf_def)
  moreover have "validate_resolver_containment sample_ext sample_empty_ref ?A = Inr ()" by code_simp
  ultimately show ?thesis using resolver_containment_refines_closure by blast
qed

end
