(* ===== verification/Locks.thy ===== *)
theory Locks
  imports Assemblies
begin

text \<open>
  \<open>crates/plurora-work/src/lock.rs\<close> with \<open>ComponentTrustClass\<close> and
  \<open>ProtocolProfilePin\<close> of \<open>crates/plurora-core/src/component.rs\<close>: the lock of an assembly,
  which pins every node and every binding, and the replacement of one pinned node.
\<close>

section \<open>Data\<close>

definition ASSEMBLY_LOCK_TYPE_URI :: str where
  "ASSEMBLY_LOCK_TYPE_URI = ''urn:plurora:assembly-lock:v1''"

definition ASSEMBLY_LOCK_SCHEMA :: str where
  "ASSEMBLY_LOCK_SCHEMA = ''plurora.assembly-lock.v1''"

datatype component_trust_class =
    SandboxedComponent | IsolatedProcess | RemoteBoundary | TrustedNative | StaticResource
  | ForeignCapsule

record protocol_profile_pin =
  pp_protocol_id :: str
  pp_version :: str
  pp_profile :: str

record node_lock =
  nl_node_id :: node_id
  nl_artifact :: artifact_descriptor
  nl_behavior_digest :: "str option"
  nl_trust_class :: "component_trust_class option"

record binding_lock =
  bl_binding_id :: str
  bl_provider :: port_endpoint
  bl_consumer :: port_endpoint
  bl_provider_component :: artifact_descriptor
  bl_transport :: selected_transport
  bl_phase :: binding_phase

record assembly_lock =
  al_schema :: str
  al_assembly :: artifact_descriptor
  al_nodes :: "node_lock list"
  al_bindings :: "binding_lock list"
  al_protocol_profiles :: "protocol_profile_pin list"
  al_content_roots :: "artifact_descriptor list"

fun trust_class_value :: "component_trust_class \<Rightarrow> json" where
  "trust_class_value SandboxedComponent = JStr ''sandboxed_component''"
| "trust_class_value IsolatedProcess = JStr ''isolated_process''"
| "trust_class_value RemoteBoundary = JStr ''remote_boundary''"
| "trust_class_value TrustedNative = JStr ''trusted_native''"
| "trust_class_value StaticResource = JStr ''static_resource''"
| "trust_class_value ForeignCapsule = JStr ''foreign_capsule''"

definition profile_pin_value :: "protocol_profile_pin \<Rightarrow> json" where
  "profile_pin_value p = jobj
     (jfield ''protocol_id'' (JStr (pp_protocol_id p)) @ jfield ''version'' (JStr (pp_version p))
      @ jfield ''profile'' (JStr (pp_profile p)))"

definition node_lock_value :: "node_lock \<Rightarrow> json" where
  "node_lock_value n = jobj
     (jfield ''node_id'' (JStr (nl_node_id n))
      @ jfield ''artifact'' (artifact_descriptor_value (nl_artifact n))
      @ jopt ''behavior_digest'' JStr (nl_behavior_digest n)
      @ jopt ''trust_class'' trust_class_value (nl_trust_class n))"

definition binding_lock_value :: "binding_lock \<Rightarrow> json" where
  "binding_lock_value b = jobj
     (jfield ''binding_id'' (JStr (bl_binding_id b))
      @ jfield ''provider'' (port_endpoint_value (bl_provider b))
      @ jfield ''consumer'' (port_endpoint_value (bl_consumer b))
      @ jfield ''provider_component'' (artifact_descriptor_value (bl_provider_component b))
      @ jfield ''transport'' (selected_transport_value (bl_transport b))
      @ jfield ''phase'' (phase_value (bl_phase b)))"

definition assembly_lock_value :: "assembly_lock \<Rightarrow> json" where
  "assembly_lock_value l = jobj
     (jfield ''schema'' (JStr (al_schema l))
      @ jfield ''assembly'' (artifact_descriptor_value (al_assembly l))
      @ jfield ''nodes'' (jarr node_lock_value (al_nodes l))
      @ jvec ''bindings'' binding_lock_value (al_bindings l)
      @ jvec ''protocol_profiles'' profile_pin_value (al_protocol_profiles l)
      @ jvec ''content_roots'' artifact_descriptor_value (al_content_roots l))"

section \<open>Validation\<close>

definition validate_node_lock :: "ext \<Rightarrow> node_lock \<Rightarrow> unit model_result" where
  "validate_node_lock E n =
     and_then (validate_artifact_descriptor E (nl_artifact n)) (\<lambda>_.
       if ad_artifact_type_uri (nl_artifact n) = COMPONENT_DESCRIPTOR_TYPE_URI then
         and_then (ok_or (nl_behavior_digest n) (Err WorkInvalid)) (\<lambda>behavior. all_ok
           [ensure (validate_sha256 behavior) ArtifactDigestMismatch,
            ensure (nl_trust_class n \<noteq> None) WorkInvalid])
       else if ad_artifact_type_uri (nl_artifact n) = ASSEMBLY_LOCK_TYPE_URI then
         ensure (\<not> (nl_behavior_digest n \<noteq> None \<or> nl_trust_class n \<noteq> None)) WorkInvalid
       else Inl (Err WorkInvalid))"

definition validate_binding_lock :: "ext \<Rightarrow> binding_lock \<Rightarrow> unit model_result" where
  "validate_binding_lock E b = all_ok
     [validate_local_id (bl_binding_id b),
      validate_descriptor_type E (bl_provider_component b) COMPONENT_DESCRIPTOR_TYPE_URI,
      validate_selected_transport E (bl_transport b)]"

definition nodes_by_id :: "node_lock list \<Rightarrow> (node_id, node_lock) btree_map" where
  "nodes_by_id ns = bt_of_list (map (\<lambda>n. (nl_node_id n, n)) ns)"

text \<open>Indexing \<open>nodes_by_id[..]\<close> panics on a missing key.\<close>

definition check_lock_binding :: "node_lock list \<Rightarrow> binding_lock \<Rightarrow> unit model_result" where
  "check_lock_binding ns b =
     (let ids = set (map nl_node_id ns) in
      and_then (ensure (ep_node_id (bl_provider b) \<in> ids \<and> ep_node_id (bl_consumer b) \<in> ids) PortUnresolved)
      (\<lambda>_. and_then (ok_or (bt_get (nodes_by_id ns) (ep_node_id (bl_provider b))) Panic) (\<lambda>provider_node.
        ensure (\<not> (ad_artifact_type_uri (nl_artifact provider_node) = COMPONENT_DESCRIPTOR_TYPE_URI
            \<and> nl_artifact provider_node \<noteq> bl_provider_component b)) ArtifactDigestMismatch)))"

definition validate_profile_pins :: "protocol_profile_pin list \<Rightarrow> unit model_result" where
  "validate_profile_pins ps = unique_loop
     (\<lambda>p. ensure (\<not> (blank (pp_protocol_id p) \<or> blank (pp_version p) \<or> blank (pp_profile p))) WorkInvalid)
     (\<lambda>p. (pp_protocol_id p, pp_version p, pp_profile p)) (Err WorkInvalid) no_check {} ps"

definition assembly_lock_validate :: "ext \<Rightarrow> assembly_lock \<Rightarrow> unit model_result" where
  "assembly_lock_validate E l = all_ok
     [ensure (al_schema l = ASSEMBLY_LOCK_SCHEMA) WorkInvalid,
      validate_descriptor_type E (al_assembly l) ASSEMBLY_REVISION_TYPE_URI,
      unique_loop (validate_node_lock E) nl_node_id (Err WorkInvalid) no_check {} (al_nodes l),
      unique_loop (validate_binding_lock E) bl_binding_id (Err WorkInvalid)
        (check_lock_binding (al_nodes l)) {} (al_bindings l),
      validate_profile_pins (al_protocol_profiles l),
      unique_loop (validate_artifact_descriptor E) ad_digest (Err WorkInvalid) no_check {}
        (al_content_roots l),
      validate_portable_value E (assembly_lock_value l)]"

section \<open>Replacement of a node\<close>

fun position :: "('a \<Rightarrow> bool) \<Rightarrow> 'a list \<Rightarrow> nat option" where
  "position P [] = None"
| "position P (x # xs) = (if P x then Some 0 else map_option Suc (position P xs))"

text \<open>\<open>replace_node(&mut self, ..)\<close>: the result and the lock it leaves behind.\<close>

definition replace_node ::
    "ext \<Rightarrow> assembly_lock \<Rightarrow> node_id \<Rightarrow> node_lock \<Rightarrow> unit model_result \<times> assembly_lock" where
  "replace_node E self node_id replacement =
     (if nl_node_id replacement \<noteq> node_id then (Inl (Err WorkInvalid), self)
      else
        (case position (\<lambda>n. nl_node_id n = node_id) (al_nodes self) of
           None \<Rightarrow> (Inl (Err ArtifactMissing), self)
         | Some index \<Rightarrow>
             let candidate = self\<lparr>al_nodes := (al_nodes self)[index := replacement]\<rparr>
             in (case assembly_lock_validate E candidate of
                   Inl e \<Rightarrow> (Inl e, self)
                 | Inr _ \<Rightarrow> (Inr (), candidate))))"

section \<open>\<open>impl ArtifactModel for AssemblyLock\<close>\<close>

definition lock_referenced_artifacts :: "assembly_lock \<Rightarrow> artifact_descriptor list" where
  "lock_referenced_artifacts l =
     al_assembly l # map nl_artifact (al_nodes l) @ map bl_provider_component (al_bindings l)
     @ al_content_roots l"

definition lock_artifact_from_model :: "ext \<Rightarrow> assembly_lock \<Rightarrow> canonical_artifact_object model_result" where
  "lock_artifact_from_model E = canonical_artifact_object_from_model E (assembly_lock_validate E)
     assembly_lock_value ASSEMBLY_LOCK_TYPE_URI lock_referenced_artifacts no_annotations"

section \<open>Lemmas\<close>

lemma validate_node_lock_no_panic [no_panic]: "validate_node_lock E n \<noteq> Inl Panic"
  by (simp add: validate_node_lock_def ok_or_def no_panic split: option.splits)

lemma validate_binding_lock_no_panic [no_panic]: "validate_binding_lock E b \<noteq> Inl Panic"
  by (simp add: validate_binding_lock_def validate_selected_transport_def no_panic)

lemma validate_node_lock_Inr:
  "validate_node_lock E n = Inr u \<longleftrightarrow>
     validate_artifact_descriptor E (nl_artifact n) = Inr ()
     \<and> (ad_artifact_type_uri (nl_artifact n) = COMPONENT_DESCRIPTOR_TYPE_URI
          \<and> (\<exists>b. nl_behavior_digest n = Some b \<and> validate_sha256 b) \<and> nl_trust_class n \<noteq> None
        \<or> ad_artifact_type_uri (nl_artifact n) = ASSEMBLY_LOCK_TYPE_URI
          \<and> nl_behavior_digest n = None \<and> nl_trust_class n = None)"
proof -
  have "COMPONENT_DESCRIPTOR_TYPE_URI \<noteq> ASSEMBLY_LOCK_TYPE_URI" by code_simp
  then show ?thesis by (auto simp: validate_node_lock_def res_simps)
qed

lemma nodes_by_id_get:
  assumes "nid \<in> set (map nl_node_id ns)"
  shows "\<exists>n\<in>set ns. bt_get (nodes_by_id ns) nid = Some n \<and> nl_node_id n = nid"
proof -
  let ?es = "map (\<lambda>n. (nl_node_id n, n)) ns"
  have "map_of (rev ?es) nid \<noteq> None" using assms by (auto simp: map_of_eq_None_iff image_iff)
  then obtain n where n: "map_of (rev ?es) nid = Some n" by auto
  then have "(nid, n) \<in> set (rev ?es)" by (rule map_of_SomeD)
  with n show ?thesis by (auto simp: nodes_by_id_def bt_get_of_list)
qed

lemma nodes_by_id_unique:
  "distinct (map nl_node_id ns) \<Longrightarrow> n \<in> set ns \<Longrightarrow> bt_get (nodes_by_id ns) (nl_node_id n) = Some n"
  using nodes_by_id_get [of "nl_node_id n" ns] by (auto simp: distinct_map dest: inj_onD)

text \<open>The index into \<open>nodes_by_id\<close> is guarded by the test on \<open>node_ids\<close>.\<close>

lemma check_lock_binding_no_panic [no_panic]: "check_lock_binding ns b \<noteq> Inl Panic"
  using nodes_by_id_get [of "ep_node_id (bl_provider b)" ns]
  by (auto simp: check_lock_binding_def Let_def and_then_Inl ensure_Inr)

lemma assembly_lock_validate_no_panic [no_panic]: "assembly_lock_validate E l \<noteq> Inl Panic"
  by (simp add: assembly_lock_validate_def validate_profile_pins_def no_panic)

lemma check_lock_binding_Inr:
  assumes "distinct (map nl_node_id ns)"
  shows "check_lock_binding ns b = Inr () \<longleftrightarrow>
    (\<exists>c\<in>set ns. nl_node_id c = ep_node_id (bl_consumer b))
    \<and> (\<exists>p\<in>set ns. nl_node_id p = ep_node_id (bl_provider b)
         \<and> (ad_artifact_type_uri (nl_artifact p) = COMPONENT_DESCRIPTOR_TYPE_URI
            \<longrightarrow> nl_artifact p = bl_provider_component b))"
proof -
  have "p \<in> set ns \<Longrightarrow> nl_node_id p = ep_node_id (bl_provider b)
      \<Longrightarrow> bt_get (nodes_by_id ns) (ep_node_id (bl_provider b)) = Some p" for p
    using nodes_by_id_unique [OF assms, of p] by simp
  then show ?thesis
    by (auto simp: check_lock_binding_def Let_def and_then_Inr ensure_Inr ok_or_Inr image_iff)
       (metis option.inject)+
qed

lemma assembly_lock_validate_Inr:
  assumes "assembly_lock_validate E l = Inr ()"
  shows "validate_descriptor_type E (al_assembly l) ASSEMBLY_REVISION_TYPE_URI = Inr ()"
    and "distinct (map nl_node_id (al_nodes l))"
    and "n \<in> set (al_nodes l) \<Longrightarrow> validate_node_lock E n = Inr ()"
    and "b \<in> set (al_bindings l) \<Longrightarrow>
      validate_binding_lock E b = Inr () \<and> check_lock_binding (al_nodes l) b = Inr ()"
    and "r \<in> set (al_content_roots l) \<Longrightarrow> validate_artifact_descriptor E r = Inr ()"
  using assms by (auto simp: assembly_lock_validate_def all_ok_Inr unique_loop_Inr)

lemma lock_referenced_valid:
  assumes "assembly_lock_validate E l = Inr ()" and "r \<in> set (lock_referenced_artifacts l)"
  shows "validate_artifact_descriptor E r = Inr ()"
  using assms(2) assembly_lock_validate_Inr [OF assms(1)]
  by (auto simp: lock_referenced_artifacts_def validate_node_lock_Inr validate_binding_lock_def
      all_ok_Inr validate_descriptor_type_Inr)

lemma lock_type_uri_present: "\<not> blank ASSEMBLY_LOCK_TYPE_URI"
  by code_simp

interpretation lock_artifacts: artifact_model E "assembly_lock_validate E" assembly_lock_value
    ASSEMBLY_LOCK_TYPE_URI lock_referenced_artifacts no_annotations
  for E
  by unfold_locales
     (auto simp: lock_type_uri_present no_annotations_def validate_portable_value_def each_def
        dest: lock_referenced_valid)

lemma lock_artifact_no_panic [no_panic]: "lock_artifact_from_model E l \<noteq> Inl Panic"
  unfolding lock_artifact_from_model_def
  by (rule lock_artifacts.from_model_no_panic) (rule assembly_lock_validate_no_panic)

lemma position_Some:
  "position P xs = Some i \<Longrightarrow> i < length xs \<and> P (xs ! i)"
  by (induction xs arbitrary: i) (auto split: if_splits)

lemma position_None: "position P xs = None \<longleftrightarrow> (\<forall>x\<in>set xs. \<not> P x)"
  by (induction xs) auto

lemma map_update_same: "i < length xs \<Longrightarrow> f (xs ! i) = f y \<Longrightarrow> map f (xs[i := y]) = map f xs"
  by (simp add: map_update list_update_same_conv)

lemma replace_node_Inr:
  assumes "replace_node E l nid r = (Inr u, l')"
  obtains i where "position (\<lambda>n. nl_node_id n = nid) (al_nodes l) = Some i"
    and "l' = l\<lparr>al_nodes := (al_nodes l)[i := r]\<rparr>" and "assembly_lock_validate E l' = Inr ()"
    and "nl_node_id r = nid"
  using assms by (auto simp: replace_node_def Let_def split: if_splits option.splits sum.splits)

lemma replaced_nodes:
  assumes "position (\<lambda>n. nl_node_id n = nid) ns = Some i" and "nl_node_id r = nid"
  shows "map nl_node_id (ns[i := r]) = map nl_node_id ns" and "r \<in> set (ns[i := r])"
    and "n \<in> set ns \<Longrightarrow> nl_node_id n \<noteq> nid \<Longrightarrow> n \<in> set (ns[i := r])"
proof -
  have i: "i < length ns" "nl_node_id (ns ! i) = nid" using position_Some [OF assms(1)] by auto
  show "map nl_node_id (ns[i := r]) = map nl_node_id ns" using i assms(2) by (intro map_update_same) auto
  show "r \<in> set (ns[i := r])" using i(1) by (rule set_update_memI)
  assume "n \<in> set ns" "nl_node_id n \<noteq> nid"
  then obtain j where "j < length ns" "ns ! j = n" "j \<noteq> i" using i by (metis in_set_conv_nth)
  then show "n \<in> set (ns[i := r])" by (metis in_set_conv_nth length_list_update nth_list_update_neq)
qed

section \<open>Properties\<close>

text \<open>C26: Replacing the lock of a node is atomic. When it fails, the lock is unchanged and the
  failure is an error value. When it succeeds, the lock is valid, only the node of that id is
  different, the node ids keep their order, and every binding the node provides directly is
  still pinned to the artifact the node now has: a component that provides a binding cannot be
  swapped under it.\<close>

theorem replace_node_atomic:
  "case replace_node E l nid r of
     (Inl e, l') \<Rightarrow> l' = l \<and> e \<noteq> Panic
   | (Inr _, l') \<Rightarrow>
       assembly_lock_validate E l' = Inr () \<and> l' = l\<lparr>al_nodes := al_nodes l'\<rparr>
       \<and> map nl_node_id (al_nodes l') = map nl_node_id (al_nodes l) \<and> r \<in> set (al_nodes l')
       \<and> (\<forall>n\<in>set (al_nodes l). nl_node_id n \<noteq> nid \<longrightarrow> n \<in> set (al_nodes l'))
       \<and> (\<forall>b\<in>set (al_bindings l). ep_node_id (bl_provider b) = nid
            \<and> ad_artifact_type_uri (nl_artifact r) = COMPONENT_DESCRIPTOR_TYPE_URI
            \<longrightarrow> bl_provider_component b = nl_artifact r)"
proof (cases "fst (replace_node E l nid r)")
  case (Inl e)
  then have "snd (replace_node E l nid r) = l \<and> e \<noteq> Panic"
    using assembly_lock_validate_no_panic
    by (auto simp: replace_node_def Let_def split: if_splits option.splits sum.splits)
  with Inl show ?thesis by (cases "replace_node E l nid r") auto
next
  case (Inr u)
  then obtain l' where run: "replace_node E l nid r = (Inr u, l')" by (metis prod.collapse)
  then obtain i where i: "position (\<lambda>n. nl_node_id n = nid) (al_nodes l) = Some i"
    and l': "l' = l\<lparr>al_nodes := (al_nodes l)[i := r]\<rparr>" and v: "assembly_lock_validate E l' = Inr ()"
    and r: "nl_node_id r = nid" by (rule replace_node_Inr)
  note nodes = replaced_nodes [OF i r]
  note dist = assembly_lock_validate_Inr(2) [OF v]
  have "bl_provider_component b = nl_artifact r"
    if b: "b \<in> set (al_bindings l)" "ep_node_id (bl_provider b) = nid"
      and uri: "ad_artifact_type_uri (nl_artifact r) = COMPONENT_DESCRIPTOR_TYPE_URI" for b
  proof -
    have "check_lock_binding (al_nodes l') b = Inr ()"
      using assembly_lock_validate_Inr(4) [OF v] b(1) by (simp add: l')
    then obtain p where "p \<in> set (al_nodes l')" "nl_node_id p = nid"
      "ad_artifact_type_uri (nl_artifact p) = COMPONENT_DESCRIPTOR_TYPE_URI \<longrightarrow> nl_artifact p = bl_provider_component b"
      using check_lock_binding_Inr [OF dist] b(2) by auto
    moreover from this have "p = r" using dist nodes(2) r by (auto simp: l' distinct_map dest: inj_onD)
    ultimately show ?thesis using uri by simp
  qed
  then show ?thesis using run v nodes by (simp add: l')
qed

definition sample_node_lock :: "char \<Rightarrow> node_lock" where
  "sample_node_lock c = \<lparr>nl_node_id = ''p'', nl_artifact = sample_ref COMPONENT_DESCRIPTOR_TYPE_URI c,
     nl_behavior_digest = Some (sample_digest CHR ''f''), nl_trust_class = Some IsolatedProcess\<rparr>"

definition sample_lock :: assembly_lock where
  "sample_lock = \<lparr>al_schema = ASSEMBLY_LOCK_SCHEMA, al_assembly = sample_ref ASSEMBLY_REVISION_TYPE_URI CHR ''a'',
     al_nodes = [sample_node_lock CHR ''b''], al_bindings = [], al_protocol_profiles = [], al_content_roots = []\<rparr>"

theorem replace_node_atomic_witness:
  "assembly_lock_validate sample_ext (snd (replace_node sample_ext sample_lock ''p'' (sample_node_lock CHR ''d''))) = Inr ()
   \<and> sample_node_lock CHR ''d'' \<in> set (al_nodes (snd (replace_node sample_ext sample_lock ''p'' (sample_node_lock CHR ''d''))))
   \<and> snd (replace_node sample_ext sample_lock ''q'' (sample_node_lock CHR ''d'')) = sample_lock"
proof -
  let ?good = "replace_node sample_ext sample_lock ''p'' (sample_node_lock CHR ''d'')"
  let ?bad = "replace_node sample_ext sample_lock ''q'' (sample_node_lock CHR ''d'')"
  have "is_ok (fst ?good)" "\<not> is_ok (fst ?bad)" by code_simp+
  then obtain l1 e l2 where good: "?good = (Inr (), l1)" and bad: "?bad = (Inl e, l2)"
    by (cases ?good; cases ?bad; cases "fst ?good"; cases "fst ?bad") auto
  show ?thesis
    using replace_node_atomic [where E = sample_ext and l = sample_lock and nid = "''p''" and r = "sample_node_lock CHR ''d''"]
      replace_node_atomic [where E = sample_ext and l = sample_lock and nid = "''q''" and r = "sample_node_lock CHR ''d''"]
    unfolding good bad by simp
qed

end
