(* ===== verification/Diagnostics.thy ===== *)
theory Diagnostics
  imports Ports
begin

text \<open>
  \<open>crates/plurora-work/src/diagnostic.rs\<close>: the diagnostics a resolution reports beside its
  result. The codes themselves are in \<open>Prelude\<close>, where the result type is.
\<close>

fun code_str :: "diagnostic_code \<Rightarrow> str" where
  "code_str WorkInvalid = ''work_invalid''"
| "code_str WorkTooComplex = ''work_too_complex''"
| "code_str ArtifactBudgetExceeded = ''artifact_budget_exceeded''"
| "code_str ArtifactMissing = ''artifact_missing''"
| "code_str ArtifactDigestMismatch = ''artifact_digest_mismatch''"
| "code_str InvalidId = ''invalid_id''"
| "code_str AssemblyCycle = ''assembly_cycle''"
| "code_str PortUnresolved = ''port_unresolved''"
| "code_str PortIncompatible = ''port_incompatible''"
| "code_str BindingAmbiguous = ''binding_ambiguous''"
| "code_str BindingUnavailable = ''binding_unavailable''"
| "code_str BindingExpired = ''binding_expired''"
| "code_str UnsupportedInteraction = ''unsupported_interaction''"
| "code_str StateMigrationRequired = ''state_migration_required''"
| "code_str StateResetRequired = ''state_reset_required''"
| "code_str RightsBlocked = ''rights_blocked''"
| "code_str EntitlementRequired = ''entitlement_required''"
| "code_str AuthorityDenied = ''authority_denied''"
| "code_str TargetUnsatisfied = ''target_unsatisfied''"
| "code_str PlanStale = ''plan_stale''"
| "code_str PlanDigestMismatch = ''plan_digest_mismatch''"
| "code_str ApprovalRequired = ''approval_required''"
| "code_str OutcomeUnknown = ''outcome_unknown''"
| "code_str RecoveryRequired = ''recovery_required''"
| "code_str UnsupportedBackend = ''unsupported_backend''"
| "code_str RawSecret = ''raw_secret''"
| "code_str RawPath = ''raw_path''"

datatype diagnostic_severity = Error | Warning | Info

text \<open>The derived \<open>Ord\<close>: the order of the variants.\<close>

fun severity_rank :: "diagnostic_severity \<Rightarrow> nat" where
  "severity_rank Error = 0"
| "severity_rank Warning = 1"
| "severity_rank Info = 2"

record work_diagnostic =
  wd_code :: diagnostic_code
  wd_severity :: diagnostic_severity
  wd_message :: str
  wd_field :: "str option"
  wd_phase :: "binding_phase option"
  wd_node_path :: "node_id list"
  wd_port_id :: "port_id option"
  wd_candidate_refs :: "artifact_descriptor list"

record diagnostic_report =
  dr_diagnostics :: "work_diagnostic list"
  dr_omitted_count :: nat

lemma code_str_inj: "code_str c = code_str d \<Longrightarrow> c = d"
  by (cases c; cases d) simp_all

end
