(* ===== verification/Resolver.thy ===== *)
theory Resolver
  imports Containment Locks Diagnostics
begin

text \<open>
  \<open>crates/plurora-work/src/resolver.rs\<close>: the resolution of an assembly into locks, flattened
  nodes and bindings. An \<open>occurrence\<close> is one place where an assembly is nested; its result is
  memoised by digest and re-based to the path of the next occurrence.

  \<open>&mut self\<close> of \<open>ResolveContext\<close> is the record \<open>resolve_context\<close>, threaded through;
  the input and the resolution phase are arguments. A failure abandons the context, as the
  caller returns it at once.
\<close>

section \<open>Data\<close>

definition MAX_PROVIDER_CANDIDATES :: nat where "MAX_PROVIDER_CANDIDATES = 256"

definition MAX_RESOLVER_DIAGNOSTICS :: nat where "MAX_RESOLVER_DIAGNOSTICS = 1000"

type_synonym node_path = "node_id list"

definition path_child :: "node_path \<Rightarrow> node_id \<Rightarrow> node_path" where
  "path_child path node_id = path @ [node_id]"

type_synonym node_evidence_key = "str \<times> node_id"

datatype component_claim_status = Declared | LegacyAdapted | ForeignCapsule_Claim

record component_boundary_claims =
  bc_process_failure_isolation :: bool
  bc_network_isolation :: bool
  bc_filesystem_isolation :: bool
  bc_resource_limits_enforced :: bool
  bc_remote_identity :: bool
  bc_tenancy_isolation :: bool
  bc_revocation_enforced :: bool
  bc_no_code_execution :: bool

record protocol_implementation_declaration =
  pi_protocol_id :: str
  pi_version :: str
  pi_profiles :: "str list"
  pi_conformance_vectors :: "str list"

record packaged_protocol_descriptor =
  pk_implementation :: protocol_implementation_declaration
  pk_artifact :: artifact_descriptor

record packaged_surface_descriptor =
  pf_surface_id :: str
  pf_version :: str
  pf_artifact :: artifact_descriptor

record component_descriptor =
  cd_component_id :: str
  cd_version :: str
  cd_artifact :: artifact_descriptor
  cd_behavior :: artifact_descriptor
  cd_entry_kind :: str
  cd_trust_class :: component_trust_class
  cd_claim_status :: component_claim_status
  cd_enforced_boundaries :: component_boundary_claims
  cd_capability_ids :: "str list"
  cd_protocol_implementations :: "packaged_protocol_descriptor list"
  cd_content_roots :: "artifact_descriptor list"
  cd_surfaces :: "packaged_surface_descriptor list"
  cd_annotations :: "(str, json) btree_map"

record node_evidence =
  ne_component :: component_descriptor
  ne_ports :: "port_descriptor list"
  ne_provenance_refs :: "artifact_descriptor list"
  ne_artifact_refs :: "artifact_descriptor list"

record resolver_input =
  ri_root_assembly :: artifact_descriptor
  ri_assemblies :: assembly_map
  ri_node_evidence :: "(node_evidence_key, node_evidence) btree_map"
  ri_content_roots :: "artifact_descriptor list"
  ri_protocol_profiles :: "protocol_profile_pin list"

record exposure_hop =
  eh_assembly_digest :: str
  eh_assembly_id :: assembly_id
  eh_exposed_port_id :: port_id
  eh_target :: port_endpoint

record flattened_node =
  fl_node_path :: node_path
  fl_origin_assembly_digest :: str
  fl_origin_assembly_id :: assembly_id
  fl_origin_lock :: artifact_descriptor
  fl_component :: artifact_descriptor
  fl_behavior :: artifact_descriptor
  fl_trust_class :: component_trust_class
  fl_ports :: "port_descriptor list"
  fl_exposure_chain :: "exposure_hop list"
  fl_provenance_refs :: "artifact_descriptor list"
  fl_artifact_refs :: "artifact_descriptor list"

record resolved_exposed_port =
  rx_port_id :: port_id
  rx_direction :: port_direction
  rx_leaf_node_path :: node_path
  rx_leaf_port_id :: port_id
  rx_descriptor :: port_descriptor
  rx_exposure_chain :: "exposure_hop list"

record resolved_binding =
  rb_origin_assembly_digest :: str
  rb_origin_assembly_id :: assembly_id
  rb_binding_id :: str
  rb_provider_node_path :: node_path
  rb_provider_port_id :: port_id
  rb_consumer_node_path :: node_path
  rb_consumer_port_id :: port_id
  rb_provider_component :: artifact_descriptor
  rb_transport :: selected_transport
  rb_phase :: binding_phase

record resolved_state_slot =
  rs_origin_assembly_digest :: str
  rs_origin_assembly_id :: assembly_id
  rs_state_slot_id :: state_slot_id
  rs_owner_node_path :: node_path
  rs_migration_node_path :: "node_path option"
  rs_migration_port_id :: "port_id option"
  rs_descriptor :: state_slot_descriptor

record resolver_output =
  ro_root_lock :: assembly_lock
  ro_root_lock_artifact :: canonical_artifact_object
  ro_lock_artifacts :: "canonical_artifact_object list"
  ro_flattened_nodes :: "flattened_node list"
  ro_exposed_ports :: "resolved_exposed_port list"
  ro_bindings :: "resolved_binding list"
  ro_state_slots :: "resolved_state_slot list"
  ro_diagnostics :: diagnostic_report
  ro_complete :: bool
  ro_portable :: bool

record resolved_port_ref =
  rp_leaf_node_path :: node_path
  rp_leaf_port_id :: port_id
  rp_descriptor :: port_descriptor
  rp_component :: artifact_descriptor
  rp_exposure_chain :: "exposure_hop list"

type_synonym resolved_port_key = "node_path \<times> port_id"

definition resolved_port_key :: "resolved_port_ref \<Rightarrow> resolved_port_key" where
  "resolved_port_key port = (rp_leaf_node_path port, rp_leaf_port_id port)"

type_synonym local_ports = "(port_endpoint, resolved_port_ref) btree_map"

record occurrence_result =
  oc_external_ports :: "(port_id, resolved_port_ref) btree_map"
  oc_external_directions :: "(port_id, port_direction) btree_map"
  oc_lock :: assembly_lock
  oc_lock_artifact :: canonical_artifact_object
  oc_lock_artifacts :: "canonical_artifact_object list"
  oc_flattened_nodes :: "flattened_node list"
  oc_bindings :: "resolved_binding list"
  oc_state_slots :: "resolved_state_slot list"

record binding_path =
  bp_provider :: resolved_port_ref
  bp_transport :: selected_transport

section \<open>The diagnostic collector\<close>

text \<open>\<open>omitted_count\<close> is a \<open>u64\<close> incremented once per diagnostic beyond the first thousand.\<close>

record diagnostic_collector =
  dc_diagnostics :: "work_diagnostic list"
  dc_omitted_count :: nat
  dc_complete :: bool
  dc_portable :: bool

definition default_collector :: diagnostic_collector where
  "default_collector = \<lparr>dc_diagnostics = [], dc_omitted_count = 0, dc_complete = True, dc_portable = True\<rparr>"

definition collector_push :: "work_diagnostic \<Rightarrow> diagnostic_collector \<Rightarrow> diagnostic_collector" where
  "collector_push d c =
     (if length (dc_diagnostics c) < MAX_RESOLVER_DIAGNOSTICS
      then c\<lparr>dc_diagnostics := dc_diagnostics c @ [d]\<rparr>
      else c\<lparr>dc_omitted_count := dc_omitted_count c + 1\<rparr>)"

definition sort_artifacts :: "artifact_descriptor list \<Rightarrow> artifact_descriptor list" where
  "sort_artifacts as = dedup_key ad_digest
     (sort_key (\<lambda>a. (ad_digest a, ad_artifact_type_uri a, ad_media_type a)) as)"

fun unresolved_severity :: "availability_policy \<Rightarrow> binding_phase \<Rightarrow> diagnostic_severity" where
  "unresolved_severity Required Authoring = Error"
| "unresolved_severity Required _ = Warning"
| "unresolved_severity DegradedWithout _ = Warning"
| "unresolved_severity Optional _ = Info"

definition unresolved_flags ::
    "availability_policy \<Rightarrow> binding_phase \<Rightarrow> diagnostic_collector \<Rightarrow> diagnostic_collector" where
  "unresolved_flags availability phase c =
     (if availability = Required \<and> phase = Authoring then c\<lparr>dc_complete := False, dc_portable := False\<rparr>
      else if availability = Required then c\<lparr>dc_complete := False\<rparr>
      else c)"

definition unresolved_message :: "diagnostic_code \<Rightarrow> str" where
  "unresolved_message code =
     (if code = BindingAmbiguous then ''import has more than one compatible provider path''
      else if code = PortIncompatible then ''declared binding has incompatible Port contracts''
      else ''import has no compatible provider path'')"

definition unresolved :: "diagnostic_code \<Rightarrow> resolved_port_ref \<Rightarrow> availability_policy \<Rightarrow> binding_phase
    \<Rightarrow> artifact_descriptor list \<Rightarrow> diagnostic_collector \<Rightarrow> diagnostic_collector" where
  "unresolved code port availability phase candidate_refs c = collector_push
     \<lparr>wd_code = code, wd_severity = unresolved_severity availability phase,
      wd_message = unresolved_message code, wd_field = Some ''assembly.import'', wd_phase = Some phase,
      wd_node_path = rp_leaf_node_path port, wd_port_id = Some (rp_leaf_port_id port),
      wd_candidate_refs = sort_artifacts candidate_refs\<rparr>
     (unresolved_flags availability phase c)"

definition diagnostic_sort_key where
  "diagnostic_sort_key d =
     (code_str (wd_code d), severity_rank (wd_severity d), wd_phase d, wd_node_path d, wd_port_id d,
      wd_field d, map ad_digest (wd_candidate_refs d), wd_message d)"

definition collector_finish :: "diagnostic_collector \<Rightarrow> diagnostic_report" where
  "collector_finish c = \<lparr>dr_diagnostics = sort_key diagnostic_sort_key (dc_diagnostics c),
     dr_omitted_count = dc_omitted_count c\<rparr>"

section \<open>Small helpers\<close>

definition candidate_artifacts :: "binding_path list \<Rightarrow> artifact_descriptor list" where
  "candidate_artifacts paths = sort_artifacts (map (\<lambda>p. rp_component (bp_provider p)) paths)"

definition component_protocol_profiles :: "component_descriptor \<Rightarrow> protocol_profile_pin list" where
  "component_protocol_profiles c = concat (map (\<lambda>protocol.
     map (\<lambda>profile. \<lparr>pp_protocol_id = pi_protocol_id (pk_implementation protocol),
                     pp_version = pi_version (pk_implementation protocol), pp_profile = profile\<rparr>)
       (pi_profiles (pk_implementation protocol))) (cd_protocol_implementations c))"

definition sort_profiles :: "protocol_profile_pin list \<Rightarrow> protocol_profile_pin list" where
  "sort_profiles ps = dedup_key id (sort_key (\<lambda>p. (pp_protocol_id p, pp_version p, pp_profile p)) ps)"

text \<open>\<open>automatic_binding_id\<close>: the first free id, a \<open>BTreeSet\<close> given by its elements. The suffix
  is a \<open>usize\<close> that stays below the size of the set plus three.\<close>

definition suffixed_id :: "str \<Rightarrow> nat \<Rightarrow> str" where
  "suffixed_id base n = base @ ''-'' @ decimal n"

lemma suffixed_id_inj: "suffixed_id base m = suffixed_id base n \<Longrightarrow> m = n"
  by (auto simp: suffixed_id_def intro: decimal_inj)

lemma finite_suffixes: "finite {m. n \<le> m \<and> suffixed_id base m \<in> set used}"
proof -
  have "inj (suffixed_id base)" by (rule injI) (rule suffixed_id_inj)
  then have "finite (suffixed_id base -` set used)" by (intro finite_vimageI) auto
  then show ?thesis by (rule rev_finite_subset) auto
qed

function first_free_suffix :: "str \<Rightarrow> str list \<Rightarrow> nat \<Rightarrow> str" where
  "first_free_suffix base used n =
     (if suffixed_id base n \<in> set used then first_free_suffix base used (n + 1)
      else suffixed_id base n)"
  by pat_completeness auto

termination
proof (relation "measure (\<lambda>(base, used, n). card {m. n \<le> m \<and> suffixed_id base m \<in> set used})")
  fix base :: str and used :: "str list" and n :: nat
  assume "suffixed_id base n \<in> set used"
  then have "n \<in> {m. n \<le> m \<and> suffixed_id base m \<in> set used}"
    and "n \<notin> {m. n + 1 \<le> m \<and> suffixed_id base m \<in> set used}" by simp_all
  then have "{m. n + 1 \<le> m \<and> suffixed_id base m \<in> set used} \<noteq> {m. n \<le> m \<and> suffixed_id base m \<in> set used}"
    by blast
  then have "{m. n + 1 \<le> m \<and> suffixed_id base m \<in> set used} \<subset> {m. n \<le> m \<and> suffixed_id base m \<in> set used}"
    by (intro psubsetI) (auto simp del: One_nat_def)
  then show "((base, used, n + 1), (base, used, n))
      \<in> measure (\<lambda>(base, used, n). card {m. n \<le> m \<and> suffixed_id base m \<in> set used})"
    by (simp add: psubset_card_mono finite_suffixes)
qed simp

declare first_free_suffix.simps [simp del]

definition automatic_binding_id :: "port_endpoint \<Rightarrow> str list \<Rightarrow> str" where
  "automatic_binding_id endpoint used =
     (let base = ''auto-'' @ ep_node_id endpoint @ ''-'' @ ep_port_id endpoint
      in if base \<notin> set used then base else first_free_suffix base used 2)"

section \<open>Re-basing a memoised occurrence\<close>

text \<open>\<open>rebase_node_path\<close>: \<open>strip_prefix(..).expect(..)\<close> panics when the path does not start
  with the cached prefix.\<close>

definition rebase_node_path :: "node_path \<Rightarrow> node_path \<Rightarrow> node_path \<Rightarrow> node_path model_result" where
  "rebase_node_path from to path =
     (if take (length from) path = from then Inr (to @ drop (length from) path) else Inl Panic)"

definition rebase_port :: "node_path \<Rightarrow> node_path \<Rightarrow> resolved_port_ref \<Rightarrow> resolved_port_ref model_result" where
  "rebase_port from to port =
     and_then (rebase_node_path from to (rp_leaf_node_path port)) (\<lambda>p. Inr (port\<lparr>rp_leaf_node_path := p\<rparr>))"

definition rebase_flattened :: "node_path \<Rightarrow> node_path \<Rightarrow> flattened_node \<Rightarrow> flattened_node model_result" where
  "rebase_flattened from to node =
     and_then (rebase_node_path from to (fl_node_path node)) (\<lambda>p. Inr (node\<lparr>fl_node_path := p\<rparr>))"

definition rebase_binding :: "node_path \<Rightarrow> node_path \<Rightarrow> resolved_binding \<Rightarrow> resolved_binding model_result" where
  "rebase_binding from to b =
     and_then (rebase_node_path from to (rb_provider_node_path b)) (\<lambda>p.
     and_then (rebase_node_path from to (rb_consumer_node_path b)) (\<lambda>c.
       Inr (b\<lparr>rb_provider_node_path := p, rb_consumer_node_path := c\<rparr>)))"

definition rebase_slot :: "node_path \<Rightarrow> node_path \<Rightarrow> resolved_state_slot \<Rightarrow> resolved_state_slot model_result" where
  "rebase_slot from to s =
     and_then (rebase_node_path from to (rs_owner_node_path s)) (\<lambda>owner.
     (case rs_migration_node_path s of
        None \<Rightarrow> Inr (s\<lparr>rs_owner_node_path := owner\<rparr>)
      | Some path \<Rightarrow> and_then (rebase_node_path from to path) (\<lambda>migration.
          Inr (s\<lparr>rs_owner_node_path := owner, rs_migration_node_path := Some migration\<rparr>))))"

definition rebase_occurrence ::
    "node_path \<Rightarrow> node_path \<Rightarrow> occurrence_result \<Rightarrow> occurrence_result model_result" where
  "rebase_occurrence from to oc =
     and_then (mapM (\<lambda>(pid, port). and_then (rebase_port from to port) (\<lambda>port'. Inr (pid, port')))
                 (oc_external_ports oc)) (\<lambda>ports.
     and_then (mapM (rebase_flattened from to) (oc_flattened_nodes oc)) (\<lambda>nodes.
     and_then (mapM (rebase_binding from to) (oc_bindings oc)) (\<lambda>bindings.
     and_then (mapM (rebase_slot from to) (oc_state_slots oc)) (\<lambda>slots.
       Inr (oc\<lparr>oc_external_ports := ports, oc_flattened_nodes := nodes, oc_bindings := bindings,
               oc_state_slots := slots\<rparr>)))))"

section \<open>Evidence\<close>

record resolve_context =
  rc_validated_evidence :: "node_evidence_key set"
  rc_memo :: "(str, node_path \<times> occurrence_result) btree_map"
  rc_diagnostics :: diagnostic_collector

definition validate_evidence :: "ext \<Rightarrow> node_evidence_key \<Rightarrow> node_evidence \<Rightarrow> artifact_descriptor
    \<Rightarrow> port_descriptor list \<Rightarrow> resolve_context \<Rightarrow> resolve_context model_result" where
  "validate_evidence E key evidence expected_component expected_ports ctx =
     (if key \<in> rc_validated_evidence ctx then Inr ctx
      else
        and_then (all_ok
          [validate_descriptor_type E expected_component COMPONENT_DESCRIPTOR_TYPE_URI,
           validate_descriptor_type E (cd_artifact (ne_component evidence)) COMPONENT_DESCRIPTOR_TYPE_URI,
           validate_artifact_descriptor E (cd_behavior (ne_component evidence)),
           ensure (cd_artifact (ne_component evidence) = expected_component) ArtifactDigestMismatch,
           ensure (ne_ports evidence = expected_ports) ArtifactDigestMismatch,
           unique_loop (validate_port_descriptor E) pd_port_id (Err WorkInvalid) no_check {} (ne_ports evidence),
           each (validate_artifact_descriptor E) (ne_provenance_refs evidence @ ne_artifact_refs evidence)])
        (\<lambda>_. Inr (ctx\<lparr>rc_validated_evidence := insert key (rc_validated_evidence ctx)\<rparr>)))"

section \<open>The nodes of an occurrence\<close>

text \<open>The local variables of \<open>resolve_occurrence\<close> that the loop over the nodes fills.\<close>

record node_state =
  ns_local_ports :: local_ports
  ns_node_locks :: "node_lock list"
  ns_child_results :: "occurrence_result list"
  ns_local_components :: "(node_id \<times> node_evidence) list"

definition empty_node_state :: node_state where
  "empty_node_state = \<lparr>ns_local_ports = [], ns_node_locks = [], ns_child_results = [], ns_local_components = []\<rparr>"

definition leaf_port_ref :: "node_path \<Rightarrow> node_evidence \<Rightarrow> port_descriptor \<Rightarrow> resolved_port_ref" where
  "leaf_port_ref node_path evidence port =
     \<lparr>rp_leaf_node_path = node_path, rp_leaf_port_id = pd_port_id port, rp_descriptor = port,
      rp_component = cd_artifact (ne_component evidence), rp_exposure_chain = []\<rparr>"

definition add_component_node :: "ext \<Rightarrow> resolver_input \<Rightarrow> str \<Rightarrow> node_path \<Rightarrow> assembly_node
    \<Rightarrow> artifact_descriptor \<Rightarrow> resolve_context \<times> node_state \<Rightarrow> (resolve_context \<times> node_state) model_result" where
  "add_component_node E input assembly_digest pre node component st =
     (let key = (assembly_digest, an_node_id node); node_path = path_child pre (an_node_id node) in
      and_then (ok_or (bt_get (ri_node_evidence input) key) (Err ArtifactMissing)) (\<lambda>evidence.
      and_then (validate_evidence E key evidence component (an_ports node) (fst st)) (\<lambda>ctx.
      and_then (ensure (\<not> MAX_PORTS_PER_NODE < length (ne_ports evidence)) WorkTooComplex) (\<lambda>_.
      Inr (ctx, (snd st)\<lparr>
        ns_local_ports := fold (\<lambda>port. bt_insert (PortEndpoint (an_node_id node) (pd_port_id port))
            (leaf_port_ref node_path evidence port)) (ne_ports evidence) (ns_local_ports (snd st)),
        ns_node_locks := ns_node_locks (snd st) @
          [\<lparr>nl_node_id = an_node_id node, nl_artifact = cd_artifact (ne_component evidence),
            nl_behavior_digest = Some (ad_digest (cd_behavior (ne_component evidence))),
            nl_trust_class = Some (cd_trust_class (ne_component evidence))\<rparr>],
        ns_local_components := ns_local_components (snd st) @ [(an_node_id node, evidence)]\<rparr>)))))"

definition add_assembly_node :: "assembly_node \<Rightarrow> occurrence_result \<Rightarrow> node_state \<Rightarrow> node_state" where
  "add_assembly_node node child st = st\<lparr>
     ns_local_ports := fold (\<lambda>(port_id, port). bt_insert (PortEndpoint (an_node_id node) port_id) port)
       (oc_external_ports child) (ns_local_ports st),
     ns_node_locks := ns_node_locks st @
       [\<lparr>nl_node_id = an_node_id node, nl_artifact = cao_descriptor (oc_lock_artifact child),
         nl_behavior_digest = None, nl_trust_class = None\<rparr>],
     ns_child_results := ns_child_results st @ [child]\<rparr>"

section \<open>The bindings of an occurrence\<close>

type_synonym port_counts = "(resolved_port_key, nat) btree_map"

text \<open>The local variables that the two binding loops update, with the collector.\<close>

record binding_state =
  bs_diagnostics :: diagnostic_collector
  bs_binding_locks :: "binding_lock list"
  bs_resolved_bindings :: "resolved_binding list"
  bs_consumer_counts :: port_counts
  bs_provider_counts :: port_counts
  bs_used_binding_ids :: "str list"

definition provider_key :: "resolved_binding \<Rightarrow> resolved_port_key" where
  "provider_key b = (rb_provider_node_path b, rb_provider_port_id b)"

definition consumer_key :: "resolved_binding \<Rightarrow> resolved_port_key" where
  "consumer_key b = (rb_consumer_node_path b, rb_consumer_port_id b)"

definition start_binding_state ::
    "assembly_revision \<Rightarrow> node_state \<Rightarrow> diagnostic_collector \<Rightarrow> binding_state" where
  "start_binding_state assembly st diagnostics =
     (let child_bindings = concat (map oc_bindings (ns_child_results st)) in
      \<lparr>bs_diagnostics = diagnostics, bs_binding_locks = [], bs_resolved_bindings = [],
       bs_consumer_counts = fold bt_bump (map consumer_key child_bindings) [],
       bs_provider_counts = fold bt_bump (map provider_key child_bindings) [],
       bs_used_binding_ids = map ab_binding_id (ar_bindings assembly)\<rparr>)"

definition binding_paths :: "ext \<Rightarrow> resolved_port_ref \<Rightarrow> resolved_port_ref \<Rightarrow> transport_policy
    \<Rightarrow> binding_path list model_result" where
  "binding_paths E provider consumer policy =
     (if is_ok (check_port_compatibility E (rp_descriptor provider) (rp_descriptor consumer))
      then and_then (select_transport E (pd_transport (rp_descriptor provider))
             (pd_transport (rp_descriptor consumer)) policy) (\<lambda>transport.
             Inr [\<lparr>bp_provider = provider, bp_transport = transport\<rparr>])
      else Inr [])"

definition record_binding :: "ext \<Rightarrow> str \<Rightarrow> assembly_revision \<Rightarrow> str \<Rightarrow> port_endpoint \<Rightarrow> port_endpoint
    \<Rightarrow> resolved_port_ref \<Rightarrow> binding_phase \<Rightarrow> binding_path \<Rightarrow> binding_state \<Rightarrow> binding_state model_result" where
  "record_binding E assembly_digest assembly binding_id provider_endpoint consumer_endpoint consumer phase
     candidate bs =
     (let lock = \<lparr>bl_binding_id = binding_id, bl_provider = provider_endpoint, bl_consumer = consumer_endpoint,
                  bl_provider_component = rp_component (bp_provider candidate),
                  bl_transport = bp_transport candidate, bl_phase = phase\<rparr> in
      and_then (validate_binding_lock E lock) (\<lambda>_. Inr (bs\<lparr>
        bs_binding_locks := bs_binding_locks bs @ [lock],
        bs_resolved_bindings := bs_resolved_bindings bs @
          [\<lparr>rb_origin_assembly_digest = assembly_digest, rb_origin_assembly_id = ar_assembly_id assembly,
            rb_binding_id = binding_id,
            rb_provider_node_path = rp_leaf_node_path (bp_provider candidate),
            rb_provider_port_id = rp_leaf_port_id (bp_provider candidate),
            rb_consumer_node_path = rp_leaf_node_path consumer,
            rb_consumer_port_id = rp_leaf_port_id consumer,
            rb_provider_component = rp_component (bp_provider candidate),
            rb_transport = bp_transport candidate, rb_phase = phase\<rparr>]\<rparr>)))"

text \<open>\<open>*consumer_counts.entry(..) += 1; *provider_counts.entry(..) += 1;\<close>\<close>

definition bump_counts ::
    "resolved_port_ref \<Rightarrow> resolved_port_ref \<Rightarrow> binding_state \<Rightarrow> binding_state" where
  "bump_counts provider consumer bs = bs\<lparr>
     bs_consumer_counts := bt_bump (resolved_port_key consumer) (bs_consumer_counts bs),
     bs_provider_counts := bt_bump (resolved_port_key provider) (bs_provider_counts bs)\<rparr>"

definition emit_binding_failure :: "diagnostic_code \<Rightarrow> resolved_port_ref \<Rightarrow> binding_phase
    \<Rightarrow> artifact_descriptor list \<Rightarrow> binding_state \<Rightarrow> binding_state" where
  "emit_binding_failure code consumer phase candidates bs =
     (case pd_role (rp_descriptor consumer) of
        Import _ _ availability _ \<Rightarrow>
          bs\<lparr>bs_diagnostics := unresolved code consumer availability phase candidates (bs_diagnostics bs)\<rparr>
      | Export _ _ \<Rightarrow> bs)"

definition resolve_declared_binding :: "ext \<Rightarrow> binding_phase \<Rightarrow> str \<Rightarrow> assembly_revision \<Rightarrow> local_ports
    \<Rightarrow> assembly_binding \<Rightarrow> binding_state \<Rightarrow> binding_state model_result" where
  "resolve_declared_binding E resolution_phase assembly_digest assembly ports b bs =
     (case bt_get ports (ab_consumer b) of
        None \<Rightarrow> Inl (Err PortUnresolved)
      | Some consumer \<Rightarrow>
         (case pd_role (rp_descriptor consumer) of
            Export _ _ \<Rightarrow> Inl (Err PortIncompatible)
          | Import _ latest_binding_phase _ _ \<Rightarrow>
             (case bt_get ports (ab_provider b) of
                None \<Rightarrow> Inr (emit_binding_failure BindingUnavailable consumer (ab_phase b) [] bs)
              | Some provider \<Rightarrow>
                 if latest_binding_phase < ab_phase b then
                   Inr (emit_binding_failure PortIncompatible consumer (ab_phase b) [rp_component provider] bs)
                 else if resolution_phase < ab_phase b then
                   Inr (emit_binding_failure BindingUnavailable consumer (ab_phase b) [rp_component provider] bs)
                 else
                   and_then (binding_paths E provider consumer (ab_transport_policy b)) (\<lambda>candidates.
                   (case candidates of
                      [candidate] \<Rightarrow>
                        and_then (record_binding E assembly_digest assembly (ab_binding_id b) (ab_provider b)
                          (ab_consumer b) consumer (ab_phase b) candidate bs)
                          (\<lambda>bs'. Inr (bump_counts (bp_provider candidate) consumer bs'))
                    | _ \<Rightarrow> Inr (emit_binding_failure
                        (if candidates = [] then PortIncompatible else BindingAmbiguous)
                        consumer (ab_phase b) (candidate_artifacts candidates) bs))))))"

definition outward_imports :: "assembly_revision \<Rightarrow> port_endpoint set" where
  "outward_imports assembly =
     set (map ax_target (filter (\<lambda>x. ax_direction x = Import_Direction) (ar_exposed_ports assembly)))"

definition declared_consumers :: "assembly_revision \<Rightarrow> port_endpoint set" where
  "declared_consumers assembly = set (map ab_consumer (ar_bindings assembly))"

fun is_import :: "port_role \<Rightarrow> bool" where
  "is_import (Import _ _ _ _) = True"
| "is_import (Export _ _) = False"

definition pending_imports ::
    "assembly_revision \<Rightarrow> local_ports \<Rightarrow> (port_endpoint \<times> resolved_port_ref) list" where
  "pending_imports assembly ports = sort_key fst
     (filter (\<lambda>(endpoint, port). is_import (pd_role (rp_descriptor port))
        \<and> endpoint \<notin> outward_imports assembly \<and> endpoint \<notin> declared_consumers assembly) ports)"

definition provider_candidates :: "ext \<Rightarrow> local_ports \<Rightarrow> resolved_port_ref
    \<Rightarrow> (port_endpoint \<times> binding_path) list model_result" where
  "provider_candidates E ports consumer =
     (let raw_providers = filter (\<lambda>(_, port). \<not> is_import (pd_role (rp_descriptor port))) ports in
      and_then (ensure (\<not> MAX_PROVIDER_CANDIDATES < length raw_providers) WorkTooComplex) (\<lambda>_.
      and_then (mapM (\<lambda>(endpoint, provider).
          and_then (binding_paths E provider consumer default_transport_policy) (\<lambda>paths.
            Inr (map (Pair endpoint) paths))) raw_providers) (\<lambda>paths.
        Inr (sort_key (\<lambda>(endpoint, path). (endpoint, ad_digest (rp_component (bp_provider path))))
               (concat paths)))))"

definition resolve_import :: "ext \<Rightarrow> binding_phase \<Rightarrow> str \<Rightarrow> assembly_revision \<Rightarrow> local_ports
    \<Rightarrow> port_endpoint \<times> resolved_port_ref \<Rightarrow> binding_state \<Rightarrow> binding_state model_result" where
  "resolve_import E resolution_phase assembly_digest assembly ports entry bs =
     (let consumer_endpoint = fst entry; consumer = snd entry in
      case pd_role (rp_descriptor consumer) of
        Export _ _ \<Rightarrow> Inl Panic
      | Import multiplicity latest_binding_phase availability _ \<Rightarrow>
         let current = bt_count (bs_consumer_counts bs) (resolved_port_key consumer);
             report = (\<lambda>code candidates bs. bs\<lparr>bs_diagnostics :=
               unresolved code consumer availability latest_binding_phase candidates (bs_diagnostics bs)\<rparr>) in
         if unat (pm_min multiplicity) \<le> current then Inr bs
         else if resolution_phase < latest_binding_phase then Inr (report BindingUnavailable [] bs)
         else
           and_then (provider_candidates E ports consumer) (\<lambda>paths.
           (case paths of
              [(provider_endpoint, candidate)] \<Rightarrow>
                let binding_id = automatic_binding_id consumer_endpoint (bs_used_binding_ids bs) in
                and_then (record_binding E assembly_digest assembly binding_id provider_endpoint
                    consumer_endpoint consumer latest_binding_phase candidate
                    (bs\<lparr>bs_used_binding_ids := binding_id # bs_used_binding_ids bs\<rparr>)) (\<lambda>bs'.
                  let bs'' = bump_counts (bp_provider candidate) consumer bs' in
                  Inr (if current + 1 < unat (pm_min multiplicity) then report BindingUnavailable [] bs''
                       else bs''))
            | _ \<Rightarrow> Inr (report (if paths = [] then BindingUnavailable else BindingAmbiguous)
                          (map (\<lambda>(_, path). rp_component (bp_provider path)) paths) bs))))"

definition check_resolved_cardinality :: "port_counts \<Rightarrow> port_counts \<Rightarrow> resolved_port_ref \<Rightarrow> unit model_result" where
  "check_resolved_cardinality consumers providers port =
     (let role = pd_role (rp_descriptor port); key = resolved_port_key port;
          count = (if is_import role then bt_count consumers key else bt_count providers key)
      in ensure (\<not> (case pm_max (role_multiplicity role) of None \<Rightarrow> False | Some mx \<Rightarrow> unat mx < count))
           PortIncompatible)"

definition resolve_bindings :: "ext \<Rightarrow> binding_phase \<Rightarrow> str \<Rightarrow> assembly_revision \<Rightarrow> node_state
    \<Rightarrow> diagnostic_collector \<Rightarrow> binding_state model_result" where
  "resolve_bindings E resolution_phase assembly_digest assembly st diagnostics =
     (let ports = ns_local_ports st in
      and_then (foldM (resolve_declared_binding E resolution_phase assembly_digest assembly ports)
        (sort_key ab_binding_id (ar_bindings assembly)) (start_binding_state assembly st diagnostics)) (\<lambda>bs.
      and_then (foldM (resolve_import E resolution_phase assembly_digest assembly ports)
        (pending_imports assembly ports) bs) (\<lambda>bs'.
      and_then (each (\<lambda>(_, port). check_resolved_cardinality (bs_consumer_counts bs') (bs_provider_counts bs') port)
        ports) (\<lambda>_.
      Inr bs'))))"

section \<open>The exposed ports of an occurrence\<close>

type_synonym external_state =
  "(port_id, resolved_port_ref) btree_map \<times> (port_id, port_direction) btree_map"

definition expose_port :: "str \<Rightarrow> assembly_revision \<Rightarrow> local_ports \<Rightarrow> assembly_port_exposure
    \<Rightarrow> external_state \<Rightarrow> external_state model_result" where
  "expose_port assembly_digest assembly ports x st =
     and_then (ok_or (bt_get ports (ax_target x)) (Err PortUnresolved)) (\<lambda>target.
     and_then (ensure (direction_matches (ax_direction x) (pd_role (rp_descriptor target))) PortIncompatible) (\<lambda>_.
     let hop = \<lparr>eh_assembly_digest = assembly_digest, eh_assembly_id = ar_assembly_id assembly,
                eh_exposed_port_id = ax_port_id x, eh_target = ax_target x\<rparr>;
         resolved = target\<lparr>rp_descriptor := (rp_descriptor target)\<lparr>pd_port_id := ax_port_id x\<rparr>,
                           rp_exposure_chain := hop # rp_exposure_chain target\<rparr>
     in Inr (bt_insert (ax_port_id x) resolved (fst st), bt_insert (ax_port_id x) (ax_direction x) (snd st))))"

definition expose_ports :: "str \<Rightarrow> assembly_revision \<Rightarrow> local_ports \<Rightarrow> external_state model_result" where
  "expose_ports assembly_digest assembly ports =
     foldM (expose_port assembly_digest assembly ports)
       (sort_key ax_port_id (ar_exposed_ports assembly)) ([], [])"

section \<open>The lock and the flattened view of an occurrence\<close>

definition occurrence_content_roots :: "resolver_input \<Rightarrow> bool \<Rightarrow> node_state \<Rightarrow> artifact_descriptor list" where
  "occurrence_content_roots input root st = sort_artifacts
     (concat (map (\<lambda>(_, evidence). cd_content_roots (ne_component evidence)) (ns_local_components st))
      @ concat (map (\<lambda>child. al_content_roots (oc_lock child)) (ns_child_results st))
      @ (if root then ri_content_roots input else []))"

definition occurrence_profiles :: "resolver_input \<Rightarrow> bool \<Rightarrow> node_state \<Rightarrow> protocol_profile_pin list" where
  "occurrence_profiles input root st = sort_profiles
     (concat (map (\<lambda>(_, evidence). component_protocol_profiles (ne_component evidence)) (ns_local_components st))
      @ concat (map (\<lambda>child. al_protocol_profiles (oc_lock child)) (ns_child_results st))
      @ (if root then ri_protocol_profiles input else []))"

definition occurrence_lock :: "ext \<Rightarrow> resolver_input \<Rightarrow> bool \<Rightarrow> assembly_revision \<Rightarrow> node_state
    \<Rightarrow> binding_lock list \<Rightarrow> assembly_lock model_result" where
  "occurrence_lock E input root assembly st binding_locks =
     and_then (assembly_descriptor E assembly) (\<lambda>descriptor.
     let lock = \<lparr>al_schema = ASSEMBLY_LOCK_SCHEMA, al_assembly = descriptor,
                 al_nodes = sort_key nl_node_id (ns_node_locks st),
                 al_bindings = sort_key bl_binding_id binding_locks,
                 al_protocol_profiles = occurrence_profiles input root st,
                 al_content_roots = occurrence_content_roots input root st\<rparr>
     in and_then (assembly_lock_validate E lock) (\<lambda>_. Inr lock))"

definition flatten_component :: "node_path \<Rightarrow> str \<Rightarrow> assembly_revision \<Rightarrow> artifact_descriptor
    \<Rightarrow> node_id \<times> node_evidence \<Rightarrow> flattened_node" where
  "flatten_component pre assembly_digest assembly origin_lock entry =
     (let evidence = snd entry; component = ne_component evidence in
      \<lparr>fl_node_path = path_child pre (fst entry), fl_origin_assembly_digest = assembly_digest,
       fl_origin_assembly_id = ar_assembly_id assembly, fl_origin_lock = origin_lock,
       fl_component = cd_artifact component, fl_behavior = cd_behavior component,
       fl_trust_class = cd_trust_class component, fl_ports = sort_key pd_port_id (ne_ports evidence),
       fl_exposure_chain = [], fl_provenance_refs = ne_provenance_refs evidence,
       fl_artifact_refs = ne_artifact_refs evidence\<rparr>)"

definition migration_target :: "local_ports \<Rightarrow> port_endpoint \<Rightarrow> (node_path \<times> port_id) model_result" where
  "migration_target ports endpoint =
     ok_or (case bt_get ports endpoint of
              None \<Rightarrow> None
            | Some port \<Rightarrow> if is_directly_supported (pd_interaction (rp_descriptor port))
                then Some (rp_leaf_node_path port, rp_leaf_port_id port) else None)
       (Err StateMigrationRequired)"

definition resolve_state_slot :: "node_path \<Rightarrow> str \<Rightarrow> assembly_revision \<Rightarrow> local_ports
    \<Rightarrow> state_slot_descriptor \<Rightarrow> resolved_state_slot model_result" where
  "resolve_state_slot pre assembly_digest assembly ports slot =
     (let base = \<lparr>rs_origin_assembly_digest = assembly_digest, rs_origin_assembly_id = ar_assembly_id assembly,
         rs_state_slot_id = ss_state_slot_id slot, rs_owner_node_path = path_child pre (ss_owner_node_id slot),
         rs_migration_node_path = None, rs_migration_port_id = None, rs_descriptor = slot\<rparr> in
      (case ss_migration_port slot of
         None \<Rightarrow> Inr base
       | Some endpoint \<Rightarrow> and_then (migration_target ports endpoint) (\<lambda>(path, port).
           Inr (base\<lparr>rs_migration_node_path := Some path, rs_migration_port_id := Some port\<rparr>))))"

text \<open>Everything after the loop over the nodes. \<open>prior\<close> is the collector at the start of the
  call: an occurrence that added no diagnostic is memoised.\<close>

definition finish_occurrence :: "ext \<Rightarrow> resolver_input \<Rightarrow> binding_phase \<Rightarrow> str \<Rightarrow> node_path \<Rightarrow> bool
    \<Rightarrow> assembly_revision \<Rightarrow> diagnostic_collector \<Rightarrow> resolve_context \<times> node_state
    \<Rightarrow> (occurrence_result \<times> resolve_context) model_result" where
  "finish_occurrence E input resolution_phase assembly_digest pre root assembly prior cst =
     (let ctx = fst cst; st = snd cst; ports = ns_local_ports st in
      and_then (resolve_bindings E resolution_phase assembly_digest assembly st (rc_diagnostics ctx)) (\<lambda>bs.
      and_then (expose_ports assembly_digest assembly ports) (\<lambda>(external_ports, external_directions).
      and_then (occurrence_lock E input root assembly st (bs_binding_locks bs)) (\<lambda>lock.
      and_then (lock_artifact_from_model E lock) (\<lambda>lock_artifact.
      and_then (mapM (resolve_state_slot pre assembly_digest assembly ports) (ar_state_slots assembly)) (\<lambda>slots.
      let children = ns_child_results st;
          result = \<lparr>oc_external_ports = external_ports, oc_external_directions = external_directions,
            oc_lock = lock, oc_lock_artifact = lock_artifact,
            oc_lock_artifacts = concat (map oc_lock_artifacts children) @ [lock_artifact],
            oc_flattened_nodes = concat (map oc_flattened_nodes children)
              @ map (flatten_component pre assembly_digest assembly (cao_descriptor lock_artifact))
                  (ns_local_components st),
            oc_bindings = concat (map oc_bindings children) @ bs_resolved_bindings bs,
            oc_state_slots = concat (map oc_state_slots children) @ slots\<rparr>;
          diagnostics = bs_diagnostics bs;
          quiet = (\<not> root \<and> length (dc_diagnostics diagnostics) = length (dc_diagnostics prior)
                   \<and> dc_omitted_count diagnostics = dc_omitted_count prior)
      in Inr (result, ctx\<lparr>rc_diagnostics := diagnostics,
           rc_memo := (if quiet then bt_insert assembly_digest (pre, result) (rc_memo ctx) else rc_memo ctx)\<rparr>)))))))"

section \<open>\<open>resolve_occurrence\<close>\<close>

function resolve_occurrence :: "ext \<Rightarrow> resolver_input \<Rightarrow> binding_phase \<Rightarrow> str \<Rightarrow> node_path \<Rightarrow> nat \<Rightarrow> bool
    \<Rightarrow> resolve_context \<Rightarrow> (occurrence_result \<times> resolve_context) model_result" where
  "resolve_occurrence E input resolution_phase assembly_digest pre depth root ctx =
     (if MAX_ASSEMBLY_DEPTH < depth then Inl (Err WorkTooComplex)
      else
        (case (if root then None else bt_get (rc_memo ctx) assembly_digest) of
           Some (cached_pre, cached) \<Rightarrow>
             and_then (rebase_occurrence cached_pre pre cached) (\<lambda>oc. Inr (oc, ctx))
         | None \<Rightarrow>
             and_then (ok_or (bt_get (ri_assemblies input) assembly_digest) (Err ArtifactMissing)) (\<lambda>assembly.
             and_then (foldM (\<lambda>node st.
                 (case an_source node of
                    Component component \<Rightarrow>
                      add_component_node E input assembly_digest pre node component st
                  | Assembly child \<Rightarrow>
                      and_then (resolve_occurrence E input resolution_phase (ad_digest child)
                          (path_child pre (an_node_id node)) (depth + 1) False (fst st))
                        (\<lambda>(child_result, ctx'). Inr (ctx', add_assembly_node node child_result (snd st)))))
               (sort_key an_node_id (ar_nodes assembly)) (ctx, empty_node_state)) (\<lambda>cst.
             finish_occurrence E input resolution_phase assembly_digest pre root assembly
               (rc_diagnostics ctx) cst))))"
  by pat_completeness auto

termination
  by (relation "measure (\<lambda>(E, input, phase, digest, pre, depth, rest). Suc MAX_ASSEMBLY_DEPTH - depth)") auto

declare resolve_occurrence.simps [simp del]

section \<open>\<open>resolve_assembly_at_phase\<close>\<close>

definition report_open_import :: "resolved_port_ref \<Rightarrow> diagnostic_collector \<Rightarrow> diagnostic_collector" where
  "report_open_import port c =
     (case pd_role (rp_descriptor port) of
        Import multiplicity latest_binding_phase availability _ \<Rightarrow>
          if 0 < pm_min multiplicity
          then unresolved BindingUnavailable port availability latest_binding_phase [] c else c
      | Export _ _ \<Rightarrow> c)"

text \<open>\<open>root.external_directions[port_id]\<close> panics on a missing key.\<close>

definition exposed_port_entry :: "(port_id, port_direction) btree_map
    \<Rightarrow> port_id \<times> resolved_port_ref \<Rightarrow> resolved_exposed_port model_result" where
  "exposed_port_entry directions entry =
     and_then (ok_or (bt_get directions (fst entry)) Panic) (\<lambda>direction.
       Inr \<lparr>rx_port_id = fst entry, rx_direction = direction,
            rx_leaf_node_path = rp_leaf_node_path (snd entry), rx_leaf_port_id = rp_leaf_port_id (snd entry),
            rx_descriptor = rp_descriptor (snd entry), rx_exposure_chain = rp_exposure_chain (snd entry)\<rparr>)"

definition attach_exposure_chain :: "resolved_exposed_port list \<Rightarrow> flattened_node \<Rightarrow> flattened_node" where
  "attach_exposure_chain exposed node = node\<lparr>fl_exposure_chain := dedup_key id
     (sort_key (\<lambda>h. (eh_assembly_digest h, eh_exposed_port_id h, eh_target h))
       (concat (map rx_exposure_chain (filter (\<lambda>x. rx_leaf_node_path x = fl_node_path node) exposed))))\<rparr>"

definition check_export_minimum :: "(resolved_port_key, nat) btree_map \<Rightarrow> resolved_port_key set
    \<Rightarrow> flattened_node \<Rightarrow> port_descriptor \<Rightarrow> unit model_result" where
  "check_export_minimum counts deferred node port =
     (case pd_role port of
        Import _ _ _ _ \<Rightarrow> Inr ()
      | Export multiplicity _ \<Rightarrow>
          let key = (fl_node_path node, pd_port_id port) in
          ensure (\<not> (key \<notin> deferred \<and> bt_count counts key < unat (pm_min multiplicity))) PortIncompatible)"

definition validate_export_minimums :: "flattened_node list \<Rightarrow> resolved_binding list
    \<Rightarrow> resolved_exposed_port list \<Rightarrow> unit model_result" where
  "validate_export_minimums nodes bindings root_exposures =
     (let counts = fold bt_bump (map provider_key bindings) [];
          deferred = set (map (\<lambda>x. (rx_leaf_node_path x, rx_leaf_port_id x))
            (filter (\<lambda>x. rx_direction x = Export_Direction) root_exposures))
      in each (\<lambda>node. each (check_export_minimum counts deferred node) (fl_ports node)) nodes)"

definition sort_resolved_bindings :: "resolved_binding list \<Rightarrow> resolved_binding list" where
  "sort_resolved_bindings bs = sort_key (\<lambda>b. (rb_origin_assembly_digest b, rb_binding_id b,
     rb_consumer_node_path b, rb_consumer_port_id b)) bs"

definition sort_state_slots :: "resolved_state_slot list \<Rightarrow> resolved_state_slot list" where
  "sort_state_slots ss = sort_key (\<lambda>s. (rs_origin_assembly_digest s, rs_state_slot_id s,
     rs_owner_node_path s)) ss"

definition resolve_assembly_at_phase ::
    "ext \<Rightarrow> resolver_input \<Rightarrow> binding_phase \<Rightarrow> resolver_output model_result" where
  "resolve_assembly_at_phase E input resolution_phase =
     and_then (validate_resolver_containment E (ri_root_assembly input) (ri_assemblies input)) (\<lambda>_.
     and_then (each (validate_artifact_descriptor E) (ri_content_roots input)) (\<lambda>_.
     and_then (resolve_occurrence E input resolution_phase (ad_digest (ri_root_assembly input)) [] 1 True
        \<lparr>rc_validated_evidence = {}, rc_memo = [], rc_diagnostics = default_collector\<rparr>) (\<lambda>(root, ctx).
     let diagnostics = fold report_open_import (map snd (oc_external_ports root)) (rc_diagnostics ctx) in
     and_then (mapM (exposed_port_entry (oc_external_directions root)) (oc_external_ports root)) (\<lambda>exposed.
     let exposed_ports = sort_key rx_port_id exposed;
         flattened_nodes = sort_key fl_node_path (map (attach_exposure_chain exposed_ports) (oc_flattened_nodes root));
         bindings = sort_resolved_bindings (oc_bindings root) in
     and_then (validate_export_minimums flattened_nodes bindings exposed_ports) (\<lambda>_.
     Inr \<lparr>ro_root_lock = oc_lock root, ro_root_lock_artifact = oc_lock_artifact root,
          ro_lock_artifacts = dedup_key (ad_digest \<circ> cao_descriptor)
            (sort_key (ad_digest \<circ> cao_descriptor) (oc_lock_artifacts root)),
          ro_flattened_nodes = flattened_nodes, ro_exposed_ports = exposed_ports, ro_bindings = bindings,
          ro_state_slots = sort_state_slots (oc_state_slots root),
          ro_diagnostics = collector_finish diagnostics,
          ro_complete = dc_complete diagnostics, ro_portable = dc_portable diagnostics\<rparr>)))))"

definition resolve_assembly :: "ext \<Rightarrow> resolver_input \<Rightarrow> resolver_output model_result" where
  "resolve_assembly E input = resolve_assembly_at_phase E input Authoring"

end
