(* ===== verification/Resolver_Invariant.thy ===== *)
theory Resolver_Invariant
  imports Resolver
begin

text \<open>
  The invariant of a resolved occurrence: what its flattened nodes, external ports and bindings
  have to do with each other. It holds of every result of \<open>resolve_occurrence\<close>, memoised or
  not, and it is what the properties of the resolver rest on.
\<close>

section \<open>The invariant\<close>

text \<open>\<open>key\<close> names the port \<open>p\<close> of a flattened node whose component is \<open>c\<close>.\<close>

definition leaf_of :: "flattened_node list \<Rightarrow> resolved_port_key \<Rightarrow> port_descriptor
    \<Rightarrow> artifact_descriptor \<Rightarrow> bool" where
  "leaf_of nodes key p c =
     (\<exists>n\<in>set nodes. p \<in> set (fl_ports n) \<and> key = (fl_node_path n, pd_port_id p) \<and> fl_component n = c)"

text \<open>Equal up to the port id, which an exposure replaces.\<close>

definition same_port :: "port_descriptor \<Rightarrow> port_descriptor \<Rightarrow> bool" where
  "same_port d p = (\<exists>pid. d = p\<lparr>pd_port_id := pid\<rparr>)"

definition port_ref_ok :: "flattened_node list \<Rightarrow> resolved_port_ref \<Rightarrow> bool" where
  "port_ref_ok nodes port =
     (\<exists>p. leaf_of nodes (resolved_port_key port) p (rp_component port) \<and> same_port (rp_descriptor port) p)"

text \<open>A binding joins two compatible ports of flattened nodes, pins the provider's component,
  uses a transport negotiated for the pair, and is bound no later than allowed.\<close>

definition binding_ok :: "ext \<Rightarrow> binding_phase \<Rightarrow> flattened_node list \<Rightarrow> resolved_binding \<Rightarrow> bool" where
  "binding_ok E phase nodes b =
     (\<exists>p c component dp dc policy m latest availability effects.
        leaf_of nodes (provider_key b) p (rb_provider_component b) \<and> same_port dp p
        \<and> leaf_of nodes (consumer_key b) c component \<and> same_port dc c
        \<and> ports_compatible E dp dc
        \<and> select_transport E (pd_transport p) (pd_transport c) policy = Inr (rb_transport b)
        \<and> pd_role c = Import m latest availability effects \<and> rb_phase b \<le> latest \<and> rb_phase b \<le> phase)"

text \<open>How many of the bindings use the port \<open>p\<close> named \<open>key\<close> in its role.\<close>

definition port_use :: "resolved_binding list \<Rightarrow> resolved_port_key \<Rightarrow> port_descriptor \<Rightarrow> nat" where
  "port_use bs key p =
     length (filter (\<lambda>b. (if is_import (pd_role p) then consumer_key b else provider_key b) = key) bs)"

definition within_max :: "flattened_node list \<Rightarrow> resolved_binding list \<Rightarrow> bool" where
  "within_max nodes bs =
     (\<forall>key p c mx. leaf_of nodes key p c \<longrightarrow> pm_max (role_multiplicity (pd_role p)) = Some mx
        \<longrightarrow> port_use bs key p \<le> unat mx)"

lemma within_maxD:
  "within_max nodes bs \<Longrightarrow> leaf_of nodes key p c \<Longrightarrow> pm_max (role_multiplicity (pd_role p)) = Some mx
     \<Longrightarrow> port_use bs key p \<le> unat mx"
  unfolding within_max_def by blast

definition nodes_ok :: "node_path \<Rightarrow> flattened_node list \<Rightarrow> bool" where
  "nodes_ok pre nodes =
     (distinct (map fl_node_path nodes)
      \<and> (\<forall>n\<in>set nodes. prefix pre (fl_node_path n) \<and> distinct (map pd_port_id (fl_ports n))))"

definition slot_under :: "node_path \<Rightarrow> resolved_state_slot \<Rightarrow> bool" where
  "slot_under pre s =
     (prefix pre (rs_owner_node_path s)
      \<and> (\<forall>m. rs_migration_node_path s = Some m \<longrightarrow> prefix pre m))"

definition external_ok :: "flattened_node list \<Rightarrow> external_state \<Rightarrow> bool" where
  "external_ok nodes ext =
     (bt_wf (fst ext) \<and> (\<forall>pid port. bt_get (fst ext) pid = Some port \<longrightarrow> port_ref_ok nodes port)
      \<and> dom (bt_get (snd ext)) = dom (bt_get (fst ext)))"

text \<open>The lock artifacts of an occurrence: each holds the canonical bytes of a valid lock, the
  occurrence's own lock is among them, and the locks they pin for nested nodes are too.\<close>

definition lock_pinned_in :: "ext \<Rightarrow> artifact_descriptor set \<Rightarrow> canonical_artifact_object \<Rightarrow> bool" where
  "lock_pinned_in E known artifact =
     (\<exists>l. lock_artifact_from_model E l = Inr artifact
        \<and> (\<forall>n\<in>set (al_nodes l). ad_artifact_type_uri (nl_artifact n) = ASSEMBLY_LOCK_TYPE_URI
             \<longrightarrow> nl_artifact n \<in> known))"

definition locks_closed :: "ext \<Rightarrow> canonical_artifact_object list \<Rightarrow> bool" where
  "locks_closed E artifacts =
     (\<forall>artifact\<in>set artifacts. lock_pinned_in E (cao_descriptor ` set artifacts) artifact)"

lemma lock_pinned_mono: "lock_pinned_in E known artifact \<Longrightarrow> known \<subseteq> larger \<Longrightarrow> lock_pinned_in E larger artifact"
  unfolding lock_pinned_in_def by blast

definition locks_ok :: "ext \<Rightarrow> occurrence_result \<Rightarrow> bool" where
  "locks_ok E oc =
     (lock_artifact_from_model E (oc_lock oc) = Inr (oc_lock_artifact oc)
      \<and> oc_lock_artifact oc \<in> set (oc_lock_artifacts oc) \<and> locks_closed E (oc_lock_artifacts oc))"

definition occurrence_ok :: "ext \<Rightarrow> binding_phase \<Rightarrow> node_path \<Rightarrow> occurrence_result \<Rightarrow> bool" where
  "occurrence_ok E phase pre oc =
     (nodes_ok pre (oc_flattened_nodes oc)
      \<and> external_ok (oc_flattened_nodes oc) (oc_external_ports oc, oc_external_directions oc)
      \<and> (\<forall>b\<in>set (oc_bindings oc). binding_ok E phase (oc_flattened_nodes oc) b)
      \<and> within_max (oc_flattened_nodes oc) (oc_bindings oc)
      \<and> (\<forall>s\<in>set (oc_state_slots oc). slot_under pre s)
      \<and> locks_ok E oc)"

section \<open>Re-basing\<close>

definition moved :: "node_path \<Rightarrow> node_path \<Rightarrow> node_path \<Rightarrow> node_path" where
  "moved from to path = to @ drop (length from) path"

lemma rebase_node_path_prefix:
  "prefix from path \<Longrightarrow> rebase_node_path from to path = Inr (moved from to path)"
  by (auto simp: rebase_node_path_def moved_def prefix_def)

lemma moved_prefix [simp]: "prefix to (moved from to path)"
  by (simp add: moved_def)

lemma moved_inj:
  "prefix from p \<Longrightarrow> prefix from q \<Longrightarrow> moved from to p = moved from to q \<longleftrightarrow> p = q"
  by (auto simp: moved_def prefix_def)

text \<open>The whole occurrence with its paths moved.\<close>

definition move_port :: "node_path \<Rightarrow> node_path \<Rightarrow> resolved_port_ref \<Rightarrow> resolved_port_ref" where
  "move_port from to port = port\<lparr>rp_leaf_node_path := moved from to (rp_leaf_node_path port)\<rparr>"

definition move_node :: "node_path \<Rightarrow> node_path \<Rightarrow> flattened_node \<Rightarrow> flattened_node" where
  "move_node from to n = n\<lparr>fl_node_path := moved from to (fl_node_path n)\<rparr>"

definition move_binding :: "node_path \<Rightarrow> node_path \<Rightarrow> resolved_binding \<Rightarrow> resolved_binding" where
  "move_binding from to b = b\<lparr>rb_provider_node_path := moved from to (rb_provider_node_path b),
     rb_consumer_node_path := moved from to (rb_consumer_node_path b)\<rparr>"

definition move_slot :: "node_path \<Rightarrow> node_path \<Rightarrow> resolved_state_slot \<Rightarrow> resolved_state_slot" where
  "move_slot from to s = s\<lparr>rs_owner_node_path := moved from to (rs_owner_node_path s),
     rs_migration_node_path := map_option (moved from to) (rs_migration_node_path s)\<rparr>"

definition move_occurrence :: "node_path \<Rightarrow> node_path \<Rightarrow> occurrence_result \<Rightarrow> occurrence_result" where
  "move_occurrence from to oc = oc\<lparr>
     oc_external_ports := map (\<lambda>(pid, port). (pid, move_port from to port)) (oc_external_ports oc),
     oc_flattened_nodes := map (move_node from to) (oc_flattened_nodes oc),
     oc_bindings := map (move_binding from to) (oc_bindings oc),
     oc_state_slots := map (move_slot from to) (oc_state_slots oc)\<rparr>"

lemma leaf_of_prefix: "leaf_of nodes (path, pid) p c \<Longrightarrow> nodes_ok pre nodes \<Longrightarrow> prefix pre path"
  by (auto simp: leaf_of_def nodes_ok_def)

lemma binding_ok_prefix:
  "binding_ok E phase nodes b \<Longrightarrow> nodes_ok pre nodes
     \<Longrightarrow> prefix pre (rb_provider_node_path b) \<and> prefix pre (rb_consumer_node_path b)"
  by (auto simp: binding_ok_def provider_key_def consumer_key_def dest: leaf_of_prefix)

lemma port_ref_ok_prefix:
  "port_ref_ok nodes port \<Longrightarrow> nodes_ok pre nodes \<Longrightarrow> prefix pre (rp_leaf_node_path port)"
  by (auto simp: port_ref_ok_def resolved_port_key_def dest: leaf_of_prefix)

lemma mapM_total: "(\<And>x. x \<in> set xs \<Longrightarrow> f x = Inr (g x)) \<Longrightarrow> mapM f xs = Inr (map g xs)"
  by (induction xs) auto

lemma rebase_occurrence_moved:
  assumes "occurrence_ok E phase from oc"
  shows "rebase_occurrence from to oc = Inr (move_occurrence from to oc)"
proof -
  have nodes: "nodes_ok from (oc_flattened_nodes oc)" using assms by (simp add: occurrence_ok_def)
  have 1: "mapM (\<lambda>(pid, port). and_then (rebase_port from to port) (\<lambda>port'. Inr (pid, port'))) (oc_external_ports oc)
      = Inr (map (\<lambda>(pid, port). (pid, move_port from to port)) (oc_external_ports oc))"
    using assms port_ref_ok_prefix [OF _ nodes]
    by (intro mapM_total)
       (auto simp: occurrence_ok_def external_ok_def bt_get_mem rebase_port_def move_port_def rebase_node_path_prefix)
  have 2: "mapM (rebase_flattened from to) (oc_flattened_nodes oc) = Inr (map (move_node from to) (oc_flattened_nodes oc))"
    using nodes by (intro mapM_total)
      (auto simp: nodes_ok_def rebase_flattened_def move_node_def rebase_node_path_prefix)
  have 3: "mapM (rebase_binding from to) (oc_bindings oc) = Inr (map (move_binding from to) (oc_bindings oc))"
    using assms binding_ok_prefix [OF _ nodes]
    by (intro mapM_total)
       (auto simp: occurrence_ok_def rebase_binding_def move_binding_def rebase_node_path_prefix)
  have 4: "mapM (rebase_slot from to) (oc_state_slots oc) = Inr (map (move_slot from to) (oc_state_slots oc))"
    using assms
    by (intro mapM_total)
       (auto simp: occurrence_ok_def slot_under_def rebase_slot_def move_slot_def rebase_node_path_prefix
         split: option.splits)
  show ?thesis by (simp add: rebase_occurrence_def move_occurrence_def 1 2 3 4)
qed

lemma leaf_of_moved:
  assumes "nodes_ok from nodes"
  shows "leaf_of (map (move_node from to) nodes) key p c \<longleftrightarrow>
    (\<exists>path pid. key = (moved from to path, pid) \<and> leaf_of nodes (path, pid) p c)"
  by (auto simp: leaf_of_def move_node_def)

lemma key_moved:
  "provider_key (move_binding from to b) = (moved from to (rb_provider_node_path b), rb_provider_port_id b)"
  "consumer_key (move_binding from to b) = (moved from to (rb_consumer_node_path b), rb_consumer_port_id b)"
  by (simp_all add: provider_key_def consumer_key_def move_binding_def)

lemma binding_ok_moved:
  assumes "nodes_ok from nodes" and "binding_ok E phase nodes b"
  shows "binding_ok E phase (map (move_node from to) nodes) (move_binding from to b)"
proof -
  have "leaf_of nodes (provider_key b) p k \<Longrightarrow>
      leaf_of (map (move_node from to) nodes) (provider_key (move_binding from to b)) p k"
    and "leaf_of nodes (consumer_key b) p k \<Longrightarrow>
      leaf_of (map (move_node from to) nodes) (consumer_key (move_binding from to b)) p k" for p k
    by (auto simp: leaf_of_moved [OF assms(1)] move_binding_def provider_key_def consumer_key_def)
  moreover have "rb_provider_component (move_binding from to b) = rb_provider_component b"
    "rb_transport (move_binding from to b) = rb_transport b" "rb_phase (move_binding from to b) = rb_phase b"
    by (simp_all add: move_binding_def)
  ultimately show ?thesis using assms(2) unfolding binding_ok_def by (metis (no_types))
qed

lemma port_use_moved:
  assumes "\<forall>b\<in>set bs. prefix from (rb_provider_node_path b) \<and> prefix from (rb_consumer_node_path b)"
    and "prefix from path"
  shows "port_use (map (move_binding from to) bs) (moved from to path, pid) p = port_use bs (path, pid) p"
  using assms(1) moved_inj [OF _ assms(2), of _ to]
  by (induction bs) (auto simp: port_use_def key_moved, auto simp: provider_key_def consumer_key_def)

lemma nodes_ok_moved: "nodes_ok from nodes \<Longrightarrow> nodes_ok to (map (move_node from to) nodes)"
  by (auto simp: nodes_ok_def distinct_map move_node_def inj_on_def moved_inj)

lemma external_ok_moved:
  assumes nodes: "nodes_ok from nodes" and ext: "external_ok nodes (ports, dirs)"
  shows "external_ok (map (move_node from to) nodes) (map (\<lambda>(pid, port). (pid, move_port from to port)) ports, dirs)"
proof -
  have get: "bt_get (map (\<lambda>(pid, port). (pid, move_port from to port)) ports) pid
      = map_option (move_port from to) (bt_get ports pid)" for pid
    by (simp add: map_of_map)
  have "port_ref_ok nodes port \<Longrightarrow> port_ref_ok (map (move_node from to) nodes) (move_port from to port)" for port
    by (auto simp: port_ref_ok_def leaf_of_moved [OF nodes] resolved_port_key_def move_port_def)
  moreover have "map fst (map (\<lambda>(pid, port). (pid, move_port from to port)) ports) = map fst ports" by auto
  ultimately show ?thesis using ext
    by (auto simp: external_ok_def get dom_def bt_wf_def simp del: map_map)
qed

lemma occurrence_ok_moved:
  assumes "occurrence_ok E phase from oc"
  shows "occurrence_ok E phase to (move_occurrence from to oc)"
proof -
  let ?nodes = "oc_flattened_nodes oc"
  have nodes: "nodes_ok from ?nodes" and bindings: "\<forall>b\<in>set (oc_bindings oc). binding_ok E phase ?nodes b"
    using assms by (auto simp: occurrence_ok_def)
  then have under: "\<forall>b\<in>set (oc_bindings oc).
      prefix from (rb_provider_node_path b) \<and> prefix from (rb_consumer_node_path b)"
    using binding_ok_prefix by blast
  have "within_max (map (move_node from to) ?nodes) (map (move_binding from to) (oc_bindings oc))"
    unfolding within_max_def leaf_of_moved [OF nodes]
  proof (intro allI impI, elim exE conjE)
    fix key p c mx path pid
    assume "key = (moved from to path, pid)" and leaf: "leaf_of ?nodes (path, pid) p c"
      and "pm_max (role_multiplicity (pd_role p)) = Some mx"
    moreover have "port_use (oc_bindings oc) (path, pid) p \<le> unat mx"
      by (rule within_maxD) (use assms leaf calculation in \<open>auto simp: occurrence_ok_def\<close>)
    ultimately show "port_use (map (move_binding from to) (oc_bindings oc)) key p \<le> unat mx"
      by (simp add: port_use_moved [OF under leaf_of_prefix [OF leaf nodes]])
  qed
  moreover have "slot_under from s \<Longrightarrow> slot_under to (move_slot from to s)" for s
    by (auto simp: slot_under_def move_slot_def)
  moreover have "locks_ok E (move_occurrence from to oc)"
    using assms by (simp add: occurrence_ok_def locks_ok_def move_occurrence_def)
  ultimately show ?thesis
    using assms nodes_ok_moved [OF nodes] external_ok_moved [OF nodes] binding_ok_moved [OF nodes]
    by (auto simp: occurrence_ok_def move_occurrence_def)
qed

section \<open>The loop over the nodes\<close>

definition evidence_ok :: "node_evidence \<Rightarrow> bool" where
  "evidence_ok ev = distinct (map pd_port_id (ne_ports ev))"

definition context_ok :: "ext \<Rightarrow> binding_phase \<Rightarrow> resolver_input \<Rightarrow> resolve_context \<Rightarrow> bool" where
  "context_ok E phase input ctx =
     ((\<forall>d pre oc. bt_get (rc_memo ctx) d = Some (pre, oc) \<longrightarrow> occurrence_ok E phase pre oc)
      \<and> (\<forall>key\<in>rc_validated_evidence ctx. \<forall>ev. bt_get (ri_node_evidence input) key = Some ev \<longrightarrow> evidence_ok ev))"

definition component_ids :: "assembly_node list \<Rightarrow> node_id list" where
  "component_ids ys = map an_node_id (filter (\<lambda>n. is_component (an_source n)) ys)"

definition nested_ids :: "assembly_node list \<Rightarrow> node_id list" where
  "nested_ids ys = map an_node_id (filter (\<lambda>n. \<not> is_component (an_source n)) ys)"

text \<open>The local port \<open>port\<close> at \<open>ep\<close>: a port of a component node, or an external port of a nested
  occurrence.\<close>

definition local_entry :: "node_path \<Rightarrow> (node_id \<times> node_evidence) list \<Rightarrow> (node_id \<times> occurrence_result) list
    \<Rightarrow> port_endpoint \<Rightarrow> resolved_port_ref \<Rightarrow> bool" where
  "local_entry pre components children ep port =
     ((\<exists>ev p. (ep_node_id ep, ev) \<in> set components \<and> p \<in> set (ne_ports ev) \<and> ep_port_id ep = pd_port_id p
         \<and> port = leaf_port_ref (path_child pre (ep_node_id ep)) ev p)
      \<or> (\<exists>c. (ep_node_id ep, c) \<in> set children \<and> bt_get (oc_external_ports c) (ep_port_id ep) = Some port))"

definition node_inv :: "ext \<Rightarrow> binding_phase \<Rightarrow> resolver_input \<Rightarrow> node_path \<Rightarrow> assembly_node list
    \<Rightarrow> resolve_context \<times> node_state \<Rightarrow> bool" where
  "node_inv E phase input pre ys cst =
     (context_ok E phase input (fst cst)
      \<and> list_all2 (\<lambda>nid c. occurrence_ok E phase (path_child pre nid) c) (nested_ids ys) (ns_child_results (snd cst))
      \<and> map fst (ns_local_components (snd cst)) = component_ids ys
      \<and> (\<forall>entry\<in>set (ns_local_components (snd cst)). evidence_ok (snd entry))
      \<and> (\<forall>l\<in>set (ns_node_locks (snd cst)). nl_behavior_digest l \<noteq> None
           \<or> nl_artifact l \<in> cao_descriptor ` oc_lock_artifact ` set (ns_child_results (snd cst)))
      \<and> bt_wf (ns_local_ports (snd cst))
      \<and> (\<forall>ep port. bt_get (ns_local_ports (snd cst)) ep = Some port \<longleftrightarrow>
           local_entry pre (ns_local_components (snd cst)) (zip (nested_ids ys) (ns_child_results (snd cst))) ep port))"

lemma bt_wf_fold_insert: "bt_wf m \<Longrightarrow> bt_wf (fold (\<lambda>x. bt_insert (k x) (v x)) xs m)"
  by (induction xs arbitrary: m) (simp_all add: bt_wf_insert)

lemma bt_get_fold_insert:
  assumes "distinct (map k xs)"
  shows "bt_get (fold (\<lambda>x. bt_insert (k x) (v x)) xs m) y = Some z \<longleftrightarrow>
    (\<exists>x\<in>set xs. k x = y \<and> v x = z) \<or> (y \<notin> k ` set xs \<and> bt_get m y = Some z)"
  using assms by (induction xs arbitrary: m) (auto simp: bt_get_insert)

lemma node_inv_start: "context_ok E phase input ctx \<Longrightarrow> node_inv E phase input pre [] (ctx, empty_node_state)"
  by (simp add: node_inv_def empty_node_state_def nested_ids_def component_ids_def local_entry_def)

lemma local_entry_ids:
  assumes "node_inv E phase input pre ys cst" and "bt_get (ns_local_ports (snd cst)) ep = Some port"
  shows "ep_node_id ep \<in> an_node_id ` set ys"
proof -
  have "local_entry pre (ns_local_components (snd cst)) (zip (nested_ids ys) (ns_child_results (snd cst))) ep port"
    using assms by (simp add: node_inv_def)
  moreover have "fst ` set (ns_local_components (snd cst)) = set (component_ids ys)"
    using assms(1) by (metis (no_types) node_inv_def list.set_map)
  ultimately have "ep_node_id ep \<in> set (component_ids ys) \<union> set (nested_ids ys)"
    unfolding local_entry_def by (force dest: set_zip_leftD)
  then show ?thesis by (auto simp: component_ids_def nested_ids_def)
qed

lemma node_inv_fresh:
  "node_inv E phase input pre ys cst \<Longrightarrow> nid \<notin> an_node_id ` set ys
     \<Longrightarrow> bt_get (ns_local_ports (snd cst)) (PortEndpoint nid pid) = None"
  using local_entry_ids [of E phase input pre ys cst "PortEndpoint nid pid"] by fastforce

lemma validate_evidence_ok:
  assumes "context_ok E phase input ctx" and "validate_evidence E key ev expected ports ctx = Inr ctx'"
    and "bt_get (ri_node_evidence input) key = Some ev"
  shows "context_ok E phase input ctx' \<and> evidence_ok ev"
  using assms
  by (auto simp: validate_evidence_def context_ok_def evidence_ok_def and_then_Inr all_ok_Inr unique_loop_Inr
      split: if_splits)

lemma node_inv_component:
  assumes inv: "node_inv E phase input pre ys cst" and new: "an_node_id node \<notin> an_node_id ` set ys"
    and src: "an_source node = Component component"
    and step: "add_component_node E input digest pre node component cst = Inr cst'"
  shows "node_inv E phase input pre (ys @ [node]) cst'"
proof -
  let ?nid = "an_node_id node" and ?st = "snd cst"
  obtain ev ctx where ev: "bt_get (ri_node_evidence input) (digest, ?nid) = Some ev"
    and ctx: "validate_evidence E (digest, ?nid) ev component (an_ports node) (fst cst) = Inr ctx"
    and cst': "fst cst' = ctx" "ns_child_results (snd cst') = ns_child_results ?st"
      "ns_local_components (snd cst') = ns_local_components ?st @ [(?nid, ev)]"
      "\<exists>l. ns_node_locks (snd cst') = ns_node_locks ?st @ [l] \<and> nl_behavior_digest l \<noteq> None"
      "ns_local_ports (snd cst') = fold (\<lambda>port. bt_insert (PortEndpoint ?nid (pd_port_id port))
         (leaf_port_ref (path_child pre ?nid) ev port)) (ne_ports ev) (ns_local_ports ?st)"
    using step by (auto simp: add_component_node_def Let_def and_then_Inr ok_or_Inr)
  have ok: "context_ok E phase input ctx" "evidence_ok ev"
    using validate_evidence_ok [OF _ ctx ev] inv by (auto simp: node_inv_def)
  have ids: "nested_ids (ys @ [node]) = nested_ids ys" "component_ids (ys @ [node]) = component_ids ys @ [?nid]"
    by (simp_all add: nested_ids_def component_ids_def src)
  have keys: "distinct (map (\<lambda>port. PortEndpoint ?nid (pd_port_id port)) (ne_ports ev))"
    using ok(2) by (auto simp: evidence_ok_def distinct_map inj_on_def)
  have get: "bt_get (ns_local_ports (snd cst')) ep = Some port \<longleftrightarrow>
      local_entry pre (ns_local_components (snd cst')) (zip (nested_ids ys) (ns_child_results ?st)) ep port" for ep port
  proof -
    have old: "bt_get (ns_local_ports ?st) ep = Some port \<longleftrightarrow>
        local_entry pre (ns_local_components ?st) (zip (nested_ids ys) (ns_child_results ?st)) ep port"
      using inv by (simp add: node_inv_def)
    have "bt_get (ns_local_ports ?st) ep = None" if "ep_node_id ep = ?nid"
      using node_inv_fresh [OF inv new, of "ep_port_id ep"] that by (metis port_endpoint.collapse)
    then show ?thesis
      unfolding cst'(3,5) bt_get_fold_insert [OF keys]
      using old by (cases ep) (auto simp: local_entry_def)
  qed
  show ?thesis using inv ok get cst'(4) unfolding node_inv_def ids cst'(1,2,3)
    by (auto simp: cst'(5) bt_wf_fold_insert)
qed

lemma node_inv_assembly:
  assumes inv: "node_inv E phase input pre ys cst" and new: "an_node_id node \<notin> an_node_id ` set ys"
    and src: "an_source node = Assembly child"
    and ctx: "context_ok E phase input ctx" and oc: "occurrence_ok E phase (path_child pre (an_node_id node)) oc"
  shows "node_inv E phase input pre (ys @ [node]) (ctx, add_assembly_node node oc (snd cst))"
proof -
  let ?nid = "an_node_id node" and ?st = "snd cst" and ?st' = "add_assembly_node node oc (snd cst)"
  have st': "ns_child_results ?st' = ns_child_results ?st @ [oc]" "ns_local_components ?st' = ns_local_components ?st"
    "ns_local_ports ?st' = fold (\<lambda>e. bt_insert (PortEndpoint ?nid (fst e)) (snd e)) (oc_external_ports oc) (ns_local_ports ?st)"
    "\<exists>l. ns_node_locks ?st' = ns_node_locks ?st @ [l] \<and> nl_artifact l = cao_descriptor (oc_lock_artifact oc)"
    by (simp_all add: add_assembly_node_def case_prod_unfold)
  have ids: "nested_ids (ys @ [node]) = nested_ids ys @ [?nid]" "component_ids (ys @ [node]) = component_ids ys"
    by (simp_all add: nested_ids_def component_ids_def src)
  have len: "length (nested_ids ys) = length (ns_child_results ?st)"
    using inv by (auto simp: node_inv_def dest: list_all2_lengthD)
  have wf: "bt_wf (oc_external_ports oc)" using oc by (simp add: occurrence_ok_def external_ok_def)
  have keys: "distinct (map (\<lambda>e. PortEndpoint ?nid (fst e)) (oc_external_ports oc))"
    using bt_wf_distinct [OF wf] by (auto simp: distinct_map inj_on_def)
  have get: "bt_get (ns_local_ports ?st') ep = Some port \<longleftrightarrow>
      local_entry pre (ns_local_components ?st) (zip (nested_ids ys) (ns_child_results ?st) @ [(?nid, oc)]) ep port" for ep port
  proof -
    have old: "bt_get (ns_local_ports ?st) ep = Some port \<longleftrightarrow>
        local_entry pre (ns_local_components ?st) (zip (nested_ids ys) (ns_child_results ?st)) ep port"
      using inv by (simp add: node_inv_def)
    have "bt_get (ns_local_ports ?st) ep = None" if "ep_node_id ep = ?nid"
      using node_inv_fresh [OF inv new, of "ep_port_id ep"] that by (metis port_endpoint.collapse)
    moreover have "(\<exists>e\<in>set (oc_external_ports oc). PortEndpoint ?nid (fst e) = ep \<and> snd e = port) \<longleftrightarrow>
        ep_node_id ep = ?nid \<and> bt_get (oc_external_ports oc) (ep_port_id ep) = Some port"
      by (cases ep) (force simp: bt_get_mem [OF wf])
    ultimately show ?thesis
      unfolding st'(3) bt_get_fold_insert [OF keys]
      using old by (cases ep) (auto simp: local_entry_def)
  qed
  show ?thesis using inv ctx oc get len st'(4) unfolding node_inv_def ids st'(1,2) fst_conv snd_conv
    by (auto simp: st'(3) bt_wf_fold_insert list_all2_appendI)
qed

section \<open>The binding loops\<close>

text \<open>A binding of this occurrence: its two ends are local ports.\<close>

definition local_binding_ok :: "ext \<Rightarrow> binding_phase \<Rightarrow> local_ports \<Rightarrow> resolved_binding \<Rightarrow> bool" where
  "local_binding_ok E phase ports b =
     (\<exists>epp epc provider consumer policy m latest availability effects.
        bt_get ports epp = Some provider \<and> bt_get ports epc = Some consumer
        \<and> provider_key b = resolved_port_key provider \<and> consumer_key b = resolved_port_key consumer
        \<and> rb_provider_component b = rp_component provider
        \<and> ports_compatible E (rp_descriptor provider) (rp_descriptor consumer)
        \<and> select_transport E (pd_transport (rp_descriptor provider)) (pd_transport (rp_descriptor consumer)) policy
            = Inr (rb_transport b)
        \<and> pd_role (rp_descriptor consumer) = Import m latest availability effects
        \<and> rb_phase b \<le> latest \<and> rb_phase b \<le> phase)"

definition binding_inv :: "ext \<Rightarrow> binding_phase \<Rightarrow> local_ports \<Rightarrow> resolved_binding list \<Rightarrow> binding_state \<Rightarrow> bool" where
  "binding_inv E phase ports below bs =
     ((\<forall>key. bt_count (bs_consumer_counts bs) key
          = length (filter (\<lambda>b. consumer_key b = key) (below @ bs_resolved_bindings bs)))
      \<and> (\<forall>key. bt_count (bs_provider_counts bs) key
          = length (filter (\<lambda>b. provider_key b = key) (below @ bs_resolved_bindings bs)))
      \<and> (\<forall>b\<in>set (bs_resolved_bindings bs). local_binding_ok E phase ports b))"

lemma binding_inv_start:
  "binding_inv E phase ports (concat (map oc_bindings (ns_child_results st))) (start_binding_state a st c)"
  by (simp add: binding_inv_def start_binding_state_def Let_def bt_count_by)

lemma binding_inv_report:
  "binding_inv E phase ports below bs \<Longrightarrow> binding_inv E phase ports below (bs\<lparr>bs_diagnostics := d\<rparr>)"
  by (simp add: binding_inv_def)

lemma binding_inv_failure:
  "binding_inv E phase ports below bs \<Longrightarrow>
     binding_inv E phase ports below (emit_binding_failure code consumer ph candidates bs)"
  by (simp add: emit_binding_failure_def binding_inv_report split: port_role.split)

text \<open>\<open>record_binding\<close> followed by the two counters.\<close>

lemma binding_inv_record:
  assumes inv: "binding_inv E phase ports below bs"
    and rec: "record_binding E digest a bid epp epc consumer ph candidate bs' = Inr bs''"
    and same: "bs_resolved_bindings bs' = bs_resolved_bindings bs" "bs_consumer_counts bs' = bs_consumer_counts bs"
      "bs_provider_counts bs' = bs_provider_counts bs"
    and new: "\<And>b. provider_key b = resolved_port_key (bp_provider candidate) \<Longrightarrow>
      consumer_key b = resolved_port_key consumer \<Longrightarrow> rb_provider_component b = rp_component (bp_provider candidate) \<Longrightarrow>
      rb_transport b = bp_transport candidate \<Longrightarrow> rb_phase b = ph \<Longrightarrow> local_binding_ok E phase ports b"
  shows "binding_inv E phase ports below (bump_counts (bp_provider candidate) consumer bs'')"
proof -
  obtain b where b: "bs_resolved_bindings bs'' = bs_resolved_bindings bs @ [b]"
    "bs_consumer_counts bs'' = bs_consumer_counts bs" "bs_provider_counts bs'' = bs_provider_counts bs"
    and keys: "provider_key b = resolved_port_key (bp_provider candidate)" "consumer_key b = resolved_port_key consumer"
      "rb_provider_component b = rp_component (bp_provider candidate)" "rb_transport b = bp_transport candidate"
      "rb_phase b = ph"
    using rec same by (auto simp: record_binding_def Let_def and_then_Inr provider_key_def consumer_key_def
        resolved_port_key_def)
  from new [OF keys] inv show ?thesis
    by (auto simp: binding_inv_def bump_counts_def b keys btree_counts.count_bump)
qed

lemma binding_paths_single:
  assumes "binding_paths E provider consumer policy = Inr paths" and "path \<in> set paths"
  shows "bp_provider path = provider \<and> ports_compatible E (rp_descriptor provider) (rp_descriptor consumer)
    \<and> select_transport E (pd_transport (rp_descriptor provider)) (pd_transport (rp_descriptor consumer)) policy
        = Inr (bp_transport path)"
  using assms
  by (auto simp: binding_paths_def and_then_Inr is_ok_unit check_port_compatibility_iff split: if_splits)

lemma declared_binding_inv:
  assumes inv: "binding_inv E phase ports below bs"
    and step: "resolve_declared_binding E phase digest a ports b bs = Inr bs'"
  shows "binding_inv E phase ports below bs'"
proof -
  obtain consumer m latest av es where consumer: "bt_get ports (ab_consumer b) = Some consumer"
    and role: "pd_role (rp_descriptor consumer) = Import m latest av es"
    using step by (auto simp: resolve_declared_binding_def split: option.splits port_role.splits)
  show ?thesis
  proof (cases "\<exists>code candidates. bs' = emit_binding_failure code consumer (ab_phase b) candidates bs")
    case True
    then show ?thesis using binding_inv_failure [OF inv] by blast
  next
    case False
    then obtain provider candidate bs1 where provider: "bt_get ports (ab_provider b) = Some provider"
      and phases: "ab_phase b \<le> latest" "ab_phase b \<le> phase"
      and paths: "binding_paths E provider consumer (ab_transport_policy b) = Inr [candidate]"
      and rec: "record_binding E digest a (ab_binding_id b) (ab_provider b) (ab_consumer b) consumer (ab_phase b)
          candidate bs = Inr bs1"
      and bs': "bs' = bump_counts (bp_provider candidate) consumer bs1"
      using step consumer role
      by (auto simp: resolve_declared_binding_def and_then_Inr not_less split: option.splits if_splits list.splits)
    have path: "bp_provider candidate = provider"
      "ports_compatible E (rp_descriptor provider) (rp_descriptor consumer)"
      "select_transport E (pd_transport (rp_descriptor provider)) (pd_transport (rp_descriptor consumer))
        (ab_transport_policy b) = Inr (bp_transport candidate)"
      using binding_paths_single [OF paths, of candidate] by simp_all
    show ?thesis unfolding bs'
    proof (rule binding_inv_record [OF inv rec])
      fix rb assume "provider_key rb = resolved_port_key (bp_provider candidate)"
        "consumer_key rb = resolved_port_key consumer" "rb_provider_component rb = rp_component (bp_provider candidate)"
        "rb_transport rb = bp_transport candidate" "rb_phase rb = ab_phase b"
      then show "local_binding_ok E phase ports rb"
        unfolding local_binding_ok_def using provider consumer path role phases by (metis (no_types))
    qed simp_all
  qed
qed

lemma mapM_mem: "mapM f xs = Inr ys \<Longrightarrow> y \<in> set ys \<Longrightarrow> \<exists>x\<in>set xs. f x = Inr y"
  by (induction xs arbitrary: ys) (auto simp: and_then_Inr)

lemma provider_candidates_mem:
  assumes wf: "bt_wf ports" and run: "provider_candidates E ports consumer = Inr paths" and mem: "(ep, path) \<in> set paths"
  shows "bt_get ports ep = Some (bp_provider path)
    \<and> ports_compatible E (rp_descriptor (bp_provider path)) (rp_descriptor consumer)
    \<and> select_transport E (pd_transport (rp_descriptor (bp_provider path))) (pd_transport (rp_descriptor consumer))
        default_transport_policy = Inr (bp_transport path)"
proof -
  let ?f = "\<lambda>(endpoint, provider). and_then (binding_paths E provider consumer default_transport_policy)
      (\<lambda>paths. Inr (map (Pair endpoint) paths))"
  obtain pss where pss: "mapM ?f (filter (\<lambda>(_, port). \<not> is_import (pd_role (rp_descriptor port))) ports) = Inr pss"
    and "(ep, path) \<in> set (concat pss)"
    using run mem by (auto simp: provider_candidates_def Let_def and_then_Inr)
  then obtain ps where ps: "ps \<in> set pss" "(ep, path) \<in> set ps" by auto
  then obtain entry where entry: "entry \<in> set ports" "?f entry = Inr ps"
    using mapM_mem [OF pss] by (metis (no_types, lifting) filter_is_subset subsetD)
  then obtain provider paths' where "entry = (ep, provider)"
    and "binding_paths E provider consumer default_transport_policy = Inr paths'" "path \<in> set paths'"
    using ps(2) by (auto simp: and_then_Inr split: prod.splits)
  then show ?thesis using entry(1) binding_paths_single by (auto simp: bt_get_mem [OF wf])
qed

text \<open>A step over a pending import either only reports, or records one binding.\<close>

lemma same_diagnostics: "\<exists>d. bs = bs\<lparr>bs_diagnostics := d\<rparr>"
  by (intro exI [of _ "bs_diagnostics bs"]) simp

lemma resolve_import_cases:
  assumes step: "resolve_import E phase digest a ports (ep, consumer) bs = Inr bs'"
    and role: "pd_role (rp_descriptor consumer) = Import m latest av es"
  obtains (reported) d where "bs' = bs\<lparr>bs_diagnostics := d\<rparr>"
  | (recorded) epp candidate bs1 d where "latest \<le> phase"
      "provider_candidates E ports consumer = Inr [(epp, candidate)]"
      "record_binding E digest a (automatic_binding_id ep (bs_used_binding_ids bs)) epp ep consumer latest candidate
        (bs\<lparr>bs_used_binding_ids := automatic_binding_id ep (bs_used_binding_ids bs) # bs_used_binding_ids bs\<rparr>) = Inr bs1"
      "bs' = (bump_counts (bp_provider candidate) consumer bs1)\<lparr>bs_diagnostics := d\<rparr>"
proof -
  let ?current = "bt_count (bs_consumer_counts bs) (resolved_port_key consumer)"
  note run = step [unfolded resolve_import_def Let_def fst_conv snd_conv role port_role.case]
  show thesis
  proof (cases "unat (pm_min m) \<le> ?current \<or> phase < latest")
    case True
    then have "\<exists>d. bs' = bs\<lparr>bs_diagnostics := d\<rparr>" using run same_diagnostics by (auto split: if_splits)
    then show thesis using reported by blast
  next
    case False
    then obtain paths where paths: "provider_candidates E ports consumer = Inr paths"
      using run by (auto simp: and_then_Inr)
    show thesis
    proof (cases "\<exists>epp candidate. paths = [(epp, candidate)]")
      case True
      then obtain epp candidate where one: "paths = [(epp, candidate)]" by blast
      then obtain bs1 d where "record_binding E digest a (automatic_binding_id ep (bs_used_binding_ids bs)) epp ep
          consumer latest candidate
          (bs\<lparr>bs_used_binding_ids := automatic_binding_id ep (bs_used_binding_ids bs) # bs_used_binding_ids bs\<rparr>) = Inr bs1"
        and "bs' = (bump_counts (bp_provider candidate) consumer bs1)\<lparr>bs_diagnostics := d\<rparr>"
        using run False paths same_diagnostics by (auto simp: and_then_Inr split: if_splits)
      then show thesis using recorded False paths one by (auto simp: not_less)
    next
      case several: False
      then have "\<exists>d. bs' = bs\<lparr>bs_diagnostics := d\<rparr>"
        using run False paths by (cases paths rule: remdups_adj.cases) auto
      then show thesis using reported by blast
    qed
  qed
qed

lemma import_inv:
  assumes wf: "bt_wf ports" and inv: "binding_inv E phase ports below bs"
    and consumer: "bt_get ports ep = Some consumer"
    and step: "resolve_import E phase digest a ports (ep, consumer) bs = Inr bs'"
  shows "binding_inv E phase ports below bs'"
proof -
  obtain m latest av es where role: "pd_role (rp_descriptor consumer) = Import m latest av es"
    using step by (auto simp: resolve_import_def Let_def split: port_role.splits)
  from step role show ?thesis
  proof (cases rule: resolve_import_cases)
    case (reported d)
    then show ?thesis using binding_inv_report [OF inv] by blast
  next
    case (recorded epp candidate bs1 d)
    have path: "bt_get ports epp = Some (bp_provider candidate)"
      "ports_compatible E (rp_descriptor (bp_provider candidate)) (rp_descriptor consumer)"
      "select_transport E (pd_transport (rp_descriptor (bp_provider candidate))) (pd_transport (rp_descriptor consumer))
        default_transport_policy = Inr (bp_transport candidate)"
      using provider_candidates_mem [OF wf recorded(2)] by simp_all
    have "binding_inv E phase ports below (bump_counts (bp_provider candidate) consumer bs1)"
    proof (rule binding_inv_record [OF inv recorded(3)])
      fix rb assume "provider_key rb = resolved_port_key (bp_provider candidate)"
        "consumer_key rb = resolved_port_key consumer" "rb_provider_component rb = rp_component (bp_provider candidate)"
        "rb_transport rb = bp_transport candidate" "rb_phase rb = latest"
      then show "local_binding_ok E phase ports rb"
        unfolding local_binding_ok_def using consumer path role recorded(1) by (metis (no_types) order_refl)
    qed simp_all
    then show ?thesis using recorded(4) binding_inv_report by blast
  qed
qed

lemma resolve_bindings_ok:
  assumes wf: "bt_wf (ns_local_ports st)" and run: "resolve_bindings E phase digest a st diagnostics = Inr bs"
  shows "binding_inv E phase (ns_local_ports st) (concat (map oc_bindings (ns_child_results st))) bs"
    and "bt_get (ns_local_ports st) ep = Some port \<Longrightarrow>
      check_resolved_cardinality (bs_consumer_counts bs) (bs_provider_counts bs) port = Inr ()"
proof -
  let ?ports = "ns_local_ports st" and ?below = "concat (map oc_bindings (ns_child_results st))"
  obtain bs1 where declared: "foldM (resolve_declared_binding E phase digest a ?ports)
        (sort_key ab_binding_id (ar_bindings a)) (start_binding_state a st diagnostics) = Inr bs1"
    and pending: "foldM (resolve_import E phase digest a ?ports) (pending_imports a ?ports) bs1 = Inr bs"
    and check: "each (\<lambda>(_, port). check_resolved_cardinality (bs_consumer_counts bs) (bs_provider_counts bs) port) ?ports
        = Inr ()"
    using run by (auto simp: resolve_bindings_def Let_def and_then_Inr)
  have "binding_inv E phase ?ports ?below bs1"
    by (rule foldM_inv [where I = "binding_inv E phase ?ports ?below", OF declared binding_inv_start])
       (rule declared_binding_inv)
  then show "binding_inv E phase ?ports ?below bs"
  proof (rule foldM_inv [where I = "binding_inv E phase ?ports ?below", OF pending])
    fix entry st1 st2
    assume mem: "entry \<in> set (pending_imports a ?ports)" and inv: "binding_inv E phase ?ports ?below st1"
      and step: "resolve_import E phase digest a ?ports entry st1 = Inr st2"
    obtain ep1 consumer where entry: "entry = (ep1, consumer)" by fastforce
    have "bt_get ?ports ep1 = Some consumer"
      using mem by (auto simp: pending_imports_def bt_get_mem [OF wf] entry)
    then show "binding_inv E phase ?ports ?below st2"
      using import_inv [OF wf inv] step by (simp add: entry)
  qed
  show "bt_get ?ports ep = Some port \<Longrightarrow>
      check_resolved_cardinality (bs_consumer_counts bs) (bs_provider_counts bs) port = Inr ()"
    using check by (auto simp: each_Inr bt_get_mem [OF wf])
qed

section \<open>The flattened nodes of an occurrence\<close>

lemma leaf_of_append: "leaf_of (xs @ ys) key p c \<longleftrightarrow> leaf_of xs key p c \<or> leaf_of ys key p c"
  by (auto simp: leaf_of_def)

lemma leaf_of_concat: "leaf_of (concat xss) key p c \<longleftrightarrow> (\<exists>xs\<in>set xss. leaf_of xs key p c)"
  by (auto simp: leaf_of_def)

lemma leaf_of_unique:
  assumes "nodes_ok pre nodes" and "leaf_of nodes key p c" and "leaf_of nodes key q d"
  shows "p = q \<and> c = d"
proof -
  obtain n m where n: "n \<in> set nodes" "p \<in> set (fl_ports n)" "key = (fl_node_path n, pd_port_id p)" "fl_component n = c"
    and m: "m \<in> set nodes" "q \<in> set (fl_ports m)" "key = (fl_node_path m, pd_port_id q)" "fl_component m = d"
    using assms(2,3) by (auto simp: leaf_of_def)
  have "n = m" using assms(1) n(1,3) m(1,3) by (auto simp: nodes_ok_def distinct_map dest: inj_onD)
  moreover have "distinct (map pd_port_id (fl_ports n))" using assms(1) n(1) by (simp add: nodes_ok_def)
  ultimately show ?thesis using n m by (auto simp: distinct_map dest: inj_onD)
qed

lemma same_port_refl: "same_port p p"
  by (auto simp: same_port_def intro!: exI [of _ "pd_port_id p"])

lemma same_port_role: "same_port d p \<Longrightarrow> pd_role d = pd_role p \<and> pd_transport d = pd_transport p"
  by (auto simp: same_port_def)

lemma same_port_rename: "same_port d p \<Longrightarrow> same_port (d\<lparr>pd_port_id := pid\<rparr>) p"
  by (auto simp: same_port_def)

definition flat_nodes :: "node_path \<Rightarrow> str \<Rightarrow> assembly_revision \<Rightarrow> artifact_descriptor \<Rightarrow> node_state
    \<Rightarrow> flattened_node list" where
  "flat_nodes pre digest a lock_ref st =
     concat (map oc_flattened_nodes (ns_child_results st))
     @ map (flatten_component pre digest a lock_ref) (ns_local_components st)"

lemma prefix_child_inj:
  "prefix (path_child pre m) path \<Longrightarrow> prefix (path_child pre n) path \<Longrightarrow> m = n"
  by (auto simp: path_child_def prefix_def)

lemma child_nodes:
  assumes "list_all2 (\<lambda>nid c. occurrence_ok E phase (path_child pre nid) c) ids cs" and "distinct ids"
  shows "distinct (map fl_node_path (concat (map oc_flattened_nodes cs)))
    \<and> (\<forall>n\<in>set (concat (map oc_flattened_nodes cs)). \<exists>nid\<in>set ids. prefix (path_child pre nid) (fl_node_path n))"
  using assms
proof (induction rule: list_all2_induct)
  case (Cons nid ids c cs)
  then have "distinct (map fl_node_path (oc_flattened_nodes c))"
    and here: "\<forall>n\<in>set (oc_flattened_nodes c). prefix (path_child pre nid) (fl_node_path n)"
    by (auto simp: occurrence_ok_def nodes_ok_def)
  moreover have "fl_node_path n \<noteq> fl_node_path m"
    if "n \<in> set (oc_flattened_nodes c)" "m \<in> set (concat (map oc_flattened_nodes cs))" for n m
    using Cons that here prefix_child_inj [of pre nid] by (metis distinct.simps(2))
  ultimately show ?case using Cons by auto
qed simp

lemma path_child_prefix [simp]: "prefix pre (path_child pre nid)"
  by (simp add: path_child_def)

lemma flat_nodes_ok:
  assumes inv: "node_inv E phase input pre ys cst" and dist: "distinct (map an_node_id ys)"
  shows "nodes_ok pre (flat_nodes pre digest a lock_ref (snd cst))"
proof -
  let ?st = "snd cst"
  have children: "list_all2 (\<lambda>nid c. occurrence_ok E phase (path_child pre nid) c) (nested_ids ys) (ns_child_results ?st)"
    and comps: "map fst (ns_local_components ?st) = component_ids ys"
    and ev: "\<forall>entry\<in>set (ns_local_components ?st). evidence_ok (snd entry)"
    using inv by (auto simp: node_inv_def)
  have ids: "distinct (nested_ids ys)" "distinct (component_ids ys)"
    using dist by (simp_all add: nested_ids_def component_ids_def distinct_map_filter)
  have apart: "set (nested_ids ys) \<inter> set (component_ids ys) = {}"
    using dist by (auto simp: nested_ids_def component_ids_def distinct_map dest: inj_onD)
  note kids = child_nodes [OF children ids(1)]
  let ?local = "map (flatten_component pre digest a lock_ref) (ns_local_components ?st)"
  have local_paths: "map fl_node_path ?local = map (path_child pre) (component_ids ys)"
    by (simp add: flatten_component_def Let_def comps [symmetric])
  then have "distinct (map fl_node_path ?local)"
    using ids(2) by (simp add: distinct_map inj_on_def path_child_def)
  moreover have "fl_node_path n \<noteq> path_child pre m"
    if n: "n \<in> set (concat (map oc_flattened_nodes (ns_child_results ?st)))" and m: "m \<in> set (component_ids ys)" for n m
  proof
    assume eq: "fl_node_path n = path_child pre m"
    obtain nid where "nid \<in> set (nested_ids ys)" "prefix (path_child pre nid) (fl_node_path n)" using kids n by blast
    then have "m \<in> set (nested_ids ys)" using prefix_child_inj [of pre nid "path_child pre m" m] eq by simp
    then show False using apart m by blast
  qed
  then have "set (map fl_node_path (concat (map oc_flattened_nodes (ns_child_results ?st)))) \<inter> set (map fl_node_path ?local) = {}"
    unfolding local_paths by auto
  ultimately have "distinct (map fl_node_path (flat_nodes pre digest a lock_ref ?st))"
    using kids by (simp add: flat_nodes_def)
  moreover have "prefix pre (fl_node_path n) \<and> distinct (map pd_port_id (fl_ports n))"
    if "n \<in> set (flat_nodes pre digest a lock_ref ?st)" for n
  proof -
    from that consider (child) c where "c \<in> set (ns_child_results ?st)" "n \<in> set (oc_flattened_nodes c)"
      | (own) entry where "entry \<in> set (ns_local_components ?st)" "n = flatten_component pre digest a lock_ref entry"
      by (auto simp: flat_nodes_def)
    then show ?thesis
    proof cases
      case child
      then obtain nid where "occurrence_ok E phase (path_child pre nid) c"
        using children by (auto simp: list_all2_conv_all_nth in_set_conv_nth)
      with child show ?thesis
        by (auto simp: occurrence_ok_def nodes_ok_def intro: prefix_order.trans [OF path_child_prefix])
    next
      case own
      have "distinct (map pd_port_id (sort_key pd_port_id (ne_ports (snd entry))))"
        using ev own(1) by (simp add: evidence_ok_def distinct_map)
      then show ?thesis using own by (simp add: flatten_component_def Let_def)
    qed
  qed
  ultimately show ?thesis by (simp add: nodes_ok_def)
qed

end
