(* ===== verification/Resolver_Results.thy ===== *)
theory Resolver_Results
  imports Resolver_Invariant
begin

text \<open>
  Every result of \<open>resolve_occurrence\<close> satisfies the invariant of an occurrence, the
  \<open>expect\<close>s and indexings of the resolver never fail, and what follows for the output.
\<close>

section \<open>Local ports and the flattened nodes\<close>

text \<open>The situation after the loop over the nodes of an assembly.\<close>

definition nodes_done :: "ext \<Rightarrow> binding_phase \<Rightarrow> resolver_input \<Rightarrow> node_path \<Rightarrow> resolve_context \<times> node_state \<Rightarrow> bool" where
  "nodes_done E phase input pre cst =
     (\<exists>ys. node_inv E phase input pre ys cst \<and> distinct (map an_node_id ys))"

lemma nodes_done_wf: "nodes_done E phase input pre cst \<Longrightarrow> bt_wf (ns_local_ports (snd cst))"
  by (auto simp: nodes_done_def node_inv_def)

lemma nodes_done_nodes_ok: "nodes_done E phase input pre cst \<Longrightarrow> nodes_ok pre (flat_nodes pre digest a lock_ref (snd cst))"
  by (auto simp: nodes_done_def intro: flat_nodes_ok)

lemma nodes_done_child:
  assumes "nodes_done E phase input pre cst" and "c \<in> set (ns_child_results (snd cst))"
  shows "\<exists>nid. occurrence_ok E phase (path_child pre nid) c"
  using assms by (auto simp: nodes_done_def node_inv_def list_all2_conv_all_nth in_set_conv_nth)

lemma leaf_of_child:
  "c \<in> set (ns_child_results st) \<Longrightarrow> leaf_of (oc_flattened_nodes c) key p k
     \<Longrightarrow> leaf_of (flat_nodes pre digest a lock_ref st) key p k"
  by (auto simp: flat_nodes_def leaf_of_append leaf_of_concat)

lemma leaf_of_own:
  "(nid, ev) \<in> set (ns_local_components st) \<Longrightarrow> p \<in> set (ne_ports ev)
     \<Longrightarrow> leaf_of (flat_nodes pre digest a lock_ref st) (path_child pre nid, pd_port_id p) p (cd_artifact (ne_component ev))"
  by (force simp: flat_nodes_def leaf_of_append leaf_of_def flatten_component_def Let_def)

lemma local_port_ref_ok:
  assumes fin: "nodes_done E phase input pre cst" and port: "bt_get (ns_local_ports (snd cst)) ep = Some port"
  shows "port_ref_ok (flat_nodes pre digest a lock_ref (snd cst)) port"
proof -
  let ?st = "snd cst"
  obtain ys where inv: "node_inv E phase input pre ys cst" using fin by (auto simp: nodes_done_def)
  then have "local_entry pre (ns_local_components ?st) (zip (nested_ids ys) (ns_child_results ?st)) ep port"
    using port by (simp add: node_inv_def)
  then consider (own) ev p where "(ep_node_id ep, ev) \<in> set (ns_local_components ?st)" "p \<in> set (ne_ports ev)"
      "port = leaf_port_ref (path_child pre (ep_node_id ep)) ev p"
    | (child) c where "c \<in> set (ns_child_results ?st)" "bt_get (oc_external_ports c) (ep_port_id ep) = Some port"
    by (auto simp: local_entry_def dest: set_zip_rightD)
  then show ?thesis
  proof cases
    case own
    then show ?thesis unfolding port_ref_ok_def
      by (intro exI [of _ p]) (auto simp: leaf_port_ref_def resolved_port_key_def same_port_refl intro: leaf_of_own)
  next
    case child
    then have "port_ref_ok (oc_flattened_nodes c) port"
      using nodes_done_child [OF fin child(1)] by (auto simp: occurrence_ok_def external_ok_def)
    then show ?thesis using leaf_of_child [OF child(1)] unfolding port_ref_ok_def by blast
  qed
qed

lemma local_binding_global:
  assumes fin: "nodes_done E phase input pre cst" and b: "local_binding_ok E phase (ns_local_ports (snd cst)) b"
  shows "binding_ok E phase (flat_nodes pre digest a lock_ref (snd cst)) b"
proof -
  let ?nodes = "flat_nodes pre digest a lock_ref (snd cst)"
  obtain epp epc provider consumer policy m latest av es where
    provider: "bt_get (ns_local_ports (snd cst)) epp = Some provider" "provider_key b = resolved_port_key provider"
      "rb_provider_component b = rp_component provider"
    and consumer: "bt_get (ns_local_ports (snd cst)) epc = Some consumer" "consumer_key b = resolved_port_key consumer"
      "pd_role (rp_descriptor consumer) = Import m latest av es"
    and rest: "ports_compatible E (rp_descriptor provider) (rp_descriptor consumer)" "rb_phase b \<le> latest" "rb_phase b \<le> phase"
      "select_transport E (pd_transport (rp_descriptor provider)) (pd_transport (rp_descriptor consumer)) policy = Inr (rb_transport b)"
    using b by (auto simp: local_binding_ok_def)
  obtain p where p: "leaf_of ?nodes (provider_key b) p (rb_provider_component b)" "same_port (rp_descriptor provider) p"
    using local_port_ref_ok [OF fin provider(1), of digest a lock_ref] by (auto simp: port_ref_ok_def provider)
  obtain c where c: "leaf_of ?nodes (consumer_key b) c (rp_component consumer)" "same_port (rp_descriptor consumer) c"
    using local_port_ref_ok [OF fin consumer(1), of digest a lock_ref] by (auto simp: port_ref_ok_def consumer)
  show ?thesis
    unfolding binding_ok_def using p c rest consumer(3) same_port_role [OF p(2)] same_port_role [OF c(2)]
    by (metis (no_types))
qed

lemma child_binding_global:
  assumes "nodes_done E phase input pre cst" and c: "c \<in> set (ns_child_results (snd cst))" and "b \<in> set (oc_bindings c)"
  shows "binding_ok E phase (flat_nodes pre digest a lock_ref (snd cst)) b"
proof -
  have "binding_ok E phase (oc_flattened_nodes c) b"
    using nodes_done_child [OF assms(1) c] assms(3) by (auto simp: occurrence_ok_def)
  then show ?thesis unfolding binding_ok_def using leaf_of_child [OF c] by (metis (no_types))
qed

section \<open>Cardinality\<close>

lemma port_use_append: "port_use (xs @ ys) key p = port_use xs key p + port_use ys key p"
  by (simp add: port_use_def)

lemma port_use_none:
  "\<forall>b\<in>set bs. provider_key b \<noteq> key \<and> consumer_key b \<noteq> key \<Longrightarrow> port_use bs key p = 0"
  by (auto simp: port_use_def filter_empty_conv)

text \<open>The bindings below a nested node stay below it.\<close>

lemma child_keys:
  assumes "occurrence_ok E phase (path_child pre nid) c" and "b \<in> set (oc_bindings c)"
    and "provider_key b = (path, pid) \<or> consumer_key b = (path, pid)"
  shows "prefix (path_child pre nid) path"
  using assms binding_ok_prefix [of E phase "oc_flattened_nodes c" b "path_child pre nid"]
  by (auto simp: occurrence_ok_def provider_key_def consumer_key_def)

lemma children_within_max:
  assumes "list_all2 (\<lambda>nid c. occurrence_ok E phase (path_child pre nid) c) ids cs" and "distinct ids"
  shows "within_max (concat (map oc_flattened_nodes cs)) (concat (map oc_bindings cs))"
  using assms
proof (induction rule: list_all2_induct)
  case Nil
  show ?case by (simp add: within_max_def leaf_of_def)
next
  case (Cons nid ids c cs)
  have below: "\<exists>m\<in>set ids. occurrence_ok E phase (path_child pre m) c'" if "c' \<in> set cs" for c'
    using Cons(2) that by (auto simp: list_all2_conv_all_nth in_set_conv_nth intro!: bexI [OF _ nth_mem])
  have apart: "\<not> prefix (path_child pre nid) path"
    if "c' \<in> set cs" "prefix (path_child pre m) path" "m \<in> set ids" for c' m path
    using that Cons.prems prefix_child_inj by fastforce
  show ?case unfolding within_max_def
  proof (intro allI impI)
    fix key p k mx
    assume leaf: "leaf_of (concat (map oc_flattened_nodes (c # cs))) key p k"
      and mx: "pm_max (role_multiplicity (pd_role p)) = Some mx"
    obtain path pid where key: "key = (path, pid)" by fastforce
    show "port_use (concat (map oc_bindings (c # cs))) key p \<le> unat mx"
    proof (cases "leaf_of (oc_flattened_nodes c) key p k")
      case True
      then have pre: "prefix (path_child pre nid) path"
        using leaf_of_prefix Cons(1) unfolding key occurrence_ok_def by blast
      have "\<forall>b\<in>set (concat (map oc_bindings cs)). provider_key b \<noteq> key \<and> consumer_key b \<noteq> key"
      proof
        fix b assume "b \<in> set (concat (map oc_bindings cs))"
        then obtain c' where c': "c' \<in> set cs" "b \<in> set (oc_bindings c')" by auto
        obtain m where m: "m \<in> set ids" "occurrence_ok E phase (path_child pre m) c'" using below [OF c'(1)] by blast
        show "provider_key b \<noteq> key \<and> consumer_key b \<noteq> key"
          using child_keys [OF m(2) c'(2), of path pid] apart [OF c'(1) _ m(1)] pre unfolding key by blast
      qed
      then have "port_use (concat (map oc_bindings cs)) key p = 0" by (rule port_use_none)
      then show ?thesis using within_maxD [OF _ True mx] Cons(1)
        by (simp add: port_use_append occurrence_ok_def)
    next
      case False
      then have rest: "leaf_of (concat (map oc_flattened_nodes cs)) key p k"
        using leaf by (simp add: leaf_of_append)
      then obtain c' where c': "c' \<in> set cs" "leaf_of (oc_flattened_nodes c') (path, pid) p k"
        by (auto simp: leaf_of_concat key)
      then obtain m where "m \<in> set ids" "prefix (path_child pre m) path"
        using below [OF c'(1)] leaf_of_prefix [OF c'(2)] unfolding occurrence_ok_def by blast
      then have "\<not> prefix (path_child pre nid) path" using apart [OF c'(1)] by blast
      then have "\<forall>b\<in>set (oc_bindings c). provider_key b \<noteq> key \<and> consumer_key b \<noteq> key"
        using child_keys [OF Cons(1)] unfolding key by blast
      then have "port_use (oc_bindings c) key p = 0" by (rule port_use_none)
      then show ?thesis using within_maxD [OF _ rest mx] Cons.IH Cons.prems by (simp add: port_use_append)
    qed
  qed
qed

lemma check_cardinality_use:
  assumes "binding_inv E phase ports below bs"
    and "check_resolved_cardinality (bs_consumer_counts bs) (bs_provider_counts bs) port = Inr ()"
    and "pm_max (role_multiplicity (pd_role (rp_descriptor port))) = Some mx"
  shows "port_use (below @ bs_resolved_bindings bs) (resolved_port_key port) (rp_descriptor port) \<le> unat mx"
  using assms unfolding check_resolved_cardinality_def Let_def ensure_Inr binding_inv_def port_use_def
  by (auto simp: not_less simp del: split_paired_All filter_append split: if_splits)

lemma result_within_max:
  assumes fin: "nodes_done E phase input pre cst"
    and run: "resolve_bindings E phase digest a (snd cst) diagnostics = Inr bs"
  shows "within_max (flat_nodes pre digest a lock_ref (snd cst))
    (concat (map oc_bindings (ns_child_results (snd cst))) @ bs_resolved_bindings bs)"
  unfolding within_max_def
proof (intro allI impI)
  let ?st = "snd cst" and ?nodes = "flat_nodes pre digest a lock_ref (snd cst)"
  let ?below = "concat (map oc_bindings (ns_child_results ?st))"
  fix key p k mx
  assume leaf: "leaf_of ?nodes key p k" and mx: "pm_max (role_multiplicity (pd_role p)) = Some mx"
  note inv = resolve_bindings_ok(1) [OF nodes_done_wf [OF fin] run]
  obtain ys where node_inv: "node_inv E phase input pre ys cst" and dist: "distinct (map an_node_id ys)"
    using fin by (auto simp: nodes_done_def)
  show "port_use (?below @ bs_resolved_bindings bs) key p \<le> unat mx"
  proof (cases "\<exists>ep port. bt_get (ns_local_ports ?st) ep = Some port \<and> resolved_port_key port = key")
    case True
    then obtain ep port where port: "bt_get (ns_local_ports ?st) ep = Some port" "resolved_port_key port = key" by blast
    obtain q where q: "leaf_of ?nodes key q (rp_component port)" "same_port (rp_descriptor port) q"
      using local_port_ref_ok [OF fin port(1), of digest a lock_ref] port(2) by (auto simp: port_ref_ok_def)
    then have role: "pd_role (rp_descriptor port) = pd_role p"
      using leaf_of_unique [OF nodes_done_nodes_ok [OF fin] leaf q(1)] same_port_role by fastforce
    have "port_use (?below @ bs_resolved_bindings bs) key (rp_descriptor port) \<le> unat mx"
      using check_cardinality_use [OF inv resolve_bindings_ok(2) [OF nodes_done_wf [OF fin] run port(1)]] mx role port(2)
      by simp
    then show ?thesis by (simp add: port_use_def role)
  next
    case False
    have "local_binding_ok E phase (ns_local_ports ?st) b \<Longrightarrow> provider_key b \<noteq> key \<and> consumer_key b \<noteq> key" for b
      using False unfolding local_binding_ok_def by metis
    then have own: "port_use (bs_resolved_bindings bs) key p = 0"
      using inv by (intro port_use_none) (auto simp: binding_inv_def)
    have "\<not> leaf_of (map (flatten_component pre digest a lock_ref) (ns_local_components ?st)) key p k"
    proof
      assume "leaf_of (map (flatten_component pre digest a lock_ref) (ns_local_components ?st)) key p k"
      then obtain nid ev where e: "(nid, ev) \<in> set (ns_local_components ?st)" "p \<in> set (ne_ports ev)"
        "key = (path_child pre nid, pd_port_id p)"
        by (auto simp: leaf_of_def flatten_component_def Let_def)
      then have "local_entry pre (ns_local_components ?st) (zip (nested_ids ys) (ns_child_results ?st))
          (PortEndpoint nid (pd_port_id p)) (leaf_port_ref (path_child pre nid) ev p)"
        by (auto simp: local_entry_def)
      then have "bt_get (ns_local_ports ?st) (PortEndpoint nid (pd_port_id p)) = Some (leaf_port_ref (path_child pre nid) ev p)"
        using node_inv by (simp add: node_inv_def)
      moreover have "resolved_port_key (leaf_port_ref (path_child pre nid) ev p) = key"
        by (simp add: e(3) resolved_port_key_def leaf_port_ref_def)
      ultimately show False using False by blast
    qed
    then have child: "leaf_of (concat (map oc_flattened_nodes (ns_child_results ?st))) key p k"
      using leaf by (auto simp: flat_nodes_def leaf_of_append)
    have "within_max (concat (map oc_flattened_nodes (ns_child_results ?st))) ?below"
      by (rule children_within_max [of E phase pre "nested_ids ys"])
         (use node_inv dist in \<open>auto simp: node_inv_def nested_ids_def distinct_map_filter\<close>)
    from within_maxD [OF this child mx] own show ?thesis by (simp add: port_use_append)
  qed
qed

section \<open>Exposed ports and state slots\<close>

lemma expose_ports_ok:
  assumes refs: "\<And>ep port. bt_get ports ep = Some port \<Longrightarrow> port_ref_ok nodes port"
    and run: "expose_ports digest a ports = Inr ext"
  shows "external_ok nodes ext"
proof (rule foldM_inv [where I = "external_ok nodes", OF run [unfolded expose_ports_def]])
  show "external_ok nodes ([], [])" by (simp add: external_ok_def)
  fix x st st'
  assume inv: "external_ok nodes st" and step: "expose_port digest a ports x st = Inr st'"
  obtain target where target: "bt_get ports (ax_target x) = Some target"
    and st': "st' = (bt_insert (ax_port_id x) (target\<lparr>rp_descriptor := (rp_descriptor target)\<lparr>pd_port_id := ax_port_id x\<rparr>,
        rp_exposure_chain := \<lparr>eh_assembly_digest = digest, eh_assembly_id = ar_assembly_id a,
          eh_exposed_port_id = ax_port_id x, eh_target = ax_target x\<rparr> # rp_exposure_chain target\<rparr>) (fst st),
        bt_insert (ax_port_id x) (ax_direction x) (snd st))"
    using step by (auto simp: expose_port_def Let_def and_then_Inr ok_or_Inr)
  have "port_ref_ok nodes (target\<lparr>rp_descriptor := (rp_descriptor target)\<lparr>pd_port_id := pid\<rparr>, rp_exposure_chain := chain\<rparr>)" for pid chain
    using refs [OF target] by (auto simp: port_ref_ok_def resolved_port_key_def intro: same_port_rename)
  then show "external_ok nodes st'"
    using inv by (auto simp: external_ok_def st' bt_get_insert bt_wf_insert)
qed

lemma resolve_slot_ok:
  assumes refs: "\<And>ep port. bt_get ports ep = Some port \<Longrightarrow> prefix pre (rp_leaf_node_path port)"
    and run: "resolve_state_slot pre digest a ports slot = Inr s"
  shows "slot_under pre s"
  using run refs
  by (auto simp: resolve_state_slot_def migration_target_def slot_under_def Let_def and_then_Inr ok_or_Inr
      split: option.splits if_splits)

section \<open>The invariant of every occurrence\<close>

lemma finish_occurrence_Inr:
  assumes "finish_occurrence E input phase digest pre root a prior cst = Inr (oc, ctx)"
  shows "\<exists>bs artifact slots.
    resolve_bindings E phase digest a (snd cst) (rc_diagnostics (fst cst)) = Inr bs
    \<and> expose_ports digest a (ns_local_ports (snd cst)) = Inr (oc_external_ports oc, oc_external_directions oc)
    \<and> occurrence_lock E input root a (snd cst) (bs_binding_locks bs) = Inr (oc_lock oc)
    \<and> lock_artifact_from_model E (oc_lock oc) = Inr artifact
    \<and> mapM (resolve_state_slot pre digest a (ns_local_ports (snd cst))) (ar_state_slots a) = Inr slots
    \<and> oc_lock_artifact oc = artifact
    \<and> oc_lock_artifacts oc = concat (map oc_lock_artifacts (ns_child_results (snd cst))) @ [artifact]
    \<and> oc_flattened_nodes oc = flat_nodes pre digest a (cao_descriptor artifact) (snd cst)
    \<and> oc_bindings oc = concat (map oc_bindings (ns_child_results (snd cst))) @ bs_resolved_bindings bs
    \<and> oc_state_slots oc = concat (map oc_state_slots (ns_child_results (snd cst))) @ slots"
proof -
  obtain bs eps eds lock artifact slots where
    "resolve_bindings E phase digest a (snd cst) (rc_diagnostics (fst cst)) = Inr bs"
    "expose_ports digest a (ns_local_ports (snd cst)) = Inr (eps, eds)"
    "occurrence_lock E input root a (snd cst) (bs_binding_locks bs) = Inr lock"
    "lock_artifact_from_model E lock = Inr artifact"
    "mapM (resolve_state_slot pre digest a (ns_local_ports (snd cst))) (ar_state_slots a) = Inr slots"
    using assms unfolding finish_occurrence_def Let_def and_then_Inr by (auto split: prod.splits simp: and_then_Inr)
  with assms show ?thesis
    by (auto simp: finish_occurrence_def Let_def flat_nodes_def)
qed

lemma locks_closed_mono:
  "locks_closed E xs \<Longrightarrow> locks_closed E ys \<Longrightarrow> locks_closed E (xs @ ys)"
  by (auto simp: locks_closed_def intro: lock_pinned_mono)

lemma locks_closed_concat: "(\<And>xs. xs \<in> set xss \<Longrightarrow> locks_closed E xs) \<Longrightarrow> locks_closed E (concat xss)"
  by (induction xss) (simp_all add: locks_closed_mono, simp add: locks_closed_def)

text \<open>The lock of an occurrence pins, for every nested node, the lock artifact of the nested
  occurrence.\<close>

lemma occurrence_lock_pins:
  assumes fin: "nodes_done E phase input pre cst" and lock: "occurrence_lock E input root a (snd cst) bls = Inr l"
    and n: "n \<in> set (al_nodes l)" "ad_artifact_type_uri (nl_artifact n) = ASSEMBLY_LOCK_TYPE_URI"
  shows "\<exists>c\<in>set (ns_child_results (snd cst)). nl_artifact n = cao_descriptor (oc_lock_artifact c)"
proof -
  have "COMPONENT_DESCRIPTOR_TYPE_URI \<noteq> ASSEMBLY_LOCK_TYPE_URI" by code_simp
  moreover have valid: "assembly_lock_validate E l = Inr ()" and "n \<in> set (ns_node_locks (snd cst))"
    using lock n(1) by (auto simp: occurrence_lock_def Let_def and_then_Inr)
  ultimately show ?thesis
    using assembly_lock_validate_Inr(3) [OF valid n(1)] n(2) fin
    by (auto simp: validate_node_lock_Inr nodes_done_def node_inv_def)
qed

lemma finish_locks_ok:
  assumes fin: "nodes_done E phase input pre cst"
    and run: "finish_occurrence E input phase digest pre root a prior cst = Inr (oc, ctx)"
  shows "locks_ok E oc"
proof -
  let ?children = "ns_child_results (snd cst)"
  obtain bls artifact where lock: "occurrence_lock E input root a (snd cst) bls = Inr (oc_lock oc)"
    and art: "lock_artifact_from_model E (oc_lock oc) = Inr artifact" "oc_lock_artifact oc = artifact"
    and all: "oc_lock_artifacts oc = concat (map oc_lock_artifacts ?children) @ [artifact]"
    using finish_occurrence_Inr [OF run] by blast
  have child: "locks_ok E c" if "c \<in> set ?children" for c
    using nodes_done_child [OF fin that] by (auto simp: occurrence_ok_def)
  have "locks_closed E (concat (map oc_lock_artifacts ?children))"
    using child by (intro locks_closed_concat) (auto simp: locks_ok_def)
  moreover have "nl_artifact n \<in> cao_descriptor ` set (concat (map oc_lock_artifacts ?children))"
    if "n \<in> set (al_nodes (oc_lock oc))" "ad_artifact_type_uri (nl_artifact n) = ASSEMBLY_LOCK_TYPE_URI" for n
    using occurrence_lock_pins [OF fin lock that] child by (force simp: locks_ok_def)
  moreover from this have "lock_pinned_in E (cao_descriptor ` set (concat (map oc_lock_artifacts ?children))) artifact"
    using art(1) unfolding lock_pinned_in_def by blast
  ultimately have "locks_closed E (oc_lock_artifacts oc)"
    unfolding all locks_closed_def by (auto intro: lock_pinned_mono)
  then show ?thesis using art all by (simp add: locks_ok_def)
qed

lemma finish_occurrence_ok:
  assumes fin: "nodes_done E phase input pre cst"
    and run: "finish_occurrence E input phase digest pre root a prior cst = Inr (oc, ctx)"
  shows "occurrence_ok E phase pre oc"
proof -
  let ?st = "snd cst" and ?ports = "ns_local_ports (snd cst)"
  obtain bs and artifact :: canonical_artifact_object and slots where
    bindings: "resolve_bindings E phase digest a ?st (rc_diagnostics (fst cst)) = Inr bs"
    and ext: "expose_ports digest a ?ports = Inr (oc_external_ports oc, oc_external_directions oc)"
    and slots: "mapM (resolve_state_slot pre digest a ?ports) (ar_state_slots a) = Inr slots"
    and oc: "oc_flattened_nodes oc = flat_nodes pre digest a (cao_descriptor artifact) ?st"
      "oc_bindings oc = concat (map oc_bindings (ns_child_results ?st)) @ bs_resolved_bindings bs"
      "oc_state_slots oc = concat (map oc_state_slots (ns_child_results ?st)) @ slots"
    using finish_occurrence_Inr [OF run] by blast
  let ?nodes = "flat_nodes pre digest a (cao_descriptor artifact) ?st"
  have nodes: "nodes_ok pre ?nodes" using fin by (rule nodes_done_nodes_ok)
  have refs: "bt_get ?ports ep = Some port \<Longrightarrow> port_ref_ok ?nodes port" for ep port
    using local_port_ref_ok [OF fin] by blast
  have "external_ok ?nodes (oc_external_ports oc, oc_external_directions oc)" by (rule expose_ports_ok [OF refs ext])
  moreover have "binding_ok E phase ?nodes b" if "b \<in> set (oc_bindings oc)" for b
    using that child_binding_global [OF fin] local_binding_global [OF fin]
      resolve_bindings_ok(1) [OF nodes_done_wf [OF fin] bindings] by (auto simp: oc binding_inv_def)
  moreover have "within_max ?nodes (oc_bindings oc)"
    using result_within_max [OF fin bindings] by (simp add: oc)
  moreover have "slot_under pre s" if "s \<in> set (oc_state_slots oc)" for s
  proof -
    from that consider (child) c where "c \<in> set (ns_child_results ?st)" "s \<in> set (oc_state_slots c)"
      | (own) slot where "resolve_state_slot pre digest a ?ports slot = Inr s"
      using mapM_mem [OF slots, of s] by (auto simp: oc)
    then show ?thesis
    proof cases
      case child
      then obtain nid where "slot_under (path_child pre nid) s"
        using nodes_done_child [OF fin] by (fastforce simp: occurrence_ok_def)
      then show ?thesis by (auto simp: slot_under_def intro: prefix_order.trans [OF path_child_prefix])
    next
      case own
      then show ?thesis using resolve_slot_ok port_ref_ok_prefix [OF refs nodes] by blast
    qed
  qed
  ultimately show ?thesis using nodes finish_locks_ok [OF fin run] by (simp add: occurrence_ok_def oc)
qed

lemma finish_occurrence_context:
  assumes "context_ok E phase input (fst cst)" and "occurrence_ok E phase pre oc"
    and "finish_occurrence E input phase digest pre root a prior cst = Inr (oc, ctx)"
  shows "context_ok E phase input ctx"
  using assms
  by (auto simp: finish_occurrence_def Let_def and_then_Inr context_ok_def bt_get_insert split: if_splits prod.splits)

text \<open>One iteration of the loop over the nodes.\<close>

abbreviation node_step :: "ext \<Rightarrow> resolver_input \<Rightarrow> binding_phase \<Rightarrow> str \<Rightarrow> node_path \<Rightarrow> nat
    \<Rightarrow> assembly_node \<Rightarrow> resolve_context \<times> node_state \<Rightarrow> (resolve_context \<times> node_state) model_result" where
  "node_step E input phase digest pre depth \<equiv> \<lambda>node st.
     (case an_source node of
        Component component \<Rightarrow> add_component_node E input digest pre node component st
      | Assembly child \<Rightarrow>
          and_then (resolve_occurrence E input phase (ad_digest child)
              (path_child pre (an_node_id node)) (depth + 1) False (fst st))
            (\<lambda>(child_result, ctx'). Inr (ctx', add_assembly_node node child_result (snd st))))"

definition unique_nodes :: "resolver_input \<Rightarrow> str \<Rightarrow> bool" where
  "unique_nodes input digest =
     (\<forall>x a. (nests (ri_assemblies input))\<^sup>*\<^sup>* digest x \<longrightarrow> bt_get (ri_assemblies input) x = Some a
        \<longrightarrow> distinct (map an_node_id (ar_nodes a)))"

lemma unique_nodes_child:
  assumes "unique_nodes input digest" and "bt_get (ri_assemblies input) digest = Some a"
    and "node \<in> set (ar_nodes a)" and "an_source node = Assembly child"
  shows "unique_nodes input (ad_digest child)"
proof -
  have "ad_digest child \<in> set (nested_digests a)"
    using assms(3,4) by (force simp: nested_digests_def)
  then have "nests (ri_assemblies input) digest (ad_digest child)" using assms(2) by (simp add: nests_def)
  then show ?thesis using assms(1) unfolding unique_nodes_def by (meson converse_rtranclp_into_rtranclp)
qed

text \<open>The loop keeps its invariant when every nested call satisfies the occurrence invariant.\<close>

lemma node_step_inv:
  assumes inv: "node_inv E phase input pre ys st" and new: "an_node_id node \<notin> an_node_id ` set ys"
    and step: "node_step E input phase digest pre depth node st = Inr st'"
    and nested: "\<And>child oc ctx'. an_source node = Assembly child \<Longrightarrow>
      resolve_occurrence E input phase (ad_digest child) (path_child pre (an_node_id node)) (depth + 1) False (fst st)
        = Inr (oc, ctx') \<Longrightarrow> occurrence_ok E phase (path_child pre (an_node_id node)) oc \<and> context_ok E phase input ctx'"
  shows "node_inv E phase input pre (ys @ [node]) st'"
proof (cases "an_source node")
  case (Component component)
  then show ?thesis using node_inv_component [OF inv new] step by simp
next
  case (Assembly child)
  with step obtain oc ctx' where call: "resolve_occurrence E input phase (ad_digest child)
      (path_child pre (an_node_id node)) (depth + 1) False (fst st) = Inr (oc, ctx')"
    and st': "st' = (ctx', add_assembly_node node oc (snd st))"
    by (auto simp: and_then_Inr)
  show ?thesis using node_inv_assembly [OF inv new Assembly] nested [OF Assembly call] st' by simp
qed

lemma resolve_occurrence_fresh:
  assumes "depth \<le> MAX_ASSEMBLY_DEPTH" and "root \<or> bt_get (rc_memo ctx) digest = None"
    and "bt_get (ri_assemblies input) digest = Some a"
  shows "resolve_occurrence E input phase digest pre depth root ctx =
    and_then (foldM (node_step E input phase digest pre depth) (sort_key an_node_id (ar_nodes a)) (ctx, empty_node_state))
      (finish_occurrence E input phase digest pre root a (rc_diagnostics ctx))"
  using assms by (auto simp: resolve_occurrence.simps [of E input phase digest])

lemma resolve_occurrence_memo:
  assumes "depth \<le> MAX_ASSEMBLY_DEPTH" and "bt_get (rc_memo ctx) digest = Some (pre', cached)"
    and "context_ok E phase input ctx"
  shows "resolve_occurrence E input phase digest pre depth False ctx = Inr (move_occurrence pre' pre cached, ctx)"
    and "occurrence_ok E phase pre (move_occurrence pre' pre cached)"
proof -
  have ok: "occurrence_ok E phase pre' cached" using assms(2,3) by (auto simp: context_ok_def)
  show "resolve_occurrence E input phase digest pre depth False ctx = Inr (move_occurrence pre' pre cached, ctx)"
    using assms(1,2) rebase_occurrence_moved [OF ok]
    by (simp add: resolve_occurrence.simps [of E input phase digest])
  show "occurrence_ok E phase pre (move_occurrence pre' pre cached)" by (rule occurrence_ok_moved [OF ok])
qed

text \<open>The loop over the nodes of an assembly whose node ids are distinct.\<close>

lemma node_loop_inv:
  assumes ctx: "context_ok E phase input ctx" and dist: "distinct (map an_node_id ns)"
    and loop: "foldM (node_step E input phase digest pre depth) (sort_key an_node_id ns) (ctx, empty_node_state) = Inr cst"
    and nested: "\<And>node child ctx1 oc ctx'. node \<in> set ns \<Longrightarrow> an_source node = Assembly child \<Longrightarrow>
      context_ok E phase input ctx1 \<Longrightarrow>
      resolve_occurrence E input phase (ad_digest child) (path_child pre (an_node_id node)) (depth + 1) False ctx1
        = Inr (oc, ctx') \<Longrightarrow> occurrence_ok E phase (path_child pre (an_node_id node)) oc \<and> context_ok E phase input ctx'"
  shows "nodes_done E phase input pre cst"
proof -
  have dist': "distinct (map an_node_id (sort_key an_node_id ns))" using dist by (simp add: distinct_map)
  have "node_inv E phase input pre (sort_key an_node_id ns) cst"
  proof (rule foldM_prefix_inv [where I = "node_inv E phase input pre", OF loop node_inv_start [OF ctx]])
    fix ys node zs st st'
    assume split: "sort_key an_node_id ns = ys @ node # zs" and inv: "node_inv E phase input pre ys st"
      and step: "node_step E input phase digest pre depth node st = Inr st'"
    have "node \<in> set ns" using split by (metis in_set_conv_decomp set_sort)
    moreover have "an_node_id node \<notin> an_node_id ` set ys" using dist' by (simp add: split)
    moreover have "context_ok E phase input (fst st)" using inv by (simp add: node_inv_def)
    ultimately show "node_inv E phase input pre (ys @ [node]) st'"
      using nested by (intro node_step_inv [OF inv _ step]) auto
  qed
  then show ?thesis using dist' unfolding nodes_done_def by blast
qed

lemma resolve_occurrence_ok:
  assumes "resolve_occurrence E input phase digest pre depth root ctx = Inr (oc, ctx')"
    and "context_ok E phase input ctx" and "unique_nodes input digest"
  shows "occurrence_ok E phase pre oc \<and> context_ok E phase input ctx'"
  using assms
proof (induction "Suc MAX_ASSEMBLY_DEPTH - depth" arbitrary: digest pre depth root ctx oc ctx' rule: less_induct)
  case less
  have depth: "depth \<le> MAX_ASSEMBLY_DEPTH"
    using less.prems(1) by (auto simp: resolve_occurrence.simps [of E input phase digest] not_less split: if_splits)
  show ?case
  proof (cases "root \<or> bt_get (rc_memo ctx) digest = None")
    case False
    then obtain pre' cached where "bt_get (rc_memo ctx) digest = Some (pre', cached)" "\<not> root" by auto
    then show ?thesis using resolve_occurrence_memo [OF depth _ less.prems(2), of digest pre' cached pre] less.prems by simp
  next
    case fresh: True
    then obtain a where a: "bt_get (ri_assemblies input) digest = Some a"
      using less.prems(1) depth by (auto simp: resolve_occurrence.simps [of E input phase digest] and_then_Inr ok_or_Inr split: if_splits)
    then obtain cst where loop: "foldM (node_step E input phase digest pre depth) (sort_key an_node_id (ar_nodes a))
        (ctx, empty_node_state) = Inr cst"
      and finish: "finish_occurrence E input phase digest pre root a (rc_diagnostics ctx) cst = Inr (oc, ctx')"
      using less.prems(1) unfolding resolve_occurrence_fresh [OF depth fresh a] by (auto simp: and_then_Inr)
    have dist: "distinct (map an_node_id (ar_nodes a))" using less.prems(3) a by (auto simp: unique_nodes_def)
    have fin: "nodes_done E phase input pre cst"
    proof (rule node_loop_inv [OF less.prems(2) dist loop])
      fix node child ctx1 oc1 ctx1'
      assume "node \<in> set (ar_nodes a)" "an_source node = Assembly child" and ctx1: "context_ok E phase input ctx1"
        and call: "resolve_occurrence E input phase (ad_digest child) (path_child pre (an_node_id node)) (depth + 1) False ctx1
          = Inr (oc1, ctx1')"
      then have "unique_nodes input (ad_digest child)" using unique_nodes_child [OF less.prems(3) a] by blast
      with less.hyps [OF _ call ctx1] depth
      show "occurrence_ok E phase (path_child pre (an_node_id node)) oc1 \<and> context_ok E phase input ctx1'" by simp
    qed
    then have "occurrence_ok E phase pre oc" using finish by (rule finish_occurrence_ok)
    moreover have "context_ok E phase input (fst cst)" using fin by (auto simp: nodes_done_def node_inv_def)
    ultimately show ?thesis using finish_occurrence_context [OF _ _ finish] by blast
  qed
qed

end
