(* ===== verification/Resolver_Props.thy ===== *)
theory Resolver_Props
  imports Resolver_Results
begin

text \<open>
  The properties of the resolver: it never panics, its bindings are sound, the cardinality of
  every port is respected across all levels of nesting, and the ids it makes up are fresh.
\<close>

section \<open>No step panics\<close>

lemma add_component_node_no_panic [no_panic]: "add_component_node E input digest pre node c st \<noteq> Inl Panic"
  by (simp add: add_component_node_def validate_evidence_def ok_or_def Let_def no_panic split: option.splits)

lemma binding_paths_no_panic [no_panic]: "binding_paths E p c pol \<noteq> Inl Panic"
  by (simp add: binding_paths_def no_panic)

lemma record_binding_no_panic [no_panic]: "record_binding E digest a bid epp epc c ph path bs \<noteq> Inl Panic"
  by (simp add: record_binding_def Let_def no_panic)

lemma resolve_declared_no_panic: "resolve_declared_binding E phase digest a ports b bs \<noteq> Inl Panic"
  by (simp add: resolve_declared_binding_def no_panic split: option.splits port_role.splits list.splits)

lemma provider_candidates_no_panic [no_panic]: "provider_candidates E ports consumer \<noteq> Inl Panic"
  by (simp add: provider_candidates_def Let_def no_panic split: prod.splits)

text \<open>The \<open>unreachable!()\<close> of the import loop is unreachable.\<close>

lemma resolve_import_no_panic:
  assumes "is_import (pd_role (rp_descriptor consumer))"
  shows "resolve_import E phase digest a ports (ep, consumer) bs \<noteq> Inl Panic"
  using assms
  by (cases "pd_role (rp_descriptor consumer)")
     (simp_all add: resolve_import_def Let_def no_panic split: list.splits prod.splits)

lemma resolve_bindings_no_panic [no_panic]: "resolve_bindings E phase digest a st diagnostics \<noteq> Inl Panic"
proof -
  have declared: "foldM (resolve_declared_binding E phase digest a ports) bs st1 \<noteq> Inl Panic" for ports bs st1
    by (rule foldM_no_fault [where I = "\<lambda>_. True"]) (simp_all add: resolve_declared_no_panic)
  have pending: "foldM (resolve_import E phase digest a ports) (pending_imports a ports) st1 \<noteq> Inl Panic" for ports st1
    by (rule foldM_no_fault [where I = "\<lambda>_. True"])
       (auto simp: pending_imports_def resolve_import_no_panic)
  show ?thesis
    by (simp add: resolve_bindings_def Let_def check_resolved_cardinality_def declared pending no_panic
        split: prod.splits)
qed

lemma expose_ports_no_panic [no_panic]: "expose_ports digest a ports \<noteq> Inl Panic"
  unfolding expose_ports_def
  by (rule foldM_no_fault [where I = "\<lambda>_. True"])
     (simp_all add: expose_port_def Let_def ok_or_def no_panic split: option.splits)

lemma resolve_state_slot_no_panic: "resolve_state_slot pre digest a ports s \<noteq> Inl Panic"
  by (simp add: resolve_state_slot_def migration_target_def Let_def ok_or_def no_panic split: option.splits)

lemma finish_occurrence_no_panic: "finish_occurrence E input phase digest pre root a prior cst \<noteq> Inl Panic"
proof -
  have "occurrence_lock E input root a st locks \<noteq> Inl Panic" for st locks
    by (simp add: occurrence_lock_def Let_def no_panic)
  moreover have "mapM (resolve_state_slot pre digest a ports) slots \<noteq> Inl Panic" for ports slots
    by (rule mapM_no_panic) (rule resolve_state_slot_no_panic)
  ultimately show ?thesis
    by (simp add: finish_occurrence_def Let_def no_panic split: prod.splits)
qed

lemma resolve_occurrence_no_panic:
  assumes "context_ok E phase input ctx" and "unique_nodes input digest"
  shows "resolve_occurrence E input phase digest pre depth root ctx \<noteq> Inl Panic"
  using assms
proof (induction "Suc MAX_ASSEMBLY_DEPTH - depth" arbitrary: digest pre depth root ctx rule: less_induct)
  case less
  consider (deep) "MAX_ASSEMBLY_DEPTH < depth"
    | (memo) pre' cached where "depth \<le> MAX_ASSEMBLY_DEPTH" "\<not> root" "bt_get (rc_memo ctx) digest = Some (pre', cached)"
    | (missing) "depth \<le> MAX_ASSEMBLY_DEPTH" "root \<or> bt_get (rc_memo ctx) digest = None"
        "bt_get (ri_assemblies input) digest = None"
    | (fresh) a where "depth \<le> MAX_ASSEMBLY_DEPTH" "root \<or> bt_get (rc_memo ctx) digest = None"
        "bt_get (ri_assemblies input) digest = Some a"
    by (cases "MAX_ASSEMBLY_DEPTH < depth"; cases root; cases "bt_get (rc_memo ctx) digest";
        cases "bt_get (ri_assemblies input) digest") (auto simp: not_less)
  then show ?case
  proof cases
    case memo
    then show ?thesis using resolve_occurrence_memo(1) [OF memo(1,3) less.prems(1)] by simp
  next
    case fresh
    have dist: "distinct (map an_node_id (sort_key an_node_id (ar_nodes a)))"
      using less.prems(2) fresh(3) by (auto simp: unique_nodes_def distinct_map)
    let ?f = "node_step E input phase digest pre depth"
    have child: "unique_nodes input (ad_digest c)" if "node \<in> set (ar_nodes a)" "an_source node = Assembly c" for node c
      using unique_nodes_child [OF less.prems(2) fresh(3) that] .
    have nopanic: "?f node st \<noteq> Inl Panic" if "node \<in> set (ar_nodes a)" "context_ok E phase input (fst st)" for node st
    proof (cases "an_source node")
      case (Assembly c)
      then show ?thesis
        using less.hyps [of "depth + 1" "fst st" "ad_digest c"] fresh(1) that child
        by (simp add: no_panic split: prod.splits)
    qed (simp add: add_component_node_no_panic)
    have "foldM ?f (sort_key an_node_id (ar_nodes a)) (ctx, empty_node_state) \<noteq> Inl Panic"
    proof
      assume "foldM ?f (sort_key an_node_id (ar_nodes a)) (ctx, empty_node_state) = Inl Panic"
      then have "\<exists>ys node zs st. sort_key an_node_id (ar_nodes a) = ys @ node # zs
          \<and> node_inv E phase input pre ys st \<and> ?f node st = Inl Panic"
      proof (rule foldM_prefix_fault [where I = "node_inv E phase input pre", OF _ node_inv_start [OF less.prems(1)]])
        fix ys node zs st st'
        assume split: "sort_key an_node_id (ar_nodes a) = ys @ node # zs"
          and inv: "node_inv E phase input pre ys st" and step: "?f node st = Inr st'"
        have "node \<in> set (ar_nodes a)" using split by (metis in_set_conv_decomp set_sort)
        then show "node_inv E phase input pre (ys @ [node]) st'"
          using dist resolve_occurrence_ok child inv
          by (intro node_step_inv [OF inv _ step]) (auto simp: split node_inv_def)
      qed
      then obtain ys node zs st where "sort_key an_node_id (ar_nodes a) = ys @ node # zs"
        "node_inv E phase input pre ys st" "?f node st = Inl Panic" by (elim exE conjE)
      then show False using nopanic [of node st] by (metis in_set_conv_decomp node_inv_def set_sort)
    qed
    then show ?thesis
      unfolding resolve_occurrence_fresh [OF fresh] by (intro and_then_no_panic finish_occurrence_no_panic)
  qed (auto simp: resolve_occurrence.simps [of E input phase digest])
qed

section \<open>The output of a run\<close>

lemma containment_unique_nodes:
  assumes "validate_resolver_containment E (ri_root_assembly input) (ri_assemblies input) = Inr u"
  shows "unique_nodes input (ad_digest (ri_root_assembly input))"
  unfolding unique_nodes_def
proof (intro allI impI)
  fix x a
  assume reach: "(nests (ri_assemblies input))\<^sup>*\<^sup>* (ad_digest (ri_root_assembly input)) x"
    and a: "bt_get (ri_assemblies input) x = Some a"
  obtain e where "refs_below (ri_assemblies input) (ri_root_assembly input) e" "ad_digest e = x"
    using nests_refs_below [OF reach] by blast
  then have "assembly_validate E a = Inr ()"
    using assms a by (auto simp: resolver_containment_Inr)
  then show "distinct (map an_node_id (ar_nodes a))" by (rule assembly_validate_node(1))
qed

abbreviation initial_context :: resolve_context where
  "initial_context \<equiv> \<lparr>rc_validated_evidence = {}, rc_memo = [], rc_diagnostics = default_collector\<rparr>"

lemma initial_context_ok: "context_ok E phase input initial_context"
  by (simp add: context_ok_def)

text \<open>What a successful run has computed, over the result \<open>oc\<close> of the root occurrence.\<close>

lemma resolve_assembly_Inr:
  assumes "resolve_assembly_at_phase E input phase = Inr out"
  obtains oc ctx where
    "occurrence_ok E phase [] oc"
    "resolve_occurrence E input phase (ad_digest (ri_root_assembly input)) [] 1 True initial_context = Inr (oc, ctx)"
    "ro_flattened_nodes out = sort_key fl_node_path
       (map (attach_exposure_chain (ro_exposed_ports out)) (oc_flattened_nodes oc))"
    "ro_bindings out = sort_resolved_bindings (oc_bindings oc)"
    "validate_export_minimums (ro_flattened_nodes out) (ro_bindings out) (ro_exposed_ports out) = Inr ()"
    "ro_root_lock out = oc_lock oc" "ro_root_lock_artifact out = oc_lock_artifact oc"
    "ro_lock_artifacts out = dedup_key (ad_digest \<circ> cao_descriptor)
       (sort_key (ad_digest \<circ> cao_descriptor) (oc_lock_artifacts oc))"
proof -
  obtain oc ctx where
    contain: "validate_resolver_containment E (ri_root_assembly input) (ri_assemblies input) = Inr ()"
    and run: "resolve_occurrence E input phase (ad_digest (ri_root_assembly input)) [] 1 True initial_context = Inr (oc, ctx)"
    using assms by (auto simp: resolve_assembly_at_phase_def Let_def and_then_Inr split: prod.splits)
  moreover have "occurrence_ok E phase [] oc"
    using resolve_occurrence_ok [OF run initial_context_ok containment_unique_nodes [OF contain]] by blast
  ultimately show thesis
    using that assms by (auto simp: resolve_assembly_at_phase_def Let_def and_then_Inr)
qed

lemma leaf_of_output:
  "leaf_of (sort_key fl_node_path (map (attach_exposure_chain exposed) nodes)) key p c \<longleftrightarrow> leaf_of nodes key p c"
  by (auto simp: leaf_of_def attach_exposure_chain_def)

lemma distinct_map_sort: "distinct (map f (sort_key g xs)) \<longleftrightarrow> distinct (map f xs)"
  by (metis mset_eq_imp_distinct_iff mset_map mset_sort)

lemma output_nodes_ok:
  "nodes_ok pre nodes \<Longrightarrow> nodes_ok pre (sort_key fl_node_path (map (attach_exposure_chain exposed) nodes))"
proof -
  assume ok: "nodes_ok pre nodes"
  have "map fl_node_path (map (attach_exposure_chain exposed) nodes) = map fl_node_path nodes"
    by (simp add: attach_exposure_chain_def)
  then have "distinct (map fl_node_path (sort_key fl_node_path (map (attach_exposure_chain exposed) nodes)))"
    using ok by (simp add: distinct_map_sort nodes_ok_def del: map_map)
  then show ?thesis using ok by (auto simp: nodes_ok_def attach_exposure_chain_def)
qed

lemma binding_ok_output:
  "binding_ok E phase (sort_key fl_node_path (map (attach_exposure_chain exposed) nodes)) b \<longleftrightarrow>
     binding_ok E phase nodes b"
  unfolding binding_ok_def leaf_of_output ..

lemma port_use_sorted: "port_use (sort_resolved_bindings bs) key p = port_use bs key p"
  by (simp add: port_use_def sort_resolved_bindings_def filter_sort)

lemma export_minimum:
  assumes "validate_export_minimums nodes bs exposed = Inr ()"
    and "n \<in> set nodes" "p \<in> set (fl_ports n)" "pd_role p = Export m e"
    and "\<forall>x\<in>set exposed. rx_direction x = Export_Direction
           \<longrightarrow> (rx_leaf_node_path x, rx_leaf_port_id x) \<noteq> (fl_node_path n, pd_port_id p)"
  shows "unat (pm_min m) \<le> port_use bs (fl_node_path n, pd_port_id p) p"
proof -
  have "check_export_minimum (fold bt_bump (map provider_key bs) [])
      (set (map (\<lambda>x. (rx_leaf_node_path x, rx_leaf_port_id x)) (filter (\<lambda>x. rx_direction x = Export_Direction) exposed)))
      n p = Inr ()"
    using assms(1-3) by (auto simp: validate_export_minimums_def Let_def each_Inr)
  moreover have "(fl_node_path n, pd_port_id p) \<notin>
      set (map (\<lambda>x. (rx_leaf_node_path x, rx_leaf_port_id x)) (filter (\<lambda>x. rx_direction x = Export_Direction) exposed))"
    using assms(5) by auto
  ultimately show ?thesis
    by (simp add: check_export_minimum_def assms(4) Let_def ensure_Inr bt_count_by port_use_def)
qed

section \<open>A small instance\<close>

text \<open>Two components, an import and the one export that can serve it. The encoder and the hash
  tell a lock from an assembly and nothing else.\<close>

definition brief_ext :: ext where
  "brief_ext = sample_ext\<lparr>
     json_to_vec := (\<lambda>j. if (case j of JObj fs \<Rightarrow> map_of fs ''assembly'' = None | _ \<Rightarrow> True) then ''{}'' else ''[]''),
     sha256_hex := (\<lambda>b. replicate 64 (if b = ''{}'' then CHR ''a'' else CHR ''d''))\<rparr>"

definition sample_claims :: component_boundary_claims where
  "sample_claims = \<lparr>bc_process_failure_isolation = True, bc_network_isolation = True,
     bc_filesystem_isolation = True, bc_resource_limits_enforced = True, bc_remote_identity = False,
     bc_tenancy_isolation = False, bc_revocation_enforced = False, bc_no_code_execution = False\<rparr>"

definition sample_evidence :: "port_descriptor list \<Rightarrow> node_evidence" where
  "sample_evidence ports = \<lparr>ne_component = \<lparr>cd_component_id = ''x/c'', cd_version = ''1'',
     cd_artifact = sample_ref COMPONENT_DESCRIPTOR_TYPE_URI CHR ''b'', cd_behavior = sample_ref ''urn:x'' CHR ''b'',
     cd_entry_kind = ''wasm'', cd_trust_class = SandboxedComponent, cd_claim_status = Declared,
     cd_enforced_boundaries = sample_claims, cd_capability_ids = [], cd_protocol_implementations = [],
     cd_content_roots = [], cd_surfaces = [], cd_annotations = []\<rparr>,
     ne_ports = ports, ne_provenance_refs = [], ne_artifact_refs = []\<rparr>"

definition sample_pair :: "port_descriptor \<Rightarrow> assembly_binding list \<Rightarrow> assembly_revision" where
  "sample_pair import_port bindings = \<lparr>ar_schema = ASSEMBLY_REVISION_SCHEMA, ar_assembly_id = ''x/pair'',
     ar_nodes = [sample_component ''p'' [sample_export], sample_component ''u'' [import_port]],
     ar_bindings = bindings, ar_exposed_ports = [], ar_state_slots = [], ar_annotations = []\<rparr>"

definition pair_input :: "port_descriptor \<Rightarrow> assembly_binding list \<Rightarrow> resolver_input" where
  "pair_input import_port bindings =
     \<lparr>ri_root_assembly = (case assembly_descriptor brief_ext (sample_pair import_port bindings) of
         Inr d \<Rightarrow> d | Inl _ \<Rightarrow> sample_ref [] CHR ''0''),
      ri_assemblies = [(sample_digest CHR ''a'', sample_pair import_port bindings)],
      ri_node_evidence = [((sample_digest CHR ''a'', ''p''), sample_evidence [sample_export]),
        ((sample_digest CHR ''a'', ''u''), sample_evidence [import_port])],
      ri_content_roots = [], ri_protocol_profiles = []\<rparr>"

lemma pair_run:
  "case resolve_assembly_at_phase brief_ext (pair_input sample_import []) Launch of
     Inl _ \<Rightarrow> False
   | Inr out \<Rightarrow> map rb_binding_id (ro_bindings out) = [''auto-u-in'']
       \<and> map provider_key (ro_bindings out) = [([''p''], ''out'')]
       \<and> map fl_node_path (ro_flattened_nodes out) = [[''p''], [''u'']]
       \<and> map fl_ports (ro_flattened_nodes out) = [[sample_export], [sample_import]]
       \<and> length (ro_lock_artifacts out) = 1"
  by code_simp

lemma pair_runs: "\<exists>out. resolve_assembly_at_phase brief_ext (pair_input sample_import []) Launch = Inr out"
  using pair_run by (cases "resolve_assembly_at_phase brief_ext (pair_input sample_import []) Launch") simp_all

lemma pair_output:
  assumes "resolve_assembly_at_phase brief_ext (pair_input sample_import []) Launch = Inr out"
  shows "map rb_binding_id (ro_bindings out) = [''auto-u-in'']"
    and "map provider_key (ro_bindings out) = [([''p''], ''out'')]"
    and "map fl_node_path (ro_flattened_nodes out) = [[''p''], [''u'']]"
    and "map fl_ports (ro_flattened_nodes out) = [[sample_export], [sample_import]]"
    and "length (ro_lock_artifacts out) = 1"
  using pair_run unfolding assms sum.case by simp_all

section \<open>Properties\<close>

text \<open>C21: The resolver never panics, whatever the root, the assemblies, the evidence and the
  phase: none of its \<open>expect\<close>s, its \<open>unreachable!()\<close> and its map index can fail, also when an
  occurrence is taken from the memo and re-based, and it always returns.\<close>

theorem resolver_never_panics: "resolve_assembly_at_phase E input phase \<noteq> Inl Panic"
proof (cases "validate_resolver_containment E (ri_root_assembly input) (ri_assemblies input)")
  case (Inl e)
  then have "e \<noteq> Panic" using resolver_containment_no_panic by blast
  then show ?thesis by (simp add: resolve_assembly_at_phase_def Inl)
next
  case (Inr u)
  note unique = containment_unique_nodes [OF Inr]
  have entries: "mapM (exposed_port_entry (oc_external_directions oc)) (oc_external_ports oc) \<noteq> Inl Panic"
    if "occurrence_ok E phase [] oc" for oc
  proof (rule mapM_no_panic)
    fix entry assume "entry \<in> set (oc_external_ports oc)"
    then have "bt_get (oc_external_directions oc) (fst entry) \<noteq> None"
      using that bt_get_mem [of "oc_external_ports oc" "fst entry" "snd entry"]
      by (auto simp: occurrence_ok_def external_ok_def dom_def)
    then show "exposed_port_entry (oc_external_directions oc) entry \<noteq> Inl Panic"
      by (auto simp: exposed_port_entry_def ok_or_def)
  qed
  have minimums: "validate_export_minimums nodes bs exposed \<noteq> Inl Panic" for nodes bs exposed
    by (simp add: validate_export_minimums_def check_export_minimum_def Let_def no_panic split: port_role.splits)
  let ?run = "resolve_occurrence E input phase (ad_digest (ri_root_assembly input)) [] 1 True initial_context"
  show ?thesis
  proof (cases ?run)
    case (Inl e)
    then have "e \<noteq> Panic" using resolve_occurrence_no_panic [OF initial_context_ok unique] by blast
    then show ?thesis by (simp add: resolve_assembly_at_phase_def Inl Inr no_panic del: One_nat_def)
  next
    case run: (Inr res)
    obtain oc ctx where res: "res = (oc, ctx)" by fastforce
    have "occurrence_ok E phase [] oc"
      using resolve_occurrence_ok [OF run [unfolded res] initial_context_ok unique] by blast
    then show ?thesis
      using entries by (simp add: resolve_assembly_at_phase_def Let_def run res Inr no_panic minimums del: One_nat_def)
  qed
qed

text \<open>C22: Every binding of a resolved assembly is sound across all levels of nesting. Its two
  endpoints name ports of flattened component nodes, whose paths are distinct; the two ports are
  compatible (an exposure may rename them and changes nothing else); the binding pins the
  component that provides the port; its transport is one negotiated for the two ports; and it is
  bound no later than the importing port allows and than the phase that is being resolved.\<close>

theorem resolved_bindings_sound:
  assumes "resolve_assembly_at_phase E input phase = Inr out" and "b \<in> set (ro_bindings out)"
  shows "binding_ok E phase (ro_flattened_nodes out) b \<and> distinct (map fl_node_path (ro_flattened_nodes out))"
proof -
  obtain oc where ok: "occurrence_ok E phase [] oc"
    and nodes: "ro_flattened_nodes out = sort_key fl_node_path
       (map (attach_exposure_chain (ro_exposed_ports out)) (oc_flattened_nodes oc))"
    and bindings: "ro_bindings out = sort_resolved_bindings (oc_bindings oc)"
    using resolve_assembly_Inr [OF assms(1)] by blast
  have "b \<in> set (oc_bindings oc)" using assms(2) by (simp add: bindings sort_resolved_bindings_def)
  then have "binding_ok E phase (oc_flattened_nodes oc) b" and "nodes_ok [] (oc_flattened_nodes oc)"
    using ok by (auto simp: occurrence_ok_def)
  moreover from this(2) have "nodes_ok [] (ro_flattened_nodes out)" unfolding nodes by (rule output_nodes_ok)
  ultimately show ?thesis by (simp add: nodes binding_ok_output nodes_ok_def)
qed

theorem resolved_bindings_sound_witness:
  "\<exists>out b. resolve_assembly_at_phase brief_ext (pair_input sample_import []) Launch = Inr out
     \<and> ro_bindings out = [b] \<and> rb_binding_id b = ''auto-u-in'' \<and> binding_ok brief_ext Launch (ro_flattened_nodes out) b"
proof -
  obtain out where run: "resolve_assembly_at_phase brief_ext (pair_input sample_import []) Launch = Inr out"
    using pair_runs ..
  obtain b where b: "ro_bindings out = [b]" "rb_binding_id b = ''auto-u-in''"
    using pair_output(1) [OF run] by auto
  then have "binding_ok brief_ext Launch (ro_flattened_nodes out) b"
    using resolved_bindings_sound [OF run] by simp
  with run b show ?thesis by blast
qed

text \<open>Cardinality across nesting. In a resolved assembly no port of any flattened node, at
  whatever depth and through whatever chain of exposures it was bound, has more bindings than the
  maximum of its multiplicity; and an exporting port has at least its minimum, unless the root
  assembly exposes it, which leaves its remaining bindings to the installation.\<close>

theorem resolved_cardinality:
  assumes "resolve_assembly_at_phase E input phase = Inr out"
    and "n \<in> set (ro_flattened_nodes out)" and "p \<in> set (fl_ports n)"
  shows "(\<forall>mx. pm_max (role_multiplicity (pd_role p)) = Some mx
            \<longrightarrow> port_use (ro_bindings out) (fl_node_path n, pd_port_id p) p \<le> unat mx)
    \<and> (\<forall>m e. pd_role p = Export m e
         \<and> (\<forall>x\<in>set (ro_exposed_ports out). rx_direction x = Export_Direction
              \<longrightarrow> (rx_leaf_node_path x, rx_leaf_port_id x) \<noteq> (fl_node_path n, pd_port_id p))
         \<longrightarrow> unat (pm_min m) \<le> port_use (ro_bindings out) (fl_node_path n, pd_port_id p) p)"
proof -
  obtain oc where ok: "occurrence_ok E phase [] oc"
    and nodes: "ro_flattened_nodes out = sort_key fl_node_path
       (map (attach_exposure_chain (ro_exposed_ports out)) (oc_flattened_nodes oc))"
    and bindings: "ro_bindings out = sort_resolved_bindings (oc_bindings oc)"
    and minimums: "validate_export_minimums (ro_flattened_nodes out) (ro_bindings out) (ro_exposed_ports out) = Inr ()"
    using resolve_assembly_Inr [OF assms(1)] by blast
  have "leaf_of (ro_flattened_nodes out) (fl_node_path n, pd_port_id p) p (fl_component n)"
    using assms(2,3) by (auto simp: leaf_of_def)
  then have "leaf_of (oc_flattened_nodes oc) (fl_node_path n, pd_port_id p) p (fl_component n)"
    by (simp add: nodes leaf_of_output)
  moreover have "within_max (oc_flattened_nodes oc) (oc_bindings oc)" using ok by (simp add: occurrence_ok_def)
  ultimately show ?thesis
    using within_maxD export_minimum [OF minimums assms(2,3)] by (auto simp: bindings port_use_sorted)
qed

theorem resolved_cardinality_witness:
  "\<exists>out n. resolve_assembly_at_phase brief_ext (pair_input sample_import []) Launch = Inr out
     \<and> n \<in> set (ro_flattened_nodes out) \<and> sample_export \<in> set (fl_ports n)
     \<and> port_use (ro_bindings out) (fl_node_path n, ''out'') sample_export \<le> 2"
proof -
  obtain out where run: "resolve_assembly_at_phase brief_ext (pair_input sample_import []) Launch = Inr out"
    using pair_runs ..
  obtain n where n: "n \<in> set (ro_flattened_nodes out)" "sample_export \<in> set (fl_ports n)"
    using pair_output(4) [OF run] by (fastforce simp: map_eq_Cons_conv)
  have "pm_max (role_multiplicity (pd_role sample_export)) = Some 2" "pd_port_id sample_export = ''out''"
    by (simp_all add: sample_export_def sample_port_def)
  then have "port_use (ro_bindings out) (fl_node_path n, ''out'') sample_export \<le> unat (2 :: 16 word)"
    using resolved_cardinality [OF run n] by metis
  then have "port_use (ro_bindings out) (fl_node_path n, ''out'') sample_export \<le> 2" by simp
  with run n show ?thesis by blast
qed

text \<open>C23: The lock artifacts of a resolved assembly form a closed, content-addressed set. They
  have distinct digests; each is the canonical form of a lock that passes validation, and its
  digest is the digest of its bytes; the root lock is among them; and whenever one of those locks
  pins the lock of a nested assembly, an artifact with that digest is in the set.\<close>

theorem lock_artifacts_closed:
  assumes "resolve_assembly_at_phase E input phase = Inr out"
  shows "distinct (map (ad_digest \<circ> cao_descriptor) (ro_lock_artifacts out))
    \<and> lock_artifact_from_model E (ro_root_lock out) = Inr (ro_root_lock_artifact out)
    \<and> ad_digest (cao_descriptor (ro_root_lock_artifact out)) \<in> (ad_digest \<circ> cao_descriptor) ` set (ro_lock_artifacts out)
    \<and> (\<forall>artifact\<in>set (ro_lock_artifacts out).
         ad_digest (cao_descriptor artifact) = sha256_digest E (cao_bytes artifact)
         \<and> (\<exists>l. lock_artifact_from_model E l = Inr artifact
              \<and> (\<forall>n\<in>set (al_nodes l). ad_artifact_type_uri (nl_artifact n) = ASSEMBLY_LOCK_TYPE_URI
                   \<longrightarrow> ad_digest (nl_artifact n) \<in> (ad_digest \<circ> cao_descriptor) ` set (ro_lock_artifacts out))))"
proof -
  let ?key = "ad_digest \<circ> cao_descriptor"
  obtain oc where locks: "locks_ok E oc" and root: "ro_root_lock out = oc_lock oc" "ro_root_lock_artifact out = oc_lock_artifact oc"
    and out: "ro_lock_artifacts out = dedup_key ?key (sort_key ?key (oc_lock_artifacts oc))"
    using resolve_assembly_Inr [OF assms] unfolding occurrence_ok_def by metis
  have keys: "?key ` set (ro_lock_artifacts out) = ad_digest ` cao_descriptor ` set (oc_lock_artifacts oc)"
    unfolding out dedup_key_keys image_comp by (simp only: set_sort)
  have "sorted_wrt (<) (map ?key (ro_lock_artifacts out))"
    unfolding out by (rule sorted_dedup_key_distinct) (rule sorted_sort_key)
  then have "distinct (map ?key (ro_lock_artifacts out))" by (simp add: strict_sorted_iff)
  moreover have "\<exists>l. lock_artifact_from_model E l = Inr artifact
      \<and> (\<forall>n\<in>set (al_nodes l). ad_artifact_type_uri (nl_artifact n) = ASSEMBLY_LOCK_TYPE_URI
           \<longrightarrow> ad_digest (nl_artifact n) \<in> ?key ` set (ro_lock_artifacts out))"
    if "artifact \<in> set (ro_lock_artifacts out)" for artifact
  proof -
    have "lock_pinned_in E (cao_descriptor ` set (oc_lock_artifacts oc)) artifact"
      using that locks set_dedup_key_subset [of ?key "sort_key ?key (oc_lock_artifacts oc)"]
      by (auto simp: out locks_ok_def locks_closed_def)
    then show ?thesis unfolding keys lock_pinned_in_def by blast
  qed
  moreover have "ad_digest (cao_descriptor artifact) = sha256_digest E (cao_bytes artifact)"
    if "lock_artifact_from_model E l = Inr artifact" for l and artifact :: canonical_artifact_object
    using lock_artifacts.from_model_Inr that unfolding lock_artifact_from_model_def by blast
  ultimately show ?thesis
    using locks unfolding root locks_ok_def unfolding keys by blast
qed

theorem lock_artifacts_closed_witness:
  "\<exists>out. resolve_assembly_at_phase brief_ext (pair_input sample_import []) Launch = Inr out
     \<and> (\<exists>artifact. ro_lock_artifacts out = [artifact]
        \<and> ad_digest (cao_descriptor artifact) = sha256_digest brief_ext (cao_bytes artifact))"
proof -
  obtain out where run: "resolve_assembly_at_phase brief_ext (pair_input sample_import []) Launch = Inr out"
    using pair_runs ..
  obtain artifact where one: "ro_lock_artifacts out = [artifact]"
    using pair_output(5) [OF run] by (auto simp: length_Suc_conv)
  then have "ad_digest (cao_descriptor artifact) = sha256_digest brief_ext (cao_bytes artifact)"
    using lock_artifacts_closed [OF run] by simp
  with run one show ?thesis by blast
qed

end
