(* ===== verification/Sorting.thy ===== *)
theory Sorting
  imports Prelude "HOL-Library.Multiset"
begin

text \<open>
  Sorting by a key, when the key tells the elements apart: the result depends only on the multiset
  of elements and on how the key orders them.
\<close>

lemma sort_key_perm:
  assumes "mset xs = mset ys" and "inj_on f (set ys)"
  shows "sort_key f xs = sort_key f ys"
proof (rule properties_for_sort_key)
  show "mset (sort_key f ys) = mset xs" using assms(1) by simp
  show "sorted (map f (sort_key f ys))" by simp
  fix k assume "k \<in> set (sort_key f ys)"
  let ?here = "filter (\<lambda>x. f k = f x) (sort_key f ys)" and ?there = "filter (\<lambda>x. f k = f x) xs"
  have same: "mset ?here = mset ?there" using assms(1) by (simp add: mset_filter)
  have here: "\<forall>x\<in>set ?here. x = k" using assms(2) \<open>k \<in> set (sort_key f ys)\<close> by (auto dest: inj_onD)
  then have there: "\<forall>x\<in>set ?there. x = k" using mset_eq_setD [OF same] by blast
  have "?here = replicate (length ?here) k" by (rule replicate_length_same [OF here, symmetric])
  also have "\<dots> = replicate (length ?there) k" by (simp only: mset_eq_length [OF same])
  also have "\<dots> = ?there" by (rule replicate_length_same [OF there])
  finally show "?here = ?there" .
qed

lemma sort_key_unique:
  assumes "mset xs = mset ys" and "inj_on f (set ys)" and "sorted (map f xs)"
  shows "sort_key f ys = xs"
  using sort_key_perm [OF assms(1,2)] assms(3) by (simp add: sort_key_id_if_sorted)

lemma sort_key_iso:
  assumes "inj_on g (set xs)" and "\<And>x y. x \<in> set xs \<Longrightarrow> y \<in> set xs \<Longrightarrow> f x \<le> f y \<Longrightarrow> g x \<le> g y"
  shows "sort_key f xs = sort_key g xs"
proof -
  have "sorted (map f (sort_key f xs))" by simp
  then have "sorted_wrt (\<lambda>x y. f x \<le> f y) (sort_key f xs)" by (simp add: sorted_map)
  then have "sorted_wrt (\<lambda>x y. g x \<le> g y) (sort_key f xs)"
    by (rule sorted_wrt_mono_rel [rotated]) (use assms(2) in simp)
  then have "sorted (map g (sort_key f xs))" by (simp add: sorted_map)
  then show ?thesis using sort_key_unique [of "sort_key f xs" xs g] assms(1) by simp
qed

lemma map_insort_key: "map h (insort_key (\<lambda>x. f (h x)) x xs) = insort_key f (h x) (map h xs)"
  by (induction xs) auto

lemma sort_key_map: "sort_key f (map h xs) = map h (sort_key (\<lambda>x. f (h x)) xs)"
  by (induction xs) (simp_all add: map_insort_key)

end
