(* ===== verification/Promotion.thy ===== *)
theory Promotion
  imports Assemblies Sorting
begin

text \<open>
  \<open>crates/plurora-work/src/promotion.rs\<close>: turning a selection of nodes of an assembly into an
  assembly of its own, with the bindings that were cut as explicit boundary ports.

  The port catalogs of nested assemblies are computed by recursion along the containment graph,
  with a cache but no check for cycles of its own. The model bounds the recursion by fuel; running
  out of it is the failure \<open>Inl None\<close>, other failures are \<open>Inl (Some e)\<close>. The closure check that
  precedes it makes the fuel \<open>MAX_ASSEMBLY_DEPTH\<close> sufficient.
\<close>

section \<open>Data\<close>

definition ASSEMBLY_PROMOTION_CANDIDATE_TYPE_URI :: str where
  "ASSEMBLY_PROMOTION_CANDIDATE_TYPE_URI = ''urn:plurora:assembly-promotion-candidate:v1''"

definition PROMOTION_CANDIDATE_SCHEMA :: str where
  "PROMOTION_CANDIDATE_SCHEMA = ''plurora.assembly-promotion-candidate.v1''"

record promoted_boundary_port =
  bp_port_id :: port_id
  bp_direction :: port_direction
  bp_target :: port_endpoint
  bp_descriptor :: port_descriptor
  bp_source_binding_id :: "str option"
  bp_external_endpoint :: "port_endpoint option"
  bp_phase :: "binding_phase option"

datatype promotion_diagnostic_kind = ExistingBoundary | CutImport | CutExport | IncludedState

record promotion_diagnostic =
  pd_kind :: promotion_diagnostic_kind
  pd_message :: str
  pd_node_id :: "node_id option"
  pd_at_port_id :: "port_id option"
  pd_state_slot_id :: "state_slot_id option"

record promotion_candidate =
  pcd_schema :: str
  pcd_source_assembly :: artifact_descriptor
  pcd_selected_nodes :: "node_id list"
  pcd_nested_assembly :: artifact_descriptor
  pcd_boundary_ports :: "promoted_boundary_port list"
  pcd_state_slot_ids :: "state_slot_id list"
  pcd_diagnostics :: "promotion_diagnostic list"

record promotion_output =
  po_candidate :: promotion_candidate
  po_candidate_artifact :: canonical_artifact_object
  po_nested_assembly :: assembly_revision
  po_nested_assembly_artifact :: canonical_artifact_object

definition boundary_port_value :: "promoted_boundary_port \<Rightarrow> json" where
  "boundary_port_value b = jobj
     (jfield ''port_id'' (JStr (bp_port_id b))
      @ jfield ''direction'' (direction_value (bp_direction b))
      @ jfield ''target'' (port_endpoint_value (bp_target b))
      @ jfield ''descriptor'' (port_descriptor_value (bp_descriptor b))
      @ jopt ''source_binding_id'' JStr (bp_source_binding_id b)
      @ jopt ''external_endpoint'' port_endpoint_value (bp_external_endpoint b)
      @ jopt ''phase'' phase_value (bp_phase b))"

fun diagnostic_kind_value :: "promotion_diagnostic_kind \<Rightarrow> json" where
  "diagnostic_kind_value ExistingBoundary = JStr ''existing_boundary''"
| "diagnostic_kind_value CutImport = JStr ''cut_import''"
| "diagnostic_kind_value CutExport = JStr ''cut_export''"
| "diagnostic_kind_value IncludedState = JStr ''included_state''"

definition promotion_diagnostic_value :: "promotion_diagnostic \<Rightarrow> json" where
  "promotion_diagnostic_value d = jobj
     (jfield ''kind'' (diagnostic_kind_value (pd_kind d))
      @ jfield ''message'' (JStr (pd_message d))
      @ jopt ''node_id'' JStr (pd_node_id d)
      @ jopt ''port_id'' JStr (pd_at_port_id d)
      @ jopt ''state_slot_id'' JStr (pd_state_slot_id d))"

definition promotion_candidate_value :: "promotion_candidate \<Rightarrow> json" where
  "promotion_candidate_value c = jobj
     (jfield ''schema'' (JStr (pcd_schema c))
      @ jfield ''source_assembly'' (artifact_descriptor_value (pcd_source_assembly c))
      @ jfield ''selected_nodes'' (jarr JStr (pcd_selected_nodes c))
      @ jfield ''nested_assembly'' (artifact_descriptor_value (pcd_nested_assembly c))
      @ jvec ''boundary_ports'' boundary_port_value (pcd_boundary_ports c)
      @ jvec ''state_slot_ids'' JStr (pcd_state_slot_ids c)
      @ jvec ''diagnostics'' promotion_diagnostic_value (pcd_diagnostics c))"

section \<open>Validation of a candidate\<close>

text \<open>\<open>values.windows(2).all(|pair| pair[0] < pair[1])\<close>.\<close>

definition is_sorted_unique_by :: "('a \<Rightarrow> 'k::linorder) \<Rightarrow> 'a list \<Rightarrow> bool" where
  "is_sorted_unique_by f xs = list_all (\<lambda>(x, y). f x < f y) (zip xs (tl xs))"

definition boundary_port_check :: "ext \<Rightarrow> promoted_boundary_port \<Rightarrow> unit model_result" where
  "boundary_port_check E b = all_ok
     [validate_port_descriptor E (bp_descriptor b),
      ensure (bp_port_id b = pd_port_id (bp_descriptor b)) PortIncompatible,
      (case bp_source_binding_id b of None \<Rightarrow> Inr () | Some i \<Rightarrow> validate_local_id i)]"

definition promotion_candidate_validate :: "ext \<Rightarrow> promotion_candidate \<Rightarrow> unit model_result" where
  "promotion_candidate_validate E c = all_ok
     [ensure (pcd_schema c = PROMOTION_CANDIDATE_SCHEMA \<and> pcd_selected_nodes c \<noteq> []) WorkInvalid,
      validate_descriptor_type E (pcd_source_assembly c) ASSEMBLY_REVISION_TYPE_URI,
      validate_descriptor_type E (pcd_nested_assembly c) ASSEMBLY_REVISION_TYPE_URI,
      ensure (is_sorted_unique_by id (pcd_selected_nodes c) \<and> is_sorted_unique_by id (pcd_state_slot_ids c)
        \<and> is_sorted_unique_by bp_port_id (pcd_boundary_ports c)) WorkInvalid,
      each (boundary_port_check E) (pcd_boundary_ports c),
      validate_portable_value E (promotion_candidate_value c)]"

definition promotion_referenced_artifacts :: "promotion_candidate \<Rightarrow> artifact_descriptor list" where
  "promotion_referenced_artifacts c = [pcd_source_assembly c, pcd_nested_assembly c]"

section \<open>Port catalogs of nested assemblies\<close>

type_synonym 'a promotion_result = "model_error option + 'a"

type_synonym catalog_cache = "(str, port_catalog) btree_map"

definition fallible :: "'a model_result \<Rightarrow> 'a promotion_result" where
  "fallible r = (case r of Inl e \<Rightarrow> Inl (Some e) | Inr x \<Rightarrow> Inr x)"

definition descriptor_with_port_id :: "port_descriptor \<Rightarrow> port_id \<Rightarrow> port_descriptor" where
  "descriptor_with_port_id d p = d\<lparr>pd_port_id := p\<rparr>"

definition insert_new :: "port_endpoint \<Rightarrow> port_descriptor \<Rightarrow> port_catalog \<Rightarrow> port_catalog promotion_result" where
  "insert_new endpoint d catalog =
     (if bt_get catalog endpoint \<noteq> None then Inl (Some (Err WorkInvalid)) else Inr (bt_insert endpoint d catalog))"

definition catalog_exposure :: "node_id \<Rightarrow> port_catalog \<Rightarrow> assembly_port_exposure \<Rightarrow> port_catalog
    \<Rightarrow> port_catalog promotion_result" where
  "catalog_exposure node_id child_catalog x catalog =
     and_then (ok_or (bt_get child_catalog (ax_target x)) (Some (Err PortUnresolved))) (\<lambda>d.
       insert_new (PortEndpoint node_id (ax_port_id x)) (descriptor_with_port_id d (ax_port_id x)) catalog)"

definition catalog_node :: "assembly_map \<Rightarrow> (str \<Rightarrow> catalog_cache \<Rightarrow> (port_catalog \<times> catalog_cache) promotion_result)
    \<Rightarrow> assembly_node \<Rightarrow> port_catalog \<times> catalog_cache \<Rightarrow> (port_catalog \<times> catalog_cache) promotion_result" where
  "catalog_node assemblies nested n = (\<lambda>(catalog, cache).
     (case an_source n of
        Component _ \<Rightarrow>
          and_then (foldM (\<lambda>p. insert_new (PortEndpoint (an_node_id n) (pd_port_id p)) p) (an_ports n) catalog)
            (\<lambda>catalog'. Inr (catalog', cache))
      | Assembly a \<Rightarrow>
          and_then (nested (ad_digest a) cache) (\<lambda>(child_catalog, cache').
          and_then (ok_or (bt_get assemblies (ad_digest a)) (Some (Err ArtifactMissing))) (\<lambda>child.
          and_then (foldM (catalog_exposure (an_node_id n) child_catalog) (ar_exposed_ports child) catalog)
            (\<lambda>catalog'. Inr (catalog', cache'))))))"

primrec local_port_catalog :: "ext \<Rightarrow> assembly_map \<Rightarrow> nat \<Rightarrow> str \<Rightarrow> catalog_cache
    \<Rightarrow> (port_catalog \<times> catalog_cache) promotion_result" where
  "local_port_catalog E assemblies 0 = (\<lambda>_ _. Inl None)"
| "local_port_catalog E assemblies (Suc fuel) = (\<lambda>digest cache.
     (case bt_get cache digest of
        Some catalog \<Rightarrow> Inr (catalog, cache)
      | None \<Rightarrow>
          and_then (ok_or (bt_get assemblies digest) (Some (Err ArtifactMissing))) (\<lambda>value.
          and_then (foldM (catalog_node assemblies (local_port_catalog E assemblies fuel)) (ar_nodes value) ([], cache))
            (\<lambda>(catalog, cache').
          and_then (fallible (validate_ports E value catalog)) (\<lambda>_.
            Inr (catalog, bt_insert digest catalog cache'))))))"

section \<open>Promotion\<close>

text \<open>The local variables of the boundary loops.\<close>

record boundary_state =
  bs_exposed_ports :: "assembly_port_exposure list"
  bs_boundary_ports :: "promoted_boundary_port list"
  bs_diagnostics :: "promotion_diagnostic list"
  bs_boundary_ids :: "port_id set"

definition start_boundary :: boundary_state where
  "start_boundary = \<lparr>bs_exposed_ports = [], bs_boundary_ports = [], bs_diagnostics = [], bs_boundary_ids = {}\<rparr>"

definition boundary_diagnostic :: "promotion_diagnostic_kind \<Rightarrow> str \<Rightarrow> port_endpoint \<Rightarrow> port_id \<Rightarrow> promotion_diagnostic" where
  "boundary_diagnostic kind message target port_id = \<lparr>pd_kind = kind, pd_message = message,
     pd_node_id = Some (ep_node_id target), pd_at_port_id = Some port_id, pd_state_slot_id = None\<rparr>"

definition add_boundary :: "assembly_port_exposure \<Rightarrow> promoted_boundary_port \<Rightarrow> promotion_diagnostic
    \<Rightarrow> boundary_state \<Rightarrow> boundary_state" where
  "add_boundary x b d st = st\<lparr>bs_exposed_ports := bs_exposed_ports st @ [x],
     bs_boundary_ports := bs_boundary_ports st @ [b], bs_diagnostics := bs_diagnostics st @ [d],
     bs_boundary_ids := insert (ax_port_id x) (bs_boundary_ids st)\<rparr>"

definition keep_exposure :: "port_catalog \<Rightarrow> assembly_port_exposure \<Rightarrow> boundary_state \<Rightarrow> boundary_state promotion_result" where
  "keep_exposure catalog x st =
     and_then (ok_or (bt_get catalog (ax_target x)) (Some (Err PortUnresolved))) (\<lambda>d.
       if ax_port_id x \<in> bs_boundary_ids st then Inl (Some (Err BindingAmbiguous))
       else Inr (add_boundary x
         \<lparr>bp_port_id = ax_port_id x, bp_direction = ax_direction x, bp_target = ax_target x,
          bp_descriptor = descriptor_with_port_id d (ax_port_id x), bp_source_binding_id = None,
          bp_external_endpoint = None, bp_phase = None\<rparr>
         (boundary_diagnostic ExistingBoundary
            ''existing Assembly boundary is preserved by the promotion candidate'' (ax_target x) (ax_port_id x)) st))"

text \<open>The endpoint of a cut binding inside the selection, the one outside, and its direction.\<close>

definition cut_side :: "node_id set \<Rightarrow> assembly_binding \<Rightarrow> (port_direction \<times> port_endpoint \<times> port_endpoint) option" where
  "cut_side selected b =
     (case (ep_node_id (ab_provider b) \<in> selected, ep_node_id (ab_consumer b) \<in> selected) of
        (True, False) \<Rightarrow> Some (Export_Direction, ab_provider b, ab_consumer b)
      | (False, True) \<Rightarrow> Some (Import_Direction, ab_consumer b, ab_provider b)
      | _ \<Rightarrow> None)"

definition cut_exposure :: "port_id \<Rightarrow> port_direction \<Rightarrow> port_endpoint \<Rightarrow> assembly_binding \<Rightarrow> assembly_port_exposure" where
  "cut_exposure port_id direction target b = \<lparr>ax_port_id = port_id, ax_direction = direction, ax_target = target,
     ax_annotations = [(''plurora.promotion/source_binding'', JStr (ab_binding_id b))]\<rparr>"

definition cut_diagnostic :: "port_direction \<Rightarrow> port_endpoint \<Rightarrow> port_id \<Rightarrow> promotion_diagnostic" where
  "cut_diagnostic direction target port_id =
     (case direction of
        Export_Direction \<Rightarrow> boundary_diagnostic CutExport
          ''outgoing binding is promoted to an explicit export boundary'' target port_id
      | Import_Direction \<Rightarrow> boundary_diagnostic CutImport
          ''incoming binding is promoted to an explicit import boundary'' target port_id)"

definition cut_binding :: "node_id set \<Rightarrow> port_catalog \<Rightarrow> assembly_binding \<Rightarrow> boundary_state
    \<Rightarrow> boundary_state promotion_result" where
  "cut_binding selected catalog b st =
     (case cut_side selected b of
        None \<Rightarrow> Inr st
      | Some (direction, target, external) \<Rightarrow>
          and_then (fallible (parse_local_id (ab_binding_id b))) (\<lambda>port_id.
          if port_id \<in> bs_boundary_ids st then Inl (Some (Err BindingAmbiguous))
          else and_then (ok_or (bt_get catalog target) (Some (Err PortUnresolved))) (\<lambda>d.
            Inr (add_boundary (cut_exposure port_id direction target b)
              \<lparr>bp_port_id = port_id, bp_direction = direction, bp_target = target,
               bp_descriptor = descriptor_with_port_id d port_id, bp_source_binding_id = Some (ab_binding_id b),
               bp_external_endpoint = Some external, bp_phase = Some (ab_phase b)\<rparr>
              (cut_diagnostic direction target port_id) st))))"

definition state_diagnostic :: "state_slot_descriptor \<Rightarrow> promotion_diagnostic" where
  "state_diagnostic s = \<lparr>pd_kind = IncludedState,
     pd_message = ''state owned by the selected subgraph is included in the candidate'',
     pd_node_id = Some (ss_owner_node_id s), pd_at_port_id = map_option ep_port_id (ss_migration_port s),
     pd_state_slot_id = Some (ss_state_slot_id s)\<rparr>"

definition check_slot_inside :: "node_id set \<Rightarrow> state_slot_descriptor \<Rightarrow> unit promotion_result" where
  "check_slot_inside selected s =
     (case ss_migration_port s of
        None \<Rightarrow> Inr ()
      | Some endpoint \<Rightarrow> if ep_node_id endpoint \<in> selected then Inr () else Inl (Some (Err StateMigrationRequired)))"

definition nested_revision :: "assembly_id \<Rightarrow> str \<Rightarrow> assembly_revision \<Rightarrow> node_id set \<Rightarrow> assembly_port_exposure list
    \<Rightarrow> assembly_revision" where
  "nested_revision assembly_id source_digest source selected exposed = \<lparr>ar_schema = ASSEMBLY_REVISION_SCHEMA,
     ar_assembly_id = assembly_id,
     ar_nodes = filter (\<lambda>n. an_node_id n \<in> selected) (ar_nodes source),
     ar_bindings = filter (\<lambda>b. ep_node_id (ab_provider b) \<in> selected \<and> ep_node_id (ab_consumer b) \<in> selected)
       (ar_bindings source),
     ar_exposed_ports = sort_key ax_port_id exposed,
     ar_state_slots = filter (\<lambda>s. ss_owner_node_id s \<in> selected) (ar_state_slots source),
     ar_annotations = [(''plurora.promotion/source_assembly'', JStr source_digest)]\<rparr>"

abbreviation assembly_artifact :: "ext \<Rightarrow> assembly_revision \<Rightarrow> canonical_artifact_object model_result" where
  "assembly_artifact E \<equiv> canonical_artifact_object_from_model E (assembly_validate E) assembly_revision_value
     ASSEMBLY_REVISION_TYPE_URI assembly_referenced_artifacts no_annotations"

abbreviation candidate_artifact :: "ext \<Rightarrow> promotion_candidate \<Rightarrow> canonical_artifact_object model_result" where
  "candidate_artifact E \<equiv> canonical_artifact_object_from_model E (promotion_candidate_validate E) promotion_candidate_value
     ASSEMBLY_PROMOTION_CANDIDATE_TYPE_URI promotion_referenced_artifacts no_annotations"

text \<open>The checks of the arguments, up to the sorted selection.\<close>

definition promotion_source :: "ext \<Rightarrow> artifact_descriptor \<Rightarrow> assembly_map \<Rightarrow> node_id list
    \<Rightarrow> (assembly_revision \<times> node_id list) model_result" where
  "promotion_source E source_assembly assemblies selected_nodes =
     and_then (validate_descriptor_type E source_assembly ASSEMBLY_REVISION_TYPE_URI) (\<lambda>_.
     and_then (validate_assembly_closure E source_assembly assemblies) (\<lambda>_.
     and_then (ok_or (bt_get assemblies (ad_digest source_assembly)) (Err ArtifactMissing)) (\<lambda>source.
     and_then (assembly_descriptor E source) (\<lambda>d.
     and_then (ensure (d = source_assembly) ArtifactDigestMismatch) (\<lambda>_.
     and_then (ensure (selected_nodes \<noteq> []) WorkInvalid) (\<lambda>_.
     let selected = sort_key id selected_nodes in
     and_then (ensure (\<not> list_ex (\<lambda>(x, y). x = y) (zip selected (tl selected))) WorkInvalid) (\<lambda>_.
     and_then (ensure (\<not> list_ex (\<lambda>n. n \<notin> node_ids source) selected) PortUnresolved) (\<lambda>_.
       Inr (source, selected)))))))))"

definition promote_selection :: "ext \<Rightarrow> artifact_descriptor \<Rightarrow> assembly_revision \<Rightarrow> node_id list \<Rightarrow> port_catalog
    \<Rightarrow> assembly_id \<Rightarrow> promotion_output promotion_result" where
  "promote_selection E source_assembly source selected catalog assembly_id =
     (let chosen = set selected;
          selected_catalog = filter (\<lambda>(endpoint, _). ep_node_id endpoint \<in> chosen) catalog;
          slots = filter (\<lambda>s. ss_owner_node_id s \<in> chosen) (ar_state_slots source) in
      and_then (foldM (keep_exposure catalog)
          (filter (\<lambda>x. ep_node_id (ax_target x) \<in> chosen) (ar_exposed_ports source)) start_boundary) (\<lambda>st1.
      and_then (foldM (cut_binding chosen catalog) (ar_bindings source) st1) (\<lambda>st.
      and_then (each (check_slot_inside chosen) slots) (\<lambda>_.
      let nested = nested_revision assembly_id (ad_digest source_assembly) source chosen (bs_exposed_ports st) in
      and_then (fallible (validate_ports E nested selected_catalog)) (\<lambda>_.
      and_then (fallible (assembly_artifact E nested)) (\<lambda>artifact.
      let candidate = \<lparr>pcd_schema = PROMOTION_CANDIDATE_SCHEMA, pcd_source_assembly = source_assembly,
        pcd_selected_nodes = selected, pcd_nested_assembly = cao_descriptor artifact,
        pcd_boundary_ports = sort_key bp_port_id (bs_boundary_ports st),
        pcd_state_slot_ids = sort_key id (map ss_state_slot_id slots),
        pcd_diagnostics = bs_diagnostics st @ map state_diagnostic slots\<rparr> in
      and_then (fallible (promotion_candidate_validate E candidate)) (\<lambda>_.
      and_then (fallible (candidate_artifact E candidate)) (\<lambda>candidate_artifact.
        Inr \<lparr>po_candidate = candidate, po_candidate_artifact = candidate_artifact,
             po_nested_assembly = nested, po_nested_assembly_artifact = artifact\<rparr>))))))))"

definition promote_assembly_subgraph :: "ext \<Rightarrow> artifact_descriptor \<Rightarrow> assembly_map \<Rightarrow> node_id list \<Rightarrow> assembly_id
    \<Rightarrow> promotion_output promotion_result" where
  "promote_assembly_subgraph E source_assembly assemblies selected_nodes assembly_id =
     and_then (fallible (promotion_source E source_assembly assemblies selected_nodes)) (\<lambda>(source, selected).
     and_then (local_port_catalog E assemblies MAX_ASSEMBLY_DEPTH (ad_digest source_assembly) []) (\<lambda>(catalog, _).
       promote_selection E source_assembly source selected catalog assembly_id))"

section \<open>Termination\<close>

lemma fallible_ends [simp]: "fallible r \<noteq> Inl None"
  by (simp add: fallible_def split: sum.splits)

lemma fallible_Inr [simp]: "fallible r = Inr x \<longleftrightarrow> r = Inr x"
  by (simp add: fallible_def split: sum.splits)

lemma insert_new_ends [simp]: "insert_new ep d catalog \<noteq> Inl None"
  by (simp add: insert_new_def)

lemma ok_or_ends [simp]: "ok_or x (Some e) \<noteq> Inl None"
  by (simp add: ok_or_def split: option.splits)

lemma foldM_ends: "(\<And>x a. x \<in> set xs \<Longrightarrow> f x a \<noteq> Inl None) \<Longrightarrow> foldM f xs s \<noteq> Inl None"
  by (rule foldM_no_fault [where I = "\<lambda>_. True"]) simp_all

lemma each_ends: "(\<And>x. x \<in> set xs \<Longrightarrow> f x \<noteq> Inl None) \<Longrightarrow> each f xs \<noteq> Inl None"
  by (auto dest!: each_Inl)

lemma catalog_exposure_ends [simp]: "catalog_exposure nid child x catalog \<noteq> Inl None"
  by (simp add: catalog_exposure_def and_then_Inl)

lemma catalog_node_ends:
  assumes "\<And>a cache. an_source n = Assembly a \<Longrightarrow> nested (ad_digest a) cache \<noteq> Inl None"
  shows "catalog_node A nested n st \<noteq> Inl None"
  using assms
  by (auto simp: catalog_node_def and_then_Inl foldM_ends split: assembly_node_source.splits prod.splits)

lemma nests_node:
  "bt_get A d = Some value \<Longrightarrow> n \<in> set (ar_nodes value) \<Longrightarrow> an_source n = Assembly a \<Longrightarrow> nests A d (ad_digest a)"
  by (force simp: nests_def nested_digests_def)

lemma local_port_catalog_ends:
  assumes "\<And>p. nest_path A d p \<Longrightarrow> length p \<le> fuel"
  shows "local_port_catalog E A fuel d cache \<noteq> Inl None"
  using assms
proof (induction fuel arbitrary: d cache)
  case 0
  then show ?case using nest_path.stop [of A d] by fastforce
next
  case (Suc fuel)
  have nodes: "catalog_node A (local_port_catalog E A fuel) n st \<noteq> Inl None"
    if "bt_get A d = Some parent" "n \<in> set (ar_nodes parent)" for parent n st
  proof (rule catalog_node_ends)
    fix a c assume "an_source n = Assembly a"
    then have "nests A d (ad_digest a)" using nests_node that by blast
    then have "length p \<le> fuel" if "nest_path A (ad_digest a) p" for p
      using Suc.prems [OF nest_path.step] that by fastforce
    then show "local_port_catalog E A fuel (ad_digest a) c \<noteq> Inl None" by (rule Suc.IH)
  qed
  have loop: "foldM (catalog_node A (local_port_catalog E A fuel)) (ar_nodes parent) st \<noteq> Inl None"
    if "bt_get A d = Some parent" for parent st
    using nodes that by (intro foldM_ends) blast
  show ?case by (auto simp: and_then_Inl ok_or_Inr loop split: option.splits prod.splits)
qed

lemma promote_selection_ends: "promote_selection E src value selected catalog aid \<noteq> Inl None"
proof -
  have "foldM (keep_exposure catalog) xs st \<noteq> Inl None" for xs st
    by (rule foldM_ends) (simp add: keep_exposure_def and_then_Inl)
  moreover have "foldM (cut_binding chosen catalog) bs st \<noteq> Inl None" for chosen bs st
    by (rule foldM_ends) (auto simp: cut_binding_def and_then_Inl split: option.splits prod.splits)
  moreover have "each (check_slot_inside chosen) slots \<noteq> Inl None" for chosen slots
    by (rule each_ends) (simp add: check_slot_inside_def split: option.splits)
  ultimately show ?thesis by (simp add: promote_selection_def Let_def and_then_Inl)
qed

lemma promotion_source_Inr:
  assumes "promotion_source E src A sel = Inr (source, selected)"
  shows "validate_assembly_closure E src A = Inr ()" and "bt_get A (ad_digest src) = Some source"
    and "selected = sort_key id sel" and "set sel \<subseteq> node_ids source" and "assembly_descriptor E source = Inr src"
  using assms
  by (auto simp: promotion_source_def Let_def and_then_Inr ok_or_Inr ensure_Inr list_ex_iff)

section \<open>The boundary of the selection\<close>

text \<open>The ports the cut bindings become, in the order of the bindings.\<close>

definition cut_exposures :: "node_id set \<Rightarrow> assembly_binding list \<Rightarrow> assembly_port_exposure list" where
  "cut_exposures selected bs = concat (map (\<lambda>b. case cut_side selected b of
     None \<Rightarrow> [] | Some (direction, target, _) \<Rightarrow> [cut_exposure (ab_binding_id b) direction target b]) bs)"

definition exposed_as :: "assembly_port_exposure \<Rightarrow> port_id \<times> port_direction \<times> port_endpoint" where
  "exposed_as x = (ax_port_id x, ax_direction x, ax_target x)"

definition bounded_as :: "promoted_boundary_port \<Rightarrow> port_id \<times> port_direction \<times> port_endpoint" where
  "bounded_as b = (bp_port_id b, bp_direction b, bp_target b)"

text \<open>The state of the loops after the exposures \<open>xs\<close>.\<close>

definition boundary_inv :: "assembly_port_exposure list \<Rightarrow> boundary_state \<Rightarrow> bool" where
  "boundary_inv xs st \<longleftrightarrow> bs_exposed_ports st = xs \<and> bs_boundary_ids st = ax_port_id ` set xs
     \<and> distinct (map ax_port_id xs) \<and> map bounded_as (bs_boundary_ports st) = map exposed_as xs"

lemma add_boundary_inv:
  assumes "boundary_inv xs st" and "ax_port_id x \<notin> bs_boundary_ids st" and "bounded_as b = exposed_as x"
  shows "boundary_inv (xs @ [x]) (add_boundary x b d st)"
  using assms by (auto simp: boundary_inv_def add_boundary_def)

lemma keep_loop_inv:
  assumes "foldM (keep_exposure catalog) xs start_boundary = Inr st"
  shows "boundary_inv xs st"
proof (rule foldM_prefix_inv [OF assms])
  show "boundary_inv [] start_boundary" by (simp add: boundary_inv_def start_boundary_def)
next
  fix ys x zs a b
  assume "boundary_inv ys a" and "keep_exposure catalog x a = Inr b"
  then show "boundary_inv (ys @ [x]) b"
    by (auto simp: keep_exposure_def and_then_Inr bounded_as_def exposed_as_def split: if_splits intro!: add_boundary_inv)
qed

lemma parse_local_id_Inr: "parse_local_id s = Inr t \<Longrightarrow> t = s"
  by (auto simp: parse_local_id_def and_then_Inr)

lemma cut_loop_inv:
  assumes "foldM (cut_binding chosen catalog) bs st0 = Inr st" and "boundary_inv xs st0"
  shows "boundary_inv (xs @ cut_exposures chosen bs) st"
proof (rule foldM_prefix_inv [OF assms(1)])
  show "boundary_inv (xs @ cut_exposures chosen []) st0" using assms(2) by (simp add: cut_exposures_def)
next
  fix ys b zs s t
  assume inv: "boundary_inv (xs @ cut_exposures chosen ys) s" and cut: "cut_binding chosen catalog b s = Inr t"
  show "boundary_inv (xs @ cut_exposures chosen (ys @ [b])) t"
  proof (cases "cut_side chosen b")
    case None
    then show ?thesis using inv cut by (simp add: cut_binding_def cut_exposures_def)
  next
    case (Some side)
    obtain direction target external where side: "side = (direction, target, external)" by (cases side)
    have "cut_exposures chosen (ys @ [b]) = cut_exposures chosen ys @ [cut_exposure (ab_binding_id b) direction target b]"
      by (simp add: cut_exposures_def Some side)
    moreover have "boundary_inv ((xs @ cut_exposures chosen ys) @ [cut_exposure (ab_binding_id b) direction target b]) t"
      using inv cut
      by (auto simp: cut_binding_def Some side and_then_Inr bounded_as_def exposed_as_def cut_exposure_def
          simp del: append_assoc split: if_splits dest!: parse_local_id_Inr intro!: add_boundary_inv)
    ultimately show ?thesis by simp
  qed
qed

lemma boundary_inv_sorted:
  assumes "boundary_inv xs st"
  shows "map bounded_as (sort_key bp_port_id (bs_boundary_ports st)) = map exposed_as (sort_key ax_port_id xs)"
proof -
  have "map bounded_as (sort_key bp_port_id (bs_boundary_ports st)) = sort_key fst (map bounded_as (bs_boundary_ports st))"
    by (simp add: sort_key_map bounded_as_def)
  also have "\<dots> = sort_key fst (map exposed_as xs)" using assms by (simp add: boundary_inv_def)
  also have "\<dots> = map exposed_as (sort_key ax_port_id xs)" by (simp add: sort_key_map exposed_as_def)
  finally show ?thesis .
qed

text \<open>What a run that succeeds went through.\<close>

lemma promote_selection_Inr:
  assumes "promote_selection E src source selected catalog aid = Inr out"
  shows "\<exists>st. boundary_inv (filter (\<lambda>x. ep_node_id (ax_target x) \<in> set selected) (ar_exposed_ports source)
        @ cut_exposures (set selected) (ar_bindings source)) st
    \<and> po_nested_assembly out = nested_revision aid (ad_digest src) source (set selected) (bs_exposed_ports st)
    \<and> pcd_boundary_ports (po_candidate out) = sort_key bp_port_id (bs_boundary_ports st)"
    and "each (check_slot_inside (set selected))
      (filter (\<lambda>s. ss_owner_node_id s \<in> set selected) (ar_state_slots source)) = Inr ()"
    and "validate_ports E (po_nested_assembly out)
      (filter (\<lambda>(endpoint, _). ep_node_id endpoint \<in> set selected) catalog) = Inr ()"
    and "assembly_artifact E (po_nested_assembly out) = Inr (po_nested_assembly_artifact out)"
    and "pcd_nested_assembly (po_candidate out) = cao_descriptor (po_nested_assembly_artifact out)"
    and "promotion_candidate_validate E (po_candidate out) = Inr ()"
  using assms
  by (auto simp: promote_selection_def Let_def and_then_Inr
      intro: cut_loop_inv [OF _ keep_loop_inv])

section \<open>A small instance\<close>

text \<open>Encodings that tell the source, the new assembly and the candidate apart.\<close>

definition promotion_ext :: ext where
  "promotion_ext = sample_ext\<lparr>
     json_to_vec := (\<lambda>j. case j of
         JObj fs \<Rightarrow> if map_of fs ''annotations'' \<noteq> None then ''1'' else if map_of fs ''nodes'' = None then ''2'' else ''0''
       | _ \<Rightarrow> ''3''),
     sha256_hex := (\<lambda>b. replicate 64 (if b = ''0'' then CHR ''a'' else if b = ''1'' then CHR ''d'' else CHR ''e''))\<rparr>"

definition promotion_ref :: artifact_descriptor where
  "promotion_ref = \<lparr>ad_artifact_type_uri = ASSEMBLY_REVISION_TYPE_URI, ad_media_type = ''application/json'',
     ad_digest = sample_digest CHR ''a'', ad_size_bytes = 1, ad_references = [sample_digest CHR ''b''],
     ad_annotations = []\<rparr>"

definition promotion_map :: assembly_map where
  "promotion_map = [(sample_digest CHR ''a'', sample_leaf)]"

definition promotion_nested :: assembly_revision where
  "promotion_nested = nested_revision ''x/part'' (sample_digest CHR ''a'') sample_leaf {''p''}
     [cut_exposure ''b1'' Export_Direction (PortEndpoint ''p'' ''out'') sample_binding]"

definition promotion_nested_ref :: artifact_descriptor where
  "promotion_nested_ref = promotion_ref\<lparr>ad_digest := sample_digest CHR ''d''\<rparr>"

definition promotion_sample :: promotion_candidate where
  "promotion_sample = \<lparr>pcd_schema = PROMOTION_CANDIDATE_SCHEMA, pcd_source_assembly = promotion_ref,
     pcd_selected_nodes = [''p''], pcd_nested_assembly = promotion_nested_ref,
     pcd_boundary_ports = [\<lparr>bp_port_id = ''b1'', bp_direction = Export_Direction,
       bp_target = PortEndpoint ''p'' ''out'', bp_descriptor = descriptor_with_port_id sample_export ''b1'',
       bp_source_binding_id = Some ''b1'', bp_external_endpoint = Some (PortEndpoint ''u'' ''in''),
       bp_phase = Some Authoring\<rparr>],
     pcd_state_slot_ids = [],
     pcd_diagnostics = [cut_diagnostic Export_Direction (PortEndpoint ''p'' ''out'') ''b1'']\<rparr>"

lemma leaf_valid: "assembly_validate promotion_ext sample_leaf = Inr ()"
  by code_simp

lemma leaf_descriptor: "assembly_descriptor promotion_ext sample_leaf = Inr promotion_ref"
  unfolding assembly_descriptor_def model_descriptor_def canonical_bytes_def leaf_valid by code_simp

lemma leaf_source:
  "promotion_source promotion_ext promotion_ref promotion_map [''p''] = Inr (sample_leaf, [''p''])"
proof -
  have "validate_descriptor_type promotion_ext promotion_ref ASSEMBLY_REVISION_TYPE_URI = Inr ()" by code_simp
  moreover have "validate_assembly_subtree (ad_digest promotion_ref) 1 promotion_map {} []
      = Inr (1, [(sample_digest CHR ''a'', 1)])" by code_simp
  moreover have "bt_get promotion_map (ad_digest promotion_ref) = Some sample_leaf" by code_simp
  moreover have "node_ids sample_leaf = {''p'', ''u''}" by (simp add: node_ids_def sample_leaf_def sample_component_def)
  ultimately show ?thesis
    by (simp add: promotion_source_def validate_assembly_closure_def leaf_valid leaf_descriptor promotion_map_def
        each_def all_ok.simps ensure_def ok_or_def promotion_ref_def)
qed

lemma leaf_catalog:
  "local_port_catalog promotion_ext promotion_map MAX_ASSEMBLY_DEPTH (sample_digest CHR ''a'') []
     = Inr (sample_catalog, [(sample_digest CHR ''a'', sample_catalog)])"
  by code_simp

lemma nested_valid: "assembly_validate promotion_ext promotion_nested = Inr ()"
  by code_simp

lemma nested_artifact:
  "assembly_artifact promotion_ext promotion_nested = Inr \<lparr>cao_descriptor = promotion_nested_ref, cao_bytes = ''1''\<rparr>"
proof -
  have bytes: "canonical_bytes promotion_ext (assembly_validate promotion_ext) assembly_revision_value promotion_nested
      = Inr ''1''" unfolding canonical_bytes_def nested_valid by code_simp
  show ?thesis unfolding canonical_artifact_object_from_model_def model_descriptor_def bytes by code_simp
qed

lemma nested_ports:
  "validate_ports promotion_ext promotion_nested [(PortEndpoint ''p'' ''out'', sample_export)] = Inr ()"
  unfolding validate_ports_def nested_valid by code_simp

lemma candidate_valid: "promotion_candidate_validate promotion_ext promotion_sample = Inr ()"
  by code_simp

lemma candidate_artifact_ok:
  "\<exists>ob. candidate_artifact promotion_ext promotion_sample = Inr ob"
proof -
  have bytes: "canonical_bytes promotion_ext (promotion_candidate_validate promotion_ext) promotion_candidate_value
      promotion_sample = Inr ''2''" unfolding canonical_bytes_def candidate_valid by code_simp
  have "is_ok (candidate_artifact promotion_ext promotion_sample)"
    unfolding canonical_artifact_object_from_model_def model_descriptor_def bytes by code_simp
  then show ?thesis by (simp add: is_ok_Inr)
qed

lemma promotion_run:
  "\<exists>out. promote_assembly_subgraph promotion_ext promotion_ref promotion_map [''p''] ''x/part'' = Inr out"
proof -
  have "foldM (cut_binding {''p''} sample_catalog) (ar_bindings sample_leaf) start_boundary
      = Inr \<lparr>bs_exposed_ports = [cut_exposure ''b1'' Export_Direction (PortEndpoint ''p'' ''out'') sample_binding],
          bs_boundary_ports = pcd_boundary_ports promotion_sample,
          bs_diagnostics = pcd_diagnostics promotion_sample, bs_boundary_ids = {''b1''}\<rparr>"
    by code_simp
  moreover have "filter (\<lambda>(endpoint, _). ep_node_id endpoint \<in> {''p''}) sample_catalog
      = [(PortEndpoint ''p'' ''out'', sample_export)]" by (simp add: sample_catalog_def)
  moreover have "ar_exposed_ports sample_leaf = []" "ar_state_slots sample_leaf = []"
    by (simp_all add: sample_leaf_def)
  moreover have "sort_key bp_port_id (pcd_boundary_ports promotion_sample) = pcd_boundary_ports promotion_sample"
    by (simp add: promotion_sample_def)
  moreover have digest: "ad_digest promotion_ref = sample_digest CHR ''a''" by (simp add: promotion_ref_def)
  moreover have "\<lparr>pcd_schema = PROMOTION_CANDIDATE_SCHEMA, pcd_source_assembly = promotion_ref,
      pcd_selected_nodes = [''p''], pcd_nested_assembly = promotion_nested_ref,
      pcd_boundary_ports = pcd_boundary_ports promotion_sample, pcd_state_slot_ids = [],
      pcd_diagnostics = pcd_diagnostics promotion_sample\<rparr> = promotion_sample"
    by (simp add: promotion_sample_def)
  ultimately have "\<exists>out. promote_selection promotion_ext promotion_ref sample_leaf [''p''] sample_catalog ''x/part'' = Inr out"
    using candidate_artifact_ok
    by (auto simp: promote_selection_def promotion_nested_def [symmetric] nested_ports nested_artifact candidate_valid
        fallible_def each_def all_ok.simps)
  then show ?thesis by (simp add: promote_assembly_subgraph_def leaf_source leaf_catalog digest fallible_def)
qed

section \<open>Properties\<close>

text \<open>Promotion always ends. The recursion over nested assemblies has no check for cycles of its
  own, but the closure check in front of it bounds every containment chain, so for any map of
  assemblies, also one with cycles or missing entries, the call returns a result or an error of the
  program before the depth of 32 is used up.\<close>

theorem promotion_terminates:
  assumes "bt_wf A"
  shows "promote_assembly_subgraph E src A sel aid \<noteq> Inl None"
proof -
  have "local_port_catalog E A MAX_ASSEMBLY_DEPTH (ad_digest src) [] \<noteq> Inl None"
    if "promotion_source E src A sel = Inr r" for r
  proof (rule local_port_catalog_ends)
    fix p assume "nest_path A (ad_digest src) p"
    moreover have "validate_assembly_closure E src A = Inr ()"
      using promotion_source_Inr(1) [of E src A sel "fst r" "snd r"] that by simp
    ultimately show "length p \<le> MAX_ASSEMBLY_DEPTH"
      using validate_assembly_closure_iff [OF assms] by (simp add: MAX_ASSEMBLY_DEPTH_def)
  qed
  then show ?thesis
    by (auto simp: promote_assembly_subgraph_def and_then_Inl promote_selection_ends split: prod.splits)
qed

theorem promotion_terminates_witness:
  "bt_wf [(sample_digest CHR ''c'', sample_root)]
   \<and> promote_assembly_subgraph sample_ext (sample_ref ASSEMBLY_REVISION_TYPE_URI CHR ''c'')
       [(sample_digest CHR ''c'', sample_root)] [''nested''] ''x/part'' \<noteq> Inl None"
proof -
  have "bt_wf [(sample_digest CHR ''c'', sample_root)]" by (simp add: bt_wf_def)
  then show ?thesis using promotion_terminates by blast
qed



end
