(* ===== verification/Rights.thy ===== *)
theory Rights
  imports State_Slots Assemblies
begin

text \<open>
  \<open>crates/plurora-work/src/rights.rs\<close>: rights and transparency declarations. A declaration is
  evidence for policy and never authority.
\<close>

section \<open>Data\<close>

definition RIGHTS_DECLARATION_TYPE_URI :: str where
  "RIGHTS_DECLARATION_TYPE_URI = ''urn:plurora:rights-declaration:v1''"

definition TRANSPARENCY_DECLARATION_TYPE_URI :: str where
  "TRANSPARENCY_DECLARATION_TYPE_URI = ''urn:plurora:transparency-declaration:v1''"

record protocol_requirement =
  pq_protocol_id :: str
  pq_version :: str
  pq_profiles :: "str list"

datatype right_disposition = Right_Allowed | Right_Denied | RequiresEntitlement | Unspecified

datatype rights_operation =
    Op_Install | Op_Execute | Op_Backup | Op_ExportState | Op_CopyAcrossHosts | Op_RedistributeArtifacts
  | Op_Modify | Op_Derive | Op_Modding | Op_DedicatedServer

record rights_declaration =
  rd_license_expression :: "str option"
  rd_terms_uri :: "str option"
  rd_install :: right_disposition
  rd_execute :: right_disposition
  rd_backup :: right_disposition
  rd_export_state :: right_disposition
  rd_copy_across_hosts :: right_disposition
  rd_redistribute_artifacts :: right_disposition
  rd_modify :: right_disposition
  rd_derive :: right_disposition
  rd_modding :: right_disposition
  rd_dedicated_server :: right_disposition
  rd_entitlement_requirements :: "protocol_requirement list"
  rd_evidence_refs :: "artifact_descriptor list"

datatype source_visibility = Open_Source | SourceAvailable | Closed_Source | Unknown_Source

datatype claim_status = Claimed | Verified | Refuted | Unknown_Claim

record transparency_declaration =
  td_source_visibility :: source_visibility
  td_source_refs :: "artifact_descriptor list"
  td_reproducible_build_claim :: claim_status
  td_sbom_refs :: "artifact_descriptor list"
  td_provenance_refs :: "artifact_descriptor list"
  td_signature_refs :: "artifact_descriptor list"
  td_telemetry_disclosures :: "str list"
  td_state_portability :: state_portability
  td_evidence_refs :: "artifact_descriptor list"

section \<open>Serialisation\<close>

definition protocol_requirement_value :: "protocol_requirement \<Rightarrow> json" where
  "protocol_requirement_value r = jobj
     (jfield ''protocol_id'' (JStr (pq_protocol_id r)) @ jfield ''version'' (JStr (pq_version r))
      @ jvec ''profiles'' JStr (pq_profiles r))"

fun right_disposition_value :: "right_disposition \<Rightarrow> json" where
  "right_disposition_value Right_Allowed = JStr ''allowed''"
| "right_disposition_value Right_Denied = JStr ''denied''"
| "right_disposition_value RequiresEntitlement = JStr ''requires_entitlement''"
| "right_disposition_value Unspecified = JStr ''unspecified''"

definition rights_declaration_value :: "rights_declaration \<Rightarrow> json" where
  "rights_declaration_value r = jobj
     (jopt ''license_expression'' JStr (rd_license_expression r) @ jopt ''terms_uri'' JStr (rd_terms_uri r)
      @ jfield ''install'' (right_disposition_value (rd_install r))
      @ jfield ''execute'' (right_disposition_value (rd_execute r))
      @ jfield ''backup'' (right_disposition_value (rd_backup r))
      @ jfield ''export_state'' (right_disposition_value (rd_export_state r))
      @ jfield ''copy_across_hosts'' (right_disposition_value (rd_copy_across_hosts r))
      @ jfield ''redistribute_artifacts'' (right_disposition_value (rd_redistribute_artifacts r))
      @ jfield ''modify'' (right_disposition_value (rd_modify r))
      @ jfield ''derive'' (right_disposition_value (rd_derive r))
      @ jfield ''modding'' (right_disposition_value (rd_modding r))
      @ jfield ''dedicated_server'' (right_disposition_value (rd_dedicated_server r))
      @ jvec ''entitlement_requirements'' protocol_requirement_value (rd_entitlement_requirements r)
      @ jvec ''evidence_refs'' artifact_descriptor_value (rd_evidence_refs r))"

fun source_visibility_value :: "source_visibility \<Rightarrow> json" where
  "source_visibility_value Open_Source = JStr ''open''"
| "source_visibility_value SourceAvailable = JStr ''source_available''"
| "source_visibility_value Closed_Source = JStr ''closed''"
| "source_visibility_value Unknown_Source = JStr ''unknown''"

fun claim_status_value :: "claim_status \<Rightarrow> json" where
  "claim_status_value Claimed = JStr ''claimed''"
| "claim_status_value Verified = JStr ''verified''"
| "claim_status_value Refuted = JStr ''refuted''"
| "claim_status_value Unknown_Claim = JStr ''unknown''"

definition transparency_value :: "transparency_declaration \<Rightarrow> json" where
  "transparency_value t = jobj
     (jfield ''source_visibility'' (source_visibility_value (td_source_visibility t))
      @ jvec ''source_refs'' artifact_descriptor_value (td_source_refs t)
      @ jfield ''reproducible_build_claim'' (claim_status_value (td_reproducible_build_claim t))
      @ jvec ''sbom_refs'' artifact_descriptor_value (td_sbom_refs t)
      @ jvec ''provenance_refs'' artifact_descriptor_value (td_provenance_refs t)
      @ jvec ''signature_refs'' artifact_descriptor_value (td_signature_refs t)
      @ jvec ''telemetry_disclosures'' JStr (td_telemetry_disclosures t)
      @ jfield ''state_portability'' (state_portability_value (td_state_portability t))
      @ jvec ''evidence_refs'' artifact_descriptor_value (td_evidence_refs t))"

section \<open>Operations\<close>

definition protocol_requirement_validate :: "ext \<Rightarrow> protocol_requirement \<Rightarrow> unit model_result" where
  "protocol_requirement_validate E r = all_ok
     [ensure (\<not> (blank (pq_protocol_id r) \<or> any_whitespace (pq_protocol_id r)
                \<or> \<not> version_req_parses E (pq_version r))) WorkInvalid,
      ensure (\<not> (card (set (pq_profiles r)) \<noteq> length (pq_profiles r) \<or> list_ex blank (pq_profiles r))) WorkInvalid]"

definition validate_unique_artifacts :: "ext \<Rightarrow> artifact_descriptor list \<Rightarrow> unit model_result" where
  "validate_unique_artifacts E refs =
     unique_loop (validate_artifact_descriptor E) ad_digest (Err WorkInvalid) no_check {} refs"

definition blank_option :: "str option \<Rightarrow> bool" where
  "blank_option x = (case x of None \<Rightarrow> False | Some value \<Rightarrow> blank value)"

definition rights_validate :: "ext \<Rightarrow> rights_declaration \<Rightarrow> unit model_result" where
  "rights_validate E r = all_ok
     [ensure (\<not> (blank_option (rd_license_expression r) \<or> blank_option (rd_terms_uri r))) WorkInvalid,
      each (protocol_requirement_validate E) (rd_entitlement_requirements r),
      validate_unique_artifacts E (rd_evidence_refs r),
      validate_portable_value E (rights_declaration_value r)]"

fun disposition :: "rights_declaration \<Rightarrow> rights_operation \<Rightarrow> right_disposition" where
  "disposition r Op_Install = rd_install r"
| "disposition r Op_Execute = rd_execute r"
| "disposition r Op_Backup = rd_backup r"
| "disposition r Op_ExportState = rd_export_state r"
| "disposition r Op_CopyAcrossHosts = rd_copy_across_hosts r"
| "disposition r Op_RedistributeArtifacts = rd_redistribute_artifacts r"
| "disposition r Op_Modify = rd_modify r"
| "disposition r Op_Derive = rd_derive r"
| "disposition r Op_Modding = rd_modding r"
| "disposition r Op_DedicatedServer = rd_dedicated_server r"

definition all_references :: "transparency_declaration \<Rightarrow> artifact_descriptor list" where
  "all_references t = td_source_refs t @ td_sbom_refs t @ td_provenance_refs t @ td_signature_refs t
     @ td_evidence_refs t"

definition transparency_validate :: "ext \<Rightarrow> transparency_declaration \<Rightarrow> unit model_result" where
  "transparency_validate E t = all_ok
     [validate_unique_artifacts E (all_references t),
      ensure (\<not> list_ex blank (td_telemetry_disclosures t)) WorkInvalid,
      validate_portable_value E (transparency_value t)]"

section \<open>Artifact models\<close>

lemma unique_artifacts_Inr [res_simps]:
  "validate_unique_artifacts E refs = Inr u \<longleftrightarrow>
     distinct (map ad_digest refs) \<and> (\<forall>r\<in>set refs. validate_artifact_descriptor E r = Inr ())"
  by (auto simp: validate_unique_artifacts_def unique_loop_Inr)

lemma rights_type_uris_present:
  "\<not> blank RIGHTS_DECLARATION_TYPE_URI" "\<not> blank TRANSPARENCY_DECLARATION_TYPE_URI"
  by code_simp+

interpretation rights_artifacts: artifact_model E "rights_validate E" rights_declaration_value
    RIGHTS_DECLARATION_TYPE_URI rd_evidence_refs no_annotations
  for E
  by unfold_locales
     (auto simp: rights_type_uris_present no_annotations_def validate_portable_value_def each_def
        rights_validate_def all_ok_Inr unique_artifacts_Inr)

interpretation transparency_artifacts: artifact_model E "transparency_validate E" transparency_value
    TRANSPARENCY_DECLARATION_TYPE_URI all_references no_annotations
  for E
  by unfold_locales
     (auto simp: rights_type_uris_present no_annotations_def validate_portable_value_def each_def
        transparency_validate_def all_ok_Inr unique_artifacts_Inr)

end
