(* ===== verification/Operational.thy ===== *)
theory Operational
  imports Assemblies
begin

text \<open>
  \<open>crates/plurora-work/src/operational.rs\<close>: what a work asks of its targets
  (\<open>OperationalIntent\<close>) and what a target offers (\<open>TargetInventorySnapshot\<close>), with their
  validation. A \<open>DateTime<Utc>\<close> is an instant, an integer, rendered by \<open>rfc3339\<close>.
\<close>

section \<open>Data\<close>

definition OPERATIONAL_INTENT_TYPE_URI :: str where
  "OPERATIONAL_INTENT_TYPE_URI = ''urn:plurora:operational-intent:v1''"

definition TARGET_INVENTORY_TYPE_URI :: str where
  "TARGET_INVENTORY_TYPE_URI = ''urn:plurora:target-inventory:v1''"

definition OPERATIONAL_INTENT_SCHEMA :: str where
  "OPERATIONAL_INTENT_SCHEMA = ''plurora.operational-intent.v1''"

type_synonym instant = int

record resource_requirements =
  rr_cpu_millis :: "u64 option"
  rr_memory_bytes :: "u64 option"
  rr_storage_bytes :: "u64 option"
  rr_gpu_count :: "u32 option"
  rr_duration_seconds :: "u64 option"
  rr_max_concurrency :: "u32 option"

datatype access_mode = ReadOnly | ReadWrite | AppendOnly

record network_import =
  nw_import_id :: str
  nw_protocol :: str
  nw_allowed_destinations :: "str list"

record filesystem_import =
  fs_import_id :: str
  fs_resource_id :: str
  fs_access :: access_mode

record secret_import =
  si_secret_id :: str
  si_required :: bool

record workload_imports =
  wi_network :: "network_import list"
  wi_filesystem :: "filesystem_import list"
  wi_secret_imports :: "secret_import list"

datatype restart_policy = Never | OnFailure | Always

record replica_policy =
  rl_min :: u16
  rl_max :: u16

record workload_intent =
  wl_workload_id :: str
  wl_node_id :: node_id
  wl_execution_classes :: "str list"
  wl_resources :: resource_requirements
  wl_imports :: workload_imports
  wl_replicas :: replica_policy
  wl_restart_policy :: restart_policy
  wl_health_port :: "port_endpoint option"
  wl_annotations :: "(str, json) btree_map"

datatype endpoint_visibility = Private_Endpoint | Shared_Endpoint | Public_Endpoint

record endpoint_intent =
  en_endpoint_id :: str
  en_port :: port_endpoint
  en_visibility :: endpoint_visibility
  en_protocol_hint :: "str option"
  en_annotations :: "(str, json) btree_map"

datatype state_durability = Ephemeral | Durable | External_State

record state_placement_intent =
  sp_state_slot_id :: state_slot_id
  sp_durability :: state_durability
  sp_replication :: u16
  sp_required_capabilities :: "str list"

datatype placement_constraint_kind = CoLocate | Separate | RequireLabel | PreferLabel

record placement_constraint =
  pl_constraint_id :: str
  pl_kind :: placement_constraint_kind
  pl_nodes :: "node_id list"
  pl_label :: "str option"
  pl_value :: "str option"
  pl_hard :: bool

datatype update_strategy = Replace | Rolling | Recreate

record update_policy =
  up_strategy :: update_strategy
  up_max_unavailable :: u16
  up_health_timeout_seconds :: "u64 option"

record operational_intent =
  oi_schema :: str
  oi_workloads :: "workload_intent list"
  oi_endpoints :: "endpoint_intent list"
  oi_state :: "state_placement_intent list"
  oi_placement :: "placement_constraint list"
  oi_update_policy :: update_policy
  oi_annotations :: "(str, json) btree_map"

record target_capability_record =
  tc_capability_id :: str
  tc_version :: str
  tc_properties :: "(str, json) btree_map"
  tc_available :: bool
  tc_evidence_refs :: "artifact_descriptor list"

record resource_capacity =
  cp_cpu_millis :: u64
  cp_memory_bytes :: u64
  cp_storage_bytes :: u64
  cp_gpu_count :: u32
  cp_max_workloads :: u32

record topology_relation =
  to_other_target_id :: str
  to_relation_id :: str
  to_latency_class :: "str option"
  to_properties :: "(str, json) btree_map"

record target_inventory_snapshot =
  ti_target_id :: str
  ti_observed_at :: instant
  ti_capabilities :: "target_capability_record list"
  ti_capacity :: resource_capacity
  ti_labels :: "(str, str) btree_map"
  ti_trust_zone :: str
  ti_topology :: "topology_relation list"

section \<open>Serialisation\<close>

abbreviation jword :: "'a::len word \<Rightarrow> json" where
  "jword w \<equiv> jnat (unat w)"

definition resource_requirements_value :: "resource_requirements \<Rightarrow> json" where
  "resource_requirements_value r = jobj
     (jopt ''cpu_millis'' jword (rr_cpu_millis r) @ jopt ''memory_bytes'' jword (rr_memory_bytes r)
      @ jopt ''storage_bytes'' jword (rr_storage_bytes r) @ jopt ''gpu_count'' jword (rr_gpu_count r)
      @ jopt ''duration_seconds'' jword (rr_duration_seconds r)
      @ jopt ''max_concurrency'' jword (rr_max_concurrency r))"

fun access_mode_value :: "access_mode \<Rightarrow> json" where
  "access_mode_value ReadOnly = JStr ''read_only''"
| "access_mode_value ReadWrite = JStr ''read_write''"
| "access_mode_value AppendOnly = JStr ''append_only''"

definition network_import_value :: "network_import \<Rightarrow> json" where
  "network_import_value i = jobj
     (jfield ''import_id'' (JStr (nw_import_id i)) @ jfield ''protocol'' (JStr (nw_protocol i))
      @ jvec ''allowed_destinations'' JStr (nw_allowed_destinations i))"

definition filesystem_import_value :: "filesystem_import \<Rightarrow> json" where
  "filesystem_import_value i = jobj
     (jfield ''import_id'' (JStr (fs_import_id i)) @ jfield ''resource_id'' (JStr (fs_resource_id i))
      @ jfield ''access'' (access_mode_value (fs_access i)))"

definition secret_import_value :: "secret_import \<Rightarrow> json" where
  "secret_import_value i = jobj
     (jfield ''secret_id'' (JStr (si_secret_id i)) @ jfield ''required'' (JBool (si_required i)))"

definition workload_imports_value :: "workload_imports \<Rightarrow> json" where
  "workload_imports_value i = jobj
     (jvec ''network'' network_import_value (wi_network i)
      @ jvec ''filesystem'' filesystem_import_value (wi_filesystem i)
      @ jvec ''secret_imports'' secret_import_value (wi_secret_imports i))"

fun restart_policy_value :: "restart_policy \<Rightarrow> json" where
  "restart_policy_value Never = JStr ''never''"
| "restart_policy_value OnFailure = JStr ''on_failure''"
| "restart_policy_value Always = JStr ''always''"

definition replica_policy_value :: "replica_policy \<Rightarrow> json" where
  "replica_policy_value r = jobj (jfield ''min'' (jword (rl_min r)) @ jfield ''max'' (jword (rl_max r)))"

definition workload_intent_value :: "workload_intent \<Rightarrow> json" where
  "workload_intent_value w = jobj
     (jfield ''workload_id'' (JStr (wl_workload_id w)) @ jfield ''node_id'' (JStr (wl_node_id w))
      @ jfield ''execution_classes'' (jarr JStr (wl_execution_classes w))
      @ jfield ''resources'' (resource_requirements_value (wl_resources w))
      @ jfield ''imports'' (workload_imports_value (wl_imports w))
      @ jfield ''replicas'' (replica_policy_value (wl_replicas w))
      @ jfield ''restart_policy'' (restart_policy_value (wl_restart_policy w))
      @ jopt ''health_port'' port_endpoint_value (wl_health_port w)
      @ jmap ''annotations'' (wl_annotations w))"

fun endpoint_visibility_value :: "endpoint_visibility \<Rightarrow> json" where
  "endpoint_visibility_value Private_Endpoint = JStr ''private''"
| "endpoint_visibility_value Shared_Endpoint = JStr ''shared''"
| "endpoint_visibility_value Public_Endpoint = JStr ''public''"

definition endpoint_intent_value :: "endpoint_intent \<Rightarrow> json" where
  "endpoint_intent_value e = jobj
     (jfield ''endpoint_id'' (JStr (en_endpoint_id e)) @ jfield ''port'' (port_endpoint_value (en_port e))
      @ jfield ''visibility'' (endpoint_visibility_value (en_visibility e))
      @ jopt ''protocol_hint'' JStr (en_protocol_hint e) @ jmap ''annotations'' (en_annotations e))"

fun state_durability_value :: "state_durability \<Rightarrow> json" where
  "state_durability_value Ephemeral = JStr ''ephemeral''"
| "state_durability_value Durable = JStr ''durable''"
| "state_durability_value External_State = JStr ''external''"

definition state_placement_value :: "state_placement_intent \<Rightarrow> json" where
  "state_placement_value s = jobj
     (jfield ''state_slot_id'' (JStr (sp_state_slot_id s))
      @ jfield ''durability'' (state_durability_value (sp_durability s))
      @ jfield ''replication'' (jword (sp_replication s))
      @ jvec ''required_capabilities'' JStr (sp_required_capabilities s))"

fun constraint_kind_value :: "placement_constraint_kind \<Rightarrow> json" where
  "constraint_kind_value CoLocate = JStr ''co_locate''"
| "constraint_kind_value Separate = JStr ''separate''"
| "constraint_kind_value RequireLabel = JStr ''require_label''"
| "constraint_kind_value PreferLabel = JStr ''prefer_label''"

definition placement_constraint_value :: "placement_constraint \<Rightarrow> json" where
  "placement_constraint_value c = jobj
     (jfield ''constraint_id'' (JStr (pl_constraint_id c)) @ jfield ''kind'' (constraint_kind_value (pl_kind c))
      @ jvec ''nodes'' JStr (pl_nodes c) @ jopt ''label'' JStr (pl_label c) @ jopt ''value'' JStr (pl_value c)
      @ jfield ''hard'' (JBool (pl_hard c)))"

fun update_strategy_value :: "update_strategy \<Rightarrow> json" where
  "update_strategy_value Replace = JStr ''replace''"
| "update_strategy_value Rolling = JStr ''rolling''"
| "update_strategy_value Recreate = JStr ''recreate''"

definition update_policy_value :: "update_policy \<Rightarrow> json" where
  "update_policy_value p = jobj
     (jfield ''strategy'' (update_strategy_value (up_strategy p))
      @ jfield ''max_unavailable'' (jword (up_max_unavailable p))
      @ jopt ''health_timeout_seconds'' jword (up_health_timeout_seconds p))"

definition operational_intent_value :: "operational_intent \<Rightarrow> json" where
  "operational_intent_value i = jobj
     (jfield ''schema'' (JStr (oi_schema i)) @ jvec ''workloads'' workload_intent_value (oi_workloads i)
      @ jvec ''endpoints'' endpoint_intent_value (oi_endpoints i)
      @ jvec ''state'' state_placement_value (oi_state i)
      @ jvec ''placement'' placement_constraint_value (oi_placement i)
      @ jfield ''update_policy'' (update_policy_value (oi_update_policy i))
      @ jmap ''annotations'' (oi_annotations i))"

definition target_capability_value :: "target_capability_record \<Rightarrow> json" where
  "target_capability_value c = jobj
     (jfield ''capability_id'' (JStr (tc_capability_id c)) @ jfield ''version'' (JStr (tc_version c))
      @ jmap ''properties'' (tc_properties c) @ jfield ''available'' (JBool (tc_available c))
      @ jvec ''evidence_refs'' artifact_descriptor_value (tc_evidence_refs c))"

definition resource_capacity_value :: "resource_capacity \<Rightarrow> json" where
  "resource_capacity_value c = jobj
     (jfield ''cpu_millis'' (jword (cp_cpu_millis c)) @ jfield ''memory_bytes'' (jword (cp_memory_bytes c))
      @ jfield ''storage_bytes'' (jword (cp_storage_bytes c)) @ jfield ''gpu_count'' (jword (cp_gpu_count c))
      @ jfield ''max_workloads'' (jword (cp_max_workloads c)))"

definition topology_relation_value :: "topology_relation \<Rightarrow> json" where
  "topology_relation_value r = jobj
     (jfield ''other_target_id'' (JStr (to_other_target_id r)) @ jfield ''relation_id'' (JStr (to_relation_id r))
      @ jopt ''latency_class'' JStr (to_latency_class r) @ jmap ''properties'' (to_properties r))"

definition target_inventory_value :: "ext \<Rightarrow> target_inventory_snapshot \<Rightarrow> json" where
  "target_inventory_value E t = jobj
     (jfield ''target_id'' (JStr (ti_target_id t)) @ jfield ''observed_at'' (JStr (rfc3339 E (ti_observed_at t)))
      @ jvec ''capabilities'' target_capability_value (ti_capabilities t)
      @ jfield ''capacity'' (resource_capacity_value (ti_capacity t))
      @ jmap ''labels'' (map (\<lambda>(k, v). (k, JStr v)) (ti_labels t))
      @ jfield ''trust_zone'' (JStr (ti_trust_zone t))
      @ jvec ''topology'' topology_relation_value (ti_topology t))"

section \<open>Validation\<close>

definition validate_open_text :: "str \<Rightarrow> unit model_result" where
  "validate_open_text value =
     (if blank value \<or> any_whitespace value \<or> any_control value
      then Inl (Err WorkInvalid) else Inr ())"

text \<open>The three loops share one set of import ids.\<close>

definition validate_imports :: "workload_imports \<Rightarrow> unit model_result" where
  "validate_imports i = unique_loop snd fst (Err WorkInvalid) no_check {}
     (map (\<lambda>n. (nw_import_id n, all_ok [validate_local_id (nw_import_id n), validate_open_text (nw_protocol n)]))
        (wi_network i)
      @ map (\<lambda>f. (fs_import_id f, all_ok [validate_local_id (fs_import_id f), validate_open_text (fs_resource_id f)]))
        (wi_filesystem i)
      @ map (\<lambda>s. (si_secret_id s, validate_local_id (si_secret_id s))) (wi_secret_imports i))"

definition validate_workload :: "workload_intent \<Rightarrow> unit model_result" where
  "validate_workload w = all_ok
     [ensure (\<not> (wl_execution_classes w = [] \<or> rl_min (wl_replicas w) = 0
                \<or> rl_max (wl_replicas w) < rl_min (wl_replicas w))) WorkInvalid,
      each validate_open_text (wl_execution_classes w),
      validate_imports (wl_imports w)]"

definition operational_intent_validate :: "ext \<Rightarrow> operational_intent \<Rightarrow> unit model_result" where
  "operational_intent_validate E i = all_ok
     [ensure (oi_schema i = OPERATIONAL_INTENT_SCHEMA) WorkInvalid,
      unique_loop (\<lambda>w. validate_local_id (wl_workload_id w)) wl_workload_id (Err WorkInvalid)
        validate_workload {} (oi_workloads i),
      unique_loop (\<lambda>e. validate_local_id (en_endpoint_id e)) en_endpoint_id (Err WorkInvalid)
        (\<lambda>e. case en_protocol_hint e of None \<Rightarrow> Inr () | Some protocol \<Rightarrow> validate_open_text protocol)
        {} (oi_endpoints i),
      unique_loop no_check sp_state_slot_id (Err WorkInvalid)
        (\<lambda>s. ensure (\<not> (sp_durability s \<noteq> Ephemeral \<and> sp_replication s = 0)) WorkInvalid) {} (oi_state i),
      unique_loop (\<lambda>c. validate_local_id (pl_constraint_id c)) pl_constraint_id (Err WorkInvalid)
        no_check {} (oi_placement i),
      validate_portable_value E (operational_intent_value i)]"

definition validate_target_capability :: "ext \<Rightarrow> target_capability_record \<Rightarrow> unit model_result" where
  "validate_target_capability E c = each (validate_artifact_descriptor E) (tc_evidence_refs c)"

definition target_inventory_validate :: "ext \<Rightarrow> target_inventory_snapshot \<Rightarrow> unit model_result" where
  "target_inventory_validate E t = all_ok
     [validate_open_text (ti_target_id t), validate_open_text (ti_trust_zone t),
      unique_loop (\<lambda>c. all_ok [validate_open_text (tc_capability_id c), validate_open_text (tc_version c)])
        (\<lambda>c. (tc_capability_id c, tc_version c)) (Err WorkInvalid) (validate_target_capability E) {}
        (ti_capabilities t),
      each (\<lambda>r. all_ok [validate_open_text (to_other_target_id r), validate_open_text (to_relation_id r)])
        (ti_topology t),
      validate_portable_value E (target_inventory_value E t)]"

text \<open>\<open>impl ArtifactModel\<close>; an intent refers to no artifact.\<close>

definition intent_referenced_artifacts :: "operational_intent \<Rightarrow> artifact_descriptor list" where
  "intent_referenced_artifacts _ = []"

definition inventory_referenced_artifacts :: "target_inventory_snapshot \<Rightarrow> artifact_descriptor list" where
  "inventory_referenced_artifacts t = concat (map tc_evidence_refs (ti_capabilities t))"

section \<open>Lemmas\<close>

lemma validate_open_text_no_panic [no_panic]: "validate_open_text s \<noteq> Inl Panic"
  by (simp add: validate_open_text_def)

lemma validate_open_text_Inr [res_simps]:
  "validate_open_text s = Inr u \<longleftrightarrow> \<not> blank s \<and> \<not> any_whitespace s \<and> \<not> any_control s"
  by (simp add: validate_open_text_def)

lemma validate_imports_no_panic [no_panic]: "validate_imports i \<noteq> Inl Panic"
  unfolding validate_imports_def by (rule unique_loop_no_panic) (auto simp: no_panic)

lemma validate_workload_no_panic [no_panic]: "validate_workload w \<noteq> Inl Panic"
  by (simp add: validate_workload_def no_panic)

lemma operational_intent_no_panic [no_panic]: "operational_intent_validate E i \<noteq> Inl Panic"
  by (simp add: operational_intent_validate_def no_panic split: option.splits)

lemma target_inventory_no_panic [no_panic]: "target_inventory_validate E t \<noteq> Inl Panic"
  by (simp add: target_inventory_validate_def validate_target_capability_def no_panic)

lemma intent_workloads:
  assumes "operational_intent_validate E i = Inr ()"
  shows "distinct (map wl_workload_id (oi_workloads i))"
    and "w \<in> set (oi_workloads i) \<Longrightarrow> 0 < rl_min (wl_replicas w) \<and> rl_min (wl_replicas w) \<le> rl_max (wl_replicas w)"
  using assms
  by (auto simp: operational_intent_validate_def validate_workload_def all_ok_Inr unique_loop_Inr ensure_Inr
      word_neq_0_conv)

lemma intent_ids:
  assumes "operational_intent_validate E i = Inr ()"
  shows "distinct (map en_endpoint_id (oi_endpoints i))" and "distinct (map sp_state_slot_id (oi_state i))"
  using assms by (auto simp: operational_intent_validate_def all_ok_Inr unique_loop_Inr)

lemma operational_type_uris_present:
  "\<not> blank OPERATIONAL_INTENT_TYPE_URI" "\<not> blank TARGET_INVENTORY_TYPE_URI"
  by code_simp+

interpretation intent_artifacts: artifact_model E "operational_intent_validate E" operational_intent_value
    OPERATIONAL_INTENT_TYPE_URI intent_referenced_artifacts no_annotations
  for E
  by unfold_locales
     (auto simp: operational_type_uris_present no_annotations_def validate_portable_value_def each_def
        intent_referenced_artifacts_def)

lemma inventory_referenced_valid:
  "target_inventory_validate E t = Inr () \<Longrightarrow> r \<in> set (inventory_referenced_artifacts t)
     \<Longrightarrow> validate_artifact_descriptor E r = Inr ()"
  by (auto simp: target_inventory_validate_def validate_target_capability_def inventory_referenced_artifacts_def
      all_ok_Inr unique_loop_Inr each_Inr)

interpretation inventory_artifacts: artifact_model E "target_inventory_validate E" "target_inventory_value E"
    TARGET_INVENTORY_TYPE_URI inventory_referenced_artifacts no_annotations
  for E
  by unfold_locales
     (auto simp: operational_type_uris_present no_annotations_def validate_portable_value_def each_def
        dest: inventory_referenced_valid)

end
