(* ===== verification/Works.thy ===== *)
theory Works
  imports Rights Operational
begin

text \<open>
  \<open>crates/plurora-work/src/work.rs\<close>: a work revision, the root artifact that refers to its
  assembly, content, rights, transparency and operational intent.
\<close>

section \<open>Data\<close>

definition WORK_REVISION_TYPE_URI :: str where
  "WORK_REVISION_TYPE_URI = ''urn:plurora:work-revision:v1''"

definition WORK_REVISION_SCHEMA :: str where
  "WORK_REVISION_SCHEMA = ''plurora.work-revision.v1''"

datatype work_entrypoint_target = AssemblyPort port_id | Surface str | ForeignLaunch str

record work_entrypoint =
  we_id :: str
  we_intent_uri :: str
  we_target :: work_entrypoint_target
  we_annotations :: "(str, json) btree_map"

record work_revision =
  wr_schema :: str
  wr_work_id :: str
  wr_title :: str
  wr_description :: str
  wr_assembly :: artifact_descriptor
  wr_content_roots :: "artifact_descriptor list"
  wr_entrypoints :: "work_entrypoint list"
  wr_rights :: "artifact_descriptor option"
  wr_transparency :: "artifact_descriptor option"
  wr_operational_intent :: "artifact_descriptor option"
  wr_annotations :: "(str, json) btree_map"

fun entrypoint_target_value :: "work_entrypoint_target \<Rightarrow> json" where
  "entrypoint_target_value (AssemblyPort port_id) =
     jobj (jfield ''kind'' (JStr ''assembly_port'') @ jfield ''port_id'' (JStr port_id))"
| "entrypoint_target_value (Surface surface_id) =
     jobj (jfield ''kind'' (JStr ''surface'') @ jfield ''surface_id'' (JStr surface_id))"
| "entrypoint_target_value (ForeignLaunch launch_id) =
     jobj (jfield ''kind'' (JStr ''foreign_launch'') @ jfield ''launch_id'' (JStr launch_id))"

definition work_entrypoint_value :: "work_entrypoint \<Rightarrow> json" where
  "work_entrypoint_value e = jobj
     (jfield ''id'' (JStr (we_id e)) @ jfield ''intent_uri'' (JStr (we_intent_uri e))
      @ jfield ''target'' (entrypoint_target_value (we_target e)) @ jmap ''annotations'' (we_annotations e))"

definition work_revision_fields :: "work_revision \<Rightarrow> (str \<times> json) list" where
  "work_revision_fields w =
     jfield ''schema'' (JStr (wr_schema w)) @ jfield ''work_id'' (JStr (wr_work_id w))
     @ jfield ''title'' (JStr (wr_title w)) @ jfield ''description'' (JStr (wr_description w))
     @ jfield ''assembly'' (artifact_descriptor_value (wr_assembly w))
     @ jvec ''content_roots'' artifact_descriptor_value (wr_content_roots w)
     @ jvec ''entrypoints'' work_entrypoint_value (wr_entrypoints w)
     @ jopt ''rights'' artifact_descriptor_value (wr_rights w)
     @ jopt ''transparency'' artifact_descriptor_value (wr_transparency w)
     @ jopt ''operational_intent'' artifact_descriptor_value (wr_operational_intent w)
     @ jmap ''annotations'' (wr_annotations w)"

definition work_revision_value :: "work_revision \<Rightarrow> json" where
  "work_revision_value w = jobj (work_revision_fields w)"

section \<open>Validation\<close>

definition validate_open_identifier :: "str \<Rightarrow> unit model_result" where
  "validate_open_identifier value =
     (if blank value \<or> any_whitespace value \<or> any_control value
      then Inl (Err WorkInvalid) else Inr ())"

definition work_entrypoint_validate :: "ext \<Rightarrow> work_entrypoint \<Rightarrow> unit model_result" where
  "work_entrypoint_validate E e = all_ok
     [validate_local_id (we_id e), validate_open_identifier (we_intent_uri e),
      (case we_target e of
         AssemblyPort _ \<Rightarrow> Inr ()
       | Surface surface_id \<Rightarrow> validate_open_identifier surface_id
       | ForeignLaunch launch_id \<Rightarrow> validate_local_id launch_id),
      validate_portable_value E (JObj (we_annotations e))]"

definition validate_optional_type :: "ext \<Rightarrow> artifact_descriptor option \<Rightarrow> str \<Rightarrow> unit model_result" where
  "validate_optional_type E d uri =
     (case d of None \<Rightarrow> Inr () | Some descriptor \<Rightarrow> validate_descriptor_type E descriptor uri)"

definition work_revision_validate :: "ext \<Rightarrow> work_revision \<Rightarrow> unit model_result" where
  "work_revision_validate E w = all_ok
     [ensure (\<not> (wr_schema w \<noteq> WORK_REVISION_SCHEMA \<or> blank (wr_title w))) WorkInvalid,
      validate_descriptor_type E (wr_assembly w) ASSEMBLY_REVISION_TYPE_URI,
      unique_loop (validate_artifact_descriptor E) ad_digest (Err WorkInvalid) no_check {} (wr_content_roots w),
      unique_loop (work_entrypoint_validate E) we_id (Err WorkInvalid) no_check {} (wr_entrypoints w),
      validate_optional_type E (wr_rights w) RIGHTS_DECLARATION_TYPE_URI,
      validate_optional_type E (wr_transparency w) TRANSPARENCY_DECLARATION_TYPE_URI,
      validate_optional_type E (wr_operational_intent w) OPERATIONAL_INTENT_TYPE_URI,
      validate_portable_value E (work_revision_value w)]"

section \<open>\<open>impl ArtifactModel for WorkRevision\<close>\<close>

definition work_referenced_artifacts :: "work_revision \<Rightarrow> artifact_descriptor list" where
  "work_referenced_artifacts w =
     wr_assembly w # wr_content_roots w @ option_list (wr_rights w) @ option_list (wr_transparency w)
     @ option_list (wr_operational_intent w)"

definition work_descriptor_annotations :: "work_revision \<Rightarrow> (str, json) btree_map" where
  "work_descriptor_annotations w = [(''work_id'', JStr (wr_work_id w))]"

definition work_revision_descriptor :: "ext \<Rightarrow> work_revision \<Rightarrow> artifact_descriptor model_result" where
  "work_revision_descriptor E = model_descriptor E (work_revision_validate E) work_revision_value
     WORK_REVISION_TYPE_URI work_referenced_artifacts work_descriptor_annotations"

section \<open>Lemmas\<close>

lemma work_type_uri_present: "\<not> blank WORK_REVISION_TYPE_URI"
  by code_simp

lemma work_referenced_valid:
  "work_revision_validate E w = Inr () \<Longrightarrow> r \<in> set (work_referenced_artifacts w)
     \<Longrightarrow> validate_artifact_descriptor E r = Inr ()"
  by (auto simp: work_revision_validate_def work_referenced_artifacts_def option_list_def validate_optional_type_def
      all_ok_Inr unique_loop_Inr validate_descriptor_type_Inr split: option.splits)

lemma work_id_field: "(''work_id'', JStr (wr_work_id w)) \<in> set (bt_of_list (work_revision_fields w))"
proof -
  have "distinct (map fst (work_revision_fields w))"
    by (simp add: work_revision_fields_def jfield_def jvec_def jopt_def jmap_def split: option.splits)
  moreover have "(''work_id'', JStr (wr_work_id w)) \<in> set (rev (work_revision_fields w))"
    by (simp add: work_revision_fields_def jfield_def)
  ultimately have "map_of (rev (work_revision_fields w)) ''work_id'' = Some (JStr (wr_work_id w))"
    by (intro map_of_is_SomeI) (simp_all add: rev_map [symmetric] del: set_rev)
  then show ?thesis by (simp add: bt_get_mem [OF bt_wf_bt_of_list, symmetric] bt_get_of_list)
qed

text \<open>The work id stands alone in the annotations of the descriptor as it stands in the work.\<close>

lemma work_annotations_portable:
  assumes "work_revision_validate E w = Inr ()"
  shows "validate_portable_value E (JObj (work_descriptor_annotations w)) = Inr ()"
proof -
  have "validate_portable_value E (JObj (bt_of_list (work_revision_fields w))) = Inr ()"
    using assms by (simp add: work_revision_validate_def work_revision_value_def jobj_def all_ok_Inr)
  then show ?thesis
    using work_id_field [of w]
    by (fastforce simp: validate_portable_value_def work_descriptor_annotations_def each_Inr and_then_Inr)
qed

interpretation work_artifacts: artifact_model E "work_revision_validate E" work_revision_value
    WORK_REVISION_TYPE_URI work_referenced_artifacts work_descriptor_annotations
  for E
  by unfold_locales
     (auto simp: work_type_uri_present dest: work_referenced_valid work_annotations_portable)

section \<open>Properties\<close>

text \<open>The descriptor of a work revision identifies it. When it can be computed, its digest is
  the hash of the canonical bytes, it records the work id, its references are exactly the digests
  of the artifacts the work refers to, each of which is itself a valid descriptor, and it is a
  valid descriptor unless the work refers to its own digest.\<close>

theorem work_descriptor_identifies:
  assumes "sha256_hex_ok E" and "work_revision_descriptor E w = Inr d"
  shows "ad_digest d = sha256_digest E (core_canonical_json_bytes E (work_revision_value w))
    \<and> bt_get (ad_annotations d) ''work_id'' = Some (JStr (wr_work_id w))
    \<and> set (ad_references d) = ad_digest ` set (work_referenced_artifacts w)
    \<and> (\<forall>r\<in>set (work_referenced_artifacts w). validate_artifact_descriptor E r = Inr ())
    \<and> (ad_digest d \<notin> set (ad_references d) \<longrightarrow> validate_artifact_descriptor E d = Inr ())"
proof -
  obtain b where b: "canonical_bytes E (work_revision_validate E) work_revision_value w = Inr b"
    and d: "ad_digest d = sha256_digest E b" "ad_annotations d = work_descriptor_annotations w"
      "ad_references d = sorted_list_of_set (ad_digest ` set (work_referenced_artifacts w))"
    using assms(2) by (auto simp: work_revision_descriptor_def work_artifacts.model_descriptor_Inr)
  have valid: "work_revision_validate E w = Inr ()" and bytes: "b = core_canonical_json_bytes E (work_revision_value w)"
    using b by (simp_all add: canonical_bytes_Inr)
  have refs: "set (ad_references d) = ad_digest ` set (work_referenced_artifacts w)" by (simp add: d(3))
  moreover have "ad_digest d \<notin> set (ad_references d) \<longrightarrow> validate_artifact_descriptor E d = Inr ()"
    using work_artifacts.model_descriptor_valid [OF assms(1) assms(2) [unfolded work_revision_descriptor_def]]
    by (simp add: refs)
  ultimately show ?thesis
    using work_referenced_valid [OF valid] by (simp add: d(1,2) bytes work_descriptor_annotations_def)
qed

end
