(* ===== verification/Host_Records.thy ===== *)
theory Host_Records
  imports Works Locks
begin

text \<open>
  \<open>crates/plurora-work/src/host.rs\<close>: the records a Host keeps of installations, runs, active
  bindings and exposures, with their validation.
\<close>

section \<open>Data\<close>

datatype acquisition_kind =
    WorkBundle | Package_Acquisition | GitSnapshot | LocalImport | RemoteCatalog | ForeignBinding

record acquisition_record =
  aq_kind :: acquisition_kind
  aq_source_ref :: "artifact_descriptor option"
  aq_provenance_refs :: "artifact_descriptor list"
  aq_update_channel :: "str option"

datatype state_binding_kind = HostManaged | ExternalProvider

record state_binding_record =
  sb_state_slot_id :: state_slot_id
  sb_kind :: state_binding_kind
  sb_binding_id :: str
  sb_provider_ref :: "artifact_descriptor option"

record installation_secret_policy =
  isp_allowed_secret_refs :: "str list"
  isp_allow_platform_fallback :: bool

datatype installation_status =
    Resolving | Ready | Updating | Blocked | Failed_Installation | Removing | Removed

record installation_record =
  in_schema_version :: u16
  in_installation_id :: str
  in_work_revision :: artifact_descriptor
  in_assembly_lock :: artifact_descriptor
  in_display_name :: str
  in_source :: acquisition_record
  in_state_bindings :: "state_binding_record list"
  in_secret_policy :: installation_secret_policy
  in_created_at :: instant
  in_updated_at :: instant
  in_status :: installation_status

text \<open>\<open>NodeInstanceStatus\<close> and \<open>RunStatus\<close> have the same constructors.\<close>

datatype run_status =
    Run_Starting | Run_Running | Run_Degraded | Run_Stopping | Run_Stopped | Run_Failed | Run_Interrupted

type_synonym node_instance_status = run_status

record node_instance_record =
  ni_instance_id :: str
  ni_node_id :: node_id
  ni_node_path :: "node_id list"
  ni_status :: node_instance_status
  ni_realization_id :: "str option"

datatype health_status = Health_Unknown | Healthy | Health_Degraded | Unhealthy

record run_health =
  rh_status :: health_status
  rh_reason_code :: "str option"
  rh_diagnostic_refs :: "artifact_descriptor list"

record active_binding_record =
  abr_binding_id :: str
  abr_consumer_installation_id :: str
  abr_consumer_port :: port_id
  abr_exposure_id :: str
  abr_transport :: selected_transport
  abr_expires_at :: "instant option"

record run_record =
  rn_run_id :: str
  rn_installation_id :: str
  rn_context_id :: "str option"
  rn_status :: run_status
  rn_node_instances :: "node_instance_record list"
  rn_bindings :: "active_binding_record list"
  rn_started_at :: instant
  rn_stopped_at :: "instant option"
  rn_health :: run_health

record resource_selector =
  sel_kind :: str
  sel_id :: str

datatype exposure_status = Exposure_Active | Exposure_Expired | Exposure_Revoked

record exposure_record =
  er_exposure_id :: str
  er_installation_id :: str
  er_run_id :: "str option"
  er_export_port :: port_id
  er_audience :: "resource_selector list"
  er_expires_at :: "instant option"
  er_status :: exposure_status

definition INSTALLATION_SCHEMA_VERSION :: u16 where
  "INSTALLATION_SCHEMA_VERSION = 1"

section \<open>Serialisation\<close>

fun acquisition_kind_value :: "acquisition_kind \<Rightarrow> json" where
  "acquisition_kind_value WorkBundle = JStr ''work_bundle''"
| "acquisition_kind_value Package_Acquisition = JStr ''package''"
| "acquisition_kind_value GitSnapshot = JStr ''git_snapshot''"
| "acquisition_kind_value LocalImport = JStr ''local_import''"
| "acquisition_kind_value RemoteCatalog = JStr ''remote_catalog''"
| "acquisition_kind_value ForeignBinding = JStr ''foreign_binding''"

definition acquisition_value :: "acquisition_record \<Rightarrow> json" where
  "acquisition_value a = jobj
     (jfield ''kind'' (acquisition_kind_value (aq_kind a))
      @ jopt ''source_ref'' artifact_descriptor_value (aq_source_ref a)
      @ jvec ''provenance_refs'' artifact_descriptor_value (aq_provenance_refs a)
      @ jopt ''update_channel'' JStr (aq_update_channel a))"

fun state_binding_kind_value :: "state_binding_kind \<Rightarrow> json" where
  "state_binding_kind_value HostManaged = JStr ''host_managed''"
| "state_binding_kind_value ExternalProvider = JStr ''external_provider''"

definition state_binding_value :: "state_binding_record \<Rightarrow> json" where
  "state_binding_value b = jobj
     (jfield ''state_slot_id'' (JStr (sb_state_slot_id b))
      @ jfield ''kind'' (state_binding_kind_value (sb_kind b))
      @ jfield ''binding_id'' (JStr (sb_binding_id b))
      @ jopt ''provider_ref'' artifact_descriptor_value (sb_provider_ref b))"

definition secret_policy_value :: "installation_secret_policy \<Rightarrow> json" where
  "secret_policy_value p = jobj
     (jvec ''allowed_secret_refs'' JStr (isp_allowed_secret_refs p)
      @ jfield ''allow_platform_fallback'' (JBool (isp_allow_platform_fallback p)))"

fun installation_status_value :: "installation_status \<Rightarrow> json" where
  "installation_status_value Resolving = JStr ''resolving''"
| "installation_status_value Ready = JStr ''ready''"
| "installation_status_value Updating = JStr ''updating''"
| "installation_status_value Blocked = JStr ''blocked''"
| "installation_status_value Failed_Installation = JStr ''failed''"
| "installation_status_value Removing = JStr ''removing''"
| "installation_status_value Removed = JStr ''removed''"

definition installation_record_value :: "ext \<Rightarrow> installation_record \<Rightarrow> json" where
  "installation_record_value E i = jobj
     (jfield ''schema_version'' (jword (in_schema_version i))
      @ jfield ''installation_id'' (JStr (in_installation_id i))
      @ jfield ''work_revision'' (artifact_descriptor_value (in_work_revision i))
      @ jfield ''assembly_lock'' (artifact_descriptor_value (in_assembly_lock i))
      @ jfield ''display_name'' (JStr (in_display_name i))
      @ jfield ''source'' (acquisition_value (in_source i))
      @ jvec ''state_bindings'' state_binding_value (in_state_bindings i)
      @ jfield ''secret_policy'' (secret_policy_value (in_secret_policy i))
      @ jfield ''created_at'' (JStr (rfc3339 E (in_created_at i)))
      @ jfield ''updated_at'' (JStr (rfc3339 E (in_updated_at i)))
      @ jfield ''status'' (installation_status_value (in_status i)))"

fun run_status_value :: "run_status \<Rightarrow> json" where
  "run_status_value Run_Starting = JStr ''starting''"
| "run_status_value Run_Running = JStr ''running''"
| "run_status_value Run_Degraded = JStr ''degraded''"
| "run_status_value Run_Stopping = JStr ''stopping''"
| "run_status_value Run_Stopped = JStr ''stopped''"
| "run_status_value Run_Failed = JStr ''failed''"
| "run_status_value Run_Interrupted = JStr ''interrupted''"

definition node_instance_value :: "node_instance_record \<Rightarrow> json" where
  "node_instance_value n = jobj
     (jfield ''instance_id'' (JStr (ni_instance_id n)) @ jfield ''node_id'' (JStr (ni_node_id n))
      @ jfield ''node_path'' (jarr JStr (ni_node_path n)) @ jfield ''status'' (run_status_value (ni_status n))
      @ jopt ''realization_id'' JStr (ni_realization_id n))"

fun health_status_value :: "health_status \<Rightarrow> json" where
  "health_status_value Health_Unknown = JStr ''unknown''"
| "health_status_value Healthy = JStr ''healthy''"
| "health_status_value Health_Degraded = JStr ''degraded''"
| "health_status_value Unhealthy = JStr ''unhealthy''"

definition run_health_value :: "run_health \<Rightarrow> json" where
  "run_health_value h = jobj
     (jfield ''status'' (health_status_value (rh_status h)) @ jopt ''reason_code'' JStr (rh_reason_code h)
      @ jvec ''diagnostic_refs'' artifact_descriptor_value (rh_diagnostic_refs h))"

definition active_binding_value :: "ext \<Rightarrow> active_binding_record \<Rightarrow> json" where
  "active_binding_value E b = jobj
     (jfield ''binding_id'' (JStr (abr_binding_id b))
      @ jfield ''consumer_installation_id'' (JStr (abr_consumer_installation_id b))
      @ jfield ''consumer_port'' (JStr (abr_consumer_port b))
      @ jfield ''exposure_id'' (JStr (abr_exposure_id b))
      @ jfield ''transport'' (selected_transport_value (abr_transport b))
      @ jopt ''expires_at'' (\<lambda>t. JStr (rfc3339 E t)) (abr_expires_at b))"

definition run_record_value :: "ext \<Rightarrow> run_record \<Rightarrow> json" where
  "run_record_value E r = jobj
     (jfield ''run_id'' (JStr (rn_run_id r)) @ jfield ''installation_id'' (JStr (rn_installation_id r))
      @ jopt ''context_id'' JStr (rn_context_id r) @ jfield ''status'' (run_status_value (rn_status r))
      @ jvec ''node_instances'' node_instance_value (rn_node_instances r)
      @ jvec ''bindings'' (active_binding_value E) (rn_bindings r)
      @ jfield ''started_at'' (JStr (rfc3339 E (rn_started_at r)))
      @ jopt ''stopped_at'' (\<lambda>t. JStr (rfc3339 E t)) (rn_stopped_at r)
      @ jfield ''health'' (run_health_value (rn_health r)))"

definition resource_selector_value :: "resource_selector \<Rightarrow> json" where
  "resource_selector_value s = jobj (jfield ''kind'' (JStr (sel_kind s)) @ jfield ''id'' (JStr (sel_id s)))"

fun exposure_status_value :: "exposure_status \<Rightarrow> json" where
  "exposure_status_value Exposure_Active = JStr ''active''"
| "exposure_status_value Exposure_Expired = JStr ''expired''"
| "exposure_status_value Exposure_Revoked = JStr ''revoked''"

definition exposure_record_value :: "ext \<Rightarrow> exposure_record \<Rightarrow> json" where
  "exposure_record_value E x = jobj
     (jfield ''exposure_id'' (JStr (er_exposure_id x)) @ jfield ''installation_id'' (JStr (er_installation_id x))
      @ jopt ''run_id'' JStr (er_run_id x) @ jfield ''export_port'' (JStr (er_export_port x))
      @ jfield ''audience'' (jarr resource_selector_value (er_audience x))
      @ jopt ''expires_at'' (\<lambda>t. JStr (rfc3339 E t)) (er_expires_at x)
      @ jfield ''status'' (exposure_status_value (er_status x)))"

section \<open>Validation\<close>

definition validate_optional_artifact :: "ext \<Rightarrow> artifact_descriptor option \<Rightarrow> unit model_result" where
  "validate_optional_artifact E d =
     (case d of None \<Rightarrow> Inr () | Some descriptor \<Rightarrow> validate_artifact_descriptor E descriptor)"

definition installation_record_validate :: "ext \<Rightarrow> installation_record \<Rightarrow> unit model_result" where
  "installation_record_validate E i = all_ok
     [ensure (\<not> (in_schema_version i \<noteq> INSTALLATION_SCHEMA_VERSION \<or> blank (in_display_name i))) WorkInvalid,
      validate_descriptor_type E (in_work_revision i) WORK_REVISION_TYPE_URI,
      validate_descriptor_type E (in_assembly_lock i) ASSEMBLY_LOCK_TYPE_URI,
      ensure (\<not> in_updated_at i < in_created_at i) WorkInvalid,
      validate_optional_artifact E (aq_source_ref (in_source i)),
      each (validate_artifact_descriptor E) (aq_provenance_refs (in_source i)),
      unique_loop (\<lambda>b. ensure (\<not> blank (sb_binding_id b)) WorkInvalid) sb_state_slot_id (Err WorkInvalid)
        (\<lambda>b. validate_optional_artifact E (sb_provider_ref b)) {} (in_state_bindings i),
      unique_loop (\<lambda>r. ensure (is_valid_ref r) RawSecret) id (Err WorkInvalid) no_check {}
        (isp_allowed_secret_refs (in_secret_policy i)),
      validate_portable_value E (installation_record_value E i)]"

definition active_binding_validate :: "ext \<Rightarrow> active_binding_record \<Rightarrow> unit model_result" where
  "active_binding_validate E b = all_ok
     [validate_selected_transport E (abr_transport b), validate_portable_value E (active_binding_value E b)]"

fun run_active :: "run_status \<Rightarrow> bool" where
  "run_active Run_Starting = True"
| "run_active Run_Running = True"
| "run_active Run_Degraded = True"
| "run_active Run_Stopping = True"
| "run_active _ = False"

fun run_terminal :: "run_status \<Rightarrow> bool" where
  "run_terminal Run_Stopped = True"
| "run_terminal Run_Failed = True"
| "run_terminal Run_Interrupted = True"
| "run_terminal _ = False"

definition run_record_validate :: "ext \<Rightarrow> run_record \<Rightarrow> unit model_result" where
  "run_record_validate E r = all_ok
     [ensure (\<not> (run_active (rn_status r) \<and> rn_stopped_at r \<noteq> None
                \<or> run_terminal (rn_status r) \<and> rn_stopped_at r = None
                \<or> (case rn_stopped_at r of None \<Rightarrow> False | Some stopped \<Rightarrow> stopped < rn_started_at r))) WorkInvalid,
      unique_loop (\<lambda>n. ensure (\<not> blank (ni_instance_id n)) WorkInvalid) ni_instance_id (Err WorkInvalid)
        (\<lambda>n. ensure (\<not> (ni_node_path n = [] \<or> last (ni_node_path n) \<noteq> ni_node_id n)) WorkInvalid)
        {} (rn_node_instances r),
      unique_loop (active_binding_validate E) abr_binding_id (Err WorkInvalid) no_check {} (rn_bindings r),
      each (validate_artifact_descriptor E) (rh_diagnostic_refs (rn_health r)),
      validate_portable_value E (run_record_value E r)]"

definition exposure_record_validate :: "ext \<Rightarrow> exposure_record \<Rightarrow> unit model_result" where
  "exposure_record_validate E x = all_ok
     [ensure (\<not> (er_audience x = [] \<or> list_ex (\<lambda>s. blank (sel_kind s) \<or> blank (sel_id s)) (er_audience x)))
        WorkInvalid,
      validate_portable_value E (exposure_record_value E x)]"

section \<open>Properties\<close>

text \<open>C34: The lifecycle of a run record. A record that passes validation has a stop time exactly
  when its status is terminal, the stop time is not before the start, no two node instances share
  an id, the path of every instance ends in its node, and no two active bindings share an id; and
  every status is either active or terminal.\<close>

theorem run_record_lifecycle:
  assumes "run_record_validate E r = Inr ()"
  shows "(run_terminal (rn_status r) \<longleftrightarrow> rn_stopped_at r \<noteq> None)
    \<and> (run_active (rn_status r) \<longleftrightarrow> \<not> run_terminal (rn_status r))
    \<and> (\<forall>t. rn_stopped_at r = Some t \<longrightarrow> rn_started_at r \<le> t)
    \<and> distinct (map ni_instance_id (rn_node_instances r))
    \<and> (\<forall>n\<in>set (rn_node_instances r). \<exists>parents. ni_node_path n = parents @ [ni_node_id n])
    \<and> distinct (map abr_binding_id (rn_bindings r))"
proof -
  have status: "run_active s \<longleftrightarrow> \<not> run_terminal s" for s by (cases s) simp_all
  have "\<exists>parents. ni_node_path n = parents @ [ni_node_id n]"
    if "n \<in> set (rn_node_instances r)" for n
  proof -
    have "ni_node_path n \<noteq> []" "last (ni_node_path n) = ni_node_id n"
      using assms that by (auto simp: run_record_validate_def all_ok_Inr unique_loop_Inr ensure_Inr)
    then show ?thesis by (metis append_butlast_last_id)
  qed
  then show ?thesis
    using assms by (auto simp: run_record_validate_def all_ok_Inr unique_loop_Inr ensure_Inr status)
qed

definition sample_run :: run_record where
  "sample_run = \<lparr>rn_run_id = ''r1'', rn_installation_id = ''i1'', rn_context_id = None, rn_status = Run_Stopped,
     rn_node_instances = [\<lparr>ni_instance_id = ''n1'', ni_node_id = ''p'', ni_node_path = [''outer'', ''p''],
       ni_status = Run_Stopped, ni_realization_id = None\<rparr>],
     rn_bindings = [], rn_started_at = 5, rn_stopped_at = Some 9,
     rn_health = \<lparr>rh_status = Healthy, rh_reason_code = None, rh_diagnostic_refs = []\<rparr>\<rparr>"

theorem run_record_lifecycle_witness:
  "run_record_validate sample_ext sample_run = Inr () \<and> run_terminal (rn_status sample_run)
   \<and> rn_started_at sample_run \<le> 9"
proof -
  have ok: "run_record_validate sample_ext sample_run = Inr ()" by code_simp
  have "rn_stopped_at sample_run = Some 9" by (simp add: sample_run_def)
  with ok run_record_lifecycle [OF ok] show ?thesis by simp
qed

text \<open>An installation record that passes validation holds no secret values: every entry of its
  secret policy is a valid secret reference, none is repeated, and nothing in the serialised record
  is a raw secret or a host path. Its state bindings name distinct slots and its update time is not
  before its creation.\<close>

theorem installation_record_safe:
  assumes "installation_record_validate E i = Inr ()"
  shows "(\<forall>r\<in>set (isp_allowed_secret_refs (in_secret_policy i)). is_valid_ref r)
    \<and> distinct (isp_allowed_secret_refs (in_secret_policy i))
    \<and> distinct (map sb_state_slot_id (in_state_bindings i))
    \<and> in_created_at i \<le> in_updated_at i
    \<and> (\<forall>w f. occurs (installation_record_value E i) None w f \<longrightarrow> portable_at E w f)"
  using assms
  by (auto simp: installation_record_validate_def all_ok_Inr unique_loop_Inr ensure_Inr
      validate_portable_value_iff)

definition sample_installation :: installation_record where
  "sample_installation = \<lparr>in_schema_version = 1, in_installation_id = ''i1'',
     in_work_revision = sample_ref WORK_REVISION_TYPE_URI CHR ''a'',
     in_assembly_lock = sample_ref ASSEMBLY_LOCK_TYPE_URI CHR ''b'', in_display_name = ''Demo'',
     in_source = \<lparr>aq_kind = LocalImport, aq_source_ref = None, aq_provenance_refs = [], aq_update_channel = None\<rparr>,
     in_state_bindings = [], in_secret_policy = \<lparr>isp_allowed_secret_refs = [''secret_ref:env:KEY''],
       isp_allow_platform_fallback = False\<rparr>,
     in_created_at = 1, in_updated_at = 2, in_status = Ready\<rparr>"

theorem installation_record_safe_witness:
  "installation_record_validate sample_ext sample_installation = Inr () \<and> is_valid_ref ''secret_ref:env:KEY''
   \<and> in_created_at sample_installation \<le> 2"
proof -
  have ok: "installation_record_validate sample_ext sample_installation = Inr ()" by code_simp
  have "''secret_ref:env:KEY'' \<in> set (isp_allowed_secret_refs (in_secret_policy sample_installation))"
    and "in_updated_at sample_installation = 2" by (simp_all add: sample_installation_def)
  with ok installation_record_safe [OF ok] show ?thesis by auto
qed

end
