(* ===== verification/Change_Data.thy ===== *)
theory Change_Data
  imports Canonical
begin

text \<open>\<open>ChangePrecondition\<close> of \<open>crates/plurora-core/src/change.rs\<close>, which plans of a realization and
  change sets share.\<close>

record change_precondition =
  cq_kind :: str
  cq_target :: "str option"
  cq_expected :: json

text \<open>The fields of a precondition in declaration order, as \<open>serde_json::to_string\<close> writes
  them; \<open>serde_json::to_value\<close> goes through a map.\<close>

definition precondition_fields :: "change_precondition \<Rightarrow> (str \<times> json) list" where
  "precondition_fields p = jfield ''kind'' (JStr (cq_kind p)) @ jopt ''target'' JStr (cq_target p)
     @ jfield ''expected'' (cq_expected p)"

definition precondition_value :: "change_precondition \<Rightarrow> json" where
  "precondition_value p = jobj (precondition_fields p)"

end
