(* ===== verification/Realization.thy ===== *)
theory Realization
  imports Host_Records Change_Data
begin

text \<open>
  \<open>crates/plurora-work/src/realization.rs\<close>: realization plans and revisions with their validation,
  and the planner, which places the workloads of an intent on targets.
\<close>

section \<open>Data\<close>

definition REALIZATION_PLAN_TYPE_URI :: str where
  "REALIZATION_PLAN_TYPE_URI = ''urn:plurora:realization-plan:v1''"

definition REALIZATION_PLAN_SCHEMA :: str where
  "REALIZATION_PLAN_SCHEMA = ''plurora.realization-plan.v1''"

definition MAX_REALIZATION_PLAN_ACTIONS :: nat where "MAX_REALIZATION_PLAN_ACTIONS = 4096"

definition EXECUTION_CLASS_CAPABILITY_PREFIX :: str where
  "EXECUTION_CLASS_CAPABILITY_PREFIX = ''plurora.execution-class/''"

record node_placement =
  np_placement_id :: str
  np_node_id :: node_id
  np_target_id :: str
  np_execution_class :: str

record transport_binding_plan =
  tb_binding_id :: str
  tb_provider :: port_endpoint
  tb_consumer :: port_endpoint
  tb_provider_target_id :: str
  tb_consumer_target_id :: str
  tb_transport :: selected_transport
  tb_phase :: binding_phase

record build_action =
  ba_action_id :: str
  ba_node_id :: node_id
  ba_builder_id :: str
  ba_input_refs :: "artifact_descriptor list"
  ba_parameter_ref :: artifact_descriptor
  ba_output_id :: str

record launch_action =
  la_action_id :: str
  la_node_id :: node_id
  la_target_id :: str
  la_artifact :: artifact_descriptor
  la_parameter_ref :: "artifact_descriptor option"

datatype state_action_kind = Provision | Attach | Snapshot | Restore | Migrate

record state_action =
  sa_action_id :: str
  sa_state_slot_id :: state_slot_id
  sa_target_id :: str
  sa_kind :: state_action_kind
  sa_input_ref :: "artifact_descriptor option"

record endpoint_action =
  ea_action_id :: str
  ea_endpoint_id :: str
  ea_target_id :: str
  ea_visibility :: endpoint_visibility
  ea_transport :: selected_transport

record realization_plan =
  rpl_schema :: str
  rpl_installation_id :: str
  rpl_work_revision :: artifact_descriptor
  rpl_assembly_lock :: artifact_descriptor
  rpl_operational_intent :: artifact_descriptor
  rpl_inventory_refs :: "artifact_descriptor list"
  rpl_placements :: "node_placement list"
  rpl_transports :: "transport_binding_plan list"
  rpl_build_actions :: "build_action list"
  rpl_launch_actions :: "launch_action list"
  rpl_state_actions :: "state_action list"
  rpl_endpoint_actions :: "endpoint_action list"
  rpl_preconditions :: "change_precondition list"
  rpl_required_authority :: "str list"
  rpl_risk_summary :: "str list"

datatype realization_status =
    Planned | Applying | Active_Realization | Degraded_Realization | Stopping_Realization | Stopped_Realization
  | Failed_Realization | OutcomeUnknown_Realization | RecoveryRequired_Realization

record realized_resource =
  rre_resource_id :: str
  rre_resource_type :: str
  rre_target_id :: str
  rre_backend_id :: str
  rre_properties :: "(str, json) btree_map"
  rre_receipt_ref :: "artifact_descriptor option"

record realization_health =
  rzh_status :: health_status
  rzh_reason_code :: "str option"
  rzh_evidence_refs :: "artifact_descriptor list"

record realization_revision =
  rz_realization_id :: str
  rz_installation_id :: str
  rz_revision :: u64
  rz_plan_ref :: artifact_descriptor
  rz_parent_realization_id :: "str option"
  rz_status :: realization_status
  rz_actual_resources :: "realized_resource list"
  rz_receipts :: "artifact_descriptor list"
  rz_health :: realization_health
  rz_created_at :: instant
  rz_updated_at :: instant
  rz_activated_at :: "instant option"
  rz_stopped_at :: "instant option"

record planned_workload_input =
  pw_workload_id :: str
  pw_target_id :: str
  pw_execution_class :: str
  pw_launch_artifact :: artifact_descriptor
  pw_parameter_ref :: "artifact_descriptor option"
  pw_build_action :: "build_action option"

record planning_gap =
  pg_reason_code :: str
  pg_next_step :: str
  pg_workload_id :: "str option"
  pg_target_id :: "str option"

record planner_input =
  pi_installation_id :: str
  pi_work_revision :: artifact_descriptor
  pi_assembly_lock_ref :: artifact_descriptor
  pi_operational_intent_ref :: artifact_descriptor
  pi_inventory_refs :: "artifact_descriptor list"
  pi_intent :: operational_intent
  pi_assembly_lock :: assembly_lock
  pi_inventories :: "target_inventory_snapshot list"
  pi_workloads :: "planned_workload_input list"
  pi_preconditions :: "change_precondition list"
  pi_required_authority :: "str list"
  pi_risk_summary :: "str list"

section \<open>Serialisation\<close>

definition precondition_text :: "ext \<Rightarrow> change_precondition \<Rightarrow> str" where
  "precondition_text E p = json_to_vec E (JObj (precondition_fields p))"

definition node_placement_value :: "node_placement \<Rightarrow> json" where
  "node_placement_value p = jobj
     (jfield ''placement_id'' (JStr (np_placement_id p)) @ jfield ''node_id'' (JStr (np_node_id p))
      @ jfield ''target_id'' (JStr (np_target_id p)) @ jfield ''execution_class'' (JStr (np_execution_class p)))"

definition transport_binding_value :: "transport_binding_plan \<Rightarrow> json" where
  "transport_binding_value b = jobj
     (jfield ''binding_id'' (JStr (tb_binding_id b)) @ jfield ''provider'' (port_endpoint_value (tb_provider b))
      @ jfield ''consumer'' (port_endpoint_value (tb_consumer b))
      @ jfield ''provider_target_id'' (JStr (tb_provider_target_id b))
      @ jfield ''consumer_target_id'' (JStr (tb_consumer_target_id b))
      @ jfield ''transport'' (selected_transport_value (tb_transport b)) @ jfield ''phase'' (phase_value (tb_phase b)))"

definition build_action_value :: "build_action \<Rightarrow> json" where
  "build_action_value a = jobj
     (jfield ''action_id'' (JStr (ba_action_id a)) @ jfield ''node_id'' (JStr (ba_node_id a))
      @ jfield ''builder_id'' (JStr (ba_builder_id a))
      @ jvec ''input_refs'' artifact_descriptor_value (ba_input_refs a)
      @ jfield ''parameter_ref'' (artifact_descriptor_value (ba_parameter_ref a))
      @ jfield ''output_id'' (JStr (ba_output_id a)))"

definition launch_action_value :: "launch_action \<Rightarrow> json" where
  "launch_action_value a = jobj
     (jfield ''action_id'' (JStr (la_action_id a)) @ jfield ''node_id'' (JStr (la_node_id a))
      @ jfield ''target_id'' (JStr (la_target_id a)) @ jfield ''artifact'' (artifact_descriptor_value (la_artifact a))
      @ jopt ''parameter_ref'' artifact_descriptor_value (la_parameter_ref a))"

fun state_action_kind_value :: "state_action_kind \<Rightarrow> json" where
  "state_action_kind_value Provision = JStr ''provision''"
| "state_action_kind_value Attach = JStr ''attach''"
| "state_action_kind_value Snapshot = JStr ''snapshot''"
| "state_action_kind_value Restore = JStr ''restore''"
| "state_action_kind_value Migrate = JStr ''migrate''"

definition state_action_value :: "state_action \<Rightarrow> json" where
  "state_action_value a = jobj
     (jfield ''action_id'' (JStr (sa_action_id a)) @ jfield ''state_slot_id'' (JStr (sa_state_slot_id a))
      @ jfield ''target_id'' (JStr (sa_target_id a)) @ jfield ''kind'' (state_action_kind_value (sa_kind a))
      @ jopt ''input_ref'' artifact_descriptor_value (sa_input_ref a))"

definition endpoint_action_value :: "endpoint_action \<Rightarrow> json" where
  "endpoint_action_value a = jobj
     (jfield ''action_id'' (JStr (ea_action_id a)) @ jfield ''endpoint_id'' (JStr (ea_endpoint_id a))
      @ jfield ''target_id'' (JStr (ea_target_id a))
      @ jfield ''visibility'' (endpoint_visibility_value (ea_visibility a))
      @ jfield ''transport'' (selected_transport_value (ea_transport a)))"

definition realization_plan_value :: "realization_plan \<Rightarrow> json" where
  "realization_plan_value p = jobj
     (jfield ''schema'' (JStr (rpl_schema p)) @ jfield ''installation_id'' (JStr (rpl_installation_id p))
      @ jfield ''work_revision'' (artifact_descriptor_value (rpl_work_revision p))
      @ jfield ''assembly_lock'' (artifact_descriptor_value (rpl_assembly_lock p))
      @ jfield ''operational_intent'' (artifact_descriptor_value (rpl_operational_intent p))
      @ jfield ''inventory_refs'' (jarr artifact_descriptor_value (rpl_inventory_refs p))
      @ jvec ''placements'' node_placement_value (rpl_placements p)
      @ jvec ''transports'' transport_binding_value (rpl_transports p)
      @ jvec ''build_actions'' build_action_value (rpl_build_actions p)
      @ jvec ''launch_actions'' launch_action_value (rpl_launch_actions p)
      @ jvec ''state_actions'' state_action_value (rpl_state_actions p)
      @ jvec ''endpoint_actions'' endpoint_action_value (rpl_endpoint_actions p)
      @ jvec ''preconditions'' precondition_value (rpl_preconditions p)
      @ jfield ''required_authority'' (jarr JStr (rpl_required_authority p))
      @ jvec ''risk_summary'' JStr (rpl_risk_summary p))"

fun realization_status_value :: "realization_status \<Rightarrow> json" where
  "realization_status_value Planned = JStr ''planned''"
| "realization_status_value Applying = JStr ''applying''"
| "realization_status_value Active_Realization = JStr ''active''"
| "realization_status_value Degraded_Realization = JStr ''degraded''"
| "realization_status_value Stopping_Realization = JStr ''stopping''"
| "realization_status_value Stopped_Realization = JStr ''stopped''"
| "realization_status_value Failed_Realization = JStr ''failed''"
| "realization_status_value OutcomeUnknown_Realization = JStr ''outcome_unknown''"
| "realization_status_value RecoveryRequired_Realization = JStr ''recovery_required''"

definition realized_resource_value :: "realized_resource \<Rightarrow> json" where
  "realized_resource_value r = jobj
     (jfield ''resource_id'' (JStr (rre_resource_id r)) @ jfield ''resource_type'' (JStr (rre_resource_type r))
      @ jfield ''target_id'' (JStr (rre_target_id r)) @ jfield ''backend_id'' (JStr (rre_backend_id r))
      @ jmap ''properties'' (rre_properties r)
      @ jopt ''receipt_ref'' artifact_descriptor_value (rre_receipt_ref r))"

definition realization_health_value :: "realization_health \<Rightarrow> json" where
  "realization_health_value h = jobj
     (jfield ''status'' (health_status_value (rzh_status h)) @ jopt ''reason_code'' JStr (rzh_reason_code h)
      @ jvec ''evidence_refs'' artifact_descriptor_value (rzh_evidence_refs h))"

definition realization_revision_value :: "ext \<Rightarrow> realization_revision \<Rightarrow> json" where
  "realization_revision_value E r = jobj
     (jfield ''realization_id'' (JStr (rz_realization_id r)) @ jfield ''installation_id'' (JStr (rz_installation_id r))
      @ jfield ''revision'' (jword (rz_revision r)) @ jfield ''plan_ref'' (artifact_descriptor_value (rz_plan_ref r))
      @ jopt ''parent_realization_id'' JStr (rz_parent_realization_id r)
      @ jfield ''status'' (realization_status_value (rz_status r))
      @ jvec ''actual_resources'' realized_resource_value (rz_actual_resources r)
      @ jvec ''receipts'' artifact_descriptor_value (rz_receipts r)
      @ jfield ''health'' (realization_health_value (rz_health r))
      @ jfield ''created_at'' (JStr (rfc3339 E (rz_created_at r)))
      @ jfield ''updated_at'' (JStr (rfc3339 E (rz_updated_at r)))
      @ jopt ''activated_at'' (\<lambda>t. JStr (rfc3339 E t)) (rz_activated_at r)
      @ jopt ''stopped_at'' (\<lambda>t. JStr (rfc3339 E t)) (rz_stopped_at r))"

section \<open>Validation\<close>

text \<open>The four action loops share one set of action ids; each entry is its id and the checks that
  follow the id check.\<close>

definition build_action_checks :: "ext \<Rightarrow> build_action \<Rightarrow> unit model_result" where
  "build_action_checks E a = all_ok
     [validate_open_text (ba_builder_id a), validate_local_id (ba_output_id a),
      each (validate_artifact_descriptor E) (ba_input_refs a), validate_artifact_descriptor E (ba_parameter_ref a)]"

definition launch_action_checks :: "ext \<Rightarrow> launch_action \<Rightarrow> unit model_result" where
  "launch_action_checks E a = all_ok
     [validate_open_text (la_target_id a), validate_artifact_descriptor E (la_artifact a),
      validate_optional_artifact E (la_parameter_ref a)]"

definition state_action_checks :: "ext \<Rightarrow> state_action \<Rightarrow> unit model_result" where
  "state_action_checks E a = all_ok
     [validate_open_text (sa_target_id a), validate_optional_artifact E (sa_input_ref a)]"

definition endpoint_action_checks :: "ext \<Rightarrow> endpoint_action \<Rightarrow> unit model_result" where
  "endpoint_action_checks E a = all_ok
     [validate_local_id (ea_endpoint_id a), validate_open_text (ea_target_id a),
      validate_selected_transport E (ea_transport a)]"

definition plan_actions :: "ext \<Rightarrow> realization_plan \<Rightarrow> (str \<times> unit model_result) list" where
  "plan_actions E p =
     map (\<lambda>a. (ba_action_id a, build_action_checks E a)) (rpl_build_actions p)
     @ map (\<lambda>a. (la_action_id a, launch_action_checks E a)) (rpl_launch_actions p)
     @ map (\<lambda>a. (sa_action_id a, state_action_checks E a)) (rpl_state_actions p)
     @ map (\<lambda>a. (ea_action_id a, endpoint_action_checks E a)) (rpl_endpoint_actions p)"

definition action_count :: "realization_plan \<Rightarrow> nat" where
  "action_count p = length (rpl_build_actions p) + length (rpl_launch_actions p)
     + length (rpl_state_actions p) + length (rpl_endpoint_actions p)"

definition realization_plan_validate :: "ext \<Rightarrow> realization_plan \<Rightarrow> unit model_result" where
  "realization_plan_validate E p = all_ok
     [ensure (rpl_schema p = REALIZATION_PLAN_SCHEMA) WorkInvalid,
      validate_descriptor_type E (rpl_work_revision p) WORK_REVISION_TYPE_URI,
      validate_descriptor_type E (rpl_assembly_lock p) ASSEMBLY_LOCK_TYPE_URI,
      validate_descriptor_type E (rpl_operational_intent p) OPERATIONAL_INTENT_TYPE_URI,
      ensure (rpl_inventory_refs p \<noteq> []) WorkInvalid,
      each (\<lambda>d. validate_descriptor_type E d TARGET_INVENTORY_TYPE_URI) (rpl_inventory_refs p),
      ensure (\<not> MAX_REALIZATION_PLAN_ACTIONS < action_count p) WorkTooComplex,
      unique_loop (\<lambda>x. all_ok [validate_local_id (np_placement_id x), validate_open_text (np_target_id x),
          validate_open_text (np_execution_class x)])
        np_placement_id (Err WorkInvalid) no_check {} (rpl_placements p),
      unique_loop (\<lambda>b. all_ok [validate_local_id (tb_binding_id b), validate_selected_transport E (tb_transport b)])
        tb_binding_id (Err WorkInvalid) no_check {} (rpl_transports p),
      unique_loop (\<lambda>x. validate_local_id (fst x)) fst (Err WorkInvalid) snd {} (plan_actions E p),
      ensure (\<not> (list_ex blank (rpl_required_authority p)
          \<or> card (set (rpl_required_authority p)) \<noteq> length (rpl_required_authority p))) WorkInvalid,
      validate_portable_value E (realization_plan_value p)]"

definition plan_referenced_artifacts :: "realization_plan \<Rightarrow> artifact_descriptor list" where
  "plan_referenced_artifacts p =
     [rpl_work_revision p, rpl_assembly_lock p, rpl_operational_intent p] @ rpl_inventory_refs p
     @ concat (map (\<lambda>a. ba_input_refs a @ [ba_parameter_ref a]) (rpl_build_actions p))
     @ concat (map (\<lambda>a. la_artifact a # option_list (la_parameter_ref a)) (rpl_launch_actions p))
     @ concat (map (\<lambda>a. option_list (sa_input_ref a)) (rpl_state_actions p))"

fun requires_activation :: "realization_status \<Rightarrow> bool" where
  "requires_activation Active_Realization = True"
| "requires_activation Degraded_Realization = True"
| "requires_activation Stopping_Realization = True"
| "requires_activation Stopped_Realization = True"
| "requires_activation _ = False"

fun is_pre_activation :: "realization_status \<Rightarrow> bool" where
  "is_pre_activation Planned = True"
| "is_pre_activation Applying = True"
| "is_pre_activation _ = False"

definition lifecycle_inconsistent :: "realization_revision \<Rightarrow> bool" where
  "lifecycle_inconsistent r =
     (requires_activation (rz_status r) \<and> rz_activated_at r = None
      \<or> is_pre_activation (rz_status r) \<and> rz_activated_at r \<noteq> None
      \<or> (case rz_activated_at r of None \<Rightarrow> False | Some activated \<Rightarrow> activated < rz_created_at r)
      \<or> (case rz_stopped_at r of None \<Rightarrow> False | Some stopped \<Rightarrow> stopped < rz_created_at r)
      \<or> rz_status r = Stopped_Realization \<and> rz_stopped_at r = None
      \<or> rz_status r \<noteq> Stopped_Realization \<and> rz_stopped_at r \<noteq> None)"

definition realization_revision_validate :: "ext \<Rightarrow> realization_revision \<Rightarrow> unit model_result" where
  "realization_revision_validate E r = all_ok
     [ensure (\<not> (rz_revision r = 0 \<or> rz_updated_at r < rz_created_at r)) WorkInvalid,
      validate_descriptor_type E (rz_plan_ref r) REALIZATION_PLAN_TYPE_URI,
      ensure (\<not> lifecycle_inconsistent r) WorkInvalid,
      unique_loop (\<lambda>x. ensure (\<not> (blank (rre_resource_id x) \<or> blank (rre_resource_type x)
          \<or> blank (rre_target_id x) \<or> blank (rre_backend_id x))) WorkInvalid)
        rre_resource_id (Err WorkInvalid) (\<lambda>x. validate_optional_artifact E (rre_receipt_ref x)) {}
        (rz_actual_resources r),
      each (validate_artifact_descriptor E) (rz_receipts r @ rzh_evidence_refs (rz_health r)),
      validate_portable_value E (realization_revision_value E r)]"

section \<open>Used capacity\<close>

record resources_used =
  ru_cpu_millis :: u64
  ru_memory_bytes :: u64
  ru_storage_bytes :: u64
  ru_gpu_count :: u32
  ru_workloads :: u32

definition no_resources_used :: resources_used where
  "no_resources_used = \<lparr>ru_cpu_millis = 0, ru_memory_bytes = 0, ru_storage_bytes = 0, ru_gpu_count = 0, ru_workloads = 0\<rparr>"

definition or_default :: "'a::len word option \<Rightarrow> 'a word" where
  "or_default x = (case x of None \<Rightarrow> 0 | Some v \<Rightarrow> v)"

text \<open>\<open>u64::from(min)\<close> and \<open>u32::from(min)\<close> are exact.\<close>

definition used_add :: "workload_intent \<Rightarrow> resources_used \<Rightarrow> resources_used" where
  "used_add w u =
     (let replicas = ucast (rl_min (wl_replicas w)) :: u64; r = wl_resources w in
      u\<lparr>ru_cpu_millis := saturating_add (ru_cpu_millis u) (saturating_mul (or_default (rr_cpu_millis r)) replicas),
        ru_memory_bytes := saturating_add (ru_memory_bytes u) (saturating_mul (or_default (rr_memory_bytes r)) replicas),
        ru_storage_bytes := saturating_add (ru_storage_bytes u) (saturating_mul (or_default (rr_storage_bytes r)) replicas),
        ru_gpu_count := saturating_add (ru_gpu_count u)
          (saturating_mul (or_default (rr_gpu_count r)) (ucast (rl_min (wl_replicas w)))),
        ru_workloads := saturating_add (ru_workloads u) (ucast (rl_min (wl_replicas w)))\<rparr>)"

definition fits_limit :: "'a::len word \<Rightarrow> 'a word \<Rightarrow> bool" where
  "fits_limit limit used = (limit = 0 \<or> used \<le> limit)"

definition used_fits :: "target_inventory_snapshot \<Rightarrow> resources_used \<Rightarrow> bool" where
  "used_fits t u =
     (let c = ti_capacity t in
      fits_limit (cp_cpu_millis c) (ru_cpu_millis u) \<and> fits_limit (cp_memory_bytes c) (ru_memory_bytes u)
      \<and> fits_limit (cp_storage_bytes c) (ru_storage_bytes u) \<and> fits_limit (cp_gpu_count c) (ru_gpu_count u)
      \<and> fits_limit (cp_max_workloads c) (ru_workloads u))"

section \<open>The planner\<close>

definition gap_for :: "str \<Rightarrow> str \<Rightarrow> planned_workload_input \<Rightarrow> planning_gap" where
  "gap_for reason_code next_step selection =
     \<lparr>pg_reason_code = reason_code, pg_next_step = next_step, pg_workload_id = Some (pw_workload_id selection),
      pg_target_id = Some (pw_target_id selection)\<rparr>"

definition general_gap :: "str \<Rightarrow> str \<Rightarrow> planning_gap" where
  "general_gap reason_code next_step =
     \<lparr>pg_reason_code = reason_code, pg_next_step = next_step, pg_workload_id = None, pg_target_id = None\<rparr>"

text \<open>The local variables of the placement loop.\<close>

record planner_state =
  ps_gaps :: "planning_gap list"
  ps_placements :: "node_placement list"
  ps_build_actions :: "build_action list"
  ps_launch_actions :: "launch_action list"
  ps_workload_targets :: "(node_id, str) btree_map"
  ps_seen_workloads :: "str set"
  ps_used_capacity :: "(str, resources_used) btree_map"

definition start_planner_state :: planner_state where
  "start_planner_state = \<lparr>ps_gaps = [], ps_placements = [], ps_build_actions = [], ps_launch_actions = [],
     ps_workload_targets = [], ps_seen_workloads = {}, ps_used_capacity = []\<rparr>"

definition push_gap :: "planning_gap \<Rightarrow> planner_state \<Rightarrow> planner_state" where
  "push_gap g st = st\<lparr>ps_gaps := ps_gaps st @ [g]\<rparr>"

definition advertises_class :: "str \<Rightarrow> target_inventory_snapshot \<Rightarrow> bool" where
  "advertises_class execution_class t =
     list_ex (\<lambda>c. tc_available c \<and> tc_capability_id c = EXECUTION_CLASS_CAPABILITY_PREFIX @ execution_class)
       (ti_capabilities t)"

definition record_placement :: "planned_workload_input \<Rightarrow> workload_intent \<Rightarrow> planner_state \<Rightarrow> planner_state" where
  "record_placement s w st = st\<lparr>
     ps_workload_targets := bt_insert (wl_node_id w) (pw_target_id s) (ps_workload_targets st),
     ps_placements := ps_placements st @
       [\<lparr>np_placement_id = ''placement-'' @ pw_workload_id s, np_node_id = wl_node_id w,
         np_target_id = pw_target_id s, np_execution_class = pw_execution_class s\<rparr>],
     ps_build_actions := ps_build_actions st @ option_list (pw_build_action s),
     ps_launch_actions := ps_launch_actions st @
       [\<lparr>la_action_id = ''launch-'' @ pw_workload_id s, la_node_id = wl_node_id w, la_target_id = pw_target_id s,
         la_artifact = pw_launch_artifact s, la_parameter_ref = pw_parameter_ref s\<rparr>]\<rparr>"

definition place_on_target :: "ext \<Rightarrow> planned_workload_input \<Rightarrow> workload_intent \<Rightarrow> target_inventory_snapshot
    \<Rightarrow> planner_state \<Rightarrow> planner_state" where
  "place_on_target E s w t st =
     (if \<not> advertises_class (pw_execution_class s) t then
        push_gap (gap_for ''unsupported_backend''
          ''select a Target that advertises the workload execution class'' s) st
      else
        let used = used_add w (case bt_get (ps_used_capacity st) (pw_target_id s) of
              None \<Rightarrow> no_resources_used | Some u \<Rightarrow> u);
            st' = st\<lparr>ps_used_capacity := bt_insert (pw_target_id s) used (ps_used_capacity st)\<rparr> in
        if \<not> used_fits t used then
          push_gap (gap_for ''target_unsatisfied''
            ''select a Target with sufficient observed resource capacity'' s) st'
        else if \<not> is_ok (validate_artifact_descriptor E (pw_launch_artifact s))
                \<or> (case pw_parameter_ref s of None \<Rightarrow> False
                   | Some parameter \<Rightarrow> \<not> is_ok (validate_artifact_descriptor E parameter)) then
          push_gap (gap_for ''artifact_missing'' ''supply immutable backend launch artifacts'' s) st'
        else record_placement s w st')"

definition place_selection :: "ext \<Rightarrow> (str, workload_intent) btree_map \<Rightarrow> (node_id, node_lock) btree_map
    \<Rightarrow> (str, target_inventory_snapshot) btree_map \<Rightarrow> planned_workload_input \<Rightarrow> planner_state \<Rightarrow> planner_state" where
  "place_selection E workload_intents lock_nodes inventories s st =
     (case bt_get workload_intents (pw_workload_id s) of
        None \<Rightarrow> push_gap (gap_for ''work_invalid'' ''select a workload declared by the OperationalIntent'' s) st
      | Some w \<Rightarrow>
          let st' = st\<lparr>ps_seen_workloads := insert (pw_workload_id s) (ps_seen_workloads st)\<rparr> in
          if pw_workload_id s \<in> ps_seen_workloads st \<or> bt_get lock_nodes (wl_node_id w) = None
             \<or> pw_execution_class s \<notin> set (wl_execution_classes w) then
            push_gap (gap_for ''work_invalid''
              ''repair the workload selection and AssemblyLock node binding'' s) st'
          else
            (case bt_get inventories (pw_target_id s) of
               None \<Rightarrow> push_gap (gap_for ''target_unsatisfied''
                 ''select a Target with a current inventory snapshot'' s) st'
             | Some t \<Rightarrow> place_on_target E s w t st'))"

definition report_unplaced :: "workload_intent \<Rightarrow> planner_state \<Rightarrow> planner_state" where
  "report_unplaced w st =
     (if wl_workload_id w \<in> ps_seen_workloads st then st
      else push_gap \<lparr>pg_reason_code = ''target_unsatisfied'',
             pg_next_step = ''select a Target and backend for every workload'',
             pg_workload_id = Some (wl_workload_id w), pg_target_id = None\<rparr> st)"

text \<open>The stable sorts of the input.\<close>

definition normalise_input :: "ext \<Rightarrow> planner_input \<Rightarrow> planner_input" where
  "normalise_input E i = i\<lparr>
     pi_workloads := sort_key (\<lambda>s. (pw_workload_id s, pw_target_id s)) (pi_workloads i),
     pi_inventory_refs := sort_key ad_digest (pi_inventory_refs i),
     pi_inventories := sort_key ti_target_id (pi_inventories i),
     pi_required_authority := dedup_key id (sort_key id (pi_required_authority i)),
     pi_risk_summary := dedup_key id (sort_key id (pi_risk_summary i)),
     pi_preconditions := sort_key (precondition_text E) (pi_preconditions i)\<rparr>"

definition intents_by_id :: "planner_input \<Rightarrow> (str, workload_intent) btree_map" where
  "intents_by_id i = bt_of_list (map (\<lambda>w. (wl_workload_id w, w)) (oi_workloads (pi_intent i)))"

definition inventories_by_target :: "planner_input \<Rightarrow> (str, target_inventory_snapshot) btree_map" where
  "inventories_by_target i = bt_of_list (map (\<lambda>t. (ti_target_id t, t)) (pi_inventories i))"

definition place_workloads :: "ext \<Rightarrow> planner_input \<Rightarrow> planner_state" where
  "place_workloads E i =
     fold report_unplaced (oi_workloads (pi_intent i))
       (fold (place_selection E (intents_by_id i) (nodes_by_id (al_nodes (pi_assembly_lock i)))
          (inventories_by_target i)) (pi_workloads i) start_planner_state)"

definition default_target :: "planner_state \<Rightarrow> str" where
  "default_target st = (case ps_placements st of [] \<Rightarrow> [] | p # _ \<Rightarrow> np_target_id p)"

definition plan_state_actions :: "planner_input \<Rightarrow> planner_state \<Rightarrow> state_action list" where
  "plan_state_actions i st = sort_key sa_action_id
     (map (\<lambda>s. \<lparr>sa_action_id = ''state-'' @ sp_state_slot_id s, sa_state_slot_id = sp_state_slot_id s,
                sa_target_id = default_target st, sa_kind = Provision, sa_input_ref = None\<rparr>)
       (filter (\<lambda>s. sp_durability s \<noteq> Ephemeral) (oi_state (pi_intent i))))"

definition plan_endpoint_actions :: "planner_input \<Rightarrow> planner_state \<Rightarrow> endpoint_action list" where
  "plan_endpoint_actions i st = sort_key ea_action_id
     (map (\<lambda>e. \<lparr>ea_action_id = ''endpoint-'' @ en_endpoint_id e, ea_endpoint_id = en_endpoint_id e,
                ea_target_id = (case bt_get (ps_workload_targets st) (ep_node_id (en_port e)) of
                  None \<Rightarrow> default_target st | Some target \<Rightarrow> target),
                ea_visibility = en_visibility e,
                ea_transport = \<lparr>st_class_id = ''host.proxy/http-v1'', st_properties = []\<rparr>\<rparr>)
       (oi_endpoints (pi_intent i)))"

definition assemble_plan :: "planner_input \<Rightarrow> planner_state \<Rightarrow> realization_plan" where
  "assemble_plan i st = \<lparr>rpl_schema = REALIZATION_PLAN_SCHEMA, rpl_installation_id = pi_installation_id i,
     rpl_work_revision = pi_work_revision i, rpl_assembly_lock = pi_assembly_lock_ref i,
     rpl_operational_intent = pi_operational_intent_ref i, rpl_inventory_refs = pi_inventory_refs i,
     rpl_placements = ps_placements st, rpl_transports = [], rpl_build_actions = ps_build_actions st,
     rpl_launch_actions = ps_launch_actions st, rpl_state_actions = plan_state_actions i st,
     rpl_endpoint_actions = plan_endpoint_actions i st, rpl_preconditions = pi_preconditions i,
     rpl_required_authority = pi_required_authority i, rpl_risk_summary = pi_risk_summary i\<rparr>"

definition sort_gaps :: "planning_gap list \<Rightarrow> planning_gap list" where
  "sort_gaps gs = sort_key (\<lambda>g. (pg_workload_id g, pg_target_id g, pg_reason_code g)) gs"

definition plan_normalised :: "ext \<Rightarrow> planner_input \<Rightarrow> planning_gap list + realization_plan" where
  "plan_normalised E i =
     (let st = place_workloads E i; plan = assemble_plan i st in
      if ps_gaps st \<noteq> [] then Inl (sort_gaps (ps_gaps st))
      else if \<not> is_ok (realization_plan_validate E plan) then
        Inl [general_gap ''work_invalid'' ''repair the generated plan inputs'']
      else Inr plan)"

definition compile_realization_plan :: "ext \<Rightarrow> planner_input \<Rightarrow> planning_gap list + realization_plan" where
  "compile_realization_plan E i =
     (if \<not> is_ok (operational_intent_validate E (pi_intent i))
         \<or> \<not> is_ok (assembly_lock_validate E (pi_assembly_lock i)) then
        Inl [general_gap ''work_invalid'' ''repair the OperationalIntent or AssemblyLock before planning'']
      else if length (pi_inventory_refs i) \<noteq> length (pi_inventories i)
         \<or> list_ex (\<lambda>t. \<not> is_ok (target_inventory_validate E t)) (pi_inventories i) then
        Inl [general_gap ''target_unsatisfied'' ''refresh the selected Target inventory snapshot'']
      else plan_normalised E (normalise_input E i))"

end
