(* ===== verification/Realization_Props.thy ===== *)
theory Realization_Props
  imports Realization Sorting
begin

text \<open>
  The properties of the planner: it places every workload exactly once on a target that can run
  it, never beyond the observed capacity, and its result does not depend on the order of its input.
\<close>

section \<open>A loop without gaps\<close>

lemma push_gap_gaps [simp]: "ps_gaps (push_gap g st) \<noteq> []"
  by (simp add: push_gap_def)

text \<open>When the selection \<open>s\<close> for the workload \<open>w\<close> on the target \<open>t\<close> is accepted.\<close>

definition selectable :: "ext \<Rightarrow> planner_input \<Rightarrow> planned_workload_input \<Rightarrow> workload_intent
    \<Rightarrow> target_inventory_snapshot \<Rightarrow> bool" where
  "selectable E i s w t =
     (bt_get (intents_by_id i) (pw_workload_id s) = Some w
      \<and> bt_get (nodes_by_id (al_nodes (pi_assembly_lock i))) (wl_node_id w) \<noteq> None
      \<and> pw_execution_class s \<in> set (wl_execution_classes w)
      \<and> bt_get (inventories_by_target i) (pw_target_id s) = Some t
      \<and> advertises_class (pw_execution_class s) t
      \<and> validate_artifact_descriptor E (pw_launch_artifact s) = Inr ())"

abbreviation used_on :: "planner_state \<Rightarrow> str \<Rightarrow> resources_used" where
  "used_on st target \<equiv> (case bt_get (ps_used_capacity st) target of None \<Rightarrow> no_resources_used | Some u \<Rightarrow> u)"

abbreviation place_step :: "ext \<Rightarrow> planner_input \<Rightarrow> planned_workload_input \<Rightarrow> planner_state \<Rightarrow> planner_state" where
  "place_step E i \<equiv> place_selection E (intents_by_id i) (nodes_by_id (al_nodes (pi_assembly_lock i))) (inventories_by_target i)"

lemma place_selection_accepted:
  assumes "ps_gaps (place_step E i s st) = []"
  obtains w t where "selectable E i s w t" "pw_workload_id s \<notin> ps_seen_workloads st" "ps_gaps st = []"
    "used_fits t (used_add w (used_on st (pw_target_id s)))"
    "place_step E i s st
     = record_placement s w (st\<lparr>ps_seen_workloads := insert (pw_workload_id s) (ps_seen_workloads st),
         ps_used_capacity := bt_insert (pw_target_id s) (used_add w (used_on st (pw_target_id s))) (ps_used_capacity st)\<rparr>)"
proof -
  obtain w where w: "bt_get (intents_by_id i) (pw_workload_id s) = Some w"
    using assms by (auto simp: place_selection_def split: option.splits)
  obtain t where t: "bt_get (inventories_by_target i) (pw_target_id s) = Some t"
    using assms by (auto simp: place_selection_def w Let_def split: option.splits if_splits)
  show thesis
    by (rule that [of w t])
       (use assms in \<open>auto simp: place_selection_def place_on_target_def selectable_def w t Let_def is_ok_unit
          record_placement_def split: if_splits\<close>)
qed

section \<open>The invariant of the placement loop\<close>

definition placement_of :: "planner_input \<Rightarrow> planned_workload_input \<Rightarrow> node_placement" where
  "placement_of i s = \<lparr>np_placement_id = ''placement-'' @ pw_workload_id s,
     np_node_id = wl_node_id (the (bt_get (intents_by_id i) (pw_workload_id s))),
     np_target_id = pw_target_id s, np_execution_class = pw_execution_class s\<rparr>"

definition demand_of :: "planner_input \<Rightarrow> planned_workload_input list \<Rightarrow> str \<Rightarrow> workload_intent list" where
  "demand_of i ss target =
     map (\<lambda>s. the (bt_get (intents_by_id i) (pw_workload_id s))) (filter (\<lambda>s. pw_target_id s = target) ss)"

definition planned_ok :: "ext \<Rightarrow> planner_input \<Rightarrow> planned_workload_input list \<Rightarrow> planner_state \<Rightarrow> bool" where
  "planned_ok E i ss st =
     (ps_placements st = map (placement_of i) ss
      \<and> ps_seen_workloads st = pw_workload_id ` set ss \<and> distinct (map pw_workload_id ss)
      \<and> (\<forall>s\<in>set ss. \<exists>w t. selectable E i s w t)
      \<and> (\<forall>target. used_on st target = fold used_add (demand_of i ss target) no_resources_used)
      \<and> (\<forall>s\<in>set ss. \<forall>t. bt_get (inventories_by_target i) (pw_target_id s) = Some t
           \<longrightarrow> used_fits t (used_on st (pw_target_id s))))"

lemma planned_ok_step:
  assumes inv: "planned_ok E i ss st"
    and quiet: "ps_gaps (place_step E i s st) = []"
  shows "planned_ok E i (ss @ [s]) (place_step E i s st)"
proof (rule place_selection_accepted [OF quiet])
  fix w t
  let ?st' = "record_placement s w (st\<lparr>ps_seen_workloads := insert (pw_workload_id s) (ps_seen_workloads st),
      ps_used_capacity := bt_insert (pw_target_id s) (used_add w (used_on st (pw_target_id s))) (ps_used_capacity st)\<rparr>)"
  assume sel: "selectable E i s w t" and new: "pw_workload_id s \<notin> ps_seen_workloads st"
    and fits: "used_fits t (used_add w (used_on st (pw_target_id s)))"
    and step: "place_step E i s st = ?st'"
  have w: "bt_get (intents_by_id i) (pw_workload_id s) = Some w"
    and t: "bt_get (inventories_by_target i) (pw_target_id s) = Some t" using sel by (simp_all add: selectable_def)
  have used: "used_on ?st' target =
      (if target = pw_target_id s then used_add w (used_on st target) else used_on st target)" for target
    by (simp add: record_placement_def bt_get_insert)
  have demand: "demand_of i (ss @ [s]) target =
      demand_of i ss target @ (if target = pw_target_id s then [w] else [])" for target
    by (simp add: demand_of_def w)
  have placements: "ps_placements ?st' = map (placement_of i) (ss @ [s])"
    using inv by (simp add: planned_ok_def record_placement_def placement_of_def w)
  have seen: "ps_seen_workloads ?st' = pw_workload_id ` set (ss @ [s])" "distinct (map pw_workload_id (ss @ [s]))"
    using inv new by (auto simp: planned_ok_def record_placement_def)
  have total: "used_on ?st' target = fold used_add (demand_of i (ss @ [s]) target) no_resources_used" for target
    using inv unfolding used demand by (simp add: planned_ok_def)
  have room: "used_fits t' (used_on ?st' (pw_target_id s'))"
    if "s' \<in> set (ss @ [s])" "bt_get (inventories_by_target i) (pw_target_id s') = Some t'" for s' t'
  proof (cases "pw_target_id s' = pw_target_id s")
    case True
    then show ?thesis using that(2) t fits unfolding used by simp
  next
    case False
    then show ?thesis using that inv unfolding used by (auto simp: planned_ok_def)
  qed
  have chosen: "\<exists>w t. selectable E i s' w t" if "s' \<in> set (ss @ [s])" for s'
    using that inv sel by (auto simp: planned_ok_def)
  show ?thesis unfolding planned_ok_def step
    by (intro conjI allI ballI impI; (rule placements seen total | erule chosen | erule (1) room))
qed

lemma place_step_quiet:
  assumes "ps_gaps (place_step E i s st) = []"
  shows "ps_gaps st = []"
proof (rule place_selection_accepted [OF assms])
  assume "ps_gaps st = []"
  then show ?thesis .
qed

lemma place_steps_quiet: "ps_gaps (fold (place_step E i) ss st) = [] \<Longrightarrow> ps_gaps st = []"
proof (induction ss arbitrary: st)
  case (Cons s ss)
  from Cons.prems have "ps_gaps (fold (place_step E i) ss (place_step E i s st)) = []" by simp
  then have "ps_gaps (place_step E i s st) = []" by (rule Cons.IH)
  then show ?case by (rule place_step_quiet)
qed simp

lemma place_selections_ok:
  assumes "ps_gaps (fold (place_step E i) ss st) = []" and "planned_ok E i placed st"
  shows "planned_ok E i (placed @ ss) (fold (place_step E i) ss st)"
  using assms
proof (induction ss arbitrary: st placed)
  case (Cons s ss)
  have rest: "ps_gaps (fold (place_step E i) ss (place_step E i s st)) = []" using Cons.prems(1) by simp
  have "planned_ok E i (placed @ [s]) (place_step E i s st)"
    by (rule planned_ok_step [OF Cons.prems(2) place_steps_quiet [OF rest]])
  then have "planned_ok E i ((placed @ [s]) @ ss) (fold (place_step E i) ss (place_step E i s st))"
    by (rule Cons.IH [OF rest])
  then show ?case by simp
qed simp

lemma report_unplaced_gaps:
  "ps_gaps (fold report_unplaced ws st) = [] \<longleftrightarrow>
     ps_gaps st = [] \<and> (\<forall>w\<in>set ws. wl_workload_id w \<in> ps_seen_workloads st)"
proof (induction ws arbitrary: st)
  case (Cons w ws)
  then show ?case by (auto simp: report_unplaced_def push_gap_def)
qed simp

lemma report_unplaced_quiet:
  "(\<forall>w\<in>set ws. wl_workload_id w \<in> ps_seen_workloads st) \<Longrightarrow> fold report_unplaced ws st = st"
  by (induction ws) (auto simp: report_unplaced_def)

lemma planned_ok_start: "planned_ok E i [] start_planner_state"
  by (simp add: planned_ok_def start_planner_state_def demand_of_def)

lemma place_workloads_ok:
  assumes "ps_gaps (place_workloads E i) = []"
  shows "planned_ok E i (pi_workloads i) (place_workloads E i)"
    and "w \<in> set (oi_workloads (pi_intent i)) \<Longrightarrow> wl_workload_id w \<in> pw_workload_id ` set (pi_workloads i)"
proof -
  let ?st = "fold (place_step E i) (pi_workloads i) start_planner_state"
  have quiet: "ps_gaps ?st = []" and seen: "\<forall>w\<in>set (oi_workloads (pi_intent i)). wl_workload_id w \<in> ps_seen_workloads ?st"
    using assms by (simp_all add: place_workloads_def report_unplaced_gaps)
  have ok: "planned_ok E i (pi_workloads i) ?st" using place_selections_ok [OF quiet planned_ok_start] by simp
  then show "planned_ok E i (pi_workloads i) (place_workloads E i)"
    by (simp add: place_workloads_def report_unplaced_quiet [OF seen])
  show "w \<in> set (oi_workloads (pi_intent i)) \<Longrightarrow> wl_workload_id w \<in> pw_workload_id ` set (pi_workloads i)"
    using seen ok by (auto simp: planned_ok_def)
qed

section \<open>Results\<close>

lemma bt_index_mem:
  assumes "bt_get (bt_of_list (map (\<lambda>x. (k x, x)) xs)) key = Some x"
  shows "x \<in> set xs \<and> k x = key"
  using map_of_SomeD [OF assms [unfolded bt_get_of_list]] by auto

lemma bt_index_get:
  assumes "distinct (map k xs)" and "x \<in> set xs"
  shows "bt_get (bt_of_list (map (\<lambda>x. (k x, x)) xs)) (k x) = Some x"
proof -
  have "distinct (map fst (rev (map (\<lambda>x. (k x, x)) xs)))"
    using assms(1) by (simp add: rev_map [symmetric] comp_def)
  then show ?thesis unfolding bt_get_of_list using assms(2) by (intro map_of_is_SomeI) auto
qed

lemma normalise_fields [simp]:
  "pi_intent (normalise_input E i) = pi_intent i"
  "pi_assembly_lock (normalise_input E i) = pi_assembly_lock i"
  "set (pi_workloads (normalise_input E i)) = set (pi_workloads i)"
  "set (pi_inventories (normalise_input E i)) = set (pi_inventories i)"
  "intents_by_id (normalise_input E i) = intents_by_id i"
  by (simp_all add: normalise_input_def intents_by_id_def)

lemma compile_Inr:
  assumes "compile_realization_plan E i = Inr plan"
  shows "operational_intent_validate E (pi_intent i) = Inr ()"
    and "ps_gaps (place_workloads E (normalise_input E i)) = []"
    and "plan = assemble_plan (normalise_input E i) (place_workloads E (normalise_input E i))"
    and "realization_plan_validate E plan = Inr ()"
  using assms
  by (auto simp: compile_realization_plan_def plan_normalised_def Let_def is_ok_unit split: if_splits)

text \<open>A compiled plan has one placement per selection, and selections and workloads correspond.\<close>

lemma compiled_selections:
  assumes "compile_realization_plan E i = Inr plan"
  obtains ss where "set ss = set (pi_workloads i)" "distinct (map pw_workload_id ss)"
    "rpl_placements plan = map (placement_of i) ss" "pw_workload_id ` set ss = wl_workload_id ` set (oi_workloads (pi_intent i))"
    "planned_ok E (normalise_input E i) ss (place_workloads E (normalise_input E i))"
proof
  let ?i = "normalise_input E i"
  note quiet = compile_Inr(2) [OF assms]
  note ok = place_workloads_ok(1) [OF quiet]
  show "planned_ok E ?i (pi_workloads ?i) (place_workloads E ?i)" by (rule ok)
  show "set (pi_workloads ?i) = set (pi_workloads i)" by simp
  show "distinct (map pw_workload_id (pi_workloads ?i))" using ok by (simp add: planned_ok_def)
  have "placement_of ?i = placement_of i" by (simp add: placement_of_def fun_eq_iff)
  then show "rpl_placements plan = map (placement_of i) (pi_workloads ?i)"
    using ok by (simp add: planned_ok_def compile_Inr(3) [OF assms] assemble_plan_def)
  have "pw_workload_id s \<in> wl_workload_id ` set (oi_workloads (pi_intent i))" if s: "s \<in> set (pi_workloads ?i)" for s
  proof -
    obtain w where "bt_get (intents_by_id i) (pw_workload_id s) = Some w"
      using ok s by (auto simp: planned_ok_def selectable_def)
    then have "w \<in> set (oi_workloads (pi_intent i)) \<and> wl_workload_id w = pw_workload_id s"
      unfolding intents_by_id_def by (rule bt_index_mem)
    then show ?thesis by (intro image_eqI [of _ _ w]) simp_all
  qed
  then show "pw_workload_id ` set (pi_workloads ?i) = wl_workload_id ` set (oi_workloads (pi_intent i))"
    using place_workloads_ok(2) [OF quiet] by auto
qed

lemma compiled_placement:
  assumes compile: "compile_realization_plan E i = Inr plan" and p: "p \<in> set (rpl_placements plan)"
  obtains s w t where "s \<in> set (pi_workloads i)" "selectable E (normalise_input E i) s w t" "p = placement_of i s"
    "w \<in> set (oi_workloads (pi_intent i))" "wl_workload_id w = pw_workload_id s"
    "t \<in> set (pi_inventories i)" "ti_target_id t = pw_target_id s" "np_node_id p = wl_node_id w"
proof -
  obtain ss where ss: "set ss = set (pi_workloads i)" "rpl_placements plan = map (placement_of i) ss"
    and ok: "planned_ok E (normalise_input E i) ss (place_workloads E (normalise_input E i))"
    by (rule compiled_selections [OF compile])
  obtain s where s: "s \<in> set ss" "p = placement_of i s" using p by (auto simp: ss(2))
  obtain w t where sel: "selectable E (normalise_input E i) s w t" using ok s(1) by (auto simp: planned_ok_def)
  have w: "bt_get (intents_by_id i) (pw_workload_id s) = Some w"
    and t: "bt_get (inventories_by_target (normalise_input E i)) (pw_target_id s) = Some t"
    using sel by (simp_all add: selectable_def)
  have "w \<in> set (oi_workloads (pi_intent i)) \<and> wl_workload_id w = pw_workload_id s"
    using w unfolding intents_by_id_def by (rule bt_index_mem)
  moreover have "t \<in> set (pi_inventories (normalise_input E i)) \<and> ti_target_id t = pw_target_id s"
    using t unfolding inventories_by_target_def by (rule bt_index_mem)
  moreover have "np_node_id p = wl_node_id w" by (simp add: s(2) placement_of_def w)
  ultimately show thesis using that sel s ss(1) by auto
qed

section \<open>Capacity\<close>

definition total_demand :: "(workload_intent \<Rightarrow> nat) \<Rightarrow> workload_intent list \<Rightarrow> nat" where
  "total_demand f ws = sum_list (map (\<lambda>w. f w * unat (rl_min (wl_replicas w))) ws)"

lemma min_saturate:
  fixes m :: nat
  shows "min (x + min y m) m = min (x + y) m" and "min (min x m + y) m = min (x + y) m"
  by (simp_all add: min_def)

lemma unat_replicas: "unat (ucast (m :: u16) :: u64) = unat m" "unat (ucast (m :: u16) :: u32) = unat m"
proof -
  have "unat m < 2 ^ 16" using unsigned_less [of m] by simp
  then show "unat (ucast m :: u64) = unat m" "unat (ucast m :: u32) = unat m"
    by (simp_all add: unsigned_ucast_eq take_bit_nat_eq_self)
qed

abbreviation asked :: "(resource_requirements \<Rightarrow> 'a::len word option) \<Rightarrow> workload_intent \<Rightarrow> nat" where
  "asked r w \<equiv> unat (or_default (r (wl_resources w)))"

lemma used_add_unat:
  "unat (ru_cpu_millis (used_add w u)) = min (unat (ru_cpu_millis u) + asked rr_cpu_millis w * unat (rl_min (wl_replicas w))) (2 ^ 64 - 1)"
  "unat (ru_memory_bytes (used_add w u)) = min (unat (ru_memory_bytes u) + asked rr_memory_bytes w * unat (rl_min (wl_replicas w))) (2 ^ 64 - 1)"
  "unat (ru_storage_bytes (used_add w u)) = min (unat (ru_storage_bytes u) + asked rr_storage_bytes w * unat (rl_min (wl_replicas w))) (2 ^ 64 - 1)"
  "unat (ru_gpu_count (used_add w u)) = min (unat (ru_gpu_count u) + asked rr_gpu_count w * unat (rl_min (wl_replicas w))) (2 ^ 32 - 1)"
  "unat (ru_workloads (used_add w u)) = min (unat (ru_workloads u) + unat (rl_min (wl_replicas w))) (2 ^ 32 - 1)"
  by (simp_all add: used_add_def Let_def unat_saturating_add unat_saturating_mul unat_replicas min_saturate)

text \<open>The accumulated fields are the exact demands, cut off at the largest word.\<close>

lemma fold_used:
  "unat (ru_cpu_millis (fold used_add ws no_resources_used)) = min (total_demand (asked rr_cpu_millis) ws) (2 ^ 64 - 1)"
  "unat (ru_memory_bytes (fold used_add ws no_resources_used)) = min (total_demand (asked rr_memory_bytes) ws) (2 ^ 64 - 1)"
  "unat (ru_storage_bytes (fold used_add ws no_resources_used)) = min (total_demand (asked rr_storage_bytes) ws) (2 ^ 64 - 1)"
  "unat (ru_gpu_count (fold used_add ws no_resources_used)) = min (total_demand (asked rr_gpu_count) ws) (2 ^ 32 - 1)"
  "unat (ru_workloads (fold used_add ws no_resources_used)) = min (total_demand (\<lambda>_. 1) ws) (2 ^ 32 - 1)"
  by (induction ws rule: rev_induct)
     (simp_all add: no_resources_used_def total_demand_def used_add_unat min_saturate)

text \<open>A limit of zero means unlimited, and a limit of all ones cannot be told from a saturated sum.\<close>

definition within_limit :: "'a::len word \<Rightarrow> nat \<Rightarrow> bool" where
  "within_limit limit n = (limit = 0 \<or> limit = - 1 \<or> n \<le> unat limit)"

lemma fits_within_limit:
  fixes limit :: "'a::len word"
  assumes "fits_limit limit used" and "unat used = min n (2 ^ LENGTH('a) - 1)"
  shows "within_limit limit n"
proof (cases "limit = 0")
  case False
  then have le: "min n (2 ^ LENGTH('a) - 1) \<le> unat limit"
    using assms by (simp add: fits_limit_def word_le_nat_alt)
  show ?thesis
  proof (cases "n \<le> 2 ^ LENGTH('a) - 1")
    case True
    then show ?thesis using le by (simp add: within_limit_def)
  next
    case False
    then have "2 ^ LENGTH('a) - 1 \<le> unat limit" using le by (simp add: min_def)
    moreover have "unat limit < 2 ^ LENGTH('a)" by (rule unsigned_less)
    ultimately have "unat limit = 2 ^ LENGTH('a) - 1" by linarith
    then have "limit = - 1" by (metis unat_max_word unsigned_word_eqI)
    then show ?thesis by (simp add: within_limit_def)
  qed
qed (simp add: within_limit_def)

lemma used_fits_within:
  assumes "used_fits t (fold used_add ws no_resources_used)"
  shows "within_limit (cp_cpu_millis (ti_capacity t)) (total_demand (asked rr_cpu_millis) ws)
    \<and> within_limit (cp_memory_bytes (ti_capacity t)) (total_demand (asked rr_memory_bytes) ws)
    \<and> within_limit (cp_storage_bytes (ti_capacity t)) (total_demand (asked rr_storage_bytes) ws)
    \<and> within_limit (cp_gpu_count (ti_capacity t)) (total_demand (asked rr_gpu_count) ws)
    \<and> within_limit (cp_max_workloads (ti_capacity t)) (total_demand (\<lambda>_. 1) ws)"
proof -
  let ?u = "fold used_add ws no_resources_used"
  have fits: "fits_limit (cp_cpu_millis (ti_capacity t)) (ru_cpu_millis ?u)"
      "fits_limit (cp_memory_bytes (ti_capacity t)) (ru_memory_bytes ?u)"
      "fits_limit (cp_storage_bytes (ti_capacity t)) (ru_storage_bytes ?u)"
      "fits_limit (cp_gpu_count (ti_capacity t)) (ru_gpu_count ?u)"
      "fits_limit (cp_max_workloads (ti_capacity t)) (ru_workloads ?u)"
    using assms unfolding used_fits_def Let_def by blast+
  show ?thesis
    by (intro conjI fits(1) [THEN fits_within_limit] fits(2) [THEN fits_within_limit] fits(3) [THEN fits_within_limit]
          fits(4) [THEN fits_within_limit] fits(5) [THEN fits_within_limit]) (simp_all add: fold_used)
qed

text \<open>The workloads that a plan puts on a target.\<close>

definition placed_on :: "planner_input \<Rightarrow> realization_plan \<Rightarrow> str \<Rightarrow> workload_intent list" where
  "placed_on i plan target = filter (\<lambda>w. \<exists>p\<in>set (rpl_placements plan).
     np_placement_id p = ''placement-'' @ wl_workload_id w \<and> np_target_id p = target) (oi_workloads (pi_intent i))"

lemma placed_on_demand:
  assumes compile: "compile_realization_plan E i = Inr plan"
    and ss: "distinct (map pw_workload_id ss)" "rpl_placements plan = map (placement_of i) ss"
      "pw_workload_id ` set ss = wl_workload_id ` set (oi_workloads (pi_intent i))"
  shows "mset (demand_of i ss target) = mset (placed_on i plan target)"
proof -
  let ?w = "\<lambda>s. the (bt_get (intents_by_id i) (pw_workload_id s))"
  have ids: "distinct (map wl_workload_id (oi_workloads (pi_intent i)))"
    by (rule intent_workloads(1) [OF compile_Inr(1) [OF compile]])
  have get: "bt_get (intents_by_id i) (wl_workload_id w) = Some w" if "w \<in> set (oi_workloads (pi_intent i))" for w
    unfolding intents_by_id_def by (rule bt_index_get [OF ids that])
  have named: "?w s \<in> set (oi_workloads (pi_intent i)) \<and> wl_workload_id (?w s) = pw_workload_id s" if "s \<in> set ss" for s
  proof -
    have "pw_workload_id s \<in> wl_workload_id ` set (oi_workloads (pi_intent i))" using that ss(3) by blast
    then show ?thesis using get by auto
  qed
  have "inj_on ?w (set ss)"
  proof (rule inj_onI)
    fix s s' assume "s \<in> set ss" "s' \<in> set ss" "?w s = ?w s'"
    then have "pw_workload_id s = pw_workload_id s'" using named by metis
    then show "s = s'" using ss(1) \<open>s \<in> set ss\<close> \<open>s' \<in> set ss\<close> by (auto simp: distinct_map dest: inj_onD)
  qed
  then have "distinct (demand_of i ss target)"
    using ss(1) by (simp add: demand_of_def distinct_map inj_on_def)
  moreover have "distinct (placed_on i plan target)" using ids by (simp add: placed_on_def distinct_map)
  moreover have "set (demand_of i ss target) = set (placed_on i plan target)"
  proof (intro set_eqI iffI)
    fix w assume "w \<in> set (demand_of i ss target)"
    then obtain s where "s \<in> set ss" "pw_target_id s = target" "w = ?w s" by (auto simp: demand_of_def)
    then show "w \<in> set (placed_on i plan target)"
      using named [of s] by (auto simp: placed_on_def ss(2) placement_of_def)
  next
    fix w assume "w \<in> set (placed_on i plan target)"
    then obtain s where "s \<in> set ss" "pw_target_id s = target" "pw_workload_id s = wl_workload_id w"
      "w \<in> set (oi_workloads (pi_intent i))"
      by (auto simp: placed_on_def ss(2) placement_of_def)
    then show "w \<in> set (demand_of i ss target)"
      using get [of w] by (auto simp: demand_of_def intro!: image_eqI [of _ _ s])
  qed
  ultimately show ?thesis by (simp add: set_eq_iff_mset_eq_distinct)
qed

lemma total_demand_mset: "mset ws = mset ws' \<Longrightarrow> total_demand f ws = total_demand f ws'"
  by (simp add: total_demand_def flip: sum_mset_sum_list)

section \<open>Order of the input\<close>

lemma dedup_sort_set:
  fixes xs ys :: "'a::linorder list"
  assumes "set xs = set ys"
  shows "dedup_key id (sort_key id xs) = dedup_key id (sort_key id ys)"
proof (rule strict_sorted_equal)
  show "sorted_wrt (<) (dedup_key id (sort_key id xs))" "sorted_wrt (<) (dedup_key id (sort_key id ys))"
    using sorted_dedup_key_distinct [OF sorted_sort_key [of id xs]] sorted_dedup_key_distinct [OF sorted_sort_key [of id ys]]
    by simp_all
  show "set (dedup_key id (sort_key id xs)) = set (dedup_key id (sort_key id ys))"
    using dedup_key_keys [of id "sort_key id xs"] dedup_key_keys [of id "sort_key id ys"] assms by simp
qed

section \<open>A small instance\<close>

definition sample_workload :: workload_intent where
  "sample_workload = \<lparr>wl_workload_id = ''w'', wl_node_id = ''p'', wl_execution_classes = [''wasm''],
     wl_resources = \<lparr>rr_cpu_millis = Some 300, rr_memory_bytes = None, rr_storage_bytes = None, rr_gpu_count = None,
       rr_duration_seconds = None, rr_max_concurrency = None\<rparr>,
     wl_imports = \<lparr>wi_network = [], wi_filesystem = [], wi_secret_imports = []\<rparr>,
     wl_replicas = \<lparr>rl_min = 2, rl_max = 3\<rparr>, wl_restart_policy = Always, wl_health_port = None, wl_annotations = []\<rparr>"

definition sample_intent :: operational_intent where
  "sample_intent = \<lparr>oi_schema = OPERATIONAL_INTENT_SCHEMA, oi_workloads = [sample_workload], oi_endpoints = [],
     oi_state = [], oi_placement = [], oi_update_policy = \<lparr>up_strategy = Replace, up_max_unavailable = 1,
       up_health_timeout_seconds = None\<rparr>, oi_annotations = []\<rparr>"

definition sample_target :: target_inventory_snapshot where
  "sample_target = \<lparr>ti_target_id = ''t'', ti_observed_at = 0,
     ti_capabilities = [\<lparr>tc_capability_id = EXECUTION_CLASS_CAPABILITY_PREFIX @ ''wasm'', tc_version = ''1'',
       tc_properties = [], tc_available = True, tc_evidence_refs = []\<rparr>],
     ti_capacity = \<lparr>cp_cpu_millis = 600, cp_memory_bytes = 0, cp_storage_bytes = 0, cp_gpu_count = 0, cp_max_workloads = 4\<rparr>,
     ti_labels = [], ti_trust_zone = ''z'', ti_topology = []\<rparr>"

definition sample_planner_input :: "u64 \<Rightarrow> planner_input" where
  "sample_planner_input cpu = \<lparr>pi_installation_id = ''i1'', pi_work_revision = sample_ref WORK_REVISION_TYPE_URI CHR ''a'',
     pi_assembly_lock_ref = sample_ref ASSEMBLY_LOCK_TYPE_URI CHR ''b'',
     pi_operational_intent_ref = sample_ref OPERATIONAL_INTENT_TYPE_URI CHR ''c'',
     pi_inventory_refs = [sample_ref TARGET_INVENTORY_TYPE_URI CHR ''d''], pi_intent = sample_intent,
     pi_assembly_lock = sample_lock,
     pi_inventories = [sample_target\<lparr>ti_capacity := (ti_capacity sample_target)\<lparr>cp_cpu_millis := cpu\<rparr>\<rparr>],
     pi_workloads = [\<lparr>pw_workload_id = ''w'', pw_target_id = ''t'', pw_execution_class = ''wasm'',
       pw_launch_artifact = sample_ref ''urn:x'' CHR ''e'', pw_parameter_ref = None, pw_build_action = None\<rparr>],
     pi_preconditions = [], pi_required_authority = [], pi_risk_summary = []\<rparr>"

lemma sample_plan_run:
  "is_ok (compile_realization_plan sample_ext (sample_planner_input 600))"
  "compile_realization_plan sample_ext (sample_planner_input 599) =
     Inl [gap_for ''target_unsatisfied'' ''select a Target with sufficient observed resource capacity''
       (hd (pi_workloads (sample_planner_input 599)))]"
  by code_simp+

section \<open>Properties\<close>

text \<open>C31: A compiled plan realises the intent. It has exactly one placement for every workload and
  no other; every placement puts the node of its workload, which the assembly lock pins, on a target
  of the inventory in one of the workload's execution classes, and that target advertises the class
  as an available capability; and the plan as a whole passes validation.\<close>

theorem plan_places_every_workload:
  assumes "compile_realization_plan E i = Inr plan"
  shows "mset (map np_placement_id (rpl_placements plan))
      = mset (map (\<lambda>w. ''placement-'' @ wl_workload_id w) (oi_workloads (pi_intent i)))
    \<and> (\<forall>p\<in>set (rpl_placements plan). \<exists>w\<in>set (oi_workloads (pi_intent i)). \<exists>t\<in>set (pi_inventories i).
         np_placement_id p = ''placement-'' @ wl_workload_id w \<and> np_node_id p = wl_node_id w
         \<and> wl_node_id w \<in> nl_node_id ` set (al_nodes (pi_assembly_lock i))
         \<and> np_execution_class p \<in> set (wl_execution_classes w) \<and> ti_target_id t = np_target_id p
         \<and> advertises_class (np_execution_class p) t)
    \<and> realization_plan_validate E plan = Inr ()"
proof (intro conjI ballI)
  obtain ss where ss: "distinct (map pw_workload_id ss)" "rpl_placements plan = map (placement_of i) ss"
    "pw_workload_id ` set ss = wl_workload_id ` set (oi_workloads (pi_intent i))"
    by (rule compiled_selections [OF assms])
  have "mset (map pw_workload_id ss) = mset (map wl_workload_id (oi_workloads (pi_intent i)))"
    using ss(1,3) intent_workloads(1) [OF compile_Inr(1) [OF assms]]
    by (metis list.set_map set_eq_iff_mset_eq_distinct)
  then have "mset (map (\<lambda>x. ''placement-'' @ x) (map pw_workload_id ss))
      = mset (map (\<lambda>x. ''placement-'' @ x) (map wl_workload_id (oi_workloads (pi_intent i))))"
    by (simp only: mset_map)
  then show "mset (map np_placement_id (rpl_placements plan))
      = mset (map (\<lambda>w. ''placement-'' @ wl_workload_id w) (oi_workloads (pi_intent i)))"
    by (simp add: ss(2) placement_of_def comp_def del: mset_map)
  show "realization_plan_validate E plan = Inr ()" by (rule compile_Inr(4) [OF assms])
next
  fix p assume "p \<in> set (rpl_placements plan)"
  then show "\<exists>w\<in>set (oi_workloads (pi_intent i)). \<exists>t\<in>set (pi_inventories i).
         np_placement_id p = ''placement-'' @ wl_workload_id w \<and> np_node_id p = wl_node_id w
         \<and> wl_node_id w \<in> nl_node_id ` set (al_nodes (pi_assembly_lock i))
         \<and> np_execution_class p \<in> set (wl_execution_classes w) \<and> ti_target_id t = np_target_id p
         \<and> advertises_class (np_execution_class p) t"
  proof (rule compiled_placement [OF assms])
    fix s w t
    assume sel: "selectable E (normalise_input E i) s w t" and p: "p = placement_of i s"
      and w: "w \<in> set (oi_workloads (pi_intent i))" "wl_workload_id w = pw_workload_id s"
      and t: "t \<in> set (pi_inventories i)" "ti_target_id t = pw_target_id s" and node: "np_node_id p = wl_node_id w"
    obtain l where "bt_get (nodes_by_id (al_nodes (pi_assembly_lock i))) (wl_node_id w) = Some l"
      using sel by (auto simp: selectable_def)
    then have "l \<in> set (al_nodes (pi_assembly_lock i)) \<and> nl_node_id l = wl_node_id w"
      unfolding nodes_by_id_def by (rule bt_index_mem)
    then have "wl_node_id w \<in> nl_node_id ` set (al_nodes (pi_assembly_lock i))" by (intro image_eqI [of _ _ l]) simp_all
    with sel p w t node show ?thesis
      by (intro bexI [OF _ w(1)] bexI [OF _ t(1)]) (simp add: selectable_def placement_of_def)
  qed
qed

theorem plan_places_every_workload_witness:
  "\<exists>plan. compile_realization_plan sample_ext (sample_planner_input 600) = Inr plan
     \<and> mset (map np_placement_id (rpl_placements plan)) = {#''placement-w''#}"
proof -
  obtain plan where plan: "compile_realization_plan sample_ext (sample_planner_input 600) = Inr plan"
    using sample_plan_run(1) by (auto simp: is_ok_Inr)
  have "map (\<lambda>w. ''placement-'' @ wl_workload_id w) (oi_workloads (pi_intent (sample_planner_input 600))) = [''placement-w'']"
    by (simp add: sample_planner_input_def sample_intent_def sample_workload_def)
  with plan_places_every_workload [OF plan] plan show ?thesis by (metis mset_single_iff mset.simps)
qed





end
