(* ===== verification/Event_Store.thy ===== *)
theory Event_Store
  imports Json_Model
begin

text \<open>
  The event spine (\<open>runtime/event_store.rs\<close>, with \<open>EventEnvelope\<close> of \<open>core/event.rs\<close>):
  the in-memory store and the SQLite store.

  Every method of a store runs under its lock, so a call is one step on the store's state. The
  id and the clock that an append reads are part of its \<open>event_draft\<close>. The broadcast channel is
  the sequence of events sent so far. The SQLite store is the table \<open>events\<close> as a list of rows in
  the order of insertion, with the statements of the source read as SQL: \<open>INSERT\<close> fails on the
  primary key and the unique constraint, text compares by bytes, and \<open>MAX(sequence) + 1\<close> leaves the
  range of \<open>i64\<close> when the maximum is its largest value, which the typed read then rejects. What chrono,
  \<open>serde_json\<close> and the \<open>LIKE\<close> operator compute is a parameter (\<open>sql_ext\<close>).
\<close>

section \<open>Events\<close>

record event_envelope =
  ev_id :: str
  ev_session_id :: str
  ev_sequence :: u64
  ev_writer_package_id :: str
  ev_kind :: str
  ev_schema_version :: u16
  ev_timestamp :: int
  ev_payload :: json
  ev_metadata :: json

text \<open>The arguments of an append that allocates the sequence number, with the new id and the time
  it reads.\<close>

record event_draft =
  ed_id :: str
  ed_timestamp :: int
  ed_writer_package_id :: str
  ed_kind :: str
  ed_schema_version :: u16
  ed_payload :: json
  ed_metadata :: json

definition envelope :: "str \<Rightarrow> u64 \<Rightarrow> event_draft \<Rightarrow> event_envelope" where
  "envelope s n d = \<lparr>ev_id = ed_id d, ev_session_id = s, ev_sequence = n,
     ev_writer_package_id = ed_writer_package_id d, ev_kind = ed_kind d, ev_schema_version = ed_schema_version d,
     ev_timestamp = ed_timestamp d, ev_payload = ed_payload d, ev_metadata = ed_metadata d\<rparr>"

datatype event_error =
    DuplicateEventId | DuplicateEventPosition | SessionNotEmpty | SequenceOverflow
  | SequenceOutOfRange | SqlConstraint | SqlConversion

section \<open>The in-memory store\<close>

record memory_store =
  me_events :: "(str, event_envelope list) btree_map"
  me_sent :: "event_envelope list"

definition memory_start :: memory_store where
  "memory_start = \<lparr>me_events = [], me_sent = []\<rparr>"

definition session_events :: "(str, event_envelope list) btree_map \<Rightarrow> str \<Rightarrow> event_envelope list" where
  "session_events m s = (case bt_get m s of None \<Rightarrow> [] | Some es \<Rightarrow> es)"

definition all_events :: "(str, event_envelope list) btree_map \<Rightarrow> event_envelope list" where
  "all_events m = concat (map snd m)"

definition in_memory_next_sequence :: "event_envelope list option \<Rightarrow> event_error + u64" where
  "in_memory_next_sequence events =
     (case events of
        None \<Rightarrow> Inr 0
      | Some [] \<Rightarrow> Inr 0
      | Some (e # es) \<Rightarrow>
          let m = Max (set (map ev_sequence (e # es))) in if m = - 1 then Inl SequenceOverflow else Inr (m + 1))"

definition memory_append :: "event_envelope \<Rightarrow> memory_store \<Rightarrow> (event_error + unit) \<times> memory_store" where
  "memory_append e st =
     (let m = me_events st; session = session_events m (ev_session_id e) in
      if list_ex (\<lambda>x. ev_id x = ev_id e) (all_events m) then (Inl DuplicateEventId, st)
      else if list_ex (\<lambda>x. ev_sequence x = ev_sequence e) session then (Inl DuplicateEventPosition, st)
      else (Inr (), st\<lparr>me_events := bt_insert (ev_session_id e) (sort_key ev_sequence (session @ [e])) m,
                      me_sent := me_sent st @ [e]\<rparr>))"

definition batch_event :: "event_envelope \<Rightarrow> str set \<times> (str, event_envelope list) btree_map
    \<Rightarrow> event_error + str set \<times> (str, event_envelope list) btree_map" where
  "batch_event e = (\<lambda>(ids, candidate).
     if ev_id e \<in> ids then Inl DuplicateEventId
     else let session = session_events candidate (ev_session_id e) in
       if list_ex (\<lambda>x. ev_sequence x = ev_sequence e) session then Inl DuplicateEventPosition
       else Inr (insert (ev_id e) ids, bt_insert (ev_session_id e) (session @ [e]) candidate))"

definition memory_append_batch :: "event_envelope list \<Rightarrow> str list \<Rightarrow> memory_store
    \<Rightarrow> (event_error + unit) \<times> memory_store" where
  "memory_append_batch events required st =
     (let m = me_events st in
      if list_ex (\<lambda>s. session_events m s \<noteq> []) required then (Inl SessionNotEmpty, st)
      else case foldM batch_event events (set (map ev_id (all_events m)), m) of
        Inl e \<Rightarrow> (Inl e, st)
      | Inr (_, candidate) \<Rightarrow>
          (Inr (), st\<lparr>me_events := map (apsnd (sort_key ev_sequence)) candidate, me_sent := me_sent st @ events\<rparr>))"

definition memory_list_all :: "memory_store \<Rightarrow> event_envelope list" where
  "memory_list_all st =
     sort_key (\<lambda>e. (ev_timestamp e, ev_session_id e, ev_sequence e)) (all_events (me_events st))"

definition memory_list_session_range :: "str \<Rightarrow> u64 option \<Rightarrow> nat option \<Rightarrow> memory_store \<Rightarrow> event_envelope list" where
  "memory_list_session_range s after limit st =
     (let events = sort_key ev_sequence
        (filter (\<lambda>e. case after of None \<Rightarrow> True | Some n \<Rightarrow> n < ev_sequence e) (session_events (me_events st) s)) in
      case limit of None \<Rightarrow> events | Some n \<Rightarrow> take n events)"

definition memory_list_session :: "str \<Rightarrow> memory_store \<Rightarrow> event_envelope list" where
  "memory_list_session s st = memory_list_session_range s None None st"

definition memory_next_sequence :: "str \<Rightarrow> memory_store \<Rightarrow> event_error + u64" where
  "memory_next_sequence s st = in_memory_next_sequence (bt_get (me_events st) s)"

definition memory_push :: "event_envelope \<Rightarrow> memory_store \<Rightarrow> memory_store" where
  "memory_push e st = st\<lparr>
     me_events := bt_insert (ev_session_id e) (session_events (me_events st) (ev_session_id e) @ [e]) (me_events st),
     me_sent := me_sent st @ [e]\<rparr>"

definition memory_append_with_sequence :: "str \<Rightarrow> event_draft \<Rightarrow> memory_store
    \<Rightarrow> (event_error + event_envelope) \<times> memory_store" where
  "memory_append_with_sequence s d st =
     (case in_memory_next_sequence (bt_get (me_events st) s) of
        Inl e \<Rightarrow> (Inl e, st)
      | Inr n \<Rightarrow> (Inr (envelope s n d), memory_push (envelope s n d) st))"

definition memory_append_if_next :: "str \<Rightarrow> u64 \<Rightarrow> event_draft \<Rightarrow> memory_store
    \<Rightarrow> (event_error + event_envelope option) \<times> memory_store" where
  "memory_append_if_next s expected d st =
     (case in_memory_next_sequence (bt_get (me_events st) s) of
        Inl e \<Rightarrow> (Inl e, st)
      | Inr n \<Rightarrow>
          if n \<noteq> expected then (Inr None, st)
          else (Inr (Some (envelope s n d)), memory_push (envelope s n d) st))"

text \<open>The trait's default, which the in-memory store keeps.\<close>

definition list_kind_prefix :: "str \<Rightarrow> event_envelope list \<Rightarrow> event_envelope list" where
  "list_kind_prefix pre all = filter (\<lambda>e. starts_with (ev_kind e) pre) all"

definition memory_list_session_kind_prefix :: "str \<Rightarrow> str \<Rightarrow> memory_store \<Rightarrow> event_envelope list" where
  "memory_list_session_kind_prefix s pre st =
     filter (\<lambda>e. starts_with (ev_kind e) pre) (session_events (me_events st) s)"

section \<open>The SQLite store\<close>

record sql_ext =
  sx_to_rfc3339 :: "int \<Rightarrow> str"
  sx_parse_rfc3339 :: "str \<Rightarrow> int option"
  sx_json_to_string :: "json \<Rightarrow> str"
  sx_json_from_str :: "str \<Rightarrow> json option"
  sx_like :: "str \<Rightarrow> str \<Rightarrow> bool"

record event_row =
  er_id :: str
  er_session_id :: str
  er_sequence :: int
  er_timestamp :: str
  er_writer_package_id :: str
  er_kind :: str
  er_schema_version :: int
  er_payload_json :: str
  er_metadata_json :: str

record sqlite_store =
  sq_rows :: "event_row list"
  sq_sent :: "event_envelope list"

definition sqlite_start :: sqlite_store where
  "sqlite_start = \<lparr>sq_rows = [], sq_sent = []\<rparr>"

text \<open>The parameters bound by the \<open>INSERT\<close> statements; \<open>sequence as i64\<close> reinterprets the word.\<close>

definition event_to_row :: "sql_ext \<Rightarrow> event_envelope \<Rightarrow> event_row" where
  "event_to_row X e = \<lparr>er_id = ev_id e, er_session_id = ev_session_id e, er_sequence = sint (ev_sequence e),
     er_timestamp = sx_to_rfc3339 X (ev_timestamp e), er_writer_package_id = ev_writer_package_id e,
     er_kind = ev_kind e, er_schema_version = uint (ev_schema_version e),
     er_payload_json = sx_json_to_string X (ev_payload e), er_metadata_json = sx_json_to_string X (ev_metadata e)\<rparr>"

definition row_to_event :: "sql_ext \<Rightarrow> event_row \<Rightarrow> event_error + event_envelope" where
  "row_to_event X r =
     and_then (ok_or (sx_parse_rfc3339 X (er_timestamp r)) SqlConversion) (\<lambda>timestamp.
     and_then (ok_or (sx_json_from_str X (er_payload_json r)) SqlConversion) (\<lambda>payload.
     and_then (ok_or (sx_json_from_str X (er_metadata_json r)) SqlConversion) (\<lambda>metadata.
       Inr \<lparr>ev_id = er_id r, ev_session_id = er_session_id r, ev_sequence = word_of_int (er_sequence r),
         ev_writer_package_id = er_writer_package_id r, ev_kind = er_kind r,
         ev_schema_version = word_of_int (er_schema_version r), ev_timestamp = timestamp, ev_payload = payload,
         ev_metadata = metadata\<rparr>)))"

definition sql_insert :: "event_row \<Rightarrow> event_row list \<Rightarrow> event_error + event_row list" where
  "sql_insert r rows =
     (if list_ex (\<lambda>x. er_id x = er_id r \<or> (er_session_id x = er_session_id r \<and> er_sequence x = er_sequence r)) rows
      then Inl SqlConstraint else Inr (rows @ [r]))"

definition sql_next_sequence :: "str \<Rightarrow> event_row list \<Rightarrow> event_error + int" where
  "sql_next_sequence s rows =
     (case filter (\<lambda>r. er_session_id r = s) rows of
        [] \<Rightarrow> Inr 0
      | r # rs \<Rightarrow>
          let m = Max (set (map er_sequence (r # rs))) in
          if m = 2 ^ 63 - 1 then Inl SqlConversion else Inr (m + 1))"

definition sqlite_append :: "sql_ext \<Rightarrow> event_envelope \<Rightarrow> sqlite_store \<Rightarrow> (event_error + unit) \<times> sqlite_store" where
  "sqlite_append X e st =
     (case sql_insert (event_to_row X e) (sq_rows st) of
        Inl err \<Rightarrow> (Inl err, st)
      | Inr rows \<Rightarrow> (Inr (), st\<lparr>sq_rows := rows, sq_sent := sq_sent st @ [e]\<rparr>))"

text \<open>A failing statement drops the transaction, which rolls it back.\<close>

definition sqlite_append_batch :: "sql_ext \<Rightarrow> event_envelope list \<Rightarrow> str list \<Rightarrow> sqlite_store
    \<Rightarrow> (event_error + unit) \<times> sqlite_store" where
  "sqlite_append_batch X events required st =
     (if list_ex (\<lambda>s. list_ex (\<lambda>r. er_session_id r = s) (sq_rows st)) required then (Inl SessionNotEmpty, st)
      else case foldM (\<lambda>e. sql_insert (event_to_row X e)) events (sq_rows st) of
        Inl err \<Rightarrow> (Inl err, st)
      | Inr rows \<Rightarrow> (Inr (), st\<lparr>sq_rows := rows, sq_sent := sq_sent st @ events\<rparr>))"

definition sqlite_list_all :: "sql_ext \<Rightarrow> sqlite_store \<Rightarrow> event_error + event_envelope list" where
  "sqlite_list_all X st =
     mapM (row_to_event X) (sort_key (\<lambda>r. (er_timestamp r, er_session_id r, er_sequence r)) (sq_rows st))"

definition sqlite_list_session_range :: "sql_ext \<Rightarrow> str \<Rightarrow> u64 option \<Rightarrow> nat option \<Rightarrow> sqlite_store
    \<Rightarrow> event_error + event_envelope list" where
  "sqlite_list_session_range X s after limit st =
     (let after_sequence = (case after of None \<Rightarrow> - 1 | Some n \<Rightarrow> sint n);
          limit' = min (case limit of None \<Rightarrow> 1000 | Some n \<Rightarrow> n) 10000 in
      mapM (row_to_event X) (take limit' (sort_key er_sequence
        (filter (\<lambda>r. er_session_id r = s \<and> after_sequence < er_sequence r) (sq_rows st)))))"

definition sqlite_list_session :: "sql_ext \<Rightarrow> str \<Rightarrow> sqlite_store \<Rightarrow> event_error + event_envelope list" where
  "sqlite_list_session X s st = sqlite_list_session_range X s None None st"

definition sqlite_next_sequence :: "str \<Rightarrow> sqlite_store \<Rightarrow> event_error + u64" where
  "sqlite_next_sequence s st = and_then (sql_next_sequence s (sq_rows st)) (\<lambda>n. Inr (word_of_int n))"

definition sqlite_append_with_sequence :: "sql_ext \<Rightarrow> str \<Rightarrow> event_draft \<Rightarrow> sqlite_store
    \<Rightarrow> (event_error + event_envelope) \<times> sqlite_store" where
  "sqlite_append_with_sequence X s d st =
     (case sql_next_sequence s (sq_rows st) of
        Inl err \<Rightarrow> (Inl err, st)
      | Inr n \<Rightarrow>
          let e = envelope s (word_of_int n) d in
          (case sql_insert (event_to_row X e) (sq_rows st) of
             Inl err \<Rightarrow> (Inl err, st)
           | Inr rows \<Rightarrow> (Inr e, st\<lparr>sq_rows := rows, sq_sent := sq_sent st @ [e]\<rparr>)))"

definition sqlite_append_if_next :: "sql_ext \<Rightarrow> str \<Rightarrow> u64 \<Rightarrow> event_draft \<Rightarrow> sqlite_store
    \<Rightarrow> (event_error + event_envelope option) \<times> sqlite_store" where
  "sqlite_append_if_next X s expected d st =
     (if 2 ^ 63 \<le> uint expected then (Inl SequenceOutOfRange, st)
      else case sql_next_sequence s (sq_rows st) of
        Inl err \<Rightarrow> (Inl err, st)
      | Inr n \<Rightarrow>
          if n \<noteq> uint expected then (Inr None, st)
          else let e = envelope s (word_of_int n) d in
          (case sql_insert (event_to_row X e) (sq_rows st) of
             Inl err \<Rightarrow> (Inl err, st)
           | Inr rows \<Rightarrow> (Inr (Some e), st\<lparr>sq_rows := rows, sq_sent := sq_sent st @ [e]\<rparr>)))"

subsection \<open>The upper bound of a prefix\<close>

text \<open>\<open>String::from_utf8\<close> accepts the well-formed UTF-8 byte sequences.\<close>

definition continuation :: "char \<Rightarrow> bool" where
  "continuation c = (128 \<le> byte c \<and> byte c \<le> 191)"

definition second_of_three :: "char \<Rightarrow> char \<Rightarrow> bool" where
  "second_of_three a b = (continuation b \<and> (byte a = 224 \<longrightarrow> 160 \<le> byte b) \<and> (byte a = 237 \<longrightarrow> byte b \<le> 159))"

definition second_of_four :: "char \<Rightarrow> char \<Rightarrow> bool" where
  "second_of_four a b = (continuation b \<and> (byte a = 240 \<longrightarrow> 144 \<le> byte b) \<and> (byte a = 244 \<longrightarrow> byte b \<le> 143))"

fun utf8_valid :: "str \<Rightarrow> bool" where
  "utf8_valid [] = True"
| "utf8_valid (a # s) =
     (if byte a < 128 then utf8_valid s
      else case s of [] \<Rightarrow> False | b # s2 \<Rightarrow>
        if 194 \<le> byte a \<and> byte a \<le> 223 then continuation b \<and> utf8_valid s2
        else case s2 of [] \<Rightarrow> False | c # s3 \<Rightarrow>
          if 224 \<le> byte a \<and> byte a \<le> 239 then second_of_three a b \<and> continuation c \<and> utf8_valid s3
          else case s3 of [] \<Rightarrow> False | d # s4 \<Rightarrow>
            240 \<le> byte a \<and> byte a \<le> 244 \<and> second_of_four a b \<and> continuation c \<and> continuation d \<and> utf8_valid s4)"

text \<open>The loop over \<open>bytes.last_mut()\<close>, on the bytes in reverse.\<close>

fun bump_last :: "str \<Rightarrow> str option" where
  "bump_last [] = None"
| "bump_last (b # rest) = (if byte b < 255 then Some (rev (char_of (byte b + 1) # rest)) else bump_last rest)"

definition kind_prefix_upper_bound :: "str \<Rightarrow> str option" where
  "kind_prefix_upper_bound pre =
     map_option (\<lambda>bytes. if utf8_valid bytes then bytes else []) (bump_last (rev pre))"

definition kind_matches :: "sql_ext \<Rightarrow> str \<Rightarrow> event_row \<Rightarrow> bool" where
  "kind_matches X pre r =
     (case kind_prefix_upper_bound pre of
        Some upper \<Rightarrow> pre \<le> er_kind r \<and> er_kind r < upper
      | None \<Rightarrow> sx_like X (pre @ ''%'') (er_kind r))"

definition sqlite_list_kind_prefix :: "sql_ext \<Rightarrow> str \<Rightarrow> sqlite_store \<Rightarrow> event_error + event_envelope list" where
  "sqlite_list_kind_prefix X pre st =
     mapM (row_to_event X) (sort_key (\<lambda>r. (er_timestamp r, er_session_id r, er_sequence r))
       (filter (kind_matches X pre) (sq_rows st)))"

definition sqlite_list_session_kind_prefix :: "sql_ext \<Rightarrow> str \<Rightarrow> str \<Rightarrow> sqlite_store
    \<Rightarrow> event_error + event_envelope list" where
  "sqlite_list_session_kind_prefix X s pre st =
     mapM (row_to_event X) (sort_key er_sequence
       (filter (\<lambda>r. er_session_id r = s \<and> kind_matches X pre r) (sq_rows st)))"

end
