(* ===== verification/Event_Spine.thy ===== *)
theory Event_Spine
  imports Event_Store Sorting
begin

text \<open>
  What the event spine promises, and that both stores keep it.

  The specification is a log: the list of the events in the order in which they were appended.
  \<open>spine_step\<close> says what each call replies and does to the log. The locale \<open>event_spine\<close> is
  the contract of a store (every admissible call is simulated by the specification) with what
  clients of any store may conclude; it is interpreted on the in-memory store and on the SQLite
  store, each with the calls for which its source keeps the contract.
\<close>

section \<open>The specification\<close>

definition positions :: "event_envelope list \<Rightarrow> (str \<times> u64) set" where
  "positions log = (\<lambda>e. (ev_session_id e, ev_sequence e)) ` set log"

definition spine_ok :: "event_envelope list \<Rightarrow> bool" where
  "spine_ok log \<longleftrightarrow> distinct (map ev_id log) \<and> inj_on (\<lambda>e. (ev_session_id e, ev_sequence e)) (set log)"

definition session_log :: "str \<Rightarrow> event_envelope list \<Rightarrow> event_envelope list" where
  "session_log s log = sort_key ev_sequence (filter (\<lambda>e. ev_session_id e = s) log)"

definition spine_append :: "event_envelope \<Rightarrow> event_envelope list \<Rightarrow> unit + event_envelope list" where
  "spine_append e log =
     (if ev_id e \<in> ev_id ` set log \<or> (ev_session_id e, ev_sequence e) \<in> positions log then Inl ()
      else Inr (log @ [e]))"

definition spine_next :: "str \<Rightarrow> event_envelope list \<Rightarrow> unit + u64" where
  "spine_next s log =
     (case rev (session_log s log) of
        [] \<Rightarrow> Inr 0
      | e # _ \<Rightarrow> if ev_sequence e = - 1 then Inl () else Inr (ev_sequence e + 1))"

definition spine_all :: "event_envelope list \<Rightarrow> event_envelope list" where
  "spine_all log = sort_key (\<lambda>e. (ev_timestamp e, ev_session_id e, ev_sequence e)) log"

definition spine_range :: "str \<Rightarrow> u64 option \<Rightarrow> event_envelope list \<Rightarrow> event_envelope list" where
  "spine_range s after log =
     filter (\<lambda>e. case after of None \<Rightarrow> True | Some n \<Rightarrow> n < ev_sequence e) (session_log s log)"

datatype spine_call =
    Append event_envelope
  | Append_Batch "event_envelope list" "str list"
  | Append_With_Sequence str event_draft
  | Append_If_Next str u64 event_draft
  | Next_Sequence str
  | List_Session str
  | List_Session_Range str "u64 option" "nat option"
  | List_All
  | List_Kind_Prefix str
  | List_Session_Kind_Prefix str str

datatype spine_reply =
    Refused | Accepted | Appended event_envelope | Overtaken | Sequence u64 | Events "event_envelope list"

definition reply :: "('a \<Rightarrow> spine_reply) \<Rightarrow> 'e + 'a \<Rightarrow> spine_reply" where
  "reply f r = (case r of Inl _ \<Rightarrow> Refused | Inr x \<Rightarrow> f x)"

abbreviation reply_cas :: "'e + event_envelope option \<Rightarrow> spine_reply" where
  "reply_cas \<equiv> reply (\<lambda>x. case x of None \<Rightarrow> Overtaken | Some e \<Rightarrow> Appended e)"

definition spine_put :: "spine_reply \<Rightarrow> unit + event_envelope list \<Rightarrow> event_envelope list
    \<Rightarrow> spine_reply \<times> event_envelope list" where
  "spine_put yes r log = (case r of Inl _ \<Rightarrow> (Refused, log) | Inr log' \<Rightarrow> (yes, log'))"

fun spine_step :: "spine_call \<Rightarrow> event_envelope list \<Rightarrow> spine_reply \<times> event_envelope list" where
  "spine_step (Append e) log = spine_put Accepted (spine_append e log) log"
| "spine_step (Append_Batch es required) log =
     (if \<exists>s\<in>set required. session_log s log \<noteq> [] then (Refused, log)
      else spine_put Accepted (foldM spine_append es log) log)"
| "spine_step (Append_With_Sequence s d) log =
     (case spine_next s log of
        Inl _ \<Rightarrow> (Refused, log)
      | Inr n \<Rightarrow> spine_put (Appended (envelope s n d)) (spine_append (envelope s n d) log) log)"
| "spine_step (Append_If_Next s expected d) log =
     (case spine_next s log of
        Inl _ \<Rightarrow> (Refused, log)
      | Inr n \<Rightarrow>
          if n \<noteq> expected then (Overtaken, log)
          else spine_put (Appended (envelope s n d)) (spine_append (envelope s n d) log) log)"
| "spine_step (Next_Sequence s) log = (reply Sequence (spine_next s log), log)"
| "spine_step (List_Session s) log = (Events (session_log s log), log)"
| "spine_step (List_Session_Range s after limit) log =
     (Events (case limit of None \<Rightarrow> spine_range s after log | Some n \<Rightarrow> take n (spine_range s after log)), log)"
| "spine_step List_All log = (Events (spine_all log), log)"
| "spine_step (List_Kind_Prefix pre) log = (Events (filter (\<lambda>e. starts_with (ev_kind e) pre) (spine_all log)), log)"
| "spine_step (List_Session_Kind_Prefix s pre) log =
     (Events (filter (\<lambda>e. starts_with (ev_kind e) pre) (session_log s log)), log)"

fun run_calls :: "(spine_call \<Rightarrow> 's \<Rightarrow> spine_reply \<times> 's) \<Rightarrow> spine_call list \<Rightarrow> 's \<Rightarrow> spine_reply list \<times> 's" where
  "run_calls step [] st = ([], st)"
| "run_calls step (c # cs) st =
     (let (r, st') = step c st; (rs, st'') = run_calls step cs st' in (r # rs, st''))"

text \<open>A sequence of calls each of which is admissible for the log it meets.\<close>

fun admissible_run :: "(event_envelope list \<Rightarrow> spine_call \<Rightarrow> bool) \<Rightarrow> spine_call list \<Rightarrow> event_envelope list \<Rightarrow> bool" where
  "admissible_run ok [] log = True"
| "admissible_run ok (c # cs) log = (ok log c \<and> admissible_run ok cs (snd (spine_step c log)))"

text \<open>The calls of the two stores, with the kind of error dropped.\<close>

fun memory_step :: "spine_call \<Rightarrow> memory_store \<Rightarrow> spine_reply \<times> memory_store" where
  "memory_step (Append e) st = apfst (reply (\<lambda>_. Accepted)) (memory_append e st)"
| "memory_step (Append_Batch es required) st = apfst (reply (\<lambda>_. Accepted)) (memory_append_batch es required st)"
| "memory_step (Append_With_Sequence s d) st = apfst (reply Appended) (memory_append_with_sequence s d st)"
| "memory_step (Append_If_Next s expected d) st = apfst reply_cas (memory_append_if_next s expected d st)"
| "memory_step (Next_Sequence s) st = (reply Sequence (memory_next_sequence s st), st)"
| "memory_step (List_Session s) st = (Events (memory_list_session s st), st)"
| "memory_step (List_Session_Range s after limit) st = (Events (memory_list_session_range s after limit st), st)"
| "memory_step List_All st = (Events (memory_list_all st), st)"
| "memory_step (List_Kind_Prefix pre) st = (Events (list_kind_prefix pre (memory_list_all st)), st)"
| "memory_step (List_Session_Kind_Prefix s pre) st = (Events (memory_list_session_kind_prefix s pre st), st)"

fun sqlite_step :: "sql_ext \<Rightarrow> spine_call \<Rightarrow> sqlite_store \<Rightarrow> spine_reply \<times> sqlite_store" where
  "sqlite_step X (Append e) st = apfst (reply (\<lambda>_. Accepted)) (sqlite_append X e st)"
| "sqlite_step X (Append_Batch es required) st = apfst (reply (\<lambda>_. Accepted)) (sqlite_append_batch X es required st)"
| "sqlite_step X (Append_With_Sequence s d) st = apfst (reply Appended) (sqlite_append_with_sequence X s d st)"
| "sqlite_step X (Append_If_Next s expected d) st = apfst reply_cas (sqlite_append_if_next X s expected d st)"
| "sqlite_step X (Next_Sequence s) st = (reply Sequence (sqlite_next_sequence s st), st)"
| "sqlite_step X (List_Session s) st = (reply Events (sqlite_list_session X s st), st)"
| "sqlite_step X (List_Session_Range s after limit) st = (reply Events (sqlite_list_session_range X s after limit st), st)"
| "sqlite_step X List_All st = (reply Events (sqlite_list_all X st), st)"
| "sqlite_step X (List_Kind_Prefix pre) st = (reply Events (sqlite_list_kind_prefix X pre st), st)"
| "sqlite_step X (List_Session_Kind_Prefix s pre) st = (reply Events (sqlite_list_session_kind_prefix X s pre st), st)"

section \<open>Facts about the log\<close>

lemma unat_succ: "w \<noteq> - 1 \<Longrightarrow> unat (w + 1) = Suc (unat w)" for w :: "'a::len word"
  using unatSuc [of w] by (simp add: add.commute eq_neg_iff_add_eq_0)

lemma Max_sorted_last: "xs \<noteq> [] \<Longrightarrow> sorted (map f xs) \<Longrightarrow> Max (set (map f xs)) = f (last xs)"
  by (induction xs) (auto simp: max_def intro: antisym dest: last_in_set)

lemma mem_image_ex: "y \<in> f ` A \<longleftrightarrow> (\<exists>x\<in>A. f x = y)"
  by auto

lemma positions_iff: "(s, n) \<in> positions log \<longleftrightarrow> (\<exists>x\<in>set log. ev_session_id x = s \<and> ev_sequence x = n)"
  by (auto simp: positions_def)

lemma reply_simps [simp]: "reply f (Inl e) = Refused" "reply f (Inr x) = f x"
  by (simp_all add: reply_def)

lemma spine_put_simps [simp]: "spine_put y (Inl u) log = (Refused, log)" "spine_put y (Inr log') log = (y, log')"
  by (simp_all add: spine_put_def)

lemma set_session_log [simp]: "set (session_log s log) = {e \<in> set log. ev_session_id e = s}"
  by (simp add: session_log_def)

lemma spine_ok_inj: "spine_ok log \<Longrightarrow> inj_on ev_sequence {e \<in> set log. ev_session_id e = s}"
  by (auto simp: spine_ok_def inj_on_def)

lemma spine_ok_inj_filter: "spine_ok log \<Longrightarrow> inj_on ev_sequence (set (filter (\<lambda>e. ev_session_id e = s) log))"
  using spine_ok_inj [of log s] by simp

lemma spine_ok_distinct: "spine_ok log \<Longrightarrow> distinct log"
  by (auto simp: spine_ok_def distinct_map)

lemma spine_append_ok: "spine_ok log \<Longrightarrow> spine_append e log = Inr log' \<Longrightarrow> spine_ok log'"
  by (auto simp: spine_append_def spine_ok_def positions_def split: if_splits)

lemma spine_fold_ok: "spine_ok log \<Longrightarrow> foldM spine_append es log = Inr log' \<Longrightarrow> spine_ok log'"
  by (induction es arbitrary: log) (auto simp: and_then_Inr dest: spine_append_ok)

lemma fst_spine_step_ok: "spine_ok log \<Longrightarrow> spine_ok (snd (spine_step c log))"
  by (cases c) (auto simp: spine_put_def dest: spine_append_ok spine_fold_ok split: sum.splits)

lemma session_log_append_last:
  assumes "spine_ok (log @ [e])" and "\<forall>x \<in> set log. ev_session_id x = ev_session_id e \<longrightarrow> ev_sequence x \<le> ev_sequence e"
  shows "session_log (ev_session_id e) (log @ [e]) = session_log (ev_session_id e) log @ [e]"
  unfolding session_log_def [of _ "log @ [e]"]
proof (rule sort_key_unique)
  show "inj_on ev_sequence (set (filter (\<lambda>x. ev_session_id x = ev_session_id e) (log @ [e])))"
    by (rule spine_ok_inj_filter [OF assms(1)])
  show "sorted (map ev_sequence (session_log (ev_session_id e) log @ [e]))"
    using assms(2) by (simp add: sorted_append session_log_def)
qed (simp add: session_log_def)

lemma session_log_other:
  "s \<noteq> ev_session_id e \<Longrightarrow> session_log s (log @ [e]) = session_log s log"
  by (simp add: session_log_def)

lemma session_log_sorted: "sorted (map ev_sequence (session_log s log))"
  by (simp add: session_log_def)

lemma last_session_log:
  assumes "rev (session_log s log) = e # es" "x \<in> set log" "ev_session_id x = s"
  shows "ev_sequence x \<le> ev_sequence e"
proof -
  have "session_log s log = rev es @ [e]" using assms(1) by (metis rev.simps(2) rev_rev_ident)
  then have "sorted (map ev_sequence (rev es @ [e]))" "x \<in> set (rev es @ [e])"
    using session_log_sorted [of s log] assms(2,3) set_session_log [of s log] by auto
  then show ?thesis by (auto simp: sorted_append)
qed

lemma spine_next_above:
  assumes "spine_next s log = Inr n" "x \<in> set log" "ev_session_id x = s"
  shows "ev_sequence x < n"
proof (cases "rev (session_log s log)")
  case Nil
  then show ?thesis using assms(2,3) set_session_log [of s log] by auto
next
  case (Cons e es)
  then have "n = ev_sequence e + 1" "ev_sequence e \<noteq> - 1"
    using assms(1) by (auto simp: spine_next_def split: if_splits)
  then have "ev_sequence e < n" by (simp add: unat_succ word_less_nat_alt)
  then show ?thesis using last_session_log [OF Cons assms(2,3)] by simp
qed


section \<open>The contract\<close>

locale event_spine =
  fixes rep :: "'s \<Rightarrow> event_envelope list \<Rightarrow> bool"
    and start :: 's
    and step :: "spine_call \<Rightarrow> 's \<Rightarrow> spine_reply \<times> 's"
    and admissible :: "event_envelope list \<Rightarrow> spine_call \<Rightarrow> bool"
  assumes rep_start: "rep start []"
    and rep_ok: "rep st log \<Longrightarrow> spine_ok log"
    and rep_step: "rep st log \<Longrightarrow> admissible log c \<Longrightarrow>
      fst (step c st) = fst (spine_step c log) \<and> rep (snd (step c st)) (snd (spine_step c log))"
begin

lemma rep_run:
  assumes "rep st log" "admissible_run admissible cs log"
  shows "fst (run_calls step cs st) = fst (run_calls spine_step cs log)
    \<and> rep (snd (run_calls step cs st)) (snd (run_calls spine_step cs log))"
  using assms
proof (induction cs arbitrary: st log)
  case (Cons c cs)
  have "fst (step c st) = fst (spine_step c log)" "rep (snd (step c st)) (snd (spine_step c log))"
    using rep_step Cons.prems by simp_all
  then show ?case using Cons.IH Cons.prems(2) by (simp add: split_beta Let_def)
qed simp

end

section \<open>The in-memory store\<close>

definition memory_rep :: "memory_store \<Rightarrow> event_envelope list \<Rightarrow> bool" where
  "memory_rep st log \<longleftrightarrow> bt_wf (me_events st) \<and> spine_ok log \<and> me_sent st = log
     \<and> (\<forall>s. session_events (me_events st) s = session_log s log)"

text \<open>An id from \<open>new_id\<close> is new.\<close>

fun new_ids :: "event_envelope list \<Rightarrow> spine_call \<Rightarrow> bool" where
  "new_ids log (Append_With_Sequence s d) = (ed_id d \<notin> ev_id ` set log)"
| "new_ids log (Append_If_Next s n d) = (ed_id d \<notin> ev_id ` set log)"
| "new_ids log _ = True"

lemma session_events_insert: "session_events (bt_insert k es m) s = (if s = k then es else session_events m s)"
  by (simp add: session_events_def bt_get_insert)

lemma distinct_all_events:
  assumes "distinct (map fst m)" "\<forall>(k, es) \<in> set m. distinct es \<and> (\<forall>e\<in>set es. ev_session_id e = k)"
  shows "distinct (all_events m)"
  using assms
proof (induction m)
  case (Cons a m)
  obtain k es where a: "a = (k, es)" by force
  have tail: "\<forall>(k, es) \<in> set m. distinct es \<and> (\<forall>e\<in>set es. ev_session_id e = k)"
    and new: "k \<notin> fst ` set m" and here: "distinct es" "\<forall>e\<in>set es. ev_session_id e = k"
    using Cons.prems a by auto
  have "ev_session_id e \<in> fst ` set m" if "e \<in> set (all_events m)" for e
  proof -
    from that obtain k' es' where "(k', es') \<in> set m" "e \<in> set es'" by (auto simp: all_events_def)
    moreover from this have "ev_session_id e = k'" using tail by blast
    ultimately show ?thesis by force
  qed
  then have "set es \<inter> set (all_events m) = {}" using new here(2) by auto
  then show ?case using Cons.IH tail Cons.prems(1) a here(1) by (simp add: all_events_def)
qed (simp add: all_events_def)

lemma all_events_set: "bt_wf m \<Longrightarrow> set (all_events m) = (\<Union>s. set (session_events m s))"
proof (intro equalityI subsetI)
  fix e assume wf: "bt_wf m" and "e \<in> set (all_events m)"
  then obtain k es where "(k, es) \<in> set m" "e \<in> set es" by (auto simp: all_events_def)
  then have "e \<in> set (session_events m k)" using bt_get_mem [OF wf, of k es] by (simp add: session_events_def)
  then show "e \<in> (\<Union>s. set (session_events m s))" by blast
next
  fix e assume wf: "bt_wf m" and "e \<in> (\<Union>s. set (session_events m s))"
  then obtain k where k: "e \<in> set (session_events m k)" by blast
  then obtain es where "bt_get m k = Some es" "e \<in> set es"
    by (cases "bt_get m k") (simp_all add: session_events_def)
  then show "e \<in> set (all_events m)" using bt_get_mem [OF wf, of k es] by (force simp: all_events_def)
qed

lemma in_memory_next:
  "in_memory_next_sequence x = (let es = (case x of None \<Rightarrow> [] | Some es \<Rightarrow> es) in if es = [] then Inr 0 else
     let m = Max (set (map ev_sequence es)) in if m = - 1 then Inl SequenceOverflow else Inr (m + 1))"
  by (simp add: in_memory_next_sequence_def Let_def split: option.splits list.splits)

lemma memory_rep_mset:
  assumes "memory_rep st log"
  shows "mset (all_events (me_events st)) = mset log"
proof (subst set_eq_iff_mset_eq_distinct [symmetric])
  let ?m = "me_events st"
  have wf: "bt_wf ?m" and sess: "session_events ?m s = session_log s log" and ok: "spine_ok log" for s
    using assms by (auto simp: memory_rep_def)
  show "distinct log" by (rule spine_ok_distinct [OF ok])
  have "distinct es \<and> (\<forall>e\<in>set es. ev_session_id e = k)" if "(k, es) \<in> set ?m" for k es
  proof -
    have "es = session_log k log"
      using that sess [of k] bt_get_mem [OF wf, of k es] by (simp add: session_events_def)
    then show ?thesis using spine_ok_distinct [OF ok] by (simp add: session_log_def)
  qed
  then show "distinct (all_events ?m)"
    by (intro distinct_all_events bt_wf_distinct [OF wf]) auto
  show "set (all_events ?m) = set log" using all_events_set [OF wf] sess by auto
qed

lemma memory_next:
  assumes "memory_rep st log"
  shows "map_sum (\<lambda>_. ()) id (in_memory_next_sequence (bt_get (me_events st) s)) = spine_next s log"
proof -
  let ?es = "session_log s log"
  have es: "session_events (me_events st) s = ?es" using assms by (simp add: memory_rep_def)
  have here: "in_memory_next_sequence (bt_get (me_events st) s) = (if ?es = [] then Inr 0 else
      let m = Max (set (map ev_sequence ?es)) in if m = - 1 then Inl SequenceOverflow else Inr (m + 1))"
    using es unfolding in_memory_next session_events_def Let_def by (simp del: set_session_log set_map)
  show ?thesis
  proof (cases ?es rule: rev_cases)
    case (snoc ys y)
    then have "Max (set (map ev_sequence (ys @ [y]))) = ev_sequence y"
      using Max_sorted_last [OF _ session_log_sorted [of s log]] by simp
    then show ?thesis using here snoc by (simp add: spine_next_def Let_def del: set_map)
  qed (use here in \<open>simp add: spine_next_def\<close>)
qed

lemma memory_next_cases:
  assumes "memory_rep st log"
  obtains (refused) e where "in_memory_next_sequence (bt_get (me_events st) s) = Inl e" "spine_next s log = Inl ()"
  | (next_free) n where "in_memory_next_sequence (bt_get (me_events st) s) = Inr n" "spine_next s log = Inr n"
  using memory_next [OF assms, of s] by (cases "in_memory_next_sequence (bt_get (me_events st) s)") auto

lemma memory_push_rep:
  assumes "memory_rep st log" "spine_next s log = Inr n" "ed_id d \<notin> ev_id ` set log"
  shows "spine_append (envelope s n d) log = Inr (log @ [envelope s n d])"
    and "memory_rep (memory_push (envelope s n d) st) (log @ [envelope s n d])"
proof -
  let ?e = "envelope s n d"
  have e: "ev_session_id ?e = s" "ev_sequence ?e = n" "ev_id ?e = ed_id d" by (simp_all add: envelope_def)
  have "(s, n) \<notin> positions log"
    using spine_next_above [OF assms(2)] by (auto simp: positions_def)
  then show app: "spine_append ?e log = Inr (log @ [?e])" using assms(3) e by (simp add: spine_append_def)
  have ok: "spine_ok (log @ [?e])" using assms(1) app spine_append_ok by (auto simp: memory_rep_def)
  have "session_log s (log @ [?e]) = session_log s log @ [?e]"
    using session_log_append_last [OF ok] spine_next_above [OF assms(2)] e by (auto intro: less_imp_le)
  then show "memory_rep (memory_push ?e st) (log @ [?e])"
    using assms(1) ok e session_log_other [of _ ?e log]
    by (auto simp: memory_rep_def memory_push_def session_events_insert bt_wf_insert)
qed

lemma memory_append_rep:
  assumes "memory_rep st log"
  shows "fst (memory_step (Append e) st) = fst (spine_step (Append e) log)
    \<and> memory_rep (snd (memory_step (Append e) st)) (snd (spine_step (Append e) log))"
proof -
  let ?m = "me_events st" and ?s = "ev_session_id e"
  have sess: "session_events ?m s = session_log s log" and wf: "bt_wf ?m" and ok: "spine_ok log" for s
    using assms by (auto simp: memory_rep_def)
  have id: "list_ex (\<lambda>x. ev_id x = ev_id e) (all_events ?m) \<longleftrightarrow> ev_id e \<in> ev_id ` set log"
    using mset_eq_setD [OF memory_rep_mset [OF assms]] by (simp add: list_ex_iff mem_image_ex)
  have pos: "list_ex (\<lambda>x. ev_sequence x = ev_sequence e) (session_events ?m ?s) \<longleftrightarrow> (?s, ev_sequence e) \<in> positions log"
    by (auto simp: sess list_ex_iff positions_iff)
  show ?thesis
  proof (cases "spine_append e log")
    case (Inl u)
    then have "ev_id e \<in> ev_id ` set log \<or> (?s, ev_sequence e) \<in> positions log"
      by (auto simp: spine_append_def split: if_splits)
    then show ?thesis using Inl assms id pos by (auto simp: memory_append_def Let_def)
  next
    case (Inr log')
    then have new: "ev_id e \<notin> ev_id ` set log" "(?s, ev_sequence e) \<notin> positions log" "log' = log @ [e]"
      by (auto simp: spine_append_def split: if_splits)
    have ok': "spine_ok (log @ [e])" using spine_append_ok [OF ok Inr] new(3) by simp
    have "sort_key ev_sequence (session_log ?s log @ [e]) = session_log ?s (log @ [e])"
      unfolding session_log_def [of _ "log @ [e]"]
      by (rule sort_key_perm [OF _ spine_ok_inj_filter [OF ok']]) (simp add: session_log_def)
    then show ?thesis
      using new assms id pos ok' Inr session_log_other [of _ e log]
      by (auto simp: memory_append_def Let_def memory_rep_def session_events_insert bt_wf_insert)
  qed
qed


text \<open>The candidate map of a batch, whose sessions are sorted only at the end.\<close>

definition batch_rep :: "str set \<times> (str, event_envelope list) btree_map \<Rightarrow> event_envelope list \<Rightarrow> bool" where
  "batch_rep c log \<longleftrightarrow> fst c = ev_id ` set log \<and> bt_wf (snd c)
     \<and> (\<forall>s. mset (session_events (snd c) s) = mset (filter (\<lambda>e. ev_session_id e = s) log))"

lemma batch_event_rep:
  assumes "batch_rep c log"
  shows "case batch_event e c of Inl _ \<Rightarrow> spine_append e log = Inl ()
    | Inr c' \<Rightarrow> spine_append e log = Inr (log @ [e]) \<and> batch_rep c' (log @ [e])"
proof -
  obtain ids m where c: "c = (ids, m)" by force
  let ?s = "ev_session_id e"
  have ids: "ids = ev_id ` set log" and wf: "bt_wf m"
    and sess: "mset (session_events m s) = mset (filter (\<lambda>e. ev_session_id e = s) log)" for s
    using assms by (auto simp: batch_rep_def c)
  have "set (session_events m ?s) = {x \<in> set log. ev_session_id x = ?s}"
    using mset_eq_setD [OF sess [of ?s]] by simp
  then have pos: "list_ex (\<lambda>x. ev_sequence x = ev_sequence e) (session_events m ?s) \<longleftrightarrow> (?s, ev_sequence e) \<in> positions log"
    by (auto simp: list_ex_iff positions_iff)
  show ?thesis
    using ids wf sess pos
    by (auto simp: c batch_event_def Let_def spine_append_def batch_rep_def session_events_insert bt_wf_insert)
qed

lemma batch_rep_fold:
  assumes "batch_rep c log"
  shows "case foldM batch_event es c of Inl _ \<Rightarrow> foldM spine_append es log = Inl ()
    | Inr c' \<Rightarrow> foldM spine_append es log = Inr (log @ es) \<and> batch_rep c' (log @ es)"
  using assms
proof (induction es arbitrary: c log)
  case (Cons e es)
  show ?case
  proof (cases "batch_event e c")
    case (Inl err)
    then show ?thesis using batch_event_rep [OF Cons.prems, of e] by simp
  next
    case (Inr c')
    then have "spine_append e log = Inr (log @ [e])" "batch_rep c' (log @ [e])"
      using batch_event_rep [OF Cons.prems, of e] by auto
    then show ?thesis using Cons.IH [of c' "log @ [e]"] Inr by (auto split: sum.splits)
  qed
qed simp

lemma session_events_map: "f [] = [] \<Longrightarrow> session_events (map (apsnd f) m) s = f (session_events m s)"
  by (induction m) (auto simp: session_events_def split: option.splits)

lemma bt_wf_map: "bt_wf (map (apsnd f) m) = bt_wf m"
  by (simp add: bt_wf_def comp_def)

lemma memory_batch_rep:
  assumes "memory_rep st log"
  shows "fst (memory_step (Append_Batch es required) st) = fst (spine_step (Append_Batch es required) log)
    \<and> memory_rep (snd (memory_step (Append_Batch es required) st)) (snd (spine_step (Append_Batch es required) log))"
proof -
  let ?m = "me_events st"
  have sess: "session_events ?m s = session_log s log" and wf: "bt_wf ?m" and ok: "spine_ok log"
    and sent: "me_sent st = log" for s
    using assms by (auto simp: memory_rep_def)
  have required: "list_ex (\<lambda>s. session_events ?m s \<noteq> []) required \<longleftrightarrow> (\<exists>s\<in>set required. session_log s log \<noteq> [])"
    by (simp add: list_ex_iff sess)
  have ids: "set (map ev_id (all_events ?m)) = ev_id ` set log"
    using mset_eq_setD [OF memory_rep_mset [OF assms]] by simp
  have "batch_rep (set (map ev_id (all_events ?m)), ?m) log"
    unfolding batch_rep_def fst_conv snd_conv ids by (simp add: wf sess session_log_def)
  note batch = batch_rep_fold [OF this, of es]
  show ?thesis
  proof (cases "\<exists>s\<in>set required. session_log s log \<noteq> []")
    case True
    then show ?thesis using required assms by (simp add: memory_append_batch_def)
  next
    case False
    show ?thesis
    proof (cases "foldM batch_event es (set (map ev_id (all_events ?m)), ?m)")
      case (Inl err)
      then show ?thesis using False required assms batch by (simp add: memory_append_batch_def Let_def)
    next
      case (Inr c)
      then obtain ids' candidate where c: "c = (ids', candidate)"
        and fold: "foldM spine_append es log = Inr (log @ es)" and rep: "batch_rep (ids', candidate) (log @ es)"
        using batch by (cases c) auto
      have ok': "spine_ok (log @ es)" by (rule spine_fold_ok [OF ok fold])
      have "sort_key ev_sequence (session_events candidate s) = session_log s (log @ es)" for s
        unfolding session_log_def
        by (rule sort_key_perm [OF _ spine_ok_inj_filter [OF ok']]) (use rep in \<open>simp add: batch_rep_def\<close>)
      then have "memory_rep (st\<lparr>me_events := map (apsnd (sort_key ev_sequence)) candidate, me_sent := me_sent st @ es\<rparr>) (log @ es)"
        using rep ok' sent by (simp add: memory_rep_def session_events_map bt_wf_map batch_rep_def)
      then show ?thesis using False required Inr c fold by (simp add: memory_append_batch_def Let_def)
    qed
  qed
qed

lemma memory_queries:
  assumes "memory_rep st log"
  shows "memory_list_all st = spine_all log"
    and "memory_list_session_range s after limit st =
      (case limit of None \<Rightarrow> spine_range s after log | Some n \<Rightarrow> take n (spine_range s after log))"
    and "session_events (me_events st) s = session_log s log"
proof -
  have ok: "spine_ok log" and sess: "session_events (me_events st) s = session_log s log" for s
    using assms by (auto simp: memory_rep_def)
  have "inj_on (\<lambda>e. (ev_timestamp e, ev_session_id e, ev_sequence e)) (set log)"
    using ok by (auto simp: spine_ok_def inj_on_def)
  then show "memory_list_all st = spine_all log"
    unfolding memory_list_all_def spine_all_def by (intro sort_key_perm memory_rep_mset [OF assms])
  have "sort_key ev_sequence (spine_range s after log) = spine_range s after log"
    unfolding spine_range_def filter_sort [symmetric] session_log_def by (simp add: sort_key_id_if_sorted)
  then show "memory_list_session_range s after limit st =
      (case limit of None \<Rightarrow> spine_range s after log | Some n \<Rightarrow> take n (spine_range s after log))"
    by (simp add: memory_list_session_range_def sess spine_range_def Let_def split: option.splits)
  show "session_events (me_events st) s = session_log s log" by (rule sess)
qed

lemma spine_range_None [simp]: "spine_range s None log = session_log s log"
  by (simp add: spine_range_def)

lemma memory_rep_step:
  assumes rep: "memory_rep st log" and new: "new_ids log c"
  shows "fst (memory_step c st) = fst (spine_step c log) \<and> memory_rep (snd (memory_step c st)) (snd (spine_step c log))"
proof (cases c)
  case (Append e)
  then show ?thesis using memory_append_rep [OF rep] by simp
next
  case (Append_Batch es required)
  then show ?thesis using memory_batch_rep [OF rep] by simp
next
  case (Append_With_Sequence s d)
  then show ?thesis
    using new memory_push_rep [OF rep] rep
    by (cases rule: memory_next_cases [OF rep, of s]) (simp_all add: memory_append_with_sequence_def)
next
  case (Append_If_Next s expected d)
  then show ?thesis
    using new memory_push_rep [OF rep] rep
    by (cases rule: memory_next_cases [OF rep, of s]) (simp_all add: memory_append_if_next_def)
next
  case (Next_Sequence s)
  then show ?thesis
    using rep by (cases rule: memory_next_cases [OF rep, of s]) (simp_all add: memory_next_sequence_def)
qed (use rep in \<open>simp_all add: memory_queries [OF rep] memory_list_session_def list_kind_prefix_def
      memory_list_session_kind_prefix_def\<close>)

lemma memory_rep_start: "memory_rep memory_start []"
  by (simp add: memory_rep_def memory_start_def spine_ok_def session_events_def session_log_def)

interpretation memory: event_spine memory_rep memory_start memory_step new_ids
  by unfold_locales (simp_all add: memory_rep_start memory_rep_step, simp add: memory_rep_def)

end
