(* ===== verification/Event_Sqlite.thy ===== *)
theory Event_Sqlite
  imports Event_Spine
begin

text \<open>
  The SQLite store keeps the contract of the event spine for the calls of \<open>sqlite_admissible\<close>:
  sequence numbers below the largest \<open>i64\<close>, times in years of four digits, payloads that survive
  their JSON text, listings of at most 1000 events (or with an explicit limit of at most 10000),
  and kind prefixes that do not end in the last byte of their UTF-8 range.
\<close>

section \<open>Prefixes as ranges\<close>

lemma prefix_range:
  assumes "byte b < 255"
  shows "xs @ [b] \<le> k \<and> k < xs @ [char_of (byte b + 1)] \<longleftrightarrow> starts_with k (xs @ [b])"
proof (induction xs arbitrary: k)
  case Nil
  have up: "byte (char_of (byte b + 1)) = byte b + 1" using assms by simp
  show ?case
  proof (cases k)
    case (Cons d k')
    have "b \<le> d \<and> d < char_of (byte b + 1) \<longleftrightarrow> d = b"
      unfolding less_eq_char_def less_char_def up by (auto simp: less_Suc_eq_le)
    then show ?thesis using Cons up
      by (auto simp: starts_with_iff less_char_def less_eq_char_def)
  qed (simp add: starts_with_iff)
next
  case (Cons a xs)
  show ?case
  proof (cases k)
    case (Cons d k')
    then show ?thesis using Cons.IH [of k'] by (auto simp: starts_with_iff)
  qed (simp add: starts_with_iff)
qed

text \<open>The last byte of a string is one byte of ASCII or the last continuation byte of its last
  scalar, and may be replaced by any byte of the same class.\<close>

definition same_class :: "char \<Rightarrow> char \<Rightarrow> bool" where
  "same_class b c = (if byte b < 128 then byte c < 128 else continuation b \<and> continuation c)"

lemma utf8_snoc_cases:
  assumes "utf8_valid (xs @ [b])"
  shows "same_class b b \<and> utf8_valid (xs @ [c]) = same_class b c"
  using assms
proof (induction xs rule: utf8_valid.induct)
  case 1
  then show ?case by (auto simp: same_class_def split: if_splits)
next
  case (2 a s)
  show ?case
  proof (cases "byte a < 128")
    case True
    then show ?thesis using 2 by simp
  next
    case a: False
    show ?thesis
    proof (cases s)
      case Nil
      then show ?thesis using 2(5) a by (auto simp: same_class_def continuation_def split: if_splits)
    next
      case s: (Cons b2 s2)
      show ?thesis
      proof (cases "194 \<le> byte a \<and> byte a \<le> 223")
        case True
        then show ?thesis using 2(2,5) a s by simp
      next
        case a2: False
        show ?thesis
        proof (cases s2)
          case Nil
          then show ?thesis using 2(5) a s a2 by (auto simp: same_class_def continuation_def split: if_splits)
        next
          case s2: (Cons c s3)
          show ?thesis
          proof (cases "224 \<le> byte a \<and> byte a \<le> 239")
            case True
            then show ?thesis using 2(3,5) a s a2 s2 by simp
          next
            case a3: False
            show ?thesis
            proof (cases s3)
              case Nil
              then show ?thesis using 2(5) a s a2 s2 a3 by (auto simp: same_class_def continuation_def)
            next
              case (Cons d s4)
              then show ?thesis using 2(4,5) a s a2 s2 a3 by simp
            qed
          qed
        qed
      qed
    qed
  qed
qed

lemma utf8_bump_last:
  assumes "utf8_valid (xs @ [b])"
  shows "utf8_valid (xs @ [char_of (byte b + 1)]) \<longleftrightarrow> byte b \<noteq> 127 \<and> byte b \<noteq> 191"
proof -
  have b: "same_class b b" using utf8_snoc_cases [OF assms] by blast
  then have "byte b < 192" by (auto simp: same_class_def continuation_def split: if_splits)
  then have up: "byte (char_of (byte b + 1)) = byte b + 1" by simp
  have "utf8_valid (xs @ [char_of (byte b + 1)]) \<longleftrightarrow> same_class b (char_of (byte b + 1))"
    using utf8_snoc_cases [OF assms] by blast
  also have "\<dots> \<longleftrightarrow> byte b \<noteq> 127 \<and> byte b \<noteq> 191"
    using b unfolding same_class_def continuation_def up by (auto split: if_splits)
  finally show ?thesis .
qed

lemma kind_matches_prefix:
  assumes "utf8_valid pre" "pre = [] \<or> byte (last pre) \<notin> {127, 191}" "\<And>k. sx_like X ''%'' k"
  shows "kind_matches X pre r \<longleftrightarrow> starts_with (er_kind r) pre"
proof (cases pre rule: rev_cases)
  case Nil
  then show ?thesis using assms(3) by (simp add: kind_matches_def kind_prefix_upper_bound_def starts_with_iff)
next
  case (snoc xs b)
  have "same_class b b" using utf8_snoc_cases [of xs b] assms(1) snoc by blast
  then have "byte b < 255" by (auto simp: same_class_def continuation_def split: if_splits)
  moreover have "utf8_valid (xs @ [char_of (byte b + 1)])"
    using utf8_bump_last [of xs b] assms(1,2) snoc by simp
  ultimately show ?thesis
    using prefix_range [of b xs "er_kind r"] snoc by (simp add: kind_matches_def kind_prefix_upper_bound_def)
qed

lemma kind_matches_none:
  assumes "utf8_valid pre" "pre \<noteq> []" "byte (last pre) \<in> {127, 191}"
  shows "\<not> kind_matches X pre r"
proof (cases pre rule: rev_cases)
  case (snoc xs b)
  have "byte b < 255" using assms(3) snoc by auto
  moreover have "\<not> utf8_valid (xs @ [char_of (byte b + 1)])"
    using utf8_bump_last [of xs b] assms(1,3) snoc by auto
  ultimately show ?thesis using snoc by (simp add: kind_matches_def kind_prefix_upper_bound_def)
qed (use assms in simp)


section \<open>Rows\<close>

text \<open>Times of the years 0000 to 9999, in nanoseconds, whose RFC 3339 texts sort like the times.\<close>

definition calendar :: "int \<Rightarrow> bool" where
  "calendar t = (- 62167219200 * 10 ^ 9 \<le> t \<and> t < 253402300800 * 10 ^ 9)"

definition sql_ext_ok :: "sql_ext \<Rightarrow> bool" where
  "sql_ext_ok X \<longleftrightarrow>
     (\<forall>t u. calendar t \<longrightarrow> calendar u \<longrightarrow> t < u \<longrightarrow> sx_to_rfc3339 X t < sx_to_rfc3339 X u)
     \<and> (\<forall>t. calendar t \<longrightarrow> sx_parse_rfc3339 X (sx_to_rfc3339 X t) = Some t)
     \<and> (\<forall>k. sx_like X ''%'' k)"

definition storable :: "sql_ext \<Rightarrow> event_envelope \<Rightarrow> bool" where
  "storable X e \<longleftrightarrow> calendar (ev_timestamp e) \<and> uint (ev_sequence e) < 2 ^ 63 - 1
     \<and> sx_json_from_str X (sx_json_to_string X (ev_payload e)) = Some (ev_payload e)
     \<and> sx_json_from_str X (sx_json_to_string X (ev_metadata e)) = Some (ev_metadata e)"

lemma sint_small: "uint w < 2 ^ 63 \<Longrightarrow> sint w = uint w" for w :: u64
  using sint_uint [of w] signed_take_bit_int_eq_self [of 63 "uint w"] uint_ge_0 [of w] by simp

lemma sint_inject: "sint a = sint b \<longleftrightarrow> a = b" for a b :: "'a::len word"
  by (auto dest: arg_cong [where f = "word_of_int :: int \<Rightarrow> 'a word"])

lemma storable_sint: "storable X e \<Longrightarrow> sint (ev_sequence e) = uint (ev_sequence e)"
  by (simp add: storable_def sint_small)

lemma row_round_trip: "sql_ext_ok X \<Longrightarrow> storable X e \<Longrightarrow> row_to_event X (event_to_row X e) = Inr e"
  by (simp add: row_to_event_def event_to_row_def storable_def sql_ext_ok_def)

lemma rows_round_trip:
  "sql_ext_ok X \<Longrightarrow> (\<And>e. e \<in> set es \<Longrightarrow> storable X e) \<Longrightarrow> mapM (row_to_event X) (map (event_to_row X) es) = Inr es"
  by (induction es) (simp_all add: row_round_trip)

lemma row_fields [simp]:
  "er_id (event_to_row X e) = ev_id e" "er_session_id (event_to_row X e) = ev_session_id e"
  "er_sequence (event_to_row X e) = sint (ev_sequence e)" "er_kind (event_to_row X e) = ev_kind e"
  "er_timestamp (event_to_row X e) = sx_to_rfc3339 X (ev_timestamp e)"
  by (simp_all add: event_to_row_def)

definition sqlite_rep :: "sql_ext \<Rightarrow> sqlite_store \<Rightarrow> event_envelope list \<Rightarrow> bool" where
  "sqlite_rep X st log \<longleftrightarrow> sq_rows st = map (event_to_row X) log \<and> sq_sent st = log \<and> spine_ok log
     \<and> (\<forall>e\<in>set log. storable X e)"

fun sqlite_call_ok :: "sql_ext \<Rightarrow> event_envelope list \<Rightarrow> spine_call \<Rightarrow> bool" where
  "sqlite_call_ok X log (Append e) = storable X e"
| "sqlite_call_ok X log (Append_Batch es required) = (\<forall>e\<in>set es. storable X e)"
| "sqlite_call_ok X log (Append_With_Sequence s d) =
     (case spine_next s log of Inl _ \<Rightarrow> True | Inr n \<Rightarrow> storable X (envelope s n d))"
| "sqlite_call_ok X log (Append_If_Next s expected d) =
     (uint expected < 2 ^ 63 \<and> (case spine_next s log of Inl _ \<Rightarrow> True | Inr n \<Rightarrow> storable X (envelope s n d)))"
| "sqlite_call_ok X log (Next_Sequence s) = True"
| "sqlite_call_ok X log (List_Session s) = (length (session_log s log) \<le> 1000)"
| "sqlite_call_ok X log (List_Session_Range s after limit) =
     ((case after of None \<Rightarrow> True | Some n \<Rightarrow> uint n < 2 ^ 63)
      \<and> (case limit of None \<Rightarrow> length (spine_range s after log) \<le> 1000 | Some n \<Rightarrow> n \<le> 10000))"
| "sqlite_call_ok X log List_All = True"
| "sqlite_call_ok X log (List_Kind_Prefix pre) = (utf8_valid pre \<and> (pre = [] \<or> byte (last pre) \<notin> {127, 191}))"
| "sqlite_call_ok X log (List_Session_Kind_Prefix s pre) =
     (utf8_valid pre \<and> (pre = [] \<or> byte (last pre) \<notin> {127, 191}))"

definition sqlite_admissible :: "sql_ext \<Rightarrow> event_envelope list \<Rightarrow> spine_call \<Rightarrow> bool" where
  "sqlite_admissible X log c = (sql_ext_ok X \<and> sqlite_call_ok X log c)"

lemma sql_insert_spine:
  "sql_insert (event_to_row X e) (map (event_to_row X) log) =
     (case spine_append e log of Inl _ \<Rightarrow> Inl SqlConstraint | Inr log' \<Rightarrow> Inr (map (event_to_row X) log'))"
proof -
  have "list_ex (\<lambda>x. er_id x = ev_id e \<or> er_session_id x = ev_session_id e \<and> er_sequence x = sint (ev_sequence e))
        (map (event_to_row X) log)
      \<longleftrightarrow> ev_id e \<in> ev_id ` set log \<or> (ev_session_id e, ev_sequence e) \<in> positions log"
    by (auto simp: list_ex_iff mem_image_ex positions_iff sint_inject)
  then show ?thesis by (simp add: sql_insert_def spine_append_def)
qed

lemma spine_append_Inr: "spine_append e log = Inr log' \<Longrightarrow> log' = log @ [e]"
  by (auto simp: spine_append_def split: if_splits)

lemma sql_fold_spine:
  "foldM (\<lambda>e. sql_insert (event_to_row X e)) es (map (event_to_row X) log) =
     (case foldM spine_append es log of Inl _ \<Rightarrow> Inl SqlConstraint | Inr log' \<Rightarrow> Inr (map (event_to_row X) log'))"
  by (induction es arbitrary: log) (simp_all add: sql_insert_spine split: sum.splits)

lemma spine_fold_Inr: "foldM spine_append es log = Inr log' \<Longrightarrow> log' = log @ es"
proof (induction es arbitrary: log)
  case (Cons e es)
  from Cons.prems obtain log1 where "spine_append e log = Inr log1" "foldM spine_append es log1 = Inr log'"
    by (auto simp: and_then_Inr)
  then show ?case using Cons.IH [of log1] spine_append_Inr [of e log log1] by simp
qed simp

lemma sql_next:
  assumes "sqlite_rep X st log"
  obtains n where "spine_next s log = Inr n" "sql_next_sequence s (sq_rows st) = Inr (uint n)" "uint n < 2 ^ 63"
proof (cases "session_log s log" rule: rev_cases)
  case Nil
  then have "filter (\<lambda>e. ev_session_id e = s) log = []"
    using set_session_log [of s log] by (auto simp: filter_empty_conv)
  then have "spine_next s log = Inr 0" "sql_next_sequence s (sq_rows st) = Inr (uint (0 :: u64))"
    using assms Nil by (simp_all add: spine_next_def sql_next_sequence_def sqlite_rep_def filter_map comp_def)
  then show ?thesis by (rule that) simp
next
  case (snoc es e)
  let ?rows = "filter (\<lambda>r. er_session_id r = s) (sq_rows st)" and ?n = "ev_sequence e"
  have e: "e \<in> set log" "ev_session_id e = s" using snoc set_session_log [of s log] by auto
  have small: "uint (ev_sequence x) < 2 ^ 63 - 1" "sint (ev_sequence x) = uint (ev_sequence x)" if "x \<in> set log" for x
    using assms that storable_sint by (auto simp: sqlite_rep_def storable_def)
  have rows: "set (map er_sequence ?rows) = (\<lambda>x. uint (ev_sequence x)) ` {x \<in> set log. ev_session_id x = s}"
    using assms small(2) by (force simp: sqlite_rep_def)
  have "rev (session_log s log) = e # rev es" using snoc by simp
  then have max: "Max (set (map er_sequence ?rows)) = uint ?n"
    unfolding rows using e last_session_log [of s log e "rev es"] by (intro Max_eqI) (auto simp: word_le_def)
  have "?rows \<noteq> []" using e assms by (auto simp: sqlite_rep_def filter_empty_conv)
  then have "sql_next_sequence s (sq_rows st) = Inr (uint ?n + 1)"
    using max small(1) [OF e(1)] by (cases ?rows) (simp_all add: sql_next_sequence_def Let_def)
  moreover have n: "?n \<noteq> - 1"
    using small(1) [OF e(1)] by (auto simp: unsigned_minus_1_eq_mask mask_eq_exp_minus_1)
  then have "spine_next s log = Inr (?n + 1)" using snoc by (simp add: spine_next_def)
  moreover have "uint (?n + 1) = uint ?n + 1"
    by (simp only: uint_nat unat_succ [OF n] of_nat_Suc)
  ultimately show ?thesis using that small(1) [OF e(1)] by simp
qed


section \<open>Queries\<close>

lemma sqlite_session_order:
  assumes "spine_ok log" "\<forall>e\<in>set log. storable X e"
  shows "sort_key (\<lambda>e. sint (ev_sequence e)) (filter P (filter (\<lambda>e. ev_session_id e = s) log))
    = filter P (session_log s log)"
proof -
  let ?es = "filter (\<lambda>e. ev_session_id e = s) log"
  have "sort_key (\<lambda>e. sint (ev_sequence e)) ?es = session_log s log"
    unfolding session_log_def
  proof (rule sort_key_iso [OF spine_ok_inj_filter [OF assms(1)]])
    fix x y assume "x \<in> set ?es" "y \<in> set ?es"
    then have "storable X x" "storable X y" using assms(2) by auto
    moreover assume "sint (ev_sequence x) \<le> sint (ev_sequence y)"
    ultimately show "ev_sequence x \<le> ev_sequence y" using storable_sint by (simp add: word_le_def)
  qed
  then show ?thesis by (simp only: filter_sort [symmetric])
qed

lemma sqlite_all_order:
  assumes ext: "sql_ext_ok X" and "spine_ok log" "\<forall>e\<in>set log. storable X e"
  shows "sort_key (\<lambda>e. (sx_to_rfc3339 X (ev_timestamp e), ev_session_id e, sint (ev_sequence e))) log = spine_all log"
  unfolding spine_all_def
proof (rule sort_key_iso)
  show "inj_on (\<lambda>e. (ev_timestamp e, ev_session_id e, ev_sequence e)) (set log)"
    using assms(2) by (auto simp: spine_ok_def inj_on_def)
next
  fix x y assume xy: "x \<in> set log" "y \<in> set log"
  have ts: "calendar (ev_timestamp x)" "calendar (ev_timestamp y)"
    and seq: "sint (ev_sequence x) = uint (ev_sequence x)" "sint (ev_sequence y) = uint (ev_sequence y)"
    using assms(3) xy storable_sint by (auto simp: storable_def)
  have "sx_to_rfc3339 X (ev_timestamp y) < sx_to_rfc3339 X (ev_timestamp x)" if "ev_timestamp y < ev_timestamp x"
    using ext ts that by (simp add: sql_ext_ok_def)
  moreover assume "(sx_to_rfc3339 X (ev_timestamp x), ev_session_id x, sint (ev_sequence x))
    \<le> (sx_to_rfc3339 X (ev_timestamp y), ev_session_id y, sint (ev_sequence y))"
  ultimately show "(ev_timestamp x, ev_session_id x, ev_sequence x) \<le> (ev_timestamp y, ev_session_id y, ev_sequence y)"
    unfolding seq by (auto simp: less_eq_prod_simp word_le_def not_less dest: leD)
      (metis less_le_not_le linorder_neqE)+
qed

lemma sqlite_query:
  assumes "sql_ext_ok X" "sqlite_rep X st log" "set es \<subseteq> set log"
  shows "mapM (row_to_event X) (map (event_to_row X) es) = Inr es"
  using assms by (intro rows_round_trip) (auto simp: sqlite_rep_def)

lemma sqlite_range_rows:
  assumes "sqlite_rep X st log"
  shows "sort_key er_sequence (filter (\<lambda>r. er_session_id r = s \<and> P r) (sq_rows st))
    = map (event_to_row X) (filter (\<lambda>e. P (event_to_row X e)) (session_log s log))"
proof -
  have "filter (\<lambda>r. er_session_id r = s \<and> P r) (sq_rows st)
      = map (event_to_row X) (filter (\<lambda>e. P (event_to_row X e)) (filter (\<lambda>e. ev_session_id e = s) log))"
    using assms by (simp add: sqlite_rep_def filter_map comp_def conj_commute)
  then show ?thesis
    using sqlite_session_order [of log X "\<lambda>e. P (event_to_row X e)" s] assms
    by (simp add: sort_key_map sqlite_rep_def)
qed

lemma sqlite_session_range:
  assumes "sql_ext_ok X" "sqlite_rep X st log" "case after of None \<Rightarrow> True | Some n \<Rightarrow> uint n < 2 ^ 63"
  shows "sqlite_list_session_range X s after limit st =
    Inr (take (min (case limit of None \<Rightarrow> 1000 | Some n \<Rightarrow> n) 10000) (spine_range s after log))"
proof -
  let ?after = "case after of None \<Rightarrow> - 1 | Some n \<Rightarrow> sint n"
  have "?after < sint (ev_sequence e) \<longleftrightarrow> (case after of None \<Rightarrow> True | Some n \<Rightarrow> n < ev_sequence e)"
    if "e \<in> set (session_log s log)" for e
    using that assms(2,3) storable_sint [of X e]
    by (auto simp: sqlite_rep_def sint_small word_less_def less_le_trans [OF _ uint_ge_0] split: option.splits)
  then have "filter (\<lambda>e. ?after < er_sequence (event_to_row X e)) (session_log s log) = spine_range s after log"
    unfolding spine_range_def by (intro filter_cong) simp_all
  then have "sort_key er_sequence (filter (\<lambda>r. er_session_id r = s \<and> ?after < er_sequence r) (sq_rows st))
      = map (event_to_row X) (spine_range s after log)"
    using sqlite_range_rows [OF assms(2), of s "\<lambda>r. ?after < er_sequence r"] by simp
  moreover have "set (take n (spine_range s after log)) \<subseteq> set log" for n
    by (auto simp: spine_range_def dest!: in_set_takeD)
  ultimately show ?thesis
    using sqlite_query [OF assms(1,2)] unfolding sqlite_list_session_range_def Let_def by (simp add: take_map)
qed


section \<open>The contract\<close>

lemma sqlite_insert_step:
  assumes rep: "sqlite_rep X st log" and e: "storable X e"
  shows "case sql_insert (event_to_row X e) (sq_rows st) of
      Inl _ \<Rightarrow> spine_append e log = Inl ()
    | Inr rows \<Rightarrow> spine_append e log = Inr (log @ [e])
        \<and> sqlite_rep X (st\<lparr>sq_rows := rows, sq_sent := sq_sent st @ [e]\<rparr>) (log @ [e])"
proof -
  have rows: "sq_rows st = map (event_to_row X) log" and ok: "spine_ok log" using rep by (auto simp: sqlite_rep_def)
  show ?thesis
  proof (cases "spine_append e log")
    case (Inr log')
    then have "log' = log @ [e]" "spine_ok log'" using spine_append_Inr spine_append_ok [OF ok] by blast+
    then show ?thesis using Inr rep e by (simp add: rows sql_insert_spine sqlite_rep_def)
  qed (simp add: rows sql_insert_spine)
qed

lemma sqlite_batch_step:
  assumes rep: "sqlite_rep X st log" and es: "\<forall>e\<in>set es. storable X e"
  shows "fst (sqlite_step X (Append_Batch es required) st) = fst (spine_step (Append_Batch es required) log)
    \<and> sqlite_rep X (snd (sqlite_step X (Append_Batch es required) st)) (snd (spine_step (Append_Batch es required) log))"
proof -
  have rows: "sq_rows st = map (event_to_row X) log" and ok: "spine_ok log" using rep by (auto simp: sqlite_rep_def)
  have "session_log s log \<noteq> [] \<longleftrightarrow> (\<exists>e\<in>set log. ev_session_id e = s)" for s
    using set_session_log [of s log] by (metis (mono_tags, lifting) Collect_empty_eq set_empty)
  then have required: "list_ex (\<lambda>s. list_ex (\<lambda>r. er_session_id r = s) (sq_rows st)) required
      \<longleftrightarrow> (\<exists>s\<in>set required. session_log s log \<noteq> [])"
    by (simp add: rows list_ex_iff)
  show ?thesis
  proof (cases "foldM spine_append es log")
    case (Inl u)
    then show ?thesis using rep by (simp add: sqlite_append_batch_def required rows sql_fold_spine)
  next
    case (Inr log')
    then have "log' = log @ es" "spine_ok log'" using spine_fold_Inr spine_fold_ok [OF ok] by blast+
    then show ?thesis using Inr rep es
      by (auto simp: sqlite_append_batch_def required [unfolded rows] rows sql_fold_spine sqlite_rep_def)
  qed
qed

lemma sqlite_append_next_step:
  assumes rep: "sqlite_rep X st log" and n: "spine_next s log = Inr n" and d: "storable X (envelope s n d)"
  shows "case sql_insert (event_to_row X (envelope s (word_of_int (uint n)) d)) (sq_rows st) of
      Inl _ \<Rightarrow> spine_append (envelope s n d) log = Inl ()
    | Inr rows \<Rightarrow> spine_append (envelope s n d) log = Inr (log @ [envelope s n d])
        \<and> sqlite_rep X (st\<lparr>sq_rows := rows, sq_sent := sq_sent st @ [envelope s n d]\<rparr>) (log @ [envelope s n d])"
  using sqlite_insert_step [OF rep d] by simp

lemma sqlite_kind_rows:
  assumes ext: "sql_ext_ok X" and rep: "sqlite_rep X st log"
    and pre: "utf8_valid pre" "pre = [] \<or> byte (last pre) \<notin> {127, 191}"
  shows "sqlite_list_kind_prefix X pre st = Inr (filter (\<lambda>e. starts_with (ev_kind e) pre) (spine_all log))"
    and "sqlite_list_session_kind_prefix X s pre st = Inr (filter (\<lambda>e. starts_with (ev_kind e) pre) (session_log s log))"
proof -
  have match: "kind_matches X pre (event_to_row X e) \<longleftrightarrow> starts_with (ev_kind e) pre" for e
    using kind_matches_prefix [OF pre] ext by (simp add: sql_ext_ok_def)
  have rows: "sq_rows st = map (event_to_row X) log" and ok: "spine_ok log" and all: "\<forall>e\<in>set log. storable X e"
    using rep by (auto simp: sqlite_rep_def)
  let ?key = "\<lambda>e. (sx_to_rfc3339 X (ev_timestamp e), ev_session_id e, sint (ev_sequence e))"
  have "sort_key ?key (filter (\<lambda>e. starts_with (ev_kind e) pre) log) = filter (\<lambda>e. starts_with (ev_kind e) pre) (spine_all log)"
    using sqlite_all_order [OF ext ok all] by (simp only: filter_sort [symmetric])
  then have "sort_key (\<lambda>r. (er_timestamp r, er_session_id r, er_sequence r)) (filter (kind_matches X pre) (sq_rows st))
      = map (event_to_row X) (filter (\<lambda>e. starts_with (ev_kind e) pre) (spine_all log))"
    by (simp add: rows filter_map comp_def match sort_key_map)
  moreover have "set (filter (\<lambda>e. starts_with (ev_kind e) pre) (spine_all log)) \<subseteq> set log" by (auto simp: spine_all_def)
  ultimately show "sqlite_list_kind_prefix X pre st = Inr (filter (\<lambda>e. starts_with (ev_kind e) pre) (spine_all log))"
    using sqlite_query [OF ext rep] by (simp add: sqlite_list_kind_prefix_def)
  show "sqlite_list_session_kind_prefix X s pre st = Inr (filter (\<lambda>e. starts_with (ev_kind e) pre) (session_log s log))"
    using sqlite_range_rows [OF rep, of s "kind_matches X pre"] sqlite_query [OF ext rep]
    by (simp add: sqlite_list_session_kind_prefix_def match subset_iff)
qed

lemma sqlite_all_rows:
  assumes ext: "sql_ext_ok X" and rep: "sqlite_rep X st log"
  shows "sqlite_list_all X st = Inr (spine_all log)"
proof -
  have "sort_key (\<lambda>r. (er_timestamp r, er_session_id r, er_sequence r)) (sq_rows st) = map (event_to_row X) (spine_all log)"
    using sqlite_all_order [OF ext, of log] rep by (simp add: sqlite_rep_def sort_key_map)
  then show ?thesis using sqlite_query [OF ext rep, of "spine_all log"] by (simp add: sqlite_list_all_def spine_all_def)
qed

lemma sqlite_rep_step:
  assumes rep: "sqlite_rep X st log" and adm: "sqlite_admissible X log c"
  shows "fst (sqlite_step X c st) = fst (spine_step c log) \<and> sqlite_rep X (snd (sqlite_step X c st)) (snd (spine_step c log))"
proof -
  have ext: "sql_ext_ok X" and call: "sqlite_call_ok X log c" using adm by (auto simp: sqlite_admissible_def)
  show ?thesis
  proof (cases c)
    case (Append e)
    then show ?thesis using sqlite_insert_step [OF rep, of e] call rep
      by (auto simp: sqlite_append_def split: sum.splits)
  next
    case (Append_Batch es required)
    then show ?thesis using sqlite_batch_step [OF rep] call by simp
  next
    case (Append_With_Sequence s d)
    then show ?thesis using call rep sqlite_append_next_step [OF rep, of s _ d]
      by (cases rule: sql_next [OF rep, of s])
        (auto simp: sqlite_append_with_sequence_def Let_def split: sum.splits)
  next
    case (Append_If_Next s expected d)
    then show ?thesis using call rep sqlite_append_next_step [OF rep, of s _ d]
      by (cases rule: sql_next [OF rep, of s])
        (auto simp: sqlite_append_if_next_def Let_def word_uint_eq_iff [symmetric] split: sum.splits)
  next
    case (Next_Sequence s)
    then show ?thesis using rep
      by (cases rule: sql_next [OF rep, of s]) (simp add: sqlite_next_sequence_def)
  next
    case (List_Session s)
    then show ?thesis using call rep sqlite_session_range [OF ext rep, of None s None]
      by (simp add: sqlite_list_session_def)
  next
    case (List_Session_Range s after limit)
    then show ?thesis using call rep sqlite_session_range [OF ext rep, of after s limit]
      by (auto split: option.splits)
  qed (use call rep ext in \<open>simp_all add: sqlite_all_rows sqlite_kind_rows\<close>)
qed

lemma sqlite_rep_start: "sqlite_rep X sqlite_start []"
  by (simp add: sqlite_rep_def sqlite_start_def spine_ok_def)

interpretation sqlite: event_spine "sqlite_rep X" sqlite_start "sqlite_step X" "sqlite_admissible X" for X
  by unfold_locales (simp_all add: sqlite_rep_start sqlite_rep_step, simp add: sqlite_rep_def)

end
