(* ===== verification/Event_Props.thy ===== *)
theory Event_Props
  imports Event_Sqlite
begin

text \<open>
  What clients of the event spine rely on: contiguous sequence numbers, one winner of a
  compare-and-append, atomic batches, and stores that cannot be told apart; and where the SQLite
  store departs from the contract.
\<close>

section \<open>Growth of the log\<close>

lemma spine_step_grows: "\<exists>es. snd (spine_step c log) = log @ es"
  by (cases c) (auto simp: spine_put_def dest: spine_append_Inr spine_fold_Inr split: sum.splits)

lemma spine_run_grows: "\<exists>es. snd (run_calls spine_step cs log) = log @ es"
proof (induction cs arbitrary: log)
  case (Cons c cs)
  obtain es where es: "snd (spine_step c log) = log @ es" using spine_step_grows by blast
  obtain es' where "snd (run_calls spine_step cs (log @ es)) = (log @ es) @ es'" using Cons.IH by blast
  then show ?case using es by (auto simp: split_beta Let_def)
qed simp

lemma length_run: "length (fst (run_calls step cs st)) = length cs"
  by (induction cs arbitrary: st) (simp_all add: split_beta Let_def)

lemma nth_run:
  "i < length cs \<Longrightarrow> fst (run_calls step cs st) ! i = fst (step (cs ! i) (snd (run_calls step (take i cs) st)))"
proof (induction cs arbitrary: st i)
  case (Cons c cs)
  then show ?case by (cases i) (simp_all add: split_beta Let_def)
qed simp

lemma run_append: "snd (run_calls step (xs @ ys) st) = snd (run_calls step ys (snd (run_calls step xs st)))"
  by (induction xs arbitrary: st) (simp_all add: split_beta Let_def)

lemma admissible_append:
  "admissible_run ok (xs @ ys) log \<longleftrightarrow> admissible_run ok xs log \<and> admissible_run ok ys (snd (run_calls spine_step xs log))"
  by (induction xs arbitrary: log) (simp_all add: split_beta Let_def)

lemma admissible_mono:
  "(\<And>log c. P log c \<Longrightarrow> Q log c) \<Longrightarrow> admissible_run P cs log \<Longrightarrow> admissible_run Q cs log"
  by (induction cs arbitrary: log) auto

section \<open>Contiguous sequences\<close>

fun sequenced :: "spine_call \<Rightarrow> bool" where
  "sequenced (Append _) = False"
| "sequenced (Append_Batch _ _) = False"
| "sequenced _ = True"

definition contiguous :: "event_envelope list \<Rightarrow> bool" where
  "contiguous es \<longleftrightarrow> map ev_sequence es = map of_nat [0..<length es]"

lemma contiguous_next:
  assumes "contiguous (session_log s log)" "spine_next s log = Inr n"
  shows "n = of_nat (length (session_log s log))"
proof (cases "session_log s log" rule: rev_cases)
  case Nil
  then show ?thesis using assms(2) by (simp add: spine_next_def)
next
  case (snoc es e)
  then have "ev_sequence e = of_nat (length es)" using assms(1) by (simp add: contiguous_def)
  then show ?thesis using snoc assms(2) by (auto simp: spine_next_def split: if_splits)
qed

lemma contiguous_append:
  assumes "spine_ok log" "\<forall>s. contiguous (session_log s log)" "spine_next s log = Inr n"
    and "spine_append (envelope s n d) log = Inr log'"
  shows "\<forall>s. contiguous (session_log s log')"
proof
  fix s'
  let ?e = "envelope s n d"
  have log': "log' = log @ [?e]" and ok: "spine_ok log'"
    using spine_append_Inr [OF assms(4)] spine_append_ok [OF assms(1,4)] by auto
  have e: "ev_session_id ?e = s" "ev_sequence ?e = n" by (simp_all add: envelope_def)
  have n: "n = of_nat (length (session_log s log))" using contiguous_next assms(2,3) by blast
  have "session_log s (log @ [?e]) = session_log s log @ [?e]"
    using session_log_append_last [of log ?e] ok log' spine_next_above [OF assms(3)] e by (auto intro: less_imp_le)
  then show "contiguous (session_log s' log')"
    using assms(2) log' e n session_log_other [of s' ?e log] by (cases "s' = s") (simp_all add: contiguous_def)
qed

lemma contiguous_step:
  assumes "spine_ok log" "\<forall>s. contiguous (session_log s log)" "sequenced c"
  shows "\<forall>s. contiguous (session_log s (snd (spine_step c log)))"
proof (cases c)
  case (Append_With_Sequence s d)
  then show ?thesis using contiguous_append [OF assms(1,2), of s _ d] assms(2)
    by (auto simp: spine_put_def split: sum.splits)
next
  case (Append_If_Next s m d)
  then show ?thesis using contiguous_append [OF assms(1,2), of s _ d] assms(2)
    by (auto simp: spine_put_def split: sum.splits)
qed (use assms in simp_all)

lemma contiguous_run:
  assumes "spine_ok log" "\<forall>s. contiguous (session_log s log)" "\<forall>c\<in>set cs. sequenced c"
  shows "\<forall>s. contiguous (session_log s (snd (run_calls spine_step cs log)))"
  using assms
proof (induction cs arbitrary: log)
  case (Cons c cs)
  then show ?case using fst_spine_step_ok [of log c] contiguous_step [of log c] by (simp add: split_beta Let_def)
qed simp

section \<open>Clients of any store\<close>

definition both_win :: "spine_reply list \<Rightarrow> nat \<Rightarrow> nat \<Rightarrow> bool" where
  "both_win rs i j \<longleftrightarrow> (\<exists>e e'. rs ! i = Appended e \<and> rs ! j = Appended e')"

lemma cas_wins:
  assumes "fst (spine_step (Append_If_Next s n d) log) = Appended e"
  shows "spine_next s log = Inr n \<and> snd (spine_step (Append_If_Next s n d) log) = log @ [envelope s n d]"
  using assms by (auto simp: spine_put_def dest: spine_append_Inr split: sum.splits if_splits)

lemma spine_single_winner:
  assumes "i < j" "j < length cs" "cs ! i = Append_If_Next s n d" "cs ! j = Append_If_Next s n d'"
  shows "\<not> both_win (fst (run_calls spine_step cs log)) i j"
proof
  let ?at = "\<lambda>k. snd (run_calls spine_step (take k cs) log)"
  assume "both_win (fst (run_calls spine_step cs log)) i j"
  then obtain e e' where "fst (spine_step (cs ! i) (?at i)) = Appended e" "fst (spine_step (cs ! j) (?at j)) = Appended e'"
    using assms(1,2) nth_run [of i cs spine_step log] nth_run [of j cs spine_step log] by (auto simp: both_win_def)
  then have i: "snd (spine_step (cs ! i) (?at i)) = ?at i @ [envelope s n d]" and j: "spine_next s (?at j) = Inr n"
    using cas_wins [of s n d "?at i" e] cas_wins [of s n d' "?at j" e'] assms(3,4)
    by (simp_all del: spine_step.simps)
  have "?at (Suc i) = ?at i @ [envelope s n d]"
    using run_append [of spine_step "take i cs" "[cs ! i]" log] assms(1,2) i
    by (simp add: take_Suc_conv_app_nth split_beta Let_def del: spine_step.simps)
  moreover have "take j cs = take (Suc i) cs @ drop (Suc i) (take j cs)"
    using assms(1) by (metis append_take_drop_id min.absorb1 Suc_leI take_take)
  then have "\<exists>es. ?at j = ?at (Suc i) @ es"
    using run_append [of spine_step "take (Suc i) cs" "drop (Suc i) (take j cs)" log] spine_run_grows by metis
  ultimately have "envelope s n d \<in> set (?at j)" by auto
  then have "ev_sequence (envelope s n d) < n" by (rule spine_next_above [OF j]) (simp add: envelope_def)
  then show False by (simp add: envelope_def)
qed

context event_spine begin

lemma single_winner:
  assumes "admissible_run admissible cs []" "i < j" "j < length cs"
    and "cs ! i = Append_If_Next s n d" "cs ! j = Append_If_Next s n d'"
  shows "\<not> both_win (fst (run_calls step cs start)) i j"
  using rep_run [OF rep_start assms(1)] spine_single_winner [OF assms(2-)] by simp

lemma session_contiguous:
  assumes "admissible_run admissible (cs @ [List_Session s]) []" "\<forall>c\<in>set cs. sequenced c"
  shows "\<exists>es. fst (step (List_Session s) (snd (run_calls step cs start))) = Events es \<and> contiguous es"
proof -
  let ?log = "snd (run_calls spine_step cs [])"
  have adm: "admissible_run admissible cs []" "admissible ?log (List_Session s)"
    using assms(1) by (simp_all add: admissible_append)
  have "fst (step (List_Session s) (snd (run_calls step cs start))) = Events (session_log s ?log)"
    using rep_step [OF conjunct2 [OF rep_run [OF rep_start adm(1)]] adm(2)] by simp
  moreover have "contiguous (session_log s ?log)"
    using contiguous_run [of "[]" cs] assms(2) by (simp add: spine_ok_def contiguous_def session_log_def)
  ultimately show ?thesis by blast
qed

end


lemma spine_append_exact: "spine_ok log \<Longrightarrow> spine_append e log = (if spine_ok (log @ [e]) then Inr (log @ [e]) else Inl ())"
  by (auto simp: spine_append_def spine_ok_def positions_def)

lemma spine_ok_append: "spine_ok (xs @ ys) \<Longrightarrow> spine_ok xs"
  by (auto simp: spine_ok_def inj_on_def)

lemma spine_fold_exact:
  "spine_ok log \<Longrightarrow> foldM spine_append es log = (if spine_ok (log @ es) then Inr (log @ es) else Inl ())"
proof (induction es arbitrary: log)
  case (Cons e es)
  show ?case
    using spine_append_exact [OF Cons.prems, of e] Cons.IH [of "log @ [e]"] spine_ok_append [of "log @ [e]" es] by auto
qed simp

lemma memory_batch_unchanged:
  "fst (memory_append_batch es required st) \<noteq> Inr () \<Longrightarrow> snd (memory_append_batch es required st) = st"
  by (auto simp: memory_append_batch_def Let_def split: sum.splits prod.splits)

section \<open>A small instance\<close>

text \<open>Texts of times in unary, from the first of the calendar, sort like the times.\<close>

abbreviation first_instant :: int where
  "first_instant \<equiv> - 62167219200 * 10 ^ 9"

definition sample_sql_ext :: sql_ext where
  "sample_sql_ext = \<lparr>sx_to_rfc3339 = (\<lambda>t. replicate (nat (t - first_instant)) (CHR ''i'')),
     sx_parse_rfc3339 = (\<lambda>s. Some (int (length s) + first_instant)),
     sx_json_to_string = (\<lambda>_. ''null''), sx_json_from_str = (\<lambda>_. Some JNull), sx_like = (\<lambda>_ _. True)\<rparr>"

lemma replicate_less: "m < n \<Longrightarrow> replicate m c < replicate n (c :: char)"
proof (induction m arbitrary: n)
  case (Suc m)
  then show ?case by (cases n) auto
qed (auto simp: gr0_conv_Suc)

lemma sample_sql_ext_ok: "sql_ext_ok sample_sql_ext"
  by (auto simp: sql_ext_ok_def sample_sql_ext_def calendar_def intro!: replicate_less)

definition sample_draft :: "str \<Rightarrow> event_draft" where
  "sample_draft i = \<lparr>ed_id = i, ed_timestamp = first_instant, ed_writer_package_id = ''p'', ed_kind = ''p/k'',
     ed_schema_version = 1, ed_payload = JNull, ed_metadata = JNull\<rparr>"

lemma sample_storable: "n < 1001 \<Longrightarrow> storable sample_sql_ext (envelope s (of_nat n) (sample_draft i))"
proof -
  assume "n < 1001"
  then have "uint (of_nat n :: u64) < 2 ^ 63 - 1" by (simp add: uint_nat unat_of_nat)
  then show ?thesis by (simp add: storable_def envelope_def sample_draft_def sample_sql_ext_def calendar_def)
qed

definition sample_calls :: "spine_call list" where
  "sample_calls = [Append_If_Next ''s'' 0 (sample_draft ''a''), Append_If_Next ''s'' 0 (sample_draft ''b'')]"

lemma sample_logs:
  "session_log ''s'' [] = []" "spine_next ''s'' [] = Inr 0"
  "spine_append (envelope ''s'' 0 (sample_draft ''a'')) [] = Inr [envelope ''s'' 0 (sample_draft ''a'')]"
  "session_log ''s'' [envelope ''s'' 0 (sample_draft ''a'')] = [envelope ''s'' 0 (sample_draft ''a'')]"
  "spine_next ''s'' [envelope ''s'' 0 (sample_draft ''a'')] = Inr 1"
  by (simp_all add: session_log_def spine_next_def spine_append_def positions_def envelope_def)

lemma sample_calls_admissible:
  "admissible_run (\<lambda>log c. new_ids log c \<and> sqlite_admissible sample_sql_ext log c) sample_calls []"
  using sample_sql_ext_ok sample_storable [of 0 "''s''" "''a''"] sample_storable [of 1 "''s''" "''b''"]
  by (simp add: sample_calls_def sample_logs sqlite_admissible_def) (simp add: envelope_def sample_draft_def)

lemmas sample_calls_each =
  admissible_mono [OF conjunct1 sample_calls_admissible] admissible_mono [OF conjunct2 sample_calls_admissible]


text \<open>A session of 1001 events in both stores.\<close>

definition sample_log :: "event_envelope list" where
  "sample_log = map (\<lambda>i. envelope ''s'' (of_nat i) (sample_draft (decimal i))) [0..<1001]"

definition sample_sqlite :: sqlite_store where
  "sample_sqlite = \<lparr>sq_rows = map (event_to_row sample_sql_ext) sample_log, sq_sent = sample_log\<rparr>"

definition sample_memory :: memory_store where
  "sample_memory = \<lparr>me_events = [(''s'', sample_log)], me_sent = sample_log\<rparr>"

lemma length_sample_log: "length sample_log = 1001"
  by (simp add: sample_log_def)

lemma of_nat_small_le: "m < 1001 \<Longrightarrow> n < 1001 \<Longrightarrow> (of_nat m :: u64) \<le> of_nat n \<longleftrightarrow> m \<le> n"
  by (simp add: word_le_nat_alt unat_of_nat)

lemma sample_log_ok: "spine_ok sample_log"
proof -
  have "inj_on (\<lambda>i. of_nat i :: u64) {0..<1001}"
    by (rule inj_onI) (metis antisym_conv atLeastLessThan_iff of_nat_small_le order_refl)
  then have "inj_on (\<lambda>i. (''s'', of_nat i :: u64)) {0..<1001}" by (simp add: inj_on_def)
  then have "inj_on (\<lambda>e. (ev_session_id e, ev_sequence e)) (set sample_log)"
    by (auto simp: sample_log_def inj_on_def envelope_def)
  moreover have "distinct (map decimal [0..<1001])" by (simp add: distinct_map inj_on_def decimal_inj)
  then have "distinct (map ev_id sample_log)"
    by (simp add: sample_log_def envelope_def sample_draft_def comp_def)
  ultimately show ?thesis by (simp add: spine_ok_def)
qed

lemma sample_session_log: "session_log s sample_log = (if s = ''s'' then sample_log else [])"
proof (cases "s = ''s''")
  case True
  have "filter (\<lambda>e. ev_session_id e = s) sample_log = sample_log"
    using True by (simp add: filter_id_conv sample_log_def envelope_def)
  moreover have "sorted (map ev_sequence sample_log)"
    by (auto simp: sorted_iff_nth_mono sample_log_def envelope_def of_nat_small_le)
  ultimately show ?thesis using True by (simp add: session_log_def sort_key_id_if_sorted)
next
  case False
  then show ?thesis by (simp add: session_log_def sample_log_def envelope_def filter_empty_conv)
qed

lemma sample_sqlite_rep: "sqlite_rep sample_sql_ext sample_sqlite sample_log"
proof -
  have "storable sample_sql_ext e" if "e \<in> set sample_log" for e
    using that sample_storable by (auto simp: sample_log_def)
  then show ?thesis using sample_log_ok by (simp add: sqlite_rep_def sample_sqlite_def)
qed

lemma sample_memory_rep: "memory_rep sample_memory sample_log"
  by (simp add: memory_rep_def sample_memory_def sample_log_ok sample_session_log session_events_def bt_wf_def)

section \<open>Properties\<close>

text \<open>C35: The backends cannot be told apart. For every sequence of calls with new ids that stays within
  the bounds of the SQLite store (sequence numbers below the largest \<open>i64\<close>, times of four-digit
  years, listings of at most 1000 events or an explicit limit of at most 10000, kind prefixes that
  do not end in the last byte of a UTF-8 range), the in-memory store and the SQLite store give the
  same replies and have broadcast the same events.\<close>

theorem event_backends_agree:
  assumes "admissible_run (\<lambda>log c. new_ids log c \<and> sqlite_admissible X log c) cs []"
  shows "fst (run_calls memory_step cs memory_start) = fst (run_calls (sqlite_step X) cs sqlite_start)
    \<and> me_sent (snd (run_calls memory_step cs memory_start)) = sq_sent (snd (run_calls (sqlite_step X) cs sqlite_start))"
  using memory.rep_run [OF memory_rep_start admissible_mono [OF conjunct1 assms]]
    sqlite.rep_run [OF sqlite_rep_start admissible_mono [OF conjunct2 assms]]
  by (simp add: memory_rep_def sqlite_rep_def)

theorem event_backends_agree_witness:
  "fst (run_calls memory_step sample_calls memory_start) = fst (run_calls (sqlite_step sample_sql_ext) sample_calls sqlite_start)"
  using event_backends_agree [OF sample_calls_admissible] by blast

text \<open>C36: The in-memory store is the log of the specification. For every sequence of calls in which
  \<open>new_id\<close> returns new ids, its replies are those of the specification: an append is refused exactly
  when its id or its position is taken, a batch is applied as a whole or not at all, and every
  listing is the log selected and ordered as documented; and the events broadcast are the log.\<close>

theorem memory_store_refines_spine:
  assumes "admissible_run new_ids cs []"
  shows "fst (run_calls memory_step cs memory_start) = fst (run_calls spine_step cs [])
    \<and> me_sent (snd (run_calls memory_step cs memory_start)) = snd (run_calls spine_step cs [])"
  using memory.rep_run [OF memory_rep_start assms] by (simp add: memory_rep_def)

theorem memory_store_refines_spine_witness:
  "fst (run_calls memory_step sample_calls memory_start) = [Appended (envelope ''s'' 0 (sample_draft ''a'')), Overtaken]"
  using memory_store_refines_spine [OF sample_calls_each(1)] by (simp add: sample_calls_def sample_logs)

text \<open>Sequence numbers are contiguous from zero. After any interleaving of appends that allocate
  the sequence number, and of queries, the events of a session listed by either store are numbered
  0, 1, 2 and so on without gap or repetition.\<close>

theorem appended_sequences_contiguous:
  assumes "admissible_run (\<lambda>log c. new_ids log c \<and> sqlite_admissible X log c) (cs @ [List_Session s]) []"
    and "\<forall>c\<in>set cs. sequenced c"
  shows "(\<exists>es. fst (memory_step (List_Session s) (snd (run_calls memory_step cs memory_start))) = Events es \<and> contiguous es)
    \<and> (\<exists>es. fst (sqlite_step X (List_Session s) (snd (run_calls (sqlite_step X) cs sqlite_start))) = Events es \<and> contiguous es)"
  using memory.session_contiguous [OF admissible_mono [OF conjunct1 assms(1)] assms(2)]
    sqlite.session_contiguous [OF admissible_mono [OF conjunct2 assms(1)] assms(2)] by blast

theorem appended_sequences_contiguous_witness:
  "\<exists>es. fst (sqlite_step sample_sql_ext (List_Session ''s'')
     (snd (run_calls (sqlite_step sample_sql_ext) sample_calls sqlite_start))) = Events es \<and> contiguous es"
proof -
  have "admissible_run (\<lambda>log c. new_ids log c \<and> sqlite_admissible sample_sql_ext log c) (sample_calls @ [List_Session ''s'']) []"
    unfolding admissible_append using sample_calls_admissible
    by (simp add: sample_calls_def sample_logs sqlite_admissible_def sample_sql_ext_ok)
  moreover have "\<forall>c\<in>set sample_calls. sequenced c" by (simp add: sample_calls_def)
  ultimately show ?thesis using appended_sequences_contiguous by blast
qed



text \<open>Batches are all or nothing. A batch is accepted by the in-memory store exactly when the required
  sessions are empty and the log with the whole batch added has distinct ids and positions; then
  the whole batch is added and broadcast in order, and otherwise nothing changes.\<close>

theorem batch_append_atomic:
  assumes "memory_rep st log"
  shows "(fst (memory_append_batch es required st) = Inr () \<longleftrightarrow>
      (\<forall>s\<in>set required. session_log s log = []) \<and> spine_ok (log @ es))
    \<and> (if fst (memory_append_batch es required st) = Inr () then memory_rep (snd (memory_append_batch es required st)) (log @ es)
       else snd (memory_append_batch es required st) = st)"
proof -
  have ok: "spine_ok log" using assms by (simp add: memory_rep_def)
  have fold: "foldM spine_append es log = (if spine_ok (log @ es) then Inr (log @ es) else Inl ())"
    by (rule spine_fold_exact [OF ok])
  have step: "fst (memory_step (Append_Batch es required) st) = fst (spine_step (Append_Batch es required) log)"
      "memory_rep (snd (memory_step (Append_Batch es required) st)) (snd (spine_step (Append_Batch es required) log))"
    using memory_batch_rep [OF assms] by blast+
  have accepted: "reply (\<lambda>_. Accepted) r = Accepted \<longleftrightarrow> r = Inr ()" for r :: "event_error + unit"
    by (cases r) simp_all
  have "fst (memory_append_batch es required st) = Inr () \<longleftrightarrow> fst (spine_step (Append_Batch es required) log) = Accepted"
    using step(1) accepted [of "fst (memory_append_batch es required st)"] by (simp del: spine_step.simps)
  then show ?thesis
    using step(2) fold memory_batch_unchanged [of es required st] by (auto split: if_splits)
qed

theorem batch_append_atomic_witness:
  "fst (memory_append_batch [envelope ''s'' 0 (sample_draft ''a'')] [''s''] memory_start) = Inr ()"
proof -
  have "spine_ok [envelope ''s'' 0 (sample_draft ''a'')]" by (simp add: spine_ok_def)
  then show ?thesis
    using batch_append_atomic [OF memory_rep_start, of "[envelope ''s'' 0 (sample_draft ''a'')]" "[''s'']"]
    by (simp add: sample_logs)
qed

text \<open>The SQLite store truncates an unlimited listing. Where the contract promises all events of a
  session, \<open>list_session\<close> returns the first 1000 of them; the in-memory store returns all.\<close>

theorem sqlite_list_session_truncates:
  assumes "sql_ext_ok X" and "sqlite_rep X st log" and "memory_rep mst log"
  shows "sqlite_list_session X s st = Inr (take 1000 (session_log s log))
    \<and> memory_list_session s mst = session_log s log"
  using sqlite_session_range [OF assms(1,2), of None s None] memory_queries(2) [OF assms(3), of s None None]
  by (simp add: sqlite_list_session_def memory_list_session_def)

theorem sqlite_list_session_truncates_witness:
  "(\<exists>es. sqlite_list_session sample_sql_ext ''s'' sample_sqlite = Inr es \<and> length es = 1000)
   \<and> length (memory_list_session ''s'' sample_memory) = 1001"
  using sqlite_list_session_truncates [OF sample_sql_ext_ok sample_sqlite_rep sample_memory_rep, of "''s''"]
  by (simp add: sample_session_log length_sample_log)

text \<open>The kind range of the SQLite store. For a prefix of valid UTF-8 the range query selects exactly
  the kinds with that prefix, except when the prefix ends in the last byte of a UTF-8 range (7F or
  BF): then the upper bound is not valid UTF-8, is replaced by the empty string, and nothing is
  selected.\<close>

theorem kind_range_selects_prefix:
  assumes "utf8_valid pre" and "\<And>k. sx_like X ''%'' k"
  shows "kind_matches X pre r \<longleftrightarrow> starts_with (er_kind r) pre \<and> (pre = [] \<or> byte (last pre) \<notin> {127, 191})"
  using kind_matches_prefix [OF assms(1) _ assms(2), of r] kind_matches_none [OF assms(1), of X r] by blast

theorem kind_range_selects_prefix_witness:
  "kind_matches sample_sql_ext ''p/'' (event_to_row sample_sql_ext (envelope ''s'' 0 (sample_draft ''a'')))"
  using kind_range_selects_prefix [of "''p/''" sample_sql_ext "event_to_row sample_sql_ext (envelope ''s'' 0 (sample_draft ''a''))"]
  by (simp add: sample_sql_ext_def starts_with_iff envelope_def sample_draft_def)

end
