(* ===== verification/Handle_Table.thy ===== *)
theory Handle_Table
  imports Json_Model
begin

text \<open>
  The table of capability handles (\<open>runtime/handles.rs\<close>, with the structs of
  \<open>core/capability_handle.rs\<close>).

  The three locked fields of \<open>HandleTable\<close> are the fields of \<open>handle_table\<close>; a \<open>HashMap\<close>
  that is only read and written by key is a HOL map. The clock and the random id of a new handle
  are arguments of the operations that read them. \<open>handle_step\<close> runs one call of the API and
  \<open>handle_run\<close> a sequence of calls, which is how the calls of concurrent tasks appear to a handle:
  each change of a stored handle happens inside one write lock.
\<close>

section \<open>Handles\<close>

type_synonym cap_handle_id = "128 word"

record handle_scope =
  hs_holder_package_id :: str
  hs_session_id :: "str option"

record handle_lease =
  hl_expires_at :: "int option"
  hl_max_invocations :: "u32 option"
  hl_invocations_used :: u32

record handle_provenance =
  hp_granted_at :: int
  hp_granted_by_package_id :: str
  hp_via_method :: str

record cap_handle =
  ch_id :: cap_handle_id
  ch_cap_type :: str
  ch_cap_version :: str
  ch_scope :: handle_scope
  ch_constraints :: json
  ch_lease :: handle_lease
  ch_provenance :: handle_provenance
  ch_parent :: "cap_handle_id option"
  ch_revoked :: bool

record handle_table =
  ht_handles :: "cap_handle_id \<rightharpoonup> cap_handle"
  ht_by_holder :: "str \<rightharpoonup> cap_handle_id list"
  ht_private :: "cap_handle_id set"

datatype handle_error =
    HandleNotFound | ParentNotFound | ParentRevoked | HandleRevoked | LeaseExpired | LeaseExhausted

abbreviation ch_holder :: "cap_handle \<Rightarrow> str" where
  "ch_holder h \<equiv> hs_holder_package_id (ch_scope h)"

section \<open>Operations\<close>

definition empty_table :: handle_table where
  "empty_table = \<lparr>ht_handles = Map.empty, ht_by_holder = Map.empty, ht_private = {}\<rparr>"

definition holder_ids :: "str \<Rightarrow> handle_table \<Rightarrow> cap_handle_id list" where
  "holder_ids p t = (case ht_by_holder t p of None \<Rightarrow> [] | Some ids \<Rightarrow> ids)"

definition mint :: "cap_handle \<Rightarrow> handle_table \<Rightarrow> cap_handle_id \<times> handle_table" where
  "mint h t =
     (let t' = t\<lparr>ht_handles := (ht_handles t)(ch_id h \<mapsto> h)\<rparr> in
      (ch_id h, t'\<lparr>ht_by_holder := (ht_by_holder t')(ch_holder h \<mapsto> holder_ids (ch_holder h) t' @ [ch_id h])\<rparr>))"

definition lookup :: "cap_handle_id \<Rightarrow> handle_table \<Rightarrow> cap_handle option" where
  "lookup i t = (if i \<in> ht_private t then None else ht_handles t i)"

definition mint_private :: "cap_handle \<Rightarrow> handle_table \<Rightarrow> cap_handle_id \<times> handle_table" where
  "mint_private h t = mint h (t\<lparr>ht_private := insert (ch_id h) (ht_private t)\<rparr>)"

definition lookup_private :: "cap_handle_id \<Rightarrow> handle_table \<Rightarrow> cap_handle option" where
  "lookup_private i t = (if i \<notin> ht_private t then None else ht_handles t i)"

definition revoke_stored :: "cap_handle_id \<Rightarrow> handle_table \<Rightarrow> (handle_error + unit) \<times> handle_table" where
  "revoke_stored i t =
     (case ht_handles t i of
        None \<Rightarrow> (Inl HandleNotFound, t)
      | Some h \<Rightarrow> (Inr (), t\<lparr>ht_handles := (ht_handles t)(i \<mapsto> h\<lparr>ch_revoked := True\<rparr>)\<rparr>))"

definition revoke :: "cap_handle_id \<Rightarrow> handle_table \<Rightarrow> (handle_error + unit) \<times> handle_table" where
  "revoke i t = (if i \<in> ht_private t then (Inl HandleNotFound, t) else revoke_stored i t)"

definition revoke_private :: "cap_handle_id \<Rightarrow> handle_table \<Rightarrow> (handle_error + unit) \<times> handle_table" where
  "revoke_private i t = (if i \<notin> ht_private t then (Inl HandleNotFound, t) else revoke_stored i t)"

definition remove_stored :: "cap_handle_id \<Rightarrow> handle_table \<Rightarrow> cap_handle option \<times> handle_table" where
  "remove_stored i t =
     (let removed = ht_handles t i; t' = t\<lparr>ht_handles := (ht_handles t)(i := None)\<rparr> in
      (removed,
       case removed of
         None \<Rightarrow> t'
       | Some h \<Rightarrow>
           (case ht_by_holder t' (ch_holder h) of
              None \<Rightarrow> t'
            | Some ids \<Rightarrow> t'\<lparr>ht_by_holder := (ht_by_holder t')(ch_holder h \<mapsto> filter (\<lambda>c. c \<noteq> i) ids)\<rparr>)))"

definition remove :: "cap_handle_id \<Rightarrow> handle_table \<Rightarrow> cap_handle option \<times> handle_table" where
  "remove i t = (if i \<in> ht_private t then (None, t) else remove_stored i t)"

definition remove_private :: "cap_handle_id \<Rightarrow> handle_table \<Rightarrow> cap_handle option \<times> handle_table" where
  "remove_private i t =
     (if i \<notin> ht_private t then (None, t)
      else let (removed, t') = remove_stored i t in
        (removed, t'\<lparr>ht_private := ht_private t' - {i}\<rparr>))"

text \<open>\<open>new_id\<close> and \<open>now\<close> are what \<open>CapHandleId::new()\<close> and \<open>Utc::now()\<close> return.\<close>

definition attenuated :: "cap_handle_id \<Rightarrow> int \<Rightarrow> cap_handle_id \<Rightarrow> json \<Rightarrow> cap_handle \<Rightarrow> cap_handle" where
  "attenuated new_id now parent constraints h = h\<lparr>
     ch_id := new_id, ch_constraints := constraints, ch_parent := Some parent, ch_revoked := False,
     ch_lease := (ch_lease h)\<lparr>hl_invocations_used := 0\<rparr>,
     ch_provenance := \<lparr>hp_granted_at = now, hp_granted_by_package_id = ch_holder h, hp_via_method = ''attenuate''\<rparr>\<rparr>"

definition attenuate :: "cap_handle_id \<Rightarrow> int \<Rightarrow> cap_handle_id \<Rightarrow> json \<Rightarrow> handle_table
    \<Rightarrow> (handle_error + cap_handle_id) \<times> handle_table" where
  "attenuate new_id now parent constraints t =
     (case lookup parent t of
        None \<Rightarrow> (Inl ParentNotFound, t)
      | Some h \<Rightarrow>
          if ch_revoked h then (Inl ParentRevoked, t)
          else let (i, t') = mint (attenuated new_id now parent constraints h) t in (Inr i, t'))"

definition list_for :: "str \<Rightarrow> handle_table \<Rightarrow> cap_handle list" where
  "list_for p t = List.map_filter (ht_handles t) (filter (\<lambda>i. i \<notin> ht_private t) (holder_ids p t))"

definition used_once :: "cap_handle \<Rightarrow> cap_handle" where
  "used_once h =
     (let used = saturating_add (hl_invocations_used (ch_lease h)) 1;
          h' = h\<lparr>ch_lease := (ch_lease h)\<lparr>hl_invocations_used := used\<rparr>\<rparr> in
      case hl_max_invocations (ch_lease h) of
        None \<Rightarrow> h'
      | Some m \<Rightarrow> if m \<le> used then h'\<lparr>ch_revoked := True\<rparr> else h')"

definition record_stored_invocation :: "cap_handle_id \<Rightarrow> handle_table
    \<Rightarrow> (handle_error + unit) \<times> handle_table" where
  "record_stored_invocation i t =
     (case ht_handles t i of
        None \<Rightarrow> (Inl HandleNotFound, t)
      | Some h \<Rightarrow>
          if ch_revoked h then (Inl HandleRevoked, t)
          else (Inr (), t\<lparr>ht_handles := (ht_handles t)(i \<mapsto> used_once h)\<rparr>))"

definition record_invocation :: "cap_handle_id \<Rightarrow> handle_table \<Rightarrow> (handle_error + unit) \<times> handle_table" where
  "record_invocation i t =
     (if i \<in> ht_private t then (Inl HandleNotFound, t) else record_stored_invocation i t)"

definition record_private_invocation :: "cap_handle_id \<Rightarrow> handle_table
    \<Rightarrow> (handle_error + unit) \<times> handle_table" where
  "record_private_invocation i t =
     (if i \<notin> ht_private t then (Inl HandleNotFound, t) else record_stored_invocation i t)"

section \<open>Calls\<close>

datatype handle_call =
    Mint cap_handle | Mint_Private cap_handle
  | Lookup cap_handle_id | Lookup_Private cap_handle_id | List_For str
  | Revoke cap_handle_id | Revoke_Private cap_handle_id
  | Remove cap_handle_id | Remove_Private cap_handle_id
  | Attenuate cap_handle_id int cap_handle_id json
  | Record cap_handle_id | Record_Private cap_handle_id

datatype handle_reply =
    Minted cap_handle_id | Found "cap_handle option" | Listed "cap_handle list"
  | Outcome "handle_error + unit" | Attenuated "handle_error + cap_handle_id"

fun handle_step :: "handle_call \<Rightarrow> handle_table \<Rightarrow> handle_reply \<times> handle_table" where
  "handle_step (Mint h) t = apfst Minted (mint h t)"
| "handle_step (Mint_Private h) t = apfst Minted (mint_private h t)"
| "handle_step (Lookup i) t = (Found (lookup i t), t)"
| "handle_step (Lookup_Private i) t = (Found (lookup_private i t), t)"
| "handle_step (List_For p) t = (Listed (list_for p t), t)"
| "handle_step (Revoke i) t = apfst Outcome (revoke i t)"
| "handle_step (Revoke_Private i) t = apfst Outcome (revoke_private i t)"
| "handle_step (Remove i) t = apfst Found (remove i t)"
| "handle_step (Remove_Private i) t = apfst Found (remove_private i t)"
| "handle_step (Attenuate new_id now parent constraints) t = apfst Attenuated (attenuate new_id now parent constraints t)"
| "handle_step (Record i) t = apfst Outcome (record_invocation i t)"
| "handle_step (Record_Private i) t = apfst Outcome (record_private_invocation i t)"

fun handle_run :: "handle_call list \<Rightarrow> handle_table \<Rightarrow> handle_reply list \<times> handle_table" where
  "handle_run [] t = ([], t)"
| "handle_run (c # cs) t =
     (let (r, t') = handle_step c t; (rs, t'') = handle_run cs t' in (r # rs, t''))"

text \<open>The id a call introduces.\<close>

fun introduces :: "handle_call \<Rightarrow> cap_handle_id option" where
  "introduces (Mint h) = Some (ch_id h)"
| "introduces (Mint_Private h) = Some (ch_id h)"
| "introduces (Attenuate new_id _ _ _) = Some new_id"
| "introduces _ = None"

definition fresh_in :: "handle_table \<Rightarrow> cap_handle_id \<Rightarrow> bool" where
  "fresh_in t i = (ht_handles t i = None)"


section \<open>Well-formed tables\<close>

inductive table_reachable :: "handle_table \<Rightarrow> bool" where
  Start: "table_reachable empty_table"
| Call: "table_reachable t \<Longrightarrow> (\<And>i. introduces c = Some i \<Longrightarrow> fresh_in t i)
    \<Longrightarrow> table_reachable (snd (handle_step c t))"

definition index_ok :: "handle_table \<Rightarrow> bool" where
  "index_ok t \<longleftrightarrow>
     (\<forall>i h. ht_handles t i = Some h \<longrightarrow> ch_id h = i)
     \<and> (\<forall>p. distinct (holder_ids p t))
     \<and> (\<forall>p i. i \<in> set (holder_ids p t) \<longleftrightarrow> (\<exists>h. ht_handles t i = Some h \<and> ch_holder h = p))"

definition table_wf :: "handle_table \<Rightarrow> bool" where
  "table_wf t \<longleftrightarrow> index_ok t \<and> ht_private t \<subseteq> dom (ht_handles t)"

lemma holder_ids_simps [simp]:
  "holder_ids p (t\<lparr>ht_handles := m\<rparr>) = holder_ids p t"
  "holder_ids p (t\<lparr>ht_private := s\<rparr>) = holder_ids p t"
  "holder_ids p (t\<lparr>ht_by_holder := ix\<rparr>) = (case ix p of None \<Rightarrow> [] | Some ids \<Rightarrow> ids)"
  by (simp_all add: holder_ids_def)

lemma mint_fields:
  "fst (mint h t) = ch_id h"
  "ht_handles (snd (mint h t)) = (ht_handles t)(ch_id h \<mapsto> h)"
  "ht_private (snd (mint h t)) = ht_private t"
  "holder_ids p (snd (mint h t)) = (if p = ch_holder h then holder_ids p t @ [ch_id h] else holder_ids p t)"
  by (simp_all add: mint_def Let_def holder_ids_def)

lemma remove_stored_fields:
  "fst (remove_stored i t) = ht_handles t i"
  "ht_handles (snd (remove_stored i t)) = (ht_handles t)(i := None)"
  "ht_private (snd (remove_stored i t)) = ht_private t"
  by (simp_all add: remove_stored_def Let_def split: option.splits)

lemma holder_ids_remove_stored:
  assumes "index_ok t"
  shows "holder_ids p (snd (remove_stored i t)) = filter (\<lambda>c. c \<noteq> i) (holder_ids p t)"
proof (cases "ht_handles t i")
  case None
  then have "i \<notin> set (holder_ids p t)" using assms by (auto simp: index_ok_def)
  then have "filter (\<lambda>c. c \<noteq> i) (holder_ids p t) = holder_ids p t" by (auto simp: filter_id_conv)
  then show ?thesis using None by (simp add: remove_stored_def)
next
  case (Some h)
  show ?thesis
  proof (cases "p = ch_holder h")
    case True
    then show ?thesis using Some
      by (auto simp: remove_stored_def Let_def holder_ids_def split: option.splits)
  next
    case False
    then have "i \<notin> set (holder_ids p t)" using assms Some by (auto simp: index_ok_def)
    then have "filter (\<lambda>c. c \<noteq> i) (holder_ids p t) = holder_ids p t" by (auto simp: filter_id_conv)
    then show ?thesis using Some False
      by (auto simp: remove_stored_def Let_def holder_ids_def split: option.splits)
  qed
qed

lemma index_ok_mint: "index_ok t \<Longrightarrow> fresh_in t (ch_id h) \<Longrightarrow> index_ok (snd (mint h t))"
  by (auto simp: index_ok_def mint_fields fresh_in_def)

lemma index_ok_remove: "index_ok t \<Longrightarrow> index_ok (snd (remove_stored i t))"
  unfolding index_ok_def
  by (auto simp: remove_stored_fields holder_ids_remove_stored [unfolded index_ok_def])

lemma index_ok_update:
  assumes "index_ok t" "ht_handles t i = Some h" "ch_id h' = i" "ch_holder h' = ch_holder h"
  shows "index_ok (t\<lparr>ht_handles := (ht_handles t)(i \<mapsto> h')\<rparr>)"
  using assms by (auto simp: index_ok_def)

lemma index_ok_private [simp]: "index_ok (t\<lparr>ht_private := s\<rparr>) = index_ok t"
  by (simp add: index_ok_def)

lemma used_once_keeps [simp]:
  "ch_id (used_once h) = ch_id h" "ch_scope (used_once h) = ch_scope h"
  "hl_max_invocations (ch_lease (used_once h)) = hl_max_invocations (ch_lease h)"
  "hl_invocations_used (ch_lease (used_once h)) = saturating_add (hl_invocations_used (ch_lease h)) 1"
  by (simp_all add: used_once_def Let_def split: option.splits)

lemma wf_update:
  assumes "table_wf t" "ht_handles t i = Some h" "ch_id h' = ch_id h" "ch_holder h' = ch_holder h"
  shows "table_wf (t\<lparr>ht_handles := (ht_handles t)(i \<mapsto> h')\<rparr>)"
proof -
  have "ch_id h' = i" using assms by (simp add: table_wf_def index_ok_def)
  then show ?thesis using assms index_ok_update by (auto simp: table_wf_def)
qed

lemma wf_revoke_stored: "table_wf t \<Longrightarrow> table_wf (snd (revoke_stored i t))"
  by (auto simp: revoke_stored_def split: option.splits intro!: wf_update)

lemma wf_record_stored: "table_wf t \<Longrightarrow> table_wf (snd (record_stored_invocation i t))"
  by (auto simp: record_stored_invocation_def split: option.splits intro!: wf_update)

lemma wf_mint: "table_wf t \<Longrightarrow> fresh_in t (ch_id h) \<Longrightarrow> table_wf (snd (mint h t))"
  by (auto simp: table_wf_def index_ok_mint mint_fields)

lemma wf_mint_private: "table_wf t \<Longrightarrow> fresh_in t (ch_id h) \<Longrightarrow> table_wf (snd (mint_private h t))"
  using index_ok_mint [of "t\<lparr>ht_private := insert (ch_id h) (ht_private t)\<rparr>" h]
  by (auto simp: table_wf_def mint_private_def mint_fields fresh_in_def)

lemma wf_remove: "table_wf t \<Longrightarrow> table_wf (snd (remove i t))"
  by (auto simp: table_wf_def remove_def index_ok_remove remove_stored_fields)

lemma wf_remove_private: "table_wf t \<Longrightarrow> table_wf (snd (remove_private i t))"
  using remove_stored_fields [of i t] index_ok_remove [of t i]
  by (auto simp: table_wf_def remove_private_def split: prod.splits if_splits)

lemma attenuated_id [simp]: "ch_id (attenuated new_id now parent constraints h) = new_id"
  by (simp add: attenuated_def)

lemma wf_attenuate:
  "table_wf t \<Longrightarrow> fresh_in t new_id \<Longrightarrow> table_wf (snd (attenuate new_id now parent constraints t))"
  by (simp add: attenuate_def split_beta wf_mint split: option.splits)

lemma wf_step:
  assumes "table_wf t" "\<And>i. introduces c = Some i \<Longrightarrow> fresh_in t i"
  shows "table_wf (snd (handle_step c t))"
  using assms
  by (cases c) (simp_all add: wf_mint wf_mint_private wf_remove wf_remove_private wf_attenuate
      wf_revoke_stored wf_record_stored revoke_def revoke_private_def record_invocation_def
      record_private_invocation_def)

lemma reachable_wf: "table_reachable t \<Longrightarrow> table_wf t"
proof (induction rule: table_reachable.induct)
  case Start
  show ?case by (simp add: table_wf_def index_ok_def empty_table_def holder_ids_def)
qed (rule wf_step)


section \<open>Observing the table\<close>

lemma set_map_filter: "set (List.map_filter f xs) = {y. \<exists>x\<in>set xs. f x = Some y}"
  by (induction xs) (auto simp: map_filter_simps split: option.splits)

lemma map_filter_cong: "(\<And>x. x \<in> set xs \<Longrightarrow> f x = g x) \<Longrightarrow> List.map_filter f xs = List.map_filter g xs"
  by (induction xs) (simp_all add: map_filter_simps split: option.splits)

lemma list_for_set:
  assumes "table_wf t"
  shows "set (list_for p t) = {h. \<exists>i. lookup i t = Some h \<and> ch_holder h = p}"
proof -
  have "i \<in> set (holder_ids p t) \<longleftrightarrow> (\<exists>h. ht_handles t i = Some h \<and> ch_holder h = p)" for i
    using assms by (simp add: table_wf_def index_ok_def)
  then show ?thesis by (auto simp: list_for_def set_map_filter lookup_def)
qed

lemma map_filter_ids:
  "(\<And>i. i \<in> set ids \<Longrightarrow> \<exists>h. f i = Some h \<and> ch_id h = i) \<Longrightarrow> map ch_id (List.map_filter f ids) = ids"
proof (induction ids)
  case (Cons i ids)
  from Cons.prems [of i] obtain h where "f i = Some h" "ch_id h = i" by auto
  then show ?case using Cons by (simp add: map_filter_simps)
qed (simp add: map_filter_simps)

lemma list_for_ids:
  assumes "table_wf t"
  shows "map ch_id (list_for p t) = filter (\<lambda>i. i \<notin> ht_private t) (holder_ids p t)"
  unfolding list_for_def
  using assms by (intro map_filter_ids) (auto simp: table_wf_def index_ok_def)

text \<open>Calls of the generic handle API; the others are reserved to the broker of run bindings.\<close>

fun public_call :: "handle_call \<Rightarrow> bool" where
  "public_call (Mint_Private _) = False"
| "public_call (Lookup_Private _) = False"
| "public_call (Revoke_Private _) = False"
| "public_call (Remove_Private _) = False"
| "public_call (Record_Private _) = False"
| "public_call _ = True"

fun fresh_calls :: "handle_call list \<Rightarrow> handle_table \<Rightarrow> bool" where
  "fresh_calls [] t = True"
| "fresh_calls (c # cs) t =
     ((case introduces c of None \<Rightarrow> True | Some i \<Rightarrow> fresh_in t i) \<and> fresh_calls cs (snd (handle_step c t)))"

fun public_replies :: "handle_call list \<Rightarrow> handle_table \<Rightarrow> handle_reply list" where
  "public_replies [] t = []"
| "public_replies (c # cs) t =
     (let (r, t') = handle_step c t in
      if public_call c then r # public_replies cs t' else public_replies cs t')"

text \<open>\<open>purged t u\<close>: \<open>u\<close> is \<open>t\<close> without its private handles.\<close>

definition purged :: "handle_table \<Rightarrow> handle_table \<Rightarrow> bool" where
  "purged t u \<longleftrightarrow> table_wf t \<and> table_wf u \<and> ht_private u = {}
     \<and> (\<forall>i. ht_handles u i = lookup i t)
     \<and> (\<forall>p. holder_ids p u = filter (\<lambda>i. i \<notin> ht_private t) (holder_ids p t))"

lemma purged_lookup: "purged t u \<Longrightarrow> lookup i u = lookup i t"
  by (simp add: purged_def lookup_def)

lemma purged_fresh: "purged t u \<Longrightarrow> fresh_in t i \<Longrightarrow> fresh_in u i"
  by (simp add: purged_def fresh_in_def lookup_def)

lemma purged_not_private: "purged t u \<Longrightarrow> fresh_in t i \<Longrightarrow> i \<notin> ht_private t"
  by (auto simp: purged_def table_wf_def fresh_in_def)

lemma purged_list_for:
  assumes "purged t u"
  shows "list_for p u = list_for p t"
proof -
  have "List.map_filter (ht_handles u) (filter (\<lambda>i. i \<notin> ht_private t) (holder_ids p t))
      = List.map_filter (ht_handles t) (filter (\<lambda>i. i \<notin> ht_private t) (holder_ids p t))"
    using assms by (intro map_filter_cong) (auto simp: purged_def lookup_def)
  then show ?thesis using assms by (simp add: list_for_def purged_def)
qed

lemma purged_update:
  assumes "purged t u" "i \<notin> ht_private t" "ht_handles t i = Some h" "ch_id h' = ch_id h" "ch_holder h' = ch_holder h"
  shows "purged (t\<lparr>ht_handles := (ht_handles t)(i \<mapsto> h')\<rparr>) (u\<lparr>ht_handles := (ht_handles u)(i \<mapsto> h')\<rparr>)"
  using assms wf_update [of t i h h'] wf_update [of u i h h']
  by (auto simp: purged_def lookup_def)

lemma purged_mint:
  assumes "purged t u" "fresh_in t (ch_id h)"
  shows "purged (snd (mint h t)) (snd (mint h u))"
  using assms wf_mint [of t h] wf_mint [of u h] purged_fresh [OF assms] purged_not_private [OF assms]
  by (auto simp: purged_def lookup_def mint_fields)

lemma purged_remove:
  assumes "purged t u" "i \<notin> ht_private t"
  shows "purged (snd (remove_stored i t)) (snd (remove_stored i u))"
proof -
  have "index_ok t" "index_ok u" using assms by (auto simp: purged_def table_wf_def)
  then show ?thesis
    using assms wf_remove [of t i] wf_remove [of u i]
    by (auto simp: purged_def lookup_def remove_stored_fields holder_ids_remove_stored remove_def intro: filter_cong)
qed


lemma purged_public_handle: "purged t u \<Longrightarrow> i \<notin> ht_private t \<Longrightarrow> ht_handles u i = ht_handles t i"
  by (simp add: purged_def lookup_def)

lemma purged_hidden: "purged t u \<Longrightarrow> i \<in> ht_private t \<Longrightarrow> ht_handles u i = None"
  by (simp add: purged_def lookup_def)

lemma purged_no_private: "purged t u \<Longrightarrow> ht_private u = {}"
  by (simp add: purged_def)

lemma purged_revoke:
  assumes "purged t u"
  shows "fst (revoke i t) = fst (revoke i u) \<and> purged (snd (revoke i t)) (snd (revoke i u))"
proof (cases "i \<in> ht_private t")
  case True
  then show ?thesis using assms
    by (simp add: revoke_def revoke_stored_def purged_no_private purged_hidden)
next
  case False
  then show ?thesis using assms
    by (auto simp: revoke_def revoke_stored_def purged_no_private purged_public_handle
        intro: purged_update split: option.splits)
qed

lemma purged_record:
  assumes "purged t u"
  shows "fst (record_invocation i t) = fst (record_invocation i u)
    \<and> purged (snd (record_invocation i t)) (snd (record_invocation i u))"
proof (cases "i \<in> ht_private t")
  case True
  then show ?thesis using assms
    by (simp add: record_invocation_def record_stored_invocation_def purged_no_private purged_hidden)
next
  case False
  then show ?thesis using assms
    by (auto simp: record_invocation_def record_stored_invocation_def purged_no_private purged_public_handle
        intro: purged_update split: option.splits)
qed

lemma purged_remove_call:
  assumes "purged t u"
  shows "fst (remove i t) = fst (remove i u) \<and> purged (snd (remove i t)) (snd (remove i u))"
proof (cases "i \<in> ht_private t")
  case True
  then have "i \<notin> set (holder_ids p u)" for p using assms by (simp add: purged_def)
  then have "filter (\<lambda>c. c \<noteq> i) (holder_ids p u) = holder_ids p u" for p
    by (auto simp: filter_id_conv)
  then have "holder_ids p (snd (remove_stored i u)) = holder_ids p u" for p
    using assms holder_ids_remove_stored [of u p i] by (simp only: purged_def table_wf_def)
  moreover have "ht_handles (snd (remove_stored i u)) = ht_handles u"
    using assms True by (auto simp: remove_stored_fields purged_hidden fun_upd_idem)
  moreover have "table_wf (snd (remove_stored i u))"
    using wf_remove [of u i] assms by (simp add: purged_def remove_def)
  ultimately have "purged t (snd (remove_stored i u))"
    using assms unfolding purged_def by (simp add: remove_stored_fields)
  then show ?thesis using assms True
    by (simp add: remove_def purged_no_private remove_stored_fields purged_hidden)
next
  case False
  then show ?thesis using assms
    by (simp add: remove_def purged_no_private remove_stored_fields purged_public_handle purged_remove)
qed

lemma purged_attenuate:
  assumes "purged t u" "fresh_in t new_id"
  shows "fst (attenuate new_id now parent constraints t) = fst (attenuate new_id now parent constraints u)
    \<and> purged (snd (attenuate new_id now parent constraints t)) (snd (attenuate new_id now parent constraints u))"
proof (cases "lookup parent t")
  case None
  then show ?thesis using assms by (simp add: attenuate_def purged_lookup)
next
  case (Some h)
  then show ?thesis
    using assms purged_mint [of t u "attenuated new_id now parent constraints h"]
    by (simp add: attenuate_def purged_lookup split_beta mint_fields)
qed

lemma purged_public_step:
  assumes "purged t u" "public_call c" "\<And>i. introduces c = Some i \<Longrightarrow> fresh_in t i"
  shows "fst (handle_step c t) = fst (handle_step c u)
    \<and> purged (snd (handle_step c t)) (snd (handle_step c u))"
  using assms purged_revoke [of t u] purged_record [of t u] purged_remove_call [of t u] purged_attenuate [of t u]
  by (cases c) (simp_all add: purged_mint mint_fields purged_lookup purged_list_for)

lemma purged_private_update:
  assumes "purged t u" "i \<in> ht_private t" "ht_handles t i = Some h" "ch_id h' = ch_id h" "ch_holder h' = ch_holder h"
  shows "purged (t\<lparr>ht_handles := (ht_handles t)(i \<mapsto> h')\<rparr>) u"
  using assms wf_update [of t i h h'] by (auto simp: purged_def lookup_def)

lemma purged_mint_private:
  assumes "purged t u" "fresh_in t (ch_id h)"
  shows "purged (snd (mint_private h t)) u"
proof -
  have "ch_id h \<notin> set (holder_ids p t)" for p
    using assms by (auto simp: purged_def table_wf_def index_ok_def fresh_in_def)
  then have "filter (\<lambda>i. i \<noteq> ch_id h \<and> i \<notin> ht_private t) (holder_ids p t)
      = filter (\<lambda>i. i \<notin> ht_private t) (holder_ids p t)" for p
    by (intro filter_cong) auto
  then show ?thesis
    using assms wf_mint_private [of t h]
    by (auto simp: purged_def lookup_def mint_private_def mint_fields fresh_in_def)
qed

lemma purged_remove_private:
  assumes "purged t u"
  shows "purged (snd (remove_private i t)) u"
proof (cases "i \<in> ht_private t")
  case True
  obtain removed t' where t': "remove_stored i t = (removed, t')" by force
  have index: "index_ok t" using assms by (simp add: purged_def table_wf_def)
  have "filter (\<lambda>j. j \<in> ht_private t \<longrightarrow> j = i) (filter (\<lambda>c. c \<noteq> i) (holder_ids p t))
      = filter (\<lambda>j. j \<notin> ht_private t) (holder_ids p t)" for p
    using True by (auto simp: filter_filter intro: filter_cong)
  then show ?thesis
    using assms True wf_remove_private [of t i] remove_stored_fields [of i t] holder_ids_remove_stored [OF index, of _ i]
    by (auto simp: purged_def lookup_def remove_private_def t')
qed (use assms in \<open>simp add: remove_private_def\<close>)

lemma purged_private_step:
  assumes "purged t u" "\<not> public_call c" "\<And>i. introduces c = Some i \<Longrightarrow> fresh_in t i"
  shows "purged (snd (handle_step c t)) u"
  using assms
  by (cases c) (auto simp: purged_mint_private purged_remove_private revoke_private_def revoke_stored_def
      record_private_invocation_def record_stored_invocation_def split: option.splits intro: purged_private_update)

lemma public_replies_purged:
  assumes "purged t u" "fresh_calls cs t"
  shows "public_replies cs t = fst (handle_run (filter public_call cs) u)"
  using assms
proof (induction cs arbitrary: t u)
  case (Cons c cs)
  have fresh: "introduces c = Some i \<Longrightarrow> fresh_in t i" for i using Cons.prems by simp
  show ?case
  proof (cases "public_call c")
    case True
    note step = purged_public_step [OF Cons.prems(1) True fresh]
    then have "public_replies cs (snd (handle_step c t)) = fst (handle_run (filter public_call cs) (snd (handle_step c u)))"
      using Cons by simp
    then show ?thesis using True step by (simp add: split_beta Let_def)
  next
    case False
    then show ?thesis
      using Cons purged_private_step [OF Cons.prems(1) False fresh] by (simp add: split_beta Let_def)
  qed
qed simp


section \<open>Leases\<close>

text \<open>How many more invocations of a handle can be recorded.\<close>

definition lease_budget :: "cap_handle \<Rightarrow> nat \<Rightarrow> nat" where
  "lease_budget h m = (if ch_revoked h then 0 else max 1 (m - unat (hl_invocations_used (ch_lease h))))"

text \<open>\<open>limited t i m\<close>: what is stored under \<open>i\<close> (if anything) has at most \<open>m\<close> invocations.\<close>

definition limited :: "handle_table \<Rightarrow> cap_handle_id \<Rightarrow> u32 \<Rightarrow> bool" where
  "limited t i m = (case ht_handles t i of None \<Rightarrow> True | Some h \<Rightarrow> hl_max_invocations (ch_lease h) = Some m)"

definition table_budget :: "handle_table \<Rightarrow> cap_handle_id \<Rightarrow> u32 \<Rightarrow> nat" where
  "table_budget t i m = (case ht_handles t i of None \<Rightarrow> 0 | Some h \<Rightarrow> lease_budget h (unat m))"

definition recorded :: "handle_call \<Rightarrow> handle_reply \<Rightarrow> cap_handle_id \<Rightarrow> bool" where
  "recorded c r i = (c \<in> {Record i, Record_Private i} \<and> r = Outcome (Inr ()))"

fun recordings :: "cap_handle_id \<Rightarrow> handle_call list \<Rightarrow> handle_table \<Rightarrow> nat" where
  "recordings i [] t = 0"
| "recordings i (c # cs) t =
     (let (r, t') = handle_step c t in (if recorded c r i then 1 else 0) + recordings i cs t')"

lemma used_once_budget:
  assumes "hl_max_invocations (ch_lease h) = Some m" "\<not> ch_revoked h"
  shows "lease_budget (used_once h) (unat m) < lease_budget h (unat m)"
proof -
  let ?used = "hl_invocations_used (ch_lease h)"
  have used: "unat (saturating_add ?used 1) = min (Suc (unat ?used)) (2 ^ 32 - 1)"
    by (simp add: unat_saturating_add)
  have m: "unat m < 2 ^ 32" using unsigned_less [of m] by simp
  show ?thesis
  proof (cases "m \<le> saturating_add ?used 1")
    case True
    then show ?thesis using assms by (simp add: used_once_def lease_budget_def Let_def)
  next
    case False
    then have "min (Suc (unat ?used)) (2 ^ 32 - 1) < unat m" using used by (simp add: word_le_nat_alt)
    then have "Suc (unat ?used) < unat m" "unat (saturating_add ?used 1) = Suc (unat ?used)" using m used by auto
    then show ?thesis using assms False by (simp add: used_once_def lease_budget_def Let_def)
  qed
qed

lemma record_stored_budget:
  assumes "limited t i m"
  shows "limited (snd (record_stored_invocation i t)) i m
    \<and> (if fst (record_stored_invocation i t) = Inr () then 1 else 0)
        + table_budget (snd (record_stored_invocation i t)) i m \<le> table_budget t i m"
  using assms used_once_budget
  by (auto simp: record_stored_invocation_def limited_def table_budget_def Suc_le_eq split: option.splits)

text \<open>Every other change of what is stored under \<open>i\<close> is a removal or a revocation.\<close>

lemma other_id_budget:
  "ht_handles t' i = ht_handles t i \<Longrightarrow> limited t i m \<Longrightarrow> limited t' i m \<and> table_budget t' i m = table_budget t i m"
  by (simp add: limited_def table_budget_def)

lemma record_stored_other: "j \<noteq> i \<Longrightarrow> ht_handles (snd (record_stored_invocation j t)) i = ht_handles t i"
  by (simp add: record_stored_invocation_def split: option.splits)

lemma revoke_stored_budget:
  "limited t i m \<Longrightarrow> limited (snd (revoke_stored j t)) i m \<and> table_budget (snd (revoke_stored j t)) i m \<le> table_budget t i m"
  by (auto simp: revoke_stored_def limited_def table_budget_def lease_budget_def split: option.splits)

lemma remove_stored_budget:
  "limited t i m \<Longrightarrow> limited (snd (remove_stored j t)) i m \<and> table_budget (snd (remove_stored j t)) i m \<le> table_budget t i m"
  by (auto simp: limited_def table_budget_def remove_stored_fields)

lemma mint_budget:
  "ch_id h \<noteq> i \<Longrightarrow> ht_handles (snd (mint h t)) i = ht_handles t i"
  by (simp add: mint_fields)

lemma attenuate_budget:
  "new_id \<noteq> i \<Longrightarrow> ht_handles (snd (attenuate new_id now parent constraints t)) i = ht_handles t i"
  by (simp add: attenuate_def split_beta mint_fields split: option.splits)

lemma step_budget:
  assumes lim: "limited t i m" and intro: "introduces c \<noteq> Some i"
  shows "limited (snd (handle_step c t)) i m
    \<and> (if recorded c (fst (handle_step c t)) i then 1 else 0) + table_budget (snd (handle_step c t)) i m
        \<le> table_budget t i m"
proof -
  have rec: "limited (snd (record_stored_invocation j t)) i m
      \<and> (if j = i \<and> fst (record_stored_invocation j t) = Inr () then 1 else 0)
          + table_budget (snd (record_stored_invocation j t)) i m \<le> table_budget t i m" for j
    using record_stored_budget [OF lim] other_id_budget [OF record_stored_other lim, of j]
    by (cases "j = i") auto
  have hide: "limited (t'\<lparr>ht_private := s\<rparr>) i m = limited t' i m"
      "table_budget (t'\<lparr>ht_private := s\<rparr>) i m = table_budget t' i m" for t' s
    by (simp_all add: limited_def table_budget_def)
  note mint = other_id_budget [OF mint_budget]
  show ?thesis
  proof (cases c)
    case (Record j)
    then show ?thesis using rec [of j] lim by (auto simp: recorded_def record_invocation_def)
  next
    case (Record_Private j)
    then show ?thesis using rec [of j] lim by (auto simp: recorded_def record_private_invocation_def)
  next
    case (Mint_Private h)
    then show ?thesis using intro lim mint [of h i "t\<lparr>ht_private := insert (ch_id h) (ht_private t)\<rparr>"]
      by (simp add: recorded_def mint_private_def hide)
  qed (use lim intro revoke_stored_budget [OF lim] remove_stored_budget [OF lim] mint [OF _ lim]
      other_id_budget [OF attenuate_budget lim]
    in \<open>simp_all add: recorded_def revoke_def revoke_private_def remove_def remove_private_def split_beta hide\<close>)
qed

lemma recordings_bounded:
  assumes "limited t i m" "\<forall>c\<in>set cs. introduces c \<noteq> Some i"
  shows "recordings i cs t + table_budget (snd (handle_run cs t)) i m \<le> table_budget t i m"
  using assms
proof (induction cs arbitrary: t)
  case (Cons c cs)
  have step: "limited (snd (handle_step c t)) i m"
      "(if recorded c (fst (handle_step c t)) i then 1 else 0) + table_budget (snd (handle_step c t)) i m \<le> table_budget t i m"
    using step_budget [OF Cons.prems(1), of c] Cons.prems(2) by simp_all
  have "recordings i cs (snd (handle_step c t)) + table_budget (snd (handle_run cs (snd (handle_step c t)))) i m
      \<le> table_budget (snd (handle_step c t)) i m"
    using Cons.IH [OF step(1)] Cons.prems(2) by simp
  then show ?case using step(2) by (auto simp: split_beta Let_def)
qed simp

text \<open>Once revoked, a handle is never used again under its id.\<close>

definition withdrawn :: "handle_table \<Rightarrow> cap_handle_id \<Rightarrow> bool" where
  "withdrawn t i = (case ht_handles t i of None \<Rightarrow> True | Some h \<Rightarrow> ch_revoked h)"

fun uses :: "handle_call \<Rightarrow> handle_reply \<Rightarrow> cap_handle_id \<Rightarrow> bool" where
  "uses (Record j) (Outcome r) i = (j = i \<and> is_ok r)"
| "uses (Record_Private j) (Outcome r) i = (j = i \<and> is_ok r)"
| "uses (Attenuate _ _ parent _) (Attenuated r) i = (parent = i \<and> is_ok r)"
| "uses _ _ _ = False"

lemma withdrawn_cong: "ht_handles t' i = ht_handles t i \<Longrightarrow> withdrawn t' i = withdrawn t i"
  by (simp add: withdrawn_def)

lemma used_once_revoked: "ch_revoked h \<Longrightarrow> ch_revoked (used_once h)"
  by (simp add: used_once_def Let_def split: option.splits)

lemma withdrawn_step:
  assumes "withdrawn t i" "introduces c \<noteq> Some i"
  shows "withdrawn (snd (handle_step c t)) i \<and> \<not> uses c (fst (handle_step c t)) i"
proof (cases c)
  case (Attenuate new_id now parent constraints)
  then show ?thesis
    using assms attenuate_budget [of new_id i now parent constraints t]
    by (auto simp: withdrawn_def attenuate_def lookup_def is_ok_def split_beta split: option.splits if_splits)
next
  case (Remove_Private j)
  then show ?thesis using assms
    by (auto simp: withdrawn_def remove_private_def remove_stored_fields split_beta)
qed (use assms in \<open>auto simp: withdrawn_def mint_fields mint_private_def revoke_def revoke_private_def revoke_stored_def
      remove_def remove_stored_fields record_invocation_def record_private_invocation_def record_stored_invocation_def is_ok_def
      split: option.splits\<close>)

lemma withdrawn_run:
  assumes "withdrawn t i" "\<forall>c\<in>set cs. introduces c \<noteq> Some i" "(c, r) \<in> set (zip cs (fst (handle_run cs t)))"
  shows "\<not> uses c r i"
  using assms
proof (induction cs arbitrary: t)
  case (Cons d ds)
  have step: "withdrawn (snd (handle_step d t)) i" "\<not> uses d (fst (handle_step d t)) i"
    using withdrawn_step [OF Cons.prems(1), of d] Cons.prems(2) by simp_all
  show ?case using Cons.prems(2,3) Cons.IH [OF step(1)] step(2) by (auto simp: split_beta Let_def)
qed simp


section \<open>Properties\<close>

definition sample_handle :: "cap_handle_id \<Rightarrow> u32 \<Rightarrow> cap_handle" where
  "sample_handle i m = \<lparr>ch_id = i, ch_cap_type = ''echo'', ch_cap_version = ''1'',
     ch_scope = \<lparr>hs_holder_package_id = ''p'', hs_session_id = None\<rparr>, ch_constraints = JNull,
     ch_lease = \<lparr>hl_expires_at = None, hl_max_invocations = Some m, hl_invocations_used = 0\<rparr>,
     ch_provenance = \<lparr>hp_granted_at = 0, hp_granted_by_package_id = ''plurora/runtime'', hp_via_method = ''package_load''\<rparr>,
     ch_parent = None, ch_revoked = False\<rparr>"

abbreviation sample_table :: "u32 \<Rightarrow> handle_table" where
  "sample_table m \<equiv> snd (handle_step (Mint (sample_handle 1 m)) empty_table)"

lemma sample_table_reachable: "table_reachable (sample_table m)"
  by (rule table_reachable.Call [OF table_reachable.Start]) (simp add: fresh_in_def empty_table_def)

lemma sample_table_handle: "ht_handles (sample_table m) 1 = Some (sample_handle 1 m)"
  by (simp add: mint_fields sample_handle_def)

text \<open>The index of handles by holder is exact. In every table that calls of the API can build from
  the empty one (each minted id being new), listing a package returns exactly the public handles
  that it holds, each once, and every handle is stored under its own id.\<close>

theorem handle_listing_exact:
  assumes "table_reachable t"
  shows "set (list_for p t) = {h. \<exists>i. lookup i t = Some h \<and> ch_holder h = p}
    \<and> distinct (map ch_id (list_for p t)) \<and> (\<forall>i. case lookup i t of None \<Rightarrow> True | Some h \<Rightarrow> ch_id h = i)"
proof -
  have wf: "table_wf t" by (rule reachable_wf [OF assms])
  then have "distinct (holder_ids p t)" by (simp add: table_wf_def index_ok_def)
  moreover have "case lookup i t of None \<Rightarrow> True | Some h \<Rightarrow> ch_id h = i" for i
    using wf by (auto simp: lookup_def table_wf_def index_ok_def split: option.splits)
  ultimately show ?thesis using list_for_set [OF wf] list_for_ids [OF wf] by simp
qed

theorem handle_listing_exact_witness:
  "table_reachable (sample_table 2) \<and> sample_handle 1 2 \<in> set (list_for ''p'' (sample_table 2))"
proof -
  have "lookup 1 (sample_table 2) = Some (sample_handle 1 2)"
    using sample_table_handle [of 2] by (simp add: lookup_def mint_fields empty_table_def)
  then have "sample_handle 1 2 \<in> set (list_for ''p'' (sample_table 2))"
    using handle_listing_exact [OF sample_table_reachable, of "''p''" 2] by (auto simp: sample_handle_def)
  then show ?thesis using sample_table_reachable by blast
qed





text \<open>Revocation is final. Once a handle has been revoked, no later sequence of calls records an
  invocation of it or derives another handle from it, unless one of them mints its id anew.\<close>

theorem revocation_is_final:
  assumes "fst (revoke i t) = Inr ()" and "\<forall>c\<in>set cs. introduces c \<noteq> Some i"
    and "(c, r) \<in> set (zip cs (fst (handle_run cs (snd (revoke i t)))))"
  shows "\<not> uses c r i"
proof -
  have "withdrawn (snd (revoke i t)) i"
    using assms(1) by (auto simp: revoke_def revoke_stored_def withdrawn_def split: if_splits option.splits)
  then show ?thesis using assms(2,3) by (rule withdrawn_run)
qed

theorem revocation_is_final_witness:
  "\<not> uses (Record 1) (hd (fst (handle_run [Record 1] (snd (revoke 1 (sample_table 2)))))) 1"
proof -
  have "fst (revoke 1 (sample_table 2)) = Inr ()"
    using sample_table_handle [of 2] by (simp add: revoke_def revoke_stored_def mint_fields empty_table_def)
  from revocation_is_final [OF this, of "[Record 1]" "Record 1"] show ?thesis by (simp add: split_beta Let_def)
qed

text \<open>What attenuation hands on. A derived handle keeps the capability, version, scope, expiry and
  maximum of its parent and carries the new constraints, but its use count starts at zero: a child
  of a partly used lease of \<open>m\<close> invocations can be invoked up to \<open>m\<close> times again.\<close>

theorem attenuation_refills_lease:
  assumes "lookup parent t = Some h" and "\<not> ch_revoked h" and "hl_max_invocations (ch_lease h) = Some m" "0 < m"
    and "fresh_in t new_id"
  shows "\<exists>t' child. attenuate new_id now parent constraints t = (Inr new_id, t')
    \<and> ht_handles t' new_id = Some child \<and> ch_parent child = Some parent \<and> ch_cap_type child = ch_cap_type h
    \<and> ch_cap_version child = ch_cap_version h \<and> ch_scope child = ch_scope h
    \<and> hl_expires_at (ch_lease child) = hl_expires_at (ch_lease h) \<and> ch_constraints child = constraints
    \<and> table_budget t' new_id m = unat m"
proof (intro exI conjI)
  let ?child = "attenuated new_id now parent constraints h"
  have "max 1 (unat m) = unat m" using assms(4) by (simp add: word_less_nat_alt)
  then show "table_budget (snd (mint ?child t)) new_id m = unat m"
    by (simp add: table_budget_def mint_fields lease_budget_def) (simp add: attenuated_def)
  show "attenuate new_id now parent constraints t = (Inr new_id, snd (mint ?child t))"
    using assms by (simp add: attenuate_def split_beta mint_fields)
  show "ht_handles (snd (mint ?child t)) new_id = Some ?child" by (simp add: mint_fields)
qed (simp_all add: attenuated_def)

theorem attenuation_refills_lease_witness:
  "table_budget (snd (record_invocation 1 (sample_table 2))) 1 2 = 1
   \<and> table_budget (snd (attenuate 7 0 1 JNull (snd (record_invocation 1 (sample_table 2))))) 7 2 = 2"
proof -
  let ?t = "snd (record_invocation 1 (sample_table 2))"
  have h: "ht_handles ?t 1 = Some (used_once (sample_handle 1 2))" "ht_private ?t = {}" "ht_handles ?t 7 = None"
    using sample_table_handle [of 2]
    by (simp_all add: record_invocation_def record_stored_invocation_def mint_fields empty_table_def sample_handle_def)
  have used: "\<not> ch_revoked (used_once (sample_handle 1 2))" "hl_max_invocations (ch_lease (used_once (sample_handle 1 2))) = Some 2"
      "lease_budget (used_once (sample_handle 1 2)) 2 = 1"
    by (simp_all add: used_once_def sample_handle_def saturating_add_def lease_budget_def Let_def word_le_nat_alt)
  then have "lookup 1 ?t = Some (used_once (sample_handle 1 2))" "fresh_in ?t 7"
    using h by (simp_all add: lookup_def fresh_in_def)
  then obtain t' where "attenuate 7 0 1 JNull ?t = (Inr 7, t')" "table_budget t' 7 2 = unat (2 :: u32)"
    using attenuation_refills_lease [of 1 ?t "used_once (sample_handle 1 2)" 2 7 0 JNull] used(1,2) by auto
  then show ?thesis using h(1) used(3) by (simp add: table_budget_def)
qed

end
