(* ===== verification/Capabilities.thy ===== *)
theory Capabilities
  imports Resolver Handle_Table Sorting
begin

text \<open>
  The capability fabric and the extension registry (\<open>runtime/src/capability.rs\<close>) and the
  preparation of an invocation (\<open>runtime/src/runtime/capabilities.rs\<close>).

  A \<open>HashMap\<close> whose entries are iterated is an association list in key order; the listings sort
  what they collect. What an invocation reads of the rest of the runtime is the record
  \<open>invocation_env\<close>: the contract mode of the loaded packages, the sessions, the handles issued by the
  broker of run bindings with its permit check, the handle table, the fabric and the clock.
  Denials that the code audits are returned beside the result.
\<close>

section \<open>The capability fabric\<close>

record capability_descriptor =
  cap_id :: str
  cap_version :: str
  cap_input_schema :: json
  cap_output_schema :: json
  cap_streaming :: bool
  cap_side_effects :: "str list"
  cap_description :: "str option"

record registered_capability =
  rc_descriptor :: capability_descriptor
  rc_provider_package_id :: str
  rc_provider_component_id :: str
  rc_provider_component_digest :: str
  rc_provider_behavior_digest :: str
  rc_provider_trust_class :: component_trust_class
  rc_provider_claim_status :: component_claim_status
  rc_provider_enforced_boundaries :: component_boundary_claims

type_synonym fabric = "(str, registered_capability list) btree_map"

datatype capability_error =
    NotClaimed | NoProvider | AmbiguousProviders | NotGranted | PatternNeedsCapability
  | ProviderMismatch | SessionNotFound | SessionClosed | OutsideActiveSet | ForeignCapsuleCaller
  | HandleMissing | NotHolder | Lease handle_error | OtherSession | SessionRequired
  | HandleRequired | CapabilityRequired | BindingDenied

definition push_capability :: "registered_capability \<Rightarrow> fabric \<Rightarrow> fabric" where
  "push_capability r f = bt_insert (cap_id (rc_descriptor r))
     ((case bt_get f (cap_id (rc_descriptor r)) of None \<Rightarrow> [] | Some rs \<Rightarrow> rs) @ [r]) f"

definition component_provider :: "str \<Rightarrow> component_descriptor \<Rightarrow> capability_descriptor \<Rightarrow> registered_capability" where
  "component_provider package_id component d = \<lparr>rc_descriptor = d, rc_provider_package_id = package_id,
     rc_provider_component_id = cd_component_id component,
     rc_provider_component_digest = ad_digest (cd_artifact component),
     rc_provider_behavior_digest = ad_digest (cd_behavior component),
     rc_provider_trust_class = cd_trust_class component, rc_provider_claim_status = cd_claim_status component,
     rc_provider_enforced_boundaries = cd_enforced_boundaries component\<rparr>"

definition register_component :: "str \<Rightarrow> component_descriptor \<Rightarrow> capability_descriptor list \<Rightarrow> fabric
    \<Rightarrow> capability_error + fabric" where
  "register_component package_id component descriptors f =
     (if list_all (\<lambda>d. cap_id d \<in> set (cd_capability_ids component)) descriptors
      then Inr (fold push_capability (map (component_provider package_id component) descriptors) f)
      else Inl NotClaimed)"

definition no_boundaries :: component_boundary_claims where
  "no_boundaries = \<lparr>bc_process_failure_isolation = False, bc_network_isolation = False,
     bc_filesystem_isolation = False, bc_resource_limits_enforced = False, bc_remote_identity = False,
     bc_tenancy_isolation = False, bc_revocation_enforced = False, bc_no_code_execution = False\<rparr>"

definition foreign_provider :: "str \<Rightarrow> capability_descriptor \<Rightarrow> registered_capability" where
  "foreign_provider package_id d = \<lparr>rc_descriptor = d, rc_provider_package_id = package_id,
     rc_provider_component_id = package_id @ ''/component/default'',
     rc_provider_component_digest = ''sha256:'' @ replicate 64 (CHR ''0''),
     rc_provider_behavior_digest = ''sha256:'' @ replicate 64 (CHR ''0''),
     rc_provider_trust_class = ForeignCapsule, rc_provider_claim_status = ForeignCapsule_Claim,
     rc_provider_enforced_boundaries = no_boundaries\<rparr>"

definition register_package :: "str \<Rightarrow> capability_descriptor list \<Rightarrow> fabric \<Rightarrow> fabric" where
  "register_package package_id descriptors f = fold push_capability (map (foreign_provider package_id) descriptors) f"

definition unregister_package :: "str \<Rightarrow> fabric \<Rightarrow> fabric" where
  "unregister_package package_id f =
     filter (\<lambda>(_, rs). rs \<noteq> []) (map (apsnd (filter (\<lambda>r. rc_provider_package_id r \<noteq> package_id))) f)"

definition discover :: "fabric \<Rightarrow> registered_capability list" where
  "discover f =
     sort_key (\<lambda>r. (cap_id (rc_descriptor r), rc_provider_package_id r, rc_provider_component_id r)) (concat (map snd f))"

definition describe :: "str \<Rightarrow> fabric \<Rightarrow> registered_capability list" where
  "describe capability_id f = (case bt_get f capability_id of None \<Rightarrow> [] | Some rs \<Rightarrow> rs)"

text \<open>\<open>split('.').next()\<close> is the part before the first dot.\<close>

definition major_part :: "str \<Rightarrow> str" where
  "major_part version = hd (split_on (CHR ''.'') version)"

definition version_matches :: "str \<Rightarrow> str \<Rightarrow> bool" where
  "version_matches requirement provided =
     (requirement = ''*'' \<or> requirement = provided
      \<or> (case strip_prefix requirement ''^'' of
           None \<Rightarrow> False
         | Some req \<Rightarrow> major_part provided = major_part req))"

definition resolve :: "str \<Rightarrow> str option \<Rightarrow> str option \<Rightarrow> fabric \<Rightarrow> capability_error + registered_capability" where
  "resolve capability_id package version f =
     (let providers = describe capability_id f;
          providers = (case package of None \<Rightarrow> providers
            | Some p \<Rightarrow> filter (\<lambda>r. rc_provider_package_id r = p) providers);
          providers = (case version of None \<Rightarrow> providers
            | Some v \<Rightarrow> filter (\<lambda>r. version_matches v (cap_version (rc_descriptor r))) providers) in
      case providers of [] \<Rightarrow> Inl NoProvider | [r] \<Rightarrow> Inr r | _ \<Rightarrow> Inl AmbiguousProviders)"

section \<open>The extension registry\<close>

datatype hook_timing = Hook_Sync | Hook_Async

record hook_subscription =
  hk_extension_point :: str
  hk_handler :: str
  hk_timing :: hook_timing
  hk_precedence :: int

record registered_hook =
  rh_subscriber_package_id :: str
  rh_subscription :: hook_subscription

record extension_dispatch_result =
  xd_extension_point :: str
  xd_invoked :: "registered_hook list"
  xd_vetoed_by :: "str option"
  xd_payload :: json

type_synonym hook_registry = "(str, registered_hook list) btree_map"

abbreviation hook_key :: "registered_hook \<Rightarrow> int \<times> str \<times> str" where
  "hook_key h \<equiv> (hk_precedence (rh_subscription h), rh_subscriber_package_id h, hk_handler (rh_subscription h))"

definition push_hook :: "registered_hook \<Rightarrow> hook_registry \<Rightarrow> hook_registry" where
  "push_hook h r = bt_insert (hk_extension_point (rh_subscription h))
     ((case bt_get r (hk_extension_point (rh_subscription h)) of None \<Rightarrow> [] | Some hs \<Rightarrow> hs) @ [h]) r"

definition register_hooks :: "str \<Rightarrow> hook_subscription list \<Rightarrow> hook_registry \<Rightarrow> hook_registry" where
  "register_hooks package_id hooks r = map (apsnd (sort_key hook_key))
     (fold push_hook (map (\<lambda>s. \<lparr>rh_subscriber_package_id = package_id, rh_subscription = s\<rparr>) hooks) r)"

definition unregister_hooks :: "str \<Rightarrow> hook_registry \<Rightarrow> hook_registry" where
  "unregister_hooks package_id r =
     filter (\<lambda>(_, hs). hs \<noteq> []) (map (apsnd (filter (\<lambda>h. rh_subscriber_package_id h \<noteq> package_id))) r)"

definition list_hooks :: "str \<Rightarrow> hook_registry \<Rightarrow> registered_hook list" where
  "list_hooks extension_point r = (case bt_get r extension_point of None \<Rightarrow> [] | Some hs \<Rightarrow> hs)"

text \<open>\<open>list_all_hooks\<close>, in some order of the extension points.\<close>

definition list_all_hooks :: "hook_registry \<Rightarrow> registered_hook list" where
  "list_all_hooks r = concat (map snd r)"

text \<open>The patch of the built-in handler \<open>metadata_trace\<close>.\<close>

definition trace_metadata :: "registered_hook \<Rightarrow> json \<Rightarrow> json" where
  "trace_metadata h payload =
     (case payload of
        JObj fs \<Rightarrow>
          (let metadata = (case bt_get fs ''metadata'' of None \<Rightarrow> JObj [] | Some m \<Rightarrow> m) in
           case metadata of
             JObj ms \<Rightarrow> JObj (bt_insert ''metadata''
               (JObj (bt_insert ''hook_trace'' (JStr (rh_subscriber_package_id h)) ms)) fs)
           | _ \<Rightarrow> payload)
      | _ \<Rightarrow> payload)"

definition dispatch :: "str \<Rightarrow> json \<Rightarrow> hook_registry \<Rightarrow> extension_dispatch_result" where
  "dispatch extension_point payload r =
     (let invoked = list_hooks extension_point r in
      \<lparr>xd_extension_point = extension_point, xd_invoked = invoked,
       xd_vetoed_by = map_option rh_subscriber_package_id (List.find (\<lambda>h. hk_handler (rh_subscription h) = ''veto'') invoked),
       xd_payload = fold (\<lambda>h p. if hk_handler (rh_subscription h) = ''metadata_trace'' then trace_metadata h p else p)
         invoked payload\<rparr>)"

section \<open>Preparing an invocation\<close>

record invocation_request =
  rq_handle :: "cap_handle_id option"
  rq_capability_id :: "str option"
  rq_caller_package_id :: "str option"
  rq_provider_package_id :: "str option"
  rq_version :: "str option"
  rq_session_id :: "str option"
  rq_input :: json

datatype contract_mode = Contract_V1 | Contract_None

datatype session_status = Session_Open | Session_Closed

record session_record =
  sr_id :: str
  sr_labels :: "str list"
  sr_active_package_set :: "str list"
  sr_principal_scope :: "str option"
  sr_status :: session_status
  sr_created_at :: int
  sr_updated_at :: int
  sr_metadata :: json

record invocation_env =
  ie_contracts :: "str \<rightharpoonup> contract_mode"
  ie_sessions :: "str \<rightharpoonup> session_record"
  ie_binding_handles :: "cap_handle_id set"
  ie_validate_permit :: "cap_handle_id \<Rightarrow> capability_error + registered_capability"
  ie_handles :: handle_table
  ie_fabric :: fabric
  ie_now :: int

record prepared_invocation =
  pv_provider :: registered_capability
  pv_active_handle :: "cap_handle_id option"
  pv_record_non_binding :: bool
  pv_by_permit :: bool

record denial =
  dn_session_id :: str
  dn_package_id :: str
  dn_permission :: str

definition check :: "bool \<Rightarrow> 'e \<Rightarrow> 'e + unit" where
  "check b e = (if b then Inr () else Inl e)"

definition is_contract_none_package :: "invocation_env \<Rightarrow> str \<Rightarrow> bool" where
  "is_contract_none_package R p = (ie_contracts R p = Some Contract_None)"

definition capability_event_session_id :: "str \<Rightarrow> str" where
  "capability_event_session_id c = ''platform_capability_'' @ replace_char (CHR ''/'') (CHR ''_'') c"

definition validate_handle_lease :: "int \<Rightarrow> cap_handle \<Rightarrow> handle_error + unit" where
  "validate_handle_lease now h =
     all_ok [check (\<not> ch_revoked h) HandleRevoked,
       (case hl_expires_at (ch_lease h) of None \<Rightarrow> Inr () | Some t \<Rightarrow> check (\<not> t \<le> now) LeaseExpired),
       (case hl_max_invocations (ch_lease h) of None \<Rightarrow> Inr ()
        | Some m \<Rightarrow> check (\<not> m \<le> hl_invocations_used (ch_lease h)) LeaseExhausted)]"

definition grants :: "str \<Rightarrow> str \<Rightarrow> bool" where
  "grants pattern capability_id =
     (pattern = ''*'' \<or> pattern = capability_id
      \<or> (pattern \<noteq> [] \<and> last pattern = CHR ''*'' \<and> starts_with capability_id (butlast pattern)))"

definition requested_capability_for_handle :: "invocation_request \<Rightarrow> cap_handle \<Rightarrow> capability_error + str" where
  "requested_capability_for_handle q h =
     and_then (case rq_capability_id q of
         Some c \<Rightarrow> Inr c
       | None \<Rightarrow> if CHR ''*'' \<notin> set (ch_cap_type h) then Inr (ch_cap_type h) else Inl PatternNeedsCapability)
       (\<lambda>c. and_then (check (grants (ch_cap_type h) c) NotGranted) (\<lambda>_. Inr c))"

definition request_version_ok :: "str \<Rightarrow> str \<Rightarrow> bool" where
  "request_version_ok requirement provided =
     (requirement = ''*'' \<or> requirement = provided
      \<or> map_option major_part (strip_prefix requirement ''^'') = Some (major_part provided))"

definition ensure_request_matches_provider :: "invocation_request \<Rightarrow> registered_capability \<Rightarrow> capability_error + unit" where
  "ensure_request_matches_provider q r =
     all_ok [check (case rq_capability_id q of None \<Rightarrow> True | Some c \<Rightarrow> c = cap_id (rc_descriptor r)) ProviderMismatch,
       check (case rq_provider_package_id q of None \<Rightarrow> True | Some p \<Rightarrow> p = rc_provider_package_id r) ProviderMismatch,
       check (case rq_version q of None \<Rightarrow> True
         | Some v \<Rightarrow> request_version_ok v (cap_version (rc_descriptor r))) ProviderMismatch]"

definition has_run_id :: "json \<Rightarrow> bool" where
  "has_run_id metadata =
     (case metadata of
        JObj fs \<Rightarrow> (case bt_get fs ''run_id'' of Some (JStr _) \<Rightarrow> True | _ \<Rightarrow> False)
      | _ \<Rightarrow> False)"

definition ensure_run_session_provider_allowed :: "invocation_env \<Rightarrow> invocation_request \<Rightarrow> registered_capability
    \<Rightarrow> capability_error + unit" where
  "ensure_run_session_provider_allowed R q r =
     (case rq_session_id q of
        None \<Rightarrow> Inr ()
      | Some s \<Rightarrow>
          and_then (ok_or (ie_sessions R s) SessionNotFound) (\<lambda>session.
            all_ok [check (sr_status session = Session_Open) SessionClosed,
              check (has_run_id (sr_metadata session) \<longrightarrow> rc_provider_package_id r \<in> set (sr_active_package_set session))
                OutsideActiveSet]))"

definition check_handle_scope :: "invocation_request \<Rightarrow> cap_handle \<Rightarrow> capability_error + unit" where
  "check_handle_scope q h =
     (case rq_session_id q of
        Some s \<Rightarrow> check (case hs_session_id (ch_scope h) of None \<Rightarrow> True | Some s' \<Rightarrow> s' = s) OtherSession
      | None \<Rightarrow> check (hs_session_id (ch_scope h) = None) SessionRequired)"

definition prepare_with_handle :: "invocation_env \<Rightarrow> invocation_request \<Rightarrow> cap_handle_id
    \<Rightarrow> capability_error + prepared_invocation" where
  "prepare_with_handle R q i =
     and_then (ok_or (lookup i (ie_handles R)) HandleMissing) (\<lambda>h.
     and_then (check (case rq_caller_package_id q of None \<Rightarrow> True | Some p \<Rightarrow> ch_holder h = p) NotHolder) (\<lambda>_.
     and_then (case validate_handle_lease (ie_now R) h of Inl e \<Rightarrow> Inl (Lease e) | Inr u \<Rightarrow> Inr u) (\<lambda>_.
     and_then (check_handle_scope q h) (\<lambda>_.
     and_then (requested_capability_for_handle q h) (\<lambda>c.
     and_then (resolve c (rq_provider_package_id q)
         (if ch_cap_version h = ''1'' then rq_version q else Some (ch_cap_version h)) (ie_fabric R)) (\<lambda>r.
     and_then (ensure_request_matches_provider q r) (\<lambda>_.
     and_then (ensure_run_session_provider_allowed R q r) (\<lambda>_.
       Inr \<lparr>pv_provider = r, pv_active_handle = Some i, pv_record_non_binding = True, pv_by_permit = False\<rparr>))))))))"

definition prepare_with_permit :: "invocation_env \<Rightarrow> invocation_request \<Rightarrow> cap_handle_id
    \<Rightarrow> capability_error + prepared_invocation" where
  "prepare_with_permit R q i =
     and_then (ie_validate_permit R i) (\<lambda>r.
     and_then (ensure_request_matches_provider q r) (\<lambda>_.
       Inr \<lparr>pv_provider = r, pv_active_handle = Some i, pv_record_non_binding = False, pv_by_permit = True\<rparr>))"

definition prepare_without_handle :: "invocation_env \<Rightarrow> invocation_request
    \<Rightarrow> (capability_error + prepared_invocation) \<times> denial list" where
  "prepare_without_handle R q =
     (case rq_capability_id q of
        None \<Rightarrow> (Inl CapabilityRequired, [])
      | Some c \<Rightarrow>
          (case rq_caller_package_id q of
             Some caller \<Rightarrow> (Inl HandleRequired, [\<lparr>dn_session_id = capability_event_session_id c,
               dn_package_id = caller, dn_permission = ''capabilities.invoke''\<rparr>])
           | None \<Rightarrow> (and_then (resolve c (rq_provider_package_id q) (rq_version q) (ie_fabric R)) (\<lambda>r.
               Inr \<lparr>pv_provider = r, pv_active_handle = None, pv_record_non_binding = False, pv_by_permit = False\<rparr>), [])))"

definition prepare_checked :: "invocation_env \<Rightarrow> invocation_request
    \<Rightarrow> (capability_error + prepared_invocation) \<times> denial list" where
  "prepare_checked R q =
     (case rq_handle q of
        Some i \<Rightarrow> (if i \<in> ie_binding_handles R then prepare_with_permit R q i else prepare_with_handle R q i, [])
      | None \<Rightarrow> prepare_without_handle R q)"

definition prepare_capability_invocation :: "invocation_env \<Rightarrow> invocation_request
    \<Rightarrow> (capability_error + prepared_invocation) \<times> denial list" where
  "prepare_capability_invocation R q =
     (case rq_caller_package_id q of
        Some caller \<Rightarrow>
          if is_contract_none_package R caller then
            (Inl ForeignCapsuleCaller, [\<lparr>dn_session_id = capability_event_session_id
                 (case rq_capability_id q of None \<Rightarrow> ''unresolved_capability'' | Some c \<Rightarrow> c),
               dn_package_id = caller, dn_permission = ''capabilities.invoke''\<rparr>])
          else prepare_checked R q
      | None \<Rightarrow> prepare_checked R q)"


section \<open>The fabric as a set of providers\<close>

text \<open>Calls on the fabric.\<close>

inductive fabric_reachable :: "fabric \<Rightarrow> bool" where
  Empty: "fabric_reachable []"
| Component: "fabric_reachable f \<Longrightarrow> register_component p c ds f = Inr f' \<Longrightarrow> fabric_reachable f'"
| Package: "fabric_reachable f \<Longrightarrow> fabric_reachable (register_package p ds f)"
| Unregister: "fabric_reachable f \<Longrightarrow> fabric_reachable (unregister_package p f)"

definition fabric_wf :: "fabric \<Rightarrow> bool" where
  "fabric_wf f \<longleftrightarrow> bt_wf f \<and> (\<forall>(k, rs) \<in> set f. \<forall>r\<in>set rs. cap_id (rc_descriptor r) = k)"

lemma describe_push:
  "describe k (push_capability r f) = (if k = cap_id (rc_descriptor r) then describe k f @ [r] else describe k f)"
  by (simp add: describe_def push_capability_def bt_get_insert)

lemma describe_fold_push:
  "describe k (fold push_capability rs f) = describe k f @ filter (\<lambda>r. cap_id (rc_descriptor r) = k) rs"
  by (induction rs arbitrary: f) (auto simp: describe_push)

lemma bt_wf_filter: "bt_wf m \<Longrightarrow> bt_wf (filter P m)"
  by (induction m) (auto simp: bt_wf_Cons bt_wf_def)

lemma bt_wf_map_values: "bt_wf (map (apsnd g) m) = bt_wf m"
  by (simp add: bt_wf_def comp_def)

lemma fabric_wf_push:
  assumes "fabric_wf f"
  shows "fabric_wf (push_capability r f)"
proof -
  let ?k = "cap_id (rc_descriptor r)"
  have old: "\<forall>x\<in>set rs. cap_id (rc_descriptor x) = k" if "(k, rs) \<in> set f" for k rs
    using assms that by (auto simp: fabric_wf_def)
  have "\<forall>x\<in>set (describe ?k f @ [r]). cap_id (rc_descriptor x) = ?k"
    using old [of ?k] by (cases "bt_get f ?k") (auto simp: describe_def dest: map_of_SomeD)
  then have new: "\<forall>x\<in>set rs. cap_id (rc_descriptor x) = k" if "(k, rs) \<in> set (bt_insert ?k (describe ?k f @ [r]) f)" for k rs
    using set_bt_insert_subset [of ?k "describe ?k f @ [r]" f] that old by blast
  have eq: "push_capability r f = bt_insert ?k (describe ?k f @ [r]) f" by (simp add: push_capability_def describe_def)
  show ?thesis unfolding fabric_wf_def eq
  proof (intro conjI ballI)
    show "bt_wf (bt_insert ?k (describe ?k f @ [r]) f)" using assms by (simp add: fabric_wf_def bt_wf_insert)
    fix a assume a: "a \<in> set (bt_insert ?k (describe ?k f @ [r]) f)"
    obtain k rs where kr: "a = (k, rs)" by (rule prod.exhaust)
    show "case a of (k, rs) \<Rightarrow> \<forall>x\<in>set rs. cap_id (rc_descriptor x) = k"
      unfolding kr prod.case by (rule new) (use a kr in blast)
  qed
qed

lemma fabric_wf_fold: "fabric_wf f \<Longrightarrow> fabric_wf (fold push_capability rs f)"
  by (induction rs arbitrary: f) (simp_all add: fabric_wf_push)

lemma fabric_wf_unregister: "fabric_wf f \<Longrightarrow> fabric_wf (unregister_package p f)"
  by (auto simp: fabric_wf_def unregister_package_def bt_wf_filter bt_wf_map_values)

lemma reachable_fabric_wf: "fabric_reachable f \<Longrightarrow> fabric_wf f"
  by (induction rule: fabric_reachable.induct)
    (auto simp: register_component_def register_package_def fabric_wf_fold fabric_wf_unregister split: if_splits,
     simp add: fabric_wf_def)

lemma describe_filter_values:
  "bt_wf m \<Longrightarrow> (case bt_get (filter (\<lambda>(_, vs). vs \<noteq> []) (map (apsnd (filter P)) m)) k of None \<Rightarrow> [] | Some vs \<Rightarrow> vs)
    = filter P (case bt_get m k of None \<Rightarrow> [] | Some vs \<Rightarrow> vs)"
proof (induction m)
  case (Cons a m)
  obtain b vs where a: "a = (b, vs)" by force
  have wf: "bt_wf m" and new: "b \<notin> fst ` set m" using Cons.prems by (auto simp: a bt_wf_Cons)
  then have "b \<notin> fst ` set (filter (\<lambda>(_, vs). vs \<noteq> []) (map (apsnd (filter P)) m))" by force
  then have "bt_get (filter (\<lambda>(_, vs). vs \<noteq> []) (map (apsnd (filter P)) m)) b = None"
    by (metis map_of_eq_None_iff)
  then show ?case using Cons.IH [OF wf] by (cases "b = k") (auto simp: a)
qed simp


lemma describe_unregister:
  "fabric_wf f \<Longrightarrow> describe k (unregister_package p f) = filter (\<lambda>r. rc_provider_package_id r \<noteq> p) (describe k f)"
  unfolding describe_def unregister_package_def by (rule describe_filter_values) (simp add: fabric_wf_def)

lemma describe_key:
  assumes "fabric_wf f" "r \<in> set (describe k f)"
  shows "cap_id (rc_descriptor r) = k"
proof (cases "bt_get f k")
  case (Some rs)
  then have "(k, rs) \<in> set f" "r \<in> set rs" using assms(2) by (auto simp: describe_def dest: map_of_SomeD)
  then show ?thesis using assms(1) by (auto simp: fabric_wf_def)
qed (use assms in \<open>simp add: describe_def\<close>)

lemma version_checks_agree: "request_version_ok v w = version_matches v w"
  by (auto simp: request_version_ok_def version_matches_def split: option.splits)

text \<open>The providers a request can mean.\<close>

definition eligible :: "str \<Rightarrow> str option \<Rightarrow> str option \<Rightarrow> fabric \<Rightarrow> registered_capability list" where
  "eligible c package version f = filter (\<lambda>r.
     (case package of None \<Rightarrow> True | Some p \<Rightarrow> rc_provider_package_id r = p)
     \<and> (case version of None \<Rightarrow> True | Some v \<Rightarrow> version_matches v (cap_version (rc_descriptor r)))) (describe c f)"

lemma resolve_eligible:
  "resolve c package version f =
     (case eligible c package version f of [] \<Rightarrow> Inl NoProvider | [r] \<Rightarrow> Inr r | _ \<Rightarrow> Inl AmbiguousProviders)"
  by (auto simp: resolve_def eligible_def Let_def conj_commute split: option.splits)

lemma resolve_Inr: "resolve c package version f = Inr r \<longleftrightarrow> eligible c package version f = [r]"
  by (auto simp: resolve_eligible split: list.splits)

lemma check_Inr [res_simps]: "check b e = Inr u \<longleftrightarrow> b"
  by (simp add: check_def)

lemma lease_Inr:
  "validate_handle_lease now h = Inr () \<longleftrightarrow> \<not> ch_revoked h
     \<and> (case hl_expires_at (ch_lease h) of None \<Rightarrow> True | Some t \<Rightarrow> now < t)
     \<and> (case hl_max_invocations (ch_lease h) of None \<Rightarrow> True | Some m \<Rightarrow> hl_invocations_used (ch_lease h) < m)"
  by (auto simp: validate_handle_lease_def res_simps not_le split: option.splits)

lemma wrapped_lease_Inr: "(case r of Inl e \<Rightarrow> Inl (Lease e) | Inr u \<Rightarrow> Inr u) = Inr v \<longleftrightarrow> r = Inr v"
  by (cases r) simp_all

section \<open>Properties\<close>

definition sample_capability :: capability_descriptor where
  "sample_capability = \<lparr>cap_id = ''echo'', cap_version = ''1.2'', cap_input_schema = JNull, cap_output_schema = JNull,
     cap_streaming = False, cap_side_effects = [], cap_description = None\<rparr>"

definition sample_fabric :: fabric where
  "sample_fabric = register_package ''q'' [sample_capability] (register_package ''p'' [sample_capability] [])"

lemma sample_fabric_reachable: "fabric_reachable sample_fabric"
  unfolding sample_fabric_def by (intro fabric_reachable.Package fabric_reachable.Empty)

lemma sample_fabric_describe:
  "describe ''echo'' sample_fabric = [foreign_provider ''p'' sample_capability, foreign_provider ''q'' sample_capability]"
proof -
  have "rc_descriptor (foreign_provider p d) = d" for p d by (simp add: foreign_provider_def)
  moreover have "describe k [] = []" for k by (simp add: describe_def)
  moreover have "cap_id sample_capability = ''echo''" by (simp add: sample_capability_def)
  ultimately show ?thesis by (simp add: sample_fabric_def register_package_def describe_push)
qed

text \<open>Resolution of a capability is unambiguous and follows registration. In every fabric that
  registrations and unregistrations can build, \<open>resolve\<close> returns a provider exactly when one and only
  one registration of that capability matches the requested package and version; and after a package
  is unregistered, its providers are gone while those of every other package are found as before.\<close>

theorem capability_resolution_exact:
  assumes "fabric_reachable f"
  shows "(\<forall>r. resolve c package version f = Inr r \<longleftrightarrow> eligible c package version f = [r])
    \<and> (\<forall>r\<in>set (describe c f). cap_id (rc_descriptor r) = c)
    \<and> (\<forall>r. resolve c package version (unregister_package p f) = Inr r \<longrightarrow> rc_provider_package_id r \<noteq> p)
    \<and> (\<forall>u. u \<noteq> p \<longrightarrow> resolve c (Some u) version (unregister_package p f) = resolve c (Some u) version f)"
proof -
  have wf: "fabric_wf f" by (rule reachable_fabric_wf [OF assms])
  have "rc_provider_package_id r \<noteq> p" if "resolve c package version (unregister_package p f) = Inr r" for r
  proof -
    have "r \<in> set (eligible c package version (unregister_package p f))" using that by (simp add: resolve_Inr)
    then show ?thesis by (simp add: eligible_def describe_unregister [OF wf])
  qed
  moreover have "eligible c (Some u) version (unregister_package p f) = eligible c (Some u) version f" if "u \<noteq> p" for u
    unfolding eligible_def describe_unregister [OF wf] filter_filter using that by (intro filter_cong) auto
  ultimately show ?thesis using describe_key [OF wf, of _ c] by (simp add: resolve_Inr) (simp add: resolve_eligible)
qed

theorem capability_resolution_exact_witness:
  "resolve ''echo'' (Some ''q'') (Some ''^1'') (unregister_package ''p'' sample_fabric)
   = resolve ''echo'' (Some ''q'') (Some ''^1'') sample_fabric"
  using capability_resolution_exact [OF sample_fabric_reachable, of "''echo''" None "Some ''^1''" "''p''"] by simp



definition sample_env :: invocation_env where
  "sample_env = \<lparr>ie_contracts = Map.empty, ie_sessions = Map.empty, ie_binding_handles = {},
     ie_validate_permit = (\<lambda>_. Inl BindingDenied), ie_handles = sample_table 2, ie_fabric = sample_fabric, ie_now = 0\<rparr>"

definition sample_request :: invocation_request where
  "sample_request = \<lparr>rq_handle = Some 1, rq_capability_id = None, rq_caller_package_id = Some ''p'',
     rq_provider_package_id = Some ''q'', rq_version = Some ''^1'', rq_session_id = None, rq_input = JNull\<rparr>"

lemma sample_prepared:
  "prepare_capability_invocation sample_env sample_request = (Inr \<lparr>pv_provider = foreign_provider ''q'' sample_capability,
     pv_active_handle = Some 1, pv_record_non_binding = True, pv_by_permit = False\<rparr>, [])"
proof -
  have lookup: "lookup 1 (sample_table 2) = Some (sample_handle 1 2)"
    using sample_table_handle [of 2] by (simp add: lookup_def mint_fields empty_table_def)
  have lease: "validate_handle_lease 0 (sample_handle 1 2) = Inr ()" by (simp add: lease_Inr sample_handle_def)
  have version: "version_matches ''^1'' ''1.2''"
    by (simp add: version_matches_def strip_prefix_def starts_with_def major_part_def)
  then have "eligible ''echo'' (Some ''q'') (Some ''^1'') sample_fabric = [foreign_provider ''q'' sample_capability]"
    by (simp add: eligible_def sample_fabric_describe) (simp add: foreign_provider_def sample_capability_def)
  then have resolve: "resolve ''echo'' (Some ''q'') (Some ''^1'') sample_fabric = Inr (foreign_provider ''q'' sample_capability)"
    by (simp add: resolve_Inr)
  have "ensure_request_matches_provider sample_request (foreign_provider ''q'' sample_capability) = Inr ()"
    using version by (simp add: ensure_request_matches_provider_def check_def res_simps version_checks_agree sample_request_def
        foreign_provider_def sample_capability_def)
  then show ?thesis
    using lookup lease resolve
    by (simp add: prepare_capability_invocation_def is_contract_none_package_def prepare_checked_def prepare_with_handle_def
        check_handle_scope_def requested_capability_for_handle_def ensure_run_session_provider_allowed_def
        check_def grants_def sample_env_def sample_request_def)
      (simp add: sample_handle_def)
qed



section \<open>Hooks\<close>

inductive hooks_reachable :: "hook_registry \<Rightarrow> bool" where
  No_Hooks: "hooks_reachable []"
| Register: "hooks_reachable r \<Longrightarrow> hooks_reachable (register_hooks p hs r)"
| Drop: "hooks_reachable r \<Longrightarrow> hooks_reachable (unregister_hooks p r)"

lemma bt_wf_fold_push_hook: "bt_wf r \<Longrightarrow> bt_wf (fold push_hook hs r)"
  by (induction hs arbitrary: r) (simp_all add: push_hook_def bt_wf_insert)

lemma list_hooks_push:
  "list_hooks k (push_hook h r) = (if k = hk_extension_point (rh_subscription h) then list_hooks k r @ [h] else list_hooks k r)"
  by (simp add: list_hooks_def push_hook_def bt_get_insert)

lemma list_hooks_fold:
  "list_hooks k (fold push_hook hs r) = list_hooks k r @ filter (\<lambda>h. hk_extension_point (rh_subscription h) = k) hs"
  by (induction hs arbitrary: r) (auto simp: list_hooks_push)

lemma list_hooks_map: "list_hooks k (map (apsnd (sort_key f)) r) = sort_key f (list_hooks k r)"
  by (induction r) (auto simp: list_hooks_def)

lemma list_hooks_unregister:
  "bt_wf r \<Longrightarrow> list_hooks k (unregister_hooks p r) = filter (\<lambda>h. rh_subscriber_package_id h \<noteq> p) (list_hooks k r)"
  unfolding list_hooks_def unregister_hooks_def by (rule describe_filter_values)

lemma hooks_reachable_inv:
  "hooks_reachable r \<Longrightarrow> bt_wf r \<and> (\<forall>k. sorted (map hook_key (list_hooks k r))
     \<and> (\<forall>h\<in>set (list_hooks k r). hk_extension_point (rh_subscription h) = k))"
proof (induction rule: hooks_reachable.induct)
  case No_Hooks
  show ?case by (simp add: list_hooks_def)
next
  case (Register r p hs)
  then show ?case
    by (auto simp: register_hooks_def bt_wf_map_values bt_wf_fold_push_hook list_hooks_map list_hooks_fold)
next
  case (Drop r p)
  then show ?case
    by (simp add: list_hooks_unregister sorted_filter)
      (simp add: unregister_hooks_def bt_wf_filter bt_wf_map_values)
qed

lemma find_first_sorted:
  assumes "List.find P xs = Some x" "sorted (map f xs)" "y \<in> set xs" "P y"
  shows "f x \<le> f y"
  using assms by (induction xs) (auto split: if_splits)

text \<open>Hooks run in the declared order. In every registry that registrations and unregistrations can
  build, the hooks dispatched for an extension point are exactly subscriptions to that point in
  ascending order of precedence, package and handler; and the package reported as having vetoed is
  that of the first veto in this order, if there is one.\<close>

theorem hook_dispatch_ordered:
  assumes "hooks_reachable r"
  shows "sorted (map hook_key (xd_invoked (dispatch k payload r)))
    \<and> (\<forall>h\<in>set (xd_invoked (dispatch k payload r)). hk_extension_point (rh_subscription h) = k)
    \<and> (case xd_vetoed_by (dispatch k payload r) of
         None \<Rightarrow> \<forall>h\<in>set (xd_invoked (dispatch k payload r)). hk_handler (rh_subscription h) \<noteq> ''veto''
       | Some p \<Rightarrow> \<exists>h\<in>set (xd_invoked (dispatch k payload r)). rh_subscriber_package_id h = p
           \<and> hk_handler (rh_subscription h) = ''veto''
           \<and> (\<forall>h'\<in>set (xd_invoked (dispatch k payload r)). hk_handler (rh_subscription h') = ''veto'' \<longrightarrow> hook_key h \<le> hook_key h'))"
proof -
  let ?hs = "list_hooks k r" and ?veto = "\<lambda>h. hk_handler (rh_subscription h) = ''veto''"
  have inv: "sorted (map hook_key ?hs)" "\<forall>h\<in>set ?hs. hk_extension_point (rh_subscription h) = k"
    using hooks_reachable_inv [OF assms] by auto
  show ?thesis
  proof (cases "List.find ?veto ?hs")
    case None
    then have "\<forall>h\<in>set ?hs. \<not> ?veto h" by (auto simp: find_None_iff)
    then show ?thesis using inv None by (simp add: dispatch_def Let_def)
  next
    case (Some h)
    then have "h \<in> set ?hs" "?veto h" by (auto simp: find_Some_iff)
    moreover have "\<forall>h'\<in>set ?hs. ?veto h' \<longrightarrow> hook_key h \<le> hook_key h'"
      using find_first_sorted [OF Some inv(1)] by blast
    ultimately show ?thesis using inv Some by (auto simp: dispatch_def Let_def simp del: less_eq_prod_simp)
  qed
qed

definition sample_hooks :: hook_registry where
  "sample_hooks = register_hooks ''p'' [\<lparr>hk_extension_point = ''x'', hk_handler = ''veto'', hk_timing = Hook_Sync, hk_precedence = 0\<rparr>] []"

theorem hook_dispatch_ordered_witness:
  "hooks_reachable sample_hooks \<and> sorted (map hook_key (xd_invoked (dispatch ''x'' JNull sample_hooks)))"
proof -
  have "hooks_reachable sample_hooks"
    unfolding sample_hooks_def by (rule hooks_reachable.Register [OF hooks_reachable.No_Hooks])
  then show ?thesis using hook_dispatch_ordered [of sample_hooks "''x''" JNull] by blast
qed

end
