(* ===== verification/Run_Control.thy ===== *)
theory Run_Control
  imports Host_Records
begin

text \<open>
  \<open>crates/plurora-runtime/src/run_control.rs\<close>: the requests and results of run control, the
  driver's preparations and activations, and the authority that a mutation has to present.

  Instants are nanoseconds since the epoch. The validator behind \<open>RunAuthorityRefresh\<close> is a
  parameter; it is asked at an instant, since a grant may be revoked between two questions. A boxed
  \<open>dyn Any\<close> is an opaque token.
\<close>

section \<open>Failures\<close>

text \<open>The failures of run control and of the registry that implements it, one for each message.\<close>

datatype run_error =
    EntrypointEmpty | IdempotencyKeyEmpty | RunAuthorityMissing | RunAuthorityDenied
  | RunControlUnavailable | RunDriverUnavailable | RunDriverFailed | RunLeaseLost | RunStoreFailed
  | JournalEnvelopeInvalid | PayloadUndecodable | PayloadInvalid | FailedEventNotTerminal
  | UnexpectedJournalKind | KindStatusDisagree | SequenceNotContiguous | RunIdentityChanged
  | InvalidRunTransition | RunNotIntroduced | SecondActiveRun | IdempotencyConflict
  | JournalChangedConcurrently | RunDisappeared | RunNotFound | RunRevisionConflict
  | InstallationRevisionConflict | ActiveRunExists | ActivationFailed | CleanupInProgress
  | OwnershipChanged | ActivationCleanupFailed | CleanupFailedWhileStopping | OutcomeUnknownAfterStart
  | PackageLossCleanupFailed

type_synonym 'a run_result = "run_error + 'a"

definition demand :: "bool \<Rightarrow> run_error \<Rightarrow> unit run_result" where
  "demand b e = (if b then Inr () else Inl e)"

section \<open>Authority\<close>

definition RUN_ACTION :: str where "RUN_ACTION = ''run''"

definition timestamp_millis :: "instant \<Rightarrow> int" where
  "timestamp_millis t = t div 1000000"

type_synonym run_authority_validator = "instant \<Rightarrow> str \<Rightarrow> str \<Rightarrow> str option \<Rightarrow> bool"

record run_mutation_authority =
  ra_installation_id :: str
  ra_run_id :: "str option"
  ra_action :: str
  ra_grant_id :: "str option"
  ra_expires_at_ms :: "int option"
  ra_refresh :: "run_authority_validator option"

definition verified_for_installation :: "instant \<Rightarrow> str \<Rightarrow> str option \<Rightarrow> int option
    \<Rightarrow> run_authority_validator option \<Rightarrow> run_mutation_authority run_result" where
  "verified_for_installation now installation_id grant_id expires_at_ms refresh =
     and_then (if grant_id \<noteq> None
       then demand (case expires_at_ms of None \<Rightarrow> False | Some expiry \<Rightarrow> timestamp_millis now < expiry) RunAuthorityDenied
       else Inr ()) (\<lambda>_.
     Inr \<lparr>ra_installation_id = installation_id, ra_run_id = None, ra_action = RUN_ACTION, ra_grant_id = grant_id,
          ra_expires_at_ms = expires_at_ms, ra_refresh = refresh\<rparr>)"

definition verified_for_run :: "instant \<Rightarrow> str \<Rightarrow> str \<Rightarrow> str option \<Rightarrow> int option
    \<Rightarrow> run_authority_validator option \<Rightarrow> run_mutation_authority run_result" where
  "verified_for_run now installation_id run_id grant_id expires_at_ms refresh =
     and_then (verified_for_installation now installation_id grant_id expires_at_ms refresh)
       (\<lambda>a. Inr (a\<lparr>ra_run_id := Some run_id\<rparr>))"

definition unexpired :: "instant \<Rightarrow> run_mutation_authority \<Rightarrow> bool" where
  "unexpired now a = (case ra_expires_at_ms a of None \<Rightarrow> True | Some expiry \<Rightarrow> timestamp_millis now < expiry)"

definition grant_current :: "instant \<Rightarrow> run_mutation_authority \<Rightarrow> str \<Rightarrow> str option \<Rightarrow> unit run_result" where
  "grant_current now a installation_id run_id =
     (case ra_grant_id a of
        None \<Rightarrow> Inr ()
      | Some grant_id \<Rightarrow>
          (case ra_refresh a of
             None \<Rightarrow> Inl RunAuthorityDenied
           | Some validate_current \<Rightarrow>
               demand (validate_current now grant_id installation_id run_id) RunAuthorityDenied))"

definition refresh_current_for_installation :: "instant \<Rightarrow> run_mutation_authority \<Rightarrow> str \<Rightarrow> unit run_result" where
  "refresh_current_for_installation now a installation_id = all_ok
     [demand (ra_action a = RUN_ACTION \<and> ra_installation_id a = installation_id \<and> ra_run_id a = None
        \<and> unexpired now a) RunAuthorityDenied,
      grant_current now a installation_id None]"

definition refresh_current_for_run :: "instant \<Rightarrow> run_mutation_authority \<Rightarrow> str \<Rightarrow> str \<Rightarrow> unit run_result" where
  "refresh_current_for_run now a installation_id run_id = all_ok
     [demand (ra_action a = RUN_ACTION \<and> ra_installation_id a = installation_id \<and> ra_run_id a = Some run_id
        \<and> unexpired now a) RunAuthorityDenied,
      grant_current now a installation_id (Some run_id)]"

section \<open>Requests and results\<close>

record run_view =
  rv_record :: run_record
  rv_revision :: u64
  rv_installation_revision :: u64
  rv_entrypoint_id :: str

abbreviation rv_run_id :: "run_view \<Rightarrow> str" where "rv_run_id v \<equiv> rn_run_id (rv_record v)"

abbreviation rv_installation_id :: "run_view \<Rightarrow> str" where
  "rv_installation_id v \<equiv> rn_installation_id (rv_record v)"

abbreviation rv_status :: "run_view \<Rightarrow> run_status" where "rv_status v \<equiv> rn_status (rv_record v)"

record run_list_request =
  rlr_installation_id :: "str option"
  rlr_status :: "run_status option"

record run_get_request =
  rgr_installation_id :: str
  rgr_run_id :: str

record run_start_request =
  rsr_installation_id :: str
  rsr_expected_installation_revision :: u64
  rsr_entrypoint_id :: str
  rsr_idempotency_key :: str
  rsr_authority :: "run_mutation_authority option"

record run_stop_request =
  rst_installation_id :: str
  rst_run_id :: str
  rst_expected_revision :: u64
  rst_idempotency_key :: str
  rst_authority :: "run_mutation_authority option"

definition validate_run_idempotency_key :: "str \<Rightarrow> unit run_result" where
  "validate_run_idempotency_key key = demand (\<not> blank key) IdempotencyKeyEmpty"

definition run_start_request_validate :: "run_start_request \<Rightarrow> unit run_result" where
  "run_start_request_validate r = all_ok
     [demand (\<not> blank (rsr_entrypoint_id r)) EntrypointEmpty, validate_run_idempotency_key (rsr_idempotency_key r)]"

definition run_stop_request_validate :: "run_stop_request \<Rightarrow> unit run_result" where
  "run_stop_request_validate r = validate_run_idempotency_key (rst_idempotency_key r)"

record run_gap =
  rg_reason_code :: str
  rg_node_id :: "str option"
  rg_port_id :: "str option"
  rg_next_step :: str

definition run_gap_new :: "str \<Rightarrow> str \<Rightarrow> run_gap" where
  "run_gap_new reason_code next_step =
     \<lparr>rg_reason_code = reason_code, rg_node_id = None, rg_port_id = None, rg_next_step = next_step\<rparr>"

definition for_node :: "str \<Rightarrow> run_gap \<Rightarrow> run_gap" where
  "for_node node_id g = g\<lparr>rg_node_id := Some node_id\<rparr>"

definition for_port :: "str \<Rightarrow> run_gap \<Rightarrow> run_gap" where
  "for_port port_id g = g\<lparr>rg_port_id := Some port_id\<rparr>"

record run_start_result =
  sr_run :: "run_view option"
  sr_gaps :: "run_gap list"
  sr_idempotent :: bool

record run_mutation_result =
  mr_run :: run_view
  mr_idempotent :: bool

type_synonym opaque = nat

record run_preparation =
  rp_installation_revision :: u64
  rp_entrypoint_id :: str
  rp_gaps :: "run_gap list"
  rp_opaque :: "opaque option"

definition preparation_blocked :: "u64 \<Rightarrow> str \<Rightarrow> run_gap list \<Rightarrow> run_preparation" where
  "preparation_blocked revision entrypoint_id gaps = \<lparr>rp_installation_revision = revision,
     rp_entrypoint_id = entrypoint_id, rp_gaps = gaps, rp_opaque = None\<rparr>"

definition preparation_ready :: "u64 \<Rightarrow> str \<Rightarrow> opaque \<Rightarrow> run_preparation" where
  "preparation_ready revision entrypoint_id state = \<lparr>rp_installation_revision = revision,
     rp_entrypoint_id = entrypoint_id, rp_gaps = [], rp_opaque = Some state\<rparr>"

record run_activation =
  rac_context_id :: "str option"
  rac_node_instances :: "node_instance_record list"
  rac_bindings :: "active_binding_record list"
  rac_opaque :: "opaque option"

section \<open>\<open>UnavailableRunControl\<close>\<close>

definition unavailable_start :: "run_start_request \<Rightarrow> run_start_result run_result" where
  "unavailable_start r = and_then (run_start_request_validate r) (\<lambda>_. Inl RunControlUnavailable)"

definition unavailable_stop :: "run_stop_request \<Rightarrow> run_mutation_result run_result" where
  "unavailable_stop r = and_then (run_stop_request_validate r) (\<lambda>_. Inl RunControlUnavailable)"

section \<open>Lemmas\<close>

lemma demand_Inr [res_simps]: "demand b e = Inr u \<longleftrightarrow> b"
  by (simp add: demand_def)

lemma demand_Inl [simp]: "demand b e = Inl e' \<longleftrightarrow> \<not> b \<and> e' = e"
  by (auto simp: demand_def)

text \<open>What a current authority grants: this action on this installation, and for a device, with the
  consent of the validator at that instant.\<close>

definition authority_current :: "instant \<Rightarrow> run_mutation_authority \<Rightarrow> str \<Rightarrow> str option \<Rightarrow> bool" where
  "authority_current now a installation_id run_id \<longleftrightarrow>
     ra_action a = RUN_ACTION \<and> ra_installation_id a = installation_id \<and> ra_run_id a = run_id
     \<and> (\<forall>expiry. ra_expires_at_ms a = Some expiry \<longrightarrow> timestamp_millis now < expiry)
     \<and> (\<forall>g. ra_grant_id a = Some g \<longrightarrow> (\<exists>v. ra_refresh a = Some v \<and> v now g installation_id run_id))"

lemma refresh_for_installation_Inr [res_simps]:
  "refresh_current_for_installation now a i = Inr u \<longleftrightarrow> authority_current now a i None"
  by (auto simp: refresh_current_for_installation_def authority_current_def unexpired_def grant_current_def
      res_simps split: option.splits)

lemma refresh_for_run_Inr [res_simps]:
  "refresh_current_for_run now a i r = Inr u \<longleftrightarrow> authority_current now a i (Some r)"
  by (auto simp: refresh_current_for_run_def authority_current_def unexpired_def grant_current_def
      res_simps split: option.splits)

end
