(* ===== verification/Event_Kinds.thy ===== *)
theory Event_Kinds
  imports Event_Store
begin

text \<open>
  Who may write which event (\<open>core/event.rs\<close>): the kinds that only the runtime writes, listed one by
  one, and the namespace of a package.
\<close>

definition PLATFORM_RUNTIME_ID :: str where "PLATFORM_RUNTIME_ID = ''plurora/runtime''"

definition EVENT_SESSION_OPENED :: str where "EVENT_SESSION_OPENED = ''context/opened''"

definition EVENT_SESSION_CLOSED :: str where "EVENT_SESSION_CLOSED = ''context/closed''"

definition EVENT_SESSION_FORKED :: str where "EVENT_SESSION_FORKED = ''context/forked''"

definition EVENT_PACKAGE_LOADED :: str where "EVENT_PACKAGE_LOADED = ''host/package.loaded''"

definition EVENT_PACKAGE_LOADING :: str where "EVENT_PACKAGE_LOADING = ''host/package.loading''"

definition EVENT_PACKAGE_STARTING :: str where "EVENT_PACKAGE_STARTING = ''host/package.starting''"

definition EVENT_PACKAGE_READY :: str where "EVENT_PACKAGE_READY = ''host/package.ready''"

definition EVENT_PACKAGE_STOPPING :: str where "EVENT_PACKAGE_STOPPING = ''host/package.stopping''"

definition EVENT_PACKAGE_STOPPED :: str where "EVENT_PACKAGE_STOPPED = ''host/package.stopped''"

definition EVENT_PACKAGE_UNLOADED :: str where "EVENT_PACKAGE_UNLOADED = ''host/package.unloaded''"

definition EVENT_PACKAGE_DEGRADED :: str where "EVENT_PACKAGE_DEGRADED = ''host/package.degraded''"

definition EVENT_PACKAGE_LOG :: str where "EVENT_PACKAGE_LOG = ''host/package.log''"

definition INSTALLATION_CREATED :: str where "INSTALLATION_CREATED = ''host/installation.created''"

definition INSTALLATION_UPDATED :: str where "INSTALLATION_UPDATED = ''host/installation.updated''"

definition INSTALLATION_REMOVED :: str where "INSTALLATION_REMOVED = ''host/installation.removed''"

definition EVENT_RUN_STARTING :: str where "EVENT_RUN_STARTING = ''host/run.starting''"

definition EVENT_RUN_STARTED :: str where "EVENT_RUN_STARTED = ''host/run.started''"

definition EVENT_RUN_STOPPING :: str where "EVENT_RUN_STOPPING = ''host/run.stopping''"

definition EVENT_RUN_STOPPED :: str where "EVENT_RUN_STOPPED = ''host/run.stopped''"

definition EVENT_RUN_FAILED :: str where "EVENT_RUN_FAILED = ''host/run.failed''"

definition EVENT_EXPOSURE_CREATED :: str where "EVENT_EXPOSURE_CREATED = ''host/exposure.created''"

definition EVENT_EXPOSURE_REVOKED :: str where "EVENT_EXPOSURE_REVOKED = ''host/exposure.revoked''"

definition EVENT_EXPOSURE_EXPIRED :: str where "EVENT_EXPOSURE_EXPIRED = ''host/exposure.expired''"

definition EVENT_BINDING_SELECTED :: str where "EVENT_BINDING_SELECTED = ''host/binding.selected''"

definition EVENT_BINDING_REVOKED :: str where "EVENT_BINDING_REVOKED = ''host/binding.revoked''"

definition EVENT_BINDING_EXPIRED :: str where "EVENT_BINDING_EXPIRED = ''host/binding.expired''"

definition EVENT_REALIZATION_PLANNED :: str where "EVENT_REALIZATION_PLANNED = ''host/realization.planned''"

definition EVENT_REALIZATION_APPLYING :: str where "EVENT_REALIZATION_APPLYING = ''host/realization.applying''"

definition EVENT_REALIZATION_ACTIVE :: str where "EVENT_REALIZATION_ACTIVE = ''host/realization.active''"

definition EVENT_REALIZATION_STOPPED :: str where "EVENT_REALIZATION_STOPPED = ''host/realization.stopped''"

definition EVENT_REALIZATION_FAILED :: str where "EVENT_REALIZATION_FAILED = ''host/realization.failed''"

definition EVENT_REALIZATION_ROLLED_BACK :: str where "EVENT_REALIZATION_ROLLED_BACK = ''host/realization.rolled_back''"

definition EVENT_REALIZATION_RECONCILED :: str where "EVENT_REALIZATION_RECONCILED = ''host/realization.reconciled''"

definition EVENT_ASSET_PUT :: str where "EVENT_ASSET_PUT = ''object/put''"

definition EVENT_PROJECTION_UPDATED :: str where "EVENT_PROJECTION_UPDATED = ''projection/updated''"

definition EVENT_PROPOSAL_CREATED :: str where "EVENT_PROPOSAL_CREATED = ''change/proposal.created''"

definition EVENT_PROPOSAL_APPROVED :: str where "EVENT_PROPOSAL_APPROVED = ''change/proposal.approved''"

definition EVENT_PROPOSAL_REJECTED :: str where "EVENT_PROPOSAL_REJECTED = ''change/proposal.rejected''"

definition EVENT_PROPOSAL_APPLIED :: str where "EVENT_PROPOSAL_APPLIED = ''change/proposal.applied''"

definition EVENT_PROPOSAL_FAILED :: str where "EVENT_PROPOSAL_FAILED = ''change/proposal.failed''"

definition EVENT_CAPABILITY_INVOKED :: str where "EVENT_CAPABILITY_INVOKED = ''capability/invoked''"

definition EVENT_CAPABILITY_COMPLETED :: str where "EVENT_CAPABILITY_COMPLETED = ''capability/completed''"

definition EVENT_CAPABILITY_FAILED :: str where "EVENT_CAPABILITY_FAILED = ''capability/failed''"

definition EVENT_PERMISSION_DENIED :: str where "EVENT_PERMISSION_DENIED = ''authority/denied''"

definition EVENT_PERMISSION_GRANTED :: str where "EVENT_PERMISSION_GRANTED = ''authority/grant.created''"

definition EVENT_PERMISSION_REVOKED :: str where "EVENT_PERMISSION_REVOKED = ''authority/grant.revoked''"

definition EVENT_ERROR :: str where "EVENT_ERROR = ''runtime/error''"

definition EVENT_OUTBOUND_REQUEST :: str where "EVENT_OUTBOUND_REQUEST = ''host/outbound.request''"

definition EVENT_OUTBOUND_DENIED :: str where "EVENT_OUTBOUND_DENIED = ''host/outbound.denied''"

definition EVENT_OUTBOUND_EXECUTE_COMPLETED :: str where "EVENT_OUTBOUND_EXECUTE_COMPLETED = ''host/outbound.execute.completed''"

definition EVENT_OUTBOUND_STREAM_COMPLETED :: str where "EVENT_OUTBOUND_STREAM_COMPLETED = ''host/outbound.stream.completed''"

definition EVENT_STREAM_STARTED :: str where "EVENT_STREAM_STARTED = ''capability/stream.started''"

definition EVENT_STREAM_CHUNK :: str where "EVENT_STREAM_CHUNK = ''capability/stream.chunk''"

definition EVENT_STREAM_PROGRESS :: str where "EVENT_STREAM_PROGRESS = ''capability/stream.progress''"

definition EVENT_STREAM_ENDED :: str where "EVENT_STREAM_ENDED = ''capability/stream.ended''"

definition EVENT_STREAM_ERROR :: str where "EVENT_STREAM_ERROR = ''capability/stream.error''"

definition EVENT_STREAM_CANCELLED :: str where "EVENT_STREAM_CANCELLED = ''capability/stream.cancelled''"

definition EVENT_STREAM_TIMEOUT :: str where "EVENT_STREAM_TIMEOUT = ''capability/stream.timeout''"

definition EVENT_OUTBOUND_WEBSOCKET_OPENED :: str where "EVENT_OUTBOUND_WEBSOCKET_OPENED = ''host/outbound.websocket.opened''"

definition EVENT_OUTBOUND_WEBSOCKET_FRAME :: str where "EVENT_OUTBOUND_WEBSOCKET_FRAME = ''host/outbound.websocket.frame''"

definition EVENT_OUTBOUND_WEBSOCKET_ERROR :: str where "EVENT_OUTBOUND_WEBSOCKET_ERROR = ''host/outbound.websocket.error''"

definition EVENT_OUTBOUND_WEBSOCKET_COMPLETED :: str where "EVENT_OUTBOUND_WEBSOCKET_COMPLETED = ''host/outbound.websocket.completed''"

definition EVENT_EXEC_REQUEST :: str where "EVENT_EXEC_REQUEST = ''host/exec.request''"

definition EVENT_EXEC_DENIED :: str where "EVENT_EXEC_DENIED = ''host/exec.denied''"

definition EVENT_EXEC_STARTED :: str where "EVENT_EXEC_STARTED = ''host/exec.started''"

definition EVENT_EXEC_STOPPED :: str where "EVENT_EXEC_STOPPED = ''host/exec.stopped''"

definition EVENT_EXEC_COMPLETED :: str where "EVENT_EXEC_COMPLETED = ''host/exec.completed''"

definition EVENT_EXEC_FAILED :: str where "EVENT_EXEC_FAILED = ''host/exec.failed''"

definition EVENT_PORT_LEASED :: str where "EVENT_PORT_LEASED = ''host/port.leased''"

definition EVENT_PORT_RELEASED :: str where "EVENT_PORT_RELEASED = ''host/port.released''"

definition EVENT_PORT_DENIED :: str where "EVENT_PORT_DENIED = ''host/port.denied''"

definition EVENT_PROXY_REGISTERED :: str where "EVENT_PROXY_REGISTERED = ''host/proxy.registered''"

definition EVENT_PROXY_UNREGISTERED :: str where "EVENT_PROXY_UNREGISTERED = ''host/proxy.unregistered''"

definition EVENT_PROXY_DENIED :: str where "EVENT_PROXY_DENIED = ''host/proxy.denied''"

definition EVENT_WORKLOAD_RECONCILED :: str where "EVENT_WORKLOAD_RECONCILED = ''host/workload.reconciled''"

definition EVENT_WORKLOAD_HEALTH :: str where "EVENT_WORKLOAD_HEALTH = ''host/workload.health''"

definition PLATFORM_EVENT_KINDS :: "str list" where
  "PLATFORM_EVENT_KINDS =
    [EVENT_SESSION_OPENED, EVENT_SESSION_CLOSED, EVENT_SESSION_FORKED, EVENT_PACKAGE_LOADED,
     EVENT_PACKAGE_LOADING, EVENT_PACKAGE_STARTING, EVENT_PACKAGE_READY, EVENT_PACKAGE_STOPPING,
     EVENT_PACKAGE_STOPPED, EVENT_PACKAGE_UNLOADED, EVENT_PACKAGE_DEGRADED, EVENT_PACKAGE_LOG,
     INSTALLATION_CREATED, INSTALLATION_UPDATED, INSTALLATION_REMOVED, EVENT_RUN_STARTING, EVENT_RUN_STARTED,
     EVENT_RUN_STOPPING, EVENT_RUN_STOPPED, EVENT_RUN_FAILED, EVENT_EXPOSURE_CREATED, EVENT_EXPOSURE_REVOKED,
     EVENT_EXPOSURE_EXPIRED, EVENT_BINDING_SELECTED, EVENT_BINDING_REVOKED, EVENT_BINDING_EXPIRED,
     EVENT_REALIZATION_PLANNED, EVENT_REALIZATION_APPLYING, EVENT_REALIZATION_ACTIVE, EVENT_REALIZATION_STOPPED,
     EVENT_REALIZATION_FAILED, EVENT_REALIZATION_ROLLED_BACK, EVENT_REALIZATION_RECONCILED, EVENT_ASSET_PUT,
     EVENT_PROJECTION_UPDATED, EVENT_PROPOSAL_CREATED, EVENT_PROPOSAL_APPROVED, EVENT_PROPOSAL_REJECTED,
     EVENT_PROPOSAL_APPLIED, EVENT_PROPOSAL_FAILED, EVENT_CAPABILITY_INVOKED, EVENT_CAPABILITY_COMPLETED,
     EVENT_CAPABILITY_FAILED, EVENT_PERMISSION_DENIED, EVENT_PERMISSION_GRANTED, EVENT_PERMISSION_REVOKED,
     EVENT_ERROR, EVENT_OUTBOUND_REQUEST, EVENT_OUTBOUND_DENIED, EVENT_OUTBOUND_EXECUTE_COMPLETED,
     EVENT_OUTBOUND_STREAM_COMPLETED, EVENT_STREAM_STARTED, EVENT_STREAM_CHUNK, EVENT_STREAM_PROGRESS,
     EVENT_STREAM_ENDED, EVENT_STREAM_ERROR, EVENT_STREAM_CANCELLED, EVENT_STREAM_TIMEOUT,
     EVENT_OUTBOUND_WEBSOCKET_OPENED, EVENT_OUTBOUND_WEBSOCKET_FRAME, EVENT_OUTBOUND_WEBSOCKET_ERROR,
     EVENT_OUTBOUND_WEBSOCKET_COMPLETED, EVENT_EXEC_REQUEST, EVENT_EXEC_DENIED, EVENT_EXEC_STARTED,
     EVENT_EXEC_STOPPED, EVENT_EXEC_COMPLETED, EVENT_EXEC_FAILED, EVENT_PORT_LEASED, EVENT_PORT_RELEASED,
     EVENT_PORT_DENIED, EVENT_PROXY_REGISTERED, EVENT_PROXY_UNREGISTERED, EVENT_PROXY_DENIED,
     EVENT_WORKLOAD_RECONCILED, EVENT_WORKLOAD_HEALTH]"

definition is_platform_event_kind :: "str \<Rightarrow> bool" where
  "is_platform_event_kind kind = (kind \<in> set PLATFORM_EVENT_KINDS)"

definition is_platform_event :: "event_envelope \<Rightarrow> bool" where
  "is_platform_event e = (ev_writer_package_id e = PLATFORM_RUNTIME_ID \<and> is_platform_event_kind (ev_kind e))"

definition writer_owns_kind :: "event_envelope \<Rightarrow> bool" where
  "writer_owns_kind e =
     (if is_platform_event_kind (ev_kind e) then ev_writer_package_id e = PLATFORM_RUNTIME_ID
      else starts_with (ev_kind e) (ev_writer_package_id e @ ''/''))"

lemmas event_kind_defs =  PLATFORM_RUNTIME_ID_def EVENT_SESSION_OPENED_def EVENT_SESSION_CLOSED_def EVENT_SESSION_FORKED_def
  EVENT_PACKAGE_LOADED_def EVENT_PACKAGE_LOADING_def EVENT_PACKAGE_STARTING_def EVENT_PACKAGE_READY_def
  EVENT_PACKAGE_STOPPING_def EVENT_PACKAGE_STOPPED_def EVENT_PACKAGE_UNLOADED_def EVENT_PACKAGE_DEGRADED_def
  EVENT_PACKAGE_LOG_def INSTALLATION_CREATED_def INSTALLATION_UPDATED_def INSTALLATION_REMOVED_def
  EVENT_RUN_STARTING_def EVENT_RUN_STARTED_def EVENT_RUN_STOPPING_def EVENT_RUN_STOPPED_def EVENT_RUN_FAILED_def
  EVENT_EXPOSURE_CREATED_def EVENT_EXPOSURE_REVOKED_def EVENT_EXPOSURE_EXPIRED_def EVENT_BINDING_SELECTED_def
  EVENT_BINDING_REVOKED_def EVENT_BINDING_EXPIRED_def EVENT_REALIZATION_PLANNED_def EVENT_REALIZATION_APPLYING_def
  EVENT_REALIZATION_ACTIVE_def EVENT_REALIZATION_STOPPED_def EVENT_REALIZATION_FAILED_def
  EVENT_REALIZATION_ROLLED_BACK_def EVENT_REALIZATION_RECONCILED_def EVENT_ASSET_PUT_def
  EVENT_PROJECTION_UPDATED_def EVENT_PROPOSAL_CREATED_def EVENT_PROPOSAL_APPROVED_def EVENT_PROPOSAL_REJECTED_def
  EVENT_PROPOSAL_APPLIED_def EVENT_PROPOSAL_FAILED_def EVENT_CAPABILITY_INVOKED_def EVENT_CAPABILITY_COMPLETED_def
  EVENT_CAPABILITY_FAILED_def EVENT_PERMISSION_DENIED_def EVENT_PERMISSION_GRANTED_def EVENT_PERMISSION_REVOKED_def
  EVENT_ERROR_def EVENT_OUTBOUND_REQUEST_def EVENT_OUTBOUND_DENIED_def EVENT_OUTBOUND_EXECUTE_COMPLETED_def
  EVENT_OUTBOUND_STREAM_COMPLETED_def EVENT_STREAM_STARTED_def EVENT_STREAM_CHUNK_def EVENT_STREAM_PROGRESS_def
  EVENT_STREAM_ENDED_def EVENT_STREAM_ERROR_def EVENT_STREAM_CANCELLED_def EVENT_STREAM_TIMEOUT_def
  EVENT_OUTBOUND_WEBSOCKET_OPENED_def EVENT_OUTBOUND_WEBSOCKET_FRAME_def EVENT_OUTBOUND_WEBSOCKET_ERROR_def
  EVENT_OUTBOUND_WEBSOCKET_COMPLETED_def EVENT_EXEC_REQUEST_def EVENT_EXEC_DENIED_def EVENT_EXEC_STARTED_def
  EVENT_EXEC_STOPPED_def EVENT_EXEC_COMPLETED_def EVENT_EXEC_FAILED_def EVENT_PORT_LEASED_def
  EVENT_PORT_RELEASED_def EVENT_PORT_DENIED_def EVENT_PROXY_REGISTERED_def EVENT_PROXY_UNREGISTERED_def
  EVENT_PROXY_DENIED_def EVENT_WORKLOAD_RECONCILED_def EVENT_WORKLOAD_HEALTH_def

end
