(* ===== verification/Run_Journal.thy ===== *)
theory Run_Journal
  imports Run_Control Event_Spine Event_Kinds
begin

text \<open>
  The durable side of \<open>crates/plurora-service/src/runs.rs\<close>: the journal of run events in the
  session \<open>host_runs\<close> of the event store, the state a registry replays from it, and the two
  operations through which every handler reaches it, \<open>sync_journal\<close> and \<open>append_after_guards\<close>.

  The store is the trait object of the source: a function from a call to its reply and the new store,
  so that several hosts may share it. \<open>serde\<close>'s encoding of a payload is a parameter
  (\<open>journal_codec\<close>). What an operation reads from its surroundings is collected in \<open>host_env\<close>:
  the \<open>k\<close>-th reading of the clock and of the owner lease, the id and the time the store gives to the
  \<open>k\<close>-th event, and the random id of a new run.
\<close>

section \<open>Data\<close>

definition JOURNAL_SESSION :: str where "JOURNAL_SESSION = ''host_runs''"

definition JOURNAL_WRITER :: str where "JOURNAL_WRITER = PLATFORM_RUNTIME_ID"

definition JOURNAL_SCHEMA :: u16 where "JOURNAL_SCHEMA = 1"

definition JOURNAL_PAGE :: nat where "JOURNAL_PAGE = 1000"

datatype run_operation = Start_Operation | Stop_Operation

record run_idempotency_claim =
  ic_operation :: run_operation
  ic_key_hash :: str
  ic_request_fingerprint :: str

record run_journal_payload =
  jp_run :: run_view
  jp_idempotency :: "run_idempotency_claim option"

record applied_idempotency =
  ai_fingerprint :: str
  ai_run_id :: str

type_synonym idempotency_key = "str \<times> run_operation \<times> str"

record run_state =
  rs_next_sequence :: u64
  rs_runs :: "(str, run_view) btree_map"
  rs_idempotency :: "idempotency_key \<rightharpoonup> applied_idempotency"

definition run_state_default :: run_state where
  "run_state_default = \<lparr>rs_next_sequence = 0, rs_runs = [], rs_idempotency = Map.empty\<rparr>"

record journal_codec =
  jc_to_value :: "run_journal_payload \<Rightarrow> json"
  jc_from_value :: "json \<Rightarrow> run_journal_payload option"

text \<open>What the code relies on of \<open>serde\<close>: a value it wrote reads back as itself.\<close>

definition codec_ok :: "journal_codec \<Rightarrow> bool" where
  "codec_ok C \<longleftrightarrow> (\<forall>p. jc_from_value C (jc_to_value C p) = Some p)"

record host_env =
  he_clock :: "nat \<Rightarrow> instant"
  he_lease :: "nat \<Rightarrow> bool"
  he_stamp :: "nat \<Rightarrow> str \<times> instant"
  he_run_id :: str

type_synonym 's event_store = "spine_call \<Rightarrow> 's \<Rightarrow> spine_reply \<times> 's"

section \<open>Fingerprints\<close>

definition fingerprint :: "ext \<Rightarrow> json \<Rightarrow> str" where
  "fingerprint E v = sha256_digest E (json_to_vec E v)"

definition idempotency_key_hash :: "ext \<Rightarrow> str \<Rightarrow> str" where
  "idempotency_key_hash E key = sha256_digest E key"

definition start_fingerprint :: "ext \<Rightarrow> run_start_request \<Rightarrow> str" where
  "start_fingerprint E r = fingerprint E (jobj
     (jfield ''operation'' (JStr ''start'') @ jfield ''installation_id'' (JStr (rsr_installation_id r))
      @ jfield ''expected_installation_revision'' (jword (rsr_expected_installation_revision r))
      @ jfield ''entrypoint_id'' (JStr (rsr_entrypoint_id r))))"

definition stop_fingerprint :: "ext \<Rightarrow> run_stop_request \<Rightarrow> str" where
  "stop_fingerprint E r = fingerprint E (jobj
     (jfield ''operation'' (JStr ''stop'') @ jfield ''installation_id'' (JStr (rst_installation_id r))
      @ jfield ''run_id'' (JStr (rst_run_id r))
      @ jfield ''expected_revision'' (jword (rst_expected_revision r))))"

section \<open>Transitions of a run\<close>

fun is_active :: "run_status \<Rightarrow> bool" where
  "is_active Run_Starting = True"
| "is_active Run_Running = True"
| "is_active Run_Degraded = True"
| "is_active Run_Stopping = True"
| "is_active _ = False"

fun valid_transition :: "run_status \<Rightarrow> run_status \<Rightarrow> bool" where
  "valid_transition Run_Starting after = (after \<in> {Run_Running, Run_Stopping, Run_Failed, Run_Interrupted})"
| "valid_transition Run_Running after = (after \<in> {Run_Stopping, Run_Failed, Run_Interrupted})"
| "valid_transition Run_Degraded after = (after \<in> {Run_Stopping, Run_Failed, Run_Interrupted})"
| "valid_transition Run_Stopping after = (after \<in> {Run_Stopped, Run_Failed, Run_Interrupted})"
| "valid_transition _ _ = False"

definition ensure_valid_transition :: "run_status \<Rightarrow> run_status \<Rightarrow> unit run_result" where
  "ensure_valid_transition before_status after_status =
     demand (valid_transition before_status after_status) InvalidRunTransition"

definition with_health :: "health_status \<Rightarrow> str option \<Rightarrow> run_record \<Rightarrow> run_record" where
  "with_health status reason r = r\<lparr>rn_health := \<lparr>rh_status = status, rh_reason_code = reason, rh_diagnostic_refs = []\<rparr>\<rparr>"

definition with_node_status :: "node_instance_status \<Rightarrow> run_record \<Rightarrow> run_record" where
  "with_node_status status r = r\<lparr>rn_node_instances := map (\<lambda>n. n\<lparr>ni_status := status\<rparr>) (rn_node_instances r)\<rparr>"

definition next_revision :: "run_view \<Rightarrow> run_record \<Rightarrow> run_view" where
  "next_revision v r = v\<lparr>rv_revision := saturating_add (rv_revision v) 1, rv_record := r\<rparr>"

definition running_run :: "run_view \<Rightarrow> run_activation \<Rightarrow> run_view" where
  "running_run v a = next_revision v (with_health Healthy None ((rv_record v)\<lparr>rn_context_id := rac_context_id a,
     rn_status := Run_Running, rn_node_instances := rac_node_instances a, rn_bindings := rac_bindings a\<rparr>))"

definition stopping_run :: "str \<Rightarrow> run_view \<Rightarrow> run_view" where
  "stopping_run reason_code v = next_revision v (with_node_status Run_Stopping
     (with_health Health_Unknown (Some reason_code) ((rv_record v)\<lparr>rn_status := Run_Stopping, rn_stopped_at := None\<rparr>)))"

definition stopped_run :: "instant \<Rightarrow> run_view \<Rightarrow> run_view" where
  "stopped_run now v = next_revision v (with_node_status Run_Stopped
     (with_health Health_Unknown (Some ''explicit_stop'') ((rv_record v)\<lparr>rn_status := Run_Stopped, rn_stopped_at := Some now\<rparr>)))"

definition failed_run :: "instant \<Rightarrow> str \<Rightarrow> run_view \<Rightarrow> run_view" where
  "failed_run now reason_code v = next_revision v (with_node_status Run_Failed
     (with_health Unhealthy (Some reason_code) ((rv_record v)\<lparr>rn_status := Run_Failed, rn_stopped_at := Some now\<rparr>)))"

definition interrupted_run :: "instant \<Rightarrow> str \<Rightarrow> run_view \<Rightarrow> run_view" where
  "interrupted_run now reason_code v = next_revision v (with_node_status Run_Interrupted
     (with_health Health_Unknown (Some reason_code) ((rv_record v)\<lparr>rn_status := Run_Interrupted, rn_stopped_at := Some now\<rparr>)))"

definition terminal_after_cleanup :: "instant \<Rightarrow> bool \<Rightarrow> run_view \<Rightarrow> run_view" where
  "terminal_after_cleanup now activation_was_owned v =
     (let stopping_reason = (case rh_reason_code (rn_health (rv_record v)) of None \<Rightarrow> ''outcome_unknown'' | Some r \<Rightarrow> r) in
      if stopping_reason = ''explicit_stop'' \<and> activation_was_owned then stopped_run now v
      else if stopping_reason = ''package_activation_lost'' \<and> activation_was_owned
        then failed_run now ''package_activation_lost'' v
      else if stopping_reason = ''explicit_stop_before_start_commit''
        then interrupted_run now ''explicit_stop_before_start_commit'' v
      else if stopping_reason = ''host_restart'' then interrupted_run now ''host_restart'' v
      else interrupted_run now ''outcome_unknown'' v)"

section \<open>Applying an event\<close>

definition expected_status :: "str \<Rightarrow> run_status \<Rightarrow> run_status run_result" where
  "expected_status kind status =
     (if kind = EVENT_RUN_STARTING then Inr Run_Starting
      else if kind = EVENT_RUN_STARTED then Inr Run_Running
      else if kind = EVENT_RUN_STOPPING then Inr Run_Stopping
      else if kind = EVENT_RUN_STOPPED then Inr Run_Stopped
      else if kind = EVENT_RUN_FAILED then
        and_then (demand (status \<in> {Run_Failed, Run_Interrupted}) FailedEventNotTerminal) (\<lambda>_. Inr status)
      else Inl UnexpectedJournalKind)"

definition claim_key :: "run_view \<Rightarrow> run_idempotency_claim \<Rightarrow> idempotency_key" where
  "claim_key v c = (rv_installation_id v, ic_operation c, ic_key_hash c)"

definition claim_agrees :: "run_state \<Rightarrow> run_journal_payload \<Rightarrow> unit run_result" where
  "claim_agrees st p =
     (case jp_idempotency p of
        None \<Rightarrow> Inr ()
      | Some c \<Rightarrow>
          (case rs_idempotency st (claim_key (jp_run p) c) of
             None \<Rightarrow> Inr ()
           | Some previous \<Rightarrow>
               demand (ai_fingerprint previous = ic_request_fingerprint c \<and> ai_run_id previous = rv_run_id (jp_run p))
                 IdempotencyConflict))"

definition run_successor :: "run_state \<Rightarrow> str \<Rightarrow> run_view \<Rightarrow> unit run_result" where
  "run_successor st kind v =
     (case bt_get (rs_runs st) (rv_run_id v) of
        Some previous \<Rightarrow> all_ok
          [demand (rv_installation_id previous = rv_installation_id v
              \<and> rv_installation_revision previous = rv_installation_revision v
              \<and> rv_entrypoint_id previous = rv_entrypoint_id v
              \<and> rv_revision v = saturating_add (rv_revision previous) 1) RunIdentityChanged,
           ensure_valid_transition (rv_status previous) (rv_status v)]
      | None \<Rightarrow> all_ok
          [demand (kind = EVENT_RUN_STARTING \<and> rv_revision v = 1) RunNotIntroduced,
           demand (\<not> list_ex (\<lambda>(_, run). rv_installation_id run = rv_installation_id v \<and> is_active (rv_status run))
             (rs_runs st)) SecondActiveRun])"

definition validate_journal_event :: "ext \<Rightarrow> run_state \<Rightarrow> u64 \<Rightarrow> str \<Rightarrow> run_journal_payload \<Rightarrow> unit run_result" where
  "validate_journal_event E st sequence kind p =
     and_then (demand (run_record_validate E (rv_record (jp_run p)) = Inr ()) PayloadInvalid) (\<lambda>_.
     and_then (expected_status kind (rv_status (jp_run p))) (\<lambda>expected. all_ok
       [demand (rv_status (jp_run p) = expected) KindStatusDisagree,
        demand (sequence = rs_next_sequence st) SequenceNotContiguous,
        run_successor st kind (jp_run p),
        claim_agrees st p]))"

definition record_claim :: "run_journal_payload \<Rightarrow> run_state \<Rightarrow> run_state run_result" where
  "record_claim p st =
     (case jp_idempotency p of
        None \<Rightarrow> Inr st
      | Some c \<Rightarrow>
          (case rs_idempotency st (claim_key (jp_run p) c) of
             Some previous \<Rightarrow>
               and_then (demand (ai_fingerprint previous = ic_request_fingerprint c
                   \<and> ai_run_id previous = rv_run_id (jp_run p)) IdempotencyConflict) (\<lambda>_. Inr st)
           | None \<Rightarrow> Inr (st\<lparr>rs_idempotency := (rs_idempotency st)(claim_key (jp_run p) c \<mapsto>
               \<lparr>ai_fingerprint = ic_request_fingerprint c, ai_run_id = rv_run_id (jp_run p)\<rparr>)\<rparr>)))"

definition apply_event :: "ext \<Rightarrow> journal_codec \<Rightarrow> event_envelope \<Rightarrow> run_state \<Rightarrow> run_state run_result" where
  "apply_event E C event st =
     and_then (demand (ev_session_id event = JOURNAL_SESSION \<and> ev_writer_package_id event = JOURNAL_WRITER)
       JournalEnvelopeInvalid) (\<lambda>_.
     and_then (ok_or (jc_from_value C (ev_payload event)) PayloadUndecodable) (\<lambda>p.
     if ev_sequence event < rs_next_sequence st then Inr st
     else
       and_then (validate_journal_event E st (ev_sequence event) (ev_kind event) p) (\<lambda>_.
       and_then (record_claim p st) (\<lambda>st'.
         Inr (st'\<lparr>rs_runs := bt_insert (rv_run_id (jp_run p)) (jp_run p) (rs_runs st'),
                  rs_next_sequence := saturating_add (ev_sequence event) 1\<rparr>)))))"

section \<open>Reading and extending the journal\<close>

text \<open>A failing event stops the loop; what was applied before it stays. The number of events
  loaded does not reach the limit of \<open>usize\<close>.\<close>

fun apply_events :: "ext \<Rightarrow> journal_codec \<Rightarrow> event_envelope list \<Rightarrow> nat \<Rightarrow> run_state \<Rightarrow> nat run_result \<times> run_state" where
  "apply_events E C [] loaded st = (Inr loaded, st)"
| "apply_events E C (event # events) loaded st =
     (case apply_event E C event st of
        Inl e \<Rightarrow> (Inl e, st)
      | Inr st' \<Rightarrow> apply_events E C events (Suc loaded) st')"

definition checked_sub_one :: "u64 \<Rightarrow> u64 option" where
  "checked_sub_one n = (if n = 0 then None else Some (n - 1))"

definition journal_page :: "run_state \<Rightarrow> spine_call" where
  "journal_page st = List_Session_Range JOURNAL_SESSION (checked_sub_one (rs_next_sequence st)) (Some JOURNAL_PAGE)"

text \<open>\<open>None\<close> stands for a loop that never ends.\<close>

partial_function (option) sync_loop :: "ext \<Rightarrow> journal_codec \<Rightarrow> 's event_store \<Rightarrow> nat \<Rightarrow> run_state \<Rightarrow> 's
    \<Rightarrow> (nat run_result \<times> run_state \<times> 's) option" where
  "sync_loop E C step loaded st store =
     (case step (journal_page st) store of (answer, store') \<Rightarrow>
       (case answer of
          Events events \<Rightarrow>
            if events = [] then Some (Inr loaded, st, store')
            else (case apply_events E C events loaded st of (r, st') \<Rightarrow>
              (case r of
                 Inl e \<Rightarrow> Some (Inl e, st', store')
               | Inr loaded' \<Rightarrow>
                   if length events < JOURNAL_PAGE then Some (Inr loaded', st', store')
                   else sync_loop E C step loaded' st' store'))
        | _ \<Rightarrow> Some (Inl RunStoreFailed, st, store')))"

definition sync_journal :: "ext \<Rightarrow> journal_codec \<Rightarrow> 's event_store \<Rightarrow> run_state \<Rightarrow> 's
    \<Rightarrow> (nat run_result \<times> run_state \<times> 's) option" where
  "sync_journal E C step st store = sync_loop E C step 0 st store"

definition journal_draft :: "journal_codec \<Rightarrow> str \<times> instant \<Rightarrow> str \<Rightarrow> run_journal_payload \<Rightarrow> event_draft" where
  "journal_draft C stamp kind p = \<lparr>ed_id = fst stamp, ed_timestamp = snd stamp,
     ed_writer_package_id = JOURNAL_WRITER, ed_kind = kind, ed_schema_version = JOURNAL_SCHEMA,
     ed_payload = jc_to_value C p,
     ed_metadata = jobj (jfield ''owner'' (JStr ''host_control_plane'') @ jfield ''paths'' (JStr ''none''))\<rparr>"

definition append_after_guards :: "ext \<Rightarrow> journal_codec \<Rightarrow> 's event_store \<Rightarrow> str \<times> instant \<Rightarrow> str \<Rightarrow> run_journal_payload
    \<Rightarrow> run_state \<Rightarrow> 's \<Rightarrow> unit run_result \<times> run_state \<times> 's" where
  "append_after_guards E C step stamp kind p st store =
     (let expected = rs_next_sequence st in
      case validate_journal_event E st expected kind p of
        Inl e \<Rightarrow> (Inl e, st, store)
      | Inr _ \<Rightarrow>
          (case step (Append_If_Next JOURNAL_SESSION expected (journal_draft C stamp kind p)) store of (answer, store') \<Rightarrow>
            (case answer of
               Appended event \<Rightarrow>
                 (case apply_event E C event st of
                    Inl e \<Rightarrow> (Inl e, st, store')
                  | Inr st' \<Rightarrow> (Inr (), st', store'))
             | Overtaken \<Rightarrow> (Inl JournalChangedConcurrently, st, store')
             | _ \<Rightarrow> (Inl RunStoreFailed, st, store'))))"

definition is_run_journal_cas_loss :: "run_error \<Rightarrow> bool" where
  "is_run_journal_cas_loss e = (e = JournalChangedConcurrently)"

definition lookup_idempotency :: "ext \<Rightarrow> run_state \<Rightarrow> str \<Rightarrow> run_operation \<Rightarrow> str \<Rightarrow> str
    \<Rightarrow> run_view option run_result" where
  "lookup_idempotency E st installation_id operation key request_fingerprint =
     (case rs_idempotency st (installation_id, operation, idempotency_key_hash E key) of
        None \<Rightarrow> Inr None
      | Some claim \<Rightarrow>
          and_then (demand (ai_fingerprint claim = request_fingerprint) IdempotencyConflict) (\<lambda>_.
            Inr (bt_get (rs_runs st) (ai_run_id claim))))"

end
