(* ===== verification/Run_Replay.thy ===== *)
theory Run_Replay
  imports Run_Journal
begin

text \<open>
  What a journal of run events says: the invariant of a replayed state, how a longer journal changes
  it, and the part of the journal a registry has read.
\<close>

section \<open>Replay\<close>

abbreviation journal :: "event_envelope list \<Rightarrow> event_envelope list" where
  "journal log \<equiv> session_log JOURNAL_SESSION log"

definition replays :: "ext \<Rightarrow> journal_codec \<Rightarrow> event_envelope list \<Rightarrow> run_state \<Rightarrow> bool" where
  "replays E C es st \<longleftrightarrow> distinct (map ev_sequence es) \<and> foldM (apply_event E C) es run_state_default = Inr st"

definition journal_ok :: "ext \<Rightarrow> journal_codec \<Rightarrow> event_envelope list \<Rightarrow> bool" where
  "journal_ok E C log \<longleftrightarrow> spine_ok log \<and> (\<exists>st. replays E C (journal log) st)"

text \<open>A registry has read a prefix of the journal.\<close>

definition tracks :: "ext \<Rightarrow> journal_codec \<Rightarrow> event_envelope list \<Rightarrow> run_state \<Rightarrow> bool" where
  "tracks E C log st \<longleftrightarrow> (\<exists>es es'. journal log = es @ es' \<and> replays E C es st)"

lemma replays_Nil: "replays E C [] st \<longleftrightarrow> st = run_state_default"
  by (auto simp: replays_def)

lemma replays_snoc:
  "replays E C (es @ [e]) st' \<longleftrightarrow>
     (\<exists>st. replays E C es st \<and> ev_sequence e \<notin> ev_sequence ` set es \<and> apply_event E C e st = Inr st')"
  by (auto simp: replays_def foldM_append and_then_Inr)

lemma replays_unique: "replays E C es st \<Longrightarrow> replays E C es st' \<Longrightarrow> st = st'"
  by (simp add: replays_def)

lemma replays_induct [consumes 1, case_names Nil snoc]:
  assumes "replays E C es st" and "P [] run_state_default"
    and "\<And>es e st st'. replays E C es st \<Longrightarrow> P es st \<Longrightarrow> ev_sequence e \<notin> ev_sequence ` set es
      \<Longrightarrow> apply_event E C e st = Inr st' \<Longrightarrow> P (es @ [e]) st'"
  shows "P es st"
  using assms(1)
proof (induction es arbitrary: st rule: rev_induct)
  case Nil
  then show ?case using assms(2) by (simp add: replays_Nil)
next
  case (snoc e es)
  then show ?case using assms(3) by (auto simp: replays_snoc)
qed

lemma replays_prefix: "replays E C (es @ es') st \<Longrightarrow> \<exists>st0. replays E C es st0"
  by (induction es' arbitrary: st rule: rev_induct) (auto simp flip: append_assoc simp: replays_snoc)

section \<open>One event\<close>

lemma is_active_run_active: "is_active s = run_active s"
  by (cases s) simp_all

lemma transition_irreflexive: "\<not> valid_transition s s"
  by (cases s) auto

lemma transition_from_active: "valid_transition s t \<Longrightarrow> is_active s"
  by (cases s) auto

text \<open>An event that is not skipped, with what the state becomes.\<close>

definition accepted :: "ext \<Rightarrow> run_state \<Rightarrow> event_envelope \<Rightarrow> run_journal_payload \<Rightarrow> bool" where
  "accepted E st e p \<longleftrightarrow> validate_journal_event E st (ev_sequence e) (ev_kind e) p = Inr ()"

lemma accepted_iff:
  "accepted E st e p \<longleftrightarrow> run_record_validate E (rv_record (jp_run p)) = Inr ()
     \<and> expected_status (ev_kind e) (rv_status (jp_run p)) = Inr (rv_status (jp_run p))
     \<and> ev_sequence e = rs_next_sequence st \<and> run_successor st (ev_kind e) (jp_run p) = Inr () \<and> claim_agrees st p = Inr ()"
  by (auto simp: accepted_def validate_journal_event_def res_simps)

definition claimed :: "run_journal_payload \<Rightarrow> run_state \<Rightarrow> idempotency_key \<rightharpoonup> applied_idempotency" where
  "claimed p st =
     (case jp_idempotency p of
        None \<Rightarrow> rs_idempotency st
      | Some c \<Rightarrow> (if rs_idempotency st (claim_key (jp_run p) c) = None
          then (rs_idempotency st)(claim_key (jp_run p) c \<mapsto>
            \<lparr>ai_fingerprint = ic_request_fingerprint c, ai_run_id = rv_run_id (jp_run p)\<rparr>)
          else rs_idempotency st))"

definition advanced :: "event_envelope \<Rightarrow> run_journal_payload \<Rightarrow> run_state \<Rightarrow> run_state" where
  "advanced e p st = \<lparr>rs_next_sequence = saturating_add (ev_sequence e) 1,
     rs_runs = bt_insert (rv_run_id (jp_run p)) (jp_run p) (rs_runs st), rs_idempotency = claimed p st\<rparr>"

lemma record_claim_Inr: "claim_agrees st p = Inr () \<Longrightarrow> record_claim p st = Inr (st\<lparr>rs_idempotency := claimed p st\<rparr>)"
  by (auto simp: claim_agrees_def record_claim_def claimed_def demand_def split: option.splits if_splits)

lemma apply_event_Inr:
  "apply_event E C e st = Inr st' \<longleftrightarrow> ev_session_id e = JOURNAL_SESSION \<and> ev_writer_package_id e = JOURNAL_WRITER
     \<and> (\<exists>p. jc_from_value C (ev_payload e) = Some p
          \<and> (if ev_sequence e < rs_next_sequence st then st' = st else accepted E st e p \<and> st' = advanced e p st))"
proof (cases "jc_from_value C (ev_payload e)")
  case None
  then show ?thesis by (auto simp: apply_event_def res_simps)
next
  case (Some p)
  have "record_claim p st = Inr (st\<lparr>rs_idempotency := claimed p st\<rparr>)"
    if "validate_journal_event E st (ev_sequence e) (ev_kind e) p = Inr ()"
    using that record_claim_Inr accepted_iff accepted_def by metis
  then show ?thesis
    by (cases "ev_sequence e < rs_next_sequence st")
       (auto simp: apply_event_def Some res_simps accepted_def advanced_def)
qed

text \<open>The journal is numbered from zero, and the position of a state is the length of what it read.\<close>

definition position_ok :: "event_envelope list \<Rightarrow> run_state \<Rightarrow> bool" where
  "position_ok es st \<longleftrightarrow> map unat (map ev_sequence es) = [0..<length es] \<and> length es \<le> 2 ^ 64
     \<and> unat (rs_next_sequence st) = min (length es) (2 ^ 64 - 1)"

lemma replays_position: "replays E C es st \<Longrightarrow> position_ok es st"
proof (induction rule: replays_induct)
  case Nil
  then show ?case by (simp add: position_ok_def run_state_default_def)
next
  case (snoc es e st st')
  let ?n = "length es"
  have num: "map (unat \<circ> ev_sequence) es = [0..<?n]" and pos: "unat (rs_next_sequence st) = min ?n (2 ^ 64 - 1)"
    using snoc.IH by (auto simp: position_ok_def)
  have seqs: "unat ` ev_sequence ` set es = {0..<?n}"
    using arg_cong [OF num, of set] by (simp add: image_comp)
  have new: "unat (ev_sequence e) \<notin> {0..<?n}"
    using snoc.hyps(2) by (auto simp flip: seqs dest: unsigned_word_eqI)
  then have ge: "?n \<le> unat (ev_sequence e)" by simp
  then have "rs_next_sequence st \<le> ev_sequence e" using pos by (simp add: word_le_nat_alt)
  then have seq: "ev_sequence e = rs_next_sequence st" and next_seq: "rs_next_sequence st' = saturating_add (ev_sequence e) 1"
    using snoc.hyps(3) by (auto simp: apply_event_Inr accepted_iff advanced_def split: if_splits)
  have n: "unat (ev_sequence e) = ?n" "?n < 2 ^ 64"
    using ge pos seq unsigned_less [of "ev_sequence e", where ?'a = nat] by auto
  then show ?case
    using num by (simp add: position_ok_def next_seq unat_saturating_add comp_def)
qed

lemma not_skipped:
  assumes "replays E C es st" "ev_sequence e \<notin> ev_sequence ` set es"
  shows "\<not> ev_sequence e < rs_next_sequence st"
proof
  assume less: "ev_sequence e < rs_next_sequence st"
  have "position_ok es st" by (rule replays_position [OF assms(1)])
  then have "map (unat \<circ> ev_sequence) es = [0..<length es]" "unat (ev_sequence e) < length es"
    using less by (auto simp: position_ok_def word_less_nat_alt)
  then have "unat (ev_sequence e) \<in> unat ` ev_sequence ` set es"
    using arg_cong [of _ _ set] by (metis atLeastLessThan_iff image_comp image_set le0 set_upt)
  then show False using assms(2) by (auto dest: unsigned_word_eqI)
qed

lemma replays_accepted:
  assumes "replays E C es st" "ev_sequence e \<notin> ev_sequence ` set es" "apply_event E C e st = Inr st'"
  obtains p where "jc_from_value C (ev_payload e) = Some p" "accepted E st e p" "st' = advanced e p st"
  using assms(3) not_skipped [OF assms(1,2)] by (auto simp: apply_event_Inr split: if_splits)

section \<open>The invariant of a state\<close>

definition run_state_ok :: "ext \<Rightarrow> run_state \<Rightarrow> bool" where
  "run_state_ok E st \<longleftrightarrow> bt_wf (rs_runs st)
     \<and> (\<forall>i v. bt_get (rs_runs st) i = Some v \<longrightarrow> rv_run_id v = i \<and> run_record_validate E (rv_record v) = Inr ())
     \<and> (\<forall>i v j w. bt_get (rs_runs st) i = Some v \<and> bt_get (rs_runs st) j = Some w
          \<and> rv_installation_id v = rv_installation_id w \<and> is_active (rv_status v) \<and> is_active (rv_status w) \<longrightarrow> i = j)
     \<and> (\<forall>i op h a. rs_idempotency st (i, op, h) = Some a \<longrightarrow>
          (\<exists>v. bt_get (rs_runs st) (ai_run_id a) = Some v \<and> rv_installation_id v = i))"

lemma run_state_okD:
  assumes "run_state_ok E st"
  shows "bt_wf (rs_runs st)"
    and "bt_get (rs_runs st) i = Some v \<Longrightarrow> rv_run_id v = i"
    and "bt_get (rs_runs st) i = Some v \<Longrightarrow> run_record_validate E (rv_record v) = Inr ()"
    and "bt_get (rs_runs st) i = Some v \<Longrightarrow> bt_get (rs_runs st) j = Some w \<Longrightarrow> rv_installation_id v = rv_installation_id w
      \<Longrightarrow> is_active (rv_status v) \<Longrightarrow> is_active (rv_status w) \<Longrightarrow> i = j"
    and "rs_idempotency st (inst, op, h) = Some a \<Longrightarrow>
      \<exists>v. bt_get (rs_runs st) (ai_run_id a) = Some v \<and> rv_installation_id v = inst"
  using assms unfolding run_state_ok_def by (simp, blast, blast, metis, metis)

lemma run_state_okI:
  assumes "bt_wf (rs_runs st)"
    and "\<And>i v. bt_get (rs_runs st) i = Some v \<Longrightarrow> rv_run_id v = i \<and> run_record_validate E (rv_record v) = Inr ()"
    and "\<And>i v j w. bt_get (rs_runs st) i = Some v \<Longrightarrow> bt_get (rs_runs st) j = Some w \<Longrightarrow> rv_installation_id v = rv_installation_id w
      \<Longrightarrow> is_active (rv_status v) \<Longrightarrow> is_active (rv_status w) \<Longrightarrow> i = j"
    and "\<And>i op h a. rs_idempotency st (i, op, h) = Some a \<Longrightarrow>
      \<exists>v. bt_get (rs_runs st) (ai_run_id a) = Some v \<and> rv_installation_id v = i"
  shows "run_state_ok E st"
  unfolding run_state_ok_def using assms(1,2) by (intro conjI allI impI) (simp_all add: assms(3,4))

lemma list_ex_values:
  "bt_wf m \<Longrightarrow> list_ex (\<lambda>(_, v). P v) m \<longleftrightarrow> (\<exists>k v. bt_get m k = Some v \<and> P v)"
  by (auto simp: list_ex_iff bt_get_mem)

lemma run_successor_Inr:
  assumes "bt_wf (rs_runs st)"
  shows "run_successor st kind v = Inr () \<longleftrightarrow>
    (case bt_get (rs_runs st) (rv_run_id v) of
       Some w \<Rightarrow> rv_installation_id w = rv_installation_id v \<and> rv_installation_revision w = rv_installation_revision v
         \<and> rv_entrypoint_id w = rv_entrypoint_id v \<and> rv_revision v = saturating_add (rv_revision w) 1
         \<and> valid_transition (rv_status w) (rv_status v)
     | None \<Rightarrow> kind = EVENT_RUN_STARTING \<and> rv_revision v = 1
         \<and> (\<forall>j w. bt_get (rs_runs st) j = Some w \<and> rv_installation_id w = rv_installation_id v \<longrightarrow> \<not> is_active (rv_status w)))"
  using list_ex_values [OF assms, of "\<lambda>w. rv_installation_id w = rv_installation_id v \<and> is_active (rv_status w)"]
  by (auto simp: run_successor_def ensure_valid_transition_def res_simps split: option.splits)

lemma run_state_ok_default: "run_state_ok E run_state_default"
  by (simp add: run_state_ok_def run_state_default_def bt_wf_def)

lemma run_state_ok_advanced:
  assumes ok: "run_state_ok E st" and acc: "accepted E st e p"
  shows "run_state_ok E (advanced e p st)"
proof -
  let ?v = "jp_run p" and ?runs = "rs_runs st"
  have wf: "bt_wf ?runs" using ok by (simp add: run_state_ok_def)
  have succ: "case bt_get ?runs (rv_run_id ?v) of
       Some w \<Rightarrow> rv_installation_id w = rv_installation_id ?v \<and> rv_installation_revision w = rv_installation_revision ?v
         \<and> rv_entrypoint_id w = rv_entrypoint_id ?v \<and> rv_revision ?v = saturating_add (rv_revision w) 1
         \<and> valid_transition (rv_status w) (rv_status ?v)
     | None \<Rightarrow> ev_kind e = EVENT_RUN_STARTING \<and> rv_revision ?v = 1
         \<and> (\<forall>j w. bt_get ?runs j = Some w \<and> rv_installation_id w = rv_installation_id ?v \<longrightarrow> \<not> is_active (rv_status w))"
    and valid: "run_record_validate E (rv_record ?v) = Inr ()"
    using acc run_successor_Inr [OF wf] by (auto simp: accepted_iff)
  have single: "i = rv_run_id ?v" if "bt_get ?runs i = Some w" "rv_installation_id w = rv_installation_id ?v"
      "is_active (rv_status w)" for i w
  proof (cases "bt_get ?runs (rv_run_id ?v)")
    case None
    then show ?thesis using succ that by auto
  next
    case (Some u)
    then show ?thesis
      using succ that transition_from_active [of "rv_status u" "rv_status ?v"] run_state_okD(4) [OF ok that(1) Some] by simp
  qed
  have claims: "\<exists>v. bt_get (bt_insert (rv_run_id ?v) ?v ?runs) (ai_run_id a) = Some v \<and> rv_installation_id v = i"
    if "claimed p st (i, op, h) = Some a" for i op h a
  proof (cases "rs_idempotency st (i, op, h) = Some a")
    case True
    then obtain v where "bt_get ?runs (ai_run_id a) = Some v" "rv_installation_id v = i"
      using run_state_okD(5) [OF ok] by blast
    then show ?thesis using succ by (cases "ai_run_id a = rv_run_id ?v") (auto simp: bt_get_insert)
  next
    case False
    then have "ai_run_id a = rv_run_id ?v" "i = rv_installation_id ?v"
      using that by (auto simp: claimed_def claim_key_def split: option.splits if_splits)
    then show ?thesis by (simp add: bt_get_insert)
  qed
  show ?thesis
  proof (rule run_state_okI; unfold advanced_def run_state.simps)
    show "bt_wf (bt_insert (rv_run_id ?v) ?v ?runs)" using wf by (rule bt_wf_insert)
  next
    fix i w assume "bt_get (bt_insert (rv_run_id ?v) ?v ?runs) i = Some w"
    then show "rv_run_id w = i \<and> run_record_validate E (rv_record w) = Inr ()"
      using valid run_state_okD(2,3) [OF ok, of i w]
      by (cases "i = rv_run_id ?v") (simp_all add: bt_get_insert)
  next
    fix i u j w
    assume i: "bt_get (bt_insert (rv_run_id ?v) ?v ?runs) i = Some u"
      and j: "bt_get (bt_insert (rv_run_id ?v) ?v ?runs) j = Some w"
      and same: "rv_installation_id u = rv_installation_id w" "is_active (rv_status u)" "is_active (rv_status w)"
    have old: "k \<noteq> rv_run_id ?v \<Longrightarrow> bt_get ?runs k = bt_get (bt_insert (rv_run_id ?v) ?v ?runs) k" for k
      by (simp add: bt_get_insert)
    have new: "bt_get (bt_insert (rv_run_id ?v) ?v ?runs) (rv_run_id ?v) = Some ?v" by (simp add: bt_get_insert)
    consider "i = j" | "i \<noteq> rv_run_id ?v" "j \<noteq> rv_run_id ?v" | "i = rv_run_id ?v" "j \<noteq> rv_run_id ?v"
      | "i \<noteq> rv_run_id ?v" "j = rv_run_id ?v" by blast
    then show "i = j"
    proof cases
      case 2
      show ?thesis by (rule run_state_okD(4) [OF ok trans [OF old [OF 2(1)] i] trans [OF old [OF 2(2)] j] same])
    next
      case 3
      have "u = ?v" using i new unfolding 3(1) by (rule option.inject [THEN iffD1, OF trans [OF sym]])
      then have "j = rv_run_id ?v" using same by (intro single [OF trans [OF old [OF 3(2)] j]]) simp_all
      then show ?thesis using 3(2) by contradiction
    next
      case 4
      have "w = ?v" using j new unfolding 4(2) by (rule option.inject [THEN iffD1, OF trans [OF sym]])
      then have "i = rv_run_id ?v" using same by (intro single [OF trans [OF old [OF 4(1)] i]]) simp_all
      then show ?thesis using 4(1) by contradiction
    qed
  qed (rule claims)
qed

lemma replays_ok: "replays E C es st \<Longrightarrow> run_state_ok E st"
proof (induction rule: replays_induct)
  case (snoc es e st st')
  then obtain p where "accepted E st e p" "st' = advanced e p st" by (elim replays_accepted)
  then show ?case using run_state_ok_advanced snoc.IH by blast
qed (rule run_state_ok_default)

section \<open>Growth of the journal\<close>

definition run_grows :: "run_view \<Rightarrow> run_view \<Rightarrow> bool" where
  "run_grows v w \<longleftrightarrow> rv_run_id w = rv_run_id v \<and> rv_installation_id w = rv_installation_id v
     \<and> rv_installation_revision w = rv_installation_revision v \<and> rv_entrypoint_id w = rv_entrypoint_id v
     \<and> rv_revision v \<le> rv_revision w \<and> valid_transition\<^sup>*\<^sup>* (rv_status v) (rv_status w)
     \<and> (\<not> is_active (rv_status v) \<longrightarrow> w = v)"

definition state_grows :: "run_state \<Rightarrow> run_state \<Rightarrow> bool" where
  "state_grows st st' \<longleftrightarrow>
     (\<forall>i v. bt_get (rs_runs st) i = Some v \<longrightarrow> (\<exists>w. bt_get (rs_runs st') i = Some w \<and> run_grows v w))
     \<and> rs_idempotency st \<subseteq>\<^sub>m rs_idempotency st'"

lemma run_grows_refl [simp]: "run_grows v v"
  by (simp add: run_grows_def)

lemma run_grows_trans: "run_grows u v \<Longrightarrow> run_grows v w \<Longrightarrow> run_grows u w"
  by (auto simp: run_grows_def)

lemma state_grows_refl [simp]: "state_grows st st"
  by (auto simp: state_grows_def)

lemma state_grows_trans: "state_grows a b \<Longrightarrow> state_grows b c \<Longrightarrow> state_grows a c"
  unfolding state_grows_def by (meson map_le_trans run_grows_trans)

lemma saturating_succ_ge: "v \<le> saturating_add v 1" for v :: u64
  using unsigned_less [of v, where ?'a = nat] by (simp add: word_le_nat_alt unat_saturating_add)

lemma claimed_le: "rs_idempotency st \<subseteq>\<^sub>m claimed p st"
  by (auto simp: claimed_def map_le_def split: option.splits)

lemma advanced_grows:
  assumes ok: "run_state_ok E st" and acc: "accepted E st e p"
  shows "state_grows st (advanced e p st)"
proof -
  let ?v = "jp_run p"
  have wf: "bt_wf (rs_runs st)" using ok by (simp add: run_state_ok_def)
  have "run_grows w ?v" if "bt_get (rs_runs st) (rv_run_id ?v) = Some w" for w
  proof -
    have w: "rv_run_id w = rv_run_id ?v" using run_state_okD(2) [OF ok that] .
    have "run_successor st (ev_kind e) ?v = Inr ()" using acc by (simp add: accepted_iff)
    then show ?thesis
      using w that transition_from_active [of "rv_status w"] saturating_succ_ge [of "rv_revision w"]
      by (auto simp: run_successor_Inr [OF wf] run_grows_def)
  qed
  then show ?thesis using claimed_le by (auto simp: state_grows_def advanced_def bt_get_insert)
qed

lemma replays_grows:
  assumes "replays E C (es @ es') st'" "replays E C es st"
  shows "state_grows st st'"
  using assms(1)
proof (induction es' arbitrary: st' rule: rev_induct)
  case Nil
  then show ?case using replays_unique [OF _ assms(2)] by auto
next
  case (snoc e es')
  then obtain st1 where st1: "replays E C (es @ es') st1" "ev_sequence e \<notin> ev_sequence ` set (es @ es')"
      "apply_event E C e st1 = Inr st'"
    by (auto simp flip: append_assoc simp: replays_snoc)
  then obtain p where "accepted E st1 e p" "st' = advanced e p st1" by (elim replays_accepted)
  then have "state_grows st1 st'" using advanced_grows replays_ok [OF st1(1)] by blast
  then show ?case using snoc.IH [OF st1(1)] state_grows_trans by blast
qed

end
