(* ===== verification/Run_Store.thy ===== *)
theory Run_Store
  imports Run_Replay
begin

text \<open>
  A journal shared by several hosts. The locale \<open>run_store\<close> is what a registry may rely on when
  other hosts use the same store: the log only grows, and whoever extends the journal keeps it
  replayable. Inside it \<open>sync_journal\<close> and \<open>append_after_guards\<close> are shown to keep that promise in turn,
  so that hosts may be composed. It is interpreted on the specification of the event spine with
  arbitrary interference between any two calls.
\<close>

section \<open>Prefixes of the journal\<close>

definition journal_env :: "ext \<Rightarrow> journal_codec \<Rightarrow> event_envelope list \<Rightarrow> event_envelope list \<Rightarrow> bool" where
  "journal_env E C l l' \<longleftrightarrow> (\<exists>es. l' = l @ es) \<and> (journal_ok E C l \<longrightarrow> journal_ok E C l')"

lemma journal_env_refl [simp]: "journal_env E C l l"
  by (simp add: journal_env_def)

lemma journal_env_trans: "journal_env E C a b \<Longrightarrow> journal_env E C b c \<Longrightarrow> journal_env E C a c"
  by (auto simp: journal_env_def)

lemma nth_numbered:
  assumes "map unat (map ev_sequence es) = [0..<length es]" "k < length es"
  shows "unat (ev_sequence (es ! k)) = k"
  using arg_cong [OF assms(1), of "\<lambda>xs. xs ! k"] assms(2) by simp

lemma journal_numbered: "replays E C es st \<Longrightarrow> map unat (map ev_sequence es) = [0..<length es]"
  using replays_position [of E C es st] by (simp add: position_ok_def)

lemma journal_prefix:
  assumes "journal_ok E C l" "journal_ok E C (l @ es)"
  shows "\<exists>es'. journal (l @ es) = journal l @ es'"
proof -
  let ?a = "journal l" and ?b = "journal (l @ es)"
  obtain st st' where st: "replays E C ?a st" and st': "replays E C ?b st'"
    using assms by (auto simp: journal_ok_def)
  note na = journal_numbered [OF st] and nb = journal_numbered [OF st']
  have sub: "set ?a \<subseteq> set ?b" by auto
  have same: "k < length ?b \<and> ?b ! k = ?a ! k" if k: "k < length ?a" for k
  proof -
    have "?a ! k \<in> set ?b" using sub k nth_mem by blast
    then obtain j where j: "j < length ?b" "?b ! j = ?a ! k" unfolding in_set_conv_nth by blast
    have "j = k" using nth_numbered [OF nb j(1)] nth_numbered [OF na k] j(2) by simp
    with j show ?thesis by simp
  qed
  have len: "length ?a \<le> length ?b"
    using same by (metis leI le_refl not_less_iff_gr_or_eq nat_less_le)
  have "take (length ?a) ?b = ?a"
    by (rule nth_equalityI) (use same len in simp_all)
  then show ?thesis by (metis append_take_drop_id)
qed

lemma tracks_env:
  assumes "journal_ok E C l" "journal_env E C l l'" "tracks E C l st"
  shows "journal_ok E C l' \<and> tracks E C l' st"
proof -
  obtain es where es: "l' = l @ es" and ok: "journal_ok E C l'" using assms(1,2) by (auto simp: journal_env_def)
  obtain es' where "journal l' = journal l @ es'" using journal_prefix [OF assms(1)] ok es by blast
  then show ?thesis using ok assms(3) unfolding tracks_def by (metis append_assoc)
qed

lemma tracks_full: "replays E C (journal l) st \<Longrightarrow> tracks E C l st"
  by (auto simp: tracks_def intro: exI [of _ "[]"])

section \<open>Reading a page\<close>

lemma apply_events_replay:
  assumes "replays E C es st" "replays E C (es @ xs) st'"
  shows "apply_events E C xs n st = (Inr (n + length xs), st')"
  using assms
proof (induction xs arbitrary: es st n)
  case Nil
  then show ?case using replays_unique by fastforce
next
  case (Cons x xs)
  have more: "replays E C ((es @ [x]) @ xs) st'" using Cons.prems(2) by simp
  then obtain st1 where st1: "replays E C (es @ [x]) st1" using replays_prefix by blast
  then have "apply_event E C x st = Inr st1" using Cons.prems(1) replays_unique by (fastforce simp: replays_snoc)
  then show ?case using Cons.IH [OF st1 more] by simp
qed

text \<open>At the last sequence number the position of a state stays put; the event read again is refused.\<close>

lemma reapply_refused:
  assumes "replays E C (es @ [e]) st" "length es = 2 ^ 64 - 1"
  shows "\<exists>err. apply_event E C e st = Inl err"
proof -
  obtain st0 where st0: "replays E C es st0" "ev_sequence e \<notin> ev_sequence ` set es" "apply_event E C e st0 = Inr st"
    using assms(1) by (auto simp: replays_snoc)
  then obtain p where p: "jc_from_value C (ev_payload e) = Some p" "st = advanced e p st0"
    by (elim replays_accepted)
  have "\<not> accepted E st e p"
  proof
    assume "accepted E st e p"
    then have "run_successor st (ev_kind e) (jp_run p) = Inr ()" by (simp add: accepted_iff)
    then show False
      using transition_irreflexive
      by (simp add: run_successor_def p(2) advanced_def bt_get_insert ensure_valid_transition_def res_simps)
  qed
  moreover have "unat (rs_next_sequence st) = min (length (es @ [e])) (2 ^ 64 - 1)"
    using replays_position [OF assms(1)] by (simp only: position_ok_def)
  moreover have "unat (ev_sequence e) = length es"
    using nth_numbered [OF journal_numbered [OF assms(1)], of "length es"] by simp
  ultimately have "\<not> accepted E st e p" and "unat (ev_sequence e) = unat (rs_next_sequence st)"
    using assms(2) by simp_all
  moreover from this(2) have "\<not> ev_sequence e < rs_next_sequence st" by (simp add: word_less_nat_alt)
  ultimately have "apply_event E C e st \<noteq> Inr s" for s using p(1) by (simp add: apply_event_Inr)
  then show ?thesis by (cases "apply_event E C e st") auto
qed

lemma journal_range:
  assumes "journal log = es @ es'" "replays E C es st" "replays E C (es @ es') st'"
  shows "if length es < 2 ^ 64 then spine_range JOURNAL_SESSION (checked_sub_one (rs_next_sequence st)) log = es'
    else \<exists>e err. spine_range JOURNAL_SESSION (checked_sub_one (rs_next_sequence st)) log = [e] \<and> apply_event E C e st = Inl err"
proof -
  let ?next = "rs_next_sequence st" and ?k = "length es"
  have pos: "unat ?next = min ?k (2 ^ 64 - 1)" and num: "map unat (map ev_sequence (es @ es')) = [0..<length (es @ es')]"
    and len: "length (es @ es') \<le> 2 ^ 64"
    using replays_position [OF assms(2)] replays_position [OF assms(3)] by (auto simp: position_ok_def)
  have seq: "unat (ev_sequence ((es @ es') ! j)) = j" if "j < length (es @ es')" for j
    by (rule nth_numbered [OF num that])
  have low: "unat (ev_sequence e) < ?k" if mem: "e \<in> set es" for e
  proof -
    obtain j where "j < ?k" "es ! j = e" using mem by (auto simp: in_set_conv_nth)
    then show ?thesis using seq [of j] by (simp add: nth_append)
  qed
  have high: "?k \<le> unat (ev_sequence e)" if mem: "e \<in> set es'" for e
  proof -
    obtain j where "j < length es'" "es' ! j = e" using mem by (auto simp: in_set_conv_nth)
    then show ?thesis using seq [of "?k + j"] by (simp add: nth_append)
  qed
  show ?thesis
  proof (cases "?next = 0")
    case True
    then have "es = []" using pos by (cases es) auto
    then show ?thesis using True assms(1) by (simp add: checked_sub_one_def)
  next
    case False
    then have pred: "unat (?next - 1) = unat ?next - 1" by (simp add: unat_minus_one)
    have range: "spine_range JOURNAL_SESSION (checked_sub_one ?next) log =
        filter (\<lambda>e. unat ?next - 1 < unat (ev_sequence e)) es @ filter (\<lambda>e. unat ?next - 1 < unat (ev_sequence e)) es'"
      using False by (simp add: spine_range_def checked_sub_one_def assms(1) word_less_nat_alt pred)
    show ?thesis
    proof (cases "?k < 2 ^ 64")
      case True
      then have "unat ?next = ?k" "0 < ?k" using pos False by (auto simp: unat_eq_0)
      then have "filter (\<lambda>e. unat ?next - 1 < unat (ev_sequence e)) es = []"
        using low by (fastforce simp: filter_empty_conv)
      moreover have "unat ?next - 1 < unat (ev_sequence x)" if "x \<in> set es'" for x
        using high [OF that] \<open>unat ?next = ?k\<close> \<open>0 < ?k\<close> by linarith
      then have "filter (\<lambda>e. unat ?next - 1 < unat (ev_sequence e)) es' = es'" by (intro filter_True) blast
      ultimately show ?thesis using range True by simp
    next
      case boundary: False
      have sum: "?k + length es' \<le> 2 ^ 64" using len by simp
      then have k: "?k = 2 ^ 64" "length es' = 0" using boundary by linarith+
      then have full: "?k = 2 ^ 64" "es' = []" "unat ?next = 2 ^ 64 - 1" using pos by simp_all
      then obtain es0 e where es: "es = es0 @ [e]" by (cases es rule: rev_cases) auto
      have l0: "length es0 = 2 ^ 64 - 1" using full(1) es by simp
      have "unat (ev_sequence e) = length es0" using seq [of "length es0"] es by simp
      then have "unat (ev_sequence e) = 2 ^ 64 - 1" using l0 by simp
      moreover have "unat (ev_sequence x) < 2 ^ 64 - 1" if mem: "x \<in> set es0" for x
      proof -
        obtain j where "j < length es0" "es0 ! j = x" using mem by (auto simp: in_set_conv_nth)
        then show ?thesis using seq [of j] es l0 by (simp add: nth_append)
      qed
      then have "filter (\<lambda>x. 2 ^ 64 - 2 < unat (ev_sequence x)) es0 = []" by (fastforce simp: filter_empty_conv)
      ultimately have "spine_range JOURNAL_SESSION (checked_sub_one ?next) log = [e]"
        using range full es by simp
      moreover have "\<exists>err. apply_event E C e st = Inl err"
        using reapply_refused [of E C es0 e st] assms(2) es l0 by simp
      ultimately show ?thesis using boundary by simp
    qed
  qed
qed

section \<open>Extending the journal\<close>

lemma cas_reads_all:
  assumes "journal_ok E C l" "tracks E C l st" "spine_next JOURNAL_SESSION l = Inr (rs_next_sequence st)"
  shows "replays E C (journal l) st"
proof -
  obtain es es' st' where parts: "journal l = es @ es'" "replays E C es st" "replays E C (es @ es') st'"
    using assms(1,2) unfolding tracks_def journal_ok_def by metis
  have "es' = []"
  proof (rule ccontr)
    assume "es' \<noteq> []"
    then have here: "length es < length (es @ es')" by simp
    let ?e = "(es @ es') ! length es"
    have "?e \<in> set (journal l)" using nth_mem [OF here] parts(1) by simp
    then have "ev_sequence ?e < rs_next_sequence st" by (intro spine_next_above [OF assms(3)]) auto
    moreover have "unat (ev_sequence ?e) = length es" by (rule nth_numbered [OF journal_numbered [OF parts(3)] here])
    moreover have "unat (rs_next_sequence st) \<le> length es"
      using replays_position [OF parts(2)] by (simp add: position_ok_def)
    ultimately show False by (simp add: word_less_nat_alt)
  qed
  with parts show ?thesis by simp
qed

lemma cas_appends:
  assumes "journal_ok E C l" "tracks E C l st" "codec_ok C"
    and call: "spine_step (Append_If_Next JOURNAL_SESSION (rs_next_sequence st) (journal_draft C stamp kind p)) l = (Appended e, l')"
    and valid: "validate_journal_event E st (rs_next_sequence st) kind p = Inr ()"
  shows "replays E C (journal l) st" and "journal l' = journal l @ [e]" and "accepted E st e p" and "ev_kind e = kind"
    and "apply_event E C e st = Inr (advanced e p st)" and "replays E C (journal l') (advanced e p st)"
    and "journal_ok E C l'" and "\<exists>es. l' = l @ es"
proof -
  let ?next = "rs_next_sequence st" and ?d = "journal_draft C stamp kind p"
  have e: "e = envelope JOURNAL_SESSION ?next ?d" and grown: "spine_append e l = Inr l'"
    and seq: "spine_next JOURNAL_SESSION l = Inr ?next"
    using call by (auto simp: spine_put_def split: sum.splits if_splits)
  have l': "l' = l @ [e]" using grown by (auto simp: spine_append_def split: if_splits)
  show all: "replays E C (journal l) st" by (rule cas_reads_all [OF assms(1,2) seq])
  have fields: "ev_session_id e = JOURNAL_SESSION" "ev_sequence e = ?next" "ev_kind e = kind"
      "ev_writer_package_id e = JOURNAL_WRITER" "ev_payload e = jc_to_value C p"
    by (simp_all add: e envelope_def journal_draft_def)
  have sok: "spine_ok l'" using spine_append_ok [OF _ grown] assms(1) by (simp add: journal_ok_def)
  have "\<forall>x\<in>set l. ev_session_id x = ev_session_id e \<longrightarrow> ev_sequence x \<le> ev_sequence e"
    using spine_next_above [OF seq] fields(1,2) by (auto intro: less_imp_le)
  then show new: "journal l' = journal l @ [e]" using session_log_append_last [of l e] sok l' fields(1) by simp
  show acc: "accepted E st e p" using valid by (simp add: accepted_def fields)
  show "ev_kind e = kind" by (rule fields(3))
  show applied: "apply_event E C e st = Inr (advanced e p st)"
    using acc assms(3) by (simp add: apply_event_Inr fields codec_ok_def)
  have "ev_sequence e \<notin> ev_sequence ` set (journal l)"
  proof
    assume "ev_sequence e \<in> ev_sequence ` set (journal l)"
    then obtain x where "x \<in> set l" "ev_session_id x = JOURNAL_SESSION" "ev_sequence x = ev_sequence e" by auto
    then show False using spine_next_above [OF seq, of x] fields(2) by simp
  qed
  then show full: "replays E C (journal l') (advanced e p st)"
    using all applied unfolding new replays_snoc by blast
  show "journal_ok E C l'" using full sok by (auto simp: journal_ok_def)
  show "\<exists>es. l' = l @ es" using l' by blast
qed

lemma cas_refused:
  assumes "spine_step (Append_If_Next s n d) l = (answer, l')" "\<nexists>e. answer = Appended e"
  shows "l' = l"
  using assms by (auto simp: spine_put_def split: sum.splits if_splits)

section \<open>The contract\<close>

locale run_store =
  fixes E :: ext and C :: journal_codec
    and log :: "'s \<Rightarrow> event_envelope list"
    and step :: "'s event_store"
  assumes read_log: "step (List_Session_Range s a (Some n)) st = (answer, st') \<Longrightarrow>
      journal_env E C (log st) (log st')
      \<and> (answer = Refused \<or> answer = Events (take n (spine_range s a (log st'))))"
    and cas_log: "step (Append_If_Next s expected d) st = (answer, st') \<Longrightarrow>
      \<exists>l. journal_env E C (log st) l
        \<and> (answer = Refused \<and> log st' = l \<or> (answer, log st') = spine_step (Append_If_Next s expected d) l)"
begin

abbreviation ok :: "run_state \<Rightarrow> 's \<Rightarrow> bool" where
  "ok st store \<equiv> journal_ok E C (log store) \<and> tracks E C (log store) st"

lemma page_cases:
  assumes "ok st store" "step (journal_page st) store = (answer, store')"
  obtains (refused) "answer = Refused" "journal_env E C (log store) (log store')" "ok st store'"
  | (page) es es' st' where "journal_env E C (log store) (log store')" "ok st store'"
      "journal (log store') = es @ es'" "replays E C es st" "replays E C (es @ es') st'"
      "answer = Events (take JOURNAL_PAGE es')"
  | (stuck) e err where "journal_env E C (log store) (log store')" "ok st store'" "answer = Events [e]"
      "apply_event E C e st = Inl err"
proof -
  have env: "journal_env E C (log store) (log store')"
    and answer: "answer = Refused \<or> answer = Events (take JOURNAL_PAGE
      (spine_range JOURNAL_SESSION (checked_sub_one (rs_next_sequence st)) (log store')))"
    using read_log assms(2) unfolding journal_page_def by blast+
  have ok': "ok st store'" using tracks_env [OF _ env] assms(1) by blast
  then obtain es es' st' where parts: "journal (log store') = es @ es'" "replays E C es st" "replays E C (es @ es') st'"
    unfolding tracks_def journal_ok_def by metis
  show thesis
  proof (cases "answer = Refused")
    case True
    then show ?thesis using refused env ok' by blast
  next
    case False
    note range = journal_range [OF parts]
    show ?thesis
    proof (cases "length es < 2 ^ 64")
      case True
      then show ?thesis using page [OF env ok' parts] range answer False by simp
    next
      case False
      then show ?thesis
        using stuck [OF env ok'] range answer \<open>answer \<noteq> Refused\<close> by (auto simp: JOURNAL_PAGE_def)
    qed
  qed
qed

lemma tracks_grows:
  assumes "journal_ok E C l" "journal l = es @ es'" "replays E C es st" "replays E C (es @ xs) st'" "es' = xs @ ys"
  shows "tracks E C l st'" "state_grows st st'"
  using assms replays_grows [OF assms(4,3)] unfolding tracks_def by (metis append_assoc, blast)

lemma sync_loop_sound:
  assumes "sync_loop E C step n st store = Some (r, st', store')" "ok st store"
  shows "journal_env E C (log store) (log store') \<and> ok st' store' \<and> state_grows st st'
    \<and> (\<forall>m. r = Inr m \<longrightarrow> replays E C (journal (log store')) st')"
proof -
  define good where "good st store st' store' r \<longleftrightarrow> journal_env E C (log store) (log store') \<and> ok st' store' \<and> state_grows st st'
    \<and> (\<forall>m. r = Inr m \<longrightarrow> replays E C (journal (log store')) st')"
    for st st' :: run_state and store store' :: 's and r :: "nat run_result"
  define goal where "goal E0 C0 step0 (n :: nat) st store y \<longleftrightarrow> (E0 = E \<and> C0 = C \<and> step0 = step \<and> ok st store
    \<longrightarrow> good st store (fst (snd y)) (snd (snd y)) (fst y))"
    for E0 :: ext and C0 :: journal_codec and step0 :: "'s event_store" and n st store y
  have "goal E C step n st store (r, st', store')"
  proof (rule sync_loop.raw_induct [where P = goal, OF _ assms(1)])
    fix loop E0 C0 step0 n st store y
    assume 1: "\<And>E C step n st store y. loop E C step n st store = Some y \<Longrightarrow> goal E C step n st store y"
      "(case step0 (journal_page st) store of (answer, store') \<Rightarrow>
       (case answer of
          Events events \<Rightarrow>
            if events = [] then Some (Inr n, st, store')
            else (case apply_events E0 C0 events n st of (r, st') \<Rightarrow>
              (case r of
                 Inl e \<Rightarrow> Some (Inl e, st', store')
               | Inr loaded' \<Rightarrow>
                   if length events < JOURNAL_PAGE then Some (Inr loaded', st', store')
                   else loop E0 C0 step0 loaded' st' store'))
        | _ \<Rightarrow> Some (Inl RunStoreFailed, st, store'))) = Some y"
    show "goal E0 C0 step0 n st store y"
      unfolding goal_def
    proof (intro impI, elim conjE)
      assume inst: "E0 = E" "C0 = C" "step0 = step" and okj: "journal_ok E C (log store)" and okt: "tracks E C (log store) st"
      obtain answer store1 where call: "step (journal_page st) store = (answer, store1)" by force
      have ok0: "ok st store" using okj okt by blast
      show "good st store (fst (snd y)) (snd (snd y)) (fst y)"
      proof (cases rule: page_cases [OF ok0 call])
        case refused: 1
        then show ?thesis using 1(2) call by (auto simp: inst good_def)
      next
        case (3 e err)
        then show ?thesis using 1(2) call by (auto simp: inst good_def)
      next
        case page: (2 es es' st1)
        let ?xs = "take JOURNAL_PAGE es'"
        show ?thesis
        proof (cases "es' = []")
          case True
          then show ?thesis using 1(2) call page by (auto simp: inst good_def)
        next
          case False
          then have ne: "?xs \<noteq> []" by (simp add: JOURNAL_PAGE_def)
          have "es @ es' = (es @ ?xs) @ drop JOURNAL_PAGE es'" by simp
          then obtain st2 where st2: "replays E C (es @ ?xs) st2" using page(5) replays_prefix by metis
          have run: "apply_events E C ?xs n st = (Inr (n + length ?xs), st2)"
            by (rule apply_events_replay [OF page(4) st2])
          have grows: "tracks E C (log store1) st2" "state_grows st st2"
            using tracks_grows [OF _ page(3,4) st2, of "drop JOURNAL_PAGE es'"] page(2) by simp_all
          show ?thesis
          proof (cases "length ?xs < JOURNAL_PAGE")
            case True
            then have "?xs = es'" by simp
            then show ?thesis using 1(2) call page ne run True grows st2 by (auto simp: inst good_def)
          next
            case False
            then have "loop E C step (n + length ?xs) st2 store1 = Some y"
              using 1(2) call page ne run by (simp add: inst)
            then have "good st2 store1 (fst (snd y)) (snd (snd y)) (fst y)"
              using 1(1) grows page(2) unfolding goal_def by blast
            then show ?thesis
              using page(1) grows(2) journal_env_trans state_grows_trans unfolding good_def by blast
          qed
        qed
      qed
    qed
  qed
  then show ?thesis using assms(2) by (simp add: goal_def good_def)
qed

lemma sync_sound:
  assumes "sync_journal E C step st store = Some (r, st', store')" "ok st store"
  shows "journal_env E C (log store) (log store')" and "ok st' store'" and "state_grows st st'"
    and "r = Inr m \<Longrightarrow> replays E C (journal (log store')) st'"
  using sync_loop_sound assms unfolding sync_journal_def by blast+

text \<open>The compare-and-append accepts only a registry that has read the whole journal.\<close>

lemma append_sound:
  assumes "append_after_guards E C step stamp kind p st store = (r, st', store')" "ok st store" and codec: "codec_ok C"
  shows "journal_env E C (log store) (log store')" and "ok st' store'"
    and "r = Inr () \<Longrightarrow> \<exists>e es. journal (log store') = es @ [e] \<and> replays E C es st \<and> accepted E st e p
      \<and> st' = advanced e p st \<and> replays E C (journal (log store')) st' \<and> ev_kind e = kind"
    and "r = Inl err \<Longrightarrow> st' = st"
proof -
  let ?call = "Append_If_Next JOURNAL_SESSION (rs_next_sequence st) (journal_draft C stamp kind p)"
  define sound where "sound \<longleftrightarrow> journal_env E C (log store) (log store') \<and> ok st' store'
    \<and> (r = Inr () \<longrightarrow> (\<exists>e es. journal (log store') = es @ [e] \<and> replays E C es st \<and> accepted E st e p
      \<and> st' = advanced e p st \<and> replays E C (journal (log store')) st' \<and> ev_kind e = kind))
    \<and> (\<forall>err. r = Inl err \<longrightarrow> st' = st)"
  have sound
  proof (cases "validate_journal_event E st (rs_next_sequence st) kind p")
    case (Inl e)
    then have "r = Inl e" "st' = st" "store' = store" using assms(1) by (simp_all add: append_after_guards_def)
    then show ?thesis using assms(2) by (simp add: sound_def)
  next
    case (Inr u)
    obtain answer store1 where call: "step ?call store = (answer, store1)" by force
    obtain l where env: "journal_env E C (log store) l"
      and l: "answer = Refused \<and> log store1 = l \<or> (answer, log store1) = spine_step ?call l"
      using cas_log [OF call] by blast
    have ok1: "journal_ok E C l" "tracks E C l st" using tracks_env [OF _ env] assms(2) by blast+
    show ?thesis
    proof (cases "\<exists>e. answer = Appended e")
      case False
      then have "log store1 = l" using l cas_refused [of JOURNAL_SESSION "rs_next_sequence st" _ l answer "log store1"] by auto
      moreover have "st' = st \<and> store' = store1 \<and> (\<exists>err. r = Inl err)"
        using assms(1) Inr call False by (auto simp: append_after_guards_def split: spine_reply.splits)
      ultimately show ?thesis using env ok1 by (auto simp: sound_def)
    next
      case True
      then obtain e where e: "answer = Appended e" by blast
      then have "spine_step ?call l = (Appended e, log store1)" using l by simp
      from cas_appends [OF ok1 codec this] Inr
      have facts: "replays E C (journal l) st" "journal (log store1) = journal l @ [e]" "accepted E st e p" "ev_kind e = kind"
          "apply_event E C e st = Inr (advanced e p st)" "replays E C (journal (log store1)) (advanced e p st)"
          "journal_ok E C (log store1)" "\<exists>es. log store1 = l @ es" by simp_all
      have "st' = advanced e p st" "store' = store1" "r = Inr ()"
        using assms(1) Inr call e facts(5) by (auto simp: append_after_guards_def)
      moreover have "journal_env E C l (log store1)" using facts(7,8) by (simp add: journal_env_def)
      ultimately show ?thesis
        using facts env journal_env_trans tracks_full unfolding sound_def by blast
    qed
  qed
  then show "journal_env E C (log store) (log store')" and "ok st' store'"
    and "r = Inr () \<Longrightarrow> \<exists>e es. journal (log store') = es @ [e] \<and> replays E C es st \<and> accepted E st e p
      \<and> st' = advanced e p st \<and> replays E C (journal (log store')) st' \<and> ev_kind e = kind"
    and "r = Inl err \<Longrightarrow> st' = st"
    unfolding sound_def by blast+
qed

end

section \<open>A store used by other hosts\<close>

text \<open>Before a call the store may fail, or others may have appended any events after which the
  journal still replays.\<close>

datatype interference = Foreign "event_envelope list" | Store_Failure

definition foreign :: "ext \<Rightarrow> journal_codec \<Rightarrow> event_envelope list \<Rightarrow> event_envelope list \<Rightarrow> event_envelope list" where
  "foreign E C log es = (if journal_ok E C (log @ es) then log @ es else log)"

fun shared_step :: "ext \<Rightarrow> journal_codec \<Rightarrow> (event_envelope list \<times> interference list) event_store" where
  "shared_step E C c (log, []) = apsnd (\<lambda>l. (l, [])) (spine_step c log)"
| "shared_step E C c (log, Store_Failure # script) = (Refused, (log, script))"
| "shared_step E C c (log, Foreign es # script) = apsnd (\<lambda>l. (l, script)) (spine_step c (foreign E C log es))"

lemma foreign_env: "journal_env E C log (foreign E C log es)"
  by (simp add: journal_env_def foreign_def)

lemma shared_step_cases:
  assumes "shared_step E C c (log, script) = (answer, (log', script'))"
  obtains l where "journal_env E C log l" "answer = Refused \<and> log' = l \<or> (answer, log') = spine_step c l"
  using assms
proof (cases script)
  case (Cons i rest)
  then show ?thesis
  proof (cases i)
    case (Foreign es)
    then show ?thesis using that [OF foreign_env [of E C log es]] assms Cons
      by (cases "spine_step c (foreign E C log es)") auto
  next
    case Store_Failure
    then show ?thesis using that [of log] assms Cons by simp
  qed
qed (use that [of log] in \<open>cases "spine_step c log"; simp\<close>)

interpretation shared: run_store E C fst "shared_step E C" for E C
proof
  fix s a n st answer st'
  assume call: "shared_step E C (List_Session_Range s a (Some n)) st = (answer, st')"
  obtain log script log' script' where st: "st = (log, script)" "st' = (log', script')" by force
  from shared_step_cases [OF call [unfolded st]] obtain l where "journal_env E C log l"
    "answer = Refused \<and> log' = l \<or> (answer, log') = spine_step (List_Session_Range s a (Some n)) l" by blast
  then show "journal_env E C (fst st) (fst st')
      \<and> (answer = Refused \<or> answer = Events (take n (spine_range s a (fst st'))))" by (auto simp: st)
next
  fix s expected d st answer st'
  assume call: "shared_step E C (Append_If_Next s expected d) st = (answer, st')"
  obtain log script log' script' where st: "st = (log, script)" "st' = (log', script')" by force
  from shared_step_cases [OF call [unfolded st]]
  show "\<exists>l. journal_env E C (fst st) l
      \<and> (answer = Refused \<and> fst st' = l \<or> (answer, fst st') = spine_step (Append_If_Next s expected d) l)"
    unfolding st fst_conv by blast
qed

section \<open>Reading the journal ends\<close>

fun foreign_size :: "interference list \<Rightarrow> nat" where
  "foreign_size [] = 0"
| "foreign_size (Foreign es # script) = length es + foreign_size script"
| "foreign_size (Store_Failure # script) = foreign_size script"

definition unread :: "run_state \<Rightarrow> event_envelope list \<times> interference list \<Rightarrow> nat" where
  "unread st store = length (fst store) + foreign_size (snd store) - unat (rs_next_sequence st)"

lemma shared_read_size:
  assumes "shared_step E C (List_Session_Range s a n) (log, script) = (answer, (log', script'))"
  shows "length log' + foreign_size script' \<le> length log + foreign_size script"
  using assms by (cases script rule: foreign_size.cases) (auto simp: foreign_def)

lemma tracks_next_le:
  assumes "tracks E C log st"
  shows "unat (rs_next_sequence st) \<le> length log"
proof -
  obtain es es' where es: "journal log = es @ es'" "replays E C es st" using assms by (auto simp: tracks_def)
  then have "unat (rs_next_sequence st) \<le> length es" using replays_position [of E C es st] by (simp add: position_ok_def)
  also have "\<dots> \<le> length (journal log)" using es by simp
  also have "\<dots> \<le> length log" by (simp add: session_log_def)
  finally show ?thesis .
qed

lemma sync_loop_returns:
  assumes "journal_ok E C log" "tracks E C log st"
  shows "\<exists>y. sync_loop E C (shared_step E C) n st (log, script) = Some y"
  using assms
proof (induction "unread st (log, script)" arbitrary: n st log script rule: less_induct)
  case less
  obtain answer log1 script1 where call: "shared_step E C (journal_page st) (log, script) = (answer, (log1, script1))"
    by (metis prod_cases3)
  have ok: "journal_ok E C (fst (log, script)) \<and> tracks E C (fst (log, script)) st" using less.prems by simp
  show ?case
  proof (cases rule: shared.page_cases [OF ok call])
    case 1
    then show ?thesis by (simp add: sync_loop.simps [of E C _ n] call)
  next
    case (3 e err)
    then show ?thesis by (simp add: sync_loop.simps [of E C _ n] call)
  next
    case page: (2 es es' st')
    let ?xs = "take JOURNAL_PAGE es'"
    have "es @ es' = (es @ ?xs) @ drop JOURNAL_PAGE es'" by simp
    then obtain st2 where st2: "replays E C (es @ ?xs) st2" using page(5) replays_prefix by metis
    have run: "apply_events E C ?xs n st = (Inr (n + length ?xs), st2)"
      by (rule apply_events_replay [OF page(4) st2])
    have tracked: "tracks E C log1 st2"
      using shared.tracks_grows [OF _ page(3,4) st2, of "drop JOURNAL_PAGE es'"] page(2) by simp
    show ?thesis
    proof (cases "length ?xs < JOURNAL_PAGE")
      case True
      then show ?thesis using run page(6) by (auto simp: sync_loop.simps [of E C _ n] call)
    next
      case False
      then have full: "length ?xs = 1000" by (simp add: JOURNAL_PAGE_def)
      have "unat (rs_next_sequence st) < unat (rs_next_sequence st2)"
        using replays_position [OF page(4)] replays_position [OF st2] full by (simp add: position_ok_def)
      then have "unread st2 (log1, script1) < unread st (log, script)"
        using shared_read_size [OF call [unfolded journal_page_def]] tracks_next_le [OF tracked]
        by (simp add: unread_def)
      from less.hyps [OF this _ tracked, of "n + length ?xs"] page(2)
      obtain y where "sync_loop E C (shared_step E C) (n + length ?xs) st2 (log1, script1) = Some y" by auto
      then show ?thesis using run page(6) False by (cases y) (auto simp: sync_loop.simps [of E C _ n] call)
    qed
  qed
qed

end
