(* ===== verification/Run_Registry.thy ===== *)
theory Run_Registry
  imports Run_Store
begin

text \<open>
  The registry of runs and its handlers (\<open>crates/plurora-service/src/runs.rs\<close>): start, stop,
  resumption, cleanup, hydration after a restart, loss of a package, and the cleanup supervisor.

  A handler is a state machine: a \<open>task\<close> is the point it has reached with its local variables, and
  each of the sections between two points holds the \<open>apply\<close> lock or the lock of \<open>active\<close>, so one step
  of the machine is atomic for its own host; other hosts may use the store inside a section. Calls to
  the driver are awaited without a lock: the task waits at a point of its own, and its answer, which
  may be any, is the next step. The lock per installation around a start is \<open>start_lock\<close>; the lock
  per run around a cleanup only removes interleavings and is left out.
\<close>

section \<open>The registry\<close>

datatype run_activation_ownership = Available run_activation | Cleaning

record run_registry =
  rr_state :: run_state
  rr_active :: "str \<rightharpoonup> run_activation_ownership"
  rr_driver :: bool
  rr_owner_lease :: bool
  rr_cleanup_changed :: bool

definition run_registry_new :: run_registry where
  "run_registry_new = \<lparr>rr_state = run_state_default, rr_active = Map.empty, rr_driver = False,
     rr_owner_lease = False, rr_cleanup_changed = False\<rparr>"

definition install_driver :: "run_registry \<Rightarrow> unit run_result \<times> run_registry" where
  "install_driver reg = (if rr_driver reg then (Inl RunDriverUnavailable, reg) else (Inr (), reg\<lparr>rr_driver := True\<rparr>))"

text \<open>The argument is the answer of \<open>ensure_active\<close>.\<close>

definition install_owner_lease :: "bool \<Rightarrow> run_registry \<Rightarrow> unit run_result \<times> run_registry" where
  "install_owner_lease lease_active reg =
     (if lease_active then (Inr (), reg\<lparr>rr_owner_lease := True\<rparr>) else (Inl RunLeaseLost, reg))"

definition ensure_owner_lease :: "host_env \<Rightarrow> nat \<Rightarrow> run_registry \<Rightarrow> unit run_result" where
  "ensure_owner_lease env k reg = demand (rr_owner_lease reg \<longrightarrow> he_lease env k) RunLeaseLost"

definition notify_one :: "run_registry \<Rightarrow> run_registry" where
  "notify_one reg = reg\<lparr>rr_cleanup_changed := True\<rparr>"

definition run_of :: "run_registry \<Rightarrow> str \<Rightarrow> run_view option" where
  "run_of reg run_id = bt_get (rs_runs (rr_state reg)) run_id"

definition run_values :: "run_registry \<Rightarrow> run_view list" where
  "run_values reg = map snd (rs_runs (rr_state reg))"

section \<open>Guarded appends\<close>

definition append_guarded :: "ext \<Rightarrow> journal_codec \<Rightarrow> 's event_store \<Rightarrow> str \<times> instant \<Rightarrow> str \<Rightarrow> run_journal_payload
    \<Rightarrow> unit run_result \<Rightarrow> run_registry \<Rightarrow> 's \<Rightarrow> unit run_result \<times> run_registry \<times> 's" where
  "append_guarded E C step stamp kind p guards reg store =
     (case guards of
        Inl e \<Rightarrow> (Inl e, reg, store)
      | Inr _ \<Rightarrow>
          (case append_after_guards E C step stamp kind p (rr_state reg) store of
             (r, st, store') \<Rightarrow> (r, reg\<lparr>rr_state := st\<rparr>, store')))"

definition append_event :: "ext \<Rightarrow> journal_codec \<Rightarrow> 's event_store \<Rightarrow> host_env \<Rightarrow> nat \<Rightarrow> str \<Rightarrow> run_journal_payload
    \<Rightarrow> run_registry \<Rightarrow> 's \<Rightarrow> unit run_result \<times> run_registry \<times> 's" where
  "append_event E C step env k kind p reg =
     append_guarded E C step (he_stamp env k) kind p (ensure_owner_lease env k reg) reg"

definition append_with_installation_authority :: "ext \<Rightarrow> journal_codec \<Rightarrow> 's event_store \<Rightarrow> host_env \<Rightarrow> str
    \<Rightarrow> run_journal_payload \<Rightarrow> run_mutation_authority \<Rightarrow> str \<Rightarrow> run_registry \<Rightarrow> 's
    \<Rightarrow> unit run_result \<times> run_registry \<times> 's" where
  "append_with_installation_authority E C step env kind p authority installation_id reg =
     append_guarded E C step (he_stamp env 0) kind p
       (and_then (ensure_owner_lease env 0 reg) (\<lambda>_.
          refresh_current_for_installation (he_clock env 0) authority installation_id)) reg"

definition append_with_run_authority :: "ext \<Rightarrow> journal_codec \<Rightarrow> 's event_store \<Rightarrow> host_env \<Rightarrow> str
    \<Rightarrow> run_journal_payload \<Rightarrow> run_mutation_authority \<Rightarrow> str \<Rightarrow> str \<Rightarrow> run_registry \<Rightarrow> 's
    \<Rightarrow> unit run_result \<times> run_registry \<times> 's" where
  "append_with_run_authority E C step env kind p authority installation_id run_id reg =
     append_guarded E C step (he_stamp env 0) kind p
       (and_then (ensure_owner_lease env 0 reg) (\<lambda>_.
          refresh_current_for_run (he_clock env 0) authority installation_id run_id)) reg"

section \<open>Tasks\<close>

datatype run_task_result =
    Start_Done "run_start_result run_result"
  | Stop_Done "run_mutation_result run_result"
  | Hydrate_Done "nat run_result"
  | Loss_Done "unit run_result"

datatype start_commit_outcome = Lost run_view | Commit_Failed run_error

text \<open>Who called \<open>complete_stopping\<close>, and who called \<open>cleanup_terminal_activation\<close>.\<close>

datatype after_complete =
    To_Stop
  | To_Hydrate nat "run_view list"
  | To_Loss "str list" bool
  | To_Supervisor "run_view list" "str list" bool

datatype after_cleanup =
    To_Resume run_start_request run_view bool
  | To_Complete bool bool "run_idempotency_claim option" after_complete
  | To_Loss_Cleanup "str list" bool
  | To_Supervisor_Cleanup "str list" bool

datatype task =
    Start_Entry run_start_request
  | Start_Wait run_start_request
  | Start_Replay run_start_request
  | Start_Prepare run_start_request
  | Start_Claim run_start_request run_preparation
  | Start_Confirm run_start_request run_preparation run_view
  | Start_Activate run_start_request run_preparation run_view
  | Start_Commit run_start_request run_view run_activation
  | Start_Undo run_start_request run_view run_activation start_commit_outcome
  | Start_Fail run_start_request run_view str run_error bool
  | Start_Resume run_start_request run_view bool
  | Stop_Entry run_stop_request
  | Complete_Entry run_view bool "run_idempotency_claim option" after_complete
  | Complete_Owned str bool "run_idempotency_claim option" after_complete
  | Complete_Commit str bool bool "run_idempotency_claim option" after_complete
  | Cleanup_Take str after_cleanup
  | Cleanup_Stop str run_activation after_cleanup
  | Hydrate_Entry
  | Loss_Entry "str list"
  | Loss_Mark "str list" bool
  | Loss_Owned str "str list" bool
  | Supervise_Idle
  | Supervise_Stopping
  | Supervise_Terminal "run_view list"
  | Supervise_Run "run_view list" "str list" bool
  | Finished run_task_result

type_synonym 's section_result = "task \<times> run_registry \<times> 's"

abbreviation start_failed :: "run_error \<Rightarrow> task" where
  "start_failed e \<equiv> Finished (Start_Done (Inl e))"

abbreviation start_ok :: "run_view \<Rightarrow> bool \<Rightarrow> task" where
  "start_ok run idempotent \<equiv> Finished (Start_Done (Inr \<lparr>sr_run = Some run, sr_gaps = [], sr_idempotent = idempotent\<rparr>))"

text \<open>A section under the \<open>apply\<close> lock begins by reading the journal.\<close>

definition synced :: "ext \<Rightarrow> journal_codec \<Rightarrow> 's event_store \<Rightarrow> (run_error \<Rightarrow> run_registry \<Rightarrow> task \<times> run_registry)
    \<Rightarrow> (nat \<Rightarrow> run_registry \<Rightarrow> 's \<Rightarrow> 's section_result) \<Rightarrow> run_registry \<Rightarrow> 's \<Rightarrow> 's section_result option" where
  "synced E C step failed body reg store =
     (case sync_journal E C step (rr_state reg) store of
        None \<Rightarrow> None
      | Some (r, st, store') \<Rightarrow>
          let reg' = reg\<lparr>rr_state := st\<rparr> in
          (case r of
             Inl e \<Rightarrow> (case failed e reg' of (t, reg'') \<Rightarrow> Some (t, reg'', store'))
           | Inr loaded \<Rightarrow> Some (body loaded reg' store')))"

definition failing :: "(run_error \<Rightarrow> task) \<Rightarrow> run_error \<Rightarrow> run_registry \<Rightarrow> task \<times> run_registry" where
  "failing f e reg = (f e, reg)"

section \<open>Completion of a stop\<close>

definition failed_call :: "'a run_result \<Rightarrow> bool" where
  "failed_call r = (case r of Inl _ \<Rightarrow> True | Inr _ \<Rightarrow> False)"

definition hydrate_next :: "nat \<Rightarrow> run_view list \<Rightarrow> task" where
  "hydrate_next loaded pending =
     (case pending of
        [] \<Rightarrow> Finished (Hydrate_Done (Inr loaded))
      | run # rest \<Rightarrow> Complete_Entry run True None (To_Hydrate loaded rest))"

definition complete_result :: "after_complete \<Rightarrow> run_mutation_result run_result \<Rightarrow> run_registry \<Rightarrow> task \<times> run_registry" where
  "complete_result after r reg =
     (case after of
        To_Stop \<Rightarrow> (Finished (Stop_Done r), reg)
      | To_Hydrate loaded rest \<Rightarrow> (hydrate_next loaded rest, if failed_call r then notify_one reg else reg)
      | To_Loss rest cleanup_failed \<Rightarrow> (Loss_Mark rest (cleanup_failed \<or> failed_call r), reg)
      | To_Supervisor stopping terminal retry \<Rightarrow> (Supervise_Run stopping terminal (retry \<or> failed_call r), reg))"

definition complete_failing :: "after_complete \<Rightarrow> run_error \<Rightarrow> run_registry \<Rightarrow> task \<times> run_registry" where
  "complete_failing after e reg = complete_result after (Inl e) reg"

definition section_of :: "task \<times> run_registry \<Rightarrow> 's \<Rightarrow> 's section_result" where
  "section_of tr store = (fst tr, snd tr, store)"

definition complete_entry :: "ext \<Rightarrow> journal_codec \<Rightarrow> 's event_store \<Rightarrow> run_view \<Rightarrow> bool
    \<Rightarrow> run_idempotency_claim option \<Rightarrow> after_complete \<Rightarrow> run_registry \<Rightarrow> 's \<Rightarrow> 's section_result option" where
  "complete_entry E C step stopping idempotent terminal_claim after =
     synced E C step (complete_failing after) (\<lambda>_ reg store.
       let run_id = rv_run_id stopping in
       (case run_of reg run_id of
          None \<Rightarrow> section_of (complete_result after (Inl RunDisappeared) reg) store
        | Some current \<Rightarrow>
            if rv_status current \<noteq> Run_Stopping
            then section_of (complete_result after (Inr \<lparr>mr_run = current, mr_idempotent = True\<rparr>) reg) store
            else (Complete_Owned run_id idempotent terminal_claim after, reg, store)))"

definition complete_commit :: "ext \<Rightarrow> journal_codec \<Rightarrow> 's event_store \<Rightarrow> host_env \<Rightarrow> str \<Rightarrow> bool \<Rightarrow> bool
    \<Rightarrow> run_idempotency_claim option \<Rightarrow> after_complete \<Rightarrow> run_registry \<Rightarrow> 's \<Rightarrow> 's section_result option" where
  "complete_commit E C step env run_id activation_was_owned idempotent terminal_claim after =
     synced E C step (complete_failing after) (\<lambda>_ reg store.
       (case run_of reg run_id of
          None \<Rightarrow> section_of (complete_result after (Inl RunDisappeared) reg) store
        | Some durable \<Rightarrow>
            if rv_status durable \<noteq> Run_Stopping
            then section_of (complete_result after (Inr \<lparr>mr_run = durable, mr_idempotent = True\<rparr>) reg) store
            else
              (case ensure_owner_lease env 1 reg of
                 Inl e \<Rightarrow> section_of (complete_result after (Inl e) reg) store
               | Inr _ \<Rightarrow>
                   let terminal = terminal_after_cleanup (he_clock env 1) activation_was_owned durable;
                       kind = (if rv_status terminal = Run_Stopped then EVENT_RUN_STOPPED else EVENT_RUN_FAILED) in
                   (case append_event E C step env 0 kind \<lparr>jp_run = terminal, jp_idempotency = terminal_claim\<rparr> reg store of
                      (r, reg', store') \<Rightarrow>
                        (case r of
                           Inr _ \<Rightarrow> section_of (complete_result after (Inr \<lparr>mr_run = terminal, mr_idempotent = idempotent\<rparr>) reg') store'
                         | Inl e \<Rightarrow>
                             if is_run_journal_cas_loss e
                             then (Complete_Commit run_id activation_was_owned idempotent terminal_claim after, reg', store')
                             else section_of (complete_result after (Inl e) (notify_one reg')) store')))))"

section \<open>Cleanup of an activation\<close>

definition cleanup_result :: "str \<Rightarrow> after_cleanup \<Rightarrow> unit run_result \<Rightarrow> run_registry \<Rightarrow> task \<times> run_registry" where
  "cleanup_result run_id after r reg =
     (case after of
        To_Resume request next_run idempotent \<Rightarrow>
          (case r of Inl e \<Rightarrow> (start_failed e, reg) | Inr _ \<Rightarrow> (start_ok next_run idempotent, reg))
      | To_Complete activation_was_owned idempotent terminal_claim caller \<Rightarrow>
          (case r of
             Inl _ \<Rightarrow> complete_result caller (Inl CleanupFailedWhileStopping) (notify_one reg)
           | Inr _ \<Rightarrow> (Complete_Commit run_id activation_was_owned idempotent terminal_claim caller, reg))
      | To_Loss_Cleanup rest cleanup_failed \<Rightarrow> (Loss_Mark rest (cleanup_failed \<or> failed_call r), reg)
      | To_Supervisor_Cleanup rest retry \<Rightarrow> (Supervise_Run [] rest (retry \<or> failed_call r), reg))"

definition cleanup_take :: "str \<Rightarrow> after_cleanup \<Rightarrow> run_registry \<Rightarrow> task \<times> run_registry" where
  "cleanup_take run_id after reg =
     (if \<not> rr_driver reg then cleanup_result run_id after (Inl RunDriverUnavailable) reg
      else
        (case rr_active reg run_id of
           Some (Available activation) \<Rightarrow>
             (Cleanup_Stop run_id activation after, reg\<lparr>rr_active := (rr_active reg)(run_id \<mapsto> Cleaning)\<rparr>)
         | Some Cleaning \<Rightarrow> cleanup_result run_id after (Inl CleanupInProgress) reg
         | None \<Rightarrow> cleanup_result run_id after (Inr ()) reg))"

text \<open>The driver has answered; it may have changed the activation.\<close>

definition cleanup_release :: "str \<Rightarrow> bool \<Rightarrow> run_activation \<Rightarrow> after_cleanup \<Rightarrow> run_registry \<Rightarrow> task \<times> run_registry" where
  "cleanup_release run_id stopped activation after reg =
     (if stopped then
        let removed = rr_active reg run_id; reg' = reg\<lparr>rr_active := (rr_active reg)(run_id := None)\<rparr> in
        cleanup_result run_id after (if removed = Some Cleaning then Inr () else Inl OwnershipChanged) reg'
      else
        let replaced = rr_active reg run_id;
            reg' = reg\<lparr>rr_active := (rr_active reg)(run_id \<mapsto> Available activation)\<rparr> in
        cleanup_result run_id after
          (Inl (if replaced = Some Cleaning then ActivationCleanupFailed else OwnershipChanged)) reg')"

section \<open>Start\<close>

definition start_entry :: "host_env \<Rightarrow> run_start_request \<Rightarrow> task" where
  "start_entry env request =
     (case run_start_request_validate request of
        Inl e \<Rightarrow> start_failed e
      | Inr _ \<Rightarrow>
          (case rsr_authority request of
             None \<Rightarrow> start_failed RunAuthorityMissing
           | Some authority \<Rightarrow>
               (case refresh_current_for_installation (he_clock env 0) authority (rsr_installation_id request) of
                  Inl e \<Rightarrow> start_failed e
                | Inr _ \<Rightarrow> Start_Wait request)))"

definition start_replayed :: "run_start_request \<Rightarrow> run_view \<Rightarrow> task" where
  "start_replayed request run =
     (if rv_status run = Run_Starting then Start_Resume request run True else start_ok run True)"

definition start_lookup :: "ext \<Rightarrow> run_start_request \<Rightarrow> run_registry \<Rightarrow> run_view option run_result" where
  "start_lookup E request reg = lookup_idempotency E (rr_state reg) (rsr_installation_id request) Start_Operation
     (rsr_idempotency_key request) (start_fingerprint E request)"

definition start_replay :: "ext \<Rightarrow> journal_codec \<Rightarrow> 's event_store \<Rightarrow> run_start_request \<Rightarrow> run_registry \<Rightarrow> 's
    \<Rightarrow> 's section_result option" where
  "start_replay E C step request =
     synced E C step (failing start_failed) (\<lambda>_ reg store.
       (case start_lookup E request reg of
          Inl e \<Rightarrow> (start_failed e, reg, store)
        | Inr (Some run) \<Rightarrow> (start_replayed request run, reg, store)
        | Inr None \<Rightarrow> (if rr_driver reg then Start_Prepare request else start_failed RunDriverUnavailable, reg, store)))"

definition start_prepared :: "run_start_request \<Rightarrow> run_preparation \<Rightarrow> task" where
  "start_prepared request preparation =
     (if rp_installation_revision preparation \<noteq> rsr_expected_installation_revision request
      then start_failed InstallationRevisionConflict
      else if rp_gaps preparation \<noteq> [] then
        Finished (Start_Done (Inr \<lparr>sr_run = None, sr_gaps = rp_gaps preparation, sr_idempotent = False\<rparr>))
      else Start_Claim request preparation)"

definition starting_run :: "host_env \<Rightarrow> run_start_request \<Rightarrow> run_preparation \<Rightarrow> run_view" where
  "starting_run env request preparation = \<lparr>
     rv_record = \<lparr>rn_run_id = he_run_id env, rn_installation_id = rsr_installation_id request, rn_context_id = None,
       rn_status = Run_Starting, rn_node_instances = [], rn_bindings = [], rn_started_at = he_clock env 2,
       rn_stopped_at = None, rn_health = \<lparr>rh_status = Health_Unknown, rh_reason_code = None, rh_diagnostic_refs = []\<rparr>\<rparr>,
     rv_revision = 1, rv_installation_revision = rsr_expected_installation_revision request,
     rv_entrypoint_id = rp_entrypoint_id preparation\<rparr>"

definition start_claim_of :: "ext \<Rightarrow> run_start_request \<Rightarrow> run_idempotency_claim" where
  "start_claim_of E request = \<lparr>ic_operation = Start_Operation,
     ic_key_hash = idempotency_key_hash E (rsr_idempotency_key request),
     ic_request_fingerprint = start_fingerprint E request\<rparr>"

definition installation_busy :: "str \<Rightarrow> run_registry \<Rightarrow> bool" where
  "installation_busy installation_id reg = list_ex (\<lambda>run. rv_installation_id run = installation_id
     \<and> (is_active (rv_status run) \<or> rr_active reg (rv_run_id run) \<noteq> None)) (run_values reg)"

definition start_claim :: "ext \<Rightarrow> journal_codec \<Rightarrow> 's event_store \<Rightarrow> host_env \<Rightarrow> run_start_request \<Rightarrow> run_preparation
    \<Rightarrow> run_registry \<Rightarrow> 's \<Rightarrow> 's section_result option" where
  "start_claim E C step env request preparation =
     synced E C step (failing start_failed) (\<lambda>_ reg store.
       (case start_lookup E request reg of
          Inl e \<Rightarrow> (start_failed e, reg, store)
        | Inr (Some run) \<Rightarrow> (start_replayed request run, reg, store)
        | Inr None \<Rightarrow>
            if installation_busy (rsr_installation_id request) reg then (start_failed ActiveRunExists, reg, store)
            else
              (case rsr_authority request of
                 None \<Rightarrow> (start_failed RunAuthorityMissing, reg, store)
               | Some authority \<Rightarrow>
                   (case refresh_current_for_installation (he_clock env 1) authority (rsr_installation_id request) of
                      Inl e \<Rightarrow> (start_failed e, reg, store)
                    | Inr _ \<Rightarrow>
                        let starting = starting_run env request preparation in
                        (case append_with_installation_authority E C step env EVENT_RUN_STARTING
                            \<lparr>jp_run = starting, jp_idempotency = Some (start_claim_of E request)\<rparr>
                            authority (rsr_installation_id request) reg store of
                           (r, reg', store') \<Rightarrow>
                             ((case r of
                                 Inr _ \<Rightarrow> Start_Confirm request preparation starting
                               | Inl e \<Rightarrow> if is_run_journal_cas_loss e then Start_Claim request preparation else start_failed e),
                              reg', store'))))))"

definition start_confirm :: "host_env \<Rightarrow> run_start_request \<Rightarrow> run_preparation \<Rightarrow> run_view \<Rightarrow> run_registry \<Rightarrow> task" where
  "start_confirm env request preparation starting reg =
     (case ensure_owner_lease env 0 reg of
        Inl e \<Rightarrow> start_failed e
      | Inr _ \<Rightarrow>
          (case rsr_authority request of
             None \<Rightarrow> start_failed RunAuthorityMissing
           | Some authority \<Rightarrow>
               (case refresh_current_for_installation (he_clock env 0) authority (rsr_installation_id request) of
                  Inl e \<Rightarrow> Start_Fail request starting ''authority_denied'' e True
                | Inr _ \<Rightarrow> Start_Activate request preparation starting)))"

definition start_activated :: "run_start_request \<Rightarrow> run_view \<Rightarrow> run_activation option \<Rightarrow> task" where
  "start_activated request starting answer =
     (case answer of
        Some activation \<Rightarrow> Start_Commit request starting activation
      | None \<Rightarrow> Start_Fail request starting ''activation_failed'' ActivationFailed True)"

definition start_commit :: "ext \<Rightarrow> journal_codec \<Rightarrow> 's event_store \<Rightarrow> host_env \<Rightarrow> run_start_request \<Rightarrow> run_view
    \<Rightarrow> run_activation \<Rightarrow> run_registry \<Rightarrow> 's \<Rightarrow> 's section_result option" where
  "start_commit E C step env request starting activation =
     synced E C step (failing start_failed) (\<lambda>_ reg store.
       let run_id = rv_run_id starting in
       (case run_of reg run_id of
          None \<Rightarrow> (start_failed RunDisappeared, reg, store)
        | Some current \<Rightarrow>
            if rv_status current \<noteq> Run_Starting \<or> rv_revision current \<noteq> rv_revision starting
            then (Start_Undo request starting activation (Lost current), reg, store)
            else
              (case rsr_authority request of
                 None \<Rightarrow> (start_failed RunAuthorityMissing, reg, store)
               | Some authority \<Rightarrow>
                   let running = running_run current activation in
                   (case append_with_installation_authority E C step env EVENT_RUN_STARTED
                       \<lparr>jp_run = running, jp_idempotency = None\<rparr> authority (rsr_installation_id request) reg store of
                      (r, reg', store') \<Rightarrow>
                        (case r of
                           Inr _ \<Rightarrow>
                             ((if rr_active reg' run_id = None then start_ok running False else start_failed OwnershipChanged),
                              reg'\<lparr>rr_active := (rr_active reg')(run_id \<mapsto> Available activation)\<rparr>, store')
                         | Inl e \<Rightarrow>
                             ((if is_run_journal_cas_loss e then Start_Commit request starting activation
                               else Start_Undo request starting activation (Commit_Failed e)), reg', store'))))))"

definition start_undone :: "run_start_request \<Rightarrow> run_view \<Rightarrow> start_commit_outcome \<Rightarrow> bool \<Rightarrow> run_activation
    \<Rightarrow> run_registry \<Rightarrow> task \<times> run_registry" where
  "start_undone request starting outcome stopped activation reg =
     (let run_id = rv_run_id starting in
      if stopped then
        (case outcome of
           Lost current \<Rightarrow> (start_ok current False, reg)
         | Commit_Failed e \<Rightarrow> (Start_Fail request starting ''activation_commit_failed'' e False, reg))
      else
        let replaced = rr_active reg run_id;
            reg' = reg\<lparr>rr_active := (rr_active reg)(run_id \<mapsto> Available activation)\<rparr> in
        if replaced = None then (start_failed OutcomeUnknownAfterStart, notify_one reg')
        else (start_failed OwnershipChanged, reg'))"

text \<open>\<open>fail_starting_if_current\<close>, after which the start returns the error \<open>e\<close>. A failure of its own is
  returned instead where the source has a question mark (\<open>strict\<close>).\<close>

definition fail_starting_if_current :: "ext \<Rightarrow> journal_codec \<Rightarrow> 's event_store \<Rightarrow> host_env \<Rightarrow> run_start_request
    \<Rightarrow> run_view \<Rightarrow> str \<Rightarrow> run_error \<Rightarrow> bool \<Rightarrow> run_registry \<Rightarrow> 's \<Rightarrow> 's section_result option" where
  "fail_starting_if_current E C step env request starting reason_code e strict =
     (let return_error = (\<lambda>own. start_failed (if strict then own else e)) in
      synced E C step (failing return_error) (\<lambda>_ reg store.
       (case run_of reg (rv_run_id starting) of
          None \<Rightarrow> (return_error RunDisappeared, reg, store)
        | Some current \<Rightarrow>
            if rv_status current \<noteq> Run_Starting \<or> rv_revision current \<noteq> rv_revision starting
            then (start_failed e, reg, store)
            else
              (case append_event E C step env 0 EVENT_RUN_FAILED
                  \<lparr>jp_run = failed_run (he_clock env 0) reason_code current, jp_idempotency = None\<rparr> reg store of
                 (r, reg', store') \<Rightarrow>
                   ((case r of
                       Inr _ \<Rightarrow> start_failed e
                     | Inl own \<Rightarrow>
                         if is_run_journal_cas_loss own then Start_Fail request starting reason_code e strict
                         else return_error own), reg', store')))))"

definition resume_starting_start :: "ext \<Rightarrow> journal_codec \<Rightarrow> 's event_store \<Rightarrow> host_env \<Rightarrow> run_start_request
    \<Rightarrow> run_view \<Rightarrow> bool \<Rightarrow> run_registry \<Rightarrow> 's \<Rightarrow> 's section_result option" where
  "resume_starting_start E C step env request prior idempotent =
     synced E C step (failing start_failed) (\<lambda>_ reg store.
       let run_id = rv_run_id prior;
           finish = (\<lambda>next_run cleanup_terminal. if cleanup_terminal
             then Cleanup_Take run_id (To_Resume request next_run idempotent) else start_ok next_run idempotent) in
       (case run_of reg run_id of
          None \<Rightarrow> (start_failed RunDisappeared, reg, store)
        | Some current \<Rightarrow>
            if rv_status current \<noteq> Run_Starting
            then (finish current (\<not> is_active (rv_status current)), reg, store)
            else
              let (kind, next_run) =
                (case rr_active reg run_id of
                   Some (Available activation) \<Rightarrow> (EVENT_RUN_STARTED, running_run current activation)
                 | _ \<Rightarrow> (EVENT_RUN_FAILED, interrupted_run (he_clock env 1) ''outcome_unknown'' current)) in
              (case rsr_authority request of
                 None \<Rightarrow> (start_failed RunAuthorityMissing, reg, store)
               | Some authority \<Rightarrow>
                   (case append_with_installation_authority E C step env kind
                       \<lparr>jp_run = next_run, jp_idempotency = None\<rparr> authority (rsr_installation_id request) reg store of
                      (r, reg', store') \<Rightarrow>
                        ((case r of
                            Inr _ \<Rightarrow> finish next_run (rv_status next_run = Run_Interrupted)
                          | Inl e \<Rightarrow>
                              if is_run_journal_cas_loss e then Start_Resume request current idempotent
                              else start_failed e), reg', store')))))"

section \<open>Stop\<close>

abbreviation stop_failed :: "run_error \<Rightarrow> task" where
  "stop_failed e \<equiv> Finished (Stop_Done (Inl e))"

abbreviation stop_ok :: "run_view \<Rightarrow> bool \<Rightarrow> task" where
  "stop_ok run idempotent \<equiv> Finished (Stop_Done (Inr \<lparr>mr_run = run, mr_idempotent = idempotent\<rparr>))"

definition stop_claim_of :: "ext \<Rightarrow> run_stop_request \<Rightarrow> run_idempotency_claim" where
  "stop_claim_of E request = \<lparr>ic_operation = Stop_Operation,
     ic_key_hash = idempotency_key_hash E (rst_idempotency_key request),
     ic_request_fingerprint = stop_fingerprint E request\<rparr>"

definition stop_current :: "ext \<Rightarrow> journal_codec \<Rightarrow> 's event_store \<Rightarrow> host_env \<Rightarrow> run_stop_request
    \<Rightarrow> run_mutation_authority \<Rightarrow> run_view \<Rightarrow> run_registry \<Rightarrow> 's \<Rightarrow> 's section_result" where
  "stop_current E C step env request authority current reg store =
     (if rv_revision current \<noteq> rst_expected_revision request then (stop_failed RunRevisionConflict, reg, store)
      else if \<not> is_active (rv_status current) then (stop_ok current True, reg, store)
      else if rv_status current = Run_Stopping
        then (Complete_Entry current False (Some (stop_claim_of E request)) To_Stop, reg, store)
      else
        let reason = (if rv_status current = Run_Starting then ''explicit_stop_before_start_commit'' else ''explicit_stop'');
            stopping = stopping_run reason current in
        (case append_with_run_authority E C step env EVENT_RUN_STOPPING
            \<lparr>jp_run = stopping, jp_idempotency = Some (stop_claim_of E request)\<rparr>
            authority (rst_installation_id request) (rst_run_id request) reg store of
           (r, reg', store') \<Rightarrow>
             (case r of
                Inl e \<Rightarrow> (stop_failed e, reg', store')
              | Inr _ \<Rightarrow> (Complete_Entry stopping False None To_Stop, notify_one reg', store'))))"

definition stop_entry :: "ext \<Rightarrow> journal_codec \<Rightarrow> 's event_store \<Rightarrow> host_env \<Rightarrow> run_stop_request \<Rightarrow> run_registry \<Rightarrow> 's
    \<Rightarrow> 's section_result option" where
  "stop_entry E C step env request reg store =
     (case run_stop_request_validate request of
        Inl e \<Rightarrow> Some (stop_failed e, reg, store)
      | Inr _ \<Rightarrow>
          (case rst_authority request of
             None \<Rightarrow> Some (stop_failed RunAuthorityMissing, reg, store)
           | Some authority \<Rightarrow>
               synced E C step (failing stop_failed) (\<lambda>_ reg store.
                 (case refresh_current_for_run (he_clock env 1) authority (rst_installation_id request) (rst_run_id request) of
                    Inl e \<Rightarrow> (stop_failed e, reg, store)
                  | Inr _ \<Rightarrow>
                      (case lookup_idempotency E (rr_state reg) (rst_installation_id request) Stop_Operation
                          (rst_idempotency_key request) (stop_fingerprint E request) of
                         Inl e \<Rightarrow> (stop_failed e, reg, store)
                       | Inr (Some run) \<Rightarrow>
                           (if rv_status run \<noteq> Run_Stopping then stop_ok run True
                            else Complete_Entry run True None To_Stop, reg, store)
                       | Inr None \<Rightarrow>
                           (case run_of reg (rst_run_id request) of
                              Some current \<Rightarrow>
                                if rv_installation_id current = rst_installation_id request
                                then stop_current E C step env request authority current reg store
                                else (stop_failed RunNotFound, reg, store)
                            | None \<Rightarrow> (stop_failed RunNotFound, reg, store))))) reg store))"

section \<open>Hydration, loss of a package, supervision\<close>

text \<open>The runs that were active become stopping, one event each; a failure ends the section.\<close>

fun hydrate_runs :: "ext \<Rightarrow> journal_codec \<Rightarrow> 's event_store \<Rightarrow> host_env \<Rightarrow> nat \<Rightarrow> run_view list \<Rightarrow> run_view list
    \<Rightarrow> run_registry \<Rightarrow> 's \<Rightarrow> run_view list run_result \<times> run_registry \<times> 's" where
  "hydrate_runs E C step env k [] pending reg store = (Inr pending, reg, store)"
| "hydrate_runs E C step env k (run # runs) pending reg store =
     (if rv_status run = Run_Stopping then hydrate_runs E C step env k runs (pending @ [run]) reg store
      else
        let stopping = stopping_run ''host_restart'' run in
        (case append_event E C step env k EVENT_RUN_STOPPING \<lparr>jp_run = stopping, jp_idempotency = None\<rparr> reg store of
           (r, reg', store') \<Rightarrow>
             (case r of
                Inl e \<Rightarrow> (Inl e, reg', store')
              | Inr _ \<Rightarrow> hydrate_runs E C step env (Suc k) runs (pending @ [stopping]) reg' store')))"

definition hydrate :: "ext \<Rightarrow> journal_codec \<Rightarrow> 's event_store \<Rightarrow> host_env \<Rightarrow> run_registry \<Rightarrow> 's \<Rightarrow> 's section_result option" where
  "hydrate E C step env reg store =
     (case ensure_owner_lease env 0 reg of
        Inl e \<Rightarrow> Some (Finished (Hydrate_Done (Inl e)), reg, store)
      | Inr _ \<Rightarrow>
          synced E C step (failing (\<lambda>e. Finished (Hydrate_Done (Inl e)))) (\<lambda>loaded reg store.
            (case hydrate_runs E C step env 1 (filter (\<lambda>run. is_active (rv_status run)) (run_values reg)) [] reg store of
               (r, reg', store') \<Rightarrow>
                 ((case r of
                     Inl e \<Rightarrow> Finished (Hydrate_Done (Inl e))
                   | Inr pending \<Rightarrow> hydrate_next loaded pending), reg', store'))) reg store)"

definition loss_entry :: "host_env \<Rightarrow> str list \<Rightarrow> run_registry \<Rightarrow> task" where
  "loss_entry env run_ids reg =
     (case ensure_owner_lease env 0 reg of
        Inl e \<Rightarrow> Finished (Loss_Done (Inl e))
      | Inr _ \<Rightarrow> Loss_Mark (remdups_adj (sort run_ids)) False)"

definition loss_mark :: "ext \<Rightarrow> journal_codec \<Rightarrow> 's event_store \<Rightarrow> host_env \<Rightarrow> str \<Rightarrow> str list \<Rightarrow> bool
    \<Rightarrow> run_registry \<Rightarrow> 's \<Rightarrow> 's section_result option" where
  "loss_mark E C step env run_id rest cleanup_failed =
     synced E C step (failing (\<lambda>e. Finished (Loss_Done (Inl e)))) (\<lambda>_ reg store.
       (case run_of reg run_id of
          None \<Rightarrow> (Loss_Owned run_id rest cleanup_failed, reg, store)
        | Some current \<Rightarrow>
            if \<not> is_active (rv_status current) then (Loss_Owned run_id rest cleanup_failed, reg, store)
            else if rv_status current = Run_Stopping
              then (Complete_Entry current True None (To_Loss rest cleanup_failed), reg, store)
            else
              let stopping = stopping_run ''package_activation_lost'' current in
              (case append_event E C step env 0 EVENT_RUN_STOPPING \<lparr>jp_run = stopping, jp_idempotency = None\<rparr> reg store of
                 (r, reg', store') \<Rightarrow>
                   (case r of
                      Inr _ \<Rightarrow> (Complete_Entry stopping True None (To_Loss rest cleanup_failed), notify_one reg', store')
                    | Inl e \<Rightarrow>
                        ((if is_run_journal_cas_loss e then Loss_Mark (run_id # rest) cleanup_failed
                          else Finished (Loss_Done (Inl e))), reg', store')))))"

definition loss_owned :: "str \<Rightarrow> str list \<Rightarrow> bool \<Rightarrow> run_registry \<Rightarrow> task" where
  "loss_owned run_id rest cleanup_failed reg =
     (if rr_active reg run_id \<noteq> None then Cleanup_Take run_id (To_Loss_Cleanup rest cleanup_failed)
      else Loss_Mark rest cleanup_failed)"

definition stopping_runs :: "run_registry \<Rightarrow> run_view list" where
  "stopping_runs reg = filter (\<lambda>run. rv_status run = Run_Stopping) (run_values reg)"

text \<open>The keys of a \<open>HashMap\<close> come in any order; here in the order of the run ids.\<close>

definition terminal_activation_ids :: "run_registry \<Rightarrow> str list" where
  "terminal_activation_ids reg = map rv_run_id (filter (\<lambda>run. rv_status run \<in> {Run_Stopped, Run_Failed, Run_Interrupted}
     \<and> rr_active reg (rv_run_id run) \<noteq> None) (run_values reg))"

definition supervise_stopping :: "ext \<Rightarrow> journal_codec \<Rightarrow> 's event_store \<Rightarrow> run_registry \<Rightarrow> 's \<Rightarrow> 's section_result option" where
  "supervise_stopping E C step =
     synced E C step (failing (\<lambda>_. Supervise_Stopping)) (\<lambda>_ reg store. (Supervise_Terminal (stopping_runs reg), reg, store))"

definition supervise_terminal :: "ext \<Rightarrow> journal_codec \<Rightarrow> 's event_store \<Rightarrow> run_view list \<Rightarrow> run_registry \<Rightarrow> 's
    \<Rightarrow> 's section_result option" where
  "supervise_terminal E C step stopping =
     synced E C step (failing (\<lambda>_. Supervise_Stopping)) (\<lambda>_ reg store.
       let terminal = terminal_activation_ids reg in
       (if stopping = [] \<and> terminal = [] then Supervise_Idle else Supervise_Run stopping terminal False, reg, store))"

fun supervise_run :: "run_view list \<Rightarrow> str list \<Rightarrow> bool \<Rightarrow> task" where
  "supervise_run (run # stopping) terminal retry = Complete_Entry run True None (To_Supervisor stopping terminal retry)"
| "supervise_run [] (run_id # terminal) retry = Cleanup_Take run_id (To_Supervisor_Cleanup terminal retry)"
| "supervise_run [] [] retry = (if retry then Supervise_Stopping else Supervise_Idle)"

section \<open>Queries\<close>

definition list_runs :: "run_list_request \<Rightarrow> run_registry \<Rightarrow> run_view list" where
  "list_runs request reg = sort_key (\<lambda>run. (- rn_started_at (rv_record run), rv_run_id run))
     (filter (\<lambda>run. (case rlr_installation_id request of None \<Rightarrow> True | Some i \<Rightarrow> rv_installation_id run = i)
        \<and> (case rlr_status request of None \<Rightarrow> True | Some s \<Rightarrow> rv_status run = s)) (run_values reg))"

definition get_run :: "run_get_request \<Rightarrow> run_registry \<Rightarrow> run_view option" where
  "get_run request reg =
     (case run_of reg (rgr_run_id request) of
        None \<Rightarrow> None
      | Some run \<Rightarrow> if rv_installation_id run = rgr_installation_id request then Some run else None)"

definition status_active_run :: "str \<Rightarrow> run_registry \<Rightarrow> run_view option" where
  "status_active_run installation_id reg =
     find (\<lambda>run. rv_installation_id run = installation_id \<and> is_active (rv_status run)) (run_values reg)"

section \<open>Steps of a task\<close>

text \<open>A step that does not wait for the driver.\<close>

definition keep :: "task \<Rightarrow> run_registry \<Rightarrow> 's \<Rightarrow> 's section_result option" where
  "keep t reg store = Some (t, reg, store)"

fun task_step :: "ext \<Rightarrow> journal_codec \<Rightarrow> 's event_store \<Rightarrow> host_env \<Rightarrow> task \<Rightarrow> run_registry \<Rightarrow> 's
    \<Rightarrow> 's section_result option" where
  "task_step E C step env (Start_Entry request) reg store = keep (start_entry env request) reg store"
| "task_step E C step env (Start_Wait request) reg store = keep (Start_Replay request) reg store"
| "task_step E C step env (Start_Replay request) reg store = start_replay E C step request reg store"
| "task_step E C step env (Start_Claim request preparation) reg store = start_claim E C step env request preparation reg store"
| "task_step E C step env (Start_Confirm request preparation starting) reg store =
     keep (start_confirm env request preparation starting reg) reg store"
| "task_step E C step env (Start_Commit request starting activation) reg store =
     start_commit E C step env request starting activation reg store"
| "task_step E C step env (Start_Fail request starting reason e strict) reg store =
     fail_starting_if_current E C step env request starting reason e strict reg store"
| "task_step E C step env (Start_Resume request prior idempotent) reg store =
     resume_starting_start E C step env request prior idempotent reg store"
| "task_step E C step env (Stop_Entry request) reg store = stop_entry E C step env request reg store"
| "task_step E C step env (Complete_Entry run idempotent claim after) reg store =
     complete_entry E C step run idempotent claim after reg store"
| "task_step E C step env (Complete_Owned run_id idempotent claim after) reg store =
     keep (Cleanup_Take run_id (To_Complete (rr_active reg run_id \<noteq> None) idempotent claim after)) reg store"
| "task_step E C step env (Complete_Commit run_id owned idempotent claim after) reg store =
     complete_commit E C step env run_id owned idempotent claim after reg store"
| "task_step E C step env (Cleanup_Take run_id after) reg store = Some (section_of (cleanup_take run_id after reg) store)"
| "task_step E C step env Hydrate_Entry reg store = hydrate E C step env reg store"
| "task_step E C step env (Loss_Entry run_ids) reg store = keep (loss_entry env run_ids reg) reg store"
| "task_step E C step env (Loss_Mark [] failed) reg store =
     keep (Finished (Loss_Done (if failed then Inl PackageLossCleanupFailed else Inr ()))) reg store"
| "task_step E C step env (Loss_Mark (run_id # rest) failed) reg store = loss_mark E C step env run_id rest failed reg store"
| "task_step E C step env (Loss_Owned run_id rest failed) reg store = keep (loss_owned run_id rest failed reg) reg store"
| "task_step E C step env Supervise_Idle reg store =
     (if rr_cleanup_changed reg then keep Supervise_Stopping (reg\<lparr>rr_cleanup_changed := False\<rparr>) store else None)"
| "task_step E C step env Supervise_Stopping reg store = supervise_stopping E C step reg store"
| "task_step E C step env (Supervise_Terminal stopping) reg store = supervise_terminal E C step stopping reg store"
| "task_step E C step env (Supervise_Run stopping terminal retry) reg store =
     keep (supervise_run stopping terminal retry) reg store"
| "task_step E C step env _ reg store = None"

text \<open>The answers of \<open>RunLifecycleDriver\<close>.\<close>

datatype driver_answer =
    Prepared "run_preparation option"
  | Activated "run_activation option"
  | Stopped bool run_activation

fun driver_step :: "driver_answer \<Rightarrow> task \<Rightarrow> run_registry \<Rightarrow> (task \<times> run_registry) option" where
  "driver_step (Prepared answer) (Start_Prepare request) reg =
     Some (case answer of None \<Rightarrow> start_failed RunDriverFailed | Some preparation \<Rightarrow> start_prepared request preparation, reg)"
| "driver_step (Activated answer) (Start_Activate request preparation starting) reg =
     Some (start_activated request starting answer, reg)"
| "driver_step (Stopped stopped activation) (Start_Undo request starting _ outcome) reg =
     Some (start_undone request starting outcome stopped activation reg)"
| "driver_step (Stopped stopped activation) (Cleanup_Stop run_id _ after) reg =
     Some (cleanup_release run_id stopped activation after reg)"
| "driver_step _ _ reg = None"

end
