(* ===== verification/Run_Effects.thy ===== *)
theory Run_Effects
  imports Run_Registry
begin

text \<open>
  What a section of a handler of \<open>Run_Registry\<close> does to its task and to the owners of activations, as
  one of six effects, and to the journal. \<open>task_step_sound\<close> holds for every store that keeps the contract
  \<open>run_store\<close>; \<open>driver_step_effect\<close> is its counterpart for the answers of the driver.
\<close>

section \<open>What a task holds\<close>

text \<open>The run a start has claimed and not yet settled.\<close>

fun starting_of :: "task \<Rightarrow> run_view option" where
  "starting_of (Start_Confirm request preparation starting) = Some starting"
| "starting_of (Start_Activate request preparation starting) = Some starting"
| "starting_of (Start_Commit request starting activation) = Some starting"
| "starting_of (Start_Undo request starting activation outcome) = Some starting"
| "starting_of _ = None"

text \<open>The run whose activation the driver is asked to stop on behalf of the registry.\<close>

fun cleaning_of :: "task \<Rightarrow> str option" where
  "cleaning_of (Cleanup_Stop run_id activation after) = Some run_id"
| "cleaning_of _ = None"

fun resume_lock :: "after_cleanup \<Rightarrow> str option" where
  "resume_lock (To_Resume request next_run idempotent) = Some (rsr_installation_id request)"
| "resume_lock _ = None"

text \<open>The installation whose start lock the task holds.\<close>

fun start_locked :: "task \<Rightarrow> str option" where
  "start_locked (Start_Replay request) = Some (rsr_installation_id request)"
| "start_locked (Start_Prepare request) = Some (rsr_installation_id request)"
| "start_locked (Start_Claim request preparation) = Some (rsr_installation_id request)"
| "start_locked (Start_Confirm request preparation starting) = Some (rsr_installation_id request)"
| "start_locked (Start_Activate request preparation starting) = Some (rsr_installation_id request)"
| "start_locked (Start_Commit request starting activation) = Some (rsr_installation_id request)"
| "start_locked (Start_Undo request starting activation outcome) = Some (rsr_installation_id request)"
| "start_locked (Start_Fail request starting reason e strict) = Some (rsr_installation_id request)"
| "start_locked (Start_Resume request prior idempotent) = Some (rsr_installation_id request)"
| "start_locked (Cleanup_Take run_id after) = resume_lock after"
| "start_locked (Cleanup_Stop run_id activation after) = resume_lock after"
| "start_locked _ = None"

fun completes_owned :: "after_cleanup \<Rightarrow> bool" where
  "completes_owned (To_Complete owned idempotent claim caller) = owned"
| "completes_owned _ = False"

text \<open>The run whose activation \<open>complete_stopping\<close> found in the registry.\<close>

fun settled_of :: "task \<Rightarrow> str option" where
  "settled_of (Cleanup_Take run_id after) = (if completes_owned after then Some run_id else None)"
| "settled_of (Cleanup_Stop run_id activation after) = (if completes_owned after then Some run_id else None)"
| "settled_of (Complete_Commit run_id owned idempotent claim after) = (if owned then Some run_id else None)"
| "settled_of _ = None"

fun released_of :: "task \<Rightarrow> str option" where
  "released_of (Complete_Commit run_id owned idempotent claim after) = (if owned then Some run_id else None)"
| "released_of _ = None"

definition plain :: "task \<Rightarrow> bool" where
  "plain t \<longleftrightarrow> starting_of t = None \<and> cleaning_of t = None \<and> start_locked t = None \<and> settled_of t = None
     \<and> released_of t = None"

lemma released_settled: "released_of t = Some r \<Longrightarrow> settled_of t = Some r"
  by (cases t) (auto split: if_splits)

section \<open>Effects\<close>

text \<open>What a task keeps of its locks and findings in one step.\<close>

definition keeps :: "run_registry \<Rightarrow> task \<Rightarrow> task \<Rightarrow> bool" where
  "keeps reg t t' \<longleftrightarrow> (start_locked t' = None \<or> start_locked t' = start_locked t)
     \<and> (\<forall>r. settled_of t' = Some r \<longrightarrow> settled_of t = Some r \<or> rr_active reg r \<noteq> None)"

inductive effect :: "task \<Rightarrow> run_registry \<Rightarrow> task \<Rightarrow> run_registry \<Rightarrow> bool" where
  quiet: "effect t reg t' reg'"
    if "rr_active reg' = rr_active reg" "cleaning_of t = None" "cleaning_of t' = None" "keeps reg t t'"
      "starting_of t' = None \<or> starting_of t' = starting_of t \<and> start_locked t' = start_locked t"
      "\<And>r. released_of t' = Some r \<Longrightarrow> released_of t = Some r \<or> settled_of t = Some r \<and> rr_active reg r = None"
| lock: "effect (Start_Wait request) reg (Start_Replay request) reg"
| claim: "effect t reg t' reg'"
    if "rr_active reg' = rr_active reg" "starting_of t = None" "cleaning_of t = None" "cleaning_of t' = None"
      "settled_of t' = None" "starting_of t' = Some v" "start_locked t = Some (rv_installation_id v)"
      "start_locked t' = Some (rv_installation_id v)" "run_of reg (rv_run_id v) = None" "run_of reg' (rv_run_id v) = Some v"
      "\<And>j w. run_of reg' j = Some w \<Longrightarrow> rv_installation_id w = rv_installation_id v \<Longrightarrow> j \<noteq> rv_run_id v
        \<Longrightarrow> rr_active reg j = None"
| commit: "effect t reg t' reg'"
    if "rr_active reg' = (rr_active reg)(rv_run_id v \<mapsto> Available a)" "starting_of t = Some v" "starting_of t' = None"
      "cleaning_of t' = None" "settled_of t' = None" "start_locked t' = None"
| take: "effect t reg t' reg'"
    if "rr_active reg r = Some (Available a)" "rr_active reg' = (rr_active reg)(r \<mapsto> Cleaning)" "cleaning_of t = None"
      "cleaning_of t' = Some r" "starting_of t = None" "starting_of t' = None" "released_of t' = None" "keeps reg t t'"
| release: "effect t reg t' reg'"
    if "cleaning_of t = Some r" "cleaning_of t' = None" "starting_of t' = None" "keeps reg t t'"
      "rr_active reg' = (rr_active reg)(r := x)" "x \<noteq> Some Cleaning"
      "\<And>r'. released_of t' = Some r' \<Longrightarrow> r' = r \<and> x = None"

text \<open>A start that goes on or ends.\<close>

definition start_goes_on :: "task \<Rightarrow> task \<Rightarrow> bool" where
  "start_goes_on t t' \<longleftrightarrow> plain t' \<or> start_locked t' = start_locked t \<and> cleaning_of t' = None \<and> settled_of t' = None
     \<and> (starting_of t' = None \<or> starting_of t' = starting_of t)"

lemma effect_plain: "rr_active reg' = rr_active reg \<Longrightarrow> cleaning_of t = None \<Longrightarrow> plain t' \<Longrightarrow> effect t reg t' reg'"
  by (rule quiet) (auto simp: plain_def keeps_def)

section \<open>Sections under the \<open>apply\<close> lock\<close>

definition same_owners :: "run_registry \<Rightarrow> run_registry \<Rightarrow> bool" where
  "same_owners reg reg' \<longleftrightarrow> rr_active reg' = rr_active reg \<and> rr_driver reg' = rr_driver reg
     \<and> rr_owner_lease reg' = rr_owner_lease reg"

lemma same_owners_simps [simp]: "same_owners reg reg" "same_owners reg (reg\<lparr>rr_state := st\<rparr>)"
  "same_owners reg (notify_one reg') = same_owners reg reg'" "rr_active (notify_one reg') = rr_active reg'"
  "rr_state (notify_one reg') = rr_state reg'" "run_of (notify_one reg') = run_of reg'"
  by (auto simp: same_owners_def notify_one_def run_of_def)

lemma same_owners_trans: "same_owners a b \<Longrightarrow> same_owners b c \<Longrightarrow> same_owners a c"
  by (simp add: same_owners_def)

lemma same_owners_active: "same_owners a b \<Longrightarrow> rr_active b = rr_active a"
  by (simp add: same_owners_def)

lemma run_of_update [simp]: "run_of (reg\<lparr>rr_active := x\<rparr>) = run_of reg" "run_of (reg\<lparr>rr_cleanup_changed := y\<rparr>) = run_of reg"
  "run_of (reg\<lparr>rr_driver := b\<rparr>) = run_of reg" "run_of (reg\<lparr>rr_owner_lease := b\<rparr>) = run_of reg"
  by (auto simp: run_of_def)

lemma run_of_grows:
  assumes "state_grows (rr_state reg) (rr_state reg')" "run_of reg r = Some v"
  obtains w where "run_of reg' r = Some w" "run_grows v w"
  using assms unfolding state_grows_def run_of_def by blast

lemma complete_result_plain:
  assumes "complete_result after r reg = (t', reg')"
  shows "plain t'" "rr_active reg' = rr_active reg" "rr_state reg' = rr_state reg"
  using assms by (auto simp: complete_result_def hydrate_next_def plain_def split: after_complete.splits list.splits if_splits)

lemma cleanup_result_plain:
  assumes "cleanup_result run_id after r reg = (t', reg')"
  shows "rr_active reg' = rr_active reg" "rr_state reg' = rr_state reg" "starting_of t' = None" "cleaning_of t' = None"
    "start_locked t' = None" "settled_of t' = released_of t'"
    "released_of t' = Some x \<Longrightarrow> x = run_id \<and> completes_owned after \<and> r = Inr ()"
  using assms complete_result_plain [of _ "Inl CleanupFailedWhileStopping" "notify_one reg" t' reg']
  by (auto simp: cleanup_result_def plain_def split: after_cleanup.splits sum.splits if_splits)

context run_store
begin

text \<open>What a section leaves behind: the store used as agreed, and a registry that has read no less.\<close>

definition advances :: "run_registry \<Rightarrow> 's \<Rightarrow> run_registry \<Rightarrow> 's \<Rightarrow> bool" where
  "advances reg store reg' store' \<longleftrightarrow> journal_env E C (log store) (log store')
     \<and> ok (rr_state reg') store' \<and> state_grows (rr_state reg) (rr_state reg')"

lemma advances_refl: "ok (rr_state reg) store \<Longrightarrow> advances reg store reg store"
  by (simp add: advances_def)

lemma advances_trans: "advances a s b s' \<Longrightarrow> advances b s' c s'' \<Longrightarrow> advances a s c s''"
  unfolding advances_def by (blast intro: journal_env_trans state_grows_trans)

lemma advances_ok: "advances a s b s' \<Longrightarrow> ok (rr_state b) s'"
  by (simp add: advances_def)

lemma advances_update [simp]: "advances reg s (notify_one reg') s' = advances reg s reg' s'"
  "advances reg s (reg'\<lparr>rr_active := x\<rparr>) s' = advances reg s reg' s'"
  by (simp_all add: advances_def)

lemma synced_cases [consumes 2, case_names failed body]:
  assumes call: "synced E C step failed body reg store = Some (t', reg', store')" and "ok (rr_state reg) store"
  obtains (failed) e reg1 where "advances reg store reg1 store'" "same_owners reg reg1" "failed e reg1 = (t', reg')"
  | (body) m reg1 store1 where "advances reg store reg1 store1" "same_owners reg reg1"
      "replays E C (journal (log store1)) (rr_state reg1)" "body m reg1 store1 = (t', reg', store')"
proof -
  from call obtain r st store1 where sync: "sync_journal E C step (rr_state reg) store = Some (r, st, store1)"
    by (auto simp: synced_def split: option.splits)
  note sound = sync_sound [OF this assms(2)]
  have adv: "advances reg store (reg\<lparr>rr_state := st\<rparr>) store1" using sound by (simp add: advances_def)
  show ?thesis
  proof (cases r)
    case (Inl e)
    obtain t2 reg2 where "failed e (reg\<lparr>rr_state := st\<rparr>) = (t2, reg2)" by force
    then have "failed e (reg\<lparr>rr_state := st\<rparr>) = (t', reg')" "store1 = store'"
      using call sync Inl by (auto simp: synced_def Let_def)
    then show ?thesis using that(1) adv by auto
  next
    case (Inr m)
    then have "body m (reg\<lparr>rr_state := st\<rparr>) store1 = (t', reg', store')" using call sync by (auto simp: synced_def Let_def)
    then show ?thesis using that(2) adv sound(4) [OF Inr] by auto
  qed
qed

lemma append_guarded_cases [consumes 3, case_names refused appended]:
  assumes call: "append_guarded E C step stamp kind p guards reg store = (r, reg', store')"
    and ok: "ok (rr_state reg) store" and codec: "codec_ok C"
  obtains (refused) err where "r = Inl err" "advances reg store reg' store'" "same_owners reg reg'" "run_of reg' = run_of reg"
  | (appended) e where "r = Inr ()" "guards = Inr ()" "advances reg store reg' store'" "same_owners reg reg'"
      "accepted E (rr_state reg) e p" "ev_kind e = kind" "rr_state reg' = advanced e p (rr_state reg)"
      "run_of reg' = (run_of reg)(rv_run_id (jp_run p) \<mapsto> jp_run p)" "replays E C (journal (log store')) (rr_state reg')"
proof (cases guards)
  case (Inl e)
  then have "r = Inl e" "reg' = reg" "store' = store" using call by (auto simp: append_guarded_def)
  then show ?thesis using that(1) ok advances_refl by auto
next
  case (Inr u)
  then obtain st where app: "append_after_guards E C step stamp kind p (rr_state reg) store = (r, st, store')"
      "reg' = reg\<lparr>rr_state := st\<rparr>"
    using call by (auto simp: append_guarded_def split: prod.splits)
  note sound = append_sound [OF app(1) ok codec]
  show ?thesis
  proof (cases r)
    case (Inl e)
    then have "st = rr_state reg" using sound(4) by blast
    then show ?thesis using that(1) Inl sound(1,2) app(2) by (auto simp: advances_def run_of_def)
  next
    case (Inr v)
    then obtain e es where e: "replays E C es (rr_state reg)" "accepted E (rr_state reg) e p"
        "st = advanced e p (rr_state reg)" "replays E C (journal (log store')) st" "ev_kind e = kind"
      using sound(3) by auto
    have "state_grows (rr_state reg) st" using advanced_grows replays_ok e by blast
    then have "advances reg store reg' store'" using sound(1,2) app(2) by (simp add: advances_def)
    moreover have "run_of reg' = (run_of reg)(rv_run_id (jp_run p) \<mapsto> jp_run p)"
      by (rule ext) (simp add: app(2) e(3) run_of_def advanced_def bt_get_insert)
    ultimately show ?thesis using that(2) Inr e app(2) \<open>guards = Inr u\<close> by (cases u) auto
  qed
qed

lemma tracks_state_ok: "ok st store \<Longrightarrow> run_state_ok E st"
  unfolding tracks_def using replays_ok by blast

text \<open>Every section under the lock has one of the effects and keeps the agreement about the store.\<close>

definition sound_section :: "task \<Rightarrow> run_registry \<Rightarrow> 's \<Rightarrow> task \<Rightarrow> run_registry \<Rightarrow> 's \<Rightarrow> bool" where
  "sound_section t reg store t' reg' store' \<longleftrightarrow> effect t reg t' reg' \<and> advances reg store reg' store'"

lemma sound_plain:
  assumes "advances reg store reg' store'" "rr_active reg' = rr_active reg" "cleaning_of t = None" "plain t'"
  shows "sound_section t reg store t' reg' store'"
  using assms effect_plain by (simp add: sound_section_def)

lemma sound_same:
  assumes "advances reg store reg' store'" "rr_active reg' = rr_active reg" "cleaning_of t = None" "cleaning_of t' = None"
    "starting_of t' = None \<or> starting_of t' = starting_of t" "start_locked t' = start_locked t"
    "settled_of t' = settled_of t" "released_of t' = released_of t"
  shows "sound_section t reg store t' reg' store'"
  using assms by (auto simp: sound_section_def keeps_def intro!: quiet)

text \<open>The same after a first part that only read the journal.\<close>

lemma then_plain:
  assumes "advances reg store reg1 store1" "same_owners reg reg1" "advances reg1 store1 reg' store'" "same_owners reg1 reg'"
    "cleaning_of t = None" "plain t'"
  shows "sound_section t reg store t' reg' store'"
  using assms advances_trans same_owners_trans by (blast intro: sound_plain same_owners_active)

lemma then_same:
  assumes "advances reg store reg1 store1" "same_owners reg reg1" "advances reg1 store1 reg' store'" "same_owners reg1 reg'"
    "cleaning_of t = None" "cleaning_of t' = None"
    "starting_of t' = None \<or> starting_of t' = starting_of t" "start_locked t' = start_locked t"
    "settled_of t' = settled_of t" "released_of t' = released_of t"
  shows "sound_section t reg store t' reg' store'"
  using assms advances_trans same_owners_trans by (blast intro: sound_same same_owners_active)

lemma then_start:
  assumes "advances reg store reg1 store1" "same_owners reg reg1" "advances reg1 store1 reg' store'" "same_owners reg1 reg'"
    "cleaning_of t = None" "start_goes_on t t'"
  shows "sound_section t reg store t' reg' store'"
proof (cases "plain t'")
  case True
  then show ?thesis using then_plain assms(1-5) by blast
next
  case False
  have active: "rr_active reg' = rr_active reg" using assms(2,4) by (simp add: same_owners_def)
  have go: "start_locked t' = start_locked t" "cleaning_of t' = None" "settled_of t' = None"
      "starting_of t' = None \<or> starting_of t' = starting_of t"
    using False assms(6) by (auto simp: start_goes_on_def)
  have "effect t reg t' reg'" using active go assms(5) by (intro quiet) (auto simp: keeps_def dest: released_settled)
  then show ?thesis using assms(1-4) by (auto simp: sound_section_def intro: advances_trans)
qed

lemma complete_result_sound:
  assumes "complete_result after r reg1 = (t', reg')" "advances reg store reg1 store'" "rr_active reg1 = rr_active reg"
    "cleaning_of t = None"
  shows "sound_section t reg store t' reg' store'"
  using complete_result_plain [OF assms(1)] assms(2-4)
  by (intro sound_plain) (simp_all add: advances_def)

lemma complete_entry_sound:
  assumes "complete_entry E C step run idempotent claim after reg store = Some (t', reg', store')" "ok (rr_state reg) store"
  shows "sound_section (Complete_Entry run idempotent claim after) reg store t' reg' store'"
  using assms unfolding complete_entry_def
proof (cases rule: synced_cases)
  case (failed e reg1)
  then show ?thesis by (auto simp: complete_failing_def same_owners_def intro: complete_result_sound)
next
  case (body m reg1 store1)
  then show ?thesis
    by (auto simp: Let_def section_of_def same_owners_def plain_def split: option.splits if_splits
        intro: complete_result_sound [OF surjective_pairing] sound_plain)
qed

lemma append_event_cases [consumes 3, case_names refused appended]:
  assumes "append_event E C step env k kind p reg store = (r, reg', store')"
    and "ok (rr_state reg) store" and "codec_ok C"
  obtains (refused) err where "r = Inl err" "advances reg store reg' store'" "same_owners reg reg'" "run_of reg' = run_of reg"
  | (appended) e where "r = Inr ()" "ensure_owner_lease env k reg = Inr ()" "advances reg store reg' store'" "same_owners reg reg'"
      "accepted E (rr_state reg) e p" "ev_kind e = kind" "rr_state reg' = advanced e p (rr_state reg)"
      "run_of reg' = (run_of reg)(rv_run_id (jp_run p) \<mapsto> jp_run p)" "replays E C (journal (log store')) (rr_state reg')"
  using assms(1) unfolding append_event_def by (rule append_guarded_cases [OF _ assms(2,3)]) (use that in auto)

lemma complete_commit_sound:
  assumes "complete_commit E C step env run_id owned idempotent claim after reg store = Some (t', reg', store')"
    and "ok (rr_state reg) store" and codec: "codec_ok C"
  shows "sound_section (Complete_Commit run_id owned idempotent claim after) reg store t' reg' store'" (is "?sound t' reg' store'")
  using assms(1,2) unfolding complete_commit_def
proof (cases rule: synced_cases)
  case (failed e reg1)
  then show ?thesis by (auto simp: complete_failing_def same_owners_def intro: complete_result_sound)
next
  case (body m reg1 store1)
  have stay: "?sound t' reg' store'"
    if "section_of (complete_result after r reg2) store2 = (t', reg', store')" "advances reg1 store1 reg2 store2"
      "same_owners reg1 reg2" for r reg2 store2
    using that body(1,2) by (auto simp: section_of_def same_owners_def
        intro: complete_result_sound [OF surjective_pairing] advances_trans)
  have here: "advances reg1 store1 reg1 store1" using advances_refl [OF advances_ok [OF body(1)]] .
  show ?thesis
  proof (cases "run_of reg1 run_id")
    case None
    then show ?thesis using body(4) stay here by auto
  next
    case (Some durable)
    show ?thesis
    proof (cases "rv_status durable \<noteq> Run_Stopping \<or> (\<exists>e. ensure_owner_lease env 1 reg1 = Inl e)")
      case True
      then show ?thesis using body(4) Some stay [OF _ here] by (auto split: if_splits)
    next
      case False
      then obtain u where lease: "ensure_owner_lease env 1 reg1 = Inr u" by (cases "ensure_owner_lease env 1 reg1") auto
      define terminal where "terminal = terminal_after_cleanup (he_clock env 1) owned durable"
      define kind where "kind = (if rv_status terminal = Run_Stopped then EVENT_RUN_STOPPED else EVENT_RUN_FAILED)"
      obtain r reg2 store2 where app: "append_event E C step env 0 kind \<lparr>jp_run = terminal, jp_idempotency = claim\<rparr> reg1 store1
        = (r, reg2, store2)" by (metis prod_cases3)
      note result = body(4) [unfolded Some lease Let_def, simplified, folded terminal_def, folded kind_def, unfolded app, simplified]
      show ?thesis using app advances_ok [OF body(1)] codec
      proof (cases rule: append_event_cases)
        case (refused err)
        show ?thesis
        proof (cases "is_run_journal_cas_loss err")
          case True
          then have "t' = Complete_Commit run_id owned idempotent claim after" "reg' = reg2" "store' = store2"
            using result False refused(1) by (auto simp: lease)
          then show ?thesis using then_same [OF body(1,2) refused(2,3)] by simp
        next
          case other: False
          then show ?thesis using result False refused stay [of _ "notify_one reg2" store2] by (auto simp: lease)
        qed
      next
        case (appended e)
        then show ?thesis using result False stay by (auto simp: lease)
      qed
    qed
  qed
qed

lemma start_replay_sound:
  assumes "start_replay E C step request reg store = Some (t', reg', store')" "ok (rr_state reg) store"
  shows "sound_section (Start_Replay request) reg store t' reg' store'"
  using assms unfolding start_replay_def
proof (cases rule: synced_cases)
  case (failed e reg1)
  then have "plain t'" "reg' = reg1" by (auto simp: failing_def plain_def)
  then show ?thesis using failed(1,2) advances_refl [OF advances_ok [OF failed(1)]] by (auto intro!: then_plain)
next
  case (body m reg1 store1)
  then have "start_goes_on (Start_Replay request) t'" "reg' = reg1" "store' = store1"
    by (auto simp: start_replayed_def start_goes_on_def plain_def split: sum.splits option.splits if_splits)
  then show ?thesis using body(1,2) advances_refl [OF advances_ok [OF body(1)]] by (auto intro!: then_start)
qed

lemma append_installation_cases [consumes 3, case_names refused appended]:
  assumes "append_with_installation_authority E C step env kind p authority i reg store = (r, reg', store')"
    and "ok (rr_state reg) store" and "codec_ok C"
  obtains (refused) err where "r = Inl err" "advances reg store reg' store'" "same_owners reg reg'" "run_of reg' = run_of reg"
  | (appended) e where "r = Inr ()" "ensure_owner_lease env 0 reg = Inr ()" "authority_current (he_clock env 0) authority i None"
      "advances reg store reg' store'" "same_owners reg reg'"
      "accepted E (rr_state reg) e p" "ev_kind e = kind" "rr_state reg' = advanced e p (rr_state reg)"
      "run_of reg' = (run_of reg)(rv_run_id (jp_run p) \<mapsto> jp_run p)" "replays E C (journal (log store')) (rr_state reg')"
  using assms(1) unfolding append_with_installation_authority_def
  by (rule append_guarded_cases [OF _ assms(2,3)]) (use that in \<open>auto simp: res_simps\<close>)

lemma append_run_cases [consumes 3, case_names refused appended]:
  assumes "append_with_run_authority E C step env kind p authority i run_id reg store = (r, reg', store')"
    and "ok (rr_state reg) store" and "codec_ok C"
  obtains (refused) err where "r = Inl err" "advances reg store reg' store'" "same_owners reg reg'" "run_of reg' = run_of reg"
  | (appended) e where "r = Inr ()" "ensure_owner_lease env 0 reg = Inr ()"
      "authority_current (he_clock env 0) authority i (Some run_id)" "advances reg store reg' store'" "same_owners reg reg'"
      "accepted E (rr_state reg) e p" "ev_kind e = kind" "rr_state reg' = advanced e p (rr_state reg)"
      "run_of reg' = (run_of reg)(rv_run_id (jp_run p) \<mapsto> jp_run p)" "replays E C (journal (log store')) (rr_state reg')"
  using assms(1) unfolding append_with_run_authority_def
  by (rule append_guarded_cases [OF _ assms(2,3)]) (use that in \<open>auto simp: res_simps\<close>)

lemma then_start_here:
  assumes "advances reg store reg1 store1" "same_owners reg reg1" "cleaning_of t = None" "start_goes_on t t'"
  shows "sound_section t reg store t' reg1 store1"
  using then_start [OF assms(1,2) advances_refl [OF advances_ok [OF assms(1)]] _ assms(3,4)] by simp

text \<open>The run that a claim introduces is new, and no other run of its installation is owned.\<close>

lemma claim_effect:
  assumes st: "ok (rr_state reg1) store1" and old: "advances reg store reg1 store1" "same_owners reg reg1"
    and idle: "\<not> installation_busy (rsr_installation_id request) reg1"
    and acc: "accepted E (rr_state reg1) e \<lparr>jp_run = v, jp_idempotency = c\<rparr>" "ev_kind e = EVENT_RUN_STARTING"
    and new: "rr_active reg' = rr_active reg1" "run_of reg' = (run_of reg1)(rv_run_id v \<mapsto> v)"
    and inst: "rv_installation_id v = rsr_installation_id request"
  shows "effect (Start_Claim request preparation) reg (Start_Confirm request preparation v) reg'"
proof (rule claim)
  have sok: "run_state_ok E (rr_state reg1)" using tracks_state_ok [OF st] .
  note wf = run_state_okD(1) [OF sok]
  have "rv_status v = Run_Starting"
    using acc by (auto simp: accepted_iff expected_status_def EVENT_RUN_STARTING_def)
  moreover have "\<not> valid_transition s Run_Starting" for s by (cases s) auto
  ultimately have none: "run_of reg1 (rv_run_id v) = None"
    using acc(1) by (auto simp: accepted_iff run_successor_Inr [OF wf] run_of_def split: option.splits)
  then show "run_of reg (rv_run_id v) = None"
    using run_of_grows [of reg reg1] old(1) by (metis advances_def option.distinct(1) option.exhaust)
  fix j w assume w: "run_of reg' j = Some w" "rv_installation_id w = rv_installation_id v" "j \<noteq> rv_run_id v"
  then have "run_of reg1 j = Some w" using new(2) by simp
  then have "w \<in> set (run_values reg1)" "rv_run_id w = j"
    using run_state_okD(2) [OF sok] by (auto simp: run_of_def run_values_def dest: map_of_SomeD intro!: image_eqI [of _ snd])
  then have "rr_active reg1 j = None" using idle w(2) inst by (auto simp: installation_busy_def list_ex_iff)
  then show "rr_active reg j = None" using old(2) by (simp add: same_owners_def)
qed (use old(2) new inst in \<open>auto simp: same_owners_def\<close>)

lemma start_claim_sound:
  assumes "start_claim E C step env request preparation reg store = Some (t', reg', store')"
    and "ok (rr_state reg) store" and codec: "codec_ok C"
  shows "sound_section (Start_Claim request preparation) reg store t' reg' store'"
  using assms(1,2) unfolding start_claim_def
proof (cases rule: synced_cases)
  case (failed e reg1)
  then have "start_goes_on (Start_Claim request preparation) t'" "reg' = reg1"
    by (auto simp: failing_def plain_def start_goes_on_def)
  then show ?thesis using failed(1,2) by (auto intro!: then_start_here)
next
  case (body m reg1 store1)
  let ?i = "rsr_installation_id request" and ?t = "Start_Claim request preparation"
  have here: "sound_section ?t reg store t' reg' store'" if "(t2, reg1, store1) = (t', reg', store')" "start_goes_on ?t t2" for t2
    using that then_start_here [OF body(1,2)] by auto
  have goes: "start_goes_on ?t (start_failed e)" "start_goes_on ?t (start_replayed request run)" for e run
    by (auto simp: start_goes_on_def plain_def start_replayed_def)
  consider (early) "start_lookup E request reg1 \<noteq> Inr None \<or> installation_busy ?i reg1 \<or> rsr_authority request = None
      \<or> (\<exists>a e. rsr_authority request = Some a \<and> refresh_current_for_installation (he_clock env 1) a ?i = Inl e)"
    | (append) a where "start_lookup E request reg1 = Inr None" "\<not> installation_busy ?i reg1" "rsr_authority request = Some a"
        "refresh_current_for_installation (he_clock env 1) a ?i = Inr ()"
    by (metis old.unit.exhaust option.exhaust sum.exhaust)
  then show ?thesis
  proof cases
    case early
    then show ?thesis
      using body(4) here goes by (auto split: sum.splits option.splits if_splits)
  next
    case append
    define v where "v = starting_run env request preparation"
    define p where "p = \<lparr>jp_run = v, jp_idempotency = Some (start_claim_of E request)\<rparr>"
    obtain r reg2 store2 where app: "append_with_installation_authority E C step env EVENT_RUN_STARTING p a ?i reg1 store1
      = (r, reg2, store2)" by (metis prod_cases3)
    have result: "((case r of Inr _ \<Rightarrow> Start_Confirm request preparation v
        | Inl e \<Rightarrow> if is_run_journal_cas_loss e then ?t else start_failed e), reg2, store2) = (t', reg', store')"
      using body(4) append app unfolding v_def p_def by (simp add: Let_def)
    show ?thesis using app advances_ok [OF body(1)] codec
    proof (cases rule: append_installation_cases)
      case (refused err)
      then have "start_goes_on ?t t'" "reg' = reg2" "store' = store2"
        using result goes by (auto simp: start_goes_on_def plain_def split: if_splits)
      then show ?thesis using then_start [OF body(1,2) refused(2,3)] by simp
    next
      case (appended e)
      have "effect ?t reg (Start_Confirm request preparation v) reg2"
        using claim_effect [OF advances_ok [OF body(1)] body(1,2) append(2) appended(6) [unfolded p_def] appended(7)]
          appended(5,9) by (simp add: same_owners_def p_def v_def starting_run_def)
      then show ?thesis
        using result appended(1,4) advances_trans [OF body(1)] by (auto simp: sound_section_def)
    qed
  qed
qed

lemma commit_effect:
  assumes "same_owners reg reg1" "rr_active reg' = (rr_active reg1)(rv_run_id v \<mapsto> Available a)" "starting_of t = Some v" "plain t'"
  shows "effect t reg t' reg'"
  using assms by (auto simp: same_owners_def plain_def intro!: commit)

lemma start_commit_sound:
  assumes "start_commit E C step env request v activation reg store = Some (t', reg', store')"
    and "ok (rr_state reg) store" and codec: "codec_ok C"
  shows "sound_section (Start_Commit request v activation) reg store t' reg' store'"
  using assms(1,2) unfolding start_commit_def
proof (cases rule: synced_cases)
  case (failed e reg1)
  then have "start_goes_on (Start_Commit request v activation) t'" "reg' = reg1"
    by (auto simp: failing_def plain_def start_goes_on_def)
  then show ?thesis using failed(1,2) by (auto intro!: then_start_here)
next
  case (body m reg1 store1)
  let ?i = "rsr_installation_id request" and ?t = "Start_Commit request v activation"
  have here: "sound_section ?t reg store t' reg' store'" if "(t2, reg1, store1) = (t', reg', store')" "start_goes_on ?t t2" for t2
    using that then_start_here [OF body(1,2)] by auto
  have goes: "start_goes_on ?t (start_failed e)" "start_goes_on ?t (Start_Undo request v activation o')"
      "start_goes_on ?t ?t" for e o'
    by (auto simp: start_goes_on_def plain_def)
  consider (early) "run_of reg1 (rv_run_id v) = None \<or> rsr_authority request = None
      \<or> (\<exists>current. run_of reg1 (rv_run_id v) = Some current \<and> (rv_status current \<noteq> Run_Starting \<or> rv_revision current \<noteq> rv_revision v))"
    | (append) current a where "run_of reg1 (rv_run_id v) = Some current" "rv_status current = Run_Starting"
        "rv_revision current = rv_revision v" "rsr_authority request = Some a"
    by (metis option.exhaust)
  then show ?thesis
  proof cases
    case early
    then show ?thesis using body(4) here goes by (auto simp: Let_def split: option.splits if_splits)
  next
    case append
    define running where "running = running_run current activation"
    obtain r reg2 store2 where app: "append_with_installation_authority E C step env EVENT_RUN_STARTED
        \<lparr>jp_run = running, jp_idempotency = None\<rparr> a ?i reg1 store1 = (r, reg2, store2)" by (metis prod_cases3)
    have result: "(case r of
        Inr _ \<Rightarrow> ((if rr_active reg2 (rv_run_id v) = None then start_ok running False else start_failed OwnershipChanged),
          reg2\<lparr>rr_active := (rr_active reg2)(rv_run_id v \<mapsto> Available activation)\<rparr>, store2)
      | Inl e \<Rightarrow> ((if is_run_journal_cas_loss e then ?t else Start_Undo request v activation (Commit_Failed e)), reg2, store2))
        = (t', reg', store')"
      using body(4) append app unfolding running_def by (simp add: Let_def)
    show ?thesis using app advances_ok [OF body(1)] codec
    proof (cases rule: append_installation_cases)
      case (refused err)
      then have "start_goes_on ?t t'" "reg' = reg2" "store' = store2" using result goes by (auto split: if_splits)
      then show ?thesis using then_start [OF body(1,2) refused(2,3)] by simp
    next
      case (appended e)
      then have "plain t'" "reg' = reg2\<lparr>rr_active := (rr_active reg2)(rv_run_id v \<mapsto> Available activation)\<rparr>" "store' = store2"
        using result by (auto simp: plain_def split: if_splits)
      then show ?thesis
        using appended(4) advances_trans [OF body(1)] commit_effect [OF same_owners_trans [OF body(2) appended(5)]]
        by (auto simp: sound_section_def)
    qed
  qed
qed

lemma fail_starting_sound:
  assumes "fail_starting_if_current E C step env request v reason err strict reg store = Some (t', reg', store')"
    and "ok (rr_state reg) store" and codec: "codec_ok C"
  shows "sound_section (Start_Fail request v reason err strict) reg store t' reg' store'"
  using assms(1,2) unfolding fail_starting_if_current_def Let_def
proof (cases rule: synced_cases)
  case (failed e reg1)
  then have "start_goes_on (Start_Fail request v reason err strict) t'" "reg' = reg1"
    by (auto simp: failing_def plain_def start_goes_on_def)
  then show ?thesis using failed(1,2) by (auto intro!: then_start_here)
next
  case (body m reg1 store1)
  let ?t = "Start_Fail request v reason err strict"
  have goes: "start_goes_on ?t (start_failed e)" "start_goes_on ?t ?t" for e by (auto simp: start_goes_on_def plain_def)
  show ?thesis
  proof (cases "\<exists>current. run_of reg1 (rv_run_id v) = Some current \<and> rv_status current = Run_Starting
      \<and> rv_revision current = rv_revision v")
    case False
    then have "start_goes_on ?t t'" "reg' = reg1" "store' = store1"
      using body(4) goes by (auto split: option.splits if_splits)
    then show ?thesis using then_start_here [OF body(1,2)] by simp
  next
    case True
    then obtain current where cur: "run_of reg1 (rv_run_id v) = Some current" "rv_status current = Run_Starting"
      "rv_revision current = rv_revision v" by blast
    obtain r reg2 store2 where app: "append_event E C step env 0 EVENT_RUN_FAILED
        \<lparr>jp_run = failed_run (he_clock env 0) reason current, jp_idempotency = None\<rparr> reg1 store1 = (r, reg2, store2)"
      by (metis prod_cases3)
    have result: "start_goes_on ?t t'" "reg' = reg2" "store' = store2"
      using body(4) cur app goes by (auto split: sum.splits if_splits)
    show ?thesis using app advances_ok [OF body(1)] codec
      by (cases rule: append_event_cases) (use then_start [OF body(1,2)] result in simp_all)
  qed
qed

lemma resume_sound:
  assumes "resume_starting_start E C step env request prior idempotent reg store = Some (t', reg', store')"
    and "ok (rr_state reg) store" and codec: "codec_ok C"
  shows "sound_section (Start_Resume request prior idempotent) reg store t' reg' store'"
  using assms(1,2) unfolding resume_starting_start_def
proof (cases rule: synced_cases)
  case (failed e reg1)
  then have "start_goes_on (Start_Resume request prior idempotent) t'" "reg' = reg1"
    by (auto simp: failing_def plain_def start_goes_on_def)
  then show ?thesis using failed(1,2) by (auto intro!: then_start_here)
next
  case (body m reg1 store1)
  let ?t = "Start_Resume request prior idempotent" and ?r = "rv_run_id prior" and ?i = "rsr_installation_id request"
  have goes: "start_goes_on ?t (start_failed e)" "start_goes_on ?t (start_ok v b)"
      "start_goes_on ?t (Cleanup_Take r (To_Resume request v b))" "start_goes_on ?t (Start_Resume request v b)" for e v b r
    by (auto simp: start_goes_on_def plain_def)
  show ?thesis
  proof (cases "\<exists>current a. run_of reg1 ?r = Some current \<and> rv_status current = Run_Starting \<and> rsr_authority request = Some a")
    case False
    then have "start_goes_on ?t t'" "reg' = reg1" "store' = store1"
      using body(4) goes by (auto simp: Let_def split: option.splits if_splits prod.splits)
    then show ?thesis using then_start_here [OF body(1,2)] by simp
  next
    case True
    then obtain current a where cur: "run_of reg1 ?r = Some current" "rv_status current = Run_Starting"
      "rsr_authority request = Some a" by blast
    obtain kind v where kv: "(case rr_active reg1 ?r of
        Some (Available activation) \<Rightarrow> (EVENT_RUN_STARTED, running_run current activation)
      | _ \<Rightarrow> (EVENT_RUN_FAILED, interrupted_run (he_clock env 1) ''outcome_unknown'' current)) = (kind, v)" by force
    obtain r reg2 store2 where app: "append_with_installation_authority E C step env kind
        \<lparr>jp_run = v, jp_idempotency = None\<rparr> a ?i reg1 store1 = (r, reg2, store2)" by (metis prod_cases3)
    have result: "start_goes_on ?t t'" "reg' = reg2" "store' = store2"
      using body(4) cur app goes by (auto simp: Let_def kv [simplified] split: sum.splits if_splits)
    show ?thesis using app advances_ok [OF body(1)] codec
      by (cases rule: append_installation_cases) (use then_start [OF body(1,2)] result in simp_all)
  qed
qed

lemma then_plain_here:
  assumes "advances reg store reg1 store1" "same_owners reg reg1" "cleaning_of t = None" "plain t'"
  shows "sound_section t reg store t' reg1 store1"
  using then_plain [OF assms(1,2) advances_refl [OF advances_ok [OF assms(1)]] _ assms(3,4)] by simp

lemma stop_current_plain:
  assumes "stop_current E C step env request authority current reg store = (t', reg', store')"
    and "ok (rr_state reg) store" and codec: "codec_ok C"
  shows "plain t' \<and> advances reg store reg' store' \<and> same_owners reg reg'"
proof (cases "rv_revision current \<noteq> rst_expected_revision request \<or> \<not> is_active (rv_status current) \<or> rv_status current = Run_Stopping")
  case True
  then show ?thesis
    using assms(1) advances_refl [OF assms(2)] by (auto simp: stop_current_def plain_def split: if_splits)
next
  case False
  define reason where "reason = (if rv_status current = Run_Starting then ''explicit_stop_before_start_commit'' else ''explicit_stop'')"
  obtain r reg2 store2 where app: "append_with_run_authority E C step env EVENT_RUN_STOPPING
      \<lparr>jp_run = stopping_run reason current, jp_idempotency = Some (stop_claim_of E request)\<rparr>
      authority (rst_installation_id request) (rst_run_id request) reg store = (r, reg2, store2)" by (metis prod_cases3)
  then have "plain t' \<and> store' = store2 \<and> (reg' = reg2 \<or> reg' = notify_one reg2)"
    using assms(1) False app unfolding stop_current_def Let_def reason_def [symmetric]
    by (auto simp: plain_def split: sum.splits)
  moreover have "advances reg store reg2 store2" "same_owners reg reg2"
    using append_run_cases [OF app assms(2) codec] by blast+
  ultimately show ?thesis by auto
qed

lemma stop_entry_sound:
  assumes "stop_entry E C step env request reg store = Some (t', reg', store')"
    and "ok (rr_state reg) store" and codec: "codec_ok C"
  shows "sound_section (Stop_Entry request) reg store t' reg' store'"
proof (cases "\<exists>a. run_stop_request_validate request = Inr () \<and> rst_authority request = Some a")
  case False
  then have "plain t'" "reg' = reg" "store' = store" using assms(1) by (auto simp: stop_entry_def plain_def split: sum.splits option.splits)
  then show ?thesis using sound_plain [OF advances_refl [OF assms(2)]] by simp
next
  case True
  then obtain a where a: "run_stop_request_validate request = Inr ()" "rst_authority request = Some a" by blast
  from assms(1,2) show ?thesis unfolding stop_entry_def a sum.case option.case
  proof (cases rule: synced_cases)
    case (failed e reg1)
    then have "plain t'" "reg' = reg1" by (auto simp: failing_def plain_def)
    then show ?thesis using failed(1,2) by (auto intro!: then_plain_here)
  next
    case (body m reg1 store1)
    have ok1: "ok (rr_state reg1) store1" using advances_ok [OF body(1)] .
    have "plain t' \<and> advances reg1 store1 reg' store' \<and> same_owners reg1 reg'"
      using body(4) stop_current_plain [OF _ ok1 codec] advances_refl [OF ok1]
      by (auto simp: plain_def split: sum.splits option.splits if_splits)
    then show ?thesis using then_plain [OF body(1,2)] by simp
  qed
qed

lemma hydrate_runs_advances:
  assumes "hydrate_runs E C step env k runs pending reg store = (r, reg', store')" "ok (rr_state reg) store" "codec_ok C"
  shows "advances reg store reg' store' \<and> same_owners reg reg'"
  using assms
proof (induction runs arbitrary: k pending reg store)
  case Nil
  then show ?case using advances_refl by auto
next
  case (Cons run runs)
  show ?case
  proof (cases "rv_status run = Run_Stopping")
    case True
    then show ?thesis using Cons by simp
  next
    case False
    obtain r1 reg1 store1 where app: "append_event E C step env k EVENT_RUN_STOPPING
      \<lparr>jp_run = stopping_run ''host_restart'' run, jp_idempotency = None\<rparr> reg store = (r1, reg1, store1)" by (metis prod_cases3)
    show ?thesis using app Cons.prems(2,3)
    proof (cases rule: append_event_cases)
      case (refused err)
      then show ?thesis using Cons.prems(1) False app by (auto simp: Let_def)
    next
      case (appended e)
      then have "hydrate_runs E C step env (Suc k) runs (pending @ [stopping_run ''host_restart'' run]) reg1 store1 = (r, reg', store')"
        using Cons.prems(1) False app by (simp add: Let_def)
      from Cons.IH [OF this advances_ok [OF appended(3)] Cons.prems(3)] show ?thesis
        using appended(3,4) advances_trans same_owners_trans by blast
    qed
  qed
qed

lemma hydrate_sound:
  assumes "hydrate E C step env reg store = Some (t', reg', store')" and "ok (rr_state reg) store" and codec: "codec_ok C"
  shows "sound_section Hydrate_Entry reg store t' reg' store'"
proof (cases "ensure_owner_lease env 0 reg")
  case (Inl e)
  then have "plain t'" "reg' = reg" "store' = store" using assms(1) by (auto simp: hydrate_def plain_def)
  then show ?thesis using sound_plain [OF advances_refl [OF assms(2)]] by simp
next
  case (Inr u)
  from assms(1,2) show ?thesis unfolding hydrate_def Inr sum.case
  proof (cases rule: synced_cases)
    case (failed e reg1)
    then have "plain t'" "reg' = reg1" by (auto simp: failing_def plain_def)
    then show ?thesis using failed(1,2) by (auto intro!: then_plain_here)
  next
    case (body m reg1 store1)
    let ?runs = "filter (\<lambda>run. is_active (rv_status run)) (run_values reg1)"
    obtain r reg2 store2 where h: "hydrate_runs E C step env 1 ?runs [] reg1 store1 = (r, reg2, store2)" by (metis prod_cases3)
    then have "plain t'" "reg' = reg2" "store' = store2"
      using body(4) by (auto simp: plain_def hydrate_next_def split: sum.splits list.splits)
    then show ?thesis
      using then_plain [OF body(1,2)] hydrate_runs_advances [OF h advances_ok [OF body(1)] codec] by simp
  qed
qed

lemma loss_mark_sound:
  assumes "loss_mark E C step env run_id rest cleanup_failed reg store = Some (t', reg', store')"
    and "ok (rr_state reg) store" and codec: "codec_ok C"
  shows "sound_section (Loss_Mark (run_id # rest) cleanup_failed) reg store t' reg' store'"
  using assms(1,2) unfolding loss_mark_def
proof (cases rule: synced_cases)
  case (failed e reg1)
  then have "plain t'" "reg' = reg1" by (auto simp: failing_def plain_def)
  then show ?thesis using failed(1,2) by (auto intro!: then_plain_here)
next
  case (body m reg1 store1)
  show ?thesis
  proof (cases "\<exists>current. run_of reg1 run_id = Some current \<and> is_active (rv_status current) \<and> rv_status current \<noteq> Run_Stopping")
    case False
    then have "plain t'" "reg' = reg1" "store' = store1"
      using body(4) by (auto simp: plain_def split: option.splits if_splits)
    then show ?thesis using then_plain_here [OF body(1,2)] by simp
  next
    case True
    then obtain current where cur: "run_of reg1 run_id = Some current" "is_active (rv_status current)"
      "rv_status current \<noteq> Run_Stopping" by blast
    obtain r reg2 store2 where app: "append_event E C step env 0 EVENT_RUN_STOPPING
        \<lparr>jp_run = stopping_run ''package_activation_lost'' current, jp_idempotency = None\<rparr> reg1 store1 = (r, reg2, store2)"
      by (metis prod_cases3)
    have "plain t' \<and> store' = store2 \<and> (reg' = reg2 \<or> reg' = notify_one reg2)"
      using body(4) cur app by (auto simp: Let_def plain_def split: sum.splits if_splits)
    moreover have "advances reg1 store1 reg2 store2" "same_owners reg1 reg2"
      using append_event_cases [OF app advances_ok [OF body(1)] codec] by blast+
    ultimately show ?thesis using then_plain [OF body(1,2)] by auto
  qed
qed

lemma supervise_sound:
  assumes "supervise_stopping E C step reg store = Some (t', reg', store')
      \<or> supervise_terminal E C step stopping reg store = Some (t', reg', store')"
    and "ok (rr_state reg) store" "cleaning_of t = None"
  shows "sound_section t reg store t' reg' store'"
proof -
  have "\<exists>reg1 store1. advances reg store reg1 store1 \<and> same_owners reg reg1 \<and> plain t' \<and> reg' = reg1 \<and> store' = store1"
    using assms(1)
  proof
    assume "supervise_stopping E C step reg store = Some (t', reg', store')"
    from this [unfolded supervise_stopping_def] assms(2) show ?thesis
      by (cases rule: synced_cases) (auto simp: failing_def plain_def)
  next
    assume "supervise_terminal E C step stopping reg store = Some (t', reg', store')"
    from this [unfolded supervise_terminal_def] assms(2) show ?thesis
      by (cases rule: synced_cases) (auto simp: failing_def plain_def Let_def)
  qed
  then show ?thesis using then_plain_here assms(3) by blast
qed

lemma cleanup_take_effect:
  assumes "cleanup_take run_id after reg = (t', reg')"
  shows "effect (Cleanup_Take run_id after) reg t' reg' \<and> rr_state reg' = rr_state reg"
proof -
  let ?t = "Cleanup_Take run_id after"
  have same: ?thesis if "cleanup_result run_id after r reg = (t', reg')" "r = Inr () \<longrightarrow> rr_active reg run_id = None" for r
    using cleanup_result_plain [OF that(1)] that(2)
    by (auto simp: keeps_def intro!: quiet)
  show ?thesis
  proof (cases "rr_driver reg \<and> (\<exists>a. rr_active reg run_id = Some (Available a))")
    case True
    then obtain a where "t' = Cleanup_Stop run_id a after" "rr_active reg run_id = Some (Available a)"
        "reg' = reg\<lparr>rr_active := (rr_active reg)(run_id \<mapsto> Cleaning)\<rparr>"
      using assms by (auto simp: cleanup_take_def)
    then show ?thesis by (auto simp: keeps_def intro!: take)
  next
    case False
    then show ?thesis using assms same
      by (auto simp: cleanup_take_def split: if_splits option.splits run_activation_ownership.splits)
  qed
qed

theorem task_step_sound:
  assumes "task_step E C step env t reg store = Some (t', reg', store')" and "ok (rr_state reg) store" and codec: "codec_ok C"
  shows "sound_section t reg store t' reg' store'"
proof -
  have here: "advances reg store reg store" using advances_refl [OF assms(2)] .
  have keeps_task: ?thesis if "keep t2 reg store = Some (t', reg', store')" "effect t reg t2 reg" for t2
    using that here by (auto simp: keep_def sound_section_def)
  have plain_task: ?thesis if "keep t2 reg store = Some (t', reg', store')" "cleaning_of t = None" "plain t2" for t2
    using keeps_task [OF that(1)] effect_plain [OF _ that(2,3)] by simp
  show ?thesis
  proof (cases t)
    case (Start_Entry request)
    then show ?thesis using assms(1) plain_task [of "start_entry env request"]
      by (auto simp: start_entry_def plain_def split: sum.splits option.splits)
  next
    case (Start_Wait request)
    then show ?thesis using assms(1) keeps_task [of "Start_Replay request"] lock by simp
  next
    case (Start_Confirm request preparation v)
    let ?t2 = "start_confirm env request preparation v reg"
    have "cleaning_of ?t2 = None \<and> settled_of ?t2 = None \<and> (plain ?t2 \<or> start_locked ?t2 = start_locked t)
        \<and> (starting_of ?t2 = None \<or> starting_of ?t2 = starting_of t \<and> start_locked ?t2 = start_locked t)"
      by (auto simp: Start_Confirm start_confirm_def plain_def split: sum.splits option.splits)
    then have "effect t reg ?t2 reg"
      using Start_Confirm by (intro quiet) (auto simp: keeps_def plain_def dest: released_settled)
    then show ?thesis using keeps_task [of ?t2] assms(1) Start_Confirm by simp
  next
    case (Complete_Owned run_id idempotent claim after)
    have "effect t reg (Cleanup_Take run_id (To_Complete (rr_active reg run_id \<noteq> None) idempotent claim after)) reg"
      by (rule quiet) (auto simp: keeps_def Complete_Owned)
    then show ?thesis using keeps_task assms(1) Complete_Owned by simp
  next
    case (Cleanup_Take run_id after)
    then have "cleanup_take run_id after reg = (t', reg')" "store' = store" using assms(1) by (auto simp: section_of_def prod_eq_iff)
    then show ?thesis using cleanup_take_effect here Cleanup_Take by (auto simp: sound_section_def advances_def)
  next
    case (Loss_Entry run_ids)
    then show ?thesis using assms(1) plain_task [of "loss_entry env run_ids reg"]
      by (auto simp: loss_entry_def plain_def split: sum.splits)
  next
    case (Loss_Mark run_ids cleanup_failed)
    then show ?thesis using assms loss_mark_sound [OF _ assms(2) codec] plain_task
      by (cases run_ids) (auto simp: plain_def split: if_splits)
  next
    case (Loss_Owned run_id rest cleanup_failed)
    then show ?thesis using assms(1) plain_task [of "loss_owned run_id rest cleanup_failed reg"]
      by (auto simp: loss_owned_def plain_def split: if_splits)
  next
    case Supervise_Idle
    then have "plain t'" "rr_active reg' = rr_active reg" "rr_state reg' = rr_state reg" "store' = store"
      using assms(1) by (auto simp: keep_def plain_def split: if_splits)
    then show ?thesis using sound_plain [of reg store reg' store' t t'] here Supervise_Idle by (simp add: advances_def)
  next
    case (Supervise_Run stopping terminal retry)
    then show ?thesis using assms(1) plain_task [of "supervise_run stopping terminal retry"]
      by (cases "(stopping, terminal, retry)" rule: supervise_run.cases) (auto simp: plain_def split: if_splits)
  next
    case Supervise_Stopping
    then show ?thesis using assms(1) supervise_sound [OF disjI1 assms(2)] by simp
  next
    case (Supervise_Terminal stopping)
    then show ?thesis using assms(1) supervise_sound [OF disjI2 assms(2)] by simp
  qed (use assms start_replay_sound start_claim_sound start_commit_sound fail_starting_sound resume_sound stop_entry_sound
      complete_entry_sound complete_commit_sound hydrate_sound in \<open>simp_all\<close>)
qed

end

section \<open>Answers of the driver\<close>

lemma start_undone_effect:
  assumes "start_undone request v outcome stopped activation reg = (t', reg')"
  shows "effect (Start_Undo request v a outcome) reg t' reg' \<and> rr_state reg' = rr_state reg"
proof (cases stopped)
  case True
  then have "start_goes_on (Start_Undo request v a outcome) t'" "reg' = reg"
    using assms by (auto simp: start_undone_def start_goes_on_def plain_def split: start_commit_outcome.splits)
  then show ?thesis by (auto simp: start_goes_on_def plain_def keeps_def intro!: quiet dest: released_settled)
next
  case False
  then have "plain t'" "rr_active reg' = (rr_active reg)(rv_run_id v \<mapsto> Available activation)" "rr_state reg' = rr_state reg"
    using assms by (auto simp: start_undone_def plain_def Let_def split: if_splits)
  then show ?thesis by (auto simp: plain_def intro!: commit)
qed

lemma cleanup_release_effect:
  assumes "cleanup_release run_id stopped activation after reg = (t', reg')"
  shows "effect (Cleanup_Stop run_id a after) reg t' reg' \<and> rr_state reg' = rr_state reg"
proof -
  obtain x r reg1 where r: "cleanup_result run_id after r reg1 = (t', reg')" "reg1 = reg\<lparr>rr_active := (rr_active reg)(run_id := x)\<rparr>"
      "x \<noteq> Some Cleaning" "r = Inr () \<longrightarrow> x = None"
    using assms by (cases stopped) (auto simp: cleanup_release_def Let_def)
  show ?thesis using cleanup_result_plain [OF r(1)] r(2-4)
    by (auto simp: keeps_def intro!: release [of _ run_id _ _ _ x])
qed

lemma driver_step_effect:
  assumes "driver_step answer t reg = Some (t', reg')"
  shows "effect t reg t' reg' \<and> rr_state reg' = rr_state reg"
  using assms
proof (cases "(answer, t, reg)" rule: driver_step.cases)
  case (1 answer' request reg1)
  then have "start_goes_on t t'" "reg' = reg"
    using assms by (auto simp: start_prepared_def start_goes_on_def plain_def split: option.splits if_splits)
  then show ?thesis using 1 by (auto simp: start_goes_on_def plain_def keeps_def intro!: quiet dest: released_settled)
next
  case (2 answer' request preparation v reg1)
  then have "start_goes_on t t'" "reg' = reg"
    using assms by (auto simp: start_activated_def start_goes_on_def plain_def split: option.splits)
  then show ?thesis using 2 by (auto simp: start_goes_on_def plain_def keeps_def intro!: quiet dest: released_settled)
qed (use assms start_undone_effect cleanup_release_effect in \<open>auto\<close>)

end
