(* ===== verification/Run_System.thy ===== *)
theory Run_System
  imports Run_Effects
begin

text \<open>
  Hosts running the handlers of \<open>Run_Registry\<close> over one event store. A step of the system is a
  section of one task of one host, an answer of its driver, a new call, the installation of the
  driver or of the lease, the death of a host, or any use of the store by others after which the
  journal still replays. The invariant of a host says who owns an activation.
\<close>

section \<open>Hosts\<close>

record run_host =
  ho_reg :: run_registry
  ho_tasks :: "nat \<rightharpoonup> task"

text \<open>\<open>RunRegistry::new\<close> spawns the supervisor.\<close>

definition host_new :: run_host where
  "host_new = \<lparr>ho_reg = run_registry_new, ho_tasks = [0 \<mapsto> Supervise_Idle]\<rparr>"

fun is_call :: "task \<Rightarrow> bool" where
  "is_call (Start_Entry request) = True"
| "is_call (Stop_Entry request) = True"
| "is_call Hydrate_Entry = True"
| "is_call (Loss_Entry run_ids) = True"
| "is_call _ = False"

text \<open>The lock of an installation admits one start at a time.\<close>

definition start_lock :: "nat \<Rightarrow> task \<Rightarrow> (nat \<rightharpoonup> task) \<Rightarrow> bool" where
  "start_lock n t tasks \<longleftrightarrow> (\<forall>request. t = Start_Wait request \<longrightarrow>
     (\<forall>m u. tasks m = Some u \<and> m \<noteq> n \<longrightarrow> start_locked u \<noteq> Some (rsr_installation_id request)))"

inductive host_step :: "ext \<Rightarrow> journal_codec \<Rightarrow> event_envelope list \<Rightarrow> run_host \<Rightarrow> event_envelope list \<Rightarrow> run_host \<Rightarrow> bool"
  for E C where
  called: "host_step E C log h log (h\<lparr>ho_tasks := (ho_tasks h)(n \<mapsto> t)\<rparr>)" if "ho_tasks h n = None" "is_call t"
| worked: "host_step E C log h log' \<lparr>ho_reg = reg', ho_tasks = (ho_tasks h)(n \<mapsto> t')\<rparr>"
    if "ho_tasks h n = Some t" "start_lock n t (ho_tasks h)"
      "task_step E C (shared_step E C) env t (ho_reg h) (log, script) = Some (t', reg', (log', script'))"
| answered: "host_step E C log h log \<lparr>ho_reg = reg', ho_tasks = (ho_tasks h)(n \<mapsto> t')\<rparr>"
    if "ho_tasks h n = Some t" "driver_step answer t (ho_reg h) = Some (t', reg')"
| driver: "host_step E C log h log (h\<lparr>ho_reg := reg'\<rparr>)" if "install_driver (ho_reg h) = (r, reg')"
| lease: "host_step E C log h log (h\<lparr>ho_reg := reg'\<rparr>)" if "install_owner_lease lease_active (ho_reg h) = (r, reg')"
| died: "host_step E C log h log host_new"

inductive reachable :: "ext \<Rightarrow> journal_codec \<Rightarrow> event_envelope list \<Rightarrow> (nat \<Rightarrow> run_host) \<Rightarrow> bool"
  for E C where
  init: "reachable E C log (\<lambda>_. host_new)" if "journal_ok E C log"
| host: "reachable E C log' (hosts(k := h'))" if "reachable E C log hosts" "host_step E C log (hosts k) log' h'"
| others: "reachable E C log' hosts" if "reachable E C log hosts" "journal_env E C log log'"

section \<open>The invariant of a host\<close>

type_synonym owners = "str \<rightharpoonup> run_activation_ownership"

text \<open>Runs, owners, tasks: (1) an owner is of a known run, (2) one per installation; (3) a start holds the
  lock of the installation of its run and nothing of that installation is owned; (4) locks exclude;
  (5--7) a run is being cleaned by exactly one task; (8) a run whose activation was found in the registry
  is not being started; (9) an activation released by a completing task is gone.\<close>

definition owners_ok :: "(str \<rightharpoonup> run_view) \<Rightarrow> owners \<Rightarrow> (nat \<rightharpoonup> task) \<Rightarrow> bool" where
  "owners_ok runs active tasks \<longleftrightarrow>
     (\<forall>r. active r \<noteq> None \<longrightarrow> runs r \<noteq> None)
     \<and> (\<forall>j k v w. active j \<noteq> None \<and> active k \<noteq> None \<and> runs j = Some v \<and> runs k = Some w
          \<and> rv_installation_id v = rv_installation_id w \<longrightarrow> j = k)
     \<and> (\<forall>n t v. tasks n = Some t \<and> starting_of t = Some v \<longrightarrow> start_locked t = Some (rv_installation_id v)
          \<and> (\<exists>w. runs (rv_run_id v) = Some w \<and> rv_installation_id w = rv_installation_id v)
          \<and> (\<forall>j w. runs j = Some w \<and> rv_installation_id w = rv_installation_id v \<longrightarrow> active j = None))
     \<and> (\<forall>n m t u i. tasks n = Some t \<and> tasks m = Some u \<and> start_locked t = Some i \<and> start_locked u = Some i \<longrightarrow> n = m)
     \<and> (\<forall>n t r. tasks n = Some t \<and> cleaning_of t = Some r \<longrightarrow> active r = Some Cleaning)
     \<and> (\<forall>n m t u r. tasks n = Some t \<and> tasks m = Some u \<and> cleaning_of t = Some r \<and> cleaning_of u = Some r \<longrightarrow> n = m)
     \<and> (\<forall>r. active r = Some Cleaning \<longrightarrow> (\<exists>n t. tasks n = Some t \<and> cleaning_of t = Some r))
     \<and> (\<forall>n t r. tasks n = Some t \<and> settled_of t = Some r \<longrightarrow> runs r \<noteq> None
          \<and> (\<forall>m u v. tasks m = Some u \<and> starting_of u = Some v \<longrightarrow> rv_run_id v \<noteq> r))
     \<and> (\<forall>n t r. tasks n = Some t \<and> released_of t = Some r \<longrightarrow> active r = None)"

lemma owners_okD:
  assumes "owners_ok runs active tasks"
  shows "active r \<noteq> None \<Longrightarrow> runs r \<noteq> None"
    and "active j \<noteq> None \<Longrightarrow> active k \<noteq> None \<Longrightarrow> runs j = Some v \<Longrightarrow> runs k = Some w
      \<Longrightarrow> rv_installation_id v = rv_installation_id w \<Longrightarrow> j = k"
    and "tasks n = Some t \<Longrightarrow> starting_of t = Some v \<Longrightarrow> start_locked t = Some (rv_installation_id v)"
    and "tasks n = Some t \<Longrightarrow> starting_of t = Some v
      \<Longrightarrow> \<exists>w. runs (rv_run_id v) = Some w \<and> rv_installation_id w = rv_installation_id v"
    and "tasks n = Some t \<Longrightarrow> starting_of t = Some v \<Longrightarrow> runs j = Some w \<Longrightarrow> rv_installation_id w = rv_installation_id v
      \<Longrightarrow> active j = None"
    and "tasks n = Some t \<Longrightarrow> tasks m = Some u \<Longrightarrow> start_locked t = Some i \<Longrightarrow> start_locked u = Some i \<Longrightarrow> n = m"
    and "tasks n = Some t \<Longrightarrow> cleaning_of t = Some r \<Longrightarrow> active r = Some Cleaning"
    and "tasks n = Some t \<Longrightarrow> tasks m = Some u \<Longrightarrow> cleaning_of t = Some r \<Longrightarrow> cleaning_of u = Some r \<Longrightarrow> n = m"
    and "active r = Some Cleaning \<Longrightarrow> \<exists>n t. tasks n = Some t \<and> cleaning_of t = Some r"
    and "tasks n = Some t \<Longrightarrow> settled_of t = Some r \<Longrightarrow> runs r \<noteq> None"
    and "tasks n = Some t \<Longrightarrow> settled_of t = Some r \<Longrightarrow> tasks m = Some u \<Longrightarrow> starting_of u = Some v \<Longrightarrow> rv_run_id v \<noteq> r"
    and "tasks n = Some t \<Longrightarrow> released_of t = Some r \<Longrightarrow> active r = None"
  using assms unfolding owners_ok_def by metis+

lemma owners_okI:
  assumes "\<And>r. active r \<noteq> None \<Longrightarrow> runs r \<noteq> None"
    and "\<And>j k v w. active j \<noteq> None \<Longrightarrow> active k \<noteq> None \<Longrightarrow> runs j = Some v \<Longrightarrow> runs k = Some w
      \<Longrightarrow> rv_installation_id v = rv_installation_id w \<Longrightarrow> j = k"
    and "\<And>n t v. tasks n = Some t \<Longrightarrow> starting_of t = Some v \<Longrightarrow> start_locked t = Some (rv_installation_id v)"
    and "\<And>n t v. tasks n = Some t \<Longrightarrow> starting_of t = Some v
      \<Longrightarrow> \<exists>w. runs (rv_run_id v) = Some w \<and> rv_installation_id w = rv_installation_id v"
    and "\<And>n t v j w. tasks n = Some t \<Longrightarrow> starting_of t = Some v \<Longrightarrow> runs j = Some w
      \<Longrightarrow> rv_installation_id w = rv_installation_id v \<Longrightarrow> active j = None"
    and "\<And>n m t u i. tasks n = Some t \<Longrightarrow> tasks m = Some u \<Longrightarrow> start_locked t = Some i \<Longrightarrow> start_locked u = Some i \<Longrightarrow> n = m"
    and "\<And>n t r. tasks n = Some t \<Longrightarrow> cleaning_of t = Some r \<Longrightarrow> active r = Some Cleaning"
    and "\<And>n m t u r. tasks n = Some t \<Longrightarrow> tasks m = Some u \<Longrightarrow> cleaning_of t = Some r \<Longrightarrow> cleaning_of u = Some r \<Longrightarrow> n = m"
    and "\<And>r. active r = Some Cleaning \<Longrightarrow> \<exists>n t. tasks n = Some t \<and> cleaning_of t = Some r"
    and "\<And>n t r. tasks n = Some t \<Longrightarrow> settled_of t = Some r \<Longrightarrow> runs r \<noteq> None"
    and "\<And>n t r m u v. tasks n = Some t \<Longrightarrow> settled_of t = Some r \<Longrightarrow> tasks m = Some u \<Longrightarrow> starting_of u = Some v \<Longrightarrow> rv_run_id v \<noteq> r"
    and "\<And>n t r. tasks n = Some t \<Longrightarrow> released_of t = Some r \<Longrightarrow> active r = None"
  shows "owners_ok runs active tasks"
  unfolding owners_ok_def by (intro conjI allI impI; (elim conjE)?) (metis assms)+

section \<open>Preservation\<close>

text \<open>Reading more of the journal.\<close>

definition knows_more :: "(str \<rightharpoonup> run_view) \<Rightarrow> (str \<rightharpoonup> run_view) \<Rightarrow> bool" where
  "knows_more runs runs' \<longleftrightarrow> (\<forall>r v. runs r = Some v \<longrightarrow> (\<exists>w. runs' r = Some w \<and> rv_installation_id w = rv_installation_id v))"

lemma knows_moreD: "knows_more runs runs' \<Longrightarrow> runs r = Some v \<Longrightarrow> \<exists>w. runs' r = Some w \<and> rv_installation_id w = rv_installation_id v"
  by (auto simp: knows_more_def)

lemma state_grows_knows: "state_grows (rr_state reg) (rr_state reg') \<Longrightarrow> knows_more (run_of reg) (run_of reg')"
  unfolding state_grows_def run_of_def knows_more_def run_grows_def by blast

lemma owners_ok_grows:
  assumes ok: "owners_ok runs active tasks" and more: "knows_more runs runs'"
  shows "owners_ok runs' active tasks"
proof (rule owners_okI)
  note D = owners_okD [OF ok]
  have known: "\<exists>v. runs r = Some v" if "active r \<noteq> None" for r using D(1) [OF that] by auto
  have same: "runs r = Some v \<Longrightarrow> runs' r = Some w \<Longrightarrow> rv_installation_id w = rv_installation_id v" for r v w
    using knows_moreD [OF more] by fastforce
  show "runs' r \<noteq> None" if "active r \<noteq> None" for r using known [OF that] knows_moreD [OF more] by blast
  show "j = k" if "active j \<noteq> None" "active k \<noteq> None" "runs' j = Some v" "runs' k = Some w"
      "rv_installation_id v = rv_installation_id w" for j k v w
    using known that D(2) [OF that(1,2)] same by metis
  show "\<exists>w. runs' (rv_run_id v) = Some w \<and> rv_installation_id w = rv_installation_id v"
    if "tasks n = Some t" "starting_of t = Some v" for n t v
    using D(4) [OF that] knows_moreD [OF more] by metis
  show "active j = None" if "tasks n = Some t" "starting_of t = Some v" "runs' j = Some w"
      "rv_installation_id w = rv_installation_id v" for n t v j w
    using known [of j] D(5) [OF that(1,2)] same that(3,4) by metis
  show "runs' r \<noteq> None" if "tasks n = Some t" "settled_of t = Some r" for n t r
    using D(10) [OF that] knows_moreD [OF more] by blast
qed (use owners_okD [OF ok] in metis)+

lemma starting_cleaning: "starting_of t = Some v \<Longrightarrow> cleaning_of t = None" "starting_of t = Some v \<Longrightarrow> settled_of t = None"
  by (cases t; simp)+

lemma unsettled: "settled_of t = None \<Longrightarrow> released_of t = None"
  using released_settled by (cases "released_of t") auto

lemma cleaner_kept:
  assumes "\<exists>m u. tasks m = Some u \<and> cleaning_of u = Some r" "tasks n = Some t" "cleaning_of t \<noteq> Some r"
  shows "\<exists>m u. (tasks(n \<mapsto> t')) m = Some u \<and> cleaning_of u = Some r"
proof -
  from assms obtain m u where m: "tasks m = Some u" "cleaning_of u = Some r" "m \<noteq> n" by (metis option.inject)
  then show ?thesis by (intro exI [of _ m] exI [of _ u]) simp
qed

lemma owners_quiet:
  assumes ok: "owners_ok runs active tasks" and n: "tasks n = Some t"
    and t': "cleaning_of t = None" "cleaning_of t' = None"
      "start_locked t' = None \<or> start_locked t' = start_locked t"
      "\<And>r. settled_of t' = Some r \<Longrightarrow> settled_of t = Some r \<or> active r \<noteq> None"
      "starting_of t' = None \<or> starting_of t' = starting_of t \<and> start_locked t' = start_locked t"
      "\<And>r. released_of t' = Some r \<Longrightarrow> released_of t = Some r \<or> settled_of t = Some r \<and> active r = None"
  shows "owners_ok runs active (tasks(n \<mapsto> t'))"
proof (rule owners_okI)
  note D = owners_okD [OF ok]
  let ?T = "tasks(n \<mapsto> t')"
  have start: "\<exists>u0. tasks m = Some u0 \<and> starting_of u0 = Some v \<and> start_locked u = start_locked u0"
    if "?T m = Some u" "starting_of u = Some v" for m u v
    using that n t'(5) by (cases "m = n") auto
  have lock: "\<exists>u0. tasks m = Some u0 \<and> start_locked u0 = Some i" if "?T m = Some u" "start_locked u = Some i" for m u i
    using that n t'(3) by (cases "m = n") auto
  have clean: "tasks m = Some u \<and> m \<noteq> n" if "?T m = Some u" "cleaning_of u = Some r" for m u r
    using that n t'(2) by (cases "m = n") auto
  have settle: "\<exists>u0. tasks m = Some u0 \<and> settled_of u0 = Some r \<or> active r \<noteq> None" if "?T m = Some u" "settled_of u = Some r" for m u r
    using that n t'(4) by (cases "m = n") auto
  show "start_locked u = Some (rv_installation_id v)" if "?T m = Some u" "starting_of u = Some v" for m u v
    using start [OF that] D(3) by metis
  show "\<exists>w. runs (rv_run_id v) = Some w \<and> rv_installation_id w = rv_installation_id v"
    if "?T m = Some u" "starting_of u = Some v" for m u v using start [OF that] D(4) by metis
  show "active j = None" if "?T m = Some u" "starting_of u = Some v" "runs j = Some w"
      "rv_installation_id w = rv_installation_id v" for m u v j w using start [OF that(1,2)] D(5) that(3,4) by metis
  show "m = k" if "?T m = Some u" "?T k = Some x" "start_locked u = Some i" "start_locked x = Some i" for m k u x i
    using lock [OF that(1,3)] lock [OF that(2,4)] D(6) by metis
  show "active r = Some Cleaning" if "?T m = Some u" "cleaning_of u = Some r" for m u r using clean [OF that] that D(7) by metis
  show "m = k" if "?T m = Some u" "?T k = Some x" "cleaning_of u = Some r" "cleaning_of x = Some r" for m k u x r
    using clean [OF that(1,3)] clean [OF that(2,4)] that(3,4) D(8) by metis
  show "\<exists>m u. ?T m = Some u \<and> cleaning_of u = Some r" if "active r = Some Cleaning" for r
    using cleaner_kept [OF D(9) [OF that] n] t'(1) by simp
  show "runs r \<noteq> None" if "?T m = Some u" "settled_of u = Some r" for m u r
    using settle [OF that] D(1,10) by metis
  show "rv_run_id v \<noteq> r" if s: "?T m = Some u" "settled_of u = Some r" "?T k = Some x" "starting_of x = Some v" for m u r k x v
  proof -
    obtain x0 where x0: "tasks k = Some x0" "starting_of x0 = Some v" using start [OF s(3,4)] by blast
    obtain w where "runs (rv_run_id v) = Some w" "rv_installation_id w = rv_installation_id v" using D(4) [OF x0] by blast
    then have "active (rv_run_id v) = None" using D(5) [OF x0] by blast
    then show ?thesis using settle [OF s(1,2)] D(11) x0 by metis
  qed
  show "active r = None" if "?T m = Some u" "released_of u = Some r" for m u r
    using that n t'(6) D(12) by (metis fun_upd_apply option.inject)
qed (use owners_okD [OF ok] in metis)+

lemma owners_lock:
  assumes ok: "owners_ok runs active tasks" and n: "tasks n = Some (Start_Wait request)"
    and free: "start_lock n (Start_Wait request) tasks"
  shows "owners_ok runs active (tasks(n \<mapsto> Start_Replay request))"
proof -
  note D = owners_okD [OF ok]
  let ?T = "tasks(n \<mapsto> Start_Replay request)"
  have other: "tasks m = Some u \<and> m \<noteq> n"
    if "?T m = Some u" "starting_of u = Some v \<or> cleaning_of u = Some r \<or> settled_of u = Some r \<or> released_of u = Some r" for m u v r
    using that by (auto split: if_splits)
  have lock: "m \<noteq> n \<Longrightarrow> tasks m = Some u \<Longrightarrow> start_locked u \<noteq> Some (rsr_installation_id request)" for m u
    using free by (simp add: start_lock_def)
  show ?thesis
  proof (rule owners_okI)
    show "m = k" if "?T m = Some u" "?T k = Some x" "start_locked u = Some i" "start_locked x = Some i" for m k u x i
      using that lock D(6) [of m u k x i] by (cases "m = n"; cases "k = n") (auto split: if_splits)
    show "\<exists>m u. ?T m = Some u \<and> cleaning_of u = Some r" if "active r = Some Cleaning" for r
      using cleaner_kept [OF D(9) [OF that] n] by simp
  qed (use other D in metis)+
qed

lemma owners_commit:
  assumes ok: "owners_ok runs active tasks" and n: "tasks n = Some t" and v: "starting_of t = Some v"
    and t': "starting_of t' = None" "cleaning_of t' = None" "settled_of t' = None" "start_locked t' = None"
  shows "owners_ok runs (active(rv_run_id v \<mapsto> Available a)) (tasks(n \<mapsto> t'))"
proof -
  note D = owners_okD [OF ok]
  let ?T = "tasks(n \<mapsto> t')" and ?r = "rv_run_id v" and ?A = "active(rv_run_id v \<mapsto> Available a)"
  have rel: "released_of t' = None" using unsettled [OF t'(3)] .
  have other: "tasks m = Some u \<and> m \<noteq> n"
    if "?T m = Some u" "starting_of u = Some v \<or> cleaning_of u = Some r \<or> settled_of u = Some r \<or> released_of u = Some r
      \<or> start_locked u = Some r" for m u v r
    using that t' rel by (auto split: if_splits)
  obtain w where w: "runs ?r = Some w" "rv_installation_id w = rv_installation_id v" using D(4) [OF n v] by blast
  have none: "active ?r = None" using D(5) [OF n v w] .
  have alone: "m = n" if "tasks m = Some u" "starting_of u = Some x" "rv_installation_id x = rv_installation_id v" for m u x
    using D(3) [OF that(1,2)] D(3) [OF n v] D(6) [OF that(1) n] that(3) by simp
  show ?thesis
  proof (rule owners_okI)
    show "runs r \<noteq> None" if "?A r \<noteq> None" for r using that w(1) D(1) by (auto split: if_splits)
    show "j = k" if "?A j \<noteq> None" "?A k \<noteq> None" "runs j = Some x" "runs k = Some y"
        "rv_installation_id x = rv_installation_id y" for j k x y
      using that w D(5) [OF n v] D(2) [of j k x y] by (cases "j = ?r"; cases "k = ?r") auto
    show "?A j = None" if s: "?T m = Some u" "starting_of u = Some x" "runs j = Some y"
      "rv_installation_id y = rv_installation_id x" for m u x j y
    proof -
      have m: "tasks m = Some u" "m \<noteq> n" using other [OF s(1), of x] s(2) by simp_all
      have "j \<noteq> ?r"
      proof
        assume "j = ?r"
        then have "rv_installation_id x = rv_installation_id v" using s(3,4) w by simp
        then show False using alone [OF m(1) s(2)] m(2) by simp
      qed
      then show ?thesis using D(5) [OF m(1) s(2-4)] by simp
    qed
    show "?A r = Some Cleaning" if "?T m = Some u" "cleaning_of u = Some r" for m u r
      using other [OF that(1), of _ r] that D(7) [of m u r] none by auto
    show "\<exists>m u. ?T m = Some u \<and> cleaning_of u = Some r" if "?A r = Some Cleaning" for r
    proof -
      have "active r = Some Cleaning" using that by (simp split: if_splits)
      then show ?thesis using cleaner_kept [OF D(9) n] starting_cleaning(1) [OF v] by simp
    qed
    show "?A r = None" if "?T m = Some u" "released_of u = Some r" for m u r
      using other [of m u] that D(12) [of m u r] D(11) [OF _ released_settled n v, of m u r] by auto
  qed (use other D in metis)+
qed

lemma owners_take:
  assumes ok: "owners_ok runs active tasks" and n: "tasks n = Some t" and r: "active r = Some (Available a)"
    and t': "cleaning_of t = None" "cleaning_of t' = Some r" "starting_of t' = None" "released_of t' = None"
      "start_locked t' = None \<or> start_locked t' = start_locked t"
      "\<And>r. settled_of t' = Some r \<Longrightarrow> settled_of t = Some r \<or> active r \<noteq> None"
  shows "owners_ok runs (active(r \<mapsto> Cleaning)) (tasks(n \<mapsto> t'))"
proof -
  let ?plain = "tasks(n \<mapsto> Supervise_Idle)" and ?T = "tasks(n \<mapsto> t')" and ?A = "active(r \<mapsto> Cleaning)"
  note D = owners_okD [OF ok]
  have other: "tasks m = Some u \<and> m \<noteq> n" if "?T m = Some u" "starting_of u = Some v \<or> released_of u = Some x" for m u v x
    using that t' by (auto split: if_splits)
  have lock: "\<exists>u0. tasks m = Some u0 \<and> start_locked u0 = Some i" if "?T m = Some u" "start_locked u = Some i" for m u i
    using that n t'(5) by (cases "m = n") auto
  have settle: "\<exists>u0. tasks m = Some u0 \<and> settled_of u0 = Some x \<or> active x \<noteq> None" if "?T m = Some u" "settled_of u = Some x" for m u x
    using that n t'(6) by (cases "m = n") auto
  have free: "cleaning_of u \<noteq> Some r" if "tasks m = Some u" for m u using D(7) [OF that, of r] r by auto
  have dom: "?A x \<noteq> None \<longleftrightarrow> active x \<noteq> None" for x using r by simp
  show ?thesis
  proof (rule owners_okI)
    show "runs x \<noteq> None" if "?A x \<noteq> None" for x using that D(1) dom by metis
    show "j = k" if "?A j \<noteq> None" "?A k \<noteq> None" "runs j = Some x" "runs k = Some y"
        "rv_installation_id x = rv_installation_id y" for j k x y using that D(2) dom by metis
    show "?A j = None" if "?T m = Some u" "starting_of u = Some x" "runs j = Some y"
      "rv_installation_id y = rv_installation_id x" for m u x j y
      using other [of m u x] that D(5) [of m u x j y] dom by metis
    show "m = k" if "?T m = Some u" "?T k = Some x" "start_locked u = Some i" "start_locked x = Some i" for m k u x i
      using lock [OF that(1,3)] lock [OF that(2,4)] D(6) by metis
    show "?A x = Some Cleaning" if "?T m = Some u" "cleaning_of u = Some x" for m u x
      using that t'(2) D(7) [of m u x] by (auto split: if_splits)
    show "m = k" if "?T m = Some u" "?T k = Some y" "cleaning_of u = Some x" "cleaning_of y = Some x" for m k u x y
      using that t'(2) free D(8) [of m u k y x] by (auto split: if_splits)
    show "\<exists>m u. ?T m = Some u \<and> cleaning_of u = Some x" if "?A x = Some Cleaning" for x
    proof (cases "x = r")
      case False
      then show ?thesis using cleaner_kept [OF D(9) n] that t'(1) by simp
    qed (use t'(2) in \<open>auto intro!: exI [of _ n] exI [of _ t']\<close>)
    show "runs x \<noteq> None" if "?T m = Some u" "settled_of u = Some x" for m u x
      using settle [OF that] D(1,10) by metis
    show "rv_run_id v \<noteq> x" if s: "?T m = Some u" "settled_of u = Some x" "?T k = Some y" "starting_of y = Some v" for m u x k y v
    proof -
      have y: "tasks k = Some y" using other [OF s(3), of v] s(4) by simp
      then have "active (rv_run_id v) = None" using D(4,5) [OF y s(4)] by metis
      then show ?thesis using settle [OF s(1,2)] D(11) y s(4) by metis
    qed
    show "?A x = None" if "?T m = Some u" "released_of u = Some x" for m u x
      using other [of m u] that D(12) [of m u x] dom by metis
  qed (use other D in metis)+
qed

lemma owners_release:
  assumes ok: "owners_ok runs active tasks" and n: "tasks n = Some t" and r: "cleaning_of t = Some r"
    and t': "cleaning_of t' = None" "starting_of t' = None" "start_locked t' = None \<or> start_locked t' = start_locked t"
      "\<And>r. settled_of t' = Some r \<Longrightarrow> settled_of t = Some r \<or> active r \<noteq> None"
    and x: "x \<noteq> Some Cleaning" "\<And>r'. released_of t' = Some r' \<Longrightarrow> r' = r \<and> x = None"
  shows "owners_ok runs (active(r := x)) (tasks(n \<mapsto> t'))"
proof -
  let ?T = "tasks(n \<mapsto> t')" and ?A = "active(r := x)"
  note D = owners_okD [OF ok]
  have rc: "active r = Some Cleaning" using D(7) [OF n r] .
  have other: "tasks m = Some u \<and> m \<noteq> n" if "?T m = Some u" "starting_of u = Some v \<or> cleaning_of u = Some z" for m u v z
    using that t' by (auto split: if_splits)
  have lock: "\<exists>u0. tasks m = Some u0 \<and> start_locked u0 = Some i" if "?T m = Some u" "start_locked u = Some i" for m u i
    using that n t'(3) by (cases "m = n") auto
  have settle: "\<exists>u0. tasks m = Some u0 \<and> settled_of u0 = Some z \<or> active z \<noteq> None" if "?T m = Some u" "settled_of u = Some z" for m u z
    using that n t'(4) by (cases "m = n") auto
  have dom: "active z \<noteq> None" if "?A z \<noteq> None" for z using that rc by (cases "z = r") auto
  show ?thesis
  proof (rule owners_okI)
    show "runs z \<noteq> None" if "?A z \<noteq> None" for z using that D(1) dom by metis
    show "j = k" if "?A j \<noteq> None" "?A k \<noteq> None" "runs j = Some v" "runs k = Some w"
        "rv_installation_id v = rv_installation_id w" for j k v w using that D(2) dom by metis
    show "?A j = None" if "?T m = Some u" "starting_of u = Some v" "runs j = Some w"
      "rv_installation_id w = rv_installation_id v" for m u v j w
      using other [of m u v] that D(5) [of m u v j w] dom by metis
    show "m = k" if "?T m = Some u" "?T k = Some y" "start_locked u = Some i" "start_locked y = Some i" for m k u y i
      using lock [OF that(1,3)] lock [OF that(2,4)] D(6) by metis
    show "?A z = Some Cleaning" if s: "?T m = Some u" "cleaning_of u = Some z" for m u z
    proof -
      have m: "tasks m = Some u" "m \<noteq> n" using other [OF s(1), of _ z] s(2) by simp_all
      then show ?thesis using D(7) [OF m(1) s(2)] D(8) [OF m(1) n s(2)] r by auto
    qed
    show "\<exists>m u. ?T m = Some u \<and> cleaning_of u = Some z" if z: "?A z = Some Cleaning" for z
    proof -
      have "z \<noteq> r" "active z = Some Cleaning" using z x(1) by (auto split: if_splits)
      then show ?thesis using cleaner_kept [OF D(9) n] r by simp
    qed
    show "runs z \<noteq> None" if "?T m = Some u" "settled_of u = Some z" for m u z
      using settle [OF that] D(1,10) by metis
    show "rv_run_id v \<noteq> z" if s: "?T m = Some u" "settled_of u = Some z" "?T k = Some y" "starting_of y = Some v" for m u z k y v
    proof -
      have y: "tasks k = Some y" using other [OF s(3), of v] s(4) by simp
      then have "active (rv_run_id v) = None" using D(4,5) [OF y s(4)] by metis
      then show ?thesis using settle [OF s(1,2)] D(11) y s(4) by metis
    qed
    show "?A z = None" if "?T m = Some u" "released_of u = Some z" for m u z
      using that x(2) D(12) [of m u z] rc by (cases "m = n") auto
  qed (use other D in metis)+
qed

lemma owners_claim:
  assumes ok: "owners_ok runs0 active tasks" and more: "knows_more runs0 runs" and n: "tasks n = Some t"
    and t: "starting_of t = None" "cleaning_of t = None" "start_locked t = Some (rv_installation_id v)"
    and t': "cleaning_of t' = None" "settled_of t' = None" "starting_of t' = Some v" "start_locked t' = start_locked t"
    and new: "runs0 (rv_run_id v) = None" "runs (rv_run_id v) = Some v"
    and idle: "\<And>j w. runs j = Some w \<Longrightarrow> rv_installation_id w = rv_installation_id v \<Longrightarrow> j \<noteq> rv_run_id v \<Longrightarrow> active j = None"
  shows "owners_ok runs active (tasks(n \<mapsto> t'))"
proof -
  let ?T = "tasks(n \<mapsto> t')"
  note D0 = owners_okD [OF ok] and D = owners_okD [OF owners_ok_grows [OF ok more]]
  have unowned: "active (rv_run_id v) = None" using D0(1) [of "rv_run_id v"] new(1) by fastforce
  have other: "tasks m = Some u \<and> m \<noteq> n" if "?T m = Some u" "cleaning_of u = Some z \<or> settled_of u = Some z \<or> released_of u = Some z" for m u z
    using that t'(1,2) unsettled [OF t'(2)] by (auto split: if_splits)
  have start: "tasks m = Some u \<and> m \<noteq> n \<or> m = n \<and> w = v" if "?T m = Some u" "starting_of u = Some w" for m u w
    using that t'(3) by (auto split: if_splits)
  have lock: "\<exists>u0. tasks m = Some u0 \<and> start_locked u0 = Some i" if "?T m = Some u" "start_locked u = Some i" for m u i
    using that n t'(4) by (cases "m = n") auto
  show ?thesis
  proof (rule owners_okI)
    show "start_locked u = Some (rv_installation_id w)" if "?T m = Some u" "starting_of u = Some w" for m u w
      using start [OF that] that t(3) t'(4) D(3) [of m u w] by auto
    show "\<exists>y. runs (rv_run_id w) = Some y \<and> rv_installation_id y = rv_installation_id w"
      if "?T m = Some u" "starting_of u = Some w" for m u w
      using start [OF that] that new(2) D(4) [of m u w] by auto
    show "active j = None" if "?T m = Some u" "starting_of u = Some w" "runs j = Some y"
      "rv_installation_id y = rv_installation_id w" for m u w j y
      using start [OF that(1,2)] that idle [of j y] unowned D(5) [of m u w j y] by (cases "j = rv_run_id v") auto
    show "m = k" if "?T m = Some u" "?T k = Some y" "start_locked u = Some i" "start_locked y = Some i" for m k u y i
      using lock [OF that(1,3)] lock [OF that(2,4)] D(6) by metis
    show "\<exists>m u. ?T m = Some u \<and> cleaning_of u = Some r" if "active r = Some Cleaning" for r
      using cleaner_kept [OF D(9) [OF that] n] t(2) by simp
    show "rv_run_id w \<noteq> r" if "?T m = Some u" "settled_of u = Some r" "?T k = Some y" "starting_of y = Some w" for m u r k y w
      using other [of m u r] start [of k y w] that D(11) [of m u r k y w] D0(10) [of m u r] new(1) by auto
  qed (use other D in metis)+
qed

lemma effect_owners:
  assumes "effect t reg t' reg'" and ok: "owners_ok (run_of reg) (rr_active reg) tasks" and n: "tasks n = Some t"
    and more: "state_grows (rr_state reg) (rr_state reg')" and free: "start_lock n t tasks"
  shows "owners_ok (run_of reg') (rr_active reg') (tasks(n \<mapsto> t'))"
proof -
  have known: "knows_more (run_of reg) (run_of reg')" using state_grows_knows [OF more] .
  note ok' = owners_ok_grows [OF ok known]
  from assms(1) show ?thesis
  proof cases
    case quiet
    then show ?thesis using owners_quiet [OF ok' n] by (simp add: keeps_def)
  next
    case (lock request)
    then show ?thesis using owners_lock ok n free by simp
  next
    case (claim v)
    then show ?thesis using owners_claim [OF ok known n claim(2,3,7,4,5,6)] by simp
  next
    case (commit v a)
    then show ?thesis using owners_commit [OF ok' n] by simp
  next
    case (take r a)
    then show ?thesis using owners_take [OF ok' n take(1)] by (simp add: keeps_def)
  next
    case (release r x)
    then show ?thesis using owners_release [OF ok' n release(1)] by (simp add: keeps_def)
  qed
qed

definition host_ok :: "ext \<Rightarrow> journal_codec \<Rightarrow> event_envelope list \<Rightarrow> run_host \<Rightarrow> bool" where
  "host_ok E C log h \<longleftrightarrow> tracks E C log (rr_state (ho_reg h)) \<and> owners_ok (run_of (ho_reg h)) (rr_active (ho_reg h)) (ho_tasks h)"

lemma host_new_ok: "host_ok E C log host_new"
proof -
  have "tracks E C log run_state_default" unfolding tracks_def by (metis append_Nil replays_Nil)
  moreover have "owners_ok (run_of run_registry_new) Map.empty [0 \<mapsto> Supervise_Idle]"
    by (rule owners_okI) (auto split: if_splits)
  ultimately show ?thesis by (simp add: host_ok_def host_new_def run_registry_new_def)
qed

lemma is_call_plain: "is_call t \<Longrightarrow> plain t"
  by (cases t) (simp_all add: plain_def)

lemma owners_call:
  assumes ok: "owners_ok runs active tasks" and "tasks n = None" "plain t"
  shows "owners_ok runs active (tasks(n \<mapsto> t))"
proof -
  have "owners_ok runs active (tasks(n \<mapsto> Supervise_Idle))"
  proof -
    note D = owners_okD [OF ok]
    have other: "tasks m = Some u" if "(tasks(n \<mapsto> Supervise_Idle)) m = Some u" "starting_of u = Some v \<or> cleaning_of u = Some z
        \<or> settled_of u = Some z \<or> released_of u = Some z \<or> start_locked u = Some z" for m u v z
      using that by (auto split: if_splits)
    have kept: "\<exists>m u. (tasks(n \<mapsto> Supervise_Idle)) m = Some u \<and> cleaning_of u = Some r" if "active r = Some Cleaning" for r
      using D(9) [OF that] assms(2) by (metis fun_upd_other option.distinct(1))
    show ?thesis by (rule owners_okI) (use other kept D in metis)+
  qed
  from owners_quiet [OF this, of n Supervise_Idle t] assms(3) show ?thesis by (simp add: plain_def)
qed

text \<open>One step of a host keeps its invariant, and uses the store the way the others rely on.\<close>

theorem host_step_ok:
  assumes "host_step E C log h log' h'" "journal_ok E C log" "host_ok E C log h" and codec: "codec_ok C"
  shows "journal_env E C log log' \<and> host_ok E C log' h'"
  using assms(1)
proof cases
  case (called n t)
  then show ?thesis using assms(3) owners_call is_call_plain by (simp add: host_ok_def)
next
  case (worked n t env script t' reg' script')
  have "shared.sound_section E C t (ho_reg h) (log, script) t' reg' (log', script')"
    using shared.task_step_sound [OF worked(4) _ codec] assms(2,3) by (simp add: host_ok_def)
  then show ?thesis
    using worked(1-3) assms(3) effect_owners [of t "ho_reg h" t' reg' "ho_tasks h" n]
    by (auto simp: shared.sound_section_def shared.advances_def host_ok_def)
next
  case (answered n t answer t' reg')
  then have "effect t (ho_reg h) t' reg'" "rr_state reg' = rr_state (ho_reg h)" "start_lock n t (ho_tasks h)"
    using driver_step_effect [OF answered(4)] by (auto simp: start_lock_def)
  then show ?thesis using answered assms(3) effect_owners [of t "ho_reg h" t' reg' "ho_tasks h" n] by (simp add: host_ok_def)
next
  case (driver r reg')
  then have "run_of reg' = run_of (ho_reg h)" "rr_active reg' = rr_active (ho_reg h)" "rr_state reg' = rr_state (ho_reg h)"
    by (auto simp: install_driver_def split: if_splits)
  then show ?thesis using assms(3) driver(1,2) by (simp add: host_ok_def)
next
  case (lease lease_active r reg')
  then have "run_of reg' = run_of (ho_reg h)" "rr_active reg' = rr_active (ho_reg h)" "rr_state reg' = rr_state (ho_reg h)"
    by (auto simp: install_owner_lease_def split: if_splits)
  then show ?thesis using assms(3) lease(1,2) by (simp add: host_ok_def)
next
  case died
  then show ?thesis using host_new_ok by simp
qed

lemma host_ok_env: "host_ok E C log h \<Longrightarrow> journal_ok E C log \<Longrightarrow> journal_env E C log log' \<Longrightarrow> host_ok E C log' h"
  unfolding host_ok_def using tracks_env by blast

theorem reachable_ok:
  assumes "reachable E C log hosts" and codec: "codec_ok C"
  shows "journal_ok E C log \<and> (\<forall>k. host_ok E C log (hosts k))"
  using assms(1)
proof induction
  case (init log)
  then show ?case using host_new_ok by simp
next
  case (host log hosts k log' h')
  then have step: "journal_env E C log log'" "host_ok E C log' h'" using host_step_ok codec by blast+
  then have "journal_ok E C log'" using host.IH by (simp add: journal_env_def)
  moreover have "host_ok E C log' (hosts j)" for j using host_ok_env host.IH step(1) by blast
  ultimately show ?case using step(2) by simp
next
  case (others log hosts log')
  then show ?case using host_ok_env journal_env_def by blast
qed

end
