(* ===== verification/Run_Liveness.thy ===== *)
theory Run_Liveness
  imports Run_System
begin

text \<open>
  A run that is stopping comes to its end: the record that \<open>terminal_after_cleanup\<close> writes is valid
  whenever the stopping record is, and a host that is left in peace reads the journal, has the
  activation stopped and appends the terminal event.
\<close>

section \<open>The terminal record is valid\<close>

definition entry_ok :: "ext \<Rightarrow> str \<times> json \<Rightarrow> bool" where
  "entry_ok E kv \<longleftrightarrow> check_object_entry E (fst kv) (snd kv) = Inr ()
     \<and> validate_portable_value_at E (snd kv) (Some (fst kv)) = Inr ()"

lemma set_bt_of_list_distinct:
  assumes "distinct (map fst fs)"
  shows "set (bt_of_list fs) = set fs"
proof
  have "map_of (rev fs) = map_of fs" using assms by (intro map_of_inject_set [THEN iffD2]) (simp_all add: rev_map [symmetric])
  then show "set fs \<subseteq> set (bt_of_list fs)"
    using assms by (auto simp: bt_get_mem [OF bt_wf_bt_of_list, symmetric] bt_get_of_list)
qed (rule set_bt_of_list)

lemma portable_jobj:
  assumes "distinct (map fst fs)"
  shows "validate_portable_value_at E (jobj fs) f = Inr () \<longleftrightarrow> (\<forall>kv\<in>set fs. entry_ok E kv)"
  by (simp add: jobj_def each_Inr and_then_Inr entry_ok_def set_bt_of_list_distinct [OF assms])

lemma run_record_fields_distinct:
  "distinct (map fst (jfield ''run_id'' a @ jfield ''installation_id'' b @ jopt ''context_id'' f c @ jfield ''status'' d
     @ jvec ''node_instances'' g ns @ jvec ''bindings'' h bs @ jfield ''started_at'' s @ jopt ''stopped_at'' k p @ jfield ''health'' e))"
  by (auto simp: jfield_def jopt_def jvec_def split: option.splits)

lemma node_fields_distinct:
  "distinct (map fst (jfield ''instance_id'' a @ jfield ''node_id'' b @ jfield ''node_path'' c @ jfield ''status'' d
     @ jopt ''realization_id'' f e))"
  by (auto simp: jfield_def jopt_def split: option.splits)

lemma health_fields_distinct:
  "distinct (map fst (jfield ''status'' a @ jopt ''reason_code'' f b @ jvec ''diagnostic_refs'' g c))"
  by (auto simp: jfield_def jopt_def jvec_def split: option.splits)

lemma status_entry: "entry_ok E (''status'', run_status_value x)"
proof -
  have "check_object_entry E ''status'' v = Inr ()" for v by code_simp
  moreover have "validate_portable_value_at E (run_status_value x) (Some ''status'') = Inr ()" by (cases x; hypsubst; code_simp)
  ultimately show ?thesis by (simp add: entry_ok_def)
qed

lemma health_status_entry: "entry_ok E (''status'', health_status_value x)"
proof -
  have "check_object_entry E ''status'' v = Inr ()" for v by code_simp
  moreover have "validate_portable_value_at E (health_status_value x) (Some ''status'') = Inr ()" by (cases x; hypsubst; code_simp)
  ultimately show ?thesis by (simp add: entry_ok_def)
qed

lemma node_status_portable:
  assumes "validate_portable_value_at E (node_instance_value n) f = Inr ()"
  shows "validate_portable_value_at E (node_instance_value (n\<lparr>ni_status := x\<rparr>)) f = Inr ()"
  using assms status_entry [of E x]
  unfolding node_instance_value_def portable_jobj [OF node_fields_distinct] by (auto simp: jfield_def)

lemma nodes_entry:
  assumes "\<forall>kv\<in>set (jvec ''node_instances'' node_instance_value ns). entry_ok E kv"
  shows "\<forall>kv\<in>set (jvec ''node_instances'' node_instance_value (map (\<lambda>n. n\<lparr>ni_status := x\<rparr>) ns)). entry_ok E kv"
proof -
  have "check_object_entry E ''node_instances'' v = Inr ()" for v by code_simp
  then show ?thesis
    using assms node_status_portable
    by (auto simp: jvec_def jarr_def entry_ok_def each_Inr split: if_splits)
qed

lemma health_entry:
  assumes "check_string E reason (Some ''reason_code'') = Inr ()"
  shows "entry_ok E (''health'', run_health_value \<lparr>rh_status = x, rh_reason_code = Some reason, rh_diagnostic_refs = []\<rparr>)"
proof -
  have "check_object_entry E ''health'' v = Inr ()" "check_object_entry E ''reason_code'' (JStr r) = Inr ()" for v r by code_simp+
  then show ?thesis
    using assms health_status_entry [of E x]
    unfolding entry_ok_def run_health_value_def fst_conv snd_conv portable_jobj [OF health_fields_distinct]
    by (auto simp: jfield_def jopt_def jvec_def entry_ok_def)
qed

text \<open>A record with a new status, for all its nodes too, a reason and a stop time.\<close>

definition restated :: "run_status \<Rightarrow> instant option \<Rightarrow> health_status \<Rightarrow> str \<Rightarrow> run_record \<Rightarrow> run_record" where
  "restated status stop health reason r = with_node_status status
     (with_health health (Some reason) (r\<lparr>rn_status := status, rn_stopped_at := stop\<rparr>))"

abbreviation ended :: "instant \<Rightarrow> run_status \<Rightarrow> health_status \<Rightarrow> str \<Rightarrow> run_record \<Rightarrow> run_record" where
  "ended now status \<equiv> restated status (Some now)"

lemma restated_valid:
  assumes "run_record_validate E r = Inr ()" "run_terminal status \<longleftrightarrow> stop \<noteq> None"
    and reason: "check_string E reason (Some ''reason_code'') = Inr ()"
    and stamp: "\<And>now. stop = Some now \<Longrightarrow> rn_started_at r \<le> now \<and> check_string E (rfc3339 E now) (Some ''stopped_at'') = Inr ()"
  shows "run_record_validate E (restated status stop health reason r) = Inr ()"
proof -
  let ?r = "restated status stop health reason r"
  have "validate_portable_value_at E (run_record_value E r) None = Inr ()"
    using assms(1) by (simp add: run_record_validate_def all_ok_Inr validate_portable_value_def)
  note fields = this [unfolded run_record_value_def portable_jobj [OF run_record_fields_distinct]]
  have "check_object_entry E ''stopped_at'' (JStr t) = Inr ()" for t by code_simp
  then have stopped: "\<forall>kv\<in>set (jopt ''stopped_at'' (\<lambda>t. JStr (rfc3339 E t)) stop). entry_ok E kv"
    using stamp by (auto simp: entry_ok_def jopt_def split: option.splits)
  have nodes: "\<forall>kv\<in>set (jvec ''node_instances'' node_instance_value (map (\<lambda>n. n\<lparr>ni_status := status\<rparr>) (rn_node_instances r))). entry_ok E kv"
    using fields by (intro nodes_entry) simp
  have "validate_portable_value_at E (run_record_value E ?r) None = Inr ()"
    using fields status_entry [of E status] health_entry [OF reason, of health] stopped nodes
    unfolding run_record_value_def portable_jobj [OF run_record_fields_distinct]
    by (simp add: restated_def with_node_status_def with_health_def jfield_def ball_Un)
  moreover have "run_active status \<longleftrightarrow> \<not> run_terminal status" by (cases status) simp_all
  ultimately show ?thesis
    using assms(1,2) stamp
    by (auto simp: run_record_validate_def all_ok_Inr unique_loop_Inr ensure_Inr each_Inr validate_portable_value_def
        restated_def with_node_status_def with_health_def comp_def split: option.splits)
qed

lemma ended_valid:
  assumes "run_record_validate E r = Inr ()" "rn_started_at r \<le> now" "run_terminal status"
    and "check_string E reason (Some ''reason_code'') = Inr ()"
    and "check_string E (rfc3339 E now) (Some ''stopped_at'') = Inr ()"
  shows "run_record_validate E (ended now status health reason r) = Inr ()"
  by (rule restated_valid) (use assms in auto)

lemma stopping_run_valid:
  assumes "run_record_validate E (rv_record v) = Inr ()" "check_string E reason (Some ''reason_code'') = Inr ()"
  shows "run_record_validate E (rv_record (stopping_run reason v)) = Inr ()"
  using restated_valid [OF assms(1) _ assms(2), of Run_Stopping None Health_Unknown]
  by (simp add: stopping_run_def next_revision_def restated_def)

lemma ended_records [simp]:
  "rv_record (stopped_run now v) = ended now Run_Stopped Health_Unknown ''explicit_stop'' (rv_record v)"
  "rv_record (failed_run now reason v) = ended now Run_Failed Unhealthy reason (rv_record v)"
  "rv_record (interrupted_run now reason v) = ended now Run_Interrupted Health_Unknown reason (rv_record v)"
  by (simp_all add: stopped_run_def failed_run_def interrupted_run_def next_revision_def restated_def)

lemma terminal_after_cleanup_cases:
  "terminal_after_cleanup now owned v \<in> {stopped_run now v, failed_run now ''package_activation_lost'' v,
     interrupted_run now ''explicit_stop_before_start_commit'' v, interrupted_run now ''host_restart'' v,
     interrupted_run now ''outcome_unknown'' v}"
  by (simp add: terminal_after_cleanup_def Let_def)

lemma terminal_after_cleanup_valid:
  assumes "run_record_validate E (rv_record v) = Inr ()" "rn_started_at (rv_record v) \<le> now"
    "check_string E (rfc3339 E now) (Some ''stopped_at'') = Inr ()"
  shows "run_record_validate E (rv_record (terminal_after_cleanup now owned v)) = Inr ()"
proof -
  have "check_string E ''explicit_stop'' (Some ''reason_code'') = Inr ()"
    "check_string E ''package_activation_lost'' (Some ''reason_code'') = Inr ()"
    "check_string E ''explicit_stop_before_start_commit'' (Some ''reason_code'') = Inr ()"
    "check_string E ''host_restart'' (Some ''reason_code'') = Inr ()"
    "check_string E ''outcome_unknown'' (Some ''reason_code'') = Inr ()" by code_simp+
  note valid = this [THEN ended_valid [OF assms(1,2), rotated, OF _ assms(3)]]
  show ?thesis using terminal_after_cleanup_cases [of now owned v] by (auto simp: valid)
qed

section \<open>A host left in peace\<close>

text \<open>Nobody else uses the store, and it does not fail: the script of interference is empty.\<close>

lemma sync_in_peace:
  assumes "journal_ok E C log" "tracks E C log st" "length (journal log) < 2 ^ 64"
  shows "\<exists>m st'. sync_loop E C (shared_step E C) n st (log, []) = Some (Inr m, st', (log, [])) \<and> replays E C (journal log) st'"
  using assms
proof (induction "unread st (log, [])" arbitrary: n st rule: less_induct)
  case less
  obtain es es' st' where parts: "journal log = es @ es'" "replays E C es st" "replays E C (es @ es') st'"
    using less.prems(1,2) unfolding tracks_def journal_ok_def by metis
  let ?xs = "take JOURNAL_PAGE es'"
  have "length es < 2 ^ 64" using less.prems(3) parts(1) by simp
  then have call: "shared_step E C (journal_page st) (log, []) = (Events ?xs, (log, []))"
    using journal_range [OF parts] by (simp add: journal_page_def)
  note loop = sync_loop.simps [of E C "shared_step E C" n st "(log, [])", unfolded call prod.case spine_reply.case]
  have "es @ es' = (es @ ?xs) @ drop JOURNAL_PAGE es'" by simp
  then obtain st2 where st2: "replays E C (es @ ?xs) st2" using parts(3) replays_prefix by metis
  have run: "apply_events E C ?xs n st = (Inr (n + length ?xs), st2)" by (rule apply_events_replay [OF parts(2) st2])
  show ?case
  proof (cases "length ?xs < JOURNAL_PAGE")
    case True
    then have all: "?xs = es'" by simp
    then have "replays E C (journal log) st2" using st2 parts(1) by simp
    moreover have "st2 = st" if "es' = []" using that st2 parts(2) replays_unique all by force
    ultimately show ?thesis using run True all by (auto simp: loop)
  next
    case False
    then have full: "length ?xs = 1000" by (simp add: JOURNAL_PAGE_def)
    have tracked: "tracks E C log st2" using parts(1) st2 unfolding tracks_def
      by (intro exI [of _ "es @ ?xs"] exI [of _ "drop JOURNAL_PAGE es'"]) simp
    have "unat (rs_next_sequence st) < unat (rs_next_sequence st2)"
      using replays_position [OF parts(2)] replays_position [OF st2] full by (simp add: position_ok_def)
    then have "unread st2 (log, []) < unread st (log, [])" using tracks_next_le [OF tracked] by (simp add: unread_def)
    from less.hyps [OF this less.prems(1) tracked less.prems(3), of "n + length ?xs"]
    show ?thesis using run False by (auto simp: loop JOURNAL_PAGE_def)
  qed
qed

lemma synced_in_peace:
  assumes "journal_ok E C log" "tracks E C log (rr_state reg)" "length (journal log) < 2 ^ 64" "replays E C (journal log) st"
  shows "synced E C (shared_step E C) failed (\<lambda>_. body) reg (log, []) = Some (body (reg\<lparr>rr_state := st\<rparr>) (log, []))"
proof -
  obtain m st' where "sync_loop E C (shared_step E C) 0 (rr_state reg) (log, []) = Some (Inr m, st', (log, []))"
      "replays E C (journal log) st'"
    using sync_in_peace [OF assms(1-3)] by blast
  then show ?thesis using replays_unique [OF assms(4)] by (auto simp: synced_def sync_journal_def Let_def)
qed

lemma journal_next:
  assumes "replays E C (journal log) st" "length (journal log) < 2 ^ 64"
  shows "spine_next JOURNAL_SESSION log = Inr (rs_next_sequence st)"
proof (cases "journal log" rule: rev_cases)
  case Nil
  then have "st = run_state_default" using assms(1) by (simp add: replays_Nil)
  then show ?thesis using Nil by (simp add: spine_next_def run_state_default_def)
next
  case (snoc es e)
  let ?n = "ev_sequence e"
  have n: "unat ?n = length es"
    using nth_numbered [OF journal_numbered [OF assms(1)], of "length es"] snoc by simp
  have less: "Suc (length es) < 2 ^ 64" using assms(2) snoc by simp
  have rest: "unat (rs_next_sequence st) = Suc (length es)"
    using replays_position [OF assms(1)] snoc less by (simp add: position_ok_def)
  have "unat (?n + 1) = Suc (length es)" using n less by (simp add: unat_word_ariths)
  then have "?n + 1 = rs_next_sequence st" using rest by (intro unsigned_word_eqI [where 'a = nat]) simp
  moreover have "?n \<noteq> - 1" using calculation rest by auto
  ultimately show ?thesis using snoc by (simp add: spine_next_def)
qed

lemma guarded_in_peace:
  assumes "journal_ok E C log" "replays E C (journal log) (rr_state reg)" "length (journal log) < 2 ^ 64" "codec_ok C"
    and fresh: "fst stamp \<notin> ev_id ` set log"
    and valid: "validate_journal_event E (rr_state reg) (rs_next_sequence (rr_state reg)) kind p = Inr ()"
  obtains e where "append_guarded E C (shared_step E C) stamp kind p (Inr ()) reg (log, [])
      = (Inr (), reg\<lparr>rr_state := advanced e p (rr_state reg)\<rparr>, (log @ [e], []))"
    "replays E C (journal (log @ [e])) (advanced e p (rr_state reg))" "journal_ok E C (log @ [e])"
    "ev_id e = fst stamp" "journal (log @ [e]) = journal log @ [e]"
proof -
  let ?st = "rr_state reg" and ?d = "journal_draft C stamp kind p"
  let ?call = "Append_If_Next JOURNAL_SESSION (rs_next_sequence ?st) ?d"
  define e where "e = envelope JOURNAL_SESSION (rs_next_sequence ?st) ?d"
  note seq = journal_next [OF assms(2,3)]
  have id: "ev_id e = fst stamp" by (simp add: e_def envelope_def journal_draft_def)
  moreover have "(ev_session_id e, ev_sequence e) \<notin> positions log"
    using spine_next_above [OF seq] by (force simp: positions_iff e_def envelope_def)
  ultimately have call: "spine_step ?call log = (Appended e, log @ [e])"
    using seq fresh by (simp add: spine_append_def flip: e_def)
  note appends = cas_appends [OF assms(1) tracks_full [OF assms(2)] assms(4) call valid]
  have "append_after_guards E C (shared_step E C) stamp kind p ?st (log, [])
      = (Inr (), advanced e p ?st, (log @ [e], []))"
    using valid appends(5) unfolding append_after_guards_def Let_def shared_step.simps call by simp
  then show ?thesis
    using appends(2,6,7) id by (intro that [of e]) (simp_all add: append_guarded_def)
qed

lemma append_in_peace:
  assumes "journal_ok E C log" "replays E C (journal log) (rr_state reg)" "length (journal log) < 2 ^ 64" "codec_ok C"
    and lease: "ensure_owner_lease env k reg = Inr ()" and fresh: "fst (he_stamp env k) \<notin> ev_id ` set log"
    and valid: "validate_journal_event E (rr_state reg) (rs_next_sequence (rr_state reg)) kind p = Inr ()"
  obtains e where "append_event E C (shared_step E C) env k kind p reg (log, [])
      = (Inr (), reg\<lparr>rr_state := advanced e p (rr_state reg)\<rparr>, (log @ [e], []))"
    "replays E C (journal (log @ [e])) (advanced e p (rr_state reg))"
  by (rule guarded_in_peace [OF assms(1-4) fresh valid]) (use that lease in \<open>auto simp: append_event_def\<close>)

lemma authorised_in_peace:
  assumes "journal_ok E C log" "replays E C (journal log) (rr_state reg)" "length (journal log) < 2 ^ 64" "codec_ok C"
    and fresh: "fst (he_stamp env 0) \<notin> ev_id ` set log"
    and valid: "validate_journal_event E (rr_state reg) (rs_next_sequence (rr_state reg)) kind p = Inr ()"
    and lease: "ensure_owner_lease env 0 reg = Inr ()" and authority: "authority_current (he_clock env 0) authority i None"
  obtains e where "append_with_installation_authority E C (shared_step E C) env kind p authority i reg (log, [])
      = (Inr (), reg\<lparr>rr_state := advanced e p (rr_state reg)\<rparr>, (log @ [e], []))"
    "replays E C (journal (log @ [e])) (advanced e p (rr_state reg))" "journal_ok E C (log @ [e])"
    "ev_id e = fst (he_stamp env 0)" "journal (log @ [e]) = journal log @ [e]"
proof (rule guarded_in_peace [OF assms(1-4) fresh valid])
  fix e
  assume e: "append_guarded E C (shared_step E C) (he_stamp env 0) kind p (Inr ()) reg (log, [])
      = (Inr (), reg\<lparr>rr_state := advanced e p (rr_state reg)\<rparr>, (log @ [e], []))"
    and rest: "replays E C (journal (log @ [e])) (advanced e p (rr_state reg))" "journal_ok E C (log @ [e])"
    "ev_id e = fst (he_stamp env 0)" "journal (log @ [e]) = journal log @ [e]"
  have "refresh_current_for_installation (he_clock env 0) authority i = Inr ()" using authority by (simp add: res_simps)
  then show thesis using that [of e] e rest lease by (simp add: append_with_installation_authority_def)
qed

section \<open>Completing a stop\<close>

lemma terminal_after_cleanup_next:
  assumes "rv_status v = Run_Stopping"
  defines "t \<equiv> \<lambda>now owned. terminal_after_cleanup now owned v"
  shows "rv_run_id (t now owned) = rv_run_id v" "rv_installation_id (t now owned) = rv_installation_id v"
    "rv_installation_revision (t now owned) = rv_installation_revision v" "rv_entrypoint_id (t now owned) = rv_entrypoint_id v"
    "rv_revision (t now owned) = saturating_add (rv_revision v) 1" "valid_transition (rv_status v) (rv_status (t now owned))"
    "\<not> is_active (rv_status (t now owned))"
    "rv_status (t now owned) \<noteq> Run_Stopped \<Longrightarrow> rv_status (t now owned) \<in> {Run_Failed, Run_Interrupted}"
  using terminal_after_cleanup_cases [of now owned v] assms(1)
  by (auto simp: t_def restated_def with_node_status_def with_health_def stopped_run_def failed_run_def interrupted_run_def next_revision_def)

lemma terminal_event_valid:
  assumes "run_state_ok E st" and v: "bt_get (rs_runs st) r = Some v" "rv_status v = Run_Stopping"
    and "rn_started_at (rv_record v) \<le> now" "check_string E (rfc3339 E now) (Some ''stopped_at'') = Inr ()"
    and t_def: "t = terminal_after_cleanup now owned v"
  shows "validate_journal_event E st (rs_next_sequence st)
    (if rv_status t = Run_Stopped then EVENT_RUN_STOPPED else EVENT_RUN_FAILED) \<lparr>jp_run = t, jp_idempotency = None\<rparr> = Inr ()"
proof -
  note ends = terminal_after_cleanup_next [OF v(2), of now owned, folded t_def]
  have "run_record_validate E (rv_record t) = Inr ()"
    unfolding t_def by (rule terminal_after_cleanup_valid [OF run_state_okD(3) [OF assms(1) v(1)] assms(4,5)])
  moreover have "run_successor st kind t = Inr ()" for kind
    using ends(1-6) v run_state_okD(2) [OF assms(1) v(1)] by (simp add: run_successor_Inr [OF run_state_okD(1) [OF assms(1)]])
  moreover have "expected_status (if rv_status t = Run_Stopped then EVENT_RUN_STOPPED else EVENT_RUN_FAILED) (rv_status t) = Inr (rv_status t)"
    using ends(8) by (auto simp: expected_status_def EVENT_RUN_STARTING_def EVENT_RUN_STARTED_def EVENT_RUN_STOPPING_def
        EVENT_RUN_STOPPED_def EVENT_RUN_FAILED_def demand_def)
  ultimately show ?thesis by (simp add: validate_journal_event_def res_simps claim_agrees_def demand_def)
qed

text \<open>A driver that does what it is asked to.\<close>

record run_driver =
  rd_prepare :: "run_start_request \<Rightarrow> run_preparation"
  rd_activate :: "str \<Rightarrow> run_preparation \<Rightarrow> run_activation"

fun willing :: "run_driver \<Rightarrow> task \<Rightarrow> driver_answer option" where
  "willing D (Start_Prepare request) = Some (Prepared (Some (rd_prepare D request)))"
| "willing D (Start_Activate request preparation starting) = Some (Activated (Some (rd_activate D (rv_run_id starting) preparation)))"
| "willing D (Start_Undo request starting activation outcome) = Some (Stopped True activation)"
| "willing D (Cleanup_Stop run_id activation after) = Some (Stopped True activation)"
| "willing D t = None"

text \<open>The next step of one task of a host that nobody disturbs: no other task, no other host, no failure
  of the store. What is read from the surroundings depends on the length of the log.\<close>

definition alone :: "ext \<Rightarrow> journal_codec \<Rightarrow> run_driver \<Rightarrow> (nat \<Rightarrow> host_env) \<Rightarrow> task \<times> run_registry \<times> event_envelope list
    \<Rightarrow> (task \<times> run_registry \<times> event_envelope list) option" where
  "alone E C D envs x = (case x of (t, reg, log) \<Rightarrow>
     (case willing D t of
        Some answer \<Rightarrow> map_option (\<lambda>(t', reg'). (t', reg', log)) (driver_step answer t reg)
      | None \<Rightarrow> map_option (\<lambda>(t', reg', store'). (t', reg', fst store'))
          (task_step E C (shared_step E C) (envs (length log)) t reg (log, []))))"

abbreviation peaceful :: "ext \<Rightarrow> journal_codec \<Rightarrow> run_driver \<Rightarrow> (nat \<Rightarrow> host_env) \<Rightarrow> task \<times> run_registry \<times> event_envelope list
    \<Rightarrow> task \<times> run_registry \<times> event_envelope list \<Rightarrow> bool" where
  "peaceful E C D envs x y \<equiv> alone E C D envs x = Some y"

lemma peaceful_work:
  assumes "willing D t = None" "task_step E C (shared_step E C) (envs (length log)) t reg (log, []) = Some (t', reg', (log', s'))"
  shows "peaceful E C D envs (t, reg, log) (t', reg', log')"
  using assms by (simp add: alone_def del: task_step.simps)

lemma peaceful_answer:
  assumes "willing D t = Some answer" "driver_step answer t reg = Some (t', reg')"
  shows "peaceful E C D envs (t, reg, log) (t', reg', log)"
  using assms by (simp add: alone_def del: driver_step.simps)

lemma peaceful_star: "peaceful E C D envs x y \<Longrightarrow> (peaceful E C D envs)\<^sup>*\<^sup>* y z \<Longrightarrow> (peaceful E C D envs)\<^sup>*\<^sup>* x z"
  by (rule converse_rtranclp_into_rtranclp)

lemma complete_entry_peaceful:
  assumes "journal_ok E C log" "tracks E C log (rr_state reg)" "length (journal log) < 2 ^ 64"
    and "replays E C (journal log) st" "bt_get (rs_runs st) (rv_run_id run) = Some v" "rv_status v = Run_Stopping"
  shows "peaceful E C D envs (Complete_Entry run idempotent claim after, reg, log)
    (Complete_Owned (rv_run_id run) idempotent claim after, reg\<lparr>rr_state := st\<rparr>, log)"
proof -
  have "complete_entry E C (shared_step E C) run idempotent claim after reg (log, [])
      = Some (Complete_Owned (rv_run_id run) idempotent claim after, reg\<lparr>rr_state := st\<rparr>, (log, []))"
    unfolding complete_entry_def synced_in_peace [OF assms(1-4)] using assms(5,6)
    by (simp add: Let_def run_of_def)
  then show ?thesis by (intro peaceful_work [where s' = "[]"]) simp_all
qed

lemma cleanup_peaceful:
  assumes "rr_driver reg" "rr_active reg r \<noteq> Some Cleaning"
  shows "(peaceful E C D envs)\<^sup>*\<^sup>* (Complete_Owned r idempotent claim after, reg, log)
    (Complete_Commit r (rr_active reg r \<noteq> None) idempotent claim after, reg\<lparr>rr_active := (rr_active reg)(r := None)\<rparr>, log)"
proof -
  let ?owned = "rr_active reg r \<noteq> None" and ?reg = "reg\<lparr>rr_active := (rr_active reg)(r := None)\<rparr>"
  let ?after = "To_Complete ?owned idempotent claim after"
  have 1: "peaceful E C D envs (Complete_Owned r idempotent claim after, reg, log) (Cleanup_Take r ?after, reg, log)"
    by (rule peaceful_work [where s' = "[]"]) (simp_all add: keep_def)
  show ?thesis
  proof (cases "rr_active reg r")
    case None
    then have same: "?reg = reg" by (simp add: fun_upd_idem)
    have 2: "peaceful E C D envs (Cleanup_Take r ?after, reg, log) (Complete_Commit r False idempotent claim after, reg, log)"
      using None assms(1)
      by (intro peaceful_work [where s' = "[]"]) (simp_all add: cleanup_take_def cleanup_result_def section_of_def)
    show ?thesis using peaceful_star [OF 1 peaceful_star [OF 2 rtranclp.rtrancl_refl]] None unfolding same by simp
  next
    case (Some owner)
    then obtain a where a: "rr_active reg r = Some (Available a)" using assms(2) by (cases owner) auto
    have 2: "peaceful E C D envs (Cleanup_Take r ?after, reg, log)
        (Cleanup_Stop r a ?after, reg\<lparr>rr_active := (rr_active reg)(r \<mapsto> Cleaning)\<rparr>, log)"
      using a assms(1) by (intro peaceful_work [where s' = "[]"]) (simp_all add: cleanup_take_def section_of_def)
    have 3: "peaceful E C D envs (Cleanup_Stop r a ?after, reg\<lparr>rr_active := (rr_active reg)(r \<mapsto> Cleaning)\<rparr>, log)
        (Complete_Commit r True idempotent claim after, ?reg, log)"
      using a by (intro peaceful_answer [where answer = "Stopped True a"]) (simp_all add: cleanup_release_def cleanup_result_def Let_def)
    show ?thesis using peaceful_star [OF 1 peaceful_star [OF 2 peaceful_star [OF 3 rtranclp.rtrancl_refl]]] a by simp
  qed
qed

lemma complete_commit_peaceful:
  assumes "journal_ok E C log" "tracks E C log (rr_state reg)" "length (journal log) < 2 ^ 64" "codec_ok C"
    and "replays E C (journal log) st" "bt_get (rs_runs st) r = Some v" "rv_status v = Run_Stopping"
    and env: "env = envs (length log)"
    and lease: "\<And>k. he_lease env k" and fresh: "fst (he_stamp env 0) \<notin> ev_id ` set log"
    and clock: "rn_started_at (rv_record v) \<le> he_clock env 1"
      "check_string E (rfc3339 E (he_clock env 1)) (Some ''stopped_at'') = Inr ()"
    and t_def: "t = terminal_after_cleanup (he_clock env 1) owned v"
  obtains e st' where "replays E C (journal (log @ [e])) st'" "bt_get (rs_runs st') r = Some t"
    "peaceful E C D envs (Complete_Commit r owned idempotent None after, reg, log)
      (fst (complete_result after (Inr \<lparr>mr_run = t, mr_idempotent = idempotent\<rparr>) (reg\<lparr>rr_state := st'\<rparr>)),
       snd (complete_result after (Inr \<lparr>mr_run = t, mr_idempotent = idempotent\<rparr>) (reg\<lparr>rr_state := st'\<rparr>)), log @ [e])"
proof -
  let ?kind = "if rv_status t = Run_Stopped then EVENT_RUN_STOPPED else EVENT_RUN_FAILED"
  let ?p = "\<lparr>jp_run = t, jp_idempotency = None\<rparr>" and ?reg = "reg\<lparr>rr_state := st\<rparr>"
  have sok: "run_state_ok E st" using replays_ok [OF assms(5)] .
  have held: "ensure_owner_lease env k x = Inr ()" for k x using lease by (simp add: ensure_owner_lease_def demand_def)
  have id: "rv_run_id t = r"
    using terminal_after_cleanup_next(1) [OF assms(7)] run_state_okD(2) [OF sok assms(6)] by (simp add: t_def)
  obtain e where e: "append_event E C (shared_step E C) env 0 ?kind ?p ?reg (log, [])
      = (Inr (), ?reg\<lparr>rr_state := advanced e ?p st\<rparr>, (log @ [e], []))"
    "replays E C (journal (log @ [e])) (advanced e ?p st)"
    by (rule append_in_peace [OF assms(1) _ assms(3,4) held fresh, of ?reg ?kind ?p])
       (use assms(5) terminal_event_valid [OF sok assms(6,7) clock t_def] in simp_all)
  have "complete_commit E C (shared_step E C) env r owned idempotent None after reg (log, [])
      = Some (section_of (complete_result after (Inr \<lparr>mr_run = t, mr_idempotent = idempotent\<rparr>)
          (reg\<lparr>rr_state := advanced e ?p st\<rparr>)) (log @ [e], []))"
    unfolding complete_commit_def synced_in_peace [OF assms(1-3,5)] using assms(6,7) e(1) held
    by (simp add: Let_def run_of_def t_def [symmetric] del: One_nat_def)
  then show ?thesis
    using id e(2) by (intro that [of e "advanced e ?p st"])
      (auto simp: advanced_def bt_get_insert section_of_def env intro!: peaceful_work [where s' = "[]"])
qed

section \<open>Completing a start\<close>

lemma starting_event_valid:
  assumes "bt_wf (rs_runs st)" "rs_idempotency st (rsr_installation_id request, Start_Operation, idempotency_key_hash E (rsr_idempotency_key request)) = None"
    and "\<not> installation_busy (rsr_installation_id request) reg" "rr_state reg = st"
    and "bt_get (rs_runs st) (he_run_id env) = None" "run_record_validate E (rv_record v) = Inr ()"
    and v: "v = starting_run env request preparation"
  shows "validate_journal_event E st (rs_next_sequence st) EVENT_RUN_STARTING
    \<lparr>jp_run = v, jp_idempotency = Some (start_claim_of E request)\<rparr> = Inr ()"
proof -
  have v': "rv_run_id v = he_run_id env" "rv_installation_id v = rsr_installation_id request" "rv_status v = Run_Starting"
      "rv_revision v = 1" by (simp_all add: v starting_run_def)
  have "\<not> is_active (rv_status w)" if "bt_get (rs_runs st) j = Some w" "rv_installation_id w = rsr_installation_id request" for j w
  proof -
    have "w \<in> set (run_values reg)"
      using map_of_SomeD [OF that(1)] assms(4) by (auto simp: run_values_def intro!: image_eqI [of _ snd])
    then show ?thesis using assms(3) that(2) by (auto simp: installation_busy_def list_ex_iff)
  qed
  then have "run_successor st EVENT_RUN_STARTING v = Inr ()"
    using assms(5) v' by (simp add: run_successor_Inr [OF assms(1)]) blast
  moreover have "claim_agrees st \<lparr>jp_run = v, jp_idempotency = Some (start_claim_of E request)\<rparr> = Inr ()"
    using assms(2) v' by (simp add: claim_agrees_def claim_key_def start_claim_of_def)
  ultimately show ?thesis
    using assms(6) v' by (simp add: validate_journal_event_def res_simps expected_status_def demand_def)
qed

lemma started_event_valid:
  assumes ok: "run_state_ok E st" and "bt_get (rs_runs st) (rv_run_id v) = Some v" "rv_status v = Run_Starting"
    and "run_record_validate E (rv_record (running_run v activation)) = Inr ()"
  shows "validate_journal_event E st (rs_next_sequence st) EVENT_RUN_STARTED
    \<lparr>jp_run = running_run v activation, jp_idempotency = None\<rparr> = Inr ()"
proof -
  have "run_successor st EVENT_RUN_STARTED (running_run v activation) = Inr ()"
    using assms(2,3) unfolding run_successor_Inr [OF run_state_okD(1) [OF ok]]
    by (simp add: running_run_def next_revision_def with_health_def)
  moreover have "rv_status (running_run v activation) = Run_Running"
    by (simp add: running_run_def next_revision_def with_health_def)
  ultimately show ?thesis
    using assms(4) by (simp add: validate_journal_event_def res_simps expected_status_def demand_def claim_agrees_def
        EVENT_RUN_STARTING_def EVENT_RUN_STARTED_def)
qed

text \<open>What a start needs to go through: a valid request with a current authority, a lease, a run id and
  event ids that are new, a driver that is ready, and records that pass validation.\<close>

definition start_ready :: "ext \<Rightarrow> run_driver \<Rightarrow> (nat \<Rightarrow> host_env) \<Rightarrow> run_start_request \<Rightarrow> run_registry
    \<Rightarrow> event_envelope list \<Rightarrow> run_state \<Rightarrow> bool" where
  "start_ready E D envs request reg log st \<longleftrightarrow>
     (let env = envs (length log); i = rsr_installation_id request; preparation = rd_prepare D request;
          v = starting_run env request preparation in
      run_start_request_validate request = Inr ()
      \<and> (\<exists>a. rsr_authority request = Some a \<and> (\<forall>n k. authority_current (he_clock (envs n) k) a i None))
      \<and> (\<forall>n k. he_lease (envs n) k) \<and> rr_driver reg
      \<and> rs_idempotency st (i, Start_Operation, idempotency_key_hash E (rsr_idempotency_key request)) = None
      \<and> \<not> installation_busy i (reg\<lparr>rr_state := st\<rparr>)
      \<and> rp_installation_revision preparation = rsr_expected_installation_revision request \<and> rp_gaps preparation = []
      \<and> bt_get (rs_runs st) (he_run_id env) = None \<and> rr_active reg (he_run_id env) = None
      \<and> run_record_validate E (rv_record v) = Inr ()
      \<and> run_record_validate E (rv_record (running_run v (rd_activate D (he_run_id env) preparation))) = Inr ()
      \<and> fst (he_stamp env 0) \<notin> ev_id ` set log
      \<and> fst (he_stamp (envs (Suc (length log))) 0) \<notin> insert (fst (he_stamp env 0)) (ev_id ` set log))"

lemma start_peaceful_claim:
  assumes "journal_ok E C log" "tracks E C log (rr_state reg)" "length (journal log) < 2 ^ 64" "codec_ok C"
    and st: "replays E C (journal log) st" and ready: "start_ready E D envs request reg log st"
    and v: "v = starting_run (envs (length log)) request (rd_prepare D request)"
  obtains e st1 where "(peaceful E C D envs)\<^sup>*\<^sup>* (Start_Entry request, reg, log)
      (Start_Confirm request (rd_prepare D request) v, reg\<lparr>rr_state := st1\<rparr>, log @ [e])"
    "replays E C (journal (log @ [e])) st1" "journal_ok E C (log @ [e])" "journal (log @ [e]) = journal log @ [e]"
    "bt_get (rs_runs st1) (rv_run_id v) = Some v" "ev_id e = fst (he_stamp (envs (length log)) 0)"
    "\<forall>i h. rs_idempotency st1 (i, Stop_Operation, h) = rs_idempotency st (i, Stop_Operation, h)"
    "rs_idempotency st1 (rsr_installation_id request, Start_Operation, idempotency_key_hash E (rsr_idempotency_key request))
      = Some \<lparr>ai_fingerprint = start_fingerprint E request, ai_run_id = rv_run_id v\<rparr>"
proof -
  let ?env = "envs (length log)" and ?i = "rsr_installation_id request" and ?prep = "rd_prepare D request"
  let ?reg = "reg\<lparr>rr_state := st\<rparr>" and ?p = "\<lparr>jp_run = v, jp_idempotency = Some (start_claim_of E request)\<rparr>"
  note r = ready [unfolded start_ready_def Let_def]
  obtain a where a: "rsr_authority request = Some a" "\<And>n k. authority_current (he_clock (envs n) k) a ?i None" using r by blast
  have cur: "refresh_current_for_installation (he_clock (envs n) k) a ?i = Inr ()" for n k using a(2) by (simp add: res_simps)
  have lease: "ensure_owner_lease (envs n) k x = Inr ()" for n k x using r by (simp add: ensure_owner_lease_def demand_def)
  have lookup: "start_lookup E request ?reg = Inr None" using r by (simp add: start_lookup_def lookup_idempotency_def)
  have tracked: "tracks E C log (rr_state ?reg)" using tracks_full [OF st] by simp
  have "start_entry ?env request = Start_Wait request" using r a(1) cur by (simp add: start_entry_def)
  then have 1: "peaceful E C D envs (Start_Entry request, reg, log) (Start_Wait request, reg, log)"
    by (intro peaceful_work [where s' = "[]"]) (simp_all add: keep_def)
  have 2: "peaceful E C D envs (Start_Wait request, reg, log) (Start_Replay request, reg, log)"
    by (intro peaceful_work [where s' = "[]"]) (simp_all add: keep_def)
  have "start_replay E C (shared_step E C) request reg (log, []) = Some (Start_Prepare request, ?reg, (log, []))"
    unfolding start_replay_def synced_in_peace [OF assms(1-3) st] using lookup r by simp
  then have 3: "peaceful E C D envs (Start_Replay request, reg, log) (Start_Prepare request, ?reg, log)"
    by (intro peaceful_work [where s' = "[]"]) simp_all
  have 4: "peaceful E C D envs (Start_Prepare request, ?reg, log) (Start_Claim request ?prep, ?reg, log)"
    using r by (intro peaceful_answer [where answer = "Prepared (Some ?prep)"]) (simp_all add: start_prepared_def)
  have valid: "validate_journal_event E st (rs_next_sequence st) EVENT_RUN_STARTING ?p = Inr ()"
    using r v by (intro starting_event_valid [OF run_state_okD(1) [OF replays_ok [OF st]], of _ _ ?reg ?env]) simp_all
  obtain e where e: "append_with_installation_authority E C (shared_step E C) ?env EVENT_RUN_STARTING ?p a ?i ?reg (log, [])
      = (Inr (), ?reg\<lparr>rr_state := advanced e ?p st\<rparr>, (log @ [e], []))"
    "replays E C (journal (log @ [e])) (advanced e ?p st)" "journal_ok E C (log @ [e])"
    "ev_id e = fst (he_stamp ?env 0)" "journal (log @ [e]) = journal log @ [e]"
    by (rule authorised_in_peace [OF assms(1) _ assms(3,4), of ?reg ?env EVENT_RUN_STARTING ?p a ?i])
       (use st r valid lease a(2) in \<open>simp_all\<close>)
  have "start_claim E C (shared_step E C) ?env request ?prep ?reg (log, [])
      = Some (Start_Confirm request ?prep v, reg\<lparr>rr_state := advanced e ?p st\<rparr>, (log @ [e], []))"
    unfolding start_claim_def synced_in_peace [OF assms(1) tracked assms(3) st]
    using lookup r a(1) cur e(1) by (simp add: Let_def v [symmetric])
  then have 5: "peaceful E C D envs (Start_Claim request ?prep, ?reg, log)
      (Start_Confirm request ?prep v, reg\<lparr>rr_state := advanced e ?p st\<rparr>, log @ [e])"
    by (intro peaceful_work [where s' = "[]"]) simp_all
  show ?thesis
    using peaceful_star [OF 1 peaceful_star [OF 2 peaceful_star [OF 3 peaceful_star [OF 4 peaceful_star [OF 5 rtranclp.rtrancl_refl]]]]] e(2-5) r
    by (intro that [of "advanced e ?p st" e])
      (simp_all add: advanced_def bt_get_insert claimed_def claim_key_def start_claim_of_def v starting_run_def)
qed

lemma start_peaceful:
  assumes ok: "journal_ok E C log" "tracks E C log (rr_state reg)" and room: "Suc (length (journal log)) < 2 ^ 64"
    and codec: "codec_ok C" and st: "replays E C (journal log) st" and ready: "start_ready E D envs request reg log st"
    and v: "v = starting_run (envs (length log)) request (rd_prepare D request)"
    and act: "activation = rd_activate D (rv_run_id v) (rd_prepare D request)"
  obtains e1 e2 st2 where "(peaceful E C D envs)\<^sup>*\<^sup>* (Start_Entry request, reg, log)
      (start_ok (running_run v activation) False,
       reg\<lparr>rr_state := st2, rr_active := (rr_active reg)(rv_run_id v \<mapsto> Available activation)\<rparr>, log @ [e1, e2])"
    "replays E C (journal (log @ [e1, e2])) st2" "bt_get (rs_runs st2) (rv_run_id v) = Some (running_run v activation)"
    "\<forall>i h. rs_idempotency st2 (i, Stop_Operation, h) = rs_idempotency st (i, Stop_Operation, h)"
    "ev_id ` {e1, e2} = {fst (he_stamp (envs (length log)) 0), fst (he_stamp (envs (Suc (length log))) 0)}"
proof -
  let ?prep = "rd_prepare D request" and ?i = "rsr_installation_id request" and ?run = "running_run v activation"
  note r = ready [unfolded start_ready_def Let_def]
  have v': "rv_run_id v = he_run_id (envs (length log))" "rv_status v = Run_Starting" by (simp_all add: v starting_run_def)
  have room1: "length (journal log) < 2 ^ 64" using room by simp
  obtain e1 st1 where claimed: "(peaceful E C D envs)\<^sup>*\<^sup>* (Start_Entry request, reg, log)
      (Start_Confirm request ?prep v, reg\<lparr>rr_state := st1\<rparr>, log @ [e1])"
    and st1: "replays E C (journal (log @ [e1])) st1" "journal_ok E C (log @ [e1])" "journal (log @ [e1]) = journal log @ [e1]"
      "bt_get (rs_runs st1) (rv_run_id v) = Some v" "ev_id e1 = fst (he_stamp (envs (length log)) 0)"
      "\<forall>i h. rs_idempotency st1 (i, Stop_Operation, h) = rs_idempotency st (i, Stop_Operation, h)"
    by (rule start_peaceful_claim [OF ok room1 codec st ready v])
  let ?log = "log @ [e1]" and ?reg = "reg\<lparr>rr_state := st1\<rparr>" and ?env = "envs (Suc (length log))"
  let ?p = "\<lparr>jp_run = ?run, jp_idempotency = None\<rparr>"
  obtain a where a: "rsr_authority request = Some a" "\<And>n k. authority_current (he_clock (envs n) k) a ?i None" using r by blast
  have cur: "refresh_current_for_installation (he_clock (envs n) k) a ?i = Inr ()" for n k using a(2) by (simp add: res_simps)
  have lease: "ensure_owner_lease (envs n) k x = Inr ()" for n k x using r by (simp add: ensure_owner_lease_def demand_def)
  have tracked: "tracks E C ?log (rr_state ?reg)" using tracks_full [OF st1(1)] by simp
  have room2: "length (journal ?log) < 2 ^ 64" using room st1(3) by simp
  have 1: "peaceful E C D envs (Start_Confirm request ?prep v, ?reg, ?log) (Start_Activate request ?prep v, ?reg, ?log)"
    using a(1) cur lease by (intro peaceful_work [where s' = "[]"]) (simp_all add: keep_def start_confirm_def)
  have 2: "peaceful E C D envs (Start_Activate request ?prep v, ?reg, ?log) (Start_Commit request v activation, ?reg, ?log)"
    by (intro peaceful_answer [where answer = "Activated (Some activation)"]) (simp_all add: act start_activated_def)
  have valid: "validate_journal_event E st1 (rs_next_sequence st1) EVENT_RUN_STARTED ?p = Inr ()"
    using r v' by (intro started_event_valid [OF replays_ok [OF st1(1)] st1(4)]) (simp_all add: act v)
  have fresh: "fst (he_stamp ?env 0) \<notin> ev_id ` set ?log" using r st1(5) by simp
  obtain e2 where e2: "append_with_installation_authority E C (shared_step E C) ?env EVENT_RUN_STARTED ?p a ?i ?reg (?log, [])
      = (Inr (), ?reg\<lparr>rr_state := advanced e2 ?p st1\<rparr>, (?log @ [e2], []))"
    "replays E C (journal (?log @ [e2])) (advanced e2 ?p st1)" "ev_id e2 = fst (he_stamp ?env 0)"
    by (rule authorised_in_peace [OF st1(2) _ room2 codec fresh, of ?reg EVENT_RUN_STARTED ?p a ?i])
       (use st1(1) valid lease a(2) in \<open>simp_all\<close>)
  have "rr_active reg (rv_run_id v) = None" using r v'(1) by simp
  then have "start_commit E C (shared_step E C) ?env request v activation ?reg (?log, [])
      = Some (start_ok ?run False, reg\<lparr>rr_state := advanced e2 ?p st1,
          rr_active := (rr_active reg)(rv_run_id v \<mapsto> Available activation)\<rparr>, (?log @ [e2], []))"
    unfolding start_commit_def synced_in_peace [OF st1(2) tracked room2 st1(1)]
    using a(1) e2(1) st1(4) v'(2) by (simp add: Let_def run_of_def)
  then have 3: "peaceful E C D envs (Start_Commit request v activation, ?reg, ?log)
      (start_ok ?run False, reg\<lparr>rr_state := advanced e2 ?p st1,
          rr_active := (rr_active reg)(rv_run_id v \<mapsto> Available activation)\<rparr>, ?log @ [e2])"
    by (intro peaceful_work [where s' = "[]"]) simp_all
  have "rv_run_id ?run = rv_run_id v" by (simp add: running_run_def next_revision_def with_health_def)
  then show ?thesis
    using rtranclp_trans [OF claimed peaceful_star [OF 1 peaceful_star [OF 2 peaceful_star [OF 3 rtranclp.rtrancl_refl]]]] e2(2,3) st1(5,6)
    by (intro that [of "advanced e2 ?p st1" e1 e2]) (simp_all add: advanced_def bt_get_insert claimed_def)
qed

section \<open>A stop from the request to the end\<close>

lemma stopping_event_valid:
  assumes ok: "run_state_ok E st" and v: "bt_get (rs_runs st) r = Some v" "rv_status v \<in> {Run_Starting, Run_Running, Run_Degraded}"
    and "rs_idempotency st (rv_installation_id v, ic_operation c, ic_key_hash c) = None"
    and "check_string E reason (Some ''reason_code'') = Inr ()"
  shows "validate_journal_event E st (rs_next_sequence st) EVENT_RUN_STOPPING
    \<lparr>jp_run = stopping_run reason v, jp_idempotency = Some c\<rparr> = Inr ()"
proof -
  let ?s = "stopping_run reason v"
  have fields: "rv_run_id ?s = r" "rv_installation_id ?s = rv_installation_id v" "rv_status ?s = Run_Stopping"
      "rv_installation_revision ?s = rv_installation_revision v" "rv_entrypoint_id ?s = rv_entrypoint_id v"
      "rv_revision ?s = saturating_add (rv_revision v) 1"
    using run_state_okD(2) [OF ok v(1)]
    by (simp_all add: stopping_run_def next_revision_def with_node_status_def with_health_def)
  have "run_successor st EVENT_RUN_STOPPING ?s = Inr ()"
    using v fields unfolding run_successor_Inr [OF run_state_okD(1) [OF ok]] by auto
  moreover have "run_record_validate E (rv_record ?s) = Inr ()"
    by (rule stopping_run_valid [OF run_state_okD(3) [OF ok v(1)] assms(5)])
  moreover have "claim_agrees st \<lparr>jp_run = ?s, jp_idempotency = Some c\<rparr> = Inr ()"
    using assms(4) fields by (simp add: claim_agrees_def claim_key_def)
  ultimately show ?thesis
    using fields by (simp add: validate_journal_event_def res_simps expected_status_def demand_def EVENT_RUN_STARTING_def
        EVENT_RUN_STARTED_def EVENT_RUN_STOPPING_def)
qed

text \<open>What an explicit stop of a running, owned run needs to go through.\<close>

definition stop_ready :: "ext \<Rightarrow> (nat \<Rightarrow> host_env) \<Rightarrow> run_stop_request \<Rightarrow> run_registry \<Rightarrow> event_envelope list
    \<Rightarrow> run_state \<Rightarrow> run_view \<Rightarrow> bool" where
  "stop_ready E envs request reg log st v \<longleftrightarrow>
     (let i = rst_installation_id request; r = rst_run_id request; env = envs (length log); env' = envs (Suc (length log)) in
      run_stop_request_validate request = Inr ()
      \<and> (\<exists>a. rst_authority request = Some a \<and> (\<forall>n k. authority_current (he_clock (envs n) k) a i (Some r)))
      \<and> (\<forall>n k. he_lease (envs n) k) \<and> rr_driver reg
      \<and> rs_idempotency st (i, Stop_Operation, idempotency_key_hash E (rst_idempotency_key request)) = None
      \<and> bt_get (rs_runs st) r = Some v \<and> rv_installation_id v = i \<and> rv_revision v = rst_expected_revision request
      \<and> rv_status v \<in> {Run_Running, Run_Degraded} \<and> (\<exists>a. rr_active reg r = Some (Available a))
      \<and> rn_started_at (rv_record v) \<le> he_clock env' 1
      \<and> check_string E (rfc3339 E (he_clock env' 1)) (Some ''stopped_at'') = Inr ()
      \<and> fst (he_stamp env 0) \<notin> ev_id ` set log
      \<and> fst (he_stamp env' 0) \<notin> insert (fst (he_stamp env 0)) (ev_id ` set log))"

lemma run_authorised_in_peace:
  assumes "journal_ok E C log" "replays E C (journal log) (rr_state reg)" "length (journal log) < 2 ^ 64" "codec_ok C"
    and fresh: "fst (he_stamp env 0) \<notin> ev_id ` set log"
    and valid: "validate_journal_event E (rr_state reg) (rs_next_sequence (rr_state reg)) kind p = Inr ()"
    and lease: "ensure_owner_lease env 0 reg = Inr ()" and authority: "authority_current (he_clock env 0) authority i (Some r)"
  obtains e where "append_with_run_authority E C (shared_step E C) env kind p authority i r reg (log, [])
      = (Inr (), reg\<lparr>rr_state := advanced e p (rr_state reg)\<rparr>, (log @ [e], []))"
    "replays E C (journal (log @ [e])) (advanced e p (rr_state reg))" "journal_ok E C (log @ [e])"
    "ev_id e = fst (he_stamp env 0)" "journal (log @ [e]) = journal log @ [e]"
proof (rule guarded_in_peace [OF assms(1-4) fresh valid])
  fix e
  assume e: "append_guarded E C (shared_step E C) (he_stamp env 0) kind p (Inr ()) reg (log, [])
      = (Inr (), reg\<lparr>rr_state := advanced e p (rr_state reg)\<rparr>, (log @ [e], []))"
    and rest: "replays E C (journal (log @ [e])) (advanced e p (rr_state reg))" "journal_ok E C (log @ [e])"
    "ev_id e = fst (he_stamp env 0)" "journal (log @ [e]) = journal log @ [e]"
  have "refresh_current_for_run (he_clock env 0) authority i r = Inr ()" using authority by (simp add: res_simps)
  then show thesis using that [of e] e rest lease by (simp add: append_with_run_authority_def)
qed

lemma stop_peaceful_mark:
  assumes ok: "journal_ok E C log" "tracks E C log (rr_state reg)" "length (journal log) < 2 ^ 64" "codec_ok C"
    and st: "replays E C (journal log) st" and ready: "stop_ready E envs request reg log st v"
    and s: "s = stopping_run ''explicit_stop'' v"
  obtains e st1 where "peaceful E C D envs (Stop_Entry request, reg, log)
      (Complete_Entry s False None To_Stop, notify_one (reg\<lparr>rr_state := st1\<rparr>), log @ [e])"
    "replays E C (journal (log @ [e])) st1" "journal_ok E C (log @ [e])" "journal (log @ [e]) = journal log @ [e]"
    "bt_get (rs_runs st1) (rv_run_id v) = Some s" "ev_id e = fst (he_stamp (envs (length log)) 0)"
proof -
  let ?env = "envs (length log)" and ?i = "rst_installation_id request" and ?r = "rst_run_id request"
  let ?reg = "reg\<lparr>rr_state := st\<rparr>" and ?p = "\<lparr>jp_run = s, jp_idempotency = Some (stop_claim_of E request)\<rparr>"
  note r = ready [unfolded stop_ready_def Let_def]
  obtain a where a: "rst_authority request = Some a" "\<And>n k. authority_current (he_clock (envs n) k) a ?i (Some ?r)" using r by blast
  have cur: "refresh_current_for_run (he_clock (envs n) k) a ?i ?r = Inr ()" for n k using a(2) by (simp add: res_simps)
  have lease: "ensure_owner_lease (envs n) k x = Inr ()" for n k x using r by (simp add: ensure_owner_lease_def demand_def)
  have v: "bt_get (rs_runs st) ?r = Some v" "rv_status v \<in> {Run_Starting, Run_Running, Run_Degraded}" using r by auto
  have id: "rv_run_id v = ?r" using run_state_okD(2) [OF replays_ok [OF st] v(1)] .
  have lookup: "lookup_idempotency E st ?i Stop_Operation (rst_idempotency_key request) f = Inr None" for f
    using r by (simp add: lookup_idempotency_def)
  have "check_string E ''explicit_stop'' (Some ''reason_code'') = Inr ()" by code_simp
  then have valid: "validate_journal_event E st (rs_next_sequence st) EVENT_RUN_STOPPING ?p = Inr ()"
    unfolding s using r by (intro stopping_event_valid [OF replays_ok [OF st] v]) (simp_all add: stop_claim_of_def)
  obtain e where e: "append_with_run_authority E C (shared_step E C) ?env EVENT_RUN_STOPPING ?p a ?i ?r ?reg (log, [])
      = (Inr (), ?reg\<lparr>rr_state := advanced e ?p st\<rparr>, (log @ [e], []))"
    "replays E C (journal (log @ [e])) (advanced e ?p st)" "journal_ok E C (log @ [e])"
    "ev_id e = fst (he_stamp ?env 0)" "journal (log @ [e]) = journal log @ [e]"
    by (rule run_authorised_in_peace [OF assms(1) _ assms(3,4), of ?reg ?env EVENT_RUN_STOPPING ?p a ?i ?r])
       (use st r valid lease a(2) in \<open>simp_all\<close>)
  have active: "is_active (rv_status v)" "rv_status v \<noteq> Run_Stopping" "rv_status v \<noteq> Run_Starting" using r by auto
  have cur': "stop_current E C (shared_step E C) ?env request a v ?reg (log, [])
      = (Complete_Entry s False None To_Stop, notify_one (reg\<lparr>rr_state := advanced e ?p st\<rparr>), (log @ [e], []))"
    using r active e(1) by (simp add: stop_current_def Let_def s)
  have "stop_entry E C (shared_step E C) ?env request reg (log, [])
      = Some (Complete_Entry s False None To_Stop, notify_one (reg\<lparr>rr_state := advanced e ?p st\<rparr>), (log @ [e], []))"
    unfolding stop_entry_def a(1) option.case synced_in_peace [OF assms(1-3) st]
    using cur' cur lookup r by (simp add: run_of_def del: One_nat_def)
  then have "peaceful E C D envs (Stop_Entry request, reg, log)
      (Complete_Entry s False None To_Stop, notify_one (reg\<lparr>rr_state := advanced e ?p st\<rparr>), log @ [e])"
    by (intro peaceful_work [where s' = "[]"]) simp_all
  moreover have "rv_run_id s = rv_run_id v"
    by (simp add: s stopping_run_def next_revision_def with_node_status_def with_health_def)
  ultimately show ?thesis
    using e(2-5) by (intro that [of "advanced e ?p st" e]) (simp_all add: advanced_def bt_get_insert)
qed

lemma stop_peaceful_release:
  assumes ok: "journal_ok E C log" "tracks E C log (rr_state reg)" and room: "Suc (length (journal log)) < 2 ^ 64"
    and codec: "codec_ok C" and st: "replays E C (journal log) st" and ready: "stop_ready E envs request reg log st v"
    and s: "s = stopping_run ''explicit_stop'' v" and r: "r = rst_run_id request"
  obtains e st1 reg1 where "(peaceful E C D envs)\<^sup>*\<^sup>* (Stop_Entry request, reg, log)
      (Complete_Commit r True False None To_Stop, reg1, log @ [e])"
    "reg1 = (notify_one (reg\<lparr>rr_state := st1\<rparr>))\<lparr>rr_active := (rr_active reg)(r := None)\<rparr>"
    "replays E C (journal (log @ [e])) st1" "journal_ok E C (log @ [e])" "length (journal (log @ [e])) < 2 ^ 64"
    "bt_get (rs_runs st1) r = Some s" "ev_id e = fst (he_stamp (envs (length log)) 0)"
proof -
  have room1: "length (journal log) < 2 ^ 64" using room by simp
  note rd = ready [unfolded stop_ready_def Let_def]
  have v: "bt_get (rs_runs st) r = Some v" using rd r by simp
  have id: "rv_run_id v = r" using run_state_okD(2) [OF replays_ok [OF st] v] .
  have sid: "rv_run_id s = r" "rv_status s = Run_Stopping"
    using id by (simp_all add: s stopping_run_def next_revision_def with_node_status_def with_health_def)
  obtain e st1 where mark: "peaceful E C D envs (Stop_Entry request, reg, log)
      (Complete_Entry s False None To_Stop, notify_one (reg\<lparr>rr_state := st1\<rparr>), log @ [e])"
    and e: "replays E C (journal (log @ [e])) st1" "journal_ok E C (log @ [e])" "journal (log @ [e]) = journal log @ [e]"
      "bt_get (rs_runs st1) (rv_run_id v) = Some s" "ev_id e = fst (he_stamp (envs (length log)) 0)"
    by (rule stop_peaceful_mark [OF ok room1 codec st ready s])
  let ?reg = "notify_one (reg\<lparr>rr_state := st1\<rparr>)"
  have room2: "length (journal (log @ [e])) < 2 ^ 64" using room e(3) by simp
  have "tracks E C (log @ [e]) (rr_state ?reg)" using tracks_full [OF e(1)] by simp
  then have 1: "peaceful E C D envs (Complete_Entry s False None To_Stop, ?reg, log @ [e])
      (Complete_Owned r False None To_Stop, ?reg\<lparr>rr_state := st1\<rparr>, log @ [e])"
    using complete_entry_peaceful [OF e(2) _ room2 e(1), of ?reg s s] e(4) id sid by simp
  have same: "?reg\<lparr>rr_state := st1\<rparr> = ?reg" by (simp add: notify_one_def)
  obtain a where a: "rr_active reg r = Some (Available a)" "rr_driver reg" using rd r by blast
  have "rr_driver ?reg" "rr_active ?reg r \<noteq> Some Cleaning" "rr_active ?reg = rr_active reg"
    using a by (simp_all add: notify_one_def)
  then have 2: "(peaceful E C D envs)\<^sup>*\<^sup>* (Complete_Owned r False None To_Stop, ?reg, log @ [e])
      (Complete_Commit r True False None To_Stop, ?reg\<lparr>rr_active := (rr_active reg)(r := None)\<rparr>, log @ [e])"
    using cleanup_peaceful [of ?reg r E C D envs False None To_Stop "log @ [e]"] a(1) by simp
  show ?thesis
    using peaceful_star [OF mark peaceful_star [OF 1 [unfolded same] 2]] e room2 id
    by (intro that [of "?reg\<lparr>rr_active := (rr_active reg)(r := None)\<rparr>" e st1]) simp_all
qed

lemma stop_peaceful:
  assumes ok: "journal_ok E C log" "tracks E C log (rr_state reg)" and room: "Suc (length (journal log)) < 2 ^ 64"
    and codec: "codec_ok C" and st: "replays E C (journal log) st" and ready: "stop_ready E envs request reg log st v"
    and r: "r = rst_run_id request"
  obtains e1 e2 st2 reg2 t where "(peaceful E C D envs)\<^sup>*\<^sup>* (Stop_Entry request, reg, log) (stop_ok t False, reg2, log @ [e1, e2])"
    "replays E C (journal (log @ [e1, e2])) st2" "bt_get (rs_runs st2) r = Some t" "rv_status t = Run_Stopped"
    "rr_state reg2 = st2" "rr_active reg2 = (rr_active reg)(r := None)"
proof -
  define s where "s = stopping_run ''explicit_stop'' v"
  define t where "t = terminal_after_cleanup (he_clock (envs (Suc (length log))) 1) True s"
  note rd = ready [unfolded stop_ready_def Let_def]
  have sr: "rv_status s = Run_Stopping" "rn_started_at (rv_record s) = rn_started_at (rv_record v)"
      "rh_reason_code (rn_health (rv_record s)) = Some ''explicit_stop''"
    by (simp_all add: s_def stopping_run_def next_revision_def with_node_status_def with_health_def)
  have t: "rv_status t = Run_Stopped" using sr(3) by (simp add: t_def terminal_after_cleanup_def restated_def with_node_status_def with_health_def)
  obtain e1 st1 reg1 where rel: "(peaceful E C D envs)\<^sup>*\<^sup>* (Stop_Entry request, reg, log)
      (Complete_Commit r True False None To_Stop, reg1, log @ [e1])"
    and reg1: "reg1 = (notify_one (reg\<lparr>rr_state := st1\<rparr>))\<lparr>rr_active := (rr_active reg)(r := None)\<rparr>"
    and e1: "replays E C (journal (log @ [e1])) st1" "journal_ok E C (log @ [e1])" "length (journal (log @ [e1])) < 2 ^ 64"
      "bt_get (rs_runs st1) r = Some s" "ev_id e1 = fst (he_stamp (envs (length log)) 0)"
    by (rule stop_peaceful_release [OF ok room codec st ready s_def r])
  have "tracks E C (log @ [e1]) (rr_state reg1)" using tracks_full [OF e1(1)] reg1 by simp
  then obtain e2 st2 where e2: "replays E C (journal ((log @ [e1]) @ [e2])) st2" "bt_get (rs_runs st2) r = Some t"
    "peaceful E C D envs (Complete_Commit r True False None To_Stop, reg1, log @ [e1])
      (fst (complete_result To_Stop (Inr \<lparr>mr_run = t, mr_idempotent = False\<rparr>) (reg1\<lparr>rr_state := st2\<rparr>)),
       snd (complete_result To_Stop (Inr \<lparr>mr_run = t, mr_idempotent = False\<rparr>) (reg1\<lparr>rr_state := st2\<rparr>)), (log @ [e1]) @ [e2])"
    by (rule complete_commit_peaceful [OF e1(2) _ e1(3) codec e1(1,4) sr(1), of reg1 "envs (Suc (length log))" envs t True])
       (use rd r e1(5) sr(2) t_def in simp_all)
  then show ?thesis
    using rtranclp_trans [OF rel peaceful_star [OF e2(3) rtranclp.rtrancl_refl]] t reg1
    by (intro that [of t "reg1\<lparr>rr_state := st2\<rparr>" e1 e2 st2]) (simp_all add: complete_result_def)
qed

text \<open>A task of a reachable host may run alone.\<close>

lemma peaceful_host_steps:
  assumes "(peaceful E C D envs)\<^sup>*\<^sup>* x y" and "x = (t, reg, log)" "y = (t', reg', log')"
    and "reachable E C log hosts" "ho_reg (hosts k) = reg" "ho_tasks (hosts k) n = Some t"
    and alone: "\<And>m u i. m \<noteq> n \<Longrightarrow> ho_tasks (hosts k) m = Some u \<Longrightarrow> start_locked u \<noteq> Some i"
  shows "reachable E C log' (hosts(k := \<lparr>ho_reg = reg', ho_tasks = (ho_tasks (hosts k))(n \<mapsto> t')\<rparr>))"
  using assms(1,3)
proof (induction arbitrary: t' reg' log' rule: rtranclp_induct)
  case base
  then have "\<lparr>ho_reg = reg', ho_tasks = (ho_tasks (hosts k))(n \<mapsto> t')\<rparr> = hosts k"
    using assms(2,5,6) by (cases "hosts k") (auto simp: fun_upd_idem)
  then have same: "hosts(k := \<lparr>ho_reg = reg', ho_tasks = (ho_tasks (hosts k))(n \<mapsto> t')\<rparr>) = hosts"
    by (simp only: fun_upd_triv)
  show ?case unfolding same using base assms(2,4) by simp
next
  case (step y z)
  obtain t1 reg1 log1 where y: "y = (t1, reg1, log1)" by (metis prod_cases3)
  let ?h = "\<lparr>ho_reg = reg1, ho_tasks = (ho_tasks (hosts k))(n \<mapsto> t1)\<rparr>" and ?hosts = "hosts(k := \<lparr>ho_reg = reg1, ho_tasks = (ho_tasks (hosts k))(n \<mapsto> t1)\<rparr>)"
  have r: "reachable E C log1 ?hosts" using step.IH [OF y] .
  have "host_step E C log1 ?h log' \<lparr>ho_reg = reg', ho_tasks = (ho_tasks ?h)(n \<mapsto> t')\<rparr>"
  proof (cases "willing D t1")
    case None
    then obtain s' where "task_step E C (shared_step E C) (envs (length log1)) t1 reg1 (log1, []) = Some (t', reg', (log', s'))"
      using step.hyps(2) step.prems y by (auto simp: alone_def simp del: task_step.simps)
    moreover have "start_lock n t1 (ho_tasks ?h)" using alone by (auto simp: start_lock_def)
    ultimately show ?thesis by (intro worked [of ?h n t1]) simp_all
  next
    case (Some answer)
    then have "driver_step answer t1 reg1 = Some (t', reg')" "log' = log1"
      using step.hyps(2) step.prems y by (auto simp: alone_def simp del: driver_step.simps)
    then show ?thesis using answered [of ?h n t1 answer t' reg' E C log1] by simp
  qed
  then have "host_step E C log1 (?hosts k) log' \<lparr>ho_reg = reg', ho_tasks = (ho_tasks (hosts k))(n \<mapsto> t')\<rparr>" by simp
  from reachable.host [OF r this] show ?case by (simp only: fun_upd_upd)
qed

end
