(* ===== verification/Run_Codec.thy ===== *)
theory Run_Codec
  imports Run_Journal
begin

text \<open>
  A concrete encoding of journal payloads as JSON arrays, built from combinators. The theorems about
  the journal take serde's encoding as a parameter of which they use only that a written value reads
  back; this instance shows that the assumption can be met.
\<close>

definition codes :: "('a \<Rightarrow> json) \<Rightarrow> (json \<Rightarrow> 'a option) \<Rightarrow> bool" where
  "codes enc dec \<longleftrightarrow> (\<forall>x. dec (enc x) = Some x)"

lemma codesD [simp]: "codes enc dec \<Longrightarrow> dec (enc x) = Some x"
  by (simp add: codes_def)

section \<open>Combinators\<close>

fun dec_str :: "json \<Rightarrow> str option" where
  "dec_str (JStr s) = Some s"
| "dec_str _ = None"

fun enc_int :: "int \<Rightarrow> json" where
  "enc_int i = JNum (NegInt i)"

fun dec_int :: "json \<Rightarrow> int option" where
  "dec_int (JNum (NegInt i)) = Some i"
| "dec_int _ = None"

definition enc_word :: "'w::len word \<Rightarrow> json" where
  "enc_word w = JNum (PosInt (unat w))"

fun dec_word :: "json \<Rightarrow> 'w::len word option" where
  "dec_word (JNum (PosInt n)) = Some (of_nat n)"
| "dec_word _ = None"

definition dec_enum :: "('a \<Rightarrow> json) \<Rightarrow> 'a list \<Rightarrow> json \<Rightarrow> 'a option" where
  "dec_enum enc xs v = find (\<lambda>x. enc x = v) xs"

fun enc_pair :: "('a \<Rightarrow> json) \<Rightarrow> ('b \<Rightarrow> json) \<Rightarrow> 'a \<times> 'b \<Rightarrow> json" where
  "enc_pair f g (x, y) = JArr [f x, g y]"

fun dec_pair :: "(json \<Rightarrow> 'a option) \<Rightarrow> (json \<Rightarrow> 'b option) \<Rightarrow> json \<Rightarrow> ('a \<times> 'b) option" where
  "dec_pair f g (JArr [v, w]) = (case f v of None \<Rightarrow> None | Some x \<Rightarrow> map_option (Pair x) (g w))"
| "dec_pair f g _ = None"

definition enc_list :: "('a \<Rightarrow> json) \<Rightarrow> 'a list \<Rightarrow> json" where
  "enc_list f xs = JArr (map f xs)"

fun dec_list :: "(json \<Rightarrow> 'a option) \<Rightarrow> json \<Rightarrow> 'a list option" where
  "dec_list f (JArr vs) = those (map f vs)"
| "dec_list f _ = None"

fun enc_option :: "('a \<Rightarrow> json) \<Rightarrow> 'a option \<Rightarrow> json" where
  "enc_option f None = JNull"
| "enc_option f (Some x) = JArr [f x]"

fun dec_option :: "(json \<Rightarrow> 'a option) \<Rightarrow> json \<Rightarrow> 'a option option" where
  "dec_option f JNull = Some None"
| "dec_option f (JArr [v]) = map_option Some (f v)"
| "dec_option f _ = None"

lemma codes_str [intro]: "codes JStr dec_str"
  by (simp add: codes_def)

lemma codes_int [intro]: "codes enc_int dec_int"
  by (simp add: codes_def)

lemma codes_word [intro]: "codes enc_word dec_word"
  by (simp add: codes_def enc_word_def)

lemma codes_json [intro]: "codes (\<lambda>v. v) Some"
  by (simp add: codes_def)

lemma codes_enum:
  assumes "inj enc" "set xs = UNIV"
  shows "codes enc (dec_enum enc xs)"
  unfolding codes_def
proof
  fix x
  obtain y where "find (\<lambda>z. enc z = enc x) xs = Some y" using assms(2) by (cases "find (\<lambda>z. enc z = enc x) xs") (auto simp: find_None_iff)
  then show "dec_enum enc xs (enc x) = Some x" using assms(1) by (auto simp: dec_enum_def find_Some_iff inj_eq)
qed

lemma codes_pair [intro]: "codes f f' \<Longrightarrow> codes g g' \<Longrightarrow> codes (enc_pair f g) (dec_pair f' g')"
  by (simp add: codes_def)

lemma codes_list [intro]:
  assumes "codes f f'"
  shows "codes (enc_list f) (dec_list f')"
proof -
  have "those (map f' (map f xs)) = Some xs" for xs using assms by (induction xs) simp_all
  then show ?thesis by (simp add: codes_def enc_list_def)
qed

lemma codes_option [intro]:
  assumes "codes f f'"
  shows "codes (enc_option f) (dec_option f')"
  unfolding codes_def
proof
  show "dec_option f' (enc_option f x) = Some x" for x using assms by (cases x) simp_all
qed

section \<open>Codings\<close>

type_synonym 'a coding = "('a \<Rightarrow> json) \<times> (json \<Rightarrow> 'a option)"

abbreviation faithful :: "'a coding \<Rightarrow> bool" where "faithful c \<equiv> codes (fst c) (snd c)"

definition of_str :: "str coding" where "of_str = (JStr, dec_str)"

definition of_int_json :: "int coding" where "of_int_json = (enc_int, dec_int)"

definition of_word :: "'w::len word coding" where "of_word = (enc_word, dec_word)"

definition of_json :: "json coding" where "of_json = ((\<lambda>v. v), Some)"

definition of_enum :: "('a \<Rightarrow> json) \<Rightarrow> 'a list \<Rightarrow> 'a coding" where "of_enum enc xs = (enc, dec_enum enc xs)"

definition of_pair :: "'a coding \<Rightarrow> 'b coding \<Rightarrow> ('a \<times> 'b) coding" where
  "of_pair c d = (enc_pair (fst c) (fst d), dec_pair (snd c) (snd d))"

definition of_list :: "'a coding \<Rightarrow> 'a list coding" where
  "of_list c = (enc_list (fst c), dec_list (snd c))"

definition of_option :: "'a coding \<Rightarrow> 'a option coding" where
  "of_option c = (enc_option (fst c), dec_option (snd c))"

definition of_parts :: "('a \<Rightarrow> 'b) \<Rightarrow> ('b \<Rightarrow> 'a) \<Rightarrow> 'b coding \<Rightarrow> 'a coding" where
  "of_parts parts build c = (fst c \<circ> parts, map_option build \<circ> snd c)"

lemma faithful_parts: "faithful c \<Longrightarrow> (\<And>x. build (parts x) = x) \<Longrightarrow> faithful (of_parts parts build c)"
  by (simp add: codes_def of_parts_def)

lemma faithful_basic [intro]:
  "faithful of_str" "faithful of_int_json" "faithful of_word" "faithful of_json"
  "faithful c \<Longrightarrow> faithful d \<Longrightarrow> faithful (of_pair c d)" "faithful c \<Longrightarrow> faithful (of_list c)" "faithful c \<Longrightarrow> faithful (of_option c)"
  unfolding of_str_def of_int_json_def of_word_def of_json_def of_pair_def of_list_def of_option_def fst_conv snd_conv by blast+

section \<open>The payload\<close>

definition of_status :: "run_status coding" where
  "of_status = of_enum run_status_value
     [Run_Starting, Run_Running, Run_Degraded, Run_Stopping, Run_Stopped, Run_Failed, Run_Interrupted]"

definition of_health_status :: "health_status coding" where
  "of_health_status = of_enum health_status_value [Health_Unknown, Healthy, Health_Degraded, Unhealthy]"

fun run_operation_value :: "run_operation \<Rightarrow> json" where
  "run_operation_value Start_Operation = JStr ''start''"
| "run_operation_value Stop_Operation = JStr ''stop''"

definition of_operation :: "run_operation coding" where
  "of_operation = of_enum run_operation_value [Start_Operation, Stop_Operation]"

definition of_node_instance :: "node_instance_record coding" where
  "of_node_instance = of_parts
     (\<lambda>n. (ni_instance_id n, ni_node_id n, ni_node_path n, ni_status n, ni_realization_id n))
     (\<lambda>(a, b, c, d, e). \<lparr>ni_instance_id = a, ni_node_id = b, ni_node_path = c, ni_status = d, ni_realization_id = e\<rparr>)
     (of_pair of_str (of_pair of_str (of_pair (of_list of_str) (of_pair of_status (of_option of_str)))))"

definition of_descriptor :: "artifact_descriptor coding" where
  "of_descriptor = of_parts
     (\<lambda>d. (ad_artifact_type_uri d, ad_media_type d, ad_digest d, ad_size_bytes d, ad_references d, ad_annotations d))
     (\<lambda>(a, b, c, d, e, f). \<lparr>ad_artifact_type_uri = a, ad_media_type = b, ad_digest = c, ad_size_bytes = d, ad_references = e,
       ad_annotations = f\<rparr>)
     (of_pair of_str (of_pair of_str (of_pair of_str (of_pair of_word (of_pair (of_list of_str) (of_list (of_pair of_str of_json)))))))"

definition of_health :: "run_health coding" where
  "of_health = of_parts (\<lambda>h. (rh_status h, rh_reason_code h, rh_diagnostic_refs h))
     (\<lambda>(a, b, c). \<lparr>rh_status = a, rh_reason_code = b, rh_diagnostic_refs = c\<rparr>)
     (of_pair of_health_status (of_pair (of_option of_str) (of_list of_descriptor)))"

definition of_transport :: "selected_transport coding" where
  "of_transport = of_parts (\<lambda>t. (st_class_id t, st_properties t)) (\<lambda>(a, b). \<lparr>st_class_id = a, st_properties = b\<rparr>)
     (of_pair of_str (of_list (of_pair of_str of_json)))"

definition of_binding :: "active_binding_record coding" where
  "of_binding = of_parts
     (\<lambda>b. (abr_binding_id b, abr_consumer_installation_id b, abr_consumer_port b, abr_exposure_id b, abr_transport b, abr_expires_at b))
     (\<lambda>(a, b, c, d, e, f). \<lparr>abr_binding_id = a, abr_consumer_installation_id = b, abr_consumer_port = c, abr_exposure_id = d,
       abr_transport = e, abr_expires_at = f\<rparr>)
     (of_pair of_str (of_pair of_str (of_pair of_str (of_pair of_str (of_pair of_transport (of_option of_int_json))))))"

definition of_record :: "run_record coding" where
  "of_record = of_parts
     (\<lambda>r. (rn_run_id r, rn_installation_id r, rn_context_id r, rn_status r, rn_node_instances r, rn_bindings r, rn_started_at r,
        rn_stopped_at r, rn_health r))
     (\<lambda>(a, b, c, d, e, f, g, h, i). \<lparr>rn_run_id = a, rn_installation_id = b, rn_context_id = c, rn_status = d, rn_node_instances = e,
       rn_bindings = f, rn_started_at = g, rn_stopped_at = h, rn_health = i\<rparr>)
     (of_pair of_str (of_pair of_str (of_pair (of_option of_str) (of_pair of_status (of_pair (of_list of_node_instance)
       (of_pair (of_list of_binding) (of_pair of_int_json (of_pair (of_option of_int_json) of_health))))))))"

definition of_view :: "run_view coding" where
  "of_view = of_parts (\<lambda>v. (rv_record v, rv_revision v, rv_installation_revision v, rv_entrypoint_id v))
     (\<lambda>(a, b, c, d). \<lparr>rv_record = a, rv_revision = b, rv_installation_revision = c, rv_entrypoint_id = d\<rparr>)
     (of_pair of_record (of_pair of_word (of_pair of_word of_str)))"

definition of_claim :: "run_idempotency_claim coding" where
  "of_claim = of_parts (\<lambda>c. (ic_operation c, ic_key_hash c, ic_request_fingerprint c))
     (\<lambda>(a, b, c). \<lparr>ic_operation = a, ic_key_hash = b, ic_request_fingerprint = c\<rparr>) (of_pair of_operation (of_pair of_str of_str))"

definition of_payload :: "run_journal_payload coding" where
  "of_payload = of_parts (\<lambda>p. (jp_run p, jp_idempotency p)) (\<lambda>(a, b). \<lparr>jp_run = a, jp_idempotency = b\<rparr>)
     (of_pair of_view (of_option of_claim))"

definition array_codec :: journal_codec where
  "array_codec = \<lparr>jc_to_value = fst of_payload, jc_from_value = snd of_payload\<rparr>"

lemma faithful_enums [intro]: "faithful of_status" "faithful of_health_status" "faithful of_operation"
proof -
  have "inj run_status_value"
  proof (rule injI)
    show "run_status_value x = run_status_value y \<Longrightarrow> x = y" for x y by (cases x; cases y) simp_all
  qed
  moreover have "set [Run_Starting, Run_Running, Run_Degraded, Run_Stopping, Run_Stopped, Run_Failed, Run_Interrupted] = UNIV"
    using run_status.exhaust by auto
  ultimately show "faithful of_status" by (simp add: of_status_def of_enum_def codes_enum)
  have "inj health_status_value"
  proof (rule injI)
    show "health_status_value x = health_status_value y \<Longrightarrow> x = y" for x y by (cases x; cases y) simp_all
  qed
  moreover have "set [Health_Unknown, Healthy, Health_Degraded, Unhealthy] = UNIV" using health_status.exhaust by auto
  ultimately show "faithful of_health_status" by (simp add: of_health_status_def of_enum_def codes_enum)
  have "inj run_operation_value"
  proof (rule injI)
    show "run_operation_value x = run_operation_value y \<Longrightarrow> x = y" for x y by (cases x; cases y) simp_all
  qed
  moreover have "set [Start_Operation, Stop_Operation] = UNIV" using run_operation.exhaust by auto
  ultimately show "faithful of_operation" by (simp add: of_operation_def of_enum_def codes_enum)
qed

lemma array_codec_ok: "codec_ok array_codec"
proof -
  have "faithful of_node_instance" "faithful of_transport" "faithful of_descriptor" "faithful of_claim"
    unfolding of_node_instance_def of_transport_def of_descriptor_def of_claim_def
    by (rule faithful_parts; (blast | simp))+
  moreover from this have "faithful of_health" "faithful of_binding"
    unfolding of_health_def of_binding_def by (rule_tac [!] faithful_parts; (blast | simp))+
  moreover from this calculation have "faithful of_record" unfolding of_record_def by (intro faithful_parts) (blast | simp)+
  moreover from this have "faithful of_view" unfolding of_view_def by (intro faithful_parts) (blast | simp)+
  ultimately have "faithful of_payload" unfolding of_payload_def by (intro faithful_parts) (blast | simp)+
  then show ?thesis by (simp add: codec_ok_def array_codec_def)
qed

end
