(* ===== verification/Run_Props.thy ===== *)
theory Run_Props
  imports Run_Liveness Run_Codec
begin

text \<open>
  What run control guarantees, for any number of hosts over one store, any interleaving of their
  handlers, any answers of their drivers and any failures of the store: the history of runs in the
  journal, the ownership of activations on a host, the guards of the handlers, and that a start and a
  stop that nobody disturbs come to their end.
\<close>

section \<open>A sample start\<close>

definition sample_authority :: run_mutation_authority where
  "sample_authority = \<lparr>ra_installation_id = ''i1'', ra_run_id = None, ra_action = RUN_ACTION, ra_grant_id = None,
     ra_expires_at_ms = None, ra_refresh = None\<rparr>"

definition sample_start :: run_start_request where
  "sample_start = \<lparr>rsr_installation_id = ''i1'', rsr_expected_installation_revision = 1, rsr_entrypoint_id = ''main'',
     rsr_idempotency_key = ''k1'', rsr_authority = Some sample_authority\<rparr>"

definition sample_activation :: run_activation where
  "sample_activation = \<lparr>rac_context_id = None, rac_node_instances = [], rac_bindings = [], rac_opaque = None\<rparr>"

definition sample_driver :: run_driver where
  "sample_driver = \<lparr>rd_prepare = (\<lambda>_. preparation_ready 1 ''main'' 0), rd_activate = (\<lambda>_ _. sample_activation)\<rparr>"

definition sample_envs :: "nat \<Rightarrow> host_env" where
  "sample_envs n = \<lparr>he_clock = (\<lambda>_. 5), he_lease = (\<lambda>_. True), he_stamp = (\<lambda>_. (replicate n CHR ''e'', 7)), he_run_id = ''r1''\<rparr>"

definition sample_host :: run_host where
  "sample_host = \<lparr>ho_reg = run_registry_new\<lparr>rr_driver := True\<rparr>, ho_tasks = [0 \<mapsto> Supervise_Idle, 1 \<mapsto> Start_Entry sample_start]\<rparr>"

abbreviation sample_hosts :: "nat \<Rightarrow> run_host" where
  "sample_hosts \<equiv> (\<lambda>_. host_new)(0 := sample_host)"

abbreviation sample_starting :: run_view where
  "sample_starting \<equiv> starting_run (sample_envs 0) sample_start (rd_prepare sample_driver sample_start)"

lemma journal_ok_Nil: "journal_ok E C []"
  by (simp add: journal_ok_def spine_ok_def replays_Nil session_log_def)

lemma sample_hosts_reachable: "reachable E C [] sample_hosts"
proof -
  let ?h = "host_new\<lparr>ho_reg := run_registry_new\<lparr>rr_driver := True\<rparr>\<rparr>"
  have "host_step E C [] host_new [] ?h"
    by (rule driver) (simp add: install_driver_def host_new_def run_registry_new_def)
  then have 1: "reachable E C [] ((\<lambda>_. host_new)(0 := ?h))" by (rule reachable.host [OF init [OF journal_ok_Nil]])
  have "host_step E C [] ?h [] sample_host"
    using called [of ?h 1 "Start_Entry sample_start" E C "[]"] by (simp add: sample_host_def host_new_def)
  then show ?thesis using reachable.host [OF 1, of 0 "[]" sample_host] by simp
qed

lemma sample_start_ready: "start_ready sample_ext sample_driver sample_envs sample_start (ho_reg sample_host) [] run_state_default"
proof -
  have "run_record_validate sample_ext (rv_record sample_starting) = Inr ()"
    "run_record_validate sample_ext (rv_record (running_run sample_starting (rd_activate sample_driver ''r1'' (rd_prepare sample_driver sample_start)))) = Inr ()"
    "run_start_request_validate sample_start = Inr ()" by code_simp+
  then show ?thesis
    by (simp add: start_ready_def Let_def sample_envs_def sample_start_def sample_driver_def sample_host_def run_registry_new_def
        preparation_ready_def run_state_default_def installation_busy_def run_values_def authority_current_def sample_authority_def)
qed

text \<open>The sample start, once claimed.\<close>

abbreviation sample_prep :: run_preparation where
  "sample_prep \<equiv> rd_prepare sample_driver sample_start"

definition sample_claiming :: "run_state \<Rightarrow> nat \<Rightarrow> run_host" where
  "sample_claiming st = sample_hosts(0 := \<lparr>ho_reg = (ho_reg sample_host)\<lparr>rr_state := st\<rparr>,
     ho_tasks = (ho_tasks sample_host)(1 \<mapsto> Start_Confirm sample_start sample_prep sample_starting)\<rparr>)"

lemma sample_claiming_simps [simp]:
  "rr_state (ho_reg (sample_claiming st 0)) = st" "rr_active (ho_reg (sample_claiming st 0)) = Map.empty"
  "run_of (ho_reg (sample_claiming st 0)) = bt_get (rs_runs st)"
  "ho_tasks (sample_claiming st 0) 1 = Some (Start_Confirm sample_start sample_prep sample_starting)"
  by (auto simp: sample_claiming_def sample_host_def run_registry_new_def run_of_def)

lemma sample_starting_simps [simp]: "rv_run_id sample_starting = ''r1''" "rv_installation_id sample_starting = ''i1''"
  "rv_status sample_starting = Run_Starting"
  by (simp_all add: starting_run_def sample_envs_def sample_start_def)

lemma sample_claimed:
  obtains e st where "reachable sample_ext array_codec [e] (sample_claiming st)"
    "bt_get (rs_runs st) ''r1'' = Some sample_starting" "replays sample_ext array_codec (journal [e]) st"
    "rs_idempotency st (''i1'', Start_Operation, idempotency_key_hash sample_ext ''k1'')
      = Some \<lparr>ai_fingerprint = start_fingerprint sample_ext sample_start, ai_run_id = ''r1''\<rparr>"
proof -
  obtain e st where e: "(peaceful sample_ext array_codec sample_driver sample_envs)\<^sup>*\<^sup>* (Start_Entry sample_start, ho_reg sample_host, [])
      (Start_Confirm sample_start sample_prep sample_starting, (ho_reg sample_host)\<lparr>rr_state := st\<rparr>, [] @ [e])"
    and st: "bt_get (rs_runs st) (rv_run_id sample_starting) = Some sample_starting"
      "replays sample_ext array_codec (journal ([] @ [e])) st"
      "rs_idempotency st (rsr_installation_id sample_start, Start_Operation, idempotency_key_hash sample_ext (rsr_idempotency_key sample_start))
        = Some \<lparr>ai_fingerprint = start_fingerprint sample_ext sample_start, ai_run_id = rv_run_id sample_starting\<rparr>"
    by (rule start_peaceful_claim [OF journal_ok_Nil _ _ array_codec_ok _ sample_start_ready, of sample_starting])
       (auto simp: replays_Nil session_log_def tracks_def sample_host_def run_registry_new_def)
  have "reachable sample_ext array_codec [e] (sample_hosts(0 := \<lparr>ho_reg = (ho_reg sample_host)\<lparr>rr_state := st\<rparr>,
      ho_tasks = (ho_tasks (sample_hosts 0))(1 \<mapsto> Start_Confirm sample_start sample_prep sample_starting)\<rparr>))"
    by (rule peaceful_host_steps [OF e _ _ sample_hosts_reachable, of "Start_Entry sample_start" "ho_reg sample_host"])
       (auto simp: sample_host_def split: if_splits)
  moreover have "rsr_installation_id sample_start = ''i1''" "rsr_idempotency_key sample_start = ''k1''"
    by (simp_all add: sample_start_def)
  ultimately show ?thesis using that [of e st] st by (simp add: sample_claiming_def)
qed

section \<open>The history of runs\<close>

lemma reachable_journal: "reachable E C log hosts \<Longrightarrow> codec_ok C \<Longrightarrow> \<exists>st. replays E C (journal log) st"
  using reachable_ok by (auto simp: journal_ok_def)

lemma reachable_tracks: "reachable E C log hosts \<Longrightarrow> codec_ok C \<Longrightarrow> tracks E C log (rr_state (ho_reg (hosts k)))"
  using reachable_ok [of E C log hosts] by (simp add: host_ok_def)

lemma reachable_owners:
  "reachable E C log hosts \<Longrightarrow> codec_ok C
     \<Longrightarrow> owners_ok (run_of (ho_reg (hosts k))) (rr_active (ho_reg (hosts k))) (ho_tasks (hosts k))"
  using reachable_ok [of E C log hosts] by (simp add: host_ok_def)

text \<open>C1: In every reachable state the journal replays, its state has at most one active run per
  installation, every run is stored under its own id with a valid record, and the registry of every host
  has read a part of that history.\<close>

theorem journal_single_active_run:
  assumes "reachable E C log hosts" "codec_ok C"
  shows "\<exists>st. replays E C (journal log) st
    \<and> (\<forall>i j v w. bt_get (rs_runs st) i = Some v \<and> bt_get (rs_runs st) j = Some w
         \<and> rv_installation_id v = rv_installation_id w \<and> is_active (rv_status v) \<and> is_active (rv_status w) \<longrightarrow> i = j)
    \<and> (\<forall>i v. bt_get (rs_runs st) i = Some v \<longrightarrow> rv_run_id v = i \<and> run_record_validate E (rv_record v) = Inr ())
    \<and> (\<forall>k. state_grows (rr_state (ho_reg (hosts k))) st)"
proof -
  obtain st where st: "replays E C (journal log) st" using reachable_journal [OF assms] by blast
  have "state_grows (rr_state (ho_reg (hosts k))) st" for k
    using reachable_tracks [OF assms] replays_grows st unfolding tracks_def by metis
  moreover note D = run_state_okD [OF replays_ok [OF st]]
  ultimately show ?thesis using st D(2,3,4) by blast
qed

theorem journal_single_active_run_witness:
  "\<exists>e st v. replays sample_ext array_codec (journal [e]) st \<and> bt_get (rs_runs st) ''r1'' = Some v
     \<and> rv_run_id v = ''r1'' \<and> run_record_validate sample_ext (rv_record v) = Inr ()"
proof -
  obtain e st where r: "reachable sample_ext array_codec [e] (sample_claiming st)"
    and v: "bt_get (rs_runs st) ''r1'' = Some sample_starting" by (rule sample_claimed)
  from journal_single_active_run [OF r array_codec_ok]
  obtain st' where st': "replays sample_ext array_codec (journal [e]) st'"
      "\<And>i v. bt_get (rs_runs st') i = Some v \<Longrightarrow> rv_run_id v = i \<and> run_record_validate sample_ext (rv_record v) = Inr ()"
      "state_grows (rr_state (ho_reg (sample_claiming st 0))) st'" by blast
  obtain w where "bt_get (rs_runs st') ''r1'' = Some w" using st'(3) v by (auto simp: state_grows_def)
  then show ?thesis using st'(1,2) by blast
qed

text \<open>C2: No step of any host rewrites history: after it the journal still replays, every run is still
  there with its installation, revision of the installation and entrypoint, its revision has not gone down,
  a run that had ended is unchanged, and an idempotency key still names the run it was first used for.\<close>

theorem run_history_monotone:
  assumes "reachable E C log hosts" "codec_ok C" "host_step E C log (hosts k) log' h'" "replays E C (journal log) st"
  shows "\<exists>st'. replays E C (journal log') st'
    \<and> (\<forall>r v. bt_get (rs_runs st) r = Some v \<longrightarrow> (\<exists>w. bt_get (rs_runs st') r = Some w
         \<and> rv_installation_id w = rv_installation_id v \<and> rv_installation_revision w = rv_installation_revision v
         \<and> rv_entrypoint_id w = rv_entrypoint_id v \<and> rv_revision v \<le> rv_revision w
         \<and> (\<not> is_active (rv_status v) \<longrightarrow> w = v)))
    \<and> (\<forall>key a. rs_idempotency st key = Some a \<longrightarrow> rs_idempotency st' key = Some a)"
proof -
  have ok: "journal_ok E C log" "host_ok E C log (hosts k)" using reachable_ok [OF assms(1,2)] by blast+
  have env: "journal_env E C log log'" using host_step_ok [OF assms(3) ok assms(2)] by blast
  then obtain es st' where st': "journal log' = journal log @ es" "replays E C (journal log') st'"
    using ok(1) journal_prefix unfolding journal_env_def journal_ok_def by metis
  then have grows: "state_grows st st'" using replays_grows assms(4) by metis
  have "\<exists>w. bt_get (rs_runs st') r = Some w
         \<and> rv_installation_id w = rv_installation_id v \<and> rv_installation_revision w = rv_installation_revision v
         \<and> rv_entrypoint_id w = rv_entrypoint_id v \<and> rv_revision v \<le> rv_revision w
         \<and> (\<not> is_active (rv_status v) \<longrightarrow> w = v)" if "bt_get (rs_runs st) r = Some v" for r v
    using grows that unfolding state_grows_def run_grows_def by blast
  moreover have "rs_idempotency st' key = Some a" if "rs_idempotency st key = Some a" for key a
    using grows that unfolding state_grows_def map_le_def by (metis domI)
  ultimately show ?thesis using st'(2) by blast
qed

theorem run_history_monotone_witness:
  "\<exists>e st'. replays sample_ext array_codec (journal [e]) st' \<and> bt_get (rs_runs st') ''r1'' \<noteq> None"
proof -
  obtain e st where r: "reachable sample_ext array_codec [e] (sample_claiming st)"
    and v: "bt_get (rs_runs st) ''r1'' = Some sample_starting" by (rule sample_claimed)
  obtain st0 where st0: "replays sample_ext array_codec (journal [e]) st0" using reachable_journal [OF r array_codec_ok] by blast
  have "state_grows st st0"
    using reachable_tracks [OF r array_codec_ok, of 0] replays_grows st0 unfolding tracks_def by (metis sample_claiming_simps(1))
  then have "bt_get (rs_runs st0) ''r1'' \<noteq> None" using v by (auto simp: state_grows_def)
  with run_history_monotone [OF r array_codec_ok died st0] show ?thesis by blast
qed

section \<open>Ownership of activations\<close>



text \<open>The activations a host holds: those of its registry and those of starts under way.\<close>

definition holds :: "run_host \<Rightarrow> str \<Rightarrow> bool" where
  "holds h r \<longleftrightarrow> rr_active (ho_reg h) r \<noteq> None \<or> (\<exists>n t v. ho_tasks h n = Some t \<and> starting_of t = Some v \<and> rv_run_id v = r)"

text \<open>C4: A host holds at most one activation of an installation at any time: the activations in its
  registry, being cleaned or not, and those of starts under way all belong to one run. And every activation
  it holds is of a run it has read in the journal.\<close>

theorem one_activation_per_installation:
  assumes "reachable E C log hosts" "codec_ok C" "holds (hosts k) r" "holds (hosts k) r'"
  shows "\<exists>v v'. run_of (ho_reg (hosts k)) r = Some v \<and> run_of (ho_reg (hosts k)) r' = Some v'
    \<and> (rv_installation_id v = rv_installation_id v' \<longrightarrow> r = r')"
proof -
  let ?h = "hosts k" and ?runs = "run_of (ho_reg (hosts k))"
  note D = owners_okD [OF reachable_owners [OF assms(1,2)], of k]
  have known: "\<exists>v. ?runs r = Some v" if "holds ?h r" for r
    using that D(1) [of r] D(4) unfolding holds_def by (metis not_None_eq)
  have start: "rr_active (ho_reg ?h) j = None" if "ho_tasks ?h n = Some t" "starting_of t = Some u"
      "?runs (rv_run_id u) = Some x" "?runs j = Some y" "rv_installation_id x = rv_installation_id y" for j n t u x y
    using D(4) [OF that(1,2)] D(5) [OF that(1,2,4)] that(3,5) by auto
  obtain v v' where v: "?runs r = Some v" "?runs r' = Some v'" using known assms(3,4) by blast
  have "r = r'" if same: "rv_installation_id v = rv_installation_id v'"
  proof -
    from assms(3,4) consider
        (both) "rr_active (ho_reg ?h) r \<noteq> None" "rr_active (ho_reg ?h) r' \<noteq> None"
      | (first) n t u where "ho_tasks ?h n = Some t" "starting_of t = Some u" "rv_run_id u = r" "rr_active (ho_reg ?h) r' \<noteq> None"
      | (second) n t u where "ho_tasks ?h n = Some t" "starting_of t = Some u" "rv_run_id u = r'" "rr_active (ho_reg ?h) r \<noteq> None"
      | (starts) n t u m s w where "ho_tasks ?h n = Some t" "starting_of t = Some u" "rv_run_id u = r"
          "ho_tasks ?h m = Some s" "starting_of s = Some w" "rv_run_id w = r'"
      unfolding holds_def by blast
    then show ?thesis
    proof cases
      case both
      then show ?thesis using D(2) v same by blast
    next
      case first
      then show ?thesis using start [OF first(1,2), of v r' v'] v same by simp
    next
      case second
      then show ?thesis using start [OF second(1,2), of v' r v] v same by simp
    next
      case starts
      then have "rv_installation_id u = rv_installation_id v" "rv_installation_id w = rv_installation_id v'"
        using D(4) [of n t u] D(4) [of m s w] v by auto
      then have "n = m" using D(3) [of n t u] D(3) [of m s w] D(6) [of n t m s] starts same by simp
      then show ?thesis using starts by simp
    qed
  qed
  then show ?thesis using v by blast
qed

theorem one_activation_per_installation_witness:
  "\<exists>e st. reachable sample_ext array_codec [e] (sample_claiming st) \<and> holds (sample_claiming st 0) ''r1''
     \<and> run_of (ho_reg (sample_claiming st 0)) ''r1'' \<noteq> None"
proof -
  obtain e st where r: "reachable sample_ext array_codec [e] (sample_claiming st)" by (rule sample_claimed)
  have h: "holds (sample_claiming st 0) ''r1''"
    unfolding holds_def using sample_claiming_simps(4) starting_of.simps(1) sample_starting_simps(1) by blast
  from one_activation_per_installation [OF r array_codec_ok h h] h r show ?thesis by blast
qed


text \<open>The sample start, finished and stopped again.\<close>

definition sample_stop :: run_stop_request where
  "sample_stop = \<lparr>rst_installation_id = ''i1'', rst_run_id = ''r1'', rst_expected_revision = 2, rst_idempotency_key = ''k2'',
     rst_authority = Some (sample_authority\<lparr>ra_run_id := Some ''r1''\<rparr>)\<rparr>"

definition sample_running :: run_view where
  "sample_running = running_run sample_starting sample_activation"

definition sample_stopping_host :: "run_state \<Rightarrow> task \<Rightarrow> run_host" where
  "sample_stopping_host st t = \<lparr>ho_reg = (ho_reg sample_host)\<lparr>rr_state := st, rr_active := [''r1'' \<mapsto> Available sample_activation]\<rparr>,
     ho_tasks = (ho_tasks sample_host)(1 \<mapsto> t, 2 \<mapsto> Stop_Entry sample_stop)\<rparr>"

lemma sample_started:
  obtains e1 e2 st where "reachable sample_ext array_codec [e1, e2] (sample_hosts(0 := sample_stopping_host st (start_ok sample_running False)))"
    "stop_ready sample_ext sample_envs sample_stop (ho_reg (sample_stopping_host st t)) [e1, e2] st sample_running"
    "replays sample_ext array_codec (journal [e1, e2]) st"
proof -
  have act: "sample_activation = rd_activate sample_driver (rv_run_id sample_starting) sample_prep" by (simp add: sample_driver_def)
  obtain e1 e2 st where e: "(peaceful sample_ext array_codec sample_driver sample_envs)\<^sup>*\<^sup>* (Start_Entry sample_start, ho_reg sample_host, [])
      (start_ok sample_running False, (ho_reg sample_host)\<lparr>rr_state := st,
        rr_active := (rr_active (ho_reg sample_host))(''r1'' \<mapsto> Available sample_activation)\<rparr>, [] @ [e1, e2])"
    and st: "replays sample_ext array_codec (journal ([] @ [e1, e2])) st" "bt_get (rs_runs st) ''r1'' = Some sample_running"
      "\<forall>i h. rs_idempotency st (i, Stop_Operation, h) = rs_idempotency run_state_default (i, Stop_Operation, h)"
      "ev_id ` {e1, e2} = {fst (he_stamp (sample_envs 0) 0), fst (he_stamp (sample_envs (Suc 0)) 0)}"
    by (rule start_peaceful [OF journal_ok_Nil _ _ array_codec_ok _ sample_start_ready _ act])
       (auto simp: replays_Nil session_log_def tracks_def sample_host_def run_registry_new_def sample_running_def)
  have empty: "rr_active (ho_reg sample_host) = Map.empty" by (simp add: sample_host_def run_registry_new_def)
  define h where "h = \<lparr>ho_reg = (ho_reg sample_host)\<lparr>rr_state := st, rr_active := [''r1'' \<mapsto> Available sample_activation]\<rparr>,
      ho_tasks = (ho_tasks sample_host)(1 \<mapsto> start_ok sample_running False)\<rparr>"
  have "reachable sample_ext array_codec [e1, e2] (sample_hosts(0 := \<lparr>ho_reg = (ho_reg sample_host)\<lparr>rr_state := st,
        rr_active := (rr_active (ho_reg sample_host))(''r1'' \<mapsto> Available sample_activation)\<rparr>,
      ho_tasks = (ho_tasks (sample_hosts 0))(1 \<mapsto> start_ok sample_running False)\<rparr>))"
    by (rule peaceful_host_steps [OF e _ _ sample_hosts_reachable, of "Start_Entry sample_start" "ho_reg sample_host"])
       (auto simp: sample_host_def split: if_splits)
  then have r: "reachable sample_ext array_codec [e1, e2] ((\<lambda>_. host_new)(0 := h))" by (simp add: empty h_def)
  have "host_step sample_ext array_codec [e1, e2] h [e1, e2] (sample_stopping_host st (start_ok sample_running False))"
    using called [of h 2 "Stop_Entry sample_stop"] by (simp add: h_def sample_stopping_host_def sample_host_def)
  then have reach: "reachable sample_ext array_codec [e1, e2]
      (sample_hosts(0 := sample_stopping_host st (start_ok sample_running False)))"
    using reachable.host [OF r, of 0] by simp
  have running: "rv_installation_id sample_running = ''i1''" "rv_revision sample_running = 2" "rv_status sample_running = Run_Running"
      "rn_started_at (rv_record sample_running) = 5"
    by (simp_all add: sample_running_def running_run_def next_revision_def with_health_def starting_run_def sample_envs_def
        sample_start_def saturating_add_def)
  have "check_string sample_ext (rfc3339 sample_ext 5) (Some ''stopped_at'') = Inr ()" "run_stop_request_validate sample_stop = Inr ()"
    by code_simp+
  moreover have ids: "{ev_id e1, ev_id e2} = {[], ''e''}" using st(4) by (simp add: sample_envs_def)
  ultimately have "stop_ready sample_ext sample_envs sample_stop (ho_reg (sample_stopping_host st t)) [e1, e2] st sample_running"
    using st(2,3) running ids by (auto simp: stop_ready_def Let_def sample_stop_def sample_envs_def sample_stopping_host_def
        sample_host_def run_registry_new_def authority_current_def sample_authority_def run_state_default_def)
  then show ?thesis using that [OF reach] st(1) by simp
qed

lemma sample_releasing:
  obtains e1 e2 e3 reg t where "reachable sample_ext array_codec [e1, e2, e3]
      (sample_hosts(0 := \<lparr>ho_reg = reg, ho_tasks = (ho_tasks sample_host)(1 \<mapsto> t, 2 \<mapsto> Complete_Commit ''r1'' True False None To_Stop)\<rparr>))"
proof -
  let ?t = "start_ok sample_running False" and ?E = sample_ext and ?C = array_codec
  obtain e1 e2 st where r: "reachable ?E ?C [e1, e2] (sample_hosts(0 := sample_stopping_host st ?t))"
    and ready: "stop_ready ?E sample_envs sample_stop (ho_reg (sample_stopping_host st ?t)) [e1, e2] st sample_running"
    and st: "replays ?E ?C (journal [e1, e2]) st" by (rule sample_started)
  let ?h = "sample_stopping_host st ?t"
  have ok: "journal_ok ?E ?C [e1, e2]" "tracks ?E ?C [e1, e2] (rr_state (ho_reg ?h))"
    using reachable_ok [OF r array_codec_ok] reachable_tracks [OF r array_codec_ok, of 0] by simp_all
  have "length (journal [e1, e2]) \<le> 2" by (simp add: session_log_def)
  then have room: "Suc (length (journal [e1, e2])) < 2 ^ 64" by simp
  have rid: "''r1'' = rst_run_id sample_stop" by (simp add: sample_stop_def)
  obtain e3 st1 reg1 where steps: "(peaceful ?E ?C sample_driver sample_envs)\<^sup>*\<^sup>* (Stop_Entry sample_stop, ho_reg ?h, [e1, e2])
      (Complete_Commit ''r1'' True False None To_Stop, reg1, [e1, e2] @ [e3])"
    by (rule stop_peaceful_release [OF ok room array_codec_ok st ready _ rid]) auto
  have "reachable ?E ?C [e1, e2, e3] ((sample_hosts(0 := ?h))(0 := \<lparr>ho_reg = reg1,
      ho_tasks = (ho_tasks ((sample_hosts(0 := ?h)) 0))(2 \<mapsto> Complete_Commit ''r1'' True False None To_Stop)\<rparr>))"
    by (rule peaceful_host_steps [OF steps _ _ r, of "Stop_Entry sample_stop" "ho_reg ?h"])
       (auto simp: sample_stopping_host_def sample_host_def split: if_splits)
  then show ?thesis using that [of e1 e2 e3 reg1 ?t] by (simp add: sample_stopping_host_def)
qed


section \<open>The guards of the handlers\<close>

text \<open>C6: A start is idempotent. If the registry knows that an installation has used a start key, neither of
  the two places of a start that look it up goes on to the driver: the call fails, or the request has the
  fingerprint recorded with the key and the call returns, or resumes, the run the key was used for.\<close>

theorem start_idempotent:
  assumes "reachable E C log hosts" "codec_ok C" and reg: "reg = ho_reg (hosts k)"
    and known: "rs_idempotency (rr_state reg) (rsr_installation_id request, Start_Operation,
      idempotency_key_hash E (rsr_idempotency_key request)) = Some a"
    and call: "t \<in> {Start_Replay request, Start_Claim request preparation}"
    and task: "task_step E C (shared_step E C) env t reg (log, script) = Some (t', reg', store')"
  shows "(\<exists>e. t' = start_failed e)
    \<or> ai_fingerprint a = start_fingerprint E request
      \<and> (\<exists>run. run_of reg' (ai_run_id a) = Some run \<and> (t' = start_ok run True \<or> t' = Start_Resume request run True))"
proof -
  have ok: "journal_ok E C (fst (log, script)) \<and> tracks E C (fst (log, script)) (rr_state reg)"
    using reachable_ok [OF assms(1,2)] reachable_tracks [OF assms(1,2), of k] reg by simp
  have found: ?thesis if "state_grows (rr_state reg) (rr_state reg1)" "start_lookup E request reg1 = r"
      "case r of Inl e \<Rightarrow> t' = start_failed e | Inr (Some run) \<Rightarrow> t' = start_replayed request run \<and> reg' = reg1 | Inr None \<Rightarrow> True"
      "r = Inr None \<Longrightarrow> tracks E C l (rr_state reg1)" for reg1 r l
  proof -
    have key: "rs_idempotency (rr_state reg1) (rsr_installation_id request, Start_Operation,
        idempotency_key_hash E (rsr_idempotency_key request)) = Some a"
      using that(1) known unfolding state_grows_def map_le_def by (metis domI)
    show ?thesis
    proof (cases "ai_fingerprint a = start_fingerprint E request")
      case False
      then have "r = Inl IdempotencyConflict"
        using that(2) key by (simp add: start_lookup_def lookup_idempotency_def demand_def)
      then show ?thesis using that(3) by simp
    next
      case True
      then have r: "r = Inr (run_of reg1 (ai_run_id a))"
        using that(2) key by (simp add: start_lookup_def lookup_idempotency_def demand_def run_of_def)
      then show ?thesis
      proof (cases "run_of reg1 (ai_run_id a)")
        case None
        then have "run_state_ok E (rr_state reg1)" using that(4) r replays_ok unfolding tracks_def by blast
        from run_state_okD(5) [OF this key] None show ?thesis by (auto simp: run_of_def)
      next
        case (Some run)
        then show ?thesis using that(3) r True by (auto simp: start_replayed_def)
      qed
    qed
  qed
  from call consider "t = Start_Replay request" | "t = Start_Claim request preparation" by blast
  then show ?thesis
  proof cases
    case 1
    with task have "start_replay E C (shared_step E C) request reg (log, script) = Some (t', reg', store')" by simp
    from this [unfolded start_replay_def] ok show ?thesis
    proof (cases rule: shared.synced_cases)
      case (failed e reg1)
      then show ?thesis by (auto simp: failing_def)
    next
      case (body m reg1 store1)
      then show ?thesis
        by (intro found [of reg1 "start_lookup E request reg1" "fst store1"])
           (auto simp: shared.advances_def split: sum.splits option.splits)
    qed
  next
    case 2
    with task have "start_claim E C (shared_step E C) env request preparation reg (log, script) = Some (t', reg', store')" by simp
    from this [unfolded start_claim_def] ok show ?thesis
    proof (cases rule: shared.synced_cases)
      case (failed e reg1)
      then show ?thesis by (auto simp: failing_def)
    next
      case (body m reg1 store1)
      then show ?thesis
        by (intro found [of reg1 "start_lookup E request reg1" "fst store1"])
           (auto simp: shared.advances_def split: sum.splits option.splits)
    qed
  qed
qed

theorem start_idempotent_witness:
  "\<exists>e st store'. task_step sample_ext array_codec (shared_step sample_ext array_codec) (sample_envs 1) (Start_Replay sample_start)
       (ho_reg (sample_claiming st 0)) ([e], []) = Some (Start_Resume sample_start sample_starting True, ho_reg (sample_claiming st 0), store')
     \<and> bt_get (rs_runs st) ''r1'' = Some sample_starting"
proof -
  let ?E = sample_ext and ?C = array_codec
  obtain e st where r: "reachable ?E ?C [e] (sample_claiming st)" and v: "bt_get (rs_runs st) ''r1'' = Some sample_starting"
    and st: "replays ?E ?C (journal [e]) st"
    and key: "rs_idempotency st (''i1'', Start_Operation, idempotency_key_hash ?E ''k1'')
      = Some \<lparr>ai_fingerprint = start_fingerprint ?E sample_start, ai_run_id = ''r1''\<rparr>" by (rule sample_claimed)
  let ?reg = "ho_reg (sample_claiming st 0)"
  have names: "rsr_installation_id sample_start = ''i1''" "rsr_idempotency_key sample_start = ''k1''" by (simp_all add: sample_start_def)
  have ok: "journal_ok ?E ?C [e]" "tracks ?E ?C [e] (rr_state ?reg)"
    using reachable_ok [OF r array_codec_ok] reachable_tracks [OF r array_codec_ok] by blast+
  have "length (journal [e]) < 2 ^ 64" by (simp add: session_log_def)
  note sync = synced_in_peace [OF ok this st]
  have same: "?reg\<lparr>rr_state := st\<rparr> = ?reg" by (simp add: sample_claiming_def)
  have lookup: "start_lookup ?E sample_start ?reg = Inr (Some sample_starting)"
    using key v names by (simp add: start_lookup_def lookup_idempotency_def demand_def)
  have task: "task_step ?E ?C (shared_step ?E ?C) (sample_envs 1) (Start_Replay sample_start) ?reg ([e], [])
      = Some (Start_Resume sample_start sample_starting True, ?reg, ([e], []))"
    unfolding task_step.simps start_replay_def sync same using lookup by (simp add: start_replayed_def)
  have "rs_idempotency (rr_state ?reg) (rsr_installation_id sample_start, Start_Operation,
      idempotency_key_hash ?E (rsr_idempotency_key sample_start)) = Some \<lparr>ai_fingerprint = start_fingerprint ?E sample_start, ai_run_id = ''r1''\<rparr>"
    using key names by simp
  from start_idempotent [OF r array_codec_ok HOL.refl this insertI1 task] task v show ?thesis by auto
qed

lemma lease_held: "ensure_owner_lease env k reg = Inr () \<Longrightarrow> rr_owner_lease reg \<Longrightarrow> he_lease env k"
  by (simp add: ensure_owner_lease_def demand_def split: if_splits)

lemma start_claim_authorised:
  assumes call: "start_claim E C (shared_step E C) env request preparation reg (log, script)
      = Some (Start_Confirm request preparation v, reg', (log', script'))"
    and ok: "journal_ok E C (fst (log, script)) \<and> tracks E C (fst (log, script)) (rr_state reg)" and codec: "codec_ok C"
  shows "(\<exists>a. rsr_authority request = Some a \<and> authority_current (he_clock env 0) a (rsr_installation_id request) None)
    \<and> (rr_owner_lease reg \<longrightarrow> he_lease env 0)
    \<and> (\<exists>st. replays E C (journal log') st \<and> bt_get (rs_runs st) (rv_run_id v) = Some v)"
  using call [unfolded start_claim_def] ok
proof (cases rule: shared.synced_cases)
  case (failed e reg1)
  then show ?thesis by (simp add: failing_def)
next
  case (body m reg1 store1)
  let ?i = "rsr_installation_id request" and ?v = "starting_run env request preparation"
  have owner: "rr_owner_lease reg1 = rr_owner_lease reg" using body(2) by (simp add: same_owners_def)
  from body(4) obtain a r reg2 where a: "rsr_authority request = Some a" "?v = v" "r = Inr ()"
      "append_with_installation_authority E C (shared_step E C) env EVENT_RUN_STARTING
        \<lparr>jp_run = ?v, jp_idempotency = Some (start_claim_of E request)\<rparr> a ?i reg1 store1 = (r, reg2, (log', script'))"
    by (auto simp: Let_def start_replayed_def split: sum.splits option.splits if_splits prod.splits)
  from a(4) shared.advances_ok [OF body(1)] codec show ?thesis
  proof (cases rule: shared.append_installation_cases)
    case (refused err)
    then show ?thesis using a(3) by simp
  next
    case (appended e)
    have "bt_get (rs_runs (rr_state reg2)) (rv_run_id v) = Some v" using appended(9) a(2) by (simp add: run_of_def fun_eq_iff)
    then show ?thesis using appended(3,10) a(1) lease_held [OF appended(2)] owner by auto
  qed
qed

lemma stop_entry_authorised:
  assumes call: "stop_entry E C (shared_step E C) env request reg (log, script) = Some (t', reg', store')"
    and ok: "journal_ok E C (fst (log, script)) \<and> tracks E C (fst (log, script)) (rr_state reg)" and codec: "codec_ok C"
    and returned: "\<And>e. t' \<noteq> stop_failed e"
  shows "\<exists>a. rst_authority request = Some a
    \<and> authority_current (he_clock env 1) a (rst_installation_id request) (Some (rst_run_id request))
    \<and> ((\<exists>s. t' = Complete_Entry s False None To_Stop) \<longrightarrow> (rr_owner_lease reg \<longrightarrow> he_lease env 0)
         \<and> authority_current (he_clock env 0) a (rst_installation_id request) (Some (rst_run_id request)))"
proof -
  let ?i = "rst_installation_id request" and ?r = "rst_run_id request"
  obtain a where a: "rst_authority request = Some a" "run_stop_request_validate request = Inr ()"
    using call returned by (auto simp: stop_entry_def split: sum.splits option.splits)
  from call [unfolded stop_entry_def a sum.case option.case] ok show ?thesis
  proof (cases rule: shared.synced_cases)
    case (failed e reg1)
    then show ?thesis using returned by (auto simp: failing_def)
  next
    case (body m reg1 store1)
    have owner: "rr_owner_lease reg1 = rr_owner_lease reg" using body(2) by (simp add: same_owners_def)
    have cur: "refresh_current_for_run (he_clock env 1) a ?i ?r = Inr ()"
      using body(4) returned by (auto split: sum.splits)
    moreover have "(rr_owner_lease reg \<longrightarrow> he_lease env 0) \<and> authority_current (he_clock env 0) a ?i (Some ?r)"
      if marked: "t' = Complete_Entry s False None To_Stop" for s
    proof -
      from body(4) cur marked obtain current where "stop_current E C (shared_step E C) env request a current reg1 store1 = (t', reg', store')"
        by (auto split: sum.splits option.splits if_splits)
      then obtain p reg2 where app: "append_with_run_authority E C (shared_step E C) env EVENT_RUN_STOPPING p a ?i ?r reg1 store1
          = (Inr (), reg2, store')"
        using marked by (auto simp: stop_current_def Let_def split: if_splits sum.splits prod.splits)
      from app shared.advances_ok [OF body(1)] codec show ?thesis
        by (cases rule: shared.append_run_cases) (use owner lease_held in auto)
    qed
    ultimately show ?thesis using a(1) by (auto simp: res_simps)
  qed
qed


lemma peaceful_task_step:
  assumes "peaceful E C D envs (t, reg, log) (t', reg', log')" "willing D t = None"
  obtains s' where "task_step E C (shared_step E C) (envs (length log)) t reg (log, []) = Some (t', reg', (log', s'))"
  using assms by (auto simp: alone_def simp del: task_step.simps)


section \<open>Termination and progress\<close>

text \<open>C8: Reading the journal terminates, whatever other hosts append in the meantime and whenever the store
  fails, and when it succeeds the registry has the state of the whole journal, however many pages it took.\<close>

theorem journal_sync_exact:
  assumes "reachable E C log hosts" "codec_ok C"
  shows "\<exists>r st log' script'. sync_journal E C (shared_step E C) (rr_state (ho_reg (hosts k))) (log, script) = Some (r, st, (log', script'))
    \<and> (\<exists>es. log' = log @ es) \<and> (\<forall>n. r = Inr n \<longrightarrow> replays E C (journal log') st)"
proof -
  have ok: "journal_ok E C (fst (log, script)) \<and> tracks E C (fst (log, script)) (rr_state (ho_reg (hosts k)))"
    using reachable_ok [OF assms] reachable_tracks [OF assms] by simp
  obtain r st log' script' where sync: "sync_journal E C (shared_step E C) (rr_state (ho_reg (hosts k))) (log, script)
      = Some (r, st, (log', script'))"
    using sync_loop_returns [of E C log] ok unfolding sync_journal_def by (metis fst_conv prod_cases4)
  note sound = shared.sync_sound [OF sync ok]
  show ?thesis using sync sound(1) sound(4) by (auto simp: journal_env_def)
qed

theorem journal_sync_exact_witness:
  "\<exists>e st r st' log' script'. sync_journal sample_ext array_codec (shared_step sample_ext array_codec)
       (rr_state (ho_reg (sample_claiming st 1))) ([e], [Foreign [], Store_Failure]) = Some (r, st', (log', script')) \<and> e \<in> set log'"
proof -
  obtain e st where r: "reachable sample_ext array_codec [e] (sample_claiming st)" by (rule sample_claimed)
  from journal_sync_exact [OF r array_codec_ok, of 1 "[Foreign [], Store_Failure]"]
  obtain a b c d where "sync_journal sample_ext array_codec (shared_step sample_ext array_codec)
       (rr_state (ho_reg (sample_claiming st 1))) ([e], [Foreign [], Store_Failure]) = Some (a, b, (c, d))" "\<exists>es. c = [e] @ es" by blast
  moreover from this have "e \<in> set c" by auto
  ultimately show ?thesis by blast
qed

text \<open>C9: A start that is in order makes the run running. If nobody disturbs it and what it asks for is at
  hand, the steps of a start lead, after two events in the journal, to a running run whose activation the
  registry owns, and the call returns that run.\<close>

theorem start_completes:
  assumes "reachable E C log hosts" "codec_ok C" "Suc (length (journal log)) < 2 ^ 64" "replays E C (journal log) st"
    and "reg = ho_reg (hosts k)" "start_ready E D envs request reg log st"
  shows "\<exists>e1 e2 reg' run activation. (peaceful E C D envs)\<^sup>*\<^sup>* (Start_Entry request, reg, log) (start_ok run False, reg', log @ [e1, e2])
    \<and> replays E C (journal (log @ [e1, e2])) (rr_state reg') \<and> run_of reg' (rv_run_id run) = Some run
    \<and> rv_status run = Run_Running \<and> rv_installation_id run = rsr_installation_id request
    \<and> rr_active reg' = (rr_active reg)(rv_run_id run \<mapsto> Available activation)"
proof -
  define v where "v = starting_run (envs (length log)) request (rd_prepare D request)"
  define activation where "activation = rd_activate D (rv_run_id v) (rd_prepare D request)"
  have ok: "journal_ok E C log" "tracks E C log (rr_state reg)"
    using reachable_ok [OF assms(1,2)] reachable_tracks [OF assms(1,2), of k] assms(5) by simp_all
  obtain e1 e2 st2 where steps: "(peaceful E C D envs)\<^sup>*\<^sup>* (Start_Entry request, reg, log)
      (start_ok (running_run v activation) False,
       reg\<lparr>rr_state := st2, rr_active := (rr_active reg)(rv_run_id v \<mapsto> Available activation)\<rparr>, log @ [e1, e2])"
    "replays E C (journal (log @ [e1, e2])) st2" "bt_get (rs_runs st2) (rv_run_id v) = Some (running_run v activation)"
    by (rule start_peaceful [OF ok assms(3,2,4,6) v_def activation_def])
  have "rv_run_id (running_run v activation) = rv_run_id v" "rv_status (running_run v activation) = Run_Running"
      "rv_installation_id (running_run v activation) = rsr_installation_id request"
    by (simp_all add: v_def starting_run_def running_run_def next_revision_def with_health_def)
  then show ?thesis
    using steps by (intro exI [of _ e1] exI [of _ e2] exI [of _ "reg\<lparr>rr_state := st2, rr_active := (rr_active reg)(rv_run_id v \<mapsto> Available activation)\<rparr>"]
        exI [of _ "running_run v activation"] exI [of _ activation]) (simp add: run_of_def)
qed

theorem start_completes_witness:
  "\<exists>e1 e2 reg' run. (peaceful sample_ext array_codec sample_driver sample_envs)\<^sup>*\<^sup>* (Start_Entry sample_start, ho_reg sample_host, [])
      (start_ok run False, reg', [e1, e2]) \<and> rv_status run = Run_Running \<and> rr_active reg' (rv_run_id run) \<noteq> None"
proof -
  have empty: "Suc (length (journal [])) < 2 ^ 64" "replays sample_ext array_codec (journal []) run_state_default"
      "ho_reg sample_host = ho_reg (sample_hosts 0)"
    by (simp_all add: session_log_def replays_Nil)
  from start_completes [OF sample_hosts_reachable array_codec_ok empty sample_start_ready]
  obtain e1 e2 reg' run activation where "(peaceful sample_ext array_codec sample_driver sample_envs)\<^sup>*\<^sup>*
      (Start_Entry sample_start, ho_reg sample_host, []) (start_ok run False, reg', [] @ [e1, e2])"
    "rv_status run = Run_Running" "rr_active reg' = (rr_active (ho_reg sample_host))(rv_run_id run \<mapsto> Available activation)" by blast
  then show ?thesis by (intro exI [of _ e1] exI [of _ e2] exI [of _ reg'] exI [of _ run]) simp
qed

text \<open>C10: An explicit stop of a running run comes to its end. If nobody disturbs it and the driver stops the
  activation, the steps of a stop lead, after two events in the journal, to a stopped run whose activation is
  gone, and the call returns that run.\<close>

theorem explicit_stop_completes:
  assumes "reachable E C log hosts" "codec_ok C" "Suc (length (journal log)) < 2 ^ 64" "replays E C (journal log) st"
    and "reg = ho_reg (hosts k)" "stop_ready E envs request reg log st v"
  shows "\<exists>e1 e2 reg' run. (peaceful E C D envs)\<^sup>*\<^sup>* (Stop_Entry request, reg, log) (stop_ok run False, reg', log @ [e1, e2])
    \<and> replays E C (journal (log @ [e1, e2])) (rr_state reg') \<and> run_of reg' (rst_run_id request) = Some run
    \<and> rv_status run = Run_Stopped \<and> rr_active reg' = (rr_active reg)(rst_run_id request := None)"
proof -
  have ok: "journal_ok E C log" "tracks E C log (rr_state reg)"
    using reachable_ok [OF assms(1,2)] reachable_tracks [OF assms(1,2), of k] assms(5) by simp_all
  obtain e1 e2 st2 reg2 t where "(peaceful E C D envs)\<^sup>*\<^sup>* (Stop_Entry request, reg, log) (stop_ok t False, reg2, log @ [e1, e2])"
    "replays E C (journal (log @ [e1, e2])) st2" "bt_get (rs_runs st2) (rst_run_id request) = Some t" "rv_status t = Run_Stopped"
    "rr_state reg2 = st2" "rr_active reg2 = (rr_active reg)(rst_run_id request := None)"
    by (rule stop_peaceful [OF ok assms(3,2,4,6) HOL.refl])
  then show ?thesis by (intro exI [of _ e1] exI [of _ e2] exI [of _ reg2] exI [of _ t]) (simp add: run_of_def)
qed

theorem explicit_stop_completes_witness:
  "\<exists>log reg e1 e2 reg' run. (peaceful sample_ext array_codec sample_driver sample_envs)\<^sup>*\<^sup>* (Stop_Entry sample_stop, reg, log)
      (stop_ok run False, reg', log @ [e1, e2]) \<and> rv_status run = Run_Stopped \<and> rr_active reg ''r1'' \<noteq> None \<and> rr_active reg' ''r1'' = None"
proof -
  let ?t = "start_ok sample_running False" and ?E = sample_ext and ?C = array_codec
  obtain a b st where r: "reachable ?E ?C [a, b] (sample_hosts(0 := sample_stopping_host st ?t))"
    and ready: "stop_ready ?E sample_envs sample_stop (ho_reg (sample_stopping_host st ?t)) [a, b] st sample_running"
    and st: "replays ?E ?C (journal [a, b]) st" by (rule sample_started)
  have "length (journal [a, b]) \<le> 2" by (simp add: session_log_def)
  then have room: "Suc (length (journal [a, b])) < 2 ^ 64" by simp
  have reg: "ho_reg (sample_stopping_host st ?t) = ho_reg ((sample_hosts(0 := sample_stopping_host st ?t)) 0)" by simp
  from explicit_stop_completes [OF r array_codec_ok room st reg ready, of sample_driver]
  obtain e1 e2 reg' run where ended: "(peaceful ?E ?C sample_driver sample_envs)\<^sup>*\<^sup>*
      (Stop_Entry sample_stop, ho_reg (sample_stopping_host st ?t), [a, b]) (stop_ok run False, reg', [a, b] @ [e1, e2])"
    "rv_status run = Run_Stopped" "rr_active reg' = (rr_active (ho_reg (sample_stopping_host st ?t)))(rst_run_id sample_stop := None)" by blast
  have "rst_run_id sample_stop = ''r1''" "rr_active (ho_reg (sample_stopping_host st ?t)) ''r1'' \<noteq> None"
    by (simp_all add: sample_stop_def sample_stopping_host_def)
  then show ?thesis using ended by (metis fun_upd_same)
qed

text \<open>A store that fails when a start reads the journal after the driver has activated the run: the call
  returns the error, and the activation is neither stopped nor owned by anyone.\<close>

lemma start_commit_drops_activation:
  "start_commit E C (shared_step E C) env request v activation reg (log, [Store_Failure]) = Some (start_failed RunStoreFailed, reg, (log, []))"
  by (simp add: start_commit_def synced_def sync_journal_def sync_loop.simps failing_def)

end
