(* ===== verification/Object_Store.thy ===== *)
theory Object_Store
  imports Canonical
begin

text \<open>
  Content-addressed objects: the trait \<open>ObjectStore\<close> with its in-memory and file-system back ends and
  the reader that checks a stream (\<open>crates/plurora-runtime/src/object_store.rs\<close>), and the artifacts
  that the runtime commits to it (\<open>runtime/artifacts.rs\<close>).

  The trait object is the record \<open>object_store\<close> of its methods on a state. What the operating system
  answers to the calls of one method of the file-system store, and what another process does to
  the same path in between, is the record \<open>fs_outcome\<close>; the answers are part of the state of that
  store, one per call.
\<close>

datatype object_error =
    InvalidDigest | UnsupportedDigestAlgorithm | ObjectNotFound | IntegrityFailed
  | DescriptorSizeMismatch | ObjectIo

record object_info =
  oi_digest :: str
  oi_size_bytes :: u64

record 'o object_store =
  os_put :: "str \<Rightarrow> 'o \<Rightarrow> (object_error + object_info) \<times> 'o"
  os_get :: "str \<Rightarrow> 'o \<Rightarrow> (object_error + str) \<times> 'o"
  os_has :: "str \<Rightarrow> 'o \<Rightarrow> (object_error + bool) \<times> 'o"
  os_verify :: "str \<Rightarrow> 'o \<Rightarrow> (object_error + object_info) \<times> 'o"

definition byte_len :: "str \<Rightarrow> u64" where
  "byte_len bytes = of_nat (length bytes)"

definition info_of :: "ext \<Rightarrow> str \<Rightarrow> object_info" where
  "info_of E bytes = \<lparr>oi_digest = sha256_digest E bytes, oi_size_bytes = byte_len bytes\<rparr>"

text \<open>The function \<open>sha256_hex\<close> of the source: the hexadecimal part of a digest.\<close>

definition digest_hex :: "str \<Rightarrow> object_error + str" where
  "digest_hex digest =
     (if CHR '':'' \<notin> set digest then Inl InvalidDigest
      else if before_colon digest \<noteq> ''sha256'' then Inl UnsupportedDigestAlgorithm
      else if length (after_colon digest) \<noteq> 64 \<or> \<not> list_all is_lower_hex (after_colon digest) then Inl InvalidDigest
      else Inr (after_colon digest))"

definition verify_bytes :: "ext \<Rightarrow> str \<Rightarrow> str \<Rightarrow> object_error + object_info" where
  "verify_bytes E expected bytes =
     and_then (digest_hex expected) (\<lambda>_.
       if sha256_digest E bytes \<noteq> expected then Inl IntegrityFailed
       else Inr \<lparr>oi_digest = expected, oi_size_bytes = byte_len bytes\<rparr>)"

section \<open>The in-memory store\<close>

type_synonym memory_objects = "str \<rightharpoonup> str"

definition memory_put :: "ext \<Rightarrow> str \<Rightarrow> memory_objects \<Rightarrow> (object_error + object_info) \<times> memory_objects" where
  "memory_put E bytes objects =
     (let digest = sha256_digest E bytes in
      (Inr (info_of E bytes),
       (case objects digest of None \<Rightarrow> objects(digest \<mapsto> bytes) | Some _ \<Rightarrow> objects)))"

definition memory_get :: "ext \<Rightarrow> str \<Rightarrow> memory_objects \<Rightarrow> object_error + str" where
  "memory_get E digest objects =
     and_then (digest_hex digest) (\<lambda>_.
     and_then (ok_or (objects digest) ObjectNotFound) (\<lambda>bytes.
     and_then (verify_bytes E digest bytes) (\<lambda>_. Inr bytes)))"

definition memory_has :: "str \<Rightarrow> memory_objects \<Rightarrow> object_error + bool" where
  "memory_has digest objects = and_then (digest_hex digest) (\<lambda>_. Inr (objects digest \<noteq> None))"

definition memory_verify :: "ext \<Rightarrow> str \<Rightarrow> memory_objects \<Rightarrow> object_error + object_info" where
  "memory_verify E digest objects =
     and_then (memory_get E digest objects) (\<lambda>bytes. Inr \<lparr>oi_digest = digest, oi_size_bytes = byte_len bytes\<rparr>)"

definition memory_object_store :: "ext \<Rightarrow> memory_objects object_store" where
  "memory_object_store E = \<lparr>os_put = memory_put E,
     os_get = (\<lambda>d st. (memory_get E d st, st)), os_has = (\<lambda>d st. (memory_has d st, st)),
     os_verify = (\<lambda>d st. (memory_verify E d st, st))\<rparr>"

section \<open>The file-system store\<close>

record fs_outcome =
  fo_exists :: bool
  fo_read :: bool
  fo_prepare :: bool
  fo_temp :: str
  fo_create :: bool
  fo_written :: "nat option"
  fo_synced :: bool
  fo_race :: "str option"
  fo_rename :: bool
  fo_sync_directory :: bool
  fo_exists_again :: bool
  fo_remove :: bool

record fs_objects =
  fs_files :: "str \<rightharpoonup> str"
  fs_temps :: "str \<rightharpoonup> str"
  fs_outcomes :: "nat \<Rightarrow> fs_outcome"
  fs_calls :: nat

definition fs_outcome_now :: "fs_objects \<Rightarrow> fs_outcome" where
  "fs_outcome_now st = fs_outcomes st (fs_calls st)"

definition fs_called :: "fs_objects \<Rightarrow> fs_objects" where
  "fs_called st = st\<lparr>fs_calls := Suc (fs_calls st)\<rparr>"

text \<open>\<open>verify_path\<close> with \<open>verify_file\<close>: the whole file is hashed.\<close>

definition verify_path :: "ext \<Rightarrow> bool \<Rightarrow> str \<Rightarrow> str option \<Rightarrow> object_error + object_info" where
  "verify_path E readable digest content =
     (if \<not> readable then Inl ObjectIo
      else and_then (ok_or content ObjectNotFound) (verify_bytes E digest))"

definition fs_remove_temp :: "fs_outcome \<Rightarrow> fs_objects \<Rightarrow> fs_objects" where
  "fs_remove_temp out st = (if fo_remove out then st\<lparr>fs_temps := (fs_temps st)(fo_temp out := None)\<rparr> else st)"

text \<open>The block that writes the temporary file and renames it.\<close>

definition fs_write :: "ext \<Rightarrow> fs_outcome \<Rightarrow> str \<Rightarrow> str \<Rightarrow> str \<Rightarrow> fs_objects \<Rightarrow> (object_error + unit) \<times> fs_objects" where
  "fs_write E out digest hex bytes st =
     (if \<not> fo_create out \<or> fs_temps st (fo_temp out) \<noteq> None then (Inl ObjectIo, st)
      else (case fo_written out of
          Some n \<Rightarrow> (Inl ObjectIo, st\<lparr>fs_temps := (fs_temps st)(fo_temp out \<mapsto> take n bytes)\<rparr>)
        | None \<Rightarrow>
            let st = st\<lparr>fs_temps := (fs_temps st)(fo_temp out \<mapsto> bytes)\<rparr> in
            if \<not> fo_synced out then (Inl ObjectIo, st)
            else
              let st = (case fo_race out of None \<Rightarrow> st | Some other \<Rightarrow> st\<lparr>fs_files := (fs_files st)(hex \<mapsto> other)\<rparr>) in
              if fo_rename out
              then (if fo_sync_directory out then Inr () else Inl ObjectIo,
                    st\<lparr>fs_files := (fs_files st)(hex \<mapsto> bytes), fs_temps := (fs_temps st)(fo_temp out := None)\<rparr>)
              else if \<not> fo_exists_again out \<or> fs_files st hex = None then (Inl ObjectIo, st)
              else (and_then (verify_path E (fo_read out) digest (fs_files st hex)) (\<lambda>_. Inr ()), fs_remove_temp out st)))"

definition fs_put :: "ext \<Rightarrow> str \<Rightarrow> fs_objects \<Rightarrow> (object_error + object_info) \<times> fs_objects" where
  "fs_put E bytes st0 =
     (let out = fs_outcome_now st0; st = fs_called st0; digest = sha256_digest E bytes in
      case digest_hex digest of
        Inl e \<Rightarrow> (Inl e, st)
      | Inr hex \<Rightarrow>
          if \<not> fo_exists out then (Inl ObjectIo, st)
          else if fs_files st hex \<noteq> None
          then (and_then (verify_path E (fo_read out) digest (fs_files st hex)) (\<lambda>_. Inr (info_of E bytes)), st)
          else if \<not> fo_prepare out then (Inl ObjectIo, st)
          else (case fs_write E out digest hex bytes st of
              (Inl e, st') \<Rightarrow> (Inl e, fs_remove_temp out st')
            | (Inr _, st') \<Rightarrow> (Inr (info_of E bytes), st')))"

definition fs_get :: "ext \<Rightarrow> str \<Rightarrow> fs_objects \<Rightarrow> (object_error + str) \<times> fs_objects" where
  "fs_get E digest st =
     (and_then (digest_hex digest) (\<lambda>hex.
      if \<not> fo_read (fs_outcome_now st) then Inl ObjectIo
      else and_then (ok_or (fs_files st hex) ObjectNotFound) (\<lambda>bytes.
        and_then (verify_bytes E digest bytes) (\<lambda>_. Inr bytes))), fs_called st)"

definition fs_has :: "str \<Rightarrow> fs_objects \<Rightarrow> (object_error + bool) \<times> fs_objects" where
  "fs_has digest st =
     (and_then (digest_hex digest) (\<lambda>hex.
      if \<not> fo_exists (fs_outcome_now st) then Inl ObjectIo else Inr (fs_files st hex \<noteq> None)), fs_called st)"

definition fs_verify :: "ext \<Rightarrow> str \<Rightarrow> fs_objects \<Rightarrow> (object_error + object_info) \<times> fs_objects" where
  "fs_verify E digest st =
     (and_then (digest_hex digest) (\<lambda>hex. verify_path E (fo_read (fs_outcome_now st)) digest (fs_files st hex)),
      fs_called st)"

definition fs_object_store :: "ext \<Rightarrow> fs_objects object_store" where
  "fs_object_store E = \<lparr>os_put = fs_put E, os_get = fs_get E, os_has = fs_has, os_verify = fs_verify E\<rparr>"

section \<open>The checking reader\<close>

text \<open>One \<open>poll_read\<close>: \<open>remaining\<close> is the room in the buffer and \<open>inner\<close> what the wrapped reader does if it is
  asked. The hasher is the text it has been fed, \<open>None\<close> once it has been taken.\<close>

datatype inner_read = Inner_Pending | Inner_Failed | Inner_Bytes str

datatype poll = Poll_Pending | Poll_Failed | Poll_Bytes str | Poll_Panic

record integrity_reader =
  ir_expected :: str
  ir_hasher :: "str option"
  ir_verified :: bool
  ir_failure :: bool

definition new_reader :: "str \<Rightarrow> integrity_reader" where
  "new_reader expected = \<lparr>ir_expected = expected, ir_hasher = Some [], ir_verified = False, ir_failure = False\<rparr>"

definition poll_read :: "ext \<Rightarrow> nat \<Rightarrow> inner_read \<Rightarrow> integrity_reader \<Rightarrow> poll \<times> integrity_reader" where
  "poll_read E remaining inner r =
     (if ir_failure r then (Poll_Failed, r)
      else if ir_verified r \<or> remaining = 0 then (Poll_Bytes [], r)
      else (case inner of
          Inner_Pending \<Rightarrow> (Poll_Pending, r)
        | Inner_Failed \<Rightarrow> (Poll_Failed, r)
        | Inner_Bytes chunk \<Rightarrow>
            let read = take remaining chunk in
            if read \<noteq> [] then (Poll_Bytes read, r\<lparr>ir_hasher := map_option (\<lambda>h. h @ read) (ir_hasher r)\<rparr>)
            else (case ir_hasher r of
                None \<Rightarrow> (Poll_Panic, r)
              | Some h \<Rightarrow>
                  if sha256_digest E h \<noteq> ir_expected r then (Poll_Failed, r\<lparr>ir_hasher := None, ir_failure := True\<rparr>)
                  else (Poll_Bytes [], r\<lparr>ir_hasher := None, ir_verified := True\<rparr>))))"

text \<open>The streams of the two stores: the content that will be read, and the reader that checks it again.\<close>

definition memory_stream :: "ext \<Rightarrow> str \<Rightarrow> memory_objects \<Rightarrow> object_error + str \<times> integrity_reader" where
  "memory_stream E digest objects = and_then (memory_get E digest objects) (\<lambda>bytes. Inr (bytes, new_reader digest))"

definition fs_stream :: "ext \<Rightarrow> str \<Rightarrow> fs_objects \<Rightarrow> object_error + str \<times> integrity_reader" where
  "fs_stream E digest st =
     and_then (digest_hex digest) (\<lambda>hex.
     and_then (verify_path E (fo_read (fs_outcome_now st)) digest (fs_files st hex)) (\<lambda>_.
     and_then (ok_or (fs_files st hex) ObjectNotFound) (\<lambda>bytes. Inr (bytes, new_reader digest))))"

section \<open>Artifacts\<close>

definition GENERIC_BLOB_ARTIFACT_TYPE_URI :: str where
  "GENERIC_BLOB_ARTIFACT_TYPE_URI = ''urn:plurora:artifact:blob:v1''"

record artifact_commit_request =
  acr_artifact_type_uri :: str
  acr_media_type :: str
  acr_bytes :: str
  acr_references :: "str list"
  acr_annotations :: "(str, json) btree_map"

definition blob :: "str \<Rightarrow> str \<Rightarrow> artifact_commit_request" where
  "blob media_type bytes = \<lparr>acr_artifact_type_uri = GENERIC_BLOB_ARTIFACT_TYPE_URI, acr_media_type = media_type,
     acr_bytes = bytes, acr_references = [], acr_annotations = []\<rparr>"

definition commit_artifact :: "'o object_store \<Rightarrow> artifact_commit_request \<Rightarrow> 'o
    \<Rightarrow> (object_error + artifact_descriptor) \<times> 'o" where
  "commit_artifact os request st =
     (case os_put os (acr_bytes request) st of
        (Inl e, st') \<Rightarrow> (Inl e, st')
      | (Inr info, st') \<Rightarrow>
          (Inr \<lparr>ad_artifact_type_uri = acr_artifact_type_uri request, ad_media_type = acr_media_type request,
             ad_digest = oi_digest info, ad_size_bytes = oi_size_bytes info,
             ad_references = acr_references request, ad_annotations = acr_annotations request\<rparr>, st'))"

definition ensure_descriptor_size :: "artifact_descriptor \<Rightarrow> u64 \<Rightarrow> object_error + unit" where
  "ensure_descriptor_size d actual_size = (if actual_size \<noteq> ad_size_bytes d then Inl DescriptorSizeMismatch else Inr ())"

definition read_artifact :: "'o object_store \<Rightarrow> artifact_descriptor \<Rightarrow> 'o \<Rightarrow> (object_error + str) \<times> 'o" where
  "read_artifact os d st =
     (case os_get os (ad_digest d) st of
        (r, st') \<Rightarrow> (and_then r (\<lambda>bytes. and_then (ensure_descriptor_size d (byte_len bytes)) (\<lambda>_. Inr bytes)), st'))"

definition verify_artifact :: "'o object_store \<Rightarrow> artifact_descriptor \<Rightarrow> 'o \<Rightarrow> (object_error + object_info) \<times> 'o" where
  "verify_artifact os d st =
     (case os_verify os (ad_digest d) st of
        (r, st') \<Rightarrow> (and_then r (\<lambda>info. and_then (ensure_descriptor_size d (oi_size_bytes info)) (\<lambda>_. Inr info)), st'))"

section \<open>The contract of a store\<close>

text \<open>No other text has the digest of this one.\<close>

definition collision_free :: "ext \<Rightarrow> str \<Rightarrow> bool" where
  "collision_free E bytes \<longleftrightarrow> (\<forall>b. sha256_digest E b = sha256_digest E bytes \<longrightarrow> b = bytes)"

locale object_contract =
  fixes E :: ext
    and os :: "'o object_store"
    and ok :: "'o \<Rightarrow> bool"
    and stored :: "'o \<Rightarrow> str \<Rightarrow> bool"
  assumes get_sound: "fst (os_get os d st) = Inr b \<Longrightarrow> sha256_digest E b = d"
    and get_stored: "ok st \<Longrightarrow> stored st d \<Longrightarrow> fst (os_get os d st) = Inl ObjectIo \<or> (\<exists>b. fst (os_get os d st) = Inr b)"
    and get_keeps: "ok st \<Longrightarrow> ok (snd (os_get os d st)) \<and> (\<forall>x. stored st x \<longrightarrow> stored (snd (os_get os d st)) x)"
    and put_info: "fst (os_put os b st) = Inr i \<Longrightarrow> i = info_of E b"
    and put_stores: "ok st \<Longrightarrow> fst (os_put os b st) = Inr i \<Longrightarrow> stored (snd (os_put os b st)) (sha256_digest E b)"
    and put_keeps: "ok st \<Longrightarrow> ok (snd (os_put os b st)) \<and> (\<forall>x. stored st x \<longrightarrow> stored (snd (os_put os b st)) x)"
begin

lemma commit_descriptor:
  "commit_artifact os q st = (Inr d, st') \<Longrightarrow> ad_digest d = sha256_digest E (acr_bytes q)
     \<and> ad_size_bytes d = byte_len (acr_bytes q) \<and> ad_artifact_type_uri d = acr_artifact_type_uri q
     \<and> ad_media_type d = acr_media_type q \<and> ad_references d = acr_references q \<and> ad_annotations d = acr_annotations q"
  using put_info [of "acr_bytes q" st]
  by (auto simp: commit_artifact_def info_of_def split: prod.splits sum.splits)

lemma commit_keeps:
  assumes "ok st"
  shows "ok (snd (commit_artifact os q st)) \<and> (\<forall>x. stored st x \<longrightarrow> stored (snd (commit_artifact os q st)) x)"
  using put_keeps [OF assms, of "acr_bytes q"] by (auto simp: commit_artifact_def split: prod.splits sum.splits)

lemma commit_stored:
  assumes "ok st" and "commit_artifact os q st = (Inr d, st')"
  shows "stored st' (ad_digest d)"
  using put_stores [OF assms(1), of "acr_bytes q"] commit_descriptor [OF assms(2)] assms(2)
  by (auto simp: commit_artifact_def split: prod.splits sum.splits)

lemma read_stored:
  assumes "ok st" and "stored st (ad_digest d)" and "ad_digest d = sha256_digest E bytes"
    and "ad_size_bytes d = byte_len bytes" and "collision_free E bytes"
  shows "fst (read_artifact os d st) \<in> {Inl ObjectIo, Inr bytes}"
proof (cases "fst (os_get os (ad_digest d) st)")
  case (Inl e)
  then show ?thesis using get_stored [OF assms(1,2)] by (auto simp: read_artifact_def split_beta)
next
  case (Inr b)
  then have "b = bytes" using get_sound [OF Inr] assms(3,5) by (simp add: collision_free_def)
  then show ?thesis using Inr assms(4) by (auto simp: read_artifact_def ensure_descriptor_size_def split_beta)
qed

lemma read_keeps:
  assumes "ok st"
  shows "ok (snd (read_artifact os d st)) \<and> (\<forall>x. stored st x \<longrightarrow> stored (snd (read_artifact os d st)) x)"
  using get_keeps [OF assms, of "ad_digest d"] by (auto simp: read_artifact_def split: prod.split)

text \<open>Puts of other content in between.\<close>

lemma puts_keep:
  "ok st \<Longrightarrow> ok (fold (\<lambda>b st. snd (os_put os b st)) bs st)
     \<and> (\<forall>x. stored st x \<longrightarrow> stored (fold (\<lambda>b st. snd (os_put os b st)) bs st) x)"
proof (induction bs arbitrary: st)
  case (Cons b bs)
  then show ?case using put_keeps [OF Cons.prems, of b] by simp
qed simp

lemma commit_reads_back:
  assumes "ok st" and "commit_artifact os q st = (Inr d, st')" and "collision_free E (acr_bytes q)"
  shows "fst (read_artifact os d (fold (\<lambda>b st. snd (os_put os b st)) bs st')) \<in> {Inl ObjectIo, Inr (acr_bytes q)}"
proof -
  have "ok st'" using commit_keeps [OF assms(1), of q] assms(2) by simp
  then show ?thesis
    using read_stored [of "fold (\<lambda>b st. snd (os_put os b st)) bs st'" d "acr_bytes q"] puts_keep [of st' bs]
      commit_stored [OF assms(1,2)] commit_descriptor [OF assms(2)] assms(3) by blast
qed

end

section \<open>Both stores keep it\<close>

lemma digest_hex_digest: "sha256_hex_ok E \<Longrightarrow> digest_hex (sha256_digest E b) = Inr (sha256_hex E b)"
proof -
  assume "sha256_hex_ok E"
  moreover have "after_colon (''sha256:'' @ h) = h" "before_colon (''sha256:'' @ h) = ''sha256''" for h
    by (simp_all add: after_colon_def before_colon_def)
  ultimately show ?thesis by (simp add: digest_hex_def sha256_digest_def sha256_hex_ok_def)
qed

lemma verify_bytes_Inr: "verify_bytes E d b = Inr i \<longleftrightarrow>
    is_ok (digest_hex d) \<and> sha256_digest E b = d \<and> i = \<lparr>oi_digest = d, oi_size_bytes = byte_len b\<rparr>"
  by (auto simp: verify_bytes_def and_then_Inr is_ok_Inr)

definition memory_objects_ok :: "ext \<Rightarrow> memory_objects \<Rightarrow> bool" where
  "memory_objects_ok E objects \<longleftrightarrow> sha256_hex_ok E \<and> (\<forall>d b. objects d = Some b \<longrightarrow> sha256_digest E b = d)"

definition memory_holds :: "memory_objects \<Rightarrow> str \<Rightarrow> bool" where
  "memory_holds objects d \<longleftrightarrow> objects d \<noteq> None"

interpretation memory_objects: object_contract E "memory_object_store E" "memory_objects_ok E" memory_holds for E
proof
  fix d b and st :: memory_objects
  show "fst (os_get (memory_object_store E) d st) = Inr b \<Longrightarrow> sha256_digest E b = d"
    by (auto simp: memory_object_store_def memory_get_def and_then_Inr verify_bytes_Inr)
  show "memory_objects_ok E st \<Longrightarrow> memory_holds st d \<Longrightarrow> fst (os_get (memory_object_store E) d st) = Inl ObjectIo
      \<or> (\<exists>b. fst (os_get (memory_object_store E) d st) = Inr b)"
    using digest_hex_digest [of E]
    by (fastforce simp: memory_object_store_def memory_get_def and_then_Inr ok_or_Inr verify_bytes_Inr memory_holds_def
        memory_objects_ok_def is_ok_Inr)
  show "memory_objects_ok E st \<Longrightarrow> memory_objects_ok E (snd (os_get (memory_object_store E) d st))
      \<and> (\<forall>x. memory_holds st x \<longrightarrow> memory_holds (snd (os_get (memory_object_store E) d st)) x)"
    by (simp add: memory_object_store_def)
  fix i
  show "fst (os_put (memory_object_store E) b st) = Inr i \<Longrightarrow> i = info_of E b"
    by (simp add: memory_object_store_def memory_put_def Let_def)
  show "memory_objects_ok E st \<Longrightarrow> fst (os_put (memory_object_store E) b st) = Inr i
      \<Longrightarrow> memory_holds (snd (os_put (memory_object_store E) b st)) (sha256_digest E b)"
    by (auto simp: memory_object_store_def memory_put_def Let_def memory_holds_def split: option.split)
  show "memory_objects_ok E st \<Longrightarrow> memory_objects_ok E (snd (os_put (memory_object_store E) b st))
      \<and> (\<forall>x. memory_holds st x \<longrightarrow> memory_holds (snd (os_put (memory_object_store E) b st)) x)"
    by (auto simp: memory_object_store_def memory_put_def Let_def memory_holds_def memory_objects_ok_def split: option.split)
qed

definition fs_holds :: "ext \<Rightarrow> fs_objects \<Rightarrow> str \<Rightarrow> bool" where
  "fs_holds E st d \<longleftrightarrow> (\<exists>hex b. digest_hex d = Inr hex \<and> fs_files st hex = Some b \<and> sha256_digest E b = d)"

lemma fs_called_simps [simp]:
  "fs_files (fs_called st) = fs_files st" "fs_temps (fs_called st) = fs_temps st"
  by (simp_all add: fs_called_def)

lemma fs_remove_temp_files [simp]: "fs_files (fs_remove_temp out st) = fs_files st"
  by (simp add: fs_remove_temp_def)

lemma verify_path_Inr: "verify_path E r d c = Inr i \<longleftrightarrow> r \<and> (\<exists>b. c = Some b \<and> verify_bytes E d b = Inr i)"
  by (auto simp: verify_path_def and_then_Inr ok_or_Inr)

text \<open>A put touches its own object only, and that only when there was none.\<close>

lemma fs_write_other:
  "fs_write E out digest hex bytes st = (r, st') \<Longrightarrow> x \<noteq> hex \<Longrightarrow> fs_files st' x = fs_files st x"
  by (auto simp: fs_write_def Let_def split: if_splits option.splits)

lemma fs_write_stores:
  assumes "fs_write E out (sha256_digest E bytes) hex bytes st = (Inr u, st')"
  obtains b where "fs_files st' hex = Some b" "sha256_digest E b = sha256_digest E bytes"
proof (cases "fo_rename out")
  case True
  then have "fs_files st' hex = Some bytes"
    using assms by (auto simp: fs_write_def Let_def split: if_splits option.splits)
  then show ?thesis using that by blast
next
  case False
  then show ?thesis using assms that
    by (auto simp: fs_write_def Let_def and_then_Inr verify_path_Inr verify_bytes_Inr split: if_splits option.splits)
qed

lemma fs_put_other:
  assumes "digest_hex (sha256_digest E bytes) = Inr hex" and "x \<noteq> hex \<or> fs_files st x \<noteq> None"
  shows "fs_files (snd (fs_put E bytes st)) x = fs_files st x"
proof -
  have "fs_files (snd (fs_write E out d hex bytes (fs_called st))) x = fs_files st x" if "x \<noteq> hex" for out d
    using fs_write_other [of E out d hex bytes "fs_called st" _ _ x] that by (simp add: prod_eq_iff)
  then show ?thesis using assms unfolding fs_put_def Let_def
    by (auto split: sum.split prod.split) (metis fs_write_other fs_called_simps(1))+
qed

lemma fs_put_stores:
  assumes "sha256_hex_ok E" and "fst (fs_put E bytes st) = Inr i"
  shows "i = info_of E bytes \<and> fs_holds E (snd (fs_put E bytes st)) (sha256_digest E bytes)"
proof -
  let ?d = "sha256_digest E bytes" and ?h = "sha256_hex E bytes" and ?out = "fs_outcome_now st" and ?st = "fs_called st"
  have hex: "digest_hex ?d = Inr ?h" using assms(1) by (rule digest_hex_digest)
  show ?thesis
  proof (cases "fs_files st ?h = None")
    case True
    then obtain u st' where w: "fs_write E ?out ?d ?h bytes ?st = (Inr u, st')" and r: "fs_put E bytes st = (Inr (info_of E bytes), st')"
      using assms(2) hex by (auto simp: fs_put_def Let_def split: if_splits prod.splits sum.splits)
    from w obtain b where "fs_files st' ?h = Some b" "sha256_digest E b = ?d" by (rule fs_write_stores)
    then show ?thesis using r assms(2) hex by (auto simp: fs_holds_def)
  next
    case False
    then show ?thesis using assms(2) hex
      by (auto simp: fs_put_def Let_def fs_holds_def and_then_Inr verify_path_Inr verify_bytes_Inr split: if_splits)
  qed
qed

interpretation fs_objects: object_contract E "fs_object_store E" "\<lambda>_. sha256_hex_ok E" "fs_holds E" for E
proof
  fix d b and st :: fs_objects
  show "fst (os_get (fs_object_store E) d st) = Inr b \<Longrightarrow> sha256_digest E b = d"
    by (auto simp: fs_object_store_def fs_get_def and_then_Inr verify_bytes_Inr split: if_splits)
  show "sha256_hex_ok E \<Longrightarrow> fs_holds E st d \<Longrightarrow> fst (os_get (fs_object_store E) d st) = Inl ObjectIo
      \<or> (\<exists>b. fst (os_get (fs_object_store E) d st) = Inr b)"
    by (auto simp: fs_object_store_def fs_get_def fs_holds_def verify_bytes_def)
  show "sha256_hex_ok E \<Longrightarrow> sha256_hex_ok E \<and> (\<forall>x. fs_holds E st x \<longrightarrow> fs_holds E (snd (os_get (fs_object_store E) d st)) x)"
    by (simp add: fs_object_store_def fs_get_def fs_holds_def)
  fix i
  show "fst (os_put (fs_object_store E) b st) = Inr i \<Longrightarrow> i = info_of E b"
    by (auto simp: fs_object_store_def fs_put_def Let_def and_then_Inr split: sum.splits if_splits prod.splits)
  show "sha256_hex_ok E \<Longrightarrow> fst (os_put (fs_object_store E) b st) = Inr i
      \<Longrightarrow> fs_holds E (snd (os_put (fs_object_store E) b st)) (sha256_digest E b)"
    using fs_put_stores by (simp add: fs_object_store_def)
  show "sha256_hex_ok E \<Longrightarrow> sha256_hex_ok E \<and> (\<forall>x. fs_holds E st x \<longrightarrow> fs_holds E (snd (os_put (fs_object_store E) b st)) x)"
    using fs_put_other [OF digest_hex_digest, of E _ b st] unfolding fs_holds_def fs_object_store_def
    by simp (metis option.distinct(1))
qed

section \<open>Streams\<close>

text \<open>A sequence of polls, each with the room in its buffer and what the wrapped reader would do.\<close>

fun poll_run :: "ext \<Rightarrow> (nat \<times> inner_read) list \<Rightarrow> integrity_reader \<Rightarrow> (nat \<times> poll) list \<times> integrity_reader" where
  "poll_run E [] r = ([], r)"
| "poll_run E ((remaining, inner) # polls) r =
     (let (p, r') = poll_read E remaining inner r; (ps, r'') = poll_run E polls r' in ((remaining, p) # ps, r''))"

fun delivered :: "(nat \<times> poll) list \<Rightarrow> str" where
  "delivered [] = []"
| "delivered ((_, Poll_Bytes b) # ps) = b @ delivered ps"
| "delivered (_ # ps) = delivered ps"

text \<open>The reader has reported the end of the stream: room in the buffer, and nothing read.\<close>

definition reported_end :: "(nat \<times> poll) list \<Rightarrow> bool" where
  "reported_end ps = list_ex (\<lambda>(remaining, p). 0 < remaining \<and> p = Poll_Bytes []) ps"

definition reader_ok :: "ext \<Rightarrow> str \<Rightarrow> integrity_reader \<Rightarrow> bool" where
  "reader_ok E seen r \<longleftrightarrow> (if ir_failure r then True else if ir_verified r then sha256_digest E seen = ir_expected r
     else ir_hasher r = Some seen)"

lemma poll_read_ok:
  assumes "reader_ok E seen r" and "poll_read E n inner r = (p, r')"
  shows "p \<noteq> Poll_Panic \<and> reader_ok E (seen @ delivered [(n, p)]) r' \<and> ir_expected r' = ir_expected r
    \<and> (ir_verified r \<and> \<not> ir_failure r \<longrightarrow> ir_verified r' \<and> \<not> ir_failure r')
    \<and> (0 < n \<and> p = Poll_Bytes [] \<longrightarrow> ir_verified r' \<and> \<not> ir_failure r')"
  using assms by (auto simp: poll_read_def reader_ok_def Let_def split: if_splits inner_read.splits)

lemma delivered_Cons: "delivered (x # ps) = delivered [x] @ delivered ps"
  by (cases x; cases "snd x") auto

lemma poll_run_ok:
  assumes "reader_ok E seen r" and "poll_run E polls r = (ps, r')"
  shows "list_all (\<lambda>(_, p). p \<noteq> Poll_Panic) ps \<and> reader_ok E (seen @ delivered ps) r' \<and> ir_expected r' = ir_expected r
    \<and> ((ir_verified r \<and> \<not> ir_failure r) \<or> reported_end ps \<longrightarrow> ir_verified r' \<and> \<not> ir_failure r')"
  using assms
proof (induction polls arbitrary: seen r ps)
  case (Cons q polls)
  obtain n inner where q: "q = (n, inner)" by fastforce
  obtain p r1 where p: "poll_read E n inner r = (p, r1)" by fastforce
  obtain ps1 where ps1: "poll_run E polls r1 = (ps1, r')" "ps = (n, p) # ps1"
    using Cons.prems(2) by (auto simp: q p Let_def split: prod.splits)
  note step = poll_read_ok [OF Cons.prems(1) p]
  then have "reader_ok E (seen @ delivered [(n, p)]) r1" by blast
  moreover have "delivered ps = delivered [(n, p)] @ delivered ps1" using ps1(2) delivered_Cons by metis
  moreover have "reported_end ps \<longleftrightarrow> 0 < n \<and> p = Poll_Bytes [] \<or> reported_end ps1" by (simp add: ps1(2) reported_end_def)
  ultimately show ?case using Cons.IH [OF _ ps1(1), of "seen @ delivered [(n, p)]"] step by (auto simp: ps1(2))
qed (simp add: reported_end_def)

section \<open>Properties\<close>

text \<open>C19: Whatever the wrapped reader does, a stream that reports its end has delivered exactly a
  text with the expected digest, and the reader never panics.\<close>

theorem checked_stream_integrity:
  "list_all (\<lambda>(_, p). p \<noteq> Poll_Panic) (fst (poll_run E polls (new_reader digest)))
   \<and> (\<not> reported_end (fst (poll_run E polls (new_reader digest)))
      \<or> sha256_digest E (delivered (fst (poll_run E polls (new_reader digest)))) = digest)"
proof -
  obtain ps r' where ps: "poll_run E polls (new_reader digest) = (ps, r')" by fastforce
  have "reader_ok E [] (new_reader digest)" by (simp add: reader_ok_def new_reader_def)
  from poll_run_ok [OF this ps] have "list_all (\<lambda>(_, p). p \<noteq> Poll_Panic) ps"
    "reported_end ps \<Longrightarrow> sha256_digest E (delivered ps) = ir_expected (new_reader digest)"
    by (auto simp: reader_ok_def split: if_splits)
  then show ?thesis unfolding ps fst_conv by (simp add: new_reader_def)
qed

theorem checked_stream_integrity_witness:
  "reported_end (fst (poll_run sample_ext [(4, Inner_Bytes ''ab''), (4, Inner_Bytes [])] (new_reader (sha256_digest sample_ext ''ab''))))
   \<and> sha256_digest sample_ext (delivered (fst (poll_run sample_ext [(4, Inner_Bytes ''ab''), (4, Inner_Bytes [])]
       (new_reader (sha256_digest sample_ext ''ab''))))) = sha256_digest sample_ext ''ab''"
proof -
  have "reported_end (fst (poll_run sample_ext [(4, Inner_Bytes ''ab''), (4, Inner_Bytes [])] (new_reader (sha256_digest sample_ext ''ab''))))"
    by (simp add: reported_end_def poll_read_def new_reader_def Let_def)
  then show ?thesis
    using checked_stream_integrity [of sample_ext "[(4, Inner_Bytes ''ab''), (4, Inner_Bytes [])]" "sha256_digest sample_ext ''ab''"]
    by blast
qed


definition sample_digests :: ext where
  "sample_digests = sample_ext\<lparr>sha256_hex := (\<lambda>b. replicate 64 (if b = ''ab'' then CHR ''b'' else CHR ''a''))\<rparr>"

lemma sample_digests_ok: "sha256_hex_ok sample_digests" "collision_free sample_digests ''ab''"
proof -
  have "is_lower_hex (CHR ''a'')" "is_lower_hex (CHR ''b'')" by code_simp+
  then show "sha256_hex_ok sample_digests" by (simp add: sha256_hex_ok_def sample_digests_def list_all_iff)
  have "replicate 64 (CHR ''a'') \<noteq> replicate 64 (CHR ''b'')" by (simp add: replicate_eq_replicate)
  then show "collision_free sample_digests ''ab''"
    by (auto simp: collision_free_def sha256_digest_def sample_digests_def split: if_splits)
qed


end
