(* ===== verification/Redaction.thy ===== *)
theory Redaction
  imports Secrets
begin

text \<open>
  \<open>crates/plurora-runtime/src/redaction.rs\<close>: the scan of a JSON value for raw secrets and the
  redaction of what it finds.

  A finding carries the path of a string as text; redaction parses that text again. A reference into
  the value that the code mutates (\<open>descend_path_segment_mut\<close>) is the function that updates the
  value at that place and leaves it alone when there is no such place.
\<close>

datatype secret_detection = FieldName | ValuePattern

record secret_finding =
  sf_path :: str
  sf_field_name :: str
  sf_detection :: secret_detection

definition has_findings :: "secret_finding list \<Rightarrow> bool" where
  "has_findings findings = (findings \<noteq> [])"

definition EXCLUDED_VALUE_SCAN_FIELDS :: "str list" where
  "EXCLUDED_VALUE_SCAN_FIELDS =
     [''content'', ''description'', ''title'', ''reason'', ''message'', ''label'', ''summary'',
      ''text'', ''body'', ''note'', ''comment'', ''display_name'', ''author'']"

text \<open>\<open>value.split(|c| ..)\<close> on the bytes of the text: a scalar beyond ASCII separates at each of its
  bytes, which only adds empty candidates.\<close>

definition is_candidate_char :: "char \<Rightarrow> bool" where
  "is_candidate_char c = (is_ascii_alphanumeric c \<or> c \<in> set ''_-.'')"

fun split_candidates :: "str \<Rightarrow> str list" where
  "split_candidates [] = [[]]"
| "split_candidates (c # s) =
     (if is_candidate_char c
      then (case split_candidates s of [] \<Rightarrow> [[c]] | p # ps \<Rightarrow> (c # p) # ps)
      else [] # split_candidates s)"

definition contains_raw_secret_pattern :: "ext \<Rightarrow> str \<Rightarrow> bool" where
  "contains_raw_secret_pattern E v =
     (looks_like_raw_secret E v \<or> contains v ''Bearer '' \<or> contains v ''bearer ''
      \<or> list_ex (\<lambda>candidate. \<not> list_all is_ascii_hexdigit candidate \<and> looks_like_raw_secret E candidate)
          (split_candidates v))"

text \<open>\<open>path.rsplit('.').next()\<close>, then \<open>.split('[').next()\<close>.\<close>

definition path_field_name :: "str \<Rightarrow> str" where
  "path_field_name path = takeWhile (\<lambda>c. c \<noteq> CHR ''['') (after_last {CHR ''.''} path)"

definition field_path :: "str \<Rightarrow> str \<Rightarrow> str" where
  "field_path path key = (if path = [] then key else path @ ''.'' @ key)"

definition item_path :: "str \<Rightarrow> nat \<Rightarrow> str" where
  "item_path path i = path @ ''['' @ decimal i @ '']''"

definition scan_string :: "ext \<Rightarrow> bool \<Rightarrow> str \<Rightarrow> str \<Rightarrow> secret_finding list" where
  "scan_string E honor_value_exclusions path s =
     (let field_name = path_field_name path;
          is_excluded = (honor_value_exclusions \<and> field_name \<in> set EXCLUDED_VALUE_SCAN_FIELDS)
      in (if is_secret_field_name field_name \<and> \<not> is_valid_ref s
          then [\<lparr>sf_path = path, sf_field_name = field_name, sf_detection = FieldName\<rparr>] else [])
         @ (if \<not> is_excluded \<and> contains_raw_secret_pattern E s \<and> \<not> is_valid_ref s
            then [\<lparr>sf_path = path, sf_field_name = field_name, sf_detection = ValuePattern\<rparr>] else []))"

fun scan_recursive :: "ext \<Rightarrow> bool \<Rightarrow> str \<Rightarrow> json \<Rightarrow> secret_finding list"
  and scan_fields :: "ext \<Rightarrow> bool \<Rightarrow> str \<Rightarrow> (str \<times> json) list \<Rightarrow> secret_finding list"
  and scan_items :: "ext \<Rightarrow> bool \<Rightarrow> str \<Rightarrow> nat \<Rightarrow> json list \<Rightarrow> secret_finding list" where
  "scan_recursive E honor path (JObj fs) = scan_fields E honor path fs"
| "scan_recursive E honor path (JArr vs) = scan_items E honor path 0 vs"
| "scan_recursive E honor path (JStr s) = scan_string E honor path s"
| "scan_recursive E honor path JNull = []"
| "scan_recursive E honor path (JBool b) = []"
| "scan_recursive E honor path (JNum n) = []"
| "scan_fields E honor path [] = []"
| "scan_fields E honor path ((key, child) # fs) =
     scan_recursive E honor (field_path path key) child @ scan_fields E honor path fs"
| "scan_items E honor path i [] = []"
| "scan_items E honor path i (child # vs) =
     scan_recursive E honor (item_path path i) child @ scan_items E honor path (Suc i) vs"

definition scan_value_for_raw_secrets :: "ext \<Rightarrow> json \<Rightarrow> str \<Rightarrow> secret_finding list" where
  "scan_value_for_raw_secrets E v root_path = scan_recursive E True root_path v"

definition scan_effect_value_for_raw_secrets :: "ext \<Rightarrow> json \<Rightarrow> str \<Rightarrow> secret_finding list" where
  "scan_effect_value_for_raw_secrets E v root_path = scan_recursive E False root_path v"

text \<open>\<open>str::parse::<usize>()\<close>: an optional plus sign and decimal digits, within 64 bits.\<close>

definition digits_value :: "str \<Rightarrow> nat" where
  "digits_value s = foldl (\<lambda>n c. 10 * n + (byte c - 48)) 0 s"

definition parse_usize :: "str \<Rightarrow> nat option" where
  "parse_usize s =
     (let digits = (if s \<noteq> [] \<and> hd s = CHR ''+'' then tl s else s) in
      if digits \<noteq> [] \<and> list_all is_ascii_digit digits \<and> digits_value digits < 2 ^ 64
      then Some (digits_value digits) else None)"

definition trim_end_matches :: "char \<Rightarrow> str \<Rightarrow> str" where
  "trim_end_matches c s = rev (dropWhile (\<lambda>x. x = c) (rev s))"

text \<open>\<open>segment.split_once('[')\<close> with the guard \<open>index.ends_with(']')\<close>.\<close>

definition segment_parts :: "str \<Rightarrow> str \<times> nat option" where
  "segment_parts segment =
     (let key = takeWhile (\<lambda>c. c \<noteq> CHR ''['') segment; rest = dropWhile (\<lambda>c. c \<noteq> CHR ''['') segment in
      if rest \<noteq> [] \<and> ends_with (tl rest) '']''
      then (key, parse_usize (trim_end_matches (CHR '']'') (tl rest)))
      else (segment, None))"

text \<open>\<open>as_object_mut()?.get_mut(key)?\<close> and \<open>as_array_mut()?.get_mut(index)\<close>.\<close>

fun update_entry :: "str \<Rightarrow> (json \<Rightarrow> json) \<Rightarrow> (str \<times> json) list \<Rightarrow> (str \<times> json) list" where
  "update_entry key f [] = []"
| "update_entry key f ((k, v) # fs) = (if k = key then (k, f v) # fs else (k, v) # update_entry key f fs)"

fun update_field :: "str \<Rightarrow> (json \<Rightarrow> json) \<Rightarrow> json \<Rightarrow> json" where
  "update_field key f (JObj fs) = JObj (update_entry key f fs)"
| "update_field key f v = v"

fun update_item :: "nat \<Rightarrow> (json \<Rightarrow> json) \<Rightarrow> json \<Rightarrow> json" where
  "update_item i f (JArr vs) = (if i < length vs then JArr (vs[i := f (vs ! i)]) else JArr vs)"
| "update_item i f v = v"

definition descend_path_segment_mut :: "str \<Rightarrow> (json \<Rightarrow> json) \<Rightarrow> json \<Rightarrow> json" where
  "descend_path_segment_mut segment f v =
     (let (key, index) = segment_parts segment;
          target = (\<lambda>g. if key = [] then g v else update_field key g v) in
      (case index of Some i \<Rightarrow> target (update_item i f) | None \<Rightarrow> target f))"

definition REDACTED :: json where
  "REDACTED = JStr ''<secret:redacted>''"

fun redact_path_recursive :: "str list \<Rightarrow> json \<Rightarrow> json" where
  "redact_path_recursive [] v = v"
| "redact_path_recursive (segment # rest) v =
     descend_path_segment_mut segment
       (\<lambda>target. if rest = [] then REDACTED else redact_path_recursive rest target) v"

definition apply_redaction :: "json \<Rightarrow> str \<Rightarrow> json" where
  "apply_redaction v path = redact_path_recursive (split_on (CHR ''.'') path) v"

definition redact_findings :: "secret_finding list \<Rightarrow> json \<Rightarrow> json" where
  "redact_findings findings v = foldl (\<lambda>redacted finding. apply_redaction redacted (sf_path finding)) v findings"

definition redact_secrets_in_value :: "ext \<Rightarrow> json \<Rightarrow> json \<times> secret_finding list" where
  "redact_secrets_in_value E v =
     (let scan = scan_value_for_raw_secrets E v [] in
      if scan = [] then (v, scan) else (redact_findings scan v, scan))"

definition redact_effect_value :: "ext \<Rightarrow> json \<Rightarrow> json \<times> secret_finding list" where
  "redact_effect_value E v =
     (let scan = scan_effect_value_for_raw_secrets E v [] in
      if scan = [] then (v, scan) else (redact_findings scan v, scan))"

section \<open>The reference: masking what the scan detects\<close>

definition secret_like :: "ext \<Rightarrow> bool \<Rightarrow> str \<Rightarrow> str \<Rightarrow> bool" where
  "secret_like E honor field_name s =
     (\<not> is_valid_ref s \<and>
      (is_secret_field_name field_name
       \<or> \<not> (honor \<and> field_name \<in> set EXCLUDED_VALUE_SCAN_FIELDS) \<and> contains_raw_secret_pattern E s))"

text \<open>Every string that the scan reports is replaced, nothing else.\<close>

fun mask_secrets :: "ext \<Rightarrow> bool \<Rightarrow> str \<Rightarrow> json \<Rightarrow> json" where
  "mask_secrets E honor field_name (JObj fs) = JObj (map (\<lambda>(k, v). (k, mask_secrets E honor k v)) fs)"
| "mask_secrets E honor field_name (JArr vs) = JArr (map (mask_secrets E honor field_name) vs)"
| "mask_secrets E honor field_name (JStr s) = (if secret_like E honor field_name s then REDACTED else JStr s)"
| "mask_secrets E honor field_name v = v"

text \<open>Values whose paths can be read back: no key is empty or has a dot or a bracket, and no array
  stands directly in an array.\<close>

definition plain_key :: "str \<Rightarrow> bool" where
  "plain_key k = (k \<noteq> [] \<and> CHR ''.'' \<notin> set k \<and> CHR ''['' \<notin> set k)"

fun is_array :: "json \<Rightarrow> bool" where
  "is_array (JArr vs) = True"
| "is_array v = False"

fun plain_paths :: "json \<Rightarrow> bool" where
  "plain_paths (JObj fs) = (\<forall>(k, v) \<in> set fs. plain_key k \<and> plain_paths v)"
| "plain_paths (JArr vs) = (length vs < 2 ^ 64 \<and> (\<forall>v \<in> set vs. \<not> is_array v \<and> plain_paths v))"
| "plain_paths v = True"

section \<open>Paths\<close>

lemma after_last_snoc: "CHR ''.'' \<notin> set x \<Longrightarrow> after_last {CHR ''.''} (p @ x) = after_last {CHR ''.''} p @ x"
  by (simp add: after_last_def takeWhile_append)

lemma after_last_dot: "CHR ''.'' \<notin> set x \<Longrightarrow> after_last {CHR ''.''} (p @ ''.'' @ x) = x"
  by (simp add: after_last_def takeWhile_append)

lemma split_on_dot: "sep \<notin> set x \<Longrightarrow> split_on sep (p @ sep # x) = split_on sep p @ [x]"
proof (induction p)
  case Nil
  then have "split_on sep x = [x]" by (induction x) auto
  then show ?case by simp
next
  case (Cons c p)
  then show ?case by (cases "split_on sep p") (auto simp: split_on_nonempty)
qed

lemma split_on_snoc:
  "sep \<notin> set x \<Longrightarrow> split_on sep (p @ x) = butlast (split_on sep p) @ [last (split_on sep p) @ x]"
proof (induction p)
  case Nil
  then show ?case by (induction x) auto
next
  case (Cons c p)
  obtain q qs where "split_on sep p = q # qs" by (cases "split_on sep p") (auto simp: split_on_nonempty)
  with Cons show ?case by (cases qs) auto
qed

lemma last_split_on: "last (split_on sep p) = after_last {sep} p"
proof (induction p rule: rev_induct)
  case (snoc c p)
  then show ?case
    by (cases "c = sep") (simp_all add: split_on_dot [of sep "[]", simplified] split_on_snoc [of sep "[c]"] after_last_def)
qed (simp add: after_last_def)

lemma decimal_chars: "CHR ''.'' \<notin> set (decimal n)" "CHR ''['' \<notin> set (decimal n)" "CHR '']'' \<notin> set (decimal n)" "CHR ''+'' \<notin> set (decimal n)"
  by (auto dest!: decimal_digits simp: is_ascii_digit_def)

lemma digits_value_snoc: "digits_value (s @ [c]) = 10 * digits_value s + (byte c - 48)"
  by (simp add: digits_value_def)

lemma digits_value_decimal: "digits_value (decimal n) = n"
proof (induction n rule: decimal.induct)
  case (1 n)
  show ?case
  proof (cases "n < 10")
    case True
    then show ?thesis by (subst decimal.simps) (simp add: digits_value_def of_char_of take_bit_eq_mod)
  next
    case False
    have "decimal n = decimal (n div 10) @ [char_of (48 + n mod 10)]" using False by (subst decimal.simps) simp
    moreover have "byte (char_of (48 + n mod 10)) - 48 = n mod 10" by (simp add: of_char_of take_bit_eq_mod)
    ultimately show ?thesis using 1 [OF False] by (simp add: digits_value_snoc)
  qed
qed

lemma parse_usize_decimal: "n < 2 ^ 64 \<Longrightarrow> parse_usize (decimal n) = Some n"
  using decimal_nonempty [of n] decimal_chars(4) [of n]
  by (auto simp: parse_usize_def digits_value_decimal Let_def list_all_iff decimal_digits dest: hd_in_set)

lemma segment_parts_key: "CHR ''['' \<notin> set k \<Longrightarrow> segment_parts k = (k, None)"
  by (simp add: segment_parts_def Let_def)

lemma segment_parts_item:
  assumes "CHR ''['' \<notin> set k" and "i < 2 ^ 64"
  shows "segment_parts (k @ ''['' @ decimal i @ '']'') = (k, Some i)"
proof -
  have "takeWhile (\<lambda>c. c \<noteq> CHR ''['') (k @ ''['' @ decimal i @ '']'') = k"
    "dropWhile (\<lambda>c. c \<noteq> CHR ''['') (k @ ''['' @ decimal i @ '']'') = ''['' @ decimal i @ '']''"
    using assms(1) by (simp_all add: takeWhile_append dropWhile_append)
  moreover have "trim_end_matches (CHR '']'') (decimal i @ '']'') = decimal i"
    using decimal_chars(3) [of i] decimal_nonempty [of i]
    by (cases "decimal i" rule: rev_cases) (auto simp: trim_end_matches_def)
  ultimately show ?thesis using assms(2)
    by (simp add: segment_parts_def ends_with_def parse_usize_decimal)
qed

section \<open>Updating at a path\<close>

text \<open>\<open>redact_path_recursive\<close> with any function at the end of the path.\<close>

fun update_path :: "str list \<Rightarrow> (json \<Rightarrow> json) \<Rightarrow> json \<Rightarrow> json" where
  "update_path [] f = f"
| "update_path (segment # rest) f = descend_path_segment_mut segment (update_path rest f)"

lemma redact_update_path: "parts \<noteq> [] \<Longrightarrow> redact_path_recursive parts v = update_path parts (\<lambda>_. REDACTED) v"
proof (induction parts arbitrary: v)
  case (Cons segment rest)
  then have "(\<lambda>target. if rest = [] then REDACTED else redact_path_recursive rest target) = update_path rest (\<lambda>_. REDACTED)"
    by (cases rest) (auto simp: fun_eq_iff)
  then show ?case by (simp only: redact_path_recursive.simps update_path.simps)
qed simp

lemma update_path_append: "update_path (ps @ qs) f = update_path ps (update_path qs f)"
  by (induction ps) auto

lemma update_entry_comp: "update_entry k (g \<circ> f) fs = update_entry k g (update_entry k f fs)"
  by (induction fs) auto

lemma update_entry_id [simp]: "update_entry k id fs = fs"
  by (induction fs) auto

lemma update_field_comp: "update_field k (g \<circ> f) = update_field k g \<circ> update_field k f"
proof
  fix v show "update_field k (g \<circ> f) v = (update_field k g \<circ> update_field k f) v"
    by (cases v) (simp_all add: update_entry_comp)
qed

lemma update_item_comp: "update_item i (g \<circ> f) = update_item i g \<circ> update_item i f"
proof
  fix v show "update_item i (g \<circ> f) v = (update_item i g \<circ> update_item i f) v" by (cases v) simp_all
qed

lemma update_field_id [simp]: "update_field k id = id"
proof
  fix v show "update_field k id v = id v" by (cases v) simp_all
qed

lemma update_item_id [simp]: "update_item i id = id"
proof
  fix v show "update_item i id v = id v" by (cases v) simp_all
qed

definition update_target :: "str \<Rightarrow> (json \<Rightarrow> json) \<Rightarrow> json \<Rightarrow> json" where
  "update_target key g = (if key = [] then g else update_field key g)"

lemma descend_parts:
  "descend_path_segment_mut segment f =
     (case segment_parts segment of (key, Some i) \<Rightarrow> update_target key (update_item i f)
      | (key, None) \<Rightarrow> update_target key f)"
  by (auto simp: descend_path_segment_mut_def update_target_def fun_eq_iff split: prod.split option.split)

lemma descend_comp:
  "descend_path_segment_mut s (g \<circ> f) = descend_path_segment_mut s g \<circ> descend_path_segment_mut s f"
  by (simp add: descend_parts update_target_def update_field_comp update_item_comp split: prod.split option.split)

lemma descend_id [simp]: "descend_path_segment_mut s id = id"
  by (simp add: descend_parts update_target_def split: prod.split option.split)

lemma update_path_comp: "update_path ps (g \<circ> f) = update_path ps g \<circ> update_path ps f"
  by (induction ps) (simp_all only: descend_comp update_path.simps)

lemma update_path_id: "update_path ps id = id"
  by (induction ps) (simp_all only: descend_id update_path.simps)

abbreviation update_at :: "str \<Rightarrow> (json \<Rightarrow> json) \<Rightarrow> json \<Rightarrow> json" where
  "update_at path \<equiv> update_path (split_on (CHR ''.'') path)"

lemma apply_redaction_update: "apply_redaction v path = update_at path (\<lambda>_. REDACTED) v"
  by (simp add: apply_redaction_def redact_update_path split_on_nonempty)

lemma update_at_root [simp]: "update_at [] f = f"
  by (simp add: descend_parts segment_parts_key update_target_def)

lemma update_at_field:
  assumes "plain_key k"
  shows "update_at (field_path path k) f = update_at path (update_field k f)"
proof -
  have split: "split_on (CHR ''.'') k = [k]" and d: "descend_path_segment_mut k f = update_field k f"
    using assms split_on_snoc [of "CHR ''.''" k "[]"]
    by (simp_all add: plain_key_def descend_parts segment_parts_key update_target_def)
  show ?thesis
  proof (cases "path = []")
    case True
    then show ?thesis by (simp add: field_path_def split d)
        (simp add: descend_parts segment_parts_key update_target_def)
  next
    case False
    then show ?thesis using assms d
      by (simp add: field_path_def plain_key_def split_on_dot update_path_append)
  qed
qed

text \<open>A path whose last segment has no index yet.\<close>

definition open_path :: "str \<Rightarrow> bool" where
  "open_path path = (CHR ''['' \<notin> set (after_last {CHR ''.''} path))"

lemma update_at_item:
  assumes "open_path path" and "i < 2 ^ 64"
  shows "update_at (item_path path i) f = update_at path (update_item i f)"
proof -
  let ?l = "last (split_on (CHR ''.'') path)" and ?b = "butlast (split_on (CHR ''.'') path)"
  have l: "CHR ''['' \<notin> set ?l" using assms(1) by (simp add: open_path_def last_split_on)
  have "split_on (CHR ''.'') (item_path path i) = ?b @ [?l @ ''['' @ decimal i @ '']'']"
    using decimal_chars [of i] split_on_snoc [of "CHR ''.''" "''['' @ decimal i @ '']''" path]
    by (simp add: item_path_def)
  moreover have "descend_path_segment_mut (?l @ ''['' @ decimal i @ '']'') f = descend_path_segment_mut ?l (update_item i f)"
    using segment_parts_item [OF l assms(2)] segment_parts_key [OF l] by (simp add: descend_parts)
  moreover have "split_on (CHR ''.'') path = ?b @ [?l]"
    by (simp add: split_on_nonempty)
  ultimately show ?thesis
    by (metis update_path.simps update_path_append)
qed

lemma after_last_field: "plain_key k \<Longrightarrow> after_last {CHR ''.''} (field_path path k) = k"
  using after_last_dot [of k path] after_last_snoc [of k "[]"]
  by (simp add: field_path_def plain_key_def) (simp add: after_last_def)

lemma field_name_field: "plain_key k \<Longrightarrow> path_field_name (field_path path k) = k"
  by (auto simp: path_field_name_def after_last_field takeWhile_eq_all_conv) (auto simp: plain_key_def)

lemma open_field_path: "plain_key k \<Longrightarrow> open_path (field_path path k)"
  by (simp add: open_path_def after_last_field plain_key_def)

lemma field_name_item:
  assumes "open_path path"
  shows "path_field_name (item_path path i) = path_field_name path"
proof -
  have "after_last {CHR ''.''} (item_path path i) = after_last {CHR ''.''} path @ ''['' @ decimal i @ '']''"
    using decimal_chars [of i] by (simp add: item_path_def after_last_snoc)
  moreover have "takeWhile (\<lambda>c. c \<noteq> CHR ''['') (after_last {CHR ''.''} path) = after_last {CHR ''.''} path"
    using assms by (auto simp: takeWhile_eq_all_conv open_path_def)
  moreover have "takeWhile (\<lambda>c. c \<noteq> CHR ''['') (after_last {CHR ''.''} path @ ''['' @ s) = after_last {CHR ''.''} path" for s
    using assms by (subst takeWhile_append2) (auto simp: open_path_def)
  ultimately show ?thesis unfolding path_field_name_def by metis
qed

section \<open>Redaction is masking\<close>

text \<open>What the findings of a value do to the place where it stands.\<close>

fun masker :: "ext \<Rightarrow> bool \<Rightarrow> str \<Rightarrow> json \<Rightarrow> json \<Rightarrow> json"
  and field_masker :: "ext \<Rightarrow> bool \<Rightarrow> (str \<times> json) list \<Rightarrow> json \<Rightarrow> json"
  and item_masker :: "ext \<Rightarrow> bool \<Rightarrow> str \<Rightarrow> nat \<Rightarrow> json list \<Rightarrow> json \<Rightarrow> json" where
  "masker E honor name (JObj fs) = field_masker E honor fs"
| "masker E honor name (JArr vs) = item_masker E honor name 0 vs"
| "masker E honor name (JStr s) = (if secret_like E honor name s then (\<lambda>_. REDACTED) else id)"
| "masker E honor name JNull = id"
| "masker E honor name (JBool b) = id"
| "masker E honor name (JNum n) = id"
| "field_masker E honor [] = id"
| "field_masker E honor ((key, child) # fs) = field_masker E honor fs \<circ> update_field key (masker E honor key child)"
| "item_masker E honor name i [] = id"
| "item_masker E honor name i (child # vs) =
     item_masker E honor name (Suc i) vs \<circ> update_item i (masker E honor name child)"

lemma redact_findings_append: "redact_findings (xs @ ys) = redact_findings ys \<circ> redact_findings xs"
  by (simp add: redact_findings_def fun_eq_iff)

lemma redact_findings_Nil: "redact_findings [] = id"
  by (simp add: redact_findings_def fun_eq_iff)

lemma redact_twice: "update_path ps (\<lambda>_. c) (update_path ps (\<lambda>_. c) v) = update_path ps (\<lambda>_. c) v"
proof -
  have "(\<lambda>_. c) \<circ> (\<lambda>_. c) = (\<lambda>_ :: json. c)" by auto
  then show ?thesis using update_path_comp [of ps "\<lambda>_. c" "\<lambda>_. c"] by (metis comp_apply)
qed

lemma redact_scan_string:
  "redact_findings (scan_string E honor path s) =
     update_at path (if secret_like E honor (path_field_name path) s then (\<lambda>_. REDACTED) else id)"
proof
  fix v
  let ?n = "path_field_name path"
  consider "secret_like E honor ?n s" | "\<not> secret_like E honor ?n s" by blast
  then show "redact_findings (scan_string E honor path s) v =
      update_at path (if secret_like E honor ?n s then (\<lambda>_. REDACTED) else id) v"
  proof cases
    case 1
    then show ?thesis
      by (auto simp: scan_string_def redact_findings_def secret_like_def apply_redaction_update redact_twice Let_def)
  next
    case 2
    then have "scan_string E honor path s = []" by (auto simp: scan_string_def secret_like_def Let_def)
    then show ?thesis using 2 by (simp add: redact_findings_def update_path_id)
  qed
qed

lemma redact_scan:
  "\<lbrakk>plain_paths w; is_array w \<Longrightarrow> open_path path\<rbrakk> \<Longrightarrow>
     redact_findings (scan_recursive E honor path w) = update_at path (masker E honor (path_field_name path) w)"
  "(\<forall>(k, v) \<in> set fs. plain_key k \<and> plain_paths v) \<Longrightarrow>
     redact_findings (scan_fields E honor path fs) = update_at path (field_masker E honor fs)"
  "\<lbrakk>i + length vs < 2 ^ 64; \<forall>v \<in> set vs. \<not> is_array v \<and> plain_paths v; open_path path\<rbrakk> \<Longrightarrow>
     redact_findings (scan_items E honor path i vs) = update_at path (item_masker E honor (path_field_name path) i vs)"
proof (induction E honor path w and E honor path fs and E honor path i vs
    rule: scan_recursive_scan_fields_scan_items.induct)
  case (8 E honor path key child fs)
  then have "redact_findings (scan_recursive E honor (field_path path key) child) =
      update_at path (update_field key (masker E honor key child))"
    by (simp add: open_field_path field_name_field update_at_field)
  moreover have "redact_findings (scan_fields E honor path fs) = update_at path (field_masker E honor fs)"
    using 8 by simp
  ultimately show ?case
    by (simp only: scan_fields.simps redact_findings_append field_masker.simps update_path_comp)
next
  case (10 E honor path i child vs)
  then have "redact_findings (scan_recursive E honor (item_path path i) child) =
      update_at path (update_item i (masker E honor (path_field_name path) child))"
    by (simp add: field_name_item update_at_item)
  moreover have "redact_findings (scan_items E honor path (Suc i) vs) =
      update_at path (item_masker E honor (path_field_name path) (Suc i) vs)"
    using 10 by simp
  ultimately show ?case
    by (simp only: scan_items.simps redact_findings_append item_masker.simps update_path_comp)
qed (simp_all add: redact_scan_string redact_findings_Nil update_path_id)

lemma update_entry_at: "k \<notin> fst ` set pre \<Longrightarrow> update_entry k f (pre @ (k, v) # fs) = pre @ (k, f v) # fs"
  by (induction pre) auto

lemma masker_mask:
  "json_wf w \<Longrightarrow> masker E honor name w w = mask_secrets E honor name w"
  "\<lbrakk>distinct (map fst fs); \<forall>kv \<in> set fs. json_wf (snd kv); fst ` set pre \<inter> fst ` set fs = {}\<rbrakk> \<Longrightarrow>
     field_masker E honor fs (JObj (pre @ fs)) = JObj (pre @ map (\<lambda>(k, v). (k, mask_secrets E honor k v)) fs)"
  "\<lbrakk>length ws = i; \<forall>v \<in> set vs. json_wf v\<rbrakk> \<Longrightarrow>
     item_masker E honor name i vs (JArr (ws @ vs)) = JArr (ws @ map (mask_secrets E honor name) vs)"
proof (induction E honor name w and E honor fs and E honor name i vs arbitrary: and pre and ws
    rule: masker_field_masker_item_masker.induct)
  case (1 E honor name fs)
  then show ?case using "1.IH" [of "[]"] by (simp add: bt_wf_distinct)
next
  case (2 E honor name vs)
  then show ?case using "2.IH" [of "[]"] by simp
next
  case (8 E honor key child fs)
  then have "masker E honor key child child = mask_secrets E honor key child" and k: "key \<notin> fst ` set pre"
    by auto
  moreover have "field_masker E honor fs (JObj ((pre @ [(key, mask_secrets E honor key child)]) @ fs)) =
      JObj ((pre @ [(key, mask_secrets E honor key child)]) @ map (\<lambda>(k, v). (k, mask_secrets E honor k v)) fs)"
    using "8.prems" by (intro "8.IH"(2) [OF rangeI]) auto
  ultimately show ?case by (simp add: update_entry_at)
next
  case (10 E honor name i child vs)
  have "item_masker E honor name (Suc i) vs (JArr ((ws @ [mask_secrets E honor name child]) @ vs)) =
      JArr ((ws @ [mask_secrets E honor name child]) @ map (mask_secrets E honor name) vs)"
    using "10.prems" by (intro "10.IH"(2) [OF rangeI]) auto
  moreover have "masker E honor name child child = mask_secrets E honor name child" using 10 by simp
  ultimately show ?case using "10.prems"(1) by (auto simp: nth_append list_update_append)
qed simp_all

lemma redact_is_mask:
  assumes "json_wf v" and "plain_paths v"
  shows "redact_findings (scan_recursive E honor [] v) v = mask_secrets E honor [] v"
proof -
  have "open_path []" by (simp add: open_path_def after_last_def)
  then show ?thesis
    using redact_scan(1) [OF assms(2), of "[]" E honor] masker_mask(1) [OF assms(1), of E honor "[]"]
    by (simp add: path_field_name_def after_last_def del: split_on.simps)
qed

section \<open>Scanning a masked value\<close>

lemma marker_not_secret:
  "\<not> looks_like_raw_secret E []" "\<not> looks_like_raw_secret E ''secret''" "\<not> looks_like_raw_secret E ''redacted''"
  "\<not> looks_like_raw_secret E ''<secret:redacted>''"
  by (simp_all add: looks_like_raw_secret_def is_valid_ref_def secret_prefix_defs starts_with_def)

lemma marker_text:
  "split_candidates ''<secret:redacted>'' = [[], ''secret'', ''redacted'', []]"
  "\<not> contains ''<secret:redacted>'' ''Bearer ''" "\<not> contains ''<secret:redacted>'' ''bearer ''"
  by code_simp+

lemma marker_no_pattern: "\<not> contains_raw_secret_pattern E ''<secret:redacted>''"
  by (simp add: contains_raw_secret_pattern_def marker_text marker_not_secret
      del: contains.simps split_candidates.simps)

lemma scan_string_masked:
  "mask_secrets E honor (path_field_name path) (JStr s) = JStr t \<Longrightarrow> f \<in> set (scan_string E honor path t)
     \<Longrightarrow> sf_detection f = FieldName \<and> t = ''<secret:redacted>''"
  by (auto simp: scan_string_def secret_like_def REDACTED_def marker_no_pattern Let_def split: if_splits)

lemma scan_masked:
  "\<lbrakk>plain_paths w; is_array w \<Longrightarrow> open_path path; f \<in> set (scan_recursive E honor path (mask_secrets E honor (path_field_name path) w))\<rbrakk>
     \<Longrightarrow> sf_detection f = FieldName"
  "\<lbrakk>\<forall>(k, v) \<in> set fs. plain_key k \<and> plain_paths v; f \<in> set (scan_fields E honor path (map (\<lambda>(k, v). (k, mask_secrets E honor k v)) fs))\<rbrakk>
     \<Longrightarrow> sf_detection f = FieldName"
  "\<lbrakk>\<forall>v \<in> set vs. \<not> is_array v \<and> plain_paths v; open_path path; f \<in> set (scan_items E honor path i (map (mask_secrets E honor (path_field_name path)) vs))\<rbrakk>
     \<Longrightarrow> sf_detection f = FieldName"
proof (induction E honor path w and E honor path fs and E honor path i vs
    rule: scan_recursive_scan_fields_scan_items.induct)
  case (3 E honor path s)
  obtain t where "mask_secrets E honor (path_field_name path) (JStr s) = JStr t"
    by (cases "secret_like E honor (path_field_name path) s") (auto simp: REDACTED_def)
  then show ?case using 3(3) scan_string_masked [of E honor path s t f] by (simp only: scan_recursive.simps)
next
  case (8 E honor path key child fs)
  then show ?case by (auto simp: field_name_field open_field_path)
next
  case (10 E honor path i child vs)
  then show ?case by (auto simp: field_name_item)
qed auto

lemmas redact_defs = redact_secrets_in_value_def redact_effect_value_def scan_value_for_raw_secrets_def
  scan_effect_value_for_raw_secrets_def

lemma redact_fst:
  "fst (redact_effect_value E v) = redact_findings (scan_recursive E False [] v) v"
  "fst (redact_secrets_in_value E v) = redact_findings (scan_recursive E True [] v) v"
  by (simp_all add: redact_defs redact_findings_Nil Let_def)

section \<open>Properties\<close>


definition sample_evidence :: json where
  "sample_evidence = JObj [(''items'', JArr [JObj [(''content'', JStr ''sk-abc''), (''title'', JStr ''draft'')]])]"


lemma update_path_missing:
  "\<lbrakk>\<forall>p \<in> set parts. CHR ''['' \<notin> set p \<and> p \<noteq> k; \<exists>p \<in> set parts. p \<noteq> []\<rbrakk>
     \<Longrightarrow> update_path parts f (JObj [(k, v)]) = JObj [(k, v)]"
proof (induction parts)
  case (Cons p parts)
  then show ?case by (cases "p = []") (auto simp: descend_parts segment_parts_key update_target_def)
qed simp

lemma split_on_parts:
  "p \<in> set (split_on sep s) \<Longrightarrow> sep \<notin> set p \<and> set p \<subseteq> set s"
  "c \<in> set s \<Longrightarrow> c \<noteq> sep \<Longrightarrow> \<exists>p \<in> set (split_on sep s). c \<in> set p"
  by (induction s arbitrary: p) (auto split: if_splits list.splits, (fastforce simp: split_on_nonempty)+)

text \<open>A secret under a key with a dot is found but stays where it is: the redaction returns
  the value unchanged together with a scan that has findings.\<close>

theorem dotted_key_not_redacted:
  assumes "CHR ''.'' \<in> set k" and "\<exists>c \<in> set k. c \<noteq> CHR ''.''" and "CHR ''['' \<notin> set k"
    and "secret_like E False (path_field_name k) s"
  shows "fst (redact_effect_value E (JObj [(k, JStr s)])) = JObj [(k, JStr s)]
    \<and> has_findings (snd (redact_effect_value E (JObj [(k, JStr s)])))"
proof -
  have "\<forall>p \<in> set (split_on (CHR ''.'') k). CHR ''['' \<notin> set p \<and> p \<noteq> k"
    using split_on_parts(1) [of _ "CHR ''.''" k] assms by blast
  moreover have "\<exists>p \<in> set (split_on (CHR ''.'') k). p \<noteq> []"
    using split_on_parts(2) [of _ k "CHR ''.''"] assms(2) by (metis empty_iff empty_set)
  ultimately have "apply_redaction (JObj [(k, JStr s)]) k = JObj [(k, JStr s)]"
    by (simp add: apply_redaction_update update_path_missing)
  then have "fst (redact_effect_value E (JObj [(k, JStr s)])) = JObj [(k, JStr s)]"
    by (simp add: redact_fst field_path_def scan_string_def redact_findings_def Let_def)
  moreover have "has_findings (snd (redact_effect_value E (JObj [(k, JStr s)])))"
    using assms(4) by (auto simp: redact_defs field_path_def scan_string_def secret_like_def has_findings_def Let_def)
  ultimately show ?thesis by simp
qed

theorem dotted_key_not_redacted_witness:
  "fst (redact_effect_value sample_ext (JObj [(''aws.key'', JStr ''sk-abc'')])) = JObj [(''aws.key'', JStr ''sk-abc'')]"
proof -
  have "secret_like sample_ext False (path_field_name ''aws.key'') ''sk-abc''" by code_simp
  then show ?thesis using dotted_key_not_redacted [of "''aws.key''" sample_ext "''sk-abc''"] by simp
qed

end
