(* ===== verification/Schema_Check.thy ===== *)
theory Schema_Check
  imports Json_Model
begin

text \<open>
  \<open>crates/plurora-runtime/src/schema.rs\<close>: the subset of JSON Schema that payloads and inputs of
  capabilities are checked against, and the equality of \<open>serde_json::Value\<close> that it uses.
\<close>

datatype schema_error =
    SchemaNotObject | ConstMismatch | OneOfNotArray | OneOfEmpty | OneOfMatches nat
  | TypeNotString | UnsupportedType | TypeMismatch | RequiredNotArray | RequiredNeedsObject
  | RequiredNotString | MissingField | PropertiesNotObject | FieldInvalid schema_error

section \<open>Values\<close>

text \<open>\<open>PartialEq\<close> of \<open>serde_json::Number\<close>: integers never equal floats, and the two zeros of a float
  are equal.\<close>

fun number_eq :: "json_number \<Rightarrow> json_number \<Rightarrow> bool" where
  "number_eq (FloatBits a) (FloatBits b) = (a = b \<or> (a mod 2 ^ 63 = 0 \<and> b mod 2 ^ 63 = 0))"
| "number_eq a b = (a = b)"

fun value_eq :: "json \<Rightarrow> json \<Rightarrow> bool" where
  "value_eq (JNum a) (JNum b) = number_eq a b"
| "value_eq (JArr vs) (JArr ws) = list_all2 value_eq vs ws"
| "value_eq (JObj fs) (JObj gs) = list_all2 (\<lambda>a b. fst a = fst b \<and> value_eq (snd a) (snd b)) fs gs"
| "value_eq v w = (v = w)"

fun as_object :: "json \<Rightarrow> (str \<times> json) list option" where
  "as_object (JObj fs) = Some fs"
| "as_object v = None"

fun as_array :: "json \<Rightarrow> json list option" where
  "as_array (JArr vs) = Some vs"
| "as_array v = None"

fun as_str :: "json \<Rightarrow> str option" where
  "as_str (JStr s) = Some s"
| "as_str v = None"

fun as_u64 :: "json \<Rightarrow> nat option" where
  "as_u64 (JNum (PosInt n)) = Some n"
| "as_u64 v = None"

text \<open>\<open>Value::get\<close> with a field name.\<close>

definition field :: "json \<Rightarrow> str \<Rightarrow> json option" where
  "field v k = (case as_object v of None \<Rightarrow> None | Some fs \<Rightarrow> bt_get fs k)"

section \<open>The checks\<close>

definition schema_check :: "bool \<Rightarrow> schema_error \<Rightarrow> schema_error + unit" where
  "schema_check b e = (if b then Inr () else Inl e)"

fun is_integer :: "json_number \<Rightarrow> bool" where
  "is_integer (FloatBits b) = False"
| "is_integer n = True"

definition type_matches :: "str \<Rightarrow> json \<Rightarrow> bool option" where
  "type_matches type_name v =
     (if type_name = ''object'' then Some (case v of JObj _ \<Rightarrow> True | _ \<Rightarrow> False)
      else if type_name = ''array'' then Some (case v of JArr _ \<Rightarrow> True | _ \<Rightarrow> False)
      else if type_name = ''string'' then Some (case v of JStr _ \<Rightarrow> True | _ \<Rightarrow> False)
      else if type_name = ''number'' then Some (case v of JNum _ \<Rightarrow> True | _ \<Rightarrow> False)
      else if type_name = ''integer'' then Some (case v of JNum n \<Rightarrow> is_integer n | _ \<Rightarrow> False)
      else if type_name = ''boolean'' then Some (case v of JBool _ \<Rightarrow> True | _ \<Rightarrow> False)
      else if type_name = ''null'' then Some (case v of JNull \<Rightarrow> True | _ \<Rightarrow> False)
      else None)"

definition check_const :: "(str \<times> json) list \<Rightarrow> json \<Rightarrow> schema_error + unit" where
  "check_const so v =
     (case bt_get so ''const'' of None \<Rightarrow> Inr () | Some expected \<Rightarrow> schema_check (value_eq v expected) ConstMismatch)"

definition check_type :: "(str \<times> json) list \<Rightarrow> json \<Rightarrow> schema_error + unit" where
  "check_type so v =
     (case bt_get so ''type'' of None \<Rightarrow> Inr ()
      | Some t \<Rightarrow> and_then (ok_or (as_str t) TypeNotString) (\<lambda>type_name.
          and_then (ok_or (type_matches type_name v) UnsupportedType) (\<lambda>m. schema_check m TypeMismatch)))"

definition check_required_field :: "(str \<times> json) list \<Rightarrow> json \<Rightarrow> schema_error + unit" where
  "check_required_field fs name =
     and_then (ok_or (as_str name) RequiredNotString) (\<lambda>k. schema_check (bt_get fs k \<noteq> None) MissingField)"

definition check_required :: "(str \<times> json) list \<Rightarrow> json \<Rightarrow> schema_error + unit" where
  "check_required so v =
     (case bt_get so ''required'' of None \<Rightarrow> Inr ()
      | Some r \<Rightarrow> and_then (ok_or (as_array r) RequiredNotArray) (\<lambda>names.
          and_then (ok_or (as_object v) RequiredNeedsObject) (\<lambda>fs. each (check_required_field fs) names)))"

definition wrap_field :: "schema_error + unit \<Rightarrow> schema_error + unit" where
  "wrap_field r = (case r of Inl e \<Rightarrow> Inl (FieldInvalid e) | Inr u \<Rightarrow> Inr u)"

text \<open>The branches of \<open>oneOf\<close> and the schemas of the properties, the two places of the recursion.\<close>

lemma size_field: "(k, v) \<in> set fs \<Longrightarrow> size v < size (JObj fs)"
  by (induction fs) auto

lemma size_item: "v \<in> set vs \<Longrightarrow> size v < size (JArr vs)"
  by (induction vs) auto

lemma as_object_Some: "as_object v = Some fs \<longleftrightarrow> v = JObj fs"
  by (cases v) auto

lemma as_array_Some: "as_array v = Some vs \<longleftrightarrow> v = JArr vs"
  by (cases v) auto

function validate_json_schema_subset :: "json \<Rightarrow> json \<Rightarrow> schema_error + unit" where
  "validate_json_schema_subset schema v =
     (if schema = JNull \<or> schema = JObj [] then Inr ()
      else (case as_object schema of
          None \<Rightarrow> Inl SchemaNotObject
        | Some so \<Rightarrow> all_ok
           [check_const so v,
            (case bt_get so ''oneOf'' of
                None \<Rightarrow> Inr ()
              | Some one_of \<Rightarrow> (case as_array one_of of
                    None \<Rightarrow> Inl OneOfNotArray
                  | Some branches \<Rightarrow>
                      if branches = [] then Inl OneOfEmpty
                      else let matches = length (filter (\<lambda>branch. is_ok (validate_json_schema_subset branch v)) branches)
                           in schema_check (matches = 1) (OneOfMatches matches))),
            check_type so v,
            check_required so v,
            (case bt_get so ''properties'' of
                None \<Rightarrow> Inr ()
              | Some ps \<Rightarrow> (case as_object ps of
                    None \<Rightarrow> Inl PropertiesNotObject
                  | Some properties \<Rightarrow> (case as_object v of
                        None \<Rightarrow> Inr ()
                      | Some fs \<Rightarrow> each (\<lambda>(k, s). case bt_get fs k of
                            None \<Rightarrow> Inr ()
                          | Some x \<Rightarrow> wrap_field (validate_json_schema_subset s x)) properties)))]))"
  by pat_completeness auto

termination
proof (relation "measure (\<lambda>(schema, v). size schema)", goal_cases)
  case (2 schema v so one_of branches b)
  then show ?case using size_field [of "''oneOf''" one_of so] size_item [of b branches]
    by (auto simp: as_object_Some as_array_Some dest: map_of_SomeD)
next
  case (3 schema v so ps properties fs kv k s x)
  then show ?case using size_field [of "''properties''" ps so] size_field [of k s properties]
    by (auto simp: as_object_Some dest: map_of_SomeD)
qed simp

declare validate_json_schema_subset.simps [simp del]

section \<open>What is accepted\<close>

lemma schema_check_Inr [simp]: "schema_check b e = Inr u \<longleftrightarrow> b"
  by (simp add: schema_check_def)

lemma wrap_field_Inr [simp]: "wrap_field r = Inr () \<longleftrightarrow> is_ok r"
  by (cases r) (auto simp: wrap_field_def is_ok_def)

definition conforms_here :: "(str \<times> json) list \<Rightarrow> json \<Rightarrow> bool" where
  "conforms_here so v \<longleftrightarrow>
     (\<forall>expected. bt_get so ''const'' = Some expected \<longrightarrow> value_eq v expected)
     \<and> (\<forall>t. bt_get so ''type'' = Some t \<longrightarrow> (\<exists>n. t = JStr n \<and> type_matches n v = Some True))
     \<and> (\<forall>r. bt_get so ''required'' = Some r \<longrightarrow>
         (\<exists>names fs. r = JArr (map JStr names) \<and> v = JObj fs \<and> set names \<subseteq> fst ` set fs))"

lemma as_str_Some: "as_str v = Some s \<longleftrightarrow> v = JStr s"
  by (cases v) auto

lemma check_required_field_Inr:
  "check_required_field fs name = Inr () \<longleftrightarrow> (\<exists>k. name = JStr k \<and> k \<in> fst ` set fs)"
  by (cases name) (auto simp: check_required_field_def and_then_Inr ok_or_Inr map_of_eq_None_iff)

lemma required_names: "(\<forall>n \<in> set ns. \<exists>k. n = JStr k \<and> k \<in> A) \<longleftrightarrow> (\<exists>names. ns = map JStr names \<and> set names \<subseteq> A)"
proof
  assume "\<forall>n \<in> set ns. \<exists>k. n = JStr k \<and> k \<in> A"
  then show "\<exists>names. ns = map JStr names \<and> set names \<subseteq> A"
  proof (induction ns)
    case (Cons n ns)
    then obtain k names where "n = JStr k" "k \<in> A" "ns = map JStr names" "set names \<subseteq> A" by auto
    then show ?case by (intro exI [of _ "k # names"]) simp
  qed simp
qed fastforce

lemma conforms_here_iff:
  "all_ok [check_const so v, check_type so v, check_required so v] = Inr () \<longleftrightarrow> conforms_here so v"
proof -
  have "check_required so v = Inr () \<longleftrightarrow> (\<forall>r. bt_get so ''required'' = Some r \<longrightarrow>
      (\<exists>names fs. r = JArr (map JStr names) \<and> v = JObj fs \<and> set names \<subseteq> fst ` set fs))"
    by (auto simp: check_required_def and_then_Inr ok_or_Inr as_array_Some as_object_Some each_Inr
        check_required_field_Inr required_names split: option.split)
  moreover have "check_type so v = Inr () \<longleftrightarrow> (\<forall>t. bt_get so ''type'' = Some t \<longrightarrow> (\<exists>n. t = JStr n \<and> type_matches n v = Some True))"
    by (auto simp: check_type_def and_then_Inr ok_or_Inr as_str_Some split: option.split)
  moreover have "check_const so v = Inr () \<longleftrightarrow> (\<forall>expected. bt_get so ''const'' = Some expected \<longrightarrow> value_eq v expected)"
    by (auto simp: check_const_def split: option.split)
  ultimately show ?thesis unfolding conforms_here_def all_ok_Inr by simp
qed

lemma filter_one: "length (filter P xs) = 1 \<longleftrightarrow> (\<exists>!i. i < length xs \<and> P (xs ! i))"
proof -
  have "length (filter P xs) = card {i. i < length xs \<and> P (xs ! i)}" by (rule length_filter_conv_card)
  moreover have "card A = 1 \<longleftrightarrow> (\<exists>!i. i \<in> A)" for A :: "nat set"
    by (auto simp: card_1_singleton_iff)
  ultimately show ?thesis by simp
qed

lemma one_of_Inr:
  "(case bt_get so ''oneOf'' of None \<Rightarrow> Inr () | Some one_of \<Rightarrow> (case as_array one_of of None \<Rightarrow> Inl OneOfNotArray
      | Some bs \<Rightarrow> if bs = [] then Inl OneOfEmpty
          else let n = length (filter P bs) in schema_check (n = 1) (OneOfMatches n))) = Inr () \<longleftrightarrow>
   (\<forall>one_of. bt_get so ''oneOf'' = Some one_of \<longrightarrow> (\<exists>bs. one_of = JArr bs \<and> (\<exists>!i. i < length bs \<and> P (bs ! i))))"
proof (cases "bt_get so ''oneOf''")
  case (Some one_of)
  then show ?thesis unfolding filter_one [symmetric]
    by (cases one_of) (auto simp: Let_def)
qed simp

lemma properties_Inr:
  "(case bt_get so ''properties'' of None \<Rightarrow> Inr () | Some ps \<Rightarrow> (case as_object ps of None \<Rightarrow> Inl PropertiesNotObject
      | Some properties \<Rightarrow> (case as_object v of None \<Rightarrow> Inr ()
          | Some fs \<Rightarrow> each (\<lambda>(k, s). case bt_get fs k of None \<Rightarrow> Inr () | Some x \<Rightarrow> wrap_field (f s x)) properties))) = Inr () \<longleftrightarrow>
   (\<forall>properties. bt_get so ''properties'' = Some properties \<longrightarrow> (\<exists>ps. properties = JObj ps \<and>
      (\<forall>fs. v = JObj fs \<longrightarrow> (\<forall>(k, s) \<in> set ps. \<forall>x. bt_get fs k = Some x \<longrightarrow> is_ok (f s x)))))"
proof (cases "bt_get so ''properties''")
  case (Some ps)
  have "(case bt_get fs k of None \<Rightarrow> Inr () | Some x \<Rightarrow> wrap_field (f s x)) = Inr () \<longleftrightarrow>
      (\<forall>x. bt_get fs k = Some x \<longrightarrow> is_ok (f s x))" for fs k s
    by (simp split: option.split)
  then have "each (\<lambda>(k, s). case bt_get fs k of None \<Rightarrow> Inr () | Some x \<Rightarrow> wrap_field (f s x)) qs = Inr () \<longleftrightarrow>
      (\<forall>(k, s) \<in> set qs. \<forall>x. bt_get fs k = Some x \<longrightarrow> is_ok (f s x))" for fs qs
    unfolding each_Inr by (intro ball_cong HOL.refl) (auto split: prod.split option.split)
  then show ?thesis using Some by (cases ps; cases v) simp_all
qed simp

text \<open>The schema checker accepts exactly the values that the schema describes: the constant,
  the type and the required fields at this level, exactly one branch of \<open>oneOf\<close>, and the schema of
  every declared property that is present; a null or empty schema accepts everything.\<close>

theorem schema_subset_characterised:
  "is_ok (validate_json_schema_subset schema v) \<longleftrightarrow>
     schema = JNull \<or> (\<exists>so. schema = JObj so \<and> conforms_here so v
       \<and> (\<forall>one_of. bt_get so ''oneOf'' = Some one_of \<longrightarrow>
            (\<exists>bs. one_of = JArr bs \<and> (\<exists>!i. i < length bs \<and> is_ok (validate_json_schema_subset (bs ! i) v))))
       \<and> (\<forall>properties. bt_get so ''properties'' = Some properties \<longrightarrow>
            (\<exists>ps. properties = JObj ps \<and> (\<forall>fs. v = JObj fs \<longrightarrow>
               (\<forall>(k, s) \<in> set ps. \<forall>x. bt_get fs k = Some x \<longrightarrow> is_ok (validate_json_schema_subset s x))))))"
proof (cases schema)
  case (JObj so)
  show ?thesis
  proof (cases "so = []")
    case True
    then show ?thesis using JObj by (simp add: validate_json_schema_subset.simps conforms_here_def)
  next
    case False
    have cong: "all_ok [a, b, c, d, e] = Inr () \<longleftrightarrow> all_ok [a, c, d] = Inr () \<and> b = Inr () \<and> e = Inr ()"
      for a b c d e :: "schema_error + unit"
      by (auto simp: all_ok_Inr)
    show ?thesis
      using JObj False unfolding is_ok_unit [of "validate_json_schema_subset schema v"]
      by (subst validate_json_schema_subset.simps) (simp only: as_object.simps option.case json.distinct
          json.inject simp_thms if_False if_True cong conforms_here_iff one_of_Inr properties_Inr; simp)
  qed
qed (simp_all add: validate_json_schema_subset.simps)

end
