(* ===== verification/Effects.thy ===== *)
theory Effects
  imports Object_Store Redaction Schema_Check
begin

text \<open>
  Receipts of effects (\<open>crates/plurora-core/src/effect.rs\<close> and \<open>runtime/effects.rs\<close>): what an effect
  was given and what it returned is redacted and committed to the object store, and a receipt that
  refers to it is committed as well; a receipt can be replayed from its digest.

  The text of a receipt and the reading of JSON text are \<open>serde_json\<close>'s and stand as the record
  \<open>effect_codec\<close>. The id and the time of a new receipt are arguments.
\<close>

section \<open>Principals\<close>

datatype principal_identity =
    PlatformRuntime | Identity_HostAdmin | Identity_HostDev | Identity_Package str | Identity_Human str
  | Identity_Assistant str "str option" | Identity_Anonymous

fun principal_identity_value :: "principal_identity \<Rightarrow> json" where
  "principal_identity_value PlatformRuntime = jobj (jfield ''kind'' (JStr ''platform_runtime''))"
| "principal_identity_value Identity_HostAdmin = jobj (jfield ''kind'' (JStr ''host_admin''))"
| "principal_identity_value Identity_HostDev = jobj (jfield ''kind'' (JStr ''host_dev''))"
| "principal_identity_value (Identity_Package p) = jobj (jfield ''kind'' (JStr ''package'') @ jfield ''package_id'' (JStr p))"
| "principal_identity_value (Identity_Human u) = jobj (jfield ''kind'' (JStr ''human'') @ jfield ''user_id'' (JStr u))"
| "principal_identity_value (Identity_Assistant a u) = jobj (jfield ''kind'' (JStr ''assistant'')
     @ jfield ''assistant_id'' (JStr a) @ jopt ''delegated_user_id'' JStr u)"
| "principal_identity_value Identity_Anonymous = jobj (jfield ''kind'' (JStr ''anonymous''))"

datatype protocol_principal =
    HostAdmin | HostDev | Package str | Human str | Assistant str "str option" | Anonymous

definition jnullable :: "('a \<Rightarrow> json) \<Rightarrow> 'a option \<Rightarrow> json" where
  "jnullable f x = (case x of None \<Rightarrow> JNull | Some v \<Rightarrow> f v)"

fun protocol_principal_value :: "protocol_principal \<Rightarrow> json" where
  "protocol_principal_value HostAdmin = jobj (jfield ''kind'' (JStr ''host_admin''))"
| "protocol_principal_value HostDev = jobj (jfield ''kind'' (JStr ''host_dev''))"
| "protocol_principal_value (Package p) = jobj (jfield ''kind'' (JStr ''package'') @ jfield ''package_id'' (JStr p))"
| "protocol_principal_value (Human u) = jobj (jfield ''kind'' (JStr ''human'') @ jfield ''user_id'' (JStr u))"
| "protocol_principal_value (Assistant a u) = jobj (jfield ''kind'' (JStr ''assistant'')
     @ jfield ''assistant_id'' (JStr a) @ jfield ''delegated_user_id'' (jnullable JStr u))"
| "protocol_principal_value Anonymous = jobj (jfield ''kind'' (JStr ''anonymous''))"

fun identity_of_principal :: "protocol_principal \<Rightarrow> principal_identity" where
  "identity_of_principal HostAdmin = Identity_HostAdmin"
| "identity_of_principal HostDev = Identity_HostDev"
| "identity_of_principal (Package p) = Identity_Package p"
| "identity_of_principal (Human u) = Identity_Human u"
| "identity_of_principal (Assistant a u) = Identity_Assistant a u"
| "identity_of_principal Anonymous = Identity_Anonymous"

definition request_principal :: "str option \<Rightarrow> principal_identity" where
  "request_principal caller = (case caller of None \<Rightarrow> PlatformRuntime | Some p \<Rightarrow> Identity_Package p)"

section \<open>Receipts\<close>

definition EFFECT_RECEIPT_TYPE_URI :: str where "EFFECT_RECEIPT_TYPE_URI = ''urn:plurora:effect-receipt:v1''"

definition EFFECT_VALUE_TYPE_URI :: str where "EFFECT_VALUE_TYPE_URI = ''urn:plurora:effect-value:json:v1''"

definition COMPONENT_EVIDENCE_TYPE_URI :: str where "COMPONENT_EVIDENCE_TYPE_URI = ''urn:plurora:component-evidence:v1''"

definition AUTHORITY_EVIDENCE_TYPE_URI :: str where "AUTHORITY_EVIDENCE_TYPE_URI = ''urn:plurora:authority-evidence:v1''"

definition POLICY_DECISION_TYPE_URI :: str where "POLICY_DECISION_TYPE_URI = ''urn:plurora:policy-decision:v1''"

definition APPROVAL_EVIDENCE_TYPE_URI :: str where "APPROVAL_EVIDENCE_TYPE_URI = ''urn:plurora:approval-evidence:v1''"

definition EFFECT_RECEIPT_MEDIA_TYPE :: str where
  "EFFECT_RECEIPT_MEDIA_TYPE = ''application/vnd.plurora.effect-receipt+json;version=1''"

definition EFFECT_VALUE_MEDIA_TYPE :: str where "EFFECT_VALUE_MEDIA_TYPE = ''application/json''"

datatype effect_terminal_status = Succeeded | Denied | Effect_Failed | Cancelled | TimedOut | Partial

fun effect_status_value :: "effect_terminal_status \<Rightarrow> json" where
  "effect_status_value Succeeded = JStr ''succeeded''"
| "effect_status_value Denied = JStr ''denied''"
| "effect_status_value Effect_Failed = JStr ''failed''"
| "effect_status_value Cancelled = JStr ''cancelled''"
| "effect_status_value TimedOut = JStr ''timed_out''"
| "effect_status_value Partial = JStr ''partial''"

datatype effect_replay_mode = Live | Historical | Reexecute

fun replay_mode_value :: "effect_replay_mode \<Rightarrow> json" where
  "replay_mode_value Live = JStr ''live''"
| "replay_mode_value Historical = JStr ''historical''"
| "replay_mode_value Reexecute = JStr ''reexecute''"

record effect_scope =
  es_session_id :: "str option"
  es_branch_id :: "str option"

definition effect_scope_value :: "effect_scope \<Rightarrow> json" where
  "effect_scope_value s = jobj (jopt ''session_id'' JStr (es_session_id s) @ jopt ''branch_id'' JStr (es_branch_id s))"

record effect_receipt =
  rcp_schema_version :: u16
  rcp_receipt_type_uri :: str
  rcp_receipt_id :: str
  rcp_effect_kind :: str
  rcp_principal :: principal_identity
  rcp_component_ref :: artifact_descriptor
  rcp_protocol_profiles :: "str list"
  rcp_input_refs :: "artifact_descriptor list"
  rcp_output_refs :: "artifact_descriptor list"
  rcp_external_effect_refs :: "artifact_descriptor list"
  rcp_authority_ref :: "artifact_descriptor option"
  rcp_policy_decision_ref :: "artifact_descriptor option"
  rcp_approval_ref :: "artifact_descriptor option"
  rcp_status :: effect_terminal_status
  rcp_started_at :: int
  rcp_completed_at :: int
  rcp_latency_ms :: u64
  rcp_usage :: json
  rcp_cost :: json
  rcp_trace_id :: str
  rcp_parent_receipts :: "str list"
  rcp_replay_mode :: effect_replay_mode
  rcp_scope :: effect_scope
  rcp_planned :: json
  rcp_actual :: json
  rcp_annotations :: "(str, json) btree_map"

definition jtime :: "ext \<Rightarrow> int \<Rightarrow> json" where
  "jtime E t = JStr (rfc3339 E t)"

definition effect_receipt_value :: "ext \<Rightarrow> effect_receipt \<Rightarrow> json" where
  "effect_receipt_value E r = jobj
     (jfield ''schema_version'' (jnat (unat (rcp_schema_version r)))
      @ jfield ''receipt_type_uri'' (JStr (rcp_receipt_type_uri r))
      @ jfield ''receipt_id'' (JStr (rcp_receipt_id r)) @ jfield ''effect_kind'' (JStr (rcp_effect_kind r))
      @ jfield ''principal'' (principal_identity_value (rcp_principal r))
      @ jfield ''component_ref'' (artifact_descriptor_value (rcp_component_ref r))
      @ jfield ''protocol_profiles'' (jarr JStr (rcp_protocol_profiles r))
      @ jfield ''input_refs'' (jarr artifact_descriptor_value (rcp_input_refs r))
      @ jfield ''output_refs'' (jarr artifact_descriptor_value (rcp_output_refs r))
      @ jfield ''external_effect_refs'' (jarr artifact_descriptor_value (rcp_external_effect_refs r))
      @ jopt ''authority_ref'' artifact_descriptor_value (rcp_authority_ref r)
      @ jopt ''policy_decision_ref'' artifact_descriptor_value (rcp_policy_decision_ref r)
      @ jopt ''approval_ref'' artifact_descriptor_value (rcp_approval_ref r)
      @ jfield ''status'' (effect_status_value (rcp_status r))
      @ jfield ''started_at'' (jtime E (rcp_started_at r)) @ jfield ''completed_at'' (jtime E (rcp_completed_at r))
      @ jfield ''latency_ms'' (jnat (unat (rcp_latency_ms r)))
      @ jfield ''usage'' (rcp_usage r) @ jfield ''cost'' (rcp_cost r) @ jfield ''trace_id'' (JStr (rcp_trace_id r))
      @ jfield ''parent_receipts'' (jarr JStr (rcp_parent_receipts r))
      @ jfield ''replay_mode'' (replay_mode_value (rcp_replay_mode r)) @ jfield ''scope'' (effect_scope_value (rcp_scope r))
      @ jfield ''planned'' (rcp_planned r) @ jfield ''actual'' (rcp_actual r)
      @ jfield ''annotations'' (JObj (rcp_annotations r)))"

text \<open>\<open>digests.sort(); digests.dedup();\<close>\<close>

definition referenced_digests :: "effect_receipt \<Rightarrow> str list" where
  "referenced_digests r = remdups_adj (sort
     (ad_digest (rcp_component_ref r) # map ad_digest (rcp_input_refs r) @ map ad_digest (rcp_output_refs r)
      @ map ad_digest (rcp_external_effect_refs r)
      @ map ad_digest (List.map_filter id [rcp_authority_ref r, rcp_policy_decision_ref r, rcp_approval_ref r])
      @ rcp_parent_receipts r))"

record effect_receipt_request =
  efq_effect_kind :: str
  efq_principal :: principal_identity
  efq_component :: json
  efq_protocol_profiles :: "str list"
  efq_inputs :: "json list"
  efq_outputs :: "json list"
  efq_external_effects :: "json list"
  efq_authority :: "json option"
  efq_policy_decision :: "json option"
  efq_approval :: "json option"
  efq_status :: effect_terminal_status
  efq_started_at :: int
  efq_latency_ms :: u64
  efq_usage :: json
  efq_cost :: json
  efq_trace_id :: str
  efq_parent_receipts :: "str list"
  efq_replay_mode :: effect_replay_mode
  efq_scope :: effect_scope
  efq_planned :: json
  efq_actual :: json
  efq_annotations :: "(str, json) btree_map"

definition live_request :: "str \<Rightarrow> principal_identity \<Rightarrow> json \<Rightarrow> effect_terminal_status \<Rightarrow> int \<Rightarrow> u64 \<Rightarrow> str
    \<Rightarrow> effect_receipt_request" where
  "live_request effect_kind who component status started_at latency_ms trace_id =
     \<lparr>efq_effect_kind = effect_kind, efq_principal = who, efq_component = component, efq_protocol_profiles = [],
      efq_inputs = [], efq_outputs = [], efq_external_effects = [], efq_authority = None, efq_policy_decision = None,
      efq_approval = None, efq_status = status, efq_started_at = started_at, efq_latency_ms = latency_ms,
      efq_usage = JNull, efq_cost = JNull, efq_trace_id = trace_id, efq_parent_receipts = [], efq_replay_mode = Live,
      efq_scope = \<lparr>es_session_id = None, es_branch_id = None\<rparr>, efq_planned = JNull, efq_actual = JNull,
      efq_annotations = []\<rparr>"

record effect_codec =
  ec_receipt_to_vec :: "effect_receipt \<Rightarrow> str"
  ec_receipt_from_slice :: "str \<Rightarrow> effect_receipt option"
  ec_value_from_slice :: "str \<Rightarrow> json option"

datatype effect_error =
    EffectObject object_error | RawSecretInReceipt | AnnotationsInvalid | IncompleteHistory object_error
  | InvalidReceipt | UnsupportedReceiptType | InvalidRecordedValue

text \<open>The \<open>?\<close> operator for calls that also change the store.\<close>

definition and_then_st :: "('e + 'a) \<times> 's \<Rightarrow> ('a \<Rightarrow> 's \<Rightarrow> ('e + 'b) \<times> 's) \<Rightarrow> ('e + 'b) \<times> 's" where
  "and_then_st r f = (case r of (Inl e, st) \<Rightarrow> (Inl e, st) | (Inr x, st) \<Rightarrow> f x st)"

fun mapM_st :: "('a \<Rightarrow> 's \<Rightarrow> ('e + 'b) \<times> 's) \<Rightarrow> 'a list \<Rightarrow> 's \<Rightarrow> ('e + 'b list) \<times> 's" where
  "mapM_st f [] st = (Inr [], st)"
| "mapM_st f (x # xs) st =
     and_then_st (f x st) (\<lambda>y st. and_then_st (mapM_st f xs st) (\<lambda>ys st. (Inr (y # ys), st)))"

definition with_error :: "('e \<Rightarrow> 'f) \<Rightarrow> ('e + 'a) \<times> 's \<Rightarrow> ('f + 'a) \<times> 's" where
  "with_error f r = (case r of (Inl e, st) \<Rightarrow> (Inl (f e), st) | (Inr x, st) \<Rightarrow> (Inr x, st))"

definition effect_value_commit :: "ext \<Rightarrow> str \<Rightarrow> str \<Rightarrow> json \<Rightarrow> artifact_commit_request" where
  "effect_value_commit E type_uri role v =
     (let (redacted, scan) = redact_effect_value E v in
      \<lparr>acr_artifact_type_uri = type_uri, acr_media_type = EFFECT_VALUE_MEDIA_TYPE, acr_bytes = json_to_vec E redacted,
       acr_references = [],
       acr_annotations = bt_of_list [(''effect_role'', JStr role),
         (''redaction_state'', JStr (if has_findings scan then ''redacted'' else ''captured_by_reference''))]\<rparr>)"

definition commit_effect_value :: "ext \<Rightarrow> 'o object_store \<Rightarrow> str \<Rightarrow> str \<Rightarrow> json \<Rightarrow> 'o
    \<Rightarrow> (effect_error + artifact_descriptor) \<times> 'o" where
  "commit_effect_value E os type_uri role v st =
     with_error EffectObject (commit_artifact os (effect_value_commit E type_uri role v) st)"

definition commit_effect_values :: "ext \<Rightarrow> 'o object_store \<Rightarrow> str \<Rightarrow> str \<Rightarrow> json list \<Rightarrow> 'o
    \<Rightarrow> (effect_error + artifact_descriptor list) \<times> 'o" where
  "commit_effect_values E os type_uri role vs st = mapM_st (commit_effect_value E os type_uri role) vs st"

definition commit_optional_effect_value :: "ext \<Rightarrow> 'o object_store \<Rightarrow> str \<Rightarrow> str \<Rightarrow> json option \<Rightarrow> 'o
    \<Rightarrow> (effect_error + artifact_descriptor option) \<times> 'o" where
  "commit_optional_effect_value E os type_uri role v st =
     (case v of
        None \<Rightarrow> (Inr None, st)
      | Some v \<Rightarrow> and_then_st (commit_effect_value E os type_uri role v st) (\<lambda>d st. (Inr (Some d), st)))"

text \<open>The seven groups of evidence that a receipt refers to.\<close>

record receipt_refs =
  rf_component :: artifact_descriptor
  rf_inputs :: "artifact_descriptor list"
  rf_outputs :: "artifact_descriptor list"
  rf_external_effects :: "artifact_descriptor list"
  rf_authority :: "artifact_descriptor option"
  rf_policy_decision :: "artifact_descriptor option"
  rf_approval :: "artifact_descriptor option"

definition commit_evidence :: "ext \<Rightarrow> 'o object_store \<Rightarrow> effect_receipt_request \<Rightarrow> 'o \<Rightarrow> (effect_error + receipt_refs) \<times> 'o" where
  "commit_evidence E os q st =
     and_then_st (commit_effect_value E os COMPONENT_EVIDENCE_TYPE_URI ''component'' (efq_component q) st) (\<lambda>component st.
     and_then_st (commit_effect_values E os EFFECT_VALUE_TYPE_URI ''input'' (efq_inputs q) st) (\<lambda>inputs st.
     and_then_st (commit_effect_values E os EFFECT_VALUE_TYPE_URI ''output'' (efq_outputs q) st) (\<lambda>outputs st.
     and_then_st (commit_effect_values E os EFFECT_VALUE_TYPE_URI ''external_effect'' (efq_external_effects q) st) (\<lambda>external st.
     and_then_st (commit_optional_effect_value E os AUTHORITY_EVIDENCE_TYPE_URI ''authority'' (efq_authority q) st) (\<lambda>authority st.
     and_then_st (commit_optional_effect_value E os POLICY_DECISION_TYPE_URI ''policy_decision'' (efq_policy_decision q) st) (\<lambda>policy st.
     and_then_st (commit_optional_effect_value E os APPROVAL_EVIDENCE_TYPE_URI ''approval'' (efq_approval q) st) (\<lambda>approval st.
       (Inr \<lparr>rf_component = component, rf_inputs = inputs, rf_outputs = outputs, rf_external_effects = external,
         rf_authority = authority, rf_policy_decision = policy, rf_approval = approval\<rparr>, st))))))))"

definition redacted :: "ext \<Rightarrow> json \<Rightarrow> json" where
  "redacted E v = fst (redact_effect_value E v)"

definition receipt_of :: "ext \<Rightarrow> str \<Rightarrow> int \<Rightarrow> effect_receipt_request \<Rightarrow> receipt_refs \<Rightarrow> (str, json) btree_map \<Rightarrow> effect_receipt" where
  "receipt_of E receipt_id completed_at q refs annotations =
     \<lparr>rcp_schema_version = 1, rcp_receipt_type_uri = EFFECT_RECEIPT_TYPE_URI, rcp_receipt_id = receipt_id,
      rcp_effect_kind = efq_effect_kind q, rcp_principal = efq_principal q, rcp_component_ref = rf_component refs,
      rcp_protocol_profiles = efq_protocol_profiles q, rcp_input_refs = rf_inputs refs, rcp_output_refs = rf_outputs refs,
      rcp_external_effect_refs = rf_external_effects refs, rcp_authority_ref = rf_authority refs,
      rcp_policy_decision_ref = rf_policy_decision refs, rcp_approval_ref = rf_approval refs, rcp_status = efq_status q,
      rcp_started_at = efq_started_at q, rcp_completed_at = completed_at, rcp_latency_ms = efq_latency_ms q,
      rcp_usage = redacted E (efq_usage q), rcp_cost = redacted E (efq_cost q), rcp_trace_id = efq_trace_id q,
      rcp_parent_receipts = efq_parent_receipts q, rcp_replay_mode = efq_replay_mode q, rcp_scope = efq_scope q,
      rcp_planned = redacted E (efq_planned q), rcp_actual = redacted E (efq_actual q), rcp_annotations = annotations\<rparr>"

definition receipt_annotations :: "effect_receipt \<Rightarrow> (str, json) btree_map" where
  "receipt_annotations r = bt_of_list [(''receipt_id'', JStr (rcp_receipt_id r)), (''effect_kind'', JStr (rcp_effect_kind r)),
     (''status'', effect_status_value (rcp_status r))]"

definition receipt_commit :: "effect_codec \<Rightarrow> effect_receipt \<Rightarrow> artifact_commit_request" where
  "receipt_commit C r = \<lparr>acr_artifact_type_uri = EFFECT_RECEIPT_TYPE_URI, acr_media_type = EFFECT_RECEIPT_MEDIA_TYPE,
     acr_bytes = ec_receipt_to_vec C r, acr_references = referenced_digests r, acr_annotations = receipt_annotations r\<rparr>"

definition record_effect_receipt :: "ext \<Rightarrow> effect_codec \<Rightarrow> 'o object_store \<Rightarrow> str \<Rightarrow> int \<Rightarrow> effect_receipt_request \<Rightarrow> 'o
    \<Rightarrow> (effect_error + artifact_descriptor) \<times> 'o" where
  "record_effect_receipt E C os receipt_id completed_at q st =
     and_then_st (commit_evidence E os q st) (\<lambda>refs st.
       case as_object (redacted E (JObj (efq_annotations q))) of
         None \<Rightarrow> (Inl AnnotationsInvalid, st)
       | Some annotations \<Rightarrow>
           let r = receipt_of E receipt_id completed_at q refs annotations in
           if has_findings (scan_effect_value_for_raw_secrets E (effect_receipt_value E r) ''receipt'')
           then (Inl RawSecretInReceipt, st)
           else with_error EffectObject (commit_artifact os (receipt_commit C r) st))"

record effect_replay_result =
  ep_receipt_ref :: artifact_descriptor
  ep_receipt :: effect_receipt
  ep_outputs :: "json list"

definition read_effect_value :: "effect_codec \<Rightarrow> 'o object_store \<Rightarrow> artifact_descriptor \<Rightarrow> 'o \<Rightarrow> (effect_error + json) \<times> 'o" where
  "read_effect_value C os d st =
     and_then_st (with_error IncompleteHistory (read_artifact os d st)) (\<lambda>bytes st.
       (ok_or (ec_value_from_slice C bytes) InvalidRecordedValue, st))"

definition read_effect_values :: "effect_codec \<Rightarrow> 'o object_store \<Rightarrow> artifact_descriptor list \<Rightarrow> 'o
    \<Rightarrow> (effect_error + json list) \<times> 'o" where
  "read_effect_values C os ds st = mapM_st (read_effect_value C os) ds st"

definition replay_effect_receipt :: "effect_codec \<Rightarrow> 'o object_store \<Rightarrow> str \<Rightarrow> 'o
    \<Rightarrow> (effect_error + effect_replay_result) \<times> 'o" where
  "replay_effect_receipt C os receipt_digest st =
     and_then_st (with_error IncompleteHistory (os_get os receipt_digest st)) (\<lambda>bytes st.
     and_then_st (ok_or (ec_receipt_from_slice C bytes) InvalidReceipt, st) (\<lambda>r st.
       if rcp_receipt_type_uri r \<noteq> EFFECT_RECEIPT_TYPE_URI then (Inl UnsupportedReceiptType, st)
       else
         let receipt_ref = \<lparr>ad_artifact_type_uri = EFFECT_RECEIPT_TYPE_URI, ad_media_type = EFFECT_RECEIPT_MEDIA_TYPE,
               ad_digest = receipt_digest, ad_size_bytes = byte_len bytes, ad_references = referenced_digests r,
               ad_annotations = receipt_annotations r\<rparr> in
         and_then_st (read_effect_values C os (rcp_output_refs r) st) (\<lambda>outputs st.
           (Inr \<lparr>ep_receipt_ref = receipt_ref, ep_receipt = r, ep_outputs = outputs\<rparr>, st))))"

section \<open>Recording and replaying\<close>

lemma effect_value_bytes [simp]: "acr_bytes (effect_value_commit E u role v) = json_to_vec E (redacted E v)"
  by (simp add: effect_value_commit_def redacted_def split_beta)

lemma and_then_st_Inr:
  "and_then_st r f = (Inr y, st') \<longleftrightarrow> (\<exists>x st. r = (Inr x, st) \<and> f x st = (Inr y, st'))"
  by (cases r; cases "fst r") (auto simp: and_then_st_def)

lemma and_then_st_snd: "snd (and_then_st r f) = (case fst r of Inl e \<Rightarrow> snd r | Inr x \<Rightarrow> snd (f x (snd r)))"
  by (cases r; cases "fst r") (auto simp: and_then_st_def)

lemma with_error_Inr: "with_error f r = (Inr x, st) \<longleftrightarrow> r = (Inr x, st)"
  by (cases r; cases "fst r") (auto simp: with_error_def)

lemma with_error_snd [simp]: "snd (with_error f r) = snd r"
  by (cases r; cases "fst r") (auto simp: with_error_def)

text \<open>The store only gains objects.\<close>

definition object_grows :: "('o \<Rightarrow> bool) \<Rightarrow> ('o \<Rightarrow> str \<Rightarrow> bool) \<Rightarrow> 'o \<Rightarrow> 'o \<Rightarrow> bool" where
  "object_grows ok stored st st' \<longleftrightarrow> (ok st \<longrightarrow> ok st' \<and> (\<forall>x. stored st x \<longrightarrow> stored st' x))"

lemma object_grows_refl [simp]: "object_grows ok stored st st"
  by (simp add: object_grows_def)

lemma object_grows_trans: "object_grows ok stored a b \<Longrightarrow> object_grows ok stored b c \<Longrightarrow> object_grows ok stored a c"
  by (simp add: object_grows_def)

lemma and_then_st_grows:
  "object_grows ok stored st (snd r) \<Longrightarrow> (\<And>x s. object_grows ok stored s (snd (f x s))) \<Longrightarrow>
     object_grows ok stored st (snd (and_then_st r f))"
  by (auto simp: and_then_st_snd intro: object_grows_trans split: sum.split)

lemma mapM_st_grows:
  "(\<And>x s. object_grows ok stored s (snd (f x s))) \<Longrightarrow> object_grows ok stored st (snd (mapM_st f xs st))"
  by (induction xs arbitrary: st) (simp_all add: and_then_st_grows)

text \<open>A descriptor of a text that is in the store.\<close>

definition refers :: "ext \<Rightarrow> ('o \<Rightarrow> str \<Rightarrow> bool) \<Rightarrow> 'o \<Rightarrow> artifact_descriptor \<Rightarrow> str \<Rightarrow> bool" where
  "refers E stored st d bytes \<longleftrightarrow> stored st (ad_digest d) \<and> ad_digest d = sha256_digest E bytes \<and> ad_size_bytes d = byte_len bytes"

lemma refers_grows: "ok st \<Longrightarrow> object_grows ok stored st st' \<Longrightarrow> refers E stored st d b \<Longrightarrow> refers E stored st' d b"
  by (auto simp: refers_def object_grows_def)

text \<open>The receipt that a call records, and what a replay of it rests on: \<open>serde_json\<close> reads back what it
  wrote, and no other text has the digest of the receipt or of a recorded output.\<close>

definition recorded_receipt :: "ext \<Rightarrow> 'o object_store \<Rightarrow> str \<Rightarrow> int \<Rightarrow> effect_receipt_request \<Rightarrow> 'o \<Rightarrow> effect_receipt option" where
  "recorded_receipt E os receipt_id completed_at q st =
     (case fst (commit_evidence E os q st) of
        Inl _ \<Rightarrow> None
      | Inr refs \<Rightarrow> map_option (receipt_of E receipt_id completed_at q refs) (as_object (redacted E (JObj (efq_annotations q)))))"

definition value_reads :: "ext \<Rightarrow> effect_codec \<Rightarrow> json \<Rightarrow> bool" where
  "value_reads E C v \<longleftrightarrow> ec_value_from_slice C (json_to_vec E v) = Some v \<and> collision_free E (json_to_vec E v)"

definition receipt_reads :: "ext \<Rightarrow> effect_codec \<Rightarrow> effect_receipt \<Rightarrow> bool" where
  "receipt_reads E C r \<longleftrightarrow> ec_receipt_from_slice C (ec_receipt_to_vec C r) = Some r \<and> collision_free E (ec_receipt_to_vec C r)"

lemma receipt_of_simps [simp]:
  "rcp_receipt_type_uri (receipt_of E i t q refs a) = EFFECT_RECEIPT_TYPE_URI"
  "rcp_output_refs (receipt_of E i t q refs a) = rf_outputs refs"
  by (simp_all add: receipt_of_def)

lemma with_error_fst [simp]: "fst (with_error f r) = map_sum f (\<lambda>x. x) (fst r)"
  by (cases r; cases "fst r") (auto simp: with_error_def)

lemma and_then_st_Inl: "fst (and_then_st r f) = Inl e \<longleftrightarrow> fst r = Inl e \<or> (\<exists>x st. r = (Inr x, st) \<and> fst (f x st) = Inl e)"
  by (cases r; cases "fst r") (auto simp: and_then_st_def)

lemma mapM_st_Inl: "fst (mapM_st f xs st) = Inl e \<Longrightarrow> \<exists>x s. fst (f x s) = Inl e"
  by (induction xs arbitrary: st) (auto simp: and_then_st_Inl)

lemma recorded_cases:
  assumes "record_effect_receipt E C os receipt_id completed_at q st = (Inr d, st')"
    and "recorded_receipt E os receipt_id completed_at q st = Some r"
  obtains refs st1 where "commit_evidence E os q st = (Inr refs, st1)"
    "commit_artifact os (receipt_commit C r) st1 = (Inr d, st')"
    "rcp_receipt_type_uri r = EFFECT_RECEIPT_TYPE_URI" "rcp_output_refs r = rf_outputs refs"
proof -
  from assms(1) obtain refs st1 where refs: "commit_evidence E os q st = (Inr refs, st1)"
    by (auto simp: record_effect_receipt_def and_then_st_Inr)
  with assms(2) obtain a where a: "as_object (redacted E (JObj (efq_annotations q))) = Some a"
    and r: "r = receipt_of E receipt_id completed_at q refs a" by (auto simp: recorded_receipt_def)
  have "commit_artifact os (receipt_commit C r) st1 = (Inr d, st')"
    using assms(1) by (simp add: record_effect_receipt_def refs a and_then_st_def with_error_Inr Let_def r split: if_splits)
  then show ?thesis using that refs r by simp
qed

context object_contract
begin

lemma commit_grows: "object_grows ok stored st (snd (commit_artifact os q st))"
  using commit_keeps [of st q] by (simp add: object_grows_def)

lemma commit_value_grows: "object_grows ok stored st (snd (commit_effect_value E os u role v st))"
  by (simp add: commit_effect_value_def commit_grows)

lemma commit_values_grows: "object_grows ok stored st (snd (commit_effect_values E os u role vs st))"
  by (simp add: commit_effect_values_def commit_value_grows mapM_st_grows)

lemma commit_optional_grows: "object_grows ok stored st (snd (commit_optional_effect_value E os u role v st))"
  by (auto simp: commit_optional_effect_value_def commit_value_grows intro!: and_then_st_grows split: option.split)

lemmas commits_grow = commit_grows commit_value_grows commit_values_grows commit_optional_grows

lemma evidence_grows: "object_grows ok stored st (snd (commit_evidence E os q st))"
  unfolding commit_evidence_def by (intro and_then_st_grows commits_grow) simp

lemma commit_refers:
  "ok st \<Longrightarrow> commit_artifact os q st = (Inr d, st') \<Longrightarrow> refers E stored st' d (acr_bytes q)"
  using commit_stored commit_descriptor by (auto simp: refers_def)

lemma commit_values_refer:
  assumes "ok st" and "commit_effect_values E os u role vs st = (Inr ds, st')"
  shows "list_all2 (\<lambda>v d. refers E stored st' d (json_to_vec E (redacted E v))) vs ds"
  using assms unfolding commit_effect_values_def
proof (induction vs arbitrary: st ds)
  case (Cons v vs)
  from Cons.prems(2) obtain d st1 ds1 where d: "commit_effect_value E os u role v st = (Inr d, st1)"
    and ds1: "mapM_st (commit_effect_value E os u role) vs st1 = (Inr ds1, st')" and ds: "ds = d # ds1"
    by (auto simp: and_then_st_Inr)
  have "ok st1" using commit_value_grows [of st u role v] Cons.prems(1) d by (simp add: object_grows_def)
  moreover have "refers E stored st1 d (json_to_vec E (redacted E v))"
    using commit_refers [OF Cons.prems(1), of "effect_value_commit E u role v" d st1] d
    by (simp add: commit_effect_value_def with_error_Inr effect_value_bytes)
  moreover have "object_grows ok stored st1 st'"
    using mapM_st_grows [of ok stored "commit_effect_value E os u role" st1 vs] commit_value_grows ds1 by simp
  ultimately show ?case using Cons.IH [OF _ ds1] refers_grows [of ok st1 stored st'] ds by simp
qed simp

lemma evidence_outputs:
  assumes "ok st" and "commit_evidence E os q st = (Inr refs, st')"
  shows "list_all2 (\<lambda>v d. refers E stored st' d (json_to_vec E (redacted E v))) (efq_outputs q) (rf_outputs refs)"
proof -
  from assms(2) obtain c st1 i st2 s3 e s4 a s5 p s6 b
    where c: "commit_effect_value E os COMPONENT_EVIDENCE_TYPE_URI ''component'' (efq_component q) st = (Inr c, st1)"
      and i: "commit_effect_values E os EFFECT_VALUE_TYPE_URI ''input'' (efq_inputs q) st1 = (Inr i, st2)"
      and outs: "commit_effect_values E os EFFECT_VALUE_TYPE_URI ''output'' (efq_outputs q) st2 = (Inr (rf_outputs refs), s3)"
      and e: "commit_effect_values E os EFFECT_VALUE_TYPE_URI ''external_effect'' (efq_external_effects q) s3 = (Inr e, s4)"
      and a: "commit_optional_effect_value E os AUTHORITY_EVIDENCE_TYPE_URI ''authority'' (efq_authority q) s4 = (Inr a, s5)"
      and p: "commit_optional_effect_value E os POLICY_DECISION_TYPE_URI ''policy_decision'' (efq_policy_decision q) s5 = (Inr p, s6)"
      and b: "commit_optional_effect_value E os APPROVAL_EVIDENCE_TYPE_URI ''approval'' (efq_approval q) s6 = (Inr b, st')"
    unfolding commit_evidence_def and_then_st_Inr by auto
  have g: "object_grows ok stored st st1" "object_grows ok stored st1 st2" "object_grows ok stored st2 s3"
    "object_grows ok stored s3 s4" "object_grows ok stored s4 s5" "object_grows ok stored s5 s6" "object_grows ok stored s6 st'"
    using commits_grow c i outs e a p b by (metis snd_conv)+
  then have ok2: "ok st2" and ok3: "ok s3" using assms(1) by (auto simp: object_grows_def)
  have "object_grows ok stored s3 st'" using g by (meson object_grows_trans)
  from refers_grows [OF ok3 this] show ?thesis using commit_values_refer [OF ok2 outs] by (auto elim: list_all2_mono)
qed

lemma read_value_refers:
  assumes "ok st" and "refers E stored st d (json_to_vec E v)" and "value_reads E C v"
  shows "fst (read_effect_value C os d st) \<in> {Inl (IncompleteHistory ObjectIo), Inr v}"
    and "object_grows ok stored st (snd (read_effect_value C os d st))"
proof -
  have r: "fst (read_artifact os d st) \<in> {Inl ObjectIo, Inr (json_to_vec E v)}"
    using read_stored [OF assms(1), of d "json_to_vec E v"] assms(2,3) by (auto simp: refers_def value_reads_def)
  then show "fst (read_effect_value C os d st) \<in> {Inl (IncompleteHistory ObjectIo), Inr v}"
    using assms(3) by (cases "read_artifact os d st")
      (auto simp: read_effect_value_def and_then_st_def with_error_def value_reads_def)
  show "object_grows ok stored st (snd (read_effect_value C os d st))"
    using read_keeps [of st d]
    by (auto simp: read_effect_value_def and_then_st_snd object_grows_def split: sum.split)
qed

lemma read_values_refer:
  assumes "ok st" and "list_all2 (\<lambda>v d. refers E stored st d (json_to_vec E v)) vs ds" and "\<forall>v\<in>set vs. value_reads E C v"
  shows "fst (read_effect_values C os ds st) \<in> {Inl (IncompleteHistory ObjectIo), Inr vs}"
  using assms unfolding read_effect_values_def
proof (induction ds arbitrary: vs st)
  case (Cons d ds)
  then obtain v ws where vs: "vs = v # ws" and v: "refers E stored st d (json_to_vec E v)"
    and ws: "list_all2 (\<lambda>v d. refers E stored st d (json_to_vec E v)) ws ds" by (auto simp: list_all2_Cons2)
  obtain r st1 where r: "read_effect_value C os d st = (r, st1)" by fastforce
  note rv = read_value_refers [OF Cons.prems(1) v, of C]
  have g: "object_grows ok stored st st1" and r': "r \<in> {Inl (IncompleteHistory ObjectIo), Inr v}"
    using rv Cons.prems(3) r by (auto simp: vs)
  have "list_all2 (\<lambda>v d. refers E stored st1 d (json_to_vec E v)) ws ds"
    using ws refers_grows [OF Cons.prems(1) g] by (auto elim: list_all2_mono)
  moreover have "ok st1" using g Cons.prems(1) by (simp add: object_grows_def)
  ultimately have "fst (mapM_st (read_effect_value C os) ds st1) \<in> {Inl (IncompleteHistory ObjectIo), Inr ws}"
    using Cons.IH Cons.prems(3) vs by simp
  then show ?case using r' by (cases "mapM_st (read_effect_value C os) ds st1") (auto simp: r vs and_then_st_def)
qed simp

lemma recorded_replays:
  assumes "ok st" and "record_effect_receipt E C os receipt_id completed_at q st = (Inr d, st')"
    and "recorded_receipt E os receipt_id completed_at q st = Some r" and "receipt_reads E C r"
    and "\<forall>v\<in>set (efq_outputs q). value_reads E C (redacted E v)"
  shows "fst (replay_effect_receipt C os (ad_digest d) st') \<in> {Inl (IncompleteHistory ObjectIo),
    Inr \<lparr>ep_receipt_ref = d, ep_receipt = r, ep_outputs = map (redacted E) (efq_outputs q)\<rparr>}"
proof -
  from assms(2,3) obtain refs st1 where refs: "commit_evidence E os q st = (Inr refs, st1)"
    and commit: "commit_artifact os (receipt_commit C r) st1 = (Inr d, st')"
    and r: "rcp_receipt_type_uri r = EFFECT_RECEIPT_TYPE_URI" "rcp_output_refs r = rf_outputs refs"
    by (rule recorded_cases)
  have ok1: "ok st1" using evidence_grows [of st q] assms(1) refs by (simp add: object_grows_def)
  have g: "object_grows ok stored st1 st'" using commit_grows [of st1 "receipt_commit C r"] commit by simp
  then have ok': "ok st'" using ok1 by (simp add: object_grows_def)
  note d = commit_descriptor [OF commit] and stored_d = commit_stored [OF ok1 commit]
  have outs: "list_all2 (\<lambda>v d. refers E stored st' d (json_to_vec E v)) (map (redacted E) (efq_outputs q)) (rcp_output_refs r)"
    unfolding r(2) list_all2_map1 using evidence_outputs [OF assms(1) refs] refers_grows [OF ok1 g]
    by (auto elim: list_all2_mono)
  obtain b st2 where get: "os_get os (ad_digest d) st' = (b, st2)" by fastforce
  have b: "b \<in> {Inl ObjectIo, Inr (ec_receipt_to_vec C r)}"
    using get_stored [OF ok' stored_d] get_sound [of "ad_digest d" st'] d assms(4) get
    by (auto simp: receipt_reads_def collision_free_def receipt_commit_def)
  have g2: "object_grows ok stored st' st2" using get_keeps [of st' "ad_digest d"] get by (auto simp: object_grows_def)
  then have ok2: "ok st2" using ok' by (simp add: object_grows_def)
  have "fst (read_effect_values C os (rcp_output_refs r) st2)
      \<in> {Inl (IncompleteHistory ObjectIo), Inr (map (redacted E) (efq_outputs q))}"
    using read_values_refer [OF ok2] outs refers_grows [OF ok' g2] assms(5)
    by (smt (verit) imageE list.set_map list_all2_mono)
  moreover have "d = \<lparr>ad_artifact_type_uri = EFFECT_RECEIPT_TYPE_URI, ad_media_type = EFFECT_RECEIPT_MEDIA_TYPE,
      ad_digest = ad_digest d, ad_size_bytes = byte_len (ec_receipt_to_vec C r), ad_references = referenced_digests r,
      ad_annotations = receipt_annotations r\<rparr>" using d by (simp add: receipt_commit_def)
  ultimately show ?thesis using b assms(4) r(1)
    by (cases "read_effect_values C os (rcp_output_refs r) st2")
      (auto simp: replay_effect_receipt_def get with_error_def and_then_st_def receipt_reads_def Let_def)
qed

end

text \<open>A store that never fails to read.\<close>

locale reliable_objects = object_contract E os ok stored
  for E :: ext and os :: "'o object_store" and ok :: "'o \<Rightarrow> bool" and stored :: "'o \<Rightarrow> str \<Rightarrow> bool" +
  assumes get_reliable: "fst (os_get os d st) \<noteq> Inl ObjectIo"
begin

lemma read_value_reliable: "fst (read_effect_value C os d st) \<noteq> Inl (IncompleteHistory ObjectIo)"
  using get_reliable [of "ad_digest d" st]
  by (cases "os_get os (ad_digest d) st"; cases "fst (os_get os (ad_digest d) st)")
    (auto simp: read_effect_value_def read_artifact_def and_then_st_Inl ensure_descriptor_size_def with_error_def ok_or_def
      split: option.splits if_splits)

lemma replay_reliable: "fst (replay_effect_receipt C os digest st) \<noteq> Inl (IncompleteHistory ObjectIo)"
proof
  assume "fst (replay_effect_receipt C os digest st) = Inl (IncompleteHistory ObjectIo)"
  then have "(\<exists>ds s. fst (read_effect_values C os ds s) = Inl (IncompleteHistory ObjectIo))"
    using get_reliable [of digest st]
    by (cases "os_get os digest st"; cases "fst (os_get os digest st)")
      (auto simp: replay_effect_receipt_def and_then_st_Inl with_error_def ok_or_def Let_def split: option.splits if_splits)
  then obtain ds s where "fst (mapM_st (read_effect_value C os) ds s) = Inl (IncompleteHistory ObjectIo)"
    by (auto simp: read_effect_values_def)
  from mapM_st_Inl [OF this] show False using read_value_reliable by blast
qed

end

interpretation memory_reliable: reliable_objects E "memory_object_store E" "memory_objects_ok E" memory_holds for E
proof
  fix d and st :: memory_objects
  show "fst (os_get (memory_object_store E) d st) \<noteq> Inl ObjectIo"
    by (auto simp: memory_object_store_def memory_get_def verify_bytes_def digest_hex_def and_then_def ok_or_def
        split: option.splits sum.splits if_splits)
qed

section \<open>Properties\<close>

text \<open>C17: A recorded receipt replays: from its digest the store returns the same receipt, under the same
  descriptor, with the recorded outputs, each as it was redacted. On the file store the replay may
  instead report that an object could not be read; on the store in memory it always succeeds.\<close>

theorem effect_receipt_replays:
  assumes "receipt_reads E C r" and "\<forall>v\<in>set (efq_outputs q). value_reads E C (redacted E v)"
  shows "(\<forall>objects objects' d. memory_objects_ok E objects
       \<and> recorded_receipt E (memory_object_store E) receipt_id completed_at q objects = Some r
       \<and> record_effect_receipt E C (memory_object_store E) receipt_id completed_at q objects = (Inr d, objects') \<longrightarrow>
       fst (replay_effect_receipt C (memory_object_store E) (ad_digest d) objects')
         = Inr \<lparr>ep_receipt_ref = d, ep_receipt = r, ep_outputs = map (redacted E) (efq_outputs q)\<rparr>)
   \<and> (\<forall>files files' d. sha256_hex_ok E
       \<and> recorded_receipt E (fs_object_store E) receipt_id completed_at q files = Some r
       \<and> record_effect_receipt E C (fs_object_store E) receipt_id completed_at q files = (Inr d, files') \<longrightarrow>
       fst (replay_effect_receipt C (fs_object_store E) (ad_digest d) files') \<in> {Inl (IncompleteHistory ObjectIo),
         Inr \<lparr>ep_receipt_ref = d, ep_receipt = r, ep_outputs = map (redacted E) (efq_outputs q)\<rparr>})"
proof (intro conjI allI impI)
  fix objects objects' d
  assume h: "memory_objects_ok E objects
    \<and> recorded_receipt E (memory_object_store E) receipt_id completed_at q objects = Some r
    \<and> record_effect_receipt E C (memory_object_store E) receipt_id completed_at q objects = (Inr d, objects')"
  then show "fst (replay_effect_receipt C (memory_object_store E) (ad_digest d) objects')
      = Inr \<lparr>ep_receipt_ref = d, ep_receipt = r, ep_outputs = map (redacted E) (efq_outputs q)\<rparr>"
    using memory_objects.recorded_replays [OF _ _ _ assms] memory_reliable.replay_reliable by (metis insertE singletonD)
next
  fix files files' d
  assume h: "sha256_hex_ok E \<and> recorded_receipt E (fs_object_store E) receipt_id completed_at q files = Some r
    \<and> record_effect_receipt E C (fs_object_store E) receipt_id completed_at q files = (Inr d, files')"
  then show "fst (replay_effect_receipt C (fs_object_store E) (ad_digest d) files') \<in> {Inl (IncompleteHistory ObjectIo),
      Inr \<lparr>ep_receipt_ref = d, ep_receipt = r, ep_outputs = map (redacted E) (efq_outputs q)\<rparr>}"
    using fs_objects.recorded_replays [OF _ _ _ assms] by blast
qed

text \<open>A call that is recorded with one output, and texts that no other text shares its digest with.\<close>

definition sample_evidence :: ext where
  "sample_evidence = sample_ext\<lparr>sha256_hex := (\<lambda>b. replicate 64
     (if b = ''ab'' then CHR ''b'' else if b = ''true'' then CHR ''c'' else CHR ''a''))\<rparr>"

definition sample_effect :: effect_receipt_request where
  "sample_effect = (live_request ''capability'' PlatformRuntime JNull Succeeded 0 5 ''trace'')\<lparr>efq_outputs := [JBool True]\<rparr>"

definition sample_codec :: effect_codec where
  "sample_codec = \<lparr>ec_receipt_to_vec = (\<lambda>_. ''ab''),
     ec_receipt_from_slice = (\<lambda>_. recorded_receipt sample_evidence (memory_object_store sample_evidence) ''r'' 7 sample_effect Map.empty),
     ec_value_from_slice = (\<lambda>_. Some (JBool True))\<rparr>"

lemma sample_evidence_ok:
  "sha256_hex_ok sample_evidence" "collision_free sample_evidence ''ab''" "collision_free sample_evidence ''true''"
  "redacted sample_evidence (JBool True) = JBool True" "json_to_vec sample_evidence (JBool True) = ''true''"
proof -
  have "is_lower_hex (CHR ''a'')" "is_lower_hex (CHR ''b'')" "is_lower_hex (CHR ''c'')" by code_simp+
  then show "sha256_hex_ok sample_evidence" by (simp add: sha256_hex_ok_def sample_evidence_def list_all_iff)
  show "collision_free sample_evidence ''ab''" "collision_free sample_evidence ''true''"
    by (auto simp: collision_free_def sha256_digest_def sample_evidence_def replicate_eq_replicate split: if_splits)
  show "redacted sample_evidence (JBool True) = JBool True" "json_to_vec sample_evidence (JBool True) = ''true''"
    by code_simp+
qed

lemma sample_effect_recorded:
  "recorded_receipt sample_evidence (memory_object_store sample_evidence) ''r'' 7 sample_effect Map.empty \<noteq> None"
  "is_ok (fst (record_effect_receipt sample_evidence sample_codec (memory_object_store sample_evidence) ''r'' 7 sample_effect Map.empty))"
  by code_simp+

theorem effect_receipt_replays_witness:
  "\<exists>result. fst (replay_effect_receipt sample_codec (memory_object_store sample_evidence)
      (case fst (record_effect_receipt sample_evidence sample_codec (memory_object_store sample_evidence) ''r'' 7 sample_effect Map.empty) of
         Inr d \<Rightarrow> ad_digest d)
      (snd (record_effect_receipt sample_evidence sample_codec (memory_object_store sample_evidence) ''r'' 7 sample_effect Map.empty)))
     = Inr result \<and> ep_outputs result = [JBool True]"
proof -
  let ?os = "memory_object_store sample_evidence"
  obtain r where r: "recorded_receipt sample_evidence ?os ''r'' 7 sample_effect Map.empty = Some r"
    using sample_effect_recorded(1) by blast
  obtain d st where d: "record_effect_receipt sample_evidence sample_codec ?os ''r'' 7 sample_effect Map.empty = (Inr d, st)"
    using sample_effect_recorded(2) by (metis is_ok_Inr prod.collapse)
  have "receipt_reads sample_evidence sample_codec r"
    using r sample_evidence_ok(2) by (simp add: receipt_reads_def sample_codec_def)
  moreover have q: "efq_outputs sample_effect = [JBool True]" by (simp add: sample_effect_def)
  moreover have "value_reads sample_evidence sample_codec (redacted sample_evidence (JBool True))"
    using sample_evidence_ok by (simp add: value_reads_def sample_codec_def)
  moreover have "memory_objects_ok sample_evidence Map.empty" using sample_evidence_ok by (simp add: memory_objects_ok_def)
  ultimately have "fst (replay_effect_receipt sample_codec ?os (ad_digest d) st)
      = Inr \<lparr>ep_receipt_ref = d, ep_receipt = r, ep_outputs = map (redacted sample_evidence) (efq_outputs sample_effect)\<rparr>"
    using effect_receipt_replays [of sample_evidence sample_codec r sample_effect "''r''" 7] r d by simp
  then show ?thesis using d sample_evidence_ok q by simp
qed

end
