(* ===== verification/Substrate.thy ===== *)
theory Substrate
  imports Capabilities Effects Event_Spine Event_Kinds
begin

text \<open>
  The substrate of the runtime: who may act (\<open>ProtocolContext\<close> of \<open>protocol.rs\<close>, \<open>permissions.rs\<close>),
  how an event reaches the spine (\<open>events.rs\<close>, \<open>hooks.rs\<close>), and the sessions, branches, projections
  and grants that the runtime keeps in memory beside it.

  A method that takes several locks one after the other is the composition of its sections. New ids
  and the readings of the clock are arguments; the id and the time that the event store gives to an
  appended event are its \<open>stamp\<close>. The event store, the object store, \<open>serde_json\<close>'s reading of a record
  and the code of a package that a hook calls are the parameters of \<open>runtime_ext\<close>. A \<open>HashMap\<close> is an
  ordered map: the order in which its values are met is not fixed by the source.
\<close>

section \<open>Authority of a caller\<close>

record resource_selector =
  rsl_owner :: str
  rsl_kind :: str
  rsl_id :: "str option"

definition selector_matches :: "resource_selector \<Rightarrow> str \<Rightarrow> str \<Rightarrow> str \<Rightarrow> bool" where
  "selector_matches s owner kind i =
     (rsl_owner s = owner \<and> rsl_kind s = kind \<and> (case rsl_id s of None \<Rightarrow> True | Some selected \<Rightarrow> selected = i))"

record authority_context =
  au_grant_id :: str
  au_actions :: "str list"
  au_resources :: "resource_selector list"
  au_delegation_chain :: "str list"
  au_verified_expires_at_ms :: "int option"

record host_operation_context =
  ho_action :: str
  ho_resources :: "resource_selector list"

record protocol_context =
  pc_principal :: protocol_principal
  pc_transport :: str
  pc_authority :: "authority_context option"
  pc_host_operation :: "host_operation_context option"
  pc_session_id :: "str option"

definition host_device_authority :: "protocol_context \<Rightarrow> authority_context option" where
  "host_device_authority c = (case pc_principal c of Anonymous \<Rightarrow> pc_authority c | _ \<Rightarrow> None)"

definition is_host_device :: "protocol_context \<Rightarrow> bool" where
  "is_host_device c = (host_device_authority c \<noteq> None)"

definition is_host_controller :: "protocol_principal \<Rightarrow> bool" where
  "is_host_controller p = (p = HostAdmin \<or> p = HostDev)"

definition allows_host_action :: "int \<Rightarrow> protocol_context \<Rightarrow> str \<Rightarrow> bool" where
  "allows_host_action now_ms c action =
     (case host_device_authority c of
        Some a \<Rightarrow> (case au_verified_expires_at_ms a of None \<Rightarrow> True | Some expiry \<Rightarrow> now_ms < expiry) \<and> action \<in> set (au_actions a)
      | None \<Rightarrow> is_host_controller (pc_principal c))"

definition allows_host_resource :: "protocol_context \<Rightarrow> str \<Rightarrow> str \<Rightarrow> str \<Rightarrow> bool" where
  "allows_host_resource c owner kind i =
     (case host_device_authority c of
        Some a \<Rightarrow> list_ex (\<lambda>s. selector_matches s owner kind i) (au_resources a)
      | None \<Rightarrow> is_host_controller (pc_principal c))"

definition allows_all_host_resources :: "protocol_context \<Rightarrow> str \<Rightarrow> str \<Rightarrow> bool" where
  "allows_all_host_resources c owner kind =
     (case host_device_authority c of
        Some a \<Rightarrow> list_ex (\<lambda>s. rsl_owner s = owner \<and> rsl_kind s = kind \<and> rsl_id s = None) (au_resources a)
      | None \<Rightarrow> is_host_controller (pc_principal c))"

definition host_operation_is_authorized :: "int \<Rightarrow> protocol_context \<Rightarrow> bool" where
  "host_operation_is_authorized now_ms c =
     (case pc_host_operation c of
        None \<Rightarrow> False
      | Some operation \<Rightarrow> allows_host_action now_ms c (ho_action operation) \<and> ho_resources operation \<noteq> []
          \<and> list_all (\<lambda>r. case rsl_id r of None \<Rightarrow> False | Some i \<Rightarrow> allows_host_resource c (rsl_owner r) (rsl_kind r) i)
              (ho_resources operation))"

section \<open>Records\<close>

record open_session_request =
  osr_labels :: "str list"
  osr_active_package_set :: "str list"
  osr_metadata :: json

record branch_record =
  br_id :: str
  br_parent_session_id :: str
  br_child_session_id :: str
  br_forked_from_sequence :: u64
  br_created_at :: int
  br_metadata :: json

record projection_definition =
  pj_id :: str
  pj_session_id :: str
  pj_source_kind_prefix :: "str option"
  pj_state :: json

record permission_grant_record =
  gr_id :: str
  gr_principal :: protocol_principal
  gr_permission :: str
  gr_scope :: "str option"
  gr_granted_at :: int
  gr_revoked_at :: "int option"
  gr_reason :: "str option"

definition branch_value :: "ext \<Rightarrow> branch_record \<Rightarrow> json" where
  "branch_value E b = jobj (jfield ''id'' (JStr (br_id b)) @ jfield ''parent_session_id'' (JStr (br_parent_session_id b))
     @ jfield ''child_session_id'' (JStr (br_child_session_id b))
     @ jfield ''forked_from_sequence'' (jnat (unat (br_forked_from_sequence b)))
     @ jfield ''created_at'' (jtime E (br_created_at b)) @ jfield ''metadata'' (br_metadata b))"

definition projection_value :: "projection_definition \<Rightarrow> json" where
  "projection_value p = jobj (jfield ''id'' (JStr (pj_id p)) @ jfield ''session_id'' (JStr (pj_session_id p))
     @ jfield ''source_kind_prefix'' (jnullable JStr (pj_source_kind_prefix p)) @ jfield ''state'' (pj_state p))"

definition grant_value :: "ext \<Rightarrow> permission_grant_record \<Rightarrow> json" where
  "grant_value E g = jobj (jfield ''id'' (JStr (gr_id g)) @ jfield ''principal'' (protocol_principal_value (gr_principal g))
     @ jfield ''permission'' (JStr (gr_permission g)) @ jfield ''scope'' (jnullable JStr (gr_scope g))
     @ jfield ''granted_at'' (jtime E (gr_granted_at g)) @ jfield ''revoked_at'' (jnullable (jtime E) (gr_revoked_at g))
     @ jfield ''reason'' (jnullable JStr (gr_reason g)))"

record append_event_request =
  aer_session_id :: str
  aer_writer_package_id :: str
  aer_kind :: str
  aer_payload :: json
  aer_metadata :: json

record event_list_request =
  elr_session_id :: str
  elr_after_sequence :: "u64 option"
  elr_limit :: "nat option"
  elr_kind_prefix :: "str option"
  elr_writer_package_id :: "str option"

text \<open>What these methods read of a loaded package's manifest.\<close>

record package_view =
  pk_contract :: contract_mode
  pk_events_read :: bool
  pk_events_append :: bool
  pk_schemas :: "(str \<times> json) list"

datatype asset_content_encoding = Utf8 | Hex

record asset_record =
  as_id :: str
  as_origin_package_id :: str
  as_mime :: str
  as_hash :: str
  as_size_bytes :: u64
  as_created_at :: int
  as_metadata :: json
  as_descriptor :: "artifact_descriptor option"

record stored_asset =
  sa_record :: asset_record
  sa_content_encoding :: asset_content_encoding

record ('s, 'o) substrate =
  sb_store :: 's
  sb_objects :: 'o
  sb_sessions :: "(str, session_record) btree_map"
  sb_branches :: "(str, branch_record) btree_map"
  sb_projections :: "(str, projection_definition) btree_map"
  sb_grants :: "(str, permission_grant_record) btree_map"
  sb_assets :: "(str, stored_asset) btree_map"
  sb_packages :: "str \<rightharpoonup> package_view"
  sb_hooks :: hook_registry
  sb_fabric :: fabric
  sb_default_labels :: "str list"

record ('s, 'o) runtime_ext =
  rx_ext :: ext
  rx_step :: "spine_call \<Rightarrow> 's \<Rightarrow> spine_reply \<times> 's"
  rx_objects :: "'o object_store"
  rx_execute :: "registered_capability \<Rightarrow> str \<Rightarrow> json \<Rightarrow> json option"
  rx_branch_from_value :: "json \<Rightarrow> branch_record option"
  rx_projection_from_value :: "json \<Rightarrow> projection_definition option"
  rx_grant_from_value :: "json \<Rightarrow> permission_grant_record option"
  rx_asset_from_value :: "json \<Rightarrow> asset_record option"

datatype substrate_error =
    Session_Is_Closed | Session_Not_Open | Session_Not_Found | Append_Denied | Vetoed_By str | Kind_Not_Owned
  | Schema_Rejected schema_error | Store_Failed | Read_Denied | Principal_Denied | Grant_Not_Found
  | Projection_Not_Found | Not_Host_Controller | Host_Action_Denied | Installation_Denied | Unbound_Session
  | Invalid_Record | Raw_Secret_Found | Exact_Upload_Required | No_Descriptor | Descriptor_Invalid | Media_Mismatch
  | Invalid_Hex | Size_Mismatch | Digest_Mismatch | Asset_Not_Found | Invalid_Utf8 | Object_Failed object_error
  | Legacy_Digest | Invalid_Encoding | No_Asset

type_synonym stamp = "str \<times> int"

type_synonym ('s, 'o, 'a) call_result = "(substrate_error + 'a) \<times> ('s, 'o) substrate"

section \<open>Grants\<close>

definition scope_covers :: "str option \<Rightarrow> str option \<Rightarrow> bool" where
  "scope_covers grant_scope scope =
     (case grant_scope of
        None \<Rightarrow> True
      | Some g \<Rightarrow> (case scope of None \<Rightarrow> False | Some s \<Rightarrow> starts_with s g))"

definition grant_covers :: "permission_grant_record \<Rightarrow> protocol_principal \<Rightarrow> str \<Rightarrow> str option \<Rightarrow> bool" where
  "grant_covers g p permission scope =
     (gr_revoked_at g = None \<and> gr_principal g = p \<and> gr_permission g = permission \<and> scope_covers (gr_scope g) scope)"

definition principal_has_grant :: "(str, permission_grant_record) btree_map \<Rightarrow> protocol_principal \<Rightarrow> str \<Rightarrow> str option \<Rightarrow> bool" where
  "principal_has_grant gs p permission scope =
     (is_host_controller p \<or> list_ex (\<lambda>(_, g). grant_covers g p permission scope) gs)"

definition list_permission_grants :: "(str, permission_grant_record) btree_map \<Rightarrow> protocol_principal option
    \<Rightarrow> permission_grant_record list" where
  "list_permission_grants gs p =
     sort_key gr_granted_at (filter (\<lambda>g. case p of None \<Rightarrow> True | Some p \<Rightarrow> gr_principal g = p) (map snd gs))"

section \<open>Appending events\<close>

definition package_is_contract_none :: "('s, 'o) substrate \<Rightarrow> str \<Rightarrow> bool" where
  "package_is_contract_none S p = (map_option pk_contract (sb_packages S p) = Some Contract_None)"

definition event_permitted :: "(package_view \<Rightarrow> bool) \<Rightarrow> ('s, 'o) substrate \<Rightarrow> str \<Rightarrow> bool" where
  "event_permitted permission S p =
     (\<not> package_is_contract_none S p \<and> (case sb_packages S p of None \<Rightarrow> False | Some v \<Rightarrow> permission v))"

definition store_append :: "('s, 'o) runtime_ext \<Rightarrow> str \<Rightarrow> event_draft \<Rightarrow> ('s, 'o) substrate
    \<Rightarrow> ('s, 'o, event_envelope) call_result" where
  "store_append X s d S =
     (case rx_step X (Append_With_Sequence s d) (sb_store S) of
        (Appended e, st) \<Rightarrow> (Inr e, S\<lparr>sb_store := st\<rparr>)
      | (_, st) \<Rightarrow> (Inl Store_Failed, S\<lparr>sb_store := st\<rparr>))"

definition prelim :: "append_event_request \<Rightarrow> int \<Rightarrow> event_envelope" where
  "prelim q now = \<lparr>ev_id = [], ev_session_id = aer_session_id q, ev_sequence = 0,
     ev_writer_package_id = aer_writer_package_id q, ev_kind = aer_kind q, ev_schema_version = 1, ev_timestamp = now,
     ev_payload = aer_payload q, ev_metadata = aer_metadata q\<rparr>"

definition payload_schema :: "('s, 'o) substrate \<Rightarrow> event_envelope \<Rightarrow> json option" where
  "payload_schema S e =
     (if ev_writer_package_id e = PLATFORM_RUNTIME_ID then None
      else case sb_packages S (ev_writer_package_id e) of
        None \<Rightarrow> None
      | Some v \<Rightarrow> map_option snd (List.find (\<lambda>(i, _). i = ev_kind e) (pk_schemas v)))"

definition append_event_unchecked :: "('s, 'o) runtime_ext \<Rightarrow> append_event_request \<Rightarrow> stamp \<Rightarrow> ('s, 'o) substrate
    \<Rightarrow> ('s, 'o, event_envelope) call_result" where
  "append_event_unchecked X q stamp S =
     (let e = prelim q (snd stamp) in
      if \<not> writer_owns_kind e then (Inl Kind_Not_Owned, S)
      else case (case payload_schema S e of None \<Rightarrow> Inr () | Some schema \<Rightarrow> validate_json_schema_subset schema (aer_payload q)) of
        Inl err \<Rightarrow> (Inl (Schema_Rejected err), S)
      | Inr _ \<Rightarrow> store_append X (aer_session_id q)
          \<lparr>ed_id = fst stamp, ed_timestamp = snd stamp, ed_writer_package_id = aer_writer_package_id q, ed_kind = aer_kind q,
           ed_schema_version = 1, ed_payload = aer_payload q, ed_metadata = aer_metadata q\<rparr> S)"

definition append_platform_event_with_metadata :: "('s, 'o) runtime_ext \<Rightarrow> str \<Rightarrow> str \<Rightarrow> json \<Rightarrow> json \<Rightarrow> stamp
    \<Rightarrow> ('s, 'o) substrate \<Rightarrow> ('s, 'o, event_envelope) call_result" where
  "append_platform_event_with_metadata X session_id kind payload metadata stamp S =
     append_event_unchecked X \<lparr>aer_session_id = session_id, aer_writer_package_id = PLATFORM_RUNTIME_ID, aer_kind = kind,
       aer_payload = payload, aer_metadata = metadata\<rparr> stamp S"

definition append_platform_event :: "('s, 'o) runtime_ext \<Rightarrow> str \<Rightarrow> str \<Rightarrow> json \<Rightarrow> stamp \<Rightarrow> ('s, 'o) substrate
    \<Rightarrow> ('s, 'o, event_envelope) call_result" where
  "append_platform_event X session_id kind payload stamp S =
     append_platform_event_with_metadata X session_id kind payload (JObj []) stamp S"

definition audit_permission_denied :: "('s, 'o) runtime_ext \<Rightarrow> str \<Rightarrow> str \<Rightarrow> str \<Rightarrow> stamp \<Rightarrow> ('s, 'o) substrate
    \<Rightarrow> ('s, 'o, event_envelope) call_result" where
  "audit_permission_denied X session_id package_id operation stamp S =
     append_platform_event X session_id EVENT_PERMISSION_DENIED
       (jobj (jfield ''package_id'' (JStr package_id) @ jfield ''operation'' (JStr operation))) stamp S"

text \<open>A denial is recorded before it is reported; when the record cannot be written, that error is reported.\<close>

definition deny :: "('s, 'o) runtime_ext \<Rightarrow> str \<Rightarrow> str \<Rightarrow> str \<Rightarrow> substrate_error \<Rightarrow> stamp \<Rightarrow> ('s, 'o) substrate
    \<Rightarrow> ('s, 'o, 'a) call_result" where
  "deny X session_id package_id operation err stamp S =
     and_then_st (audit_permission_denied X session_id package_id operation stamp S) (\<lambda>_ S. (Inl err, S))"

section \<open>Hooks\<close>

definition merge_metadata_patch :: "json \<Rightarrow> json \<Rightarrow> json" where
  "merge_metadata_patch payload patch =
     (case as_object patch of
        None \<Rightarrow> payload
      | Some entries \<Rightarrow>
          (case payload of
             JObj fs \<Rightarrow>
               (let metadata = (case bt_get fs ''metadata'' of None \<Rightarrow> JObj [] | Some m \<Rightarrow> m) in
                JObj (bt_insert ''metadata''
                  (case metadata of JObj ms \<Rightarrow> JObj (fold (\<lambda>(k, v). bt_insert k v) entries ms) | m \<Rightarrow> m) fs))
           | _ \<Rightarrow> payload))"

text \<open>One handler: the veto it casts, or the payload it leaves.\<close>

definition run_hook :: "('s, 'o) runtime_ext \<Rightarrow> fabric \<Rightarrow> registered_hook \<Rightarrow> json \<Rightarrow> json option" where
  "run_hook X f hook payload =
     (let handler = hk_handler (rh_subscription hook) in
      if handler = ''veto'' then None
      else if handler = ''metadata_trace'' then
        Some (merge_metadata_patch payload (jobj (jfield ''hook_trace'' (JStr (rh_subscriber_package_id hook)))))
      else if CHR ''/'' \<in> set handler then
        (case resolve handler (Some (rh_subscriber_package_id hook)) None f of
           Inl _ \<Rightarrow> None
         | Inr provider \<Rightarrow>
             if \<not> is_ok (validate_json_schema_subset (cap_input_schema (rc_descriptor provider)) payload) then None
             else (case rx_execute X provider handler payload of
                None \<Rightarrow> None
              | Some output \<Rightarrow>
                  if Option.bind (field output ''decision'') as_str = Some ''veto'' then None
                  else Some (case field output ''metadata_patch'' of None \<Rightarrow> payload | Some patch \<Rightarrow> merge_metadata_patch payload patch)))
      else Some payload)"

fun run_hooks :: "('s, 'o) runtime_ext \<Rightarrow> fabric \<Rightarrow> registered_hook list \<Rightarrow> json \<Rightarrow> str option \<times> json" where
  "run_hooks X f [] payload = (None, payload)"
| "run_hooks X f (hook # hooks) payload =
     (case run_hook X f hook payload of
        None \<Rightarrow> (Some (rh_subscriber_package_id hook), payload)
      | Some payload' \<Rightarrow> run_hooks X f hooks payload')"

definition dispatch_extension_handlers :: "('s, 'o) runtime_ext \<Rightarrow> str \<Rightarrow> json \<Rightarrow> ('s, 'o) substrate \<Rightarrow> extension_dispatch_result" where
  "dispatch_extension_handlers X extension_point payload S =
     (let invoked = list_hooks extension_point (sb_hooks S);
          (vetoed_by, payload') = run_hooks X (sb_fabric S) invoked payload in
      \<lparr>xd_extension_point = extension_point, xd_invoked = invoked, xd_vetoed_by = vetoed_by, xd_payload = payload'\<rparr>)"

definition append_event_value :: "append_event_request \<Rightarrow> json" where
  "append_event_value q = jobj (jfield ''session_id'' (JStr (aer_session_id q))
     @ jfield ''writer_package_id'' (JStr (aer_writer_package_id q)) @ jfield ''kind'' (JStr (aer_kind q))
     @ jfield ''payload'' (aer_payload q) @ jfield ''metadata'' (aer_metadata q))"

text \<open>The part of \<open>append_event\<close> after the permission has been checked. What the hooks of
  \<open>journal/after_append\<close> answer is dropped.\<close>

definition append_event_hooked :: "('s, 'o) runtime_ext \<Rightarrow> append_event_request \<Rightarrow> stamp \<Rightarrow> ('s, 'o) substrate
    \<Rightarrow> ('s, 'o, event_envelope) call_result" where
  "append_event_hooked X q stamp S =
     (let r = dispatch_extension_handlers X ''journal/before_append'' (append_event_value q) S in
      case xd_vetoed_by r of
        Some package \<Rightarrow> (Inl (Vetoed_By package), S)
      | None \<Rightarrow> append_event_unchecked X
          (q\<lparr>aer_metadata := (case field (xd_payload r) ''metadata'' of None \<Rightarrow> aer_metadata q | Some m \<Rightarrow> m)\<rparr>) stamp S)"

definition session_open :: "('s, 'o) substrate \<Rightarrow> str \<Rightarrow> substrate_error + unit" where
  "session_open S s =
     (case bt_get (sb_sessions S) s of
        None \<Rightarrow> Inl Session_Not_Open
      | Some r \<Rightarrow> if sr_status r = Session_Open then Inr () else Inl Session_Is_Closed)"

definition append_event :: "('s, 'o) runtime_ext \<Rightarrow> append_event_request \<Rightarrow> stamp \<Rightarrow> ('s, 'o) substrate
    \<Rightarrow> ('s, 'o, event_envelope) call_result" where
  "append_event X q stamp S =
     (case session_open S (aer_session_id q) of
        Inl err \<Rightarrow> (Inl err, S)
      | Inr _ \<Rightarrow>
          if aer_writer_package_id q \<noteq> PLATFORM_RUNTIME_ID \<and> \<not> event_permitted pk_events_append S (aer_writer_package_id q)
          then deny X (aer_session_id q) (aer_writer_package_id q) ''events.append'' Append_Denied stamp S
          else append_event_hooked X q stamp S)"

section \<open>Access of a host device to a session\<close>

definition session_installation :: "session_record \<Rightarrow> str option" where
  "session_installation r = Option.bind (field (sr_metadata r) ''installation_id'') as_str"

definition ensure_host_session_access :: "('s, 'o) substrate \<Rightarrow> int \<Rightarrow> protocol_context \<Rightarrow> str \<Rightarrow> str \<Rightarrow> substrate_error + unit" where
  "ensure_host_session_access S now_ms c action s =
     (if \<not> is_host_device c then (if is_host_controller (pc_principal c) then Inr () else Inl Not_Host_Controller)
      else if \<not> allows_host_action now_ms c action then Inl Host_Action_Denied
      else case bt_get (sb_sessions S) s of
        None \<Rightarrow> Inl Session_Not_Found
      | Some r \<Rightarrow>
          if sr_status r \<noteq> Session_Open then Inl Session_Is_Closed
          else if action = ''access_manage'' then Inr ()
          else case session_installation r of
            Some i \<Rightarrow> if allows_host_resource c ''host'' ''installation'' i then Inr () else Inl Installation_Denied
          | None \<Rightarrow> if allows_all_host_resources c ''host'' ''installation'' then Inr () else Inl Unbound_Session)"

definition append_event_with_context :: "('s, 'o) runtime_ext \<Rightarrow> int \<Rightarrow> protocol_context \<Rightarrow> append_event_request \<Rightarrow> stamp
    \<Rightarrow> ('s, 'o) substrate \<Rightarrow> ('s, 'o, event_envelope) call_result" where
  "append_event_with_context X now_ms c q stamp S =
     (case pc_principal c of
        Package p \<Rightarrow> append_event X (q\<lparr>aer_writer_package_id := p\<rparr>) stamp S
      | HostAdmin \<Rightarrow> append_event X q stamp S
      | HostDev \<Rightarrow> append_event X q stamp S
      | Anonymous \<Rightarrow>
          if is_host_device c then
            (case ensure_host_session_access S now_ms c ''access_manage'' (aer_session_id q) of
               Inl err \<Rightarrow> (Inl err, S)
             | Inr _ \<Rightarrow> append_event X q stamp S)
          else (Inl Principal_Denied, S)
      | _ \<Rightarrow> (Inl Principal_Denied, S))"

section \<open>Reading events\<close>

definition list_events :: "('s, 'o) runtime_ext \<Rightarrow> str \<Rightarrow> ('s, 'o) substrate \<Rightarrow> ('s, 'o, event_envelope list) call_result" where
  "list_events X s S =
     (case rx_step X (List_Session s) (sb_store S) of
        (Events es, st) \<Rightarrow> (Inr es, S\<lparr>sb_store := st\<rparr>)
      | (_, st) \<Rightarrow> (Inl Store_Failed, S\<lparr>sb_store := st\<rparr>))"

definition list_events_range :: "('s, 'o) runtime_ext \<Rightarrow> event_list_request \<Rightarrow> ('s, 'o) substrate
    \<Rightarrow> ('s, 'o, event_envelope list) call_result" where
  "list_events_range X q S =
     (case rx_step X (List_Session_Range (elr_session_id q) (elr_after_sequence q) (elr_limit q)) (sb_store S) of
        (Events es, st) \<Rightarrow> (Inr (filter (\<lambda>e. (case elr_kind_prefix q of None \<Rightarrow> True | Some p \<Rightarrow> starts_with (ev_kind e) p)
            \<and> (case elr_writer_package_id q of None \<Rightarrow> True | Some w \<Rightarrow> ev_writer_package_id e = w)) es), S\<lparr>sb_store := st\<rparr>)
      | (_, st) \<Rightarrow> (Inl Store_Failed, S\<lparr>sb_store := st\<rparr>))"

definition for_reader :: "('s, 'o) runtime_ext \<Rightarrow> str \<Rightarrow> str option \<Rightarrow> stamp \<Rightarrow> (('s, 'o) substrate \<Rightarrow> ('s, 'o, 'a) call_result)
    \<Rightarrow> ('s, 'o) substrate \<Rightarrow> ('s, 'o, 'a) call_result" where
  "for_reader X s caller stamp read S =
     (case caller of
        Some p \<Rightarrow> if event_permitted pk_events_read S p then read S else deny X s p ''events.read'' Read_Denied stamp S
      | None \<Rightarrow> read S)"

definition list_events_for :: "('s, 'o) runtime_ext \<Rightarrow> str \<Rightarrow> str option \<Rightarrow> stamp \<Rightarrow> ('s, 'o) substrate
    \<Rightarrow> ('s, 'o, event_envelope list) call_result" where
  "list_events_for X s caller stamp S = for_reader X s caller stamp (list_events X s) S"

definition list_events_range_for :: "('s, 'o) runtime_ext \<Rightarrow> event_list_request \<Rightarrow> str option \<Rightarrow> stamp \<Rightarrow> ('s, 'o) substrate
    \<Rightarrow> ('s, 'o, event_envelope list) call_result" where
  "list_events_range_for X q caller stamp S = for_reader X (elr_session_id q) caller stamp (list_events_range X q) S"

definition with_reading_context :: "int \<Rightarrow> protocol_context \<Rightarrow> str \<Rightarrow> (('s, 'o) substrate \<Rightarrow> ('s, 'o, 'a) call_result)
    \<Rightarrow> (str \<Rightarrow> ('s, 'o) substrate \<Rightarrow> ('s, 'o, 'a) call_result) \<Rightarrow> ('s, 'o) substrate \<Rightarrow> ('s, 'o, 'a) call_result" where
  "with_reading_context now_ms c s read read_for S =
     (if is_host_device c then
        (case ensure_host_session_access S now_ms c ''observe'' s of Inl err \<Rightarrow> (Inl err, S) | Inr _ \<Rightarrow> read S)
      else case pc_principal c of
        HostAdmin \<Rightarrow> read S
      | HostDev \<Rightarrow> read S
      | Package p \<Rightarrow> read_for p S
      | p \<Rightarrow> if principal_has_grant (sb_grants S) p ''events.read'' (Some s) then read S else (Inl Principal_Denied, S))"

definition list_events_with_context :: "('s, 'o) runtime_ext \<Rightarrow> int \<Rightarrow> protocol_context \<Rightarrow> str \<Rightarrow> stamp \<Rightarrow> ('s, 'o) substrate
    \<Rightarrow> ('s, 'o, event_envelope list) call_result" where
  "list_events_with_context X now_ms c s stamp S =
     with_reading_context now_ms c s (list_events X s) (\<lambda>p. list_events_for X s (Some p) stamp) S"

definition list_events_range_with_context :: "('s, 'o) runtime_ext \<Rightarrow> int \<Rightarrow> protocol_context \<Rightarrow> event_list_request \<Rightarrow> stamp
    \<Rightarrow> ('s, 'o) substrate \<Rightarrow> ('s, 'o, event_envelope list) call_result" where
  "list_events_range_with_context X now_ms c q stamp S =
     with_reading_context now_ms c (elr_session_id q) (list_events_range X q) (\<lambda>p. list_events_range_for X q (Some p) stamp) S"

section \<open>Sessions and branches\<close>

definition open_session :: "('s, 'o) runtime_ext \<Rightarrow> str \<Rightarrow> int \<Rightarrow> open_session_request \<Rightarrow> stamp \<Rightarrow> ('s, 'o) substrate
    \<Rightarrow> ('s, 'o, session_record) call_result" where
  "open_session X new_id now q stamp S =
     (let session = \<lparr>sr_id = new_id, sr_labels = (if osr_labels q = [] then sb_default_labels S else osr_labels q),
            sr_active_package_set = osr_active_package_set q, sr_principal_scope = None, sr_status = Session_Open,
            sr_created_at = now, sr_updated_at = now, sr_metadata = osr_metadata q\<rparr> in
      and_then_st (append_platform_event X (sr_id session) EVENT_SESSION_OPENED
          (jobj (jfield ''labels'' (jarr JStr (sr_labels session))
             @ jfield ''active_package_set'' (jarr JStr (sr_active_package_set session))
             @ jfield ''principal_scope'' (jnullable JStr (sr_principal_scope session)))) stamp
          (S\<lparr>sb_sessions := bt_insert new_id session (sb_sessions S)\<rparr>))
        (\<lambda>_ S. (Inr session, S)))"

definition close_session :: "('s, 'o) runtime_ext \<Rightarrow> int \<Rightarrow> str \<Rightarrow> stamp \<Rightarrow> ('s, 'o) substrate
    \<Rightarrow> ('s, 'o, event_envelope) call_result" where
  "close_session X now s stamp S =
     (case bt_get (sb_sessions S) s of
        None \<Rightarrow> (Inl Session_Not_Open, S)
      | Some r \<Rightarrow>
          if sr_status r \<noteq> Session_Open then (Inl Session_Is_Closed, S)
          else append_platform_event X s EVENT_SESSION_CLOSED (JObj []) stamp
            (S\<lparr>sb_sessions := bt_insert s (r\<lparr>sr_status := Session_Closed, sr_updated_at := now\<rparr>) (sb_sessions S)\<rparr>))"

definition child_metadata :: "session_record \<Rightarrow> str \<Rightarrow> u64 \<Rightarrow> json" where
  "child_metadata parent parent_session_id forked_from_sequence =
     JObj (bt_insert ''forked_from_sequence'' (jnat (unat forked_from_sequence))
       (bt_insert ''forked_from'' (JStr parent_session_id)
          (case sr_metadata parent of JObj fs \<Rightarrow> fs | _ \<Rightarrow> [])))"

text \<open>The ids, times and stamps are those of the child session and of the branch.\<close>

definition fork_session :: "('s, 'o) runtime_ext \<Rightarrow> str \<times> int \<times> stamp \<Rightarrow> str \<times> int \<times> stamp \<Rightarrow> str \<Rightarrow> u64 \<Rightarrow> json
    \<Rightarrow> ('s, 'o) substrate \<Rightarrow> ('s, 'o, branch_record) call_result" where
  "fork_session X child_env branch_env parent_session_id forked_from_sequence metadata S =
     (case child_env of (child_id, child_now, child_stamp) \<Rightarrow>
      case branch_env of (branch_id, branch_now, branch_stamp) \<Rightarrow>
      case bt_get (sb_sessions S) parent_session_id of
        None \<Rightarrow> (Inl Session_Not_Open, S)
      | Some parent \<Rightarrow>
          and_then_st (open_session X child_id child_now \<lparr>osr_labels = sr_labels parent,
              osr_active_package_set = sr_active_package_set parent,
              osr_metadata = child_metadata parent parent_session_id forked_from_sequence\<rparr> child_stamp S) (\<lambda>child S.
            let branch = \<lparr>br_id = branch_id, br_parent_session_id = parent_session_id, br_child_session_id = sr_id child,
                  br_forked_from_sequence = forked_from_sequence, br_created_at = branch_now, br_metadata = metadata\<rparr> in
            and_then_st (append_platform_event X parent_session_id EVENT_SESSION_FORKED (branch_value (rx_ext X) branch) branch_stamp
                (S\<lparr>sb_branches := bt_insert branch_id branch (sb_branches S)\<rparr>))
              (\<lambda>_ S. (Inr branch, S))))"

definition list_branches :: "(str, branch_record) btree_map \<Rightarrow> str \<Rightarrow> branch_record list" where
  "list_branches bs s = sort_key br_created_at
     (filter (\<lambda>b. br_parent_session_id b = s \<or> br_child_session_id b = s) (map snd bs))"

section \<open>Projections\<close>

definition projection_register :: "projection_definition \<Rightarrow> ('s, 'o) substrate \<Rightarrow> ('s, 'o, projection_definition) call_result" where
  "projection_register d S = (Inr d, S\<lparr>sb_projections := bt_insert (pj_id d) d (sb_projections S)\<rparr>)"

definition projection_session :: "str \<Rightarrow> str" where
  "projection_session i = ''platform_projection_'' @ replace_char (CHR ''/'') (CHR ''_'') i"

definition projection_state :: "event_envelope list \<Rightarrow> json" where
  "projection_state es = jobj (jfield ''event_count'' (jnat (length es))
     @ jfield ''last_sequence'' (jnullable (\<lambda>e. jnat (unat (ev_sequence e))) (if es = [] then None else Some (last es))))"

definition projection_rebuild :: "('s, 'o) runtime_ext \<Rightarrow> str \<Rightarrow> stamp \<Rightarrow> ('s, 'o) substrate
    \<Rightarrow> ('s, 'o, projection_definition) call_result" where
  "projection_rebuild X i stamp S =
     (case bt_get (sb_projections S) i of
        None \<Rightarrow> (Inl Projection_Not_Found, S)
      | Some p \<Rightarrow>
          and_then_st (list_events_range X \<lparr>elr_session_id = pj_session_id p, elr_after_sequence = None, elr_limit = None,
              elr_kind_prefix = pj_source_kind_prefix p, elr_writer_package_id = None\<rparr> S) (\<lambda>es S.
            let p = p\<lparr>pj_state := projection_state es\<rparr> in
            and_then_st (append_platform_event X (projection_session (pj_id p)) EVENT_PROJECTION_UPDATED (projection_value p) stamp
                (S\<lparr>sb_projections := bt_insert i p (sb_projections S)\<rparr>))
              (\<lambda>_ S. (Inr p, S))))"

definition projection_get :: "('s, 'o) substrate \<Rightarrow> str \<Rightarrow> substrate_error + projection_definition" where
  "projection_get S i = ok_or (bt_get (sb_projections S) i) Projection_Not_Found"

definition projection_list :: "('s, 'o) substrate \<Rightarrow> projection_definition list" where
  "projection_list S = sort_key pj_id (map snd (sb_projections S))"

section \<open>Granting and revoking\<close>

definition permission_session :: "str \<Rightarrow> str" where
  "permission_session i = ''platform_permission_'' @ i"

text \<open>Two sections each: the table of grants under its lock, then the event.\<close>

definition grant_insert :: "permission_grant_record \<Rightarrow> ('s, 'o) substrate \<Rightarrow> ('s, 'o) substrate" where
  "grant_insert g S = S\<lparr>sb_grants := bt_insert (gr_id g) g (sb_grants S)\<rparr>"

definition grant_event :: "('s, 'o) runtime_ext \<Rightarrow> permission_grant_record \<Rightarrow> stamp \<Rightarrow> ('s, 'o) substrate
    \<Rightarrow> ('s, 'o, permission_grant_record) call_result" where
  "grant_event X g stamp S =
     and_then_st (append_platform_event X (permission_session (gr_id g)) EVENT_PERMISSION_GRANTED (grant_value (rx_ext X) g) stamp S)
       (\<lambda>_ S. (Inr g, S))"

definition grant_permission :: "('s, 'o) runtime_ext \<Rightarrow> str \<Rightarrow> int \<Rightarrow> protocol_principal \<Rightarrow> str \<Rightarrow> str option \<Rightarrow> str option \<Rightarrow> stamp
    \<Rightarrow> ('s, 'o) substrate \<Rightarrow> ('s, 'o, permission_grant_record) call_result" where
  "grant_permission X new_id now p permission scope reason stamp S =
     (let g = \<lparr>gr_id = new_id, gr_principal = p, gr_permission = permission, gr_scope = scope, gr_granted_at = now,
            gr_revoked_at = None, gr_reason = reason\<rparr> in
      grant_event X g stamp (grant_insert g S))"

definition revoke_mark :: "int \<Rightarrow> str \<Rightarrow> ('s, 'o) substrate \<Rightarrow> ('s, 'o, permission_grant_record) call_result" where
  "revoke_mark now i S =
     (case bt_get (sb_grants S) i of
        None \<Rightarrow> (Inl Grant_Not_Found, S)
      | Some g \<Rightarrow> (let g = g\<lparr>gr_revoked_at := Some now\<rparr> in (Inr g, S\<lparr>sb_grants := bt_insert i g (sb_grants S)\<rparr>)))"

definition revoke_event :: "('s, 'o) runtime_ext \<Rightarrow> permission_grant_record \<Rightarrow> stamp \<Rightarrow> ('s, 'o) substrate
    \<Rightarrow> ('s, 'o, permission_grant_record) call_result" where
  "revoke_event X g stamp S =
     and_then_st (append_platform_event X (permission_session (gr_id g)) EVENT_PERMISSION_REVOKED (grant_value (rx_ext X) g) stamp S)
       (\<lambda>_ S. (Inr g, S))"

definition revoke_permission :: "('s, 'o) runtime_ext \<Rightarrow> int \<Rightarrow> str \<Rightarrow> stamp \<Rightarrow> ('s, 'o) substrate
    \<Rightarrow> ('s, 'o, permission_grant_record) call_result" where
  "revoke_permission X now i stamp S = and_then_st (revoke_mark now i S) (\<lambda>g. revoke_event X g stamp)"

end
