(* ===== verification/Assets.thy ===== *)
theory Assets
  imports Substrate
begin

text \<open>
  Assets (\<open>runtime/assets.rs\<close>) and what the runtime rebuilds of its substrate from the events at a
  start (\<open>hydrate_substrate_from_events\<close> of \<open>runtime/mod.rs\<close>). Artifacts of an installation's state are
  not modelled.
\<close>

section \<open>Content\<close>

definition FNV1A_64_OFFSET_BASIS :: u64 where "FNV1A_64_OFFSET_BASIS = 0xcbf29ce484222325"

definition FNV1A_64_PRIME :: u64 where "FNV1A_64_PRIME = 0x00000100000001b3"

definition fnv1a_64 :: "str \<Rightarrow> u64" where
  "fnv1a_64 data = fold (\<lambda>c hash. xor hash (word_of_nat (byte c)) * FNV1A_64_PRIME) data FNV1A_64_OFFSET_BASIS"

definition hex_char :: "nat \<Rightarrow> char" where
  "hex_char n = ''0123456789abcdef'' ! n"

fun lower_hex :: "nat \<Rightarrow> nat \<Rightarrow> str" where
  "lower_hex 0 n = []"
| "lower_hex (Suc digits) n = lower_hex digits (n div 16) @ [hex_char (n mod 16)]"

definition legacy_content_address :: "str \<Rightarrow> str" where
  "legacy_content_address content = ''fnv1a64:'' @ lower_hex 16 (unat (fnv1a_64 content))"

definition content_address :: "ext \<Rightarrow> str \<Rightarrow> str" where
  "content_address E content = sha256_digest E content"

definition standard_asset_metadata :: "str \<Rightarrow> str \<Rightarrow> json" where
  "standard_asset_metadata origin_package_id disclosure = jobj
     (jfield ''content_address_scheme'' (JStr ''sha256'')
      @ jfield ''provenance'' (jobj (jfield ''origin_package_id'' (JStr origin_package_id)))
      @ jfield ''disclosure'' (JStr disclosure) @ jfield ''source_refs'' (JArr []) @ jfield ''derived_refs'' (JArr [])
      @ jfield ''large_output_policy'' (JStr ''object_ref''))"

definition hex_nibble :: "char \<Rightarrow> substrate_error + nat" where
  "hex_nibble c =
     (if CHR ''0'' \<le> c \<and> c \<le> CHR ''9'' then Inr (byte c - byte (CHR ''0''))
      else if CHR ''a'' \<le> c \<and> c \<le> CHR ''f'' then Inr (byte c - byte (CHR ''a'') + 10)
      else if CHR ''A'' \<le> c \<and> c \<le> CHR ''F'' then Inr (byte c - byte (CHR ''A'') + 10)
      else Inl Invalid_Hex)"

fun decode_pairs :: "str \<Rightarrow> substrate_error + str" where
  "decode_pairs (h # l # rest) =
     and_then (hex_nibble h) (\<lambda>high. and_then (hex_nibble l) (\<lambda>low.
       and_then (decode_pairs rest) (\<lambda>bytes. Inr (char_of (high * 16 + low) # bytes))))"
| "decode_pairs _ = Inr []"

definition decode_hex :: "str \<Rightarrow> substrate_error + str" where
  "decode_hex content = (if length content mod 2 \<noteq> 0 then Inl Invalid_Hex else decode_pairs content)"

definition encode_hex :: "str \<Rightarrow> str" where
  "encode_hex bytes = concat (map (\<lambda>c. [hex_char (byte c div 16), hex_char (byte c mod 16)]) bytes)"

definition decode_content :: "str \<Rightarrow> asset_content_encoding \<Rightarrow> substrate_error + str" where
  "decode_content content encoding = (case encoding of Utf8 \<Rightarrow> Inr content | Hex \<Rightarrow> decode_hex content)"

section \<open>Requests\<close>

datatype object_put_scope = InstallationCreate str | InstallationUpdate str str

record exact_artifact_upload =
  xu_descriptor :: artifact_descriptor
  xu_content_encoding :: asset_content_encoding
  xu_scope :: object_put_scope

definition exact_upload :: "artifact_descriptor \<Rightarrow> object_put_scope \<Rightarrow> exact_artifact_upload" where
  "exact_upload d scope = \<lparr>xu_descriptor = d, xu_content_encoding = Hex, xu_scope = scope\<rparr>"

record asset_put_request =
  apr_origin_package_id :: "str option"
  apr_mime :: str
  apr_content :: str
  apr_metadata :: json
  apr_artifact :: "exact_artifact_upload option"

record object_put_response =
  opr_asset :: "asset_record option"
  opr_descriptor :: artifact_descriptor

record asset_get_response =
  agr_record :: asset_record
  agr_content :: str

definition asset_value :: "ext \<Rightarrow> asset_record \<Rightarrow> json" where
  "asset_value E a = jobj (jfield ''id'' (JStr (as_id a)) @ jfield ''origin_package_id'' (JStr (as_origin_package_id a))
     @ jfield ''mime'' (JStr (as_mime a)) @ jfield ''hash'' (JStr (as_hash a))
     @ jfield ''size_bytes'' (jnat (unat (as_size_bytes a))) @ jfield ''created_at'' (jtime E (as_created_at a))
     @ jfield ''metadata'' (as_metadata a) @ jopt ''descriptor'' artifact_descriptor_value (as_descriptor a))"

definition artifact_references :: "json \<Rightarrow> str list" where
  "artifact_references metadata = List.map_filter as_str (concat
     (List.map_filter (\<lambda>f. Option.bind (field metadata f) as_array) [''source_refs'', ''derived_refs'']))"

definition asset_annotations :: "str \<Rightarrow> str \<Rightarrow> json \<Rightarrow> (str, json) btree_map" where
  "asset_annotations asset_id origin_package_id metadata = bt_of_list
     [(''asset_id'', JStr asset_id), (''origin_package_id'', JStr origin_package_id), (''asset_metadata'', metadata)]"

section \<open>Operations\<close>

text \<open>A call of the object store on behalf of the runtime.\<close>

definition on_objects :: "('o \<Rightarrow> (object_error + 'a) \<times> 'o) \<Rightarrow> ('s, 'o) substrate \<Rightarrow> ('s, 'o, 'a) call_result" where
  "on_objects f S = (case f (sb_objects S) of (r, st) \<Rightarrow> (case r of Inl e \<Rightarrow> Inl (Object_Failed e) | Inr x \<Rightarrow> Inr x, S\<lparr>sb_objects := st\<rparr>))"

definition encoding_value :: "asset_content_encoding \<Rightarrow> json" where
  "encoding_value e = JStr (case e of Utf8 \<Rightarrow> ''utf8'' | Hex \<Rightarrow> ''hex'')"

definition encoding_from_value :: "json \<Rightarrow> asset_content_encoding option" where
  "encoding_from_value v = (if v = JStr ''utf8'' then Some Utf8 else if v = JStr ''hex'' then Some Hex else None)"

definition asset_session :: "str \<Rightarrow> str" where
  "asset_session i = ''platform_asset_'' @ i"

definition put_ordinary_asset :: "('s, 'o) runtime_ext \<Rightarrow> str \<Rightarrow> int \<Rightarrow> asset_put_request \<Rightarrow> stamp \<Rightarrow> ('s, 'o) substrate
    \<Rightarrow> ('s, 'o, asset_record) call_result" where
  "put_ordinary_asset X asset_id now q stamp S =
     (let origin = (case apr_origin_package_id q of None \<Rightarrow> PLATFORM_RUNTIME_ID | Some p \<Rightarrow> p) in
      and_then_st (on_objects (commit_artifact (rx_objects X)
          \<lparr>acr_artifact_type_uri = GENERIC_BLOB_ARTIFACT_TYPE_URI, acr_media_type = apr_mime q, acr_bytes = apr_content q,
           acr_references = artifact_references (apr_metadata q),
           acr_annotations = asset_annotations asset_id origin (apr_metadata q)\<rparr>) S) (\<lambda>d S.
        let a = \<lparr>as_id = asset_id, as_origin_package_id = origin, as_mime = apr_mime q, as_hash = ad_digest d,
              as_size_bytes = ad_size_bytes d, as_created_at = now, as_metadata = apr_metadata q, as_descriptor = Some d\<rparr> in
        and_then_st (append_platform_event_with_metadata X (asset_session asset_id) EVENT_ASSET_PUT (asset_value (rx_ext X) a)
            (jobj (jfield ''artifact_digest'' (JStr (ad_digest d)) @ jfield ''size_bytes'' (jnat (unat (ad_size_bytes d)))
               @ jfield ''content_included'' (JBool False) @ jfield ''content_encoding'' (encoding_value Utf8))) stamp S) (\<lambda>_ S.
          (Inr a, S\<lparr>sb_assets := bt_insert asset_id \<lparr>sa_record = a, sa_content_encoding = Utf8\<rparr> (sb_assets S)\<rparr>))))"

definition put_exact_artifact :: "('s, 'o) runtime_ext \<Rightarrow> asset_put_request \<Rightarrow> exact_artifact_upload \<Rightarrow> ('s, 'o) substrate
    \<Rightarrow> ('s, 'o, artifact_descriptor) call_result" where
  "put_exact_artifact X q upload S =
     (let d = xu_descriptor upload in
      if \<not> is_ok (validate_artifact_descriptor (rx_ext X) d) then (Inl Descriptor_Invalid, S)
      else if apr_mime q \<noteq> ad_media_type d then (Inl Media_Mismatch, S)
      else case decode_content (apr_content q) (xu_content_encoding upload) of
        Inl e \<Rightarrow> (Inl e, S)
      | Inr bytes \<Rightarrow>
          if byte_len bytes \<noteq> ad_size_bytes d then (Inl Size_Mismatch, S)
          else if sha256_digest (rx_ext X) bytes \<noteq> ad_digest d then (Inl Digest_Mismatch, S)
          else and_then_st (on_objects (os_put (rx_objects X) bytes) S) (\<lambda>info S.
            if oi_digest info = ad_digest d \<and> oi_size_bytes info = ad_size_bytes d then (Inr d, S) else (Inl Digest_Mismatch, S)))"

definition put_object :: "('s, 'o) runtime_ext \<Rightarrow> str \<Rightarrow> int \<Rightarrow> asset_put_request \<Rightarrow> stamp \<Rightarrow> ('s, 'o) substrate
    \<Rightarrow> ('s, 'o, object_put_response) call_result" where
  "put_object X asset_id now q stamp S =
     (if has_findings (scan_value_for_raw_secrets (rx_ext X) (apr_metadata q) ''metadata'') then (Inl Raw_Secret_Found, S)
      else case apr_artifact q of
        Some upload \<Rightarrow> and_then_st (put_exact_artifact X (q\<lparr>apr_artifact := None\<rparr>) upload S)
          (\<lambda>d S. (Inr \<lparr>opr_asset = None, opr_descriptor = d\<rparr>, S))
      | None \<Rightarrow> and_then_st (put_ordinary_asset X asset_id now q stamp S) (\<lambda>a S.
          (case as_descriptor a of
             None \<Rightarrow> (Inl No_Descriptor, S)
           | Some d \<Rightarrow> (Inr \<lparr>opr_asset = Some a, opr_descriptor = d\<rparr>, S))))"

definition put_asset :: "('s, 'o) runtime_ext \<Rightarrow> str \<Rightarrow> int \<Rightarrow> asset_put_request \<Rightarrow> stamp \<Rightarrow> ('s, 'o) substrate
    \<Rightarrow> ('s, 'o, asset_record) call_result" where
  "put_asset X asset_id now q stamp S =
     (if apr_artifact q \<noteq> None then (Inl Exact_Upload_Required, S)
      else and_then_st (put_object X asset_id now q stamp S) (\<lambda>r S. (ok_or (opr_asset r) No_Asset, S)))"

definition get_asset :: "('s, 'o) runtime_ext \<Rightarrow> str \<Rightarrow> ('s, 'o) substrate \<Rightarrow> ('s, 'o, asset_get_response) call_result" where
  "get_asset X asset_id S =
     (case bt_get (sb_assets S) asset_id of
        None \<Rightarrow> (Inl Asset_Not_Found, S)
      | Some stored \<Rightarrow>
          (case as_descriptor (sa_record stored) of
             None \<Rightarrow> (Inl No_Descriptor, S)
           | Some d \<Rightarrow> and_then_st (on_objects (read_artifact (rx_objects X) d) S) (\<lambda>bytes S.
               (case sa_content_encoding stored of
                  Hex \<Rightarrow> (Inr \<lparr>agr_record = sa_record stored, agr_content = encode_hex bytes\<rparr>, S)
                | Utf8 \<Rightarrow>
                    if utf8_valid bytes then (Inr \<lparr>agr_record = sa_record stored, agr_content = bytes\<rparr>, S)
                    else (Inl Invalid_Utf8, S)))))"

definition list_assets :: "('s, 'o) substrate \<Rightarrow> asset_record list" where
  "list_assets S = sort_key as_created_at (map (\<lambda>(_, stored). sa_record stored) (sb_assets S))"

section \<open>Hydration\<close>

definition legacy_annotations :: "event_envelope \<Rightarrow> asset_record \<Rightarrow> (str, json) btree_map" where
  "legacy_annotations e a = fold (\<lambda>(k, v). bt_insert k v)
     [(''legacy_asset_id'', JStr (as_id a)), (''legacy_hash'', JStr (as_hash a)), (''legacy_event_id'', JStr (ev_id e)),
      (''legacy_event_sequence'', jnat (unat (ev_sequence e))), (''legacy_event_session_id'', JStr (ev_session_id e))]
     (asset_annotations (as_id a) (as_origin_package_id a) (as_metadata a))"

text \<open>An event that still carries the content: it is moved to the object store.\<close>

definition migrate_legacy_asset :: "('s, 'o) runtime_ext \<Rightarrow> event_envelope \<Rightarrow> asset_record \<Rightarrow> str \<Rightarrow> ('s, 'o) substrate
    \<Rightarrow> ('s, 'o, stored_asset) call_result" where
  "migrate_legacy_asset X e a content S =
     and_then_st (on_objects (commit_artifact (rx_objects X)
         \<lparr>acr_artifact_type_uri = GENERIC_BLOB_ARTIFACT_TYPE_URI, acr_media_type = as_mime a, acr_bytes = content,
          acr_references = artifact_references (as_metadata a) @ [''urn:plurora:event:'' @ ev_id e],
          acr_annotations = legacy_annotations e a\<rparr>) S) (\<lambda>d S.
       (Inr \<lparr>sa_record = a\<lparr>as_hash := ad_digest d, as_size_bytes := ad_size_bytes d, as_descriptor := Some d\<rparr>,
             sa_content_encoding = Utf8\<rparr>, S))"

definition asset_event_descriptor :: "asset_record \<Rightarrow> substrate_error + artifact_descriptor" where
  "asset_event_descriptor a =
     (case as_descriptor a of
        Some d \<Rightarrow> Inr d
      | None \<Rightarrow>
          if starts_with (as_hash a) ''sha256:'' then
            Inr \<lparr>ad_artifact_type_uri = GENERIC_BLOB_ARTIFACT_TYPE_URI, ad_media_type = as_mime a, ad_digest = as_hash a,
              ad_size_bytes = as_size_bytes a, ad_references = artifact_references (as_metadata a),
              ad_annotations = asset_annotations (as_id a) (as_origin_package_id a) (as_metadata a)\<rparr>
          else Inl Legacy_Digest)"

definition check_asset_descriptor :: "asset_record \<Rightarrow> artifact_descriptor \<Rightarrow> substrate_error + unit" where
  "check_asset_descriptor a d =
     (if ad_digest d \<noteq> as_hash a then Inl Digest_Mismatch
      else if ad_size_bytes d \<noteq> as_size_bytes a then Inl Size_Mismatch
      else if ad_media_type d \<noteq> as_mime a then Inl Media_Mismatch else Inr ())"

definition hydrate_asset_event :: "('s, 'o) runtime_ext \<Rightarrow> event_envelope \<Rightarrow> ('s, 'o) substrate \<Rightarrow> ('s, 'o, stored_asset) call_result" where
  "hydrate_asset_event X e S =
     (case rx_asset_from_value X (ev_payload e) of
        None \<Rightarrow> (Inl Invalid_Record, S)
      | Some a \<Rightarrow>
          (case (case field (ev_metadata e) ''content_encoding'' of
                   None \<Rightarrow> Inr Utf8 | Some v \<Rightarrow> ok_or (encoding_from_value v) Invalid_Encoding) of
             Inl err \<Rightarrow> (Inl err, S)
           | Inr encoding \<Rightarrow>
               (case Option.bind (field (ev_metadata e) ''content'') as_str of
                  Some content \<Rightarrow> migrate_legacy_asset X e a content S
                | None \<Rightarrow>
                    (case and_then (asset_event_descriptor a) (\<lambda>d. and_then (check_asset_descriptor a d) (\<lambda>_. Inr d)) of
                       Inl err \<Rightarrow> (Inl err, S)
                     | Inr d \<Rightarrow> and_then_st (on_objects (verify_artifact (rx_objects X) d) S) (\<lambda>_ S.
                         (Inr \<lparr>sa_record = a\<lparr>as_descriptor := Some d\<rparr>, sa_content_encoding = encoding\<rparr>, S))))))"

record hydrated_substrate =
  hy_assets :: "(str, stored_asset) btree_map"
  hy_branches :: "(str, branch_record) btree_map"
  hy_projections :: "(str, projection_definition) btree_map"
  hy_grants :: "(str, permission_grant_record) btree_map"

definition hydrate_grant :: "('s, 'o) runtime_ext \<Rightarrow> event_envelope \<Rightarrow> (str, permission_grant_record) btree_map
    \<Rightarrow> substrate_error + (str, permission_grant_record) btree_map" where
  "hydrate_grant X e gs = and_then (ok_or (rx_grant_from_value X (ev_payload e)) Invalid_Record) (\<lambda>g. Inr (bt_insert (gr_id g) g gs))"

definition hydrate_record :: "('s, 'o) runtime_ext \<Rightarrow> event_envelope \<Rightarrow> hydrated_substrate \<Rightarrow> substrate_error + hydrated_substrate" where
  "hydrate_record X e h =
     (if ev_kind e = EVENT_SESSION_FORKED then
        and_then (ok_or (rx_branch_from_value X (ev_payload e)) Invalid_Record) (\<lambda>b.
          Inr (h\<lparr>hy_branches := bt_insert (br_id b) b (hy_branches h)\<rparr>))
      else if ev_kind e = EVENT_PROJECTION_UPDATED then
        and_then (ok_or (rx_projection_from_value X (ev_payload e)) Invalid_Record) (\<lambda>p.
          Inr (h\<lparr>hy_projections := bt_insert (pj_id p) p (hy_projections h)\<rparr>))
      else if ev_kind e = EVENT_PERMISSION_GRANTED \<or> ev_kind e = EVENT_PERMISSION_REVOKED then
        and_then (hydrate_grant X e (hy_grants h)) (\<lambda>gs. Inr (h\<lparr>hy_grants := gs\<rparr>))
      else Inr h)"

definition hydrate_event :: "('s, 'o) runtime_ext \<Rightarrow> event_envelope \<Rightarrow> hydrated_substrate \<Rightarrow> ('s, 'o) substrate
    \<Rightarrow> ('s, 'o, hydrated_substrate) call_result" where
  "hydrate_event X e h S =
     (if ev_kind e = EVENT_ASSET_PUT then
        and_then_st (hydrate_asset_event X e S) (\<lambda>stored S.
          (Inr (h\<lparr>hy_assets := bt_insert (as_id (sa_record stored)) stored (hy_assets h)\<rparr>), S))
      else (hydrate_record X e h, S))"

fun build_substrate_state :: "('s, 'o) runtime_ext \<Rightarrow> event_envelope list \<Rightarrow> hydrated_substrate \<Rightarrow> ('s, 'o) substrate
    \<Rightarrow> ('s, 'o, hydrated_substrate) call_result" where
  "build_substrate_state X [] h S = (Inr h, S)"
| "build_substrate_state X (e # es) h S = and_then_st (hydrate_event X e h S) (build_substrate_state X es)"

definition no_substrate :: hydrated_substrate where
  "no_substrate = \<lparr>hy_assets = [], hy_branches = [], hy_projections = [], hy_grants = []\<rparr>"

definition apply_substrate_state :: "hydrated_substrate \<Rightarrow> ('s, 'o) substrate \<Rightarrow> ('s, 'o) substrate" where
  "apply_substrate_state h S = S\<lparr>sb_assets := hy_assets h, sb_branches := hy_branches h,
     sb_projections := hy_projections h, sb_grants := hy_grants h\<rparr>"

definition bt_extend :: "('k::linorder, 'v) btree_map \<Rightarrow> ('k, 'v) btree_map \<Rightarrow> ('k, 'v) btree_map" where
  "bt_extend m m' = fold (\<lambda>(k, v). bt_insert k v) m' m"

definition merge_substrate_state :: "hydrated_substrate \<Rightarrow> ('s, 'o) substrate \<Rightarrow> ('s, 'o) substrate" where
  "merge_substrate_state h S = S\<lparr>sb_assets := bt_extend (sb_assets S) (hy_assets h),
     sb_branches := bt_extend (sb_branches S) (hy_branches h),
     sb_projections := bt_extend (sb_projections S) (hy_projections h), sb_grants := bt_extend (sb_grants S) (hy_grants h)\<rparr>"

definition hydrate_substrate_from_events :: "('s, 'o) runtime_ext \<Rightarrow> ('s, 'o) substrate \<Rightarrow> ('s, 'o, unit) call_result" where
  "hydrate_substrate_from_events X S =
     (case rx_step X List_All (sb_store S) of
        (Events es, st) \<Rightarrow>
          and_then_st (build_substrate_state X es no_substrate (S\<lparr>sb_store := st\<rparr>)) (\<lambda>h S. (Inr (), apply_substrate_state h S))
      | (_, st) \<Rightarrow> (Inl Store_Failed, S\<lparr>sb_store := st\<rparr>))"

end
