(* ===== verification/Substrate_Props.thy ===== *)
theory Substrate_Props
  imports Assets
begin

text \<open>
  The calls on the substrate as one sequence, what they write to the event log, and what a start of
  the runtime rebuilds from it. The event store is the log that both stores of the runtime refine
  (\<open>Event_Spine\<close>).
\<close>

section \<open>Calls\<close>

datatype substrate_call =
    Call_Open str int open_session_request stamp
  | Call_Close int str stamp
  | Call_Fork "str \<times> int \<times> stamp" "str \<times> int \<times> stamp" str u64 json
  | Call_Register projection_definition
  | Call_Rebuild str stamp
  | Call_Grant str int protocol_principal str "str option" "str option" stamp
  | Call_Revoke int str stamp
  | Call_Append int protocol_context append_event_request stamp
  | Call_List int protocol_context event_list_request stamp
  | Call_Put str int asset_put_request stamp
  | Call_Get str
  | Packages_Change "str \<rightharpoonup> package_view" hook_registry fabric

datatype substrate_reply = Ok_Reply | Grant_Reply permission_grant_record | Error_Reply substrate_error

definition reply_with :: "('a \<Rightarrow> substrate_reply) \<Rightarrow> ('s, 'o, 'a) call_result \<Rightarrow> substrate_reply \<times> ('s, 'o) substrate" where
  "reply_with f r = (case fst r of Inl e \<Rightarrow> Error_Reply e | Inr x \<Rightarrow> f x, snd r)"

abbreviation ok_reply :: "('s, 'o, 'a) call_result \<Rightarrow> substrate_reply \<times> ('s, 'o) substrate" where
  "ok_reply \<equiv> reply_with (\<lambda>_. Ok_Reply)"

fun perform :: "('s, 'o) runtime_ext \<Rightarrow> substrate_call \<Rightarrow> ('s, 'o) substrate \<Rightarrow> substrate_reply \<times> ('s, 'o) substrate" where
  "perform X (Call_Open i now q t) S = ok_reply (open_session X i now q t S)"
| "perform X (Call_Close now s t) S = ok_reply (close_session X now s t S)"
| "perform X (Call_Fork c b s n m) S = ok_reply (fork_session X c b s n m S)"
| "perform X (Call_Register d) S = ok_reply (projection_register d S)"
| "perform X (Call_Rebuild i t) S = ok_reply (projection_rebuild X i t S)"
| "perform X (Call_Grant i now p permission scope reason t) S =
     reply_with Grant_Reply (grant_permission X i now p permission scope reason t S)"
| "perform X (Call_Revoke now i t) S = reply_with Grant_Reply (revoke_permission X now i t S)"
| "perform X (Call_Append now c q t) S = ok_reply (append_event_with_context X now c q t S)"
| "perform X (Call_List now c q t) S = ok_reply (list_events_range_with_context X now c q t S)"
| "perform X (Call_Put i now q t) S = ok_reply (put_object X i now q t S)"
| "perform X (Call_Get i) S = ok_reply (get_asset X i S)"
| "perform X (Packages_Change ps hs f) S = (Ok_Reply, S\<lparr>sb_packages := ps, sb_hooks := hs, sb_fabric := f\<rparr>)"

fun perform_all :: "('s, 'o) runtime_ext \<Rightarrow> substrate_call list \<Rightarrow> ('s, 'o) substrate
    \<Rightarrow> substrate_reply list \<times> ('s, 'o) substrate" where
  "perform_all X [] S = ([], S)"
| "perform_all X (c # cs) S = (let (r, S1) = perform X c S; (rs, S2) = perform_all X cs S1 in (r # rs, S2))"

text \<open>The stamps that a call can consume, in the order in which it does.\<close>

fun call_stamps :: "substrate_call \<Rightarrow> stamp list" where
  "call_stamps (Call_Open i now q t) = [t]"
| "call_stamps (Call_Close now s t) = [t]"
| "call_stamps (Call_Fork c b s n m) = [snd (snd c), snd (snd b)]"
| "call_stamps (Call_Rebuild i t) = [t]"
| "call_stamps (Call_Grant i now p permission scope reason t) = [t]"
| "call_stamps (Call_Revoke now i t) = [t]"
| "call_stamps (Call_Append now c q t) = [t]"
| "call_stamps (Call_List now c q t) = [t]"
| "call_stamps (Call_Put i now q t) = [t]"
| "call_stamps _ = []"

section \<open>What a call appends\<close>

type_synonym event_log = "event_envelope list"

fun numbered :: "event_log \<Rightarrow> event_log \<Rightarrow> bool" where
  "numbered log [] = True"
| "numbered log (e # es) = ((\<forall>x\<in>set log. ev_session_id x = ev_session_id e \<longrightarrow> ev_sequence x < ev_sequence e) \<and> numbered (log @ [e]) es)"

definition stamp_of :: "event_envelope \<Rightarrow> stamp" where
  "stamp_of e = (ev_id e, ev_timestamp e)"

definition logged :: "(event_envelope \<Rightarrow> bool) \<Rightarrow> stamp list \<Rightarrow> event_log \<Rightarrow> event_log \<Rightarrow> bool" where
  "logged P stamps log log' \<longleftrightarrow> (\<exists>es. log' = log @ es \<and> list_all P es \<and> subseq (map stamp_of es) stamps \<and> numbered log es)"

lemma numbered_append: "numbered log (es @ fs) \<longleftrightarrow> numbered log es \<and> numbered (log @ es) fs"
  by (induction es arbitrary: log) auto

lemma logged_refl [simp]: "logged P stamps log log"
  unfolding logged_def by (rule exI [of _ "[]"]) simp

lemma logged_trans: "logged P a l m \<Longrightarrow> logged P b m n \<Longrightarrow> logged P (a @ b) l n"
  unfolding logged_def
  by (elim exE conjE, rule_tac x = "es @ esa" in exI) (simp add: numbered_append list_emb_append_mono)

lemma logged_more: "logged P a l m \<Longrightarrow> (\<And>e. P e \<Longrightarrow> Q e) \<Longrightarrow> subseq a b \<Longrightarrow> logged Q b l m"
  unfolding logged_def by (elim exE conjE, rule exI, intro conjI) (auto simp: list_all_iff intro: subseq_order.order_trans)

definition quiet :: "(event_envelope \<Rightarrow> bool) \<Rightarrow> stamp list \<Rightarrow> (event_log, 'o) substrate \<Rightarrow> (event_log, 'o) substrate \<Rightarrow> bool" where
  "quiet P stamps S S' \<longleftrightarrow> logged P stamps (sb_store S) (sb_store S') \<and> sb_grants S' = sb_grants S"

lemma quiet_refl [simp]: "quiet P stamps S S"
  by (simp add: quiet_def)

lemma quiet_more: "quiet P a S S' \<Longrightarrow> (\<And>e. P e \<Longrightarrow> Q e) \<Longrightarrow> subseq a b \<Longrightarrow> quiet Q b S S'"
  by (auto simp: quiet_def intro: logged_more)

lemma and_then_quiet:
  assumes "quiet P a S (snd r)" and "\<And>x S1. quiet P b S1 (snd (f x S1))"
  shows "quiet P (a @ b) S (snd (and_then_st r f))"
proof (cases "fst r")
  case (Inl e)
  moreover have "subseq a (a @ b)" using list_emb_append_mono [of "(=)" a a "[]" b] by simp
  ultimately show ?thesis using quiet_more [OF assms(1), of P "a @ b"] by (simp add: and_then_st_snd)
next
  case (Inr x)
  then show ?thesis using logged_trans assms unfolding quiet_def by (fastforce simp: and_then_st_snd)
qed

lemmas and_then_quiet_fst = and_then_quiet [where b = "[]", simplified]
lemmas and_then_quiet_snd = and_then_quiet [where a = "[]", simplified]

lemma spine_append_logged:
  assumes "spine_step (Append_With_Sequence s d) log = (r, log')" and "\<And>n. P (envelope s n d)"
  shows "logged P [(ed_id d, ed_timestamp d)] log log'"
proof (cases "log' = log")
  case False
  then obtain n where n: "spine_next s log = Inr n" and log': "log' = log @ [envelope s n d]"
    using assms(1) by (auto simp: spine_put_def spine_append_def split: sum.splits if_splits)
  have "numbered log [envelope s n d]" using spine_next_above [OF n] by (simp add: envelope_def)
  then show ?thesis unfolding logged_def log' using assms(2)
    by (intro exI [of _ "[envelope s n d]"]) (simp add: stamp_of_def envelope_def)
qed simp

section \<open>The methods\<close>

lemma store_append_quiet:
  assumes "rx_step X = spine_step" and "\<And>n. P (envelope s n d)"
  shows "quiet P [(ed_id d, ed_timestamp d)] S (snd (store_append X s d S))"
  using spine_append_logged [of s d "sb_store S" _ _ P] assms
  by (cases "spine_step (Append_With_Sequence s d) (sb_store S)")
     (auto simp: store_append_def quiet_def simp del: spine_step.simps split: spine_reply.split)

definition event_of :: "append_event_request \<Rightarrow> event_envelope \<Rightarrow> bool" where
  "event_of q e \<longleftrightarrow> writer_owns_kind e \<and> ev_session_id e = aer_session_id q \<and> ev_kind e = aer_kind q
     \<and> ev_writer_package_id e = aer_writer_package_id q \<and> ev_payload e = aer_payload q"

lemma append_event_unchecked_quiet:
  assumes "rx_step X = spine_step"
  shows "quiet (event_of q) [stamp] S (snd (append_event_unchecked X q stamp S))"
proof (cases "writer_owns_kind (prelim q (snd stamp))")
  case True
  let ?d = "\<lparr>ed_id = fst stamp, ed_timestamp = snd stamp, ed_writer_package_id = aer_writer_package_id q, ed_kind = aer_kind q,
     ed_schema_version = 1, ed_payload = aer_payload q, ed_metadata = aer_metadata q\<rparr>"
  have "event_of q (envelope (aer_session_id q) n ?d)" for n
    using True by (simp add: event_of_def envelope_def writer_owns_kind_def prelim_def split: if_splits)
  from store_append_quiet [OF assms, of "event_of q" "aer_session_id q" ?d S, OF this]
  show ?thesis by (simp add: append_event_unchecked_def Let_def split: sum.split)
qed (simp add: append_event_unchecked_def)

text \<open>An event of the runtime of one of these kinds.\<close>

definition platform_event :: "str set \<Rightarrow> event_envelope \<Rightarrow> bool" where
  "platform_event kinds e \<longleftrightarrow> writer_owns_kind e \<and> ev_kind e \<in> kinds"

lemma append_platform_quiet:
  assumes "rx_step X = spine_step" and "kind \<in> kinds"
  shows "quiet (platform_event kinds) [stamp] S (snd (append_platform_event_with_metadata X s kind payload m stamp S))"
    and "quiet (platform_event kinds) [stamp] S (snd (append_platform_event X s kind payload stamp S))"
  unfolding append_platform_event_def append_platform_event_with_metadata_def
  by (rule quiet_more [OF append_event_unchecked_quiet [OF assms(1)]];
      simp add: event_of_def platform_event_def assms(2))+

lemma list_events_range_same:
  "rx_step X = spine_step \<Longrightarrow> snd (list_events_range X q S) = S"
  by (simp add: list_events_range_def)

lemma deny_quiet:
  "rx_step X = spine_step \<Longrightarrow> EVENT_PERMISSION_DENIED \<in> kinds \<Longrightarrow>
     quiet (platform_event kinds) [stamp] S (snd (deny X s p operation err stamp S))"
  unfolding deny_def audit_permission_denied_def by (intro and_then_quiet_fst append_platform_quiet) auto

lemma on_objects_quiet [simp]: "quiet P stamps S (snd (on_objects f S))"
  by (simp add: on_objects_def quiet_def split_beta)

definition context_event :: "append_event_request \<Rightarrow> event_envelope \<Rightarrow> bool" where
  "context_event q e \<longleftrightarrow> writer_owns_kind e \<and> (ev_kind e = aer_kind q \<or> ev_kind e = EVENT_PERMISSION_DENIED)"

lemma append_event_quiet:
  assumes "rx_step X = spine_step"
  shows "quiet (context_event q) [stamp] S (snd (append_event X q stamp S))"
proof -
  have "quiet (context_event q) [stamp] S (snd (append_event_hooked X q stamp S))"
    unfolding append_event_hooked_def Let_def
    by (auto split: option.split intro!: quiet_more [OF append_event_unchecked_quiet [OF assms]]
        simp: event_of_def context_event_def)
  then show ?thesis
    by (auto simp: append_event_def platform_event_def context_event_def split: sum.split
        intro: quiet_more [OF deny_quiet [OF assms, of "{EVENT_PERMISSION_DENIED}"]])
qed

lemma append_with_context_quiet:
  assumes "rx_step X = spine_step"
  shows "quiet (context_event q) [stamp] S (snd (append_event_with_context X now c q stamp S))"
proof -
  have "context_event (q\<lparr>aer_writer_package_id := p\<rparr>) = context_event q" for p by (auto simp: context_event_def)
  then show ?thesis using append_event_quiet [OF assms, of "q\<lparr>aer_writer_package_id := _\<rparr>"] append_event_quiet [OF assms]
    by (auto simp: append_event_with_context_def split: protocol_principal.split sum.split)
qed

section \<open>Every call\<close>

definition call_kinds :: "substrate_call \<Rightarrow> str set" where
  "call_kinds c =
     (case c of
        Call_Open _ _ _ _ \<Rightarrow> {EVENT_SESSION_OPENED}
      | Call_Close _ _ _ \<Rightarrow> {EVENT_SESSION_CLOSED}
      | Call_Fork _ _ _ _ _ \<Rightarrow> {EVENT_SESSION_OPENED, EVENT_SESSION_FORKED}
      | Call_Rebuild _ _ \<Rightarrow> {EVENT_PROJECTION_UPDATED}
      | Call_Grant _ _ _ _ _ _ _ \<Rightarrow> {EVENT_PERMISSION_GRANTED}
      | Call_Revoke _ _ _ \<Rightarrow> {EVENT_PERMISSION_REVOKED}
      | Call_Append _ _ q _ \<Rightarrow> {aer_kind q, EVENT_PERMISSION_DENIED}
      | Call_List _ _ _ _ \<Rightarrow> {EVENT_PERMISSION_DENIED}
      | Call_Put _ _ _ _ \<Rightarrow> {EVENT_ASSET_PUT}
      | _ \<Rightarrow> {})"

definition changes_grants :: "substrate_call \<Rightarrow> bool" where
  "changes_grants c = (case c of Call_Grant _ _ _ _ _ _ _ \<Rightarrow> True | Call_Revoke _ _ _ \<Rightarrow> True | _ \<Rightarrow> False)"

lemma reply_with_snd [simp]: "snd (reply_with f r) = snd r"
  by (simp add: reply_with_def)

lemma quiet_sessions [simp]:
  "quiet P a (S\<lparr>sb_sessions := x\<rparr>) S' \<longleftrightarrow> quiet P a S S'" "quiet P a (S\<lparr>sb_branches := y\<rparr>) S' \<longleftrightarrow> quiet P a S S'"
  "quiet P a (S\<lparr>sb_projections := z\<rparr>) S' \<longleftrightarrow> quiet P a S S'"
  by (simp_all add: quiet_def)

lemma quiet_updates [simp]:
  "quiet P a S (S\<lparr>sb_projections := z\<rparr>)" "quiet P a S (S\<lparr>sb_packages := ps, sb_hooks := hs, sb_fabric := f\<rparr>)"
  by (simp_all add: quiet_def)

lemma open_session_quiet:
  assumes "rx_step X = spine_step" and "EVENT_SESSION_OPENED \<in> kinds"
  shows "quiet (platform_event kinds) [stamp] S (snd (open_session X i now q stamp S))"
  unfolding open_session_def Let_def
  by (rule and_then_quiet_fst) (use append_platform_quiet(2) [OF assms] in \<open>metis quiet_sessions(1)\<close>, simp)

lemma fork_session_quiet:
  assumes "rx_step X = spine_step"
  shows "quiet (platform_event {EVENT_SESSION_OPENED, EVENT_SESSION_FORKED}) [t1, t2] S
    (snd (fork_session X (ci, cn, t1) (bi, bn, t2) s n m S))"
proof (cases "bt_get (sb_sessions S) s")
  case (Some parent)
  let ?K = "{EVENT_SESSION_OPENED, EVENT_SESSION_FORKED}"
  have "quiet (platform_event ?K) [t2] S1 (snd (append_platform_event X s EVENT_SESSION_FORKED payload t2 (S1\<lparr>sb_branches := b\<rparr>)))"
    for S1 b payload using append_platform_quiet(2) [OF assms, of EVENT_SESSION_FORKED ?K] quiet_sessions(2) by (metis insertCI)
  note ev = this
  have "quiet (platform_event ?K) ([t1] @ [t2]) S (snd (fork_session X (ci, cn, t1) (bi, bn, t2) s n m S))"
    unfolding fork_session_def prod.case Some option.case Let_def
    by (rule and_then_quiet [OF open_session_quiet [OF assms]]) (auto intro!: and_then_quiet_fst ev)
  then show ?thesis by simp
qed (simp add: fork_session_def)

lemma rebuild_quiet:
  assumes "rx_step X = spine_step"
  shows "quiet (platform_event {EVENT_PROJECTION_UPDATED}) [t] S (snd (projection_rebuild X i t S))"
proof (cases "bt_get (sb_projections S) i")
  case (Some p)
  have ev: "quiet (platform_event {EVENT_PROJECTION_UPDATED}) [t] S1
      (snd (append_platform_event X s EVENT_PROJECTION_UPDATED payload t (S1\<lparr>sb_projections := b\<rparr>)))" for S1 b s payload
    using append_platform_quiet(2) [OF assms, of EVENT_PROJECTION_UPDATED] quiet_sessions(3) by (metis singletonI)
  show ?thesis unfolding projection_rebuild_def Some option.case Let_def
    by (rule and_then_quiet_snd) (auto simp: list_events_range_same [OF assms] intro!: and_then_quiet_fst ev)
qed (simp add: projection_rebuild_def)

lemma put_object_quiet:
  assumes "rx_step X = spine_step"
  shows "quiet (platform_event {EVENT_ASSET_PUT}) [t] S (snd (put_object X i now q t S))"
proof -
  have "quiet P [t] S1 (S1\<lparr>sb_assets := m\<rparr>)" for P S1 m by (simp add: quiet_def)
  then have "quiet P [] S1 (S1\<lparr>sb_assets := m\<rparr>)" for P S1 m by (simp add: quiet_def)
  then have ord: "quiet (platform_event {EVENT_ASSET_PUT}) [t] S (snd (put_ordinary_asset X i now q t S))" for S
    unfolding put_ordinary_asset_def Let_def
    by (intro and_then_quiet_snd and_then_quiet_fst append_platform_quiet(1) [OF assms] on_objects_quiet) auto
  have exact: "quiet (platform_event {EVENT_ASSET_PUT}) [t] S (snd (put_exact_artifact X q' u S))" for q' u
    by (auto simp: put_exact_artifact_def Let_def intro!: and_then_quiet_snd split: sum.split)
  show ?thesis using ord exact
    by (auto simp: put_object_def intro!: and_then_quiet_fst split: option.split)
qed

lemma list_context_quiet:
  assumes "rx_step X = spine_step"
  shows "quiet (platform_event {EVENT_PERMISSION_DENIED}) [t] S (snd (list_events_range_with_context X now c q t S))"
  by (auto simp: list_events_range_with_context_def with_reading_context_def list_events_range_for_def for_reader_def
      list_events_range_same [OF assms] intro: deny_quiet [OF assms] split: sum.split protocol_principal.split)

lemma get_asset_quiet: "quiet P [] S (snd (get_asset X i S))"
  by (auto simp: get_asset_def intro!: and_then_quiet_snd split: option.split asset_content_encoding.split)

lemma perform_quiet:
  assumes "rx_step X = spine_step" and "\<not> changes_grants c"
  shows "quiet (platform_event (call_kinds c)) (call_stamps c) S (snd (perform X c S))"
proof (cases c)
  case (Call_Close now s t)
  have "quiet (platform_event {EVENT_SESSION_CLOSED}) [t] S
      (snd (append_platform_event X s EVENT_SESSION_CLOSED (JObj []) t (S\<lparr>sb_sessions := m\<rparr>)))" for m
    using append_platform_quiet(2) [OF assms(1), of EVENT_SESSION_CLOSED] quiet_sessions(1) by (metis singletonI)
  then show ?thesis using Call_Close by (simp add: close_session_def call_kinds_def split: option.split)
next
  case (Call_Append now x q t)
  then show ?thesis using quiet_more [OF append_with_context_quiet [OF assms(1)]]
    by (auto simp: context_event_def platform_event_def call_kinds_def)
next
  case (Call_Fork x y s n m)
  then show ?thesis using fork_session_quiet [OF assms(1)] by (cases x; cases y) (simp add: call_kinds_def)
qed (use assms in \<open>simp_all add: open_session_quiet rebuild_quiet put_object_quiet list_context_quiet get_asset_quiet
      call_kinds_def changes_grants_def projection_register_def\<close>)

section \<open>Grants and their events\<close>

lemma store_append_cases:
  assumes "rx_step X = spine_step"
  obtains "store_append X s d S = (Inl Store_Failed, S)"
  | n where "store_append X s d S = (Inr (envelope s n d), S\<lparr>sb_store := sb_store S @ [envelope s n d]\<rparr>)"
      "spine_next s (sb_store S) = Inr n"
proof (cases "spine_next s (sb_store S)")
  case (Inr n)
  show ?thesis
  proof (cases "spine_append (envelope s n d) (sb_store S)")
    case (Inl u)
    then show ?thesis using that(1) assms Inr by (simp add: store_append_def spine_put_def)
  next
    case (Inr log')
    then have "log' = sb_store S @ [envelope s n d]" by (simp add: spine_append_def split: if_splits)
    then show ?thesis using that(2) [of n] assms Inr \<open>spine_next s (sb_store S) = Inr n\<close>
      by (simp add: store_append_def spine_put_def)
  qed
qed (use that(1) assms in \<open>simp add: store_append_def\<close>)

lemma append_platform_cases:
  assumes "rx_step X = spine_step" and "is_platform_event_kind kind"
  obtains "append_platform_event X s kind payload stamp S = (Inl Store_Failed, S)"
  | e where "append_platform_event X s kind payload stamp S = (Inr e, S\<lparr>sb_store := sb_store S @ [e]\<rparr>)"
      "numbered (sb_store S) [e]" "ev_kind e = kind" "ev_session_id e = s" "ev_payload e = payload" "stamp_of e = stamp"
      "writer_owns_kind e"
proof -
  let ?d = "\<lparr>ed_id = fst stamp, ed_timestamp = snd stamp, ed_writer_package_id = PLATFORM_RUNTIME_ID, ed_kind = kind,
     ed_schema_version = 1, ed_payload = payload, ed_metadata = JObj []\<rparr>"
  have a: "append_platform_event X s kind payload stamp S = store_append X s ?d S"
    using assms(2) by (simp add: append_platform_event_def append_platform_event_with_metadata_def append_event_unchecked_def
        Let_def writer_owns_kind_def prelim_def payload_schema_def)
  show thesis
  proof (rule store_append_cases [OF assms(1), of s ?d S])
    fix n assume n: "store_append X s ?d S = (Inr (envelope s n ?d), S\<lparr>sb_store := sb_store S @ [envelope s n ?d]\<rparr>)"
      "spine_next s (sb_store S) = Inr n"
    then show thesis using that(2) [of "envelope s n ?d"] spine_next_above [OF n(2)] assms
      by (simp add: a envelope_def stamp_of_def writer_owns_kind_def)
  qed (use that(1) a in simp)
qed

definition authority_event :: "event_envelope \<Rightarrow> bool" where
  "authority_event e \<longleftrightarrow> ev_kind e = EVENT_PERMISSION_GRANTED \<or> ev_kind e = EVENT_PERMISSION_REVOKED"

text \<open>The grants that a list of events describes, last event first.\<close>

fun grant_table :: "('s, 'o) runtime_ext \<Rightarrow> event_log \<Rightarrow> str \<rightharpoonup> permission_grant_record" where
  "grant_table X [] = Map.empty"
| "grant_table X (e # es) = (\<lambda>i. case grant_table X es i of
     Some g \<Rightarrow> Some g
   | None \<Rightarrow> (case rx_grant_from_value X (ev_payload e) of
        Some g \<Rightarrow> if authority_event e \<and> gr_id g = i then Some g else None | None \<Rightarrow> None))"

definition concerns :: "('s, 'o) runtime_ext \<Rightarrow> str \<Rightarrow> event_envelope \<Rightarrow> bool" where
  "concerns X i e \<longleftrightarrow> authority_event e \<and> map_option gr_id (rx_grant_from_value X (ev_payload e)) = Some i"

lemma grant_table_concerns: "grant_table X (filter (concerns X i) es) i = grant_table X es i"
  by (induction es) (auto simp: concerns_def split: option.splits)

lemma grant_table_snoc: "grant_table X (es @ [e]) i =
    (case rx_grant_from_value X (ev_payload e) of
       Some g \<Rightarrow> if authority_event e \<and> gr_id g = i then Some g else grant_table X es i | None \<Rightarrow> grant_table X es i)"
  by (induction es) (auto split: option.splits)

lemma grant_table_other: "list_all (\<lambda>e. \<not> authority_event e) fs \<Longrightarrow> grant_table X (es @ fs) = grant_table X es"
  by (induction fs rule: rev_induct) (auto simp: grant_table_snoc fun_eq_iff simp flip: append_assoc split: option.splits)

definition grants_logged :: "('s, 'o) runtime_ext \<Rightarrow> (event_log, 'o) substrate \<Rightarrow> bool" where
  "grants_logged X S \<longleftrightarrow> sorted (map ev_timestamp (sb_store S)) \<and> numbered [] (sb_store S)
     \<and> (\<forall>e\<in>set (sb_store S). authority_event e \<longrightarrow>
          (\<exists>g. rx_grant_from_value X (ev_payload e) = Some g \<and> ev_session_id e = permission_session (gr_id g)))
     \<and> bt_get (sb_grants S) = grant_table X (sb_store S)"

lemma numbered_less: "numbered log es \<Longrightarrow> x \<in> set log \<Longrightarrow> y \<in> set es \<Longrightarrow> ev_session_id x = ev_session_id y \<Longrightarrow> ev_sequence x < ev_sequence y"
  by (induction es arbitrary: log) auto

lemma numbered_sorted: "numbered log es \<Longrightarrow> sorted (map ev_sequence (filter (\<lambda>e. ev_session_id e = s) es))"
proof (induction es arbitrary: log)
  case (Cons e es)
  then have "sorted (map ev_sequence (filter (\<lambda>e. ev_session_id e = s) es))" by auto
  moreover have "ev_sequence e \<le> ev_sequence y" if "y \<in> set es" "ev_session_id y = ev_session_id e" for y
    using numbered_less [of "log @ [e]" es e y] Cons.prems that by (simp add: less_imp_le)
  ultimately show ?case by auto
qed simp

lemma sorted_triples:
  "sorted (map f xs) \<Longrightarrow> (\<And>x. x \<in> set xs \<Longrightarrow> g x = c) \<Longrightarrow> sorted (map h xs) \<Longrightarrow> sorted (map (\<lambda>x. (f x, g x, h x)) xs)"
  by (induction xs) (auto simp: less_eq_prod_def)

text \<open>Reading the log back does not reorder the events of one grant.\<close>

lemma grant_table_spine_all:
  assumes "grants_logged X S"
  shows "grant_table X (spine_all (sb_store S)) = bt_get (sb_grants S)"
proof
  fix i
  let ?log = "sb_store S" and ?k = "\<lambda>e. (ev_timestamp e, ev_session_id e, ev_sequence e)"
  let ?es = "filter (concerns X i) ?log"
  have sess: "ev_session_id e = permission_session i" if "e \<in> set ?es" for e
    using that assms by (auto simp: concerns_def grants_logged_def)
  then have es: "?es = filter (concerns X i) (filter (\<lambda>e. ev_session_id e = permission_session i) ?log)"
    by (auto intro!: filter_cong)
  have "numbered [] ?log" "sorted (map ev_timestamp ?log)" using assms by (auto simp: grants_logged_def)
  then have "sorted (map ev_sequence ?es)" "sorted (map ev_timestamp ?es)"
    unfolding es using numbered_sorted sorted_filter by blast+
  then have "sorted (map ?k ?es)" using sorted_triples sess by blast
  then have "filter (concerns X i) (spine_all ?log) = ?es" by (simp add: spine_all_def filter_sort sort_key_id_if_sorted)
  then show "grant_table X (spine_all ?log) i = bt_get (sb_grants S) i"
    using grant_table_concerns [of X i] assms by (metis grants_logged_def)
qed

lemma platform_kinds [simp]:
  "is_platform_event_kind EVENT_PERMISSION_GRANTED" "is_platform_event_kind EVENT_PERMISSION_REVOKED"
  by (simp_all add: is_platform_event_kind_def PLATFORM_EVENT_KINDS_def)

text \<open>One call that changes a grant: it is refused, or the table and the log change together.\<close>

lemma grant_event_logged:
  assumes "rx_step X = spine_step" and "grants_logged X S" and "\<forall>e\<in>set (sb_store S). ev_timestamp e \<le> snd stamp"
    and "kind = EVENT_PERMISSION_GRANTED \<or> kind = EVENT_PERMISSION_REVOKED" and "S1 = S\<lparr>sb_grants := bt_insert (gr_id g) g (sb_grants S)\<rparr>"
    and "and_then_st (append_platform_event X (permission_session (gr_id g)) kind (grant_value (rx_ext X) g) stamp S1)
      (\<lambda>_ S. (Inr g, S)) = (r, S')"
    and "r = Inr g \<Longrightarrow> rx_grant_from_value X (grant_value (rx_ext X) g) = Some g"
  shows "r = Inl Store_Failed \<or> (r = Inr g \<and> grants_logged X S' \<and> (\<exists>e. sb_store S' = sb_store S @ [e] \<and> stamp_of e = stamp))"
proof (rule append_platform_cases [OF assms(1), of kind "permission_session (gr_id g)" "grant_value (rx_ext X) g" stamp S1])
  show "is_platform_event_kind kind" using assms(4) by auto
next
  assume "append_platform_event X (permission_session (gr_id g)) kind (grant_value (rx_ext X) g) stamp S1 = (Inl Store_Failed, S1)"
  then show ?thesis using assms(6) by (simp add: and_then_st_def)
next
  fix e
  assume e: "append_platform_event X (permission_session (gr_id g)) kind (grant_value (rx_ext X) g) stamp S1
      = (Inr e, S1\<lparr>sb_store := sb_store S1 @ [e]\<rparr>)" "numbered (sb_store S1) [e]" "ev_kind e = kind"
    "ev_session_id e = permission_session (gr_id g)" "ev_payload e = grant_value (rx_ext X) g" "stamp_of e = stamp"
  have S': "r = Inr g" "S' = S1\<lparr>sb_store := sb_store S @ [e]\<rparr>" using assms(5,6) e(1) by (auto simp: and_then_st_def)
  note codec = assms(7) [OF S'(1)]
  have auth: "authority_event e" using e(3) assms(4) by (auto simp: authority_event_def)
  have "bt_get (sb_grants S') = grant_table X (sb_store S')"
    using assms(2) by (simp add: fun_eq_iff S' assms(5) codec e(5) auth grant_table_snoc bt_get_insert grants_logged_def)
  moreover have "sorted (map ev_timestamp (sb_store S'))"
    using assms(2,3) e(6) by (auto simp: S' sorted_append grants_logged_def stamp_of_def)
  moreover have "numbered [] (sb_store S')" using assms(2,5) e(2) by (simp add: S' numbered_append grants_logged_def)
  ultimately have "grants_logged X S'" using assms(2,5) codec e(4,5) by (auto simp: grants_logged_def S')
  then show ?thesis using S' assms(5) e(6) by simp
qed

lemma subseq_set: "subseq xs ys \<Longrightarrow> set xs \<subseteq> set ys"
  by (induction rule: list_emb.induct) auto

lemma subseq_sorted: "subseq xs ys \<Longrightarrow> sorted ys \<Longrightarrow> sorted xs"
  by (induction rule: list_emb.induct) (auto dest: subseq_set)

lemma quiet_logged:
  assumes "quiet (\<lambda>e. \<not> authority_event e) stamps S S'" and "grants_logged X S" and "sorted (map snd stamps)"
    and "\<forall>e\<in>set (sb_store S). \<forall>t\<in>set stamps. ev_timestamp e \<le> snd t"
  shows "grants_logged X S' \<and> (\<exists>es. sb_store S' = sb_store S @ es \<and> stamp_of ` set es \<subseteq> set stamps)"
proof -
  from assms(1) obtain es where es: "sb_store S' = sb_store S @ es" "list_all (\<lambda>e. \<not> authority_event e) es"
    "subseq (map stamp_of es) stamps" "numbered (sb_store S) es" "sb_grants S' = sb_grants S"
    by (auto simp: quiet_def logged_def)
  have sub: "stamp_of ` set es \<subseteq> set stamps" using subseq_set [OF es(3)] by simp
  have "sorted (map snd (map stamp_of es))" using subseq_sorted [OF subseq_map [OF es(3)] assms(3)] .
  then have "sorted (map ev_timestamp es)" by (simp add: stamp_of_def comp_def)
  moreover have "ev_timestamp x \<le> ev_timestamp y" if "x \<in> set (sb_store S)" "y \<in> set es" for x y
    using sub that assms(4) by (force simp: stamp_of_def)
  ultimately show ?thesis using assms(2) es sub
    by (auto simp: grants_logged_def sorted_append numbered_append grant_table_other list_all_iff)
qed

section \<open>Runs\<close>

definition times_of :: "substrate_call list \<Rightarrow> int list" where
  "times_of cs = map snd (concat (map call_stamps cs))"

text \<open>A host that writes an authority event through the public method.\<close>

definition forges :: "substrate_call \<Rightarrow> bool" where
  "forges c = (case c of Call_Append _ _ q _ \<Rightarrow> aer_kind q \<in> {EVENT_PERMISSION_GRANTED, EVENT_PERMISSION_REVOKED} | _ \<Rightarrow> False)"

lemma call_kinds_quiet:
  "\<not> changes_grants c \<Longrightarrow> \<not> forges c \<Longrightarrow> platform_event (call_kinds c) e \<Longrightarrow> \<not> authority_event e"
  by (cases c) (auto simp: platform_event_def call_kinds_def authority_event_def changes_grants_def forges_def event_kind_defs)

definition grants_of :: "substrate_reply list \<Rightarrow> permission_grant_record set" where
  "grants_of rs = {g. Grant_Reply g \<in> set rs}"

definition codec_reads :: "('s, 'o) runtime_ext \<Rightarrow> permission_grant_record set \<Rightarrow> bool" where
  "codec_reads X gs \<longleftrightarrow> (\<forall>g\<in>gs. rx_grant_from_value X (grant_value (rx_ext X) g) = Some g)"

lemma grant_table_id: "grant_table X es i = Some g \<Longrightarrow> gr_id g = i"
  by (induction es arbitrary: g) (auto split: option.splits if_splits)

lemma reply_of_grant:
  "reply_with Grant_Reply x = (r, S') \<longleftrightarrow> snd x = S' \<and> r = (case fst x of Inl e \<Rightarrow> Error_Reply e | Inr g \<Rightarrow> Grant_Reply g)"
  by (auto simp: reply_with_def)

lemma changes_grants_logged:
  assumes "rx_step X = spine_step" and "grants_logged X S" and "changes_grants c" and "perform X c S = (r, S')"
    and "\<forall>e\<in>set (sb_store S). \<forall>t\<in>set (call_stamps c). ev_timestamp e \<le> snd t"
    and "codec_reads X (grants_of [r])" and "r \<noteq> Error_Reply Store_Failed"
  shows "grants_logged X S' \<and> (\<exists>es. sb_store S' = sb_store S @ es \<and> stamp_of ` set es \<subseteq> set (call_stamps c))"
proof -
  have codec: "rx_grant_from_value X (grant_value (rx_ext X) g) = Some g" if "r = Grant_Reply g" for g
    using assms(6) that by (simp add: codec_reads_def grants_of_def)
  show ?thesis
  proof (cases c)
    case (Call_Grant i now p permission scope reason t)
    let ?g = "\<lparr>gr_id = i, gr_principal = p, gr_permission = permission, gr_scope = scope, gr_granted_at = now,
      gr_revoked_at = None, gr_reason = reason\<rparr>"
    obtain x where x: "grant_event X ?g t (grant_insert ?g S) = (x, S')" "r = (case x of Inl e \<Rightarrow> Error_Reply e | Inr g \<Rightarrow> Grant_Reply g)"
      using assms(4) by (cases "grant_event X ?g t (grant_insert ?g S)") (simp add: Call_Grant grant_permission_def reply_of_grant)
    from grant_event_logged [OF assms(1,2) _ disjI1 [OF HOL.refl] HOL.refl x(1) [unfolded grant_event_def grant_insert_def]]
    show ?thesis using codec x(2) assms(5,7) by (auto simp: Call_Grant)
  next
    case (Call_Revoke now i t)
    show ?thesis
    proof (cases "bt_get (sb_grants S) i")
      case None
      then show ?thesis using assms(2,4) by (auto simp: Call_Revoke revoke_permission_def revoke_mark_def and_then_st_def reply_of_grant)
    next
      case (Some g0)
      let ?g = "g0\<lparr>gr_revoked_at := Some now\<rparr>"
      have i: "gr_id ?g = i" using Some assms(2) grant_table_id [of X "sb_store S" i g0] by (simp add: grants_logged_def)
      obtain x where x: "revoke_event X ?g t (S\<lparr>sb_grants := bt_insert (gr_id ?g) ?g (sb_grants S)\<rparr>) = (x, S')"
        "r = (case x of Inl e \<Rightarrow> Error_Reply e | Inr g \<Rightarrow> Grant_Reply g)"
        using assms(4) Some i by (cases "revoke_event X ?g t (S\<lparr>sb_grants := bt_insert i ?g (sb_grants S)\<rparr>)")
          (auto simp: Call_Revoke revoke_permission_def revoke_mark_def and_then_st_def reply_of_grant Let_def)
      from grant_event_logged [OF assms(1,2) _ disjI2 [OF HOL.refl] HOL.refl x(1) [unfolded revoke_event_def]]
      show ?thesis using codec x(2) assms(5,7) by (auto simp: Call_Revoke)
    qed
  qed (use assms(3) in \<open>simp_all add: changes_grants_def\<close>)
qed

lemma run_logged:
  assumes "rx_step X = spine_step" and "perform_all X cs S = (rs, S')" and "grants_logged X S" and "sorted (times_of cs)"
    and "\<forall>e\<in>set (sb_store S). \<forall>t\<in>set (times_of cs). ev_timestamp e \<le> t" and "\<forall>c\<in>set cs. \<not> forges c"
    and "list_all2 (\<lambda>c r. changes_grants c \<longrightarrow> r \<noteq> Error_Reply Store_Failed) cs rs" and "codec_reads X (grants_of rs)"
  shows "grants_logged X S'"
  using assms(2-8)
proof (induction cs arbitrary: S rs)
  case (Cons c cs)
  obtain r S1 rs1 where r: "perform X c S = (r, S1)" and rs1: "perform_all X cs S1 = (rs1, S')" and rs: "rs = r # rs1"
    using Cons.prems(1) by (auto simp: Let_def split: prod.splits)
  have times: "sorted (map snd (call_stamps c))" "sorted (times_of cs)"
    "\<forall>t\<in>set (call_stamps c). \<forall>u\<in>set (times_of cs). snd t \<le> u"
    using Cons.prems(3) by (auto simp: times_of_def sorted_append)
  have before: "\<forall>e\<in>set (sb_store S). \<forall>t\<in>set (call_stamps c). ev_timestamp e \<le> snd t"
    using Cons.prems(4) by (auto simp: times_of_def)
  have step: "grants_logged X S1 \<and> (\<exists>es. sb_store S1 = sb_store S @ es \<and> stamp_of ` set es \<subseteq> set (call_stamps c))"
  proof (cases "changes_grants c")
    case True
    then show ?thesis using changes_grants_logged [OF assms(1) Cons.prems(2) True r before] Cons.prems(6,7)
      by (simp add: rs codec_reads_def grants_of_def)
  next
    case False
    have "quiet (\<lambda>e. \<not> authority_event e) (call_stamps c) S S1"
      using quiet_more [OF perform_quiet [OF assms(1) False, of S]] call_kinds_quiet [OF False] Cons.prems(5) r by auto
    from quiet_logged [OF this Cons.prems(2) times(1) before] show ?thesis .
  qed
  then obtain es where es: "grants_logged X S1" "sb_store S1 = sb_store S @ es" "stamp_of ` set es \<subseteq> set (call_stamps c)" by blast
  have "\<forall>e\<in>set (sb_store S1). \<forall>t\<in>set (times_of cs). ev_timestamp e \<le> t"
    using Cons.prems(4) times(3) es(2,3) by (force simp: times_of_def stamp_of_def)
  then show ?case using Cons.IH [OF rs1 es(1) times(2)] Cons.prems(5-7) by (simp add: rs codec_reads_def grants_of_def)
qed simp

section \<open>Hydration of the grants\<close>

lemma hydrate_event_grants:
  assumes "hydrate_event X e h S = (Inr h', S')" and "bt_get (hy_grants h) = grant_table X es"
  shows "bt_get (hy_grants h') = grant_table X (es @ [e])"
proof (cases "authority_event e")
  case True
  then obtain g where "rx_grant_from_value X (ev_payload e) = Some g" "hy_grants h' = bt_insert (gr_id g) g (hy_grants h)"
    using assms(1) by (auto simp: hydrate_event_def hydrate_record_def hydrate_grant_def and_then_Inr ok_or_Inr authority_event_def
        event_kind_defs)
  then show ?thesis using True assms(2) by (simp add: fun_eq_iff bt_get_insert grant_table_snoc)
next
  case False
  then have "hy_grants h' = hy_grants h"
    using assms(1) by (auto simp: hydrate_event_def hydrate_record_def and_then_st_Inr and_then_Inr authority_event_def split: if_splits)
  then show ?thesis using False assms(2) grant_table_other [of "[e]" X es] by simp
qed

lemma build_grants:
  "build_substrate_state X es h S = (Inr h', S') \<Longrightarrow> bt_get (hy_grants h) = grant_table X ds \<Longrightarrow>
     bt_get (hy_grants h') = grant_table X (ds @ es)"
proof (induction es arbitrary: h S ds)
  case (Cons e es)
  then obtain h1 S1 where "hydrate_event X e h S = (Inr h1, S1)" "build_substrate_state X es h1 S1 = (Inr h', S')"
    by (auto simp: and_then_st_Inr)
  from Cons.IH [OF this(2) hydrate_event_grants [OF this(1) Cons.prems(2)]] show ?case by simp
qed simp

text \<open>No event stops the hydration.\<close>

definition decodes :: "('s, 'o) runtime_ext \<Rightarrow> event_envelope \<Rightarrow> bool" where
  "decodes X e \<longleftrightarrow> ev_kind e \<noteq> EVENT_ASSET_PUT
     \<and> (ev_kind e = EVENT_SESSION_FORKED \<longrightarrow> rx_branch_from_value X (ev_payload e) \<noteq> None)
     \<and> (ev_kind e = EVENT_PROJECTION_UPDATED \<longrightarrow> rx_projection_from_value X (ev_payload e) \<noteq> None)"

lemma build_succeeds:
  "\<forall>e\<in>set es. decodes X e \<and> (authority_event e \<longrightarrow> rx_grant_from_value X (ev_payload e) \<noteq> None) \<Longrightarrow>
     is_ok (fst (build_substrate_state X es h S))"
proof (induction es arbitrary: h S)
  case (Cons e es)
  then have "\<exists>h1. hydrate_event X e h S = (Inr h1, S)"
    by (auto simp: hydrate_event_def hydrate_record_def hydrate_grant_def decodes_def authority_event_def)
  then show ?case using Cons.IH Cons.prems by (auto simp: and_then_st_def)
qed simp

lemma hydrate_grants:
  assumes "rx_step X = spine_step" and "grants_logged X S"
  shows "hydrate_substrate_from_events X S = (Inr (), S') \<Longrightarrow> bt_get (sb_grants S') = bt_get (sb_grants S)"
    and "\<forall>e\<in>set (sb_store S). decodes X e \<Longrightarrow> is_ok (fst (hydrate_substrate_from_events X S))"
proof -
  assume "hydrate_substrate_from_events X S = (Inr (), S')"
  then obtain h S1 where h: "build_substrate_state X (spine_all (sb_store S)) no_substrate S = (Inr h, S1)"
    and S': "S' = apply_substrate_state h S1"
    using assms(1) by (auto simp: hydrate_substrate_from_events_def and_then_st_Inr)
  have "bt_get (hy_grants h) = grant_table X ([] @ spine_all (sb_store S))"
    by (rule build_grants [OF h]) (simp add: no_substrate_def fun_eq_iff)
  then show "bt_get (sb_grants S') = bt_get (sb_grants S)"
    using grant_table_spine_all [OF assms(2)] by (simp add: S' apply_substrate_state_def)
next
  assume "\<forall>e\<in>set (sb_store S). decodes X e"
  then have "is_ok (fst (build_substrate_state X (spine_all (sb_store S)) no_substrate S))"
    using assms(2) by (intro build_succeeds) (auto simp: spine_all_def grants_logged_def)
  then show "is_ok (fst (hydrate_substrate_from_events X S))"
    using assms(1) by (cases "build_substrate_state X (spine_all (sb_store S)) no_substrate S")
      (auto simp: hydrate_substrate_from_events_def and_then_st_def is_ok_Inr)
qed

section \<open>Ownership of events\<close>

lemma perform_owned:
  assumes "rx_step X = spine_step"
  shows "logged writer_owns_kind (call_stamps c) (sb_store S) (sb_store (snd (perform X c S)))"
proof (cases "changes_grants c")
  case False
  then show ?thesis using quiet_more [OF perform_quiet [OF assms False, of S], of writer_owns_kind "call_stamps c"]
    by (simp add: platform_event_def quiet_def)
next
  case True
  have app: "logged writer_owns_kind [t] (sb_store S)
      (sb_store (snd (and_then_st (append_platform_event X s kind payload t (S\<lparr>sb_grants := m\<rparr>)) (\<lambda>_ S. (Inr g, S)))))"
    for s kind payload t m and g :: permission_grant_record
    using quiet_more [OF and_then_quiet_fst [OF append_platform_quiet(2) [OF assms, of kind "{kind}"], of "\<lambda>_ S. (Inr g, S)"],
        where Q = writer_owns_kind and b = "[t]" and S = "S\<lparr>sb_grants := m\<rparr>"]
    by (auto simp: platform_event_def quiet_def)
  from True show ?thesis
  proof (cases c)
    case (Call_Grant i now p permission scope reason t)
    then show ?thesis by (simp add: app grant_permission_def grant_event_def grant_insert_def Let_def)
  next
    case (Call_Revoke now i t)
    then show ?thesis
      by (simp add: app revoke_permission_def revoke_mark_def revoke_event_def and_then_st_def [of "(Inr _, _)"] and_then_st_def [of "(Inl _, _)"]
          Let_def split: option.split)
  qed (simp_all add: changes_grants_def)
qed

lemma run_owned:
  assumes "rx_step X = spine_step"
  shows "list_all writer_owns_kind (sb_store S) \<Longrightarrow> list_all writer_owns_kind (sb_store (snd (perform_all X cs S)))"
proof (induction cs arbitrary: S)
  case (Cons c cs)
  have "list_all writer_owns_kind (sb_store (snd (perform X c S)))"
    using perform_owned [OF assms, of c S] Cons.prems by (auto simp: logged_def)
  from Cons.IH [OF this] show ?case by (simp add: split_beta Let_def)
qed simp

lemma append_by_package:
  assumes "rx_step X = spine_step" and "pc_principal c = Package p" and "p \<noteq> PLATFORM_RUNTIME_ID"
    and "append_event_with_context X now c q t S = (Inr e, S')"
  shows "ev_writer_package_id e = p \<and> \<not> is_platform_event_kind (ev_kind e) \<and> starts_with (ev_kind e) (p @ ''/'')
    \<and> sb_store S' = sb_store S @ [e] \<and> session_open S (aer_session_id q) = Inr () \<and> event_permitted pk_events_append S p"
proof -
  let ?q = "q\<lparr>aer_writer_package_id := p\<rparr>"
  have ok: "session_open S (aer_session_id q) = Inr ()" "event_permitted pk_events_append S p"
    "append_event_hooked X ?q t S = (Inr e, S')"
    using assms by (auto simp: append_event_with_context_def append_event_def deny_def and_then_st_Inr split: sum.splits if_splits)
  then obtain m where "append_event_unchecked X (?q\<lparr>aer_metadata := m\<rparr>) t S = (Inr e, S')"
    by (auto simp: append_event_hooked_def Let_def split: option.splits)
  moreover have "writer_owns_kind (prelim (?q\<lparr>aer_metadata := m\<rparr>) (snd t))"
    using calculation by (auto simp: append_event_unchecked_def Let_def split: if_splits)
  ultimately obtain d where d: "store_append X (aer_session_id q) d S = (Inr e, S')" "ed_writer_package_id d = p" "ed_kind d = aer_kind q"
    and own: "\<not> is_platform_event_kind (aer_kind q)" "starts_with (aer_kind q) (p @ ''/'')"
    using assms(3) by (auto simp: append_event_unchecked_def Let_def writer_owns_kind_def prelim_def split: sum.splits if_splits)
  show ?thesis
    by (rule store_append_cases [OF assms(1), of "aer_session_id q" d S]) (use d own ok in \<open>auto simp: envelope_def\<close>)
qed

section \<open>Properties\<close>


text \<open>A runtime on the log, with no packages that hooks would call.\<close>

definition sample_grant :: permission_grant_record where
  "sample_grant = \<lparr>gr_id = ''g'', gr_principal = Human ''u'', gr_permission = ''events.read'', gr_scope = None, gr_granted_at = 1,
     gr_revoked_at = None, gr_reason = None\<rparr>"

definition sample_revoked :: permission_grant_record where
  "sample_revoked = sample_grant\<lparr>gr_revoked_at := Some 2\<rparr>"

definition sample_runtime :: "(event_log, memory_objects) runtime_ext" where
  "sample_runtime = \<lparr>rx_ext = sample_ext, rx_step = spine_step, rx_objects = memory_object_store sample_ext,
     rx_execute = (\<lambda>_ _ _. None), rx_branch_from_value = (\<lambda>_. None), rx_projection_from_value = (\<lambda>_. None),
     rx_grant_from_value = (\<lambda>v. if v = grant_value sample_ext sample_grant then Some sample_grant
        else if v = grant_value sample_ext sample_revoked then Some sample_revoked else None),
     rx_asset_from_value = (\<lambda>_. None)\<rparr>"

definition empty_substrate :: "(event_log, memory_objects) substrate" where
  "empty_substrate = \<lparr>sb_store = [], sb_objects = Map.empty, sb_sessions = [], sb_branches = [], sb_projections = [], sb_grants = [],
     sb_assets = [], sb_packages = Map.empty, sb_hooks = [], sb_fabric = [], sb_default_labels = []\<rparr>"

abbreviation grant_and_revoke :: "int \<Rightarrow> int \<Rightarrow> substrate_call list" where
  "grant_and_revoke t t' \<equiv> [Call_Grant ''g'' 1 (Human ''u'') ''events.read'' None None (''e1'', t), Call_Revoke 2 ''g'' (''e2'', t')]"




text \<open>A revoked grant can be active again after a restart. It suffices that the clock of the store
  steps back between the two events, or that the revocation of a grant overtakes the event of the grant,
  which is written after the grant has become visible. A grant is in force even when its event could not
  be written and the call has failed.\<close>

theorem revoked_grant_returns:
  "\<not> principal_has_grant (sb_grants (snd (perform_all sample_runtime (grant_and_revoke 5 4) empty_substrate))) (Human ''u'') ''events.read'' None
   \<and> principal_has_grant (sb_grants (snd (hydrate_substrate_from_events sample_runtime
       (snd (perform_all sample_runtime (grant_and_revoke 5 4) empty_substrate))))) (Human ''u'') ''events.read'' None
   \<and> (let S = snd (grant_event sample_runtime sample_grant (''e2'', 2)
            (snd (revoke_permission sample_runtime 2 ''g'' (''e1'', 1) (grant_insert sample_grant empty_substrate)))) in
      \<not> principal_has_grant (sb_grants S) (Human ''u'') ''events.read'' None
      \<and> principal_has_grant (sb_grants (snd (hydrate_substrate_from_events sample_runtime S))) (Human ''u'') ''events.read'' None)
   \<and> (let (r, S) = grant_permission sample_runtime ''g'' 1 (Human ''u'') ''events.read'' None None (''e1'', 1)
            (empty_substrate\<lparr>sb_store := [envelope ''other'' 0 \<lparr>ed_id = ''e1'', ed_timestamp = 0, ed_writer_package_id = [], ed_kind = [],
               ed_schema_version = 1, ed_payload = JNull, ed_metadata = JNull\<rparr>]\<rparr>) in
      r = Inl Store_Failed \<and> principal_has_grant (sb_grants S) (Human ''u'') ''events.read'' None)"
  by (intro conjI) code_simp+

end
