(* ===== verification/Changes.thy ===== *)
theory Changes
  imports Effects Change_Data Event_Kinds
begin

text \<open>
  The data of a change (\<open>crates/plurora-core/src/change.rs\<close>) and of a proposal
  (\<open>runtime/proposals.rs\<close>), as they are serialised, and the requests for the receipts that a
  proposal leaves.
\<close>

section \<open>Changes\<close>

definition INTENT_TYPE_URI :: str where "INTENT_TYPE_URI = ''urn:plurora:intent:v1''"

definition CHANGE_SET_TYPE_URI :: str where "CHANGE_SET_TYPE_URI = ''urn:plurora:change-set:v1''"

definition CHANGE_COMMIT_TYPE_URI :: str where "CHANGE_COMMIT_TYPE_URI = ''urn:plurora:change-commit:v1''"

record change_intent =
  it_id :: str
  it_intent_type_uri :: str
  it_principal :: principal_identity
  it_goal :: json
  it_target_session_id :: "str option"
  it_target_branch_id :: "str option"
  it_created_at :: int
  it_annotations :: "(str, json) btree_map"

definition intent_value :: "ext \<Rightarrow> change_intent \<Rightarrow> json" where
  "intent_value E i = jobj (jfield ''id'' (JStr (it_id i)) @ jfield ''intent_type_uri'' (JStr (it_intent_type_uri i))
     @ jfield ''principal'' (principal_identity_value (it_principal i)) @ jfield ''goal'' (it_goal i)
     @ jopt ''target_session_id'' JStr (it_target_session_id i) @ jopt ''target_branch_id'' JStr (it_target_branch_id i)
     @ jfield ''created_at'' (jtime E (it_created_at i)) @ jfield ''annotations'' (JObj (it_annotations i)))"

record change_operation =
  co_op :: str
  co_target :: "str option"
  co_input_refs :: "artifact_descriptor list"
  co_payload :: json

definition change_operation_value :: "change_operation \<Rightarrow> json" where
  "change_operation_value p = jobj (jfield ''op'' (JStr (co_op p)) @ jopt ''target'' JStr (co_target p)
     @ jfield ''input_refs'' (jarr artifact_descriptor_value (co_input_refs p)) @ jfield ''payload'' (co_payload p))"

record change_set =
  cs_id :: str
  cs_change_set_type_uri :: str
  cs_intent_id :: str
  cs_operations :: "change_operation list"
  cs_preconditions :: "change_precondition list"
  cs_required_authority :: "str list"
  cs_expected_effects :: json
  cs_idempotency_key :: "str option"
  cs_created_at :: int

definition change_set_value :: "ext \<Rightarrow> change_set \<Rightarrow> json" where
  "change_set_value E c = jobj (jfield ''id'' (JStr (cs_id c)) @ jfield ''change_set_type_uri'' (JStr (cs_change_set_type_uri c))
     @ jfield ''intent_id'' (JStr (cs_intent_id c)) @ jfield ''operations'' (jarr change_operation_value (cs_operations c))
     @ jfield ''preconditions'' (jarr precondition_value (cs_preconditions c))
     @ jfield ''required_authority'' (jarr JStr (cs_required_authority c)) @ jfield ''expected_effects'' (cs_expected_effects c)
     @ jopt ''idempotency_key'' JStr (cs_idempotency_key c) @ jfield ''created_at'' (jtime E (cs_created_at c)))"

datatype policy_decision_outcome = Outcome_Allowed | Outcome_Denied | Outcome_RequiresApproval

fun outcome_value :: "policy_decision_outcome \<Rightarrow> json" where
  "outcome_value Outcome_Allowed = JStr ''allowed''"
| "outcome_value Outcome_Denied = JStr ''denied''"
| "outcome_value Outcome_RequiresApproval = JStr ''requires_approval''"

record policy_decision =
  dec_id :: str
  dec_decision_type_uri :: str
  dec_change_set_id :: str
  dec_outcome :: policy_decision_outcome
  dec_principal :: principal_identity
  dec_reason :: "str option"
  dec_evaluated_authority :: "str list"
  dec_decided_at :: int
  dec_policy_ref :: "artifact_descriptor option"

definition policy_decision_value :: "ext \<Rightarrow> policy_decision \<Rightarrow> json" where
  "policy_decision_value E d = jobj (jfield ''id'' (JStr (dec_id d)) @ jfield ''decision_type_uri'' (JStr (dec_decision_type_uri d))
     @ jfield ''change_set_id'' (JStr (dec_change_set_id d)) @ jfield ''outcome'' (outcome_value (dec_outcome d))
     @ jfield ''principal'' (principal_identity_value (dec_principal d)) @ jopt ''reason'' JStr (dec_reason d)
     @ jfield ''evaluated_authority'' (jarr JStr (dec_evaluated_authority d)) @ jfield ''decided_at'' (jtime E (dec_decided_at d))
     @ jopt ''policy_ref'' artifact_descriptor_value (dec_policy_ref d))"

datatype change_commit_status = Commit_Committed | Commit_Failed | Commit_Partial

fun commit_status_value :: "change_commit_status \<Rightarrow> json" where
  "commit_status_value Commit_Committed = JStr ''committed''"
| "commit_status_value Commit_Failed = JStr ''failed''"
| "commit_status_value Commit_Partial = JStr ''partial''"

record change_commit =
  cm_id :: str
  cm_commit_type_uri :: str
  cm_change_set_id :: str
  cm_status :: change_commit_status
  cm_started_at :: int
  cm_completed_at :: int
  cm_operation_receipts :: "artifact_descriptor list"
  cm_result_refs :: "artifact_descriptor list"
  cm_error :: "str option"
  cm_branch_id :: "str option"
  cm_idempotency_key :: "str option"

definition change_commit_value :: "ext \<Rightarrow> change_commit \<Rightarrow> json" where
  "change_commit_value E c = jobj (jfield ''id'' (JStr (cm_id c)) @ jfield ''commit_type_uri'' (JStr (cm_commit_type_uri c))
     @ jfield ''change_set_id'' (JStr (cm_change_set_id c)) @ jfield ''status'' (commit_status_value (cm_status c))
     @ jfield ''started_at'' (jtime E (cm_started_at c)) @ jfield ''completed_at'' (jtime E (cm_completed_at c))
     @ jfield ''operation_receipts'' (jarr artifact_descriptor_value (cm_operation_receipts c))
     @ jfield ''result_refs'' (jarr artifact_descriptor_value (cm_result_refs c)) @ jopt ''error'' JStr (cm_error c)
     @ jopt ''branch_id'' JStr (cm_branch_id c) @ jopt ''idempotency_key'' JStr (cm_idempotency_key c))"

section \<open>Proposals\<close>

datatype proposal_status =
    Status_Created | Status_Approved | Status_Applying | Status_Rejected | Status_Applied | Status_Partial | Status_Failed

fun proposal_status_value :: "proposal_status \<Rightarrow> json" where
  "proposal_status_value Status_Created = JStr ''created''"
| "proposal_status_value Status_Approved = JStr ''approved''"
| "proposal_status_value Status_Applying = JStr ''applying''"
| "proposal_status_value Status_Rejected = JStr ''rejected''"
| "proposal_status_value Status_Applied = JStr ''applied''"
| "proposal_status_value Status_Partial = JStr ''partial''"
| "proposal_status_value Status_Failed = JStr ''failed''"

record proposal_operation =
  pop_op :: str
  pop_target :: "str option"
  pop_payload :: json

definition proposal_operation_value :: "proposal_operation \<Rightarrow> json" where
  "proposal_operation_value p = jobj (jfield ''op'' (JStr (pop_op p)) @ jfield ''target'' (jnullable JStr (pop_target p))
     @ jfield ''payload'' (pop_payload p))"

record proposal_approval =
  pap_principal :: protocol_principal
  pap_decided_at :: int
  pap_reason :: "str option"

definition proposal_approval_value :: "ext \<Rightarrow> proposal_approval \<Rightarrow> json" where
  "proposal_approval_value E a = jobj (jfield ''principal'' (protocol_principal_value (pap_principal a))
     @ jfield ''decided_at'' (jtime E (pap_decided_at a)) @ jfield ''reason'' (jnullable JStr (pap_reason a)))"

record proposal_record =
  prp_id :: str
  prp_status :: proposal_status
  prp_created_by :: protocol_principal
  prp_created_at :: int
  prp_target_session_id :: "str option"
  prp_target_branch_id :: "str option"
  prp_operations :: "proposal_operation list"
  prp_required_permissions :: "str list"
  prp_expected_effects :: json
  prp_approval :: "proposal_approval option"
  prp_result :: "json option"
  prp_intent :: "change_intent option"
  prp_change_set :: "change_set option"
  prp_policy_decision :: "policy_decision option"
  prp_commit :: "change_commit option"
  prp_receipt :: "artifact_descriptor option"

definition proposal_value :: "ext \<Rightarrow> proposal_record \<Rightarrow> json" where
  "proposal_value E p = jobj
     (jfield ''id'' (JStr (prp_id p)) @ jfield ''status'' (proposal_status_value (prp_status p))
      @ jfield ''created_by'' (protocol_principal_value (prp_created_by p)) @ jfield ''created_at'' (jtime E (prp_created_at p))
      @ jfield ''target_session_id'' (jnullable JStr (prp_target_session_id p))
      @ jfield ''target_branch_id'' (jnullable JStr (prp_target_branch_id p))
      @ jfield ''operations'' (jarr proposal_operation_value (prp_operations p))
      @ jfield ''required_permissions'' (jarr JStr (prp_required_permissions p))
      @ jfield ''expected_effects'' (prp_expected_effects p)
      @ jfield ''approval'' (jnullable (proposal_approval_value E) (prp_approval p))
      @ jfield ''result'' (jnullable (\<lambda>v. v) (prp_result p))
      @ jopt ''intent'' (intent_value E) (prp_intent p) @ jopt ''change_set'' (change_set_value E) (prp_change_set p)
      @ jopt ''policy_decision'' (policy_decision_value E) (prp_policy_decision p)
      @ jopt ''commit'' (change_commit_value E) (prp_commit p)
      @ jopt ''receipt'' artifact_descriptor_value (prp_receipt p))"

section \<open>Receipts of a proposal\<close>

definition DEFAULT_CONTRACT_PROFILE :: str where "DEFAULT_CONTRACT_PROFILE = ''plurora.contract.default/v1''"

definition proposal_component :: "proposal_record \<Rightarrow> json" where
  "proposal_component p = jobj (jfield ''kind'' (JStr ''proposal_adapter'') @ jfield ''version'' (jnat 1)
     @ jfield ''proposal_id'' (JStr (prp_id p)))"

definition proposal_scope :: "proposal_record \<Rightarrow> effect_scope" where
  "proposal_scope p = \<lparr>es_session_id = prp_target_session_id p, es_branch_id = prp_target_branch_id p\<rparr>"

definition option_list :: "'a option \<Rightarrow> 'a list" where
  "option_list x = (case x of None \<Rightarrow> [] | Some v \<Rightarrow> [v])"

text \<open>What both requests share.\<close>

definition proposal_request :: "ext \<Rightarrow> proposal_record \<Rightarrow> protocol_principal \<Rightarrow> str \<Rightarrow> effect_terminal_status \<Rightarrow> int \<Rightarrow> u64 \<Rightarrow> str
    \<Rightarrow> json option \<Rightarrow> effect_receipt_request" where
  "proposal_request E p who effect_kind status started_at duration_ms trace_id output =
     (live_request effect_kind (identity_of_principal who) (proposal_component p) status started_at duration_ms trace_id)
       \<lparr>efq_protocol_profiles := [DEFAULT_CONTRACT_PROFILE], efq_outputs := option_list output,
        efq_policy_decision := map_option (policy_decision_value E) (prp_policy_decision p),
        efq_approval := map_option (proposal_approval_value E) (prp_approval p), efq_scope := proposal_scope p\<rparr>"

definition operation_effect_request :: "ext \<Rightarrow> proposal_record \<Rightarrow> protocol_principal \<Rightarrow> proposal_operation \<Rightarrow> nat
    \<Rightarrow> effect_terminal_status \<Rightarrow> int \<Rightarrow> u64 \<Rightarrow> str \<Rightarrow> json option \<Rightarrow> effect_receipt_request" where
  "operation_effect_request E p who operation index status started_at duration_ms trace_id output =
     (proposal_request E p who ''change.operation'' status started_at duration_ms trace_id output)
       \<lparr>efq_inputs := [proposal_operation_value operation],
        efq_authority := Some (jobj (jfield ''required_permissions'' (jarr JStr (prp_required_permissions p))
          @ jfield ''principal'' (protocol_principal_value who) @ jfield ''platform_executor'' (JStr PLATFORM_RUNTIME_ID))),
        efq_planned := jobj (jfield ''operation_index'' (jnat index) @ jfield ''operation'' (proposal_operation_value operation)),
        efq_actual := jobj (jfield ''operation_index'' (jnat index) @ jfield ''status'' (effect_status_value status)
          @ jfield ''output_present'' (JBool (output \<noteq> None)))\<rparr>"

definition proposal_effect_request :: "ext \<Rightarrow> proposal_record \<Rightarrow> protocol_principal \<Rightarrow> str \<Rightarrow> effect_terminal_status \<Rightarrow> int \<Rightarrow> u64
    \<Rightarrow> str \<Rightarrow> artifact_descriptor list \<Rightarrow> json option \<Rightarrow> bool \<Rightarrow> effect_receipt_request" where
  "proposal_effect_request E p who effect_kind status started_at duration_ms trace_id operation_receipts output error_present =
     (proposal_request E p who effect_kind status started_at duration_ms trace_id output)
       \<lparr>efq_inputs := option_list (map_option (intent_value E) (prp_intent p))
          @ option_list (map_option (change_set_value E) (prp_change_set p)),
        efq_authority := Some (jobj (jfield ''required_permissions'' (jarr JStr (prp_required_permissions p))
          @ jfield ''created_by'' (protocol_principal_value (prp_created_by p))
          @ jfield ''principal'' (protocol_principal_value who) @ jfield ''platform_executor'' (JStr PLATFORM_RUNTIME_ID))),
        efq_parent_receipts := map ad_digest operation_receipts, efq_replay_mode := Live,
        efq_planned := (case prp_change_set p of
            Some c \<Rightarrow> change_set_value E c | None \<Rightarrow> jobj (jfield ''expected_effects'' (prp_expected_effects p))),
        efq_actual := jobj (jfield ''proposal_id'' (JStr (prp_id p)) @ jfield ''status'' (effect_status_value status)
          @ jfield ''operation_receipt_count'' (jnat (length operation_receipts))
          @ jfield ''output_present'' (JBool (output \<noteq> None)) @ jfield ''error_present'' (JBool error_present))\<rparr>"

end
