(* ===== verification/Proposals.thy ===== *)
theory Proposals
  imports Assets Changes
begin

text \<open>
  Proposals (\<open>runtime/proposals.rs\<close>): a change that is proposed, approved or rejected, and applied.

  A call is a sequence of steps between which other calls may run. A step ends wherever the call gives
  up the lock of the proposal table, and around the check of the authority; what it does to the event
  log, the object store and the substrate belongs to the step. \<open>phase\<close> is the point a call has reached
  with its local variables, \<open>advance\<close> its next step. What a step reads from its surroundings is its
  \<open>change_env\<close>: new ids, readings of the clock, elapsed times and the stamp of an event.
\<close>

section \<open>State\<close>

record ('s, 'o) change_world =
  cw_substrate :: "('s, 'o) substrate"
  cw_proposals :: "(str, proposal_record) btree_map"

datatype proposal_error =
    Proposal_Not_Found | Not_Awaiting_Approval | Not_Awaiting_Review | Not_Approved | Not_Authorized | Lacks_Permission
  | Changed_During_Commit | Cannot_Be_Failed | Raw_Secret_In_Proposal | Content_Not_String | Mime_Invalid
  | Target_Required | Unsupported_Operation | Substrate_Failed substrate_error | Receipt_Failed effect_error

text \<open>The runtime, \<open>serde_json\<close> on receipts, and the text of an error message.\<close>

record ('s, 'o) change_ext =
  cx_runtime :: "('s, 'o) runtime_ext"
  cx_codec :: effect_codec
  cx_message :: "proposal_error \<Rightarrow> str"

record change_env =
  ce_id :: "nat \<Rightarrow> str"
  ce_now :: "nat \<Rightarrow> int"
  ce_elapsed :: "nat \<Rightarrow> u64"
  ce_stamp :: stamp

abbreviation cx_ext :: "('s, 'o) change_ext \<Rightarrow> ext" where
  "cx_ext X \<equiv> rx_ext (cx_runtime X)"

definition PROPOSAL_APPROVE_PERMISSION :: str where "PROPOSAL_APPROVE_PERMISSION = ''change.proposal.approve''"

definition PROPOSAL_REJECT_PERMISSION :: str where "PROPOSAL_REJECT_PERMISSION = ''change.proposal.reject''"

definition PROPOSAL_APPLY_PERMISSION :: str where "PROPOSAL_APPLY_PERMISSION = ''change.proposal.apply''"

definition proposal_elapsed_ms :: "u64 \<Rightarrow> u64" where
  "proposal_elapsed_ms elapsed = max elapsed 1"

record failure_evidence =
  fe_code :: str
  fe_message_fingerprint :: str

definition proposal_failure_evidence :: "ext \<Rightarrow> str \<Rightarrow> str \<Rightarrow> failure_evidence" where
  "proposal_failure_evidence E code error_message = \<lparr>fe_code = code, fe_message_fingerprint = sha256_digest E error_message\<rparr>"

definition proposal_origin_package_id :: "protocol_principal \<Rightarrow> str" where
  "proposal_origin_package_id p = (case p of Package i \<Rightarrow> i | _ \<Rightarrow> PLATFORM_RUNTIME_ID)"

section \<open>Creating and deciding\<close>

definition created_intent :: "proposal_record \<Rightarrow> protocol_context \<Rightarrow> str \<Rightarrow> change_intent" where
  "created_intent p c i = \<lparr>it_id = i, it_intent_type_uri = INTENT_TYPE_URI, it_principal = identity_of_principal (pc_principal c),
     it_goal = jobj (jfield ''kind'' (JStr ''proposal'') @ jfield ''proposal_id'' (JStr (prp_id p))
       @ jfield ''expected_effects'' (prp_expected_effects p)),
     it_target_session_id = prp_target_session_id p, it_target_branch_id = prp_target_branch_id p,
     it_created_at = prp_created_at p, it_annotations = []\<rparr>"

definition created_change_set :: "proposal_record \<Rightarrow> str \<Rightarrow> str \<Rightarrow> change_set" where
  "created_change_set p i intent_id = \<lparr>cs_id = i, cs_change_set_type_uri = CHANGE_SET_TYPE_URI, cs_intent_id = intent_id,
     cs_operations = map (\<lambda>q. \<lparr>co_op = pop_op q, co_target = pop_target q, co_input_refs = [], co_payload = pop_payload q\<rparr>) (prp_operations p),
     cs_preconditions = [], cs_required_authority = prp_required_permissions p, cs_expected_effects = prp_expected_effects p,
     cs_idempotency_key = Some (prp_id p), cs_created_at = prp_created_at p\<rparr>"

text \<open>The ids are those of the proposal, the intent, the change set and the decision, in this order.\<close>

definition created_proposal :: "change_env \<Rightarrow> protocol_context \<Rightarrow> proposal_record \<Rightarrow> proposal_record" where
  "created_proposal env c p =
     (let p = p\<lparr>prp_id := (if blank (prp_id p) then ce_id env 0 else prp_id p), prp_status := Status_Created,
            prp_created_by := pc_principal c, prp_created_at := ce_now env 0\<rparr>;
          intent = created_intent p c (ce_id env 1); changes = created_change_set p (ce_id env 2) (it_id intent) in
      p\<lparr>prp_intent := Some intent,
        prp_policy_decision := Some \<lparr>dec_id = ce_id env 3, dec_decision_type_uri = POLICY_DECISION_TYPE_URI,
          dec_change_set_id = cs_id changes, dec_outcome = Outcome_RequiresApproval,
          dec_principal = identity_of_principal (pc_principal c), dec_reason = None,
          dec_evaluated_authority = prp_required_permissions p, dec_decided_at = prp_created_at p, dec_policy_ref = None\<rparr>,
        prp_change_set := Some changes, prp_commit := None, prp_receipt := None\<rparr>)"

definition decided_proposal :: "proposal_status \<Rightarrow> policy_decision_outcome \<Rightarrow> protocol_context \<Rightarrow> str option \<Rightarrow> int
    \<Rightarrow> proposal_record \<Rightarrow> proposal_record" where
  "decided_proposal status outcome c reason now p =
     p\<lparr>prp_status := status,
       prp_approval := Some \<lparr>pap_principal = pc_principal c, pap_decided_at = now, pap_reason = reason\<rparr>,
       prp_policy_decision := map_option (\<lambda>d. d\<lparr>dec_outcome := outcome, dec_principal := identity_of_principal (pc_principal c),
         dec_reason := reason, dec_decided_at := now\<rparr>) (prp_policy_decision p)\<rparr>"

definition list_proposals :: "('s, 'o) change_world \<Rightarrow> proposal_record list" where
  "list_proposals W = sort_key prp_created_at (map snd (cw_proposals W))"

definition get_proposal :: "('s, 'o) change_world \<Rightarrow> str \<Rightarrow> proposal_error + proposal_record" where
  "get_proposal W i = ok_or (bt_get (cw_proposals W) i) Proposal_Not_Found"

definition ensure_proposal_authority :: "(str, permission_grant_record) btree_map \<Rightarrow> protocol_context \<Rightarrow> proposal_record \<Rightarrow> str \<Rightarrow> bool
    \<Rightarrow> proposal_error + unit" where
  "ensure_proposal_authority gs c p operation_permission include_required_permissions =
     (if \<not> principal_has_grant gs (pc_principal c) operation_permission (Some (prp_id p)) then Inl Not_Authorized
      else if include_required_permissions
        \<and> \<not> list_all (\<lambda>permission. principal_has_grant gs (pc_principal c) permission
              (Some (case prp_target_session_id p of None \<Rightarrow> prp_id p | Some s \<Rightarrow> s))) (prp_required_permissions p)
      then Inl Lacks_Permission else Inr ())"

section \<open>Operations\<close>

definition preflight_operation :: "('s, 'o) substrate \<Rightarrow> proposal_operation \<Rightarrow> proposal_error + unit" where
  "preflight_operation S operation =
     (if pop_op operation = ''asset.put'' then
        (if field (pop_payload operation) ''content'' \<noteq> None \<and> Option.bind (field (pop_payload operation) ''content'') as_str = None
         then Inl Content_Not_String
         else (case field (pop_payload operation) ''mime'' of
             None \<Rightarrow> Inr ()
           | Some m \<Rightarrow> (case as_str m of Some t \<Rightarrow> if blank t then Inl Mime_Invalid else Inr () | None \<Rightarrow> Inl Mime_Invalid)))
      else if pop_op operation = ''projection.rebuild'' then
        (case pop_target operation of
           None \<Rightarrow> Inl Target_Required
         | Some i \<Rightarrow> (case projection_get S i of Inl e \<Rightarrow> Inl (Substrate_Failed e) | Inr _ \<Rightarrow> Inr ()))
      else Inl Unsupported_Operation)"

definition preflight_proposal_operations :: "('s, 'o) substrate \<Rightarrow> proposal_record \<Rightarrow> proposal_error + unit" where
  "preflight_proposal_operations S p = each (preflight_operation S) (prp_operations p)"

definition execute_proposal_operation :: "('s, 'o) change_ext \<Rightarrow> change_env \<Rightarrow> protocol_principal \<Rightarrow> proposal_record \<Rightarrow> proposal_operation
    \<Rightarrow> ('s, 'o) substrate \<Rightarrow> (proposal_error + json) \<times> ('s, 'o) substrate" where
  "execute_proposal_operation X env who p operation S =
     (if pop_op operation = ''asset.put'' then
        with_error Substrate_Failed (and_then_st (put_asset (cx_runtime X) (ce_id env 0) (ce_now env 0)
            \<lparr>apr_origin_package_id = Some (proposal_origin_package_id who),
             apr_mime = (case Option.bind (field (pop_payload operation) ''mime'') as_str of None \<Rightarrow> ''application/json'' | Some m \<Rightarrow> m),
             apr_content = (case Option.bind (field (pop_payload operation) ''content'') as_str of None \<Rightarrow> ''{}'' | Some t \<Rightarrow> t),
             apr_metadata = jobj (jfield ''proposal_id'' (JStr (prp_id p))), apr_artifact = None\<rparr> (ce_stamp env) S)
          (\<lambda>a S. (Inr (jobj (jfield ''op'' (JStr (pop_op operation)) @ jfield ''asset_id'' (JStr (as_id a)))), S)))
      else if pop_op operation = ''projection.rebuild'' then
        (case pop_target operation of
           None \<Rightarrow> (Inl Target_Required, S)
         | Some i \<Rightarrow> with_error Substrate_Failed (and_then_st (projection_rebuild (cx_runtime X) i (ce_stamp env) S)
             (\<lambda>q S. (Inr (jobj (jfield ''op'' (JStr (pop_op operation)) @ jfield ''projection_id'' (JStr (pj_id q)))), S))))
      else (Inl Unsupported_Operation, S))"

text \<open>A receipt is recorded in the object store; the trace and the receipt get new ids.\<close>

definition record_receipt :: "('s, 'o) change_ext \<Rightarrow> change_env \<Rightarrow> (str \<Rightarrow> effect_receipt_request) \<Rightarrow> ('s, 'o) substrate
    \<Rightarrow> (proposal_error + artifact_descriptor) \<times> ('s, 'o) substrate" where
  "record_receipt X env request S =
     (case record_effect_receipt (cx_ext X) (cx_codec X) (rx_objects (cx_runtime X)) (ce_id env 2) (ce_now env 2) (request (ce_id env 1)) (sb_objects S) of
        (r, st) \<Rightarrow> (case r of Inl e \<Rightarrow> Inl (Receipt_Failed e) | Inr d \<Rightarrow> Inr d, S\<lparr>sb_objects := st\<rparr>))"

definition replay_receipt :: "('s, 'o) change_ext \<Rightarrow> str \<Rightarrow> ('s, 'o) substrate \<Rightarrow> (proposal_error + effect_replay_result) \<times> ('s, 'o) substrate" where
  "replay_receipt X digest S =
     (case replay_effect_receipt (cx_codec X) (rx_objects (cx_runtime X)) digest (sb_objects S) of
        (r, st) \<Rightarrow> (case r of Inl e \<Rightarrow> Inl (Receipt_Failed e) | Inr d \<Rightarrow> Inr d, S\<lparr>sb_objects := st\<rparr>))"

section \<open>Committing\<close>

definition committed_proposal :: "change_env \<Rightarrow> proposal_record \<Rightarrow> proposal_status \<Rightarrow> change_commit_status \<Rightarrow> int
    \<Rightarrow> artifact_descriptor list \<Rightarrow> json \<Rightarrow> str option \<Rightarrow> artifact_descriptor \<Rightarrow> effect_replay_result \<Rightarrow> proposal_record" where
  "committed_proposal env p status commit_status started_at operation_receipts result failure_code receipt replayed =
     p\<lparr>prp_status := status, prp_result := Some result,
       prp_commit := Some \<lparr>cm_id = ce_id env 3, cm_commit_type_uri = CHANGE_COMMIT_TYPE_URI,
         cm_change_set_id = (case prp_change_set p of Some c \<Rightarrow> cs_id c | None \<Rightarrow> prp_id p), cm_status = commit_status,
         cm_started_at = started_at, cm_completed_at = ce_now env 3, cm_operation_receipts = operation_receipts,
         cm_result_refs = rcp_output_refs (ep_receipt replayed), cm_error = failure_code, cm_branch_id = prp_target_branch_id p,
         cm_idempotency_key = Option.bind (prp_change_set p) cs_idempotency_key\<rparr>,
       prp_receipt := Some receipt\<rparr>"

text \<open>The receipt of the commit is recorded and read back; the record that results is not stored yet.\<close>

definition commit_applied :: "('s, 'o) change_ext \<Rightarrow> change_env \<Rightarrow> protocol_principal \<Rightarrow> proposal_record \<Rightarrow> int \<Rightarrow> json list
    \<Rightarrow> artifact_descriptor list \<Rightarrow> ('s, 'o) substrate \<Rightarrow> (proposal_error + proposal_record) \<times> ('s, 'o) substrate" where
  "commit_applied X env who p started_at results operation_receipts S =
     (let result = jobj (jfield ''operations'' (JArr results)) in
      and_then_st (record_receipt X env (\<lambda>trace. proposal_effect_request (cx_ext X) p who ''change.commit'' Succeeded started_at
          (proposal_elapsed_ms (ce_elapsed env 1)) trace operation_receipts (Some result) False) S) (\<lambda>receipt S.
      and_then_st (replay_receipt X (ad_digest receipt) S) (\<lambda>replayed S.
        (Inr (committed_proposal env p Status_Applied Commit_Committed started_at operation_receipts result None receipt replayed), S))))"

definition finish_failed_proposal :: "('s, 'o) change_ext \<Rightarrow> change_env \<Rightarrow> protocol_principal \<Rightarrow> proposal_record \<Rightarrow> int \<Rightarrow> u64
    \<Rightarrow> artifact_descriptor list \<Rightarrow> json list \<Rightarrow> bool \<Rightarrow> failure_evidence \<Rightarrow> ('s, 'o) substrate
    \<Rightarrow> (proposal_error + proposal_record) \<times> ('s, 'o) substrate" where
  "finish_failed_proposal X env who p started_at duration_ms operation_receipts results partial failure S =
     (let result = jobj (jfield ''operations'' (JArr results) @ jfield ''failure'' (jobj (jfield ''code'' (JStr (fe_code failure))
            @ jfield ''message_fingerprint'' (JStr (fe_message_fingerprint failure))))) in
      and_then_st (record_receipt X env (\<lambda>trace. proposal_effect_request (cx_ext X) p who ''change.commit''
          (if partial then Partial else Effect_Failed) started_at duration_ms trace operation_receipts (Some result) True) S) (\<lambda>receipt S.
      and_then_st (replay_receipt X (ad_digest receipt) S) (\<lambda>replayed S.
        (Inr (committed_proposal env p (if partial then Status_Partial else Status_Failed)
           (if partial then Commit_Partial else Commit_Failed) started_at operation_receipts result
           (Some (fe_code failure)) receipt replayed), S))))"

section \<open>Calls as steps\<close>

datatype proposal_call =
    Create protocol_context proposal_record
  | Approve protocol_context str "str option"
  | Reject protocol_context str "str option"
  | Apply protocol_context str
  | Fail str str

text \<open>What follows the storing of a finished record: \<open>apply_proposal\<close> returns it, or the error of the
  operation that failed; \<open>fail_proposal\<close> puts the old status back when it could not finish.\<close>

datatype conclusion = Return | Report proposal_error | Restore str proposal_status

datatype phase =
    Started proposal_call
  | Found proposal_call int proposal_record
  | Authorized proposal_call int proposal_record
  | Rejecting protocol_context proposal_record
  | Reinserting proposal_record
  | Claimed protocol_context proposal_record int
  | Executing protocol_context proposal_record int nat "json list" "artifact_descriptor list"
  | Failing protocol_principal proposal_record int u64 "artifact_descriptor list" "json list" bool failure_evidence conclusion
  | Replacing proposal_record str conclusion
  | Announcing str proposal_record conclusion
  | Restoring str proposal_status proposal_error
  | Finished "proposal_error + proposal_record"

type_synonym ('s, 'o) phase_result = "phase \<times> ('s, 'o) change_world"

fun conclude :: "conclusion \<Rightarrow> proposal_error + proposal_record \<Rightarrow> phase" where
  "conclude Return r = Finished r"
| "conclude (Report error) r = Finished (case r of Inl e \<Rightarrow> Inl e | Inr _ \<Rightarrow> Inl error)"
| "conclude (Restore i previous) r = (case r of Inl e \<Rightarrow> Restoring i previous e | Inr p \<Rightarrow> Finished (Inr p))"

definition store_proposal :: "proposal_record \<Rightarrow> ('s, 'o) change_world \<Rightarrow> ('s, 'o) change_world" where
  "store_proposal p W = W\<lparr>cw_proposals := bt_insert (prp_id p) p (cw_proposals W)\<rparr>"

definition on_substrate :: "(proposal_error + 'a) \<times> ('s, 'o) substrate \<Rightarrow> (proposal_error \<Rightarrow> phase) \<Rightarrow> ('a \<Rightarrow> phase)
    \<Rightarrow> ('s, 'o) change_world \<Rightarrow> ('s, 'o) phase_result" where
  "on_substrate r failed succeeded W =
     (case fst r of Inl e \<Rightarrow> failed e | Inr x \<Rightarrow> succeeded x, W\<lparr>cw_substrate := snd r\<rparr>)"

definition create_proposal :: "('s, 'o) change_ext \<Rightarrow> change_env \<Rightarrow> protocol_context \<Rightarrow> proposal_record \<Rightarrow> ('s, 'o) change_world
    \<Rightarrow> ('s, 'o) phase_result" where
  "create_proposal X env c p W =
     (if has_findings (scan_value_for_raw_secrets (cx_ext X) (proposal_value (cx_ext X) p) []) then (Finished (Inl Raw_Secret_In_Proposal), W)
      else let p = created_proposal env c p in (Announcing EVENT_PROPOSAL_CREATED p Return, store_proposal p W))"

text \<open>The section that holds the table's lock for writing: the record must exist and have the status
  that the call asks for.\<close>

definition claim :: "('s, 'o) change_world \<Rightarrow> str \<Rightarrow> (proposal_status \<Rightarrow> bool) \<Rightarrow> proposal_error
    \<Rightarrow> (proposal_record \<Rightarrow> proposal_record) \<Rightarrow> (proposal_record \<Rightarrow> proposal_record \<Rightarrow> phase) \<Rightarrow> ('s, 'o) phase_result" where
  "claim W i accepted refusal change continue =
     (case bt_get (cw_proposals W) i of
        None \<Rightarrow> (Finished (Inl Proposal_Not_Found), W)
      | Some p \<Rightarrow>
          if \<not> accepted (prp_status p) then (Finished (Inl refusal), W)
          else (continue p (change p), W\<lparr>cw_proposals := bt_insert i (change p) (cw_proposals W)\<rparr>))"

definition fail_proposal :: "('s, 'o) change_ext \<Rightarrow> change_env \<Rightarrow> str \<Rightarrow> str \<Rightarrow> ('s, 'o) change_world \<Rightarrow> ('s, 'o) phase_result" where
  "fail_proposal X env i error W =
     claim W i (\<lambda>s. s = Status_Created \<or> s = Status_Approved) Cannot_Be_Failed (\<lambda>p. p\<lparr>prp_status := Status_Applying\<rparr>)
       (\<lambda>old p. Failing (Package PLATFORM_RUNTIME_ID) p (ce_now env 0) 1 [] [] False
          (proposal_failure_evidence (cx_ext X) ''externally_failed'' error) (Restore i (prp_status old)))"

fun start_call :: "('s, 'o) change_ext \<Rightarrow> change_env \<Rightarrow> proposal_call \<Rightarrow> ('s, 'o) change_world \<Rightarrow> ('s, 'o) phase_result" where
  "start_call X env (Create c p) W = create_proposal X env c p W"
| "start_call X env (Fail i error) W = fail_proposal X env i error W"
| "start_call X env (Approve c i r) W = (case get_proposal W i of Inl e \<Rightarrow> Finished (Inl e) | Inr p \<Rightarrow> Found (Approve c i r) (ce_now env 0) p, W)"
| "start_call X env (Reject c i r) W = (case get_proposal W i of Inl e \<Rightarrow> Finished (Inl e) | Inr p \<Rightarrow> Found (Reject c i r) (ce_now env 0) p, W)"
| "start_call X env (Apply c i) W = (case get_proposal W i of Inl e \<Rightarrow> Finished (Inl e) | Inr p \<Rightarrow> Found (Apply c i) (ce_now env 0) p, W)"

fun authority_of_call :: "(str, permission_grant_record) btree_map \<Rightarrow> proposal_call \<Rightarrow> proposal_record \<Rightarrow> proposal_error + unit" where
  "authority_of_call gs (Approve c i r) p = ensure_proposal_authority gs c p PROPOSAL_APPROVE_PERMISSION False"
| "authority_of_call gs (Reject c i r) p = ensure_proposal_authority gs c p PROPOSAL_REJECT_PERMISSION False"
| "authority_of_call gs (Apply c i) p = ensure_proposal_authority gs c p PROPOSAL_APPLY_PERMISSION True"
| "authority_of_call gs _ p = Inl Not_Authorized"

fun claim_call :: "change_env \<Rightarrow> proposal_call \<Rightarrow> int \<Rightarrow> ('s, 'o) change_world \<Rightarrow> ('s, 'o) phase_result" where
  "claim_call env (Approve c i r) t W = claim W i (\<lambda>s. s = Status_Created) Not_Awaiting_Approval
     (decided_proposal Status_Approved Outcome_Allowed c r (ce_now env 0)) (\<lambda>_ p. Announcing EVENT_PROPOSAL_APPROVED p Return)"
| "claim_call env (Reject c i r) t W = claim W i (\<lambda>s. s = Status_Created) Not_Awaiting_Review
     (decided_proposal Status_Rejected Outcome_Denied c r (ce_now env 0)) (\<lambda>_ p. Rejecting c p)"
| "claim_call env (Apply c i) t W = claim W i (\<lambda>s. s = Status_Approved) Not_Approved
     (\<lambda>p. p\<lparr>prp_status := Status_Applying\<rparr>) (\<lambda>_ p. Claimed c p t)"
| "claim_call env _ t W = (Finished (Inl Not_Authorized), W)"

definition reject_receipt :: "('s, 'o) change_ext \<Rightarrow> change_env \<Rightarrow> protocol_context \<Rightarrow> proposal_record \<Rightarrow> ('s, 'o) change_world
    \<Rightarrow> ('s, 'o) phase_result" where
  "reject_receipt X env c p W =
     on_substrate (record_receipt X env (\<lambda>trace. proposal_effect_request (cx_ext X) p (pc_principal c) ''change.policy'' Denied
         (case prp_approval p of Some a \<Rightarrow> pap_decided_at a | None \<Rightarrow> ce_now env 0) 1 trace [] None False) (cw_substrate W))
       (\<lambda>e. Finished (Inl e)) (\<lambda>d. Reinserting (p\<lparr>prp_receipt := Some d\<rparr>)) W"

definition preflight :: "('s, 'o) change_ext \<Rightarrow> change_env \<Rightarrow> protocol_context \<Rightarrow> proposal_record \<Rightarrow> int \<Rightarrow> ('s, 'o) change_world
    \<Rightarrow> ('s, 'o) phase_result" where
  "preflight X env c p started_at W =
     (case preflight_proposal_operations (cw_substrate W) p of
        Inl error \<Rightarrow> Failing (pc_principal c) p started_at (proposal_elapsed_ms (ce_elapsed env 0)) [] [] False
          (proposal_failure_evidence (cx_ext X) ''preflight_failed'' (cx_message X error)) (Report error)
      | Inr _ \<Rightarrow> Executing c p started_at 0 [] [], W)"

definition execute_next :: "('s, 'o) change_ext \<Rightarrow> change_env \<Rightarrow> protocol_context \<Rightarrow> proposal_record \<Rightarrow> int \<Rightarrow> nat \<Rightarrow> json list
    \<Rightarrow> artifact_descriptor list \<Rightarrow> ('s, 'o) change_world \<Rightarrow> ('s, 'o) phase_result" where
  "execute_next X env c p started_at index results receipts W =
     (let operation = prp_operations p ! index;
          (r, S) = execute_proposal_operation X env (pc_principal c) p operation (cw_substrate W);
          effect = (\<lambda>status output. record_receipt X env (\<lambda>trace. operation_effect_request (cx_ext X) p (pc_principal c) operation index
             status (ce_now env 1) (proposal_elapsed_ms (ce_elapsed env 0)) trace output) S) in
      case r of
        Inr result \<Rightarrow> on_substrate (effect Succeeded (Some result)) (\<lambda>e. Finished (Inl e))
          (\<lambda>d. Executing c p started_at (Suc index) (results @ [result]) (receipts @ [d])) W
      | Inl error \<Rightarrow> on_substrate (effect Effect_Failed None) (\<lambda>e. Finished (Inl e))
          (\<lambda>d. Failing (pc_principal c) p started_at (proposal_elapsed_ms (ce_elapsed env 1)) (receipts @ [d]) results (0 < index)
             (proposal_failure_evidence (cx_ext X) ''operation_failed'' (cx_message X error)) (Report error)) W)"

definition replace_proposal_if_status :: "proposal_record \<Rightarrow> str \<Rightarrow> conclusion \<Rightarrow> ('s, 'o) change_world \<Rightarrow> ('s, 'o) phase_result" where
  "replace_proposal_if_status p kind next_step W =
     (case bt_get (cw_proposals W) (prp_id p) of
        None \<Rightarrow> (conclude next_step (Inl Proposal_Not_Found), W)
      | Some current \<Rightarrow>
          if prp_status current \<noteq> Status_Applying then (conclude next_step (Inl Changed_During_Commit), W)
          else (Announcing kind p next_step, store_proposal p W))"

definition announce :: "('s, 'o) change_ext \<Rightarrow> change_env \<Rightarrow> str \<Rightarrow> proposal_record \<Rightarrow> conclusion \<Rightarrow> ('s, 'o) change_world
    \<Rightarrow> ('s, 'o) phase_result" where
  "announce X env kind p next_step W =
     on_substrate (with_error Substrate_Failed (append_platform_event (cx_runtime X) (''platform_proposal_'' @ prp_id p) kind
         (proposal_value (cx_ext X) p) (ce_stamp env) (cw_substrate W)))
       (\<lambda>e. conclude next_step (Inl e)) (\<lambda>_. conclude next_step (Inr p)) W"

definition restore_status :: "str \<Rightarrow> proposal_status \<Rightarrow> ('s, 'o) change_world \<Rightarrow> ('s, 'o) change_world" where
  "restore_status i previous W =
     (case bt_get (cw_proposals W) i of
        Some p \<Rightarrow> if prp_status p = Status_Applying
          then W\<lparr>cw_proposals := bt_insert i (p\<lparr>prp_status := previous\<rparr>) (cw_proposals W)\<rparr> else W
      | None \<Rightarrow> W)"

fun advance :: "('s, 'o) change_ext \<Rightarrow> change_env \<Rightarrow> phase \<Rightarrow> ('s, 'o) change_world \<Rightarrow> ('s, 'o) phase_result" where
  "advance X env (Started call) W = start_call X env call W"
| "advance X env (Found call t p) W =
     (case authority_of_call (sb_grants (cw_substrate W)) call p of Inl e \<Rightarrow> Finished (Inl e) | Inr _ \<Rightarrow> Authorized call t p, W)"
| "advance X env (Authorized call t p) W = claim_call env call t W"
| "advance X env (Rejecting c p) W = reject_receipt X env c p W"
| "advance X env (Reinserting p) W = (Announcing EVENT_PROPOSAL_REJECTED p Return, store_proposal p W)"
| "advance X env (Claimed c p t) W = preflight X env c p t W"
| "advance X env (Executing c p t index results receipts) W =
     (if index < length (prp_operations p) then execute_next X env c p t index results receipts W
      else on_substrate (commit_applied X env (pc_principal c) p t results receipts (cw_substrate W))
        (\<lambda>e. Finished (Inl e)) (\<lambda>q. Replacing q EVENT_PROPOSAL_APPLIED Return) W)"
| "advance X env (Failing who p t ms receipts results partial failure next_step) W =
     on_substrate (finish_failed_proposal X env who p t ms receipts results partial failure (cw_substrate W))
       (\<lambda>e. conclude next_step (Inl e)) (\<lambda>q. Replacing q EVENT_PROPOSAL_FAILED next_step) W"
| "advance X env (Replacing p kind next_step) W = replace_proposal_if_status p kind next_step W"
| "advance X env (Announcing kind p next_step) W = announce X env kind p next_step W"
| "advance X env (Restoring i previous e) W = (Finished (Inl e), restore_status i previous W)"
| "advance X env (Finished r) W = (Finished r, W)"

end
