(* ===== verification/Proposal_Props.thy ===== *)
theory Proposal_Props
  imports Proposals
begin

text \<open>
  Any number of calls on proposals that run at the same time: who may change a record, that a proposal
  is executed at most once, and where the table leaves these rules.
\<close>

section \<open>Interleaved calls\<close>

text \<open>A proposal is not created under an id that the table already has.\<close>

fun creates_fresh :: "change_env \<Rightarrow> phase \<Rightarrow> ('s, 'o) change_world \<Rightarrow> bool" where
  "creates_fresh env (Started (Create c p)) W = (bt_get (cw_proposals W) (prp_id (created_proposal env c p)) = None)"
| "creates_fresh env _ W = True"

inductive change_step :: "('s, 'o) change_ext \<Rightarrow> ('s, 'o) change_world \<times> phase list \<Rightarrow> ('s, 'o) change_world \<times> phase list \<Rightarrow> bool"
  for X where
  Begin: "change_step X (W, ps) (W, ps @ [Started call])"
| Advance: "k < length ps \<Longrightarrow> creates_fresh env (ps ! k) W \<Longrightarrow> advance X env (ps ! k) W = (ph, W') \<Longrightarrow>
    change_step X (W, ps) (W', ps[k := ph])"
| Substrate: "change_step X (W, ps) (W\<lparr>cw_substrate := S\<rparr>, ps)"

inductive change_reachable :: "('s, 'o) change_ext \<Rightarrow> ('s, 'o) change_world \<times> phase list \<Rightarrow> bool" for X where
  Start: "cw_proposals W = [] \<Longrightarrow> change_reachable X (W, [])"
| Step: "change_reachable X st \<Longrightarrow> change_step X st st' \<Longrightarrow> change_reachable X st'"

inductive_cases change_step_cases [elim]: "change_step X st st'"

section \<open>What a step may do to the table\<close>

text \<open>What stays of a proposal for its whole life.\<close>

definition proposal_core where
  "proposal_core p = (prp_id p, prp_operations p, prp_required_permissions p, prp_target_session_id p, prp_target_branch_id p,
     prp_change_set p, prp_intent p, prp_created_by p)"

definition final :: "proposal_status \<Rightarrow> bool" where
  "final s \<longleftrightarrow> s = Status_Applied \<or> s = Status_Partial \<or> s = Status_Failed"

definition open_status :: "proposal_status \<Rightarrow> bool" where
  "open_status s \<longleftrightarrow> s = Status_Created \<or> s = Status_Approved"

text \<open>The calls that hold a proposal, by its id, and those that may give it back.\<close>

fun holder :: "phase \<Rightarrow> str option" where
  "holder (Claimed c p t) = Some (prp_id p)"
| "holder (Executing c p t index results receipts) = Some (prp_id p)"
| "holder (Failing who p t ms receipts results partial failure next_step) = Some (prp_id p)"
| "holder (Replacing p kind next_step) = Some (prp_id p)"
| "holder (Announcing kind p (Restore i previous)) = Some i"
| "holder (Restoring i previous e) = Some i"
| "holder _ = None"

fun restores :: "phase \<Rightarrow> bool" where
  "restores (Failing who p t ms receipts results partial failure (Restore i previous)) = True"
| "restores (Replacing p kind (Restore i previous)) = True"
| "restores (Announcing kind p (Restore i previous)) = True"
| "restores (Restoring i previous e) = True"
| "restores _ = False"

definition stored_as :: "(str, proposal_record) btree_map \<Rightarrow> proposal_record \<Rightarrow> (proposal_record \<Rightarrow> bool) \<Rightarrow> bool" where
  "stored_as m p P \<longleftrightarrow> (\<exists>q. bt_get m (prp_id p) = Some q \<and> proposal_core q = proposal_core p \<and> P q)"

fun call_id :: "proposal_call \<Rightarrow> str option" where
  "call_id (Approve c i r) = Some i"
| "call_id (Reject c i r) = Some i"
| "call_id (Apply c i) = Some i"
| "call_id _ = None"

fun restore_ok :: "(str, proposal_record) btree_map \<Rightarrow> str \<Rightarrow> conclusion \<Rightarrow> bool" where
  "restore_ok m i (Restore j previous) \<longleftrightarrow> i = j \<and> open_status previous
     \<and> (\<exists>q. bt_get m j = Some q \<and> (prp_status q = Status_Applying \<and> (previous = Status_Approved \<longrightarrow> prp_approval q \<noteq> None) \<or> final (prp_status q)))"
| "restore_ok m i _ \<longleftrightarrow> True"

abbreviation applying :: "proposal_record \<Rightarrow> bool" where
  "applying q \<equiv> prp_status q = Status_Applying"

fun phase_ok :: "(str, proposal_record) btree_map \<Rightarrow> phase \<Rightarrow> bool" where
  "phase_ok m (Found call t p) \<longleftrightarrow> call_id call = Some (prp_id p) \<and> stored_as m p (\<lambda>_. True)"
| "phase_ok m (Authorized call t p) \<longleftrightarrow> call_id call = Some (prp_id p) \<and> stored_as m p (\<lambda>_. True)"
| "phase_ok m (Rejecting c p) \<longleftrightarrow> prp_status p = Status_Rejected \<and> stored_as m p (\<lambda>q. prp_status q = Status_Rejected)"
| "phase_ok m (Reinserting p) \<longleftrightarrow> prp_status p = Status_Rejected \<and> stored_as m p (\<lambda>q. prp_status q = Status_Rejected)"
| "phase_ok m (Claimed c p t) \<longleftrightarrow> prp_approval p \<noteq> None \<and> stored_as m p applying"
| "phase_ok m (Executing c p t index results receipts) \<longleftrightarrow> prp_approval p \<noteq> None \<and> stored_as m p applying"
| "phase_ok m (Failing who p t ms receipts results partial failure next_step) \<longleftrightarrow> stored_as m p applying \<and> restore_ok m (prp_id p) next_step"
| "phase_ok m (Replacing p kind next_step) \<longleftrightarrow> final (prp_status p) \<and> stored_as m p applying \<and> restore_ok m (prp_id p) next_step"
| "phase_ok m (Announcing kind p next_step) \<longleftrightarrow> restore_ok m (prp_id p) next_step"
| "phase_ok m (Restoring i previous e) \<longleftrightarrow> restore_ok m i (Restore i previous)"
| "phase_ok m _ \<longleftrightarrow> True"

definition record_ok :: "str \<Rightarrow> proposal_record \<Rightarrow> bool" where
  "record_ok i p \<longleftrightarrow> prp_id p = i \<and> (prp_status p = Status_Approved \<longrightarrow> prp_approval p \<noteq> None)"

definition table_ok :: "(str, proposal_record) btree_map \<Rightarrow> bool" where
  "table_ok m \<longleftrightarrow> (\<forall>i p. bt_get m i = Some p \<longrightarrow> record_ok i p)"

definition status_move :: "phase \<Rightarrow> str \<Rightarrow> proposal_status \<Rightarrow> proposal_status \<Rightarrow> bool" where
  "status_move ph i s s' \<longleftrightarrow> (s, s') \<in> {(Status_Created, Status_Approved), (Status_Created, Status_Rejected),
       (Status_Created, Status_Applying), (Status_Approved, Status_Applying), (Status_Rejected, Status_Rejected)}
     \<or> holder ph = Some i \<and> s = Status_Applying \<and> (final s' \<or> restores ph \<and> open_status s')"

definition table_move :: "phase \<Rightarrow> (str, proposal_record) btree_map \<Rightarrow> (str, proposal_record) btree_map \<Rightarrow> bool" where
  "table_move ph m m' \<longleftrightarrow> m' = m \<or> (\<exists>i q. m' = bt_insert i q m \<and> record_ok i q \<and>
     (case bt_get m i of
        None \<Rightarrow> prp_status q = Status_Created
      | Some p \<Rightarrow> proposal_core q = proposal_core p \<and> status_move ph i (prp_status p) (prp_status q)))"

definition new_holder :: "(str, proposal_record) btree_map \<Rightarrow> phase \<Rightarrow> phase \<Rightarrow> bool" where
  "new_holder m ph ph' \<longleftrightarrow> holder ph' = None \<or> (holder ph' = holder ph \<and> (restores ph' \<longrightarrow> restores ph))
     \<or> (\<exists>i p. holder ph' = Some i \<and> bt_get m i = Some p \<and> open_status (prp_status p))"

definition step_ok :: "('s, 'o) change_world \<Rightarrow> phase \<Rightarrow> phase \<times> ('s, 'o) change_world \<Rightarrow> bool" where
  "step_ok W ph r \<longleftrightarrow> table_move ph (cw_proposals W) (cw_proposals (snd r)) \<and> phase_ok (cw_proposals (snd r)) (fst r)
     \<and> new_holder (cw_proposals W) ph (fst r)"

section \<open>Every step keeps to it\<close>

lemma table_move_insert:
  "record_ok i q \<Longrightarrow> bt_get m i = Some p \<Longrightarrow> proposal_core q = proposal_core p \<Longrightarrow> status_move ph i (prp_status p) (prp_status q) \<Longrightarrow>
     table_move ph m (bt_insert i q m)"
  "record_ok i q \<Longrightarrow> bt_get m i = None \<Longrightarrow> prp_status q = Status_Created \<Longrightarrow> table_move ph m (bt_insert i q m)"
  unfolding table_move_def by (intro disjI2 exI [of _ i] exI [of _ q], simp)+

lemma table_move_refl [simp]: "table_move ph m m"
  by (simp add: table_move_def)

lemma step_same:
  "phase_ok (cw_proposals W) ph' \<Longrightarrow> new_holder (cw_proposals W) ph ph' \<Longrightarrow> cw_proposals W' = cw_proposals W \<Longrightarrow> step_ok W ph (ph', W')"
  by (simp add: step_ok_def)

lemma new_holder_None [simp]: "holder ph' = None \<Longrightarrow> new_holder m ph ph'"
  by (simp add: new_holder_def)

lemma new_holder_same: "holder ph' = holder ph \<Longrightarrow> (restores ph' \<Longrightarrow> restores ph) \<Longrightarrow> new_holder m ph ph'"
  by (auto simp: new_holder_def)

lemma finished_step [simp]: "step_ok W ph (Finished r, W)"
  by (simp add: step_same)

lemma on_substrate_step:
  assumes "\<And>e. fst r = Inl e \<Longrightarrow> phase_ok (cw_proposals W) (f e) \<and> new_holder (cw_proposals W) ph (f e)"
    and "\<And>x. fst r = Inr x \<Longrightarrow> phase_ok (cw_proposals W) (g x) \<and> new_holder (cw_proposals W) ph (g x)"
  shows "step_ok W ph (on_substrate r f g W)"
  using assms by (auto simp: on_substrate_def intro!: step_same split: sum.split)

lemma conclude_ok:
  "restore_ok m i next_step \<Longrightarrow> phase_ok m (conclude next_step r)"
  by (cases next_step; cases r) auto

lemma conclude_holder:
  "restore_ok m i next_step \<Longrightarrow> holder (conclude next_step r) \<in> {None, Some i}"
  "restores (conclude next_step r) \<Longrightarrow> \<exists>j previous. next_step = Restore j previous"
  by (cases next_step; cases r; auto)+

lemma conclude_step:
  assumes "restore_ok m i next_step" and "holder ph = Some i \<or> next_step = Return" and "\<And>j previous. next_step = Restore j previous \<Longrightarrow> restores ph"
  shows "new_holder m ph (conclude next_step r)"
  using conclude_holder(1) [OF assms(1), of r] conclude_holder(2) [of next_step r] assms(2,3)
  by (cases next_step) (auto simp: new_holder_def)

lemma claim_step:
  assumes "table_ok (cw_proposals W)"
    and "\<And>p. bt_get (cw_proposals W) i = Some p \<Longrightarrow> accepted (prp_status p) \<Longrightarrow> record_ok i p \<Longrightarrow>
      record_ok i (change p) \<and> proposal_core (change p) = proposal_core p \<and> status_move ph i (prp_status p) (prp_status (change p))
      \<and> phase_ok (bt_insert i (change p) (cw_proposals W)) (continue p (change p))
      \<and> new_holder (cw_proposals W) ph (continue p (change p))"
  shows "step_ok W ph (claim W i accepted refusal change continue)"
proof (cases "bt_get (cw_proposals W) i")
  case (Some p)
  then have "record_ok i p" using assms(1) by (simp add: table_ok_def)
  then show ?thesis using Some assms(2) [OF Some]
    by (auto simp: claim_def step_ok_def intro: table_move_insert)
qed (simp add: claim_def)

lemma core_status [simp]: "proposal_core (p\<lparr>prp_status := s\<rparr>) = proposal_core p" "proposal_core (decided_proposal s d c r t p) = proposal_core p"
  "prp_status (decided_proposal s d c r t p) = s" "prp_id (decided_proposal s d c r t p) = prp_id p"
  "prp_approval (decided_proposal s d c r t p) \<noteq> None" "proposal_core (p\<lparr>prp_receipt := x\<rparr>) = proposal_core p"
  by (simp_all add: proposal_core_def decided_proposal_def)

lemma core_committed [simp]:
  "proposal_core (committed_proposal env p s d t rs res f rc rr) = proposal_core p"
  "prp_status (committed_proposal env p s d t rs res f rc rr) = s" "prp_id (committed_proposal env p s d t rs res f rc rr) = prp_id p"
  by (simp_all add: proposal_core_def committed_proposal_def)

lemma claim_call_step:
  assumes "table_ok (cw_proposals W)" and "phase_ok (cw_proposals W) (Authorized call t p)"
  shows "step_ok W (Authorized call t p) (claim_call env call t W)"
proof (cases call)
  case (Approve c i r)
  show ?thesis unfolding Approve claim_call.simps
    by (rule claim_step [OF assms(1)]) (auto simp: record_ok_def status_move_def)
next
  case (Reject c i r)
  show ?thesis unfolding Reject claim_call.simps
    by (rule claim_step [OF assms(1)]) (auto simp: record_ok_def status_move_def stored_as_def bt_get_insert)
next
  case (Apply c i)
  show ?thesis unfolding Apply claim_call.simps
    by (rule claim_step [OF assms(1)])
      (auto simp: record_ok_def status_move_def stored_as_def bt_get_insert new_holder_def open_status_def)
qed auto

lemma start_call_step:
  assumes "table_ok (cw_proposals W)" and "creates_fresh env (Started call) W"
  shows "step_ok W (Started call) (start_call X env call W)"
proof (cases call)
  case (Create c p)
  then show ?thesis using assms(2)
    by (auto simp: create_proposal_def Let_def step_ok_def store_proposal_def record_ok_def created_proposal_def
        intro!: table_move_insert(2))
next
  case (Fail i error)
  show ?thesis unfolding Fail start_call.simps fail_proposal_def
    by (rule claim_step [OF assms(1)])
      (auto simp: record_ok_def status_move_def stored_as_def bt_get_insert new_holder_def open_status_def)
qed (use assms(1) in \<open>auto simp: get_proposal_def ok_or_def stored_as_def table_ok_def record_ok_def intro!: step_same split: option.split\<close>)

lemma replace_step:
  assumes "table_ok (cw_proposals W)" and "phase_ok (cw_proposals W) (Replacing p kind next_step)"
  shows "step_ok W (Replacing p kind next_step) (replace_proposal_if_status p kind next_step W)"
proof -
  from assms(2) obtain q where q: "bt_get (cw_proposals W) (prp_id p) = Some q" "proposal_core q = proposal_core p" "applying q"
    by (auto simp: stored_as_def)
  have "restore_ok (bt_insert (prp_id p) p (cw_proposals W)) (prp_id p) next_step"
    using assms(2) by (cases next_step) (auto simp: bt_get_insert)
  moreover have "new_holder (cw_proposals W) (Replacing p kind next_step) (Announcing kind p next_step)"
    using assms(2) by (cases next_step) (auto simp: new_holder_def)
  moreover have "status_move (Replacing p kind next_step) (prp_id p) (prp_status q) (prp_status p)" "record_ok (prp_id p) p"
    using q assms(2) by (auto simp: status_move_def record_ok_def final_def)
  ultimately show ?thesis using q
    by (auto simp: replace_proposal_if_status_def step_ok_def store_proposal_def intro: table_move_insert(1) [OF _ q(1)])
qed

lemma restore_step:
  assumes "table_ok (cw_proposals W)" and "phase_ok (cw_proposals W) (Restoring i previous e)"
  shows "step_ok W (Restoring i previous e) (Finished (Inl e), restore_status i previous W)"
proof -
  from assms(2) obtain q where q: "bt_get (cw_proposals W) i = Some q" "open_status previous"
    "applying q \<Longrightarrow> previous = Status_Approved \<Longrightarrow> prp_approval q \<noteq> None" by (auto simp: final_def)
  then have ok: "record_ok i q" using assms(1) by (simp add: table_ok_def)
  have "table_move (Restoring i previous e) (cw_proposals W) (bt_insert i (q\<lparr>prp_status := previous\<rparr>) (cw_proposals W))" if "applying q"
    by (rule table_move_insert(1) [OF _ q(1)]) (use ok q that in \<open>auto simp: record_ok_def status_move_def\<close>)
  then show ?thesis using q(1) by (simp add: restore_status_def step_ok_def)
qed

definition finishes :: "proposal_record \<Rightarrow> proposal_record \<Rightarrow> bool" where
  "finishes p q \<longleftrightarrow> final (prp_status q) \<and> prp_id q = prp_id p \<and> (\<forall>m P. stored_as m q P = stored_as m p P)"

lemma finishes_committed: "final s \<Longrightarrow> finishes p (committed_proposal env p s d t rs res f rc rr)"
  by (simp add: finishes_def stored_as_def)

lemma commit_applied_Inr: "fst (commit_applied X env who p t results receipts S) = Inr q \<Longrightarrow> finishes p q"
  by (auto simp: commit_applied_def Let_def and_then_st_def final_def split: prod.splits sum.splits intro!: finishes_committed)

lemma finish_failed_Inr:
  "fst (finish_failed_proposal X env who p t ms receipts results partial failure S) = Inr q \<Longrightarrow> finishes p q"
  by (auto simp: finish_failed_proposal_def Let_def and_then_st_def final_def split: prod.splits sum.splits intro!: finishes_committed)

lemma execute_step:
  assumes "phase_ok (cw_proposals W) (Executing c p t index results receipts)"
  shows "step_ok W (Executing c p t index results receipts) (execute_next X env c p t index results receipts W)"
  unfolding execute_next_def Let_def split_beta using assms
  by (auto intro!: on_substrate_step simp: new_holder_def split: sum.split)

lemma advance_step:
  assumes "table_ok (cw_proposals W)" and "phase_ok (cw_proposals W) ph" and "creates_fresh env ph W"
  shows "step_ok W ph (advance X env ph W)"
proof (cases ph)
  case (Executing c p t index results receipts)
  then have ok: "stored_as (cw_proposals W) p applying" using assms(2) by simp
  have "step_ok W ph (on_substrate (commit_applied X env (pc_principal c) p t results receipts (cw_substrate W))
      (\<lambda>e. Finished (Inl e)) (\<lambda>q. Replacing q EVENT_PROPOSAL_APPLIED Return) W)"
    by (rule on_substrate_step) (use ok in \<open>auto dest!: commit_applied_Inr simp: finishes_def Executing intro!: new_holder_same\<close>)
  then show ?thesis using execute_step [of W c p t index results receipts X env] assms(2) by (simp add: Executing)
next
  case (Failing who p t ms receipts results partial failure next_step)
  then have ok: "stored_as (cw_proposals W) p applying" "restore_ok (cw_proposals W) (prp_id p) next_step" using assms(2) by simp_all
  have fail: "new_holder (cw_proposals W) ph (conclude next_step (Inl e))" for e
    by (rule conclude_step [OF ok(2)]) (auto simp: Failing)
  have "restores (Replacing q kind next_step) = restores ph" for q kind by (cases next_step) (simp_all add: Failing)
  then show ?thesis unfolding Failing advance.simps using ok fail conclude_ok [OF ok(2)]
    by (intro on_substrate_step) (auto dest!: finish_failed_Inr simp: finishes_def Failing intro!: new_holder_same)
next
  case (Announcing kind p next_step)
  then show ?thesis using assms(2) unfolding announce_def advance.simps
    by (cases next_step) (auto simp: announce_def new_holder_def intro!: on_substrate_step)
next
  case (Reinserting p)
  then show ?thesis using assms(2)
    by (auto simp: step_ok_def store_proposal_def stored_as_def record_ok_def status_move_def intro!: table_move_insert(1))
next
  case (Claimed c p t)
  then show ?thesis using assms(2) by (auto simp: preflight_def new_holder_def intro!: step_same split: sum.split)
next
  case (Rejecting c p)
  then show ?thesis using assms(2) by (auto simp: reject_receipt_def stored_as_def intro!: on_substrate_step)
next
  case (Started call)
  then show ?thesis using start_call_step [OF assms(1)] assms(3) by simp
next
  case (Authorized call t p)
  then show ?thesis using claim_call_step [OF assms(1)] assms(2) by simp
next
  case (Replacing p kind next_step)
  then show ?thesis using replace_step [OF assms(1)] assms(2) by simp
next
  case (Restoring i previous e)
  then show ?thesis using restore_step [OF assms(1)] assms(2) by simp
qed (use assms(2) in \<open>auto intro!: step_same split: sum.split\<close>)

section \<open>Other calls\<close>

lemma holder_status:
  assumes "phase_ok m ph" and "holder ph = Some i"
  shows "\<exists>q. bt_get m i = Some q \<and> (applying q \<or> final (prp_status q))"
  using assms by (cases ph rule: holder.cases) (auto simp: stored_as_def)

lemma not_open: "open_status s \<Longrightarrow> s \<noteq> Status_Applying \<and> \<not> final s"
  by (auto simp: open_status_def final_def)

text \<open>How one record looks after a step.\<close>

lemma table_move_get:
  assumes "table_move ph m m'" and "bt_get m i = Some p"
  obtains q where "bt_get m' i = Some q" "proposal_core q = proposal_core p" "q = p \<or> status_move ph i (prp_status p) (prp_status q)"
proof (cases "bt_get m' i = Some p")
  case False
  with assms obtain q where "m' = bt_insert i q m" "proposal_core q = proposal_core p" "status_move ph i (prp_status p) (prp_status q)"
    by (auto simp: table_move_def bt_get_insert split: option.splits if_splits)
  then show ?thesis using that [of q] by (simp add: bt_get_insert)
qed (use that in blast)

lemma move_from:
  "status_move ph i s s' \<Longrightarrow> \<not> final s" "status_move ph i Status_Rejected s' \<Longrightarrow> s' = Status_Rejected"
  "status_move ph i Status_Applying s' \<Longrightarrow> holder ph = Some i"
  by (auto simp: status_move_def final_def)

lemma stored_as_move:
  assumes "table_move ph m m'" and "stored_as m p P"
    and "\<And>q q'. bt_get m (prp_id p) = Some q \<Longrightarrow> P q \<Longrightarrow> status_move ph (prp_id p) (prp_status q) (prp_status q') \<Longrightarrow> P q'"
  shows "stored_as m' p P"
  using assms(2,3) table_move_get [OF assms(1), of "prp_id p"] unfolding stored_as_def by metis

lemma restore_ok_move:
  assumes "table_move ph m m'" and "restore_ok m i c" and "\<And>j s. c = Restore j s \<Longrightarrow> holder ph \<noteq> Some j"
  shows "restore_ok m' i c"
proof (cases c)
  case (Restore j s)
  then obtain q where q: "bt_get m j = Some q" "applying q \<or> final (prp_status q)" using assms(2) by auto
  obtain q' where "bt_get m' j = Some q'" "q' = q" using table_move_get [OF assms(1) q(1)] q(2) move_from assms(3) Restore by metis
  then show ?thesis using assms(2) q(1) by (auto simp: Restore)
qed simp_all

lemma phase_ok_other:
  assumes "phase_ok m ph'" and "table_move ph m m'" and "holder ph = None \<or> holder ph' \<noteq> holder ph"
  shows "phase_ok m' ph'"
proof -
  have any: "stored_as m' p (\<lambda>_. True)" if "stored_as m p (\<lambda>_. True)" for p
    using stored_as_move [OF assms(2) that] by simp
  have rejected: "stored_as m' p (\<lambda>q. prp_status q = Status_Rejected)" if "stored_as m p (\<lambda>q. prp_status q = Status_Rejected)" for p
    using stored_as_move [OF assms(2) that] move_from(2) by metis
  have held: "stored_as m' p applying" if "stored_as m p applying" "holder ph' = Some (prp_id p)" for p
    using stored_as_move [OF assms(2) that(1)] move_from(3) that(2) assms(3) by (metis option.distinct(1))
  have conclusion: "restore_ok m' i c" if "restore_ok m i c" "\<And>j s. c = Restore j s \<Longrightarrow> holder ph' = Some j" for i c
    using restore_ok_move [OF assms(2) that(1)] that(2) assms(3) by (metis option.distinct(1))
  show ?thesis
  proof (cases ph')
    case (Announcing kind p next_step)
    then show ?thesis using assms(1) conclusion [of "prp_id p" next_step] by (cases next_step) auto
  next
    case (Restoring i s e)
    then show ?thesis using assms(1) conclusion [of i "Restore i s"] by auto
  next
    case (Failing who p t ms receipts results partial failure next_step)
    then show ?thesis using assms(1) conclusion [of "prp_id p" next_step] held by (cases next_step) auto
  next
    case (Replacing p kind next_step)
    then show ?thesis using assms(1) conclusion [of "prp_id p" next_step] held by (cases next_step) auto
  qed (use assms(1) any rejected held in auto)
qed

section \<open>The invariant\<close>

definition holders_distinct :: "phase list \<Rightarrow> bool" where
  "holders_distinct ps \<longleftrightarrow> (\<forall>j k. j < length ps \<and> k < length ps \<and> holder (ps ! j) \<noteq> None \<and> holder (ps ! j) = holder (ps ! k) \<longrightarrow> j = k)"

definition change_inv :: "('s, 'o) change_world \<times> phase list \<Rightarrow> bool" where
  "change_inv st \<longleftrightarrow> table_ok (cw_proposals (fst st)) \<and> (\<forall>ph\<in>set (snd st). phase_ok (cw_proposals (fst st)) ph) \<and> holders_distinct (snd st)"

lemma table_ok_move: "table_move ph m m' \<Longrightarrow> table_ok m \<Longrightarrow> table_ok m'"
  by (auto simp: table_move_def table_ok_def bt_get_insert split: if_splits)

lemma holders_distinct_update:
  assumes "holders_distinct ps" and "k < length ps" and "new_holder m (ps ! k) ph" and "\<forall>ph\<in>set ps. phase_ok m ph"
  shows "holders_distinct (ps[k := ph])"
proof -
  have "j = k" if "j < length ps" "holder (ps ! j) = Some i" "holder ph = Some i" for i j
  proof -
    from assms(3) that(3) consider "holder (ps ! k) = Some i" | p where "bt_get m i = Some p" "open_status (prp_status p)"
      by (auto simp: new_holder_def)
    then show ?thesis
    proof cases
      case 1
      then show ?thesis using assms(1,2) that by (auto simp: holders_distinct_def)
    next
      case 2
      then show ?thesis using holder_status [of m "ps ! j" i] assms(4) that not_open by fastforce
    qed
  qed
  then show ?thesis using assms(1,2) unfolding holders_distinct_def
    by (auto simp: nth_list_update split: if_splits) (metis not_None_eq)+
qed

lemma change_inv_step:
  assumes "change_inv st" and "change_step X st st'"
  shows "change_inv st'"
  using assms(2)
proof (cases rule: change_step.cases)
  case (Begin W ps call)
  then show ?thesis using assms(1) by (auto simp: change_inv_def holders_distinct_def nth_append)
next
  case (Substrate W ps S)
  then show ?thesis using assms(1) by (simp add: change_inv_def)
next
  case (Advance k ps env W ph W')
  have ok: "table_ok (cw_proposals W)" "\<forall>ph\<in>set ps. phase_ok (cw_proposals W) ph" "holders_distinct ps"
    using assms(1) Advance(1) by (auto simp: change_inv_def)
  have step: "step_ok W (ps ! k) (ph, W')" using advance_step [OF ok(1) _ Advance(4), of X] ok(2) Advance(3,5) by simp
  have "phase_ok (cw_proposals W') (ps ! j)" if "j < length ps" "j \<noteq> k" for j
  proof (rule phase_ok_other [where ph = "ps ! k"])
    show "holder (ps ! k) = None \<or> holder (ps ! j) \<noteq> holder (ps ! k)" using ok(3) that Advance(3) by (auto simp: holders_distinct_def)
  qed (use step ok(2) that in \<open>auto simp: step_ok_def\<close>)
  moreover have "phase_ok (cw_proposals W') ph" using step by (simp add: step_ok_def)
  ultimately have "\<forall>ph'\<in>set (ps[k := ph]). phase_ok (cw_proposals W') ph'"
    using Advance(3) by (auto simp: in_set_conv_nth nth_list_update)
  moreover have "table_ok (cw_proposals W')" using table_ok_move step ok(1) by (auto simp: step_ok_def)
  moreover have "holders_distinct (ps[k := ph])" using holders_distinct_update [OF ok(3) Advance(3) _ ok(2)] step by (simp add: step_ok_def)
  ultimately show ?thesis using Advance(2) by (simp add: change_inv_def)
qed

lemma change_reachable_inv: "change_reachable X st \<Longrightarrow> change_inv st"
proof (induction rule: change_reachable.induct)
  case (Start W)
  then show ?case by (simp add: change_inv_def table_ok_def holders_distinct_def)
qed (rule change_inv_step)

lemma change_steps_reachable: "(change_step X)\<^sup>*\<^sup>* st st' \<Longrightarrow> change_reachable X st \<Longrightarrow> change_reachable X st'"
  by (induction rule: rtranclp_induct) (auto intro: change_reachable.Step)

text \<open>A step as a move of the table, made by one call or by none.\<close>

lemma change_step_move:
  assumes "change_inv (W, ps)" and "change_step X (W, ps) (W', ps')"
  obtains "cw_proposals W' = cw_proposals W" "ps' = ps \<or> (\<exists>call. ps' = ps @ [Started call])"
  | k ph where "k < length ps" "ps' = ps[k := ph]" "step_ok W (ps ! k) (ph, W')"
  using assms(2)
proof (cases rule: change_step.cases)
  case (Advance k env ph)
  then have "step_ok W (ps ! k) (ph, W')" using advance_step [of W "ps ! k" env X] assms(1) by (simp add: change_inv_def)
  then show thesis using that(2) [of k ph] Advance by simp
qed (use that(1) in auto)

lemma change_step_get:
  assumes "change_inv (W, ps)" and "change_step X (W, ps) (W', ps')" and "bt_get (cw_proposals W) i = Some p"
  obtains q ph where "bt_get (cw_proposals W') i = Some q" "proposal_core q = proposal_core p"
    "q = p \<or> status_move ph i (prp_status p) (prp_status q) \<and> ph \<in> set ps"
  using change_step_move [OF assms(1,2)]
proof cases
  case 1
  then show ?thesis using that [of p undefined] assms(3) by simp
next
  case (2 k ph)
  note Moved = 2
  from Moved show ?thesis using that table_move_get [of "ps ! k" "cw_proposals W" "cw_proposals W'" i p] assms(3)
    by (metis fst_conv nth_mem snd_conv step_ok_def)
qed

text \<open>From the moment a call executes a proposal, no other call can hold it, and this one does not give
  it back.\<close>

definition locked :: "str \<Rightarrow> nat \<Rightarrow> ('s, 'o) change_world \<times> phase list \<Rightarrow> bool" where
  "locked i k st \<longleftrightarrow> (\<exists>q. bt_get (cw_proposals (fst st)) i = Some q \<and> (applying q \<or> final (prp_status q)))
     \<and> (\<forall>j < length (snd st). holder (snd st ! j) = Some i \<longrightarrow> j = k \<and> \<not> restores (snd st ! j))"

lemma locked_step:
  assumes "change_inv (W, ps)" and "locked i k (W, ps)" and "change_step X (W, ps) (W', ps')"
  shows "locked i k (W', ps')"
  using change_step_move [OF assms(1,3)]
proof cases
  case 1
  then show ?thesis using assms(2) by (auto simp: locked_def nth_append less_Suc_eq split: if_splits)
next
  case (2 l ph)
  note Moved = 2
  obtain q where q: "bt_get (cw_proposals W) i = Some q" "applying q \<or> final (prp_status q)" using assms(2) by (auto simp: locked_def)
  obtain q' where q': "bt_get (cw_proposals W') i = Some q'" "q' = q \<or> status_move (ps ! l) i (prp_status q) (prp_status q')"
    using table_move_get [of "ps ! l" _ "cw_proposals W'"] Moved(3) q(1) by (metis fst_conv snd_conv step_ok_def)
  have hold: "holder (ps ! l) = Some i \<Longrightarrow> l = k \<and> \<not> restores (ps ! l)" using assms(2) Moved(1) by (auto simp: locked_def)
  have "applying q' \<or> final (prp_status q')"
    using q'(2) q(2) hold by (auto simp: status_move_def final_def)
  moreover have "holder ph = Some i \<Longrightarrow> l = k \<and> \<not> restores ph"
    using Moved(3) hold q not_open by (fastforce simp: step_ok_def new_holder_def)
  ultimately show ?thesis using assms(2) q'(1) Moved(1,2) by (auto simp: locked_def nth_list_update split: if_splits)
qed

lemma locked_steps:
  assumes "(change_step X)\<^sup>*\<^sup>* (W, ps) st'" and "change_inv (W, ps)" and "locked i k (W, ps)"
  shows "change_inv st' \<and> locked i k st'"
  using assms
proof (induction rule: rtranclp_induct)
  case (step st1 st2)
  obtain W1 ps1 W2 ps2 where st: "st1 = (W1, ps1)" "st2 = (W2, ps2)" by fastforce
  have inv: "change_inv st1" "locked i k st1" using step by auto
  show ?case using change_inv_step [OF inv(1) step.hyps(2)] locked_step [OF inv [unfolded st] step.hyps(2) [unfolded st]] st by simp
qed simp

lemma core_steps:
  assumes "(change_step X)\<^sup>*\<^sup>* (W, ps) (W', ps')" and "change_inv (W, ps)" and "bt_get (cw_proposals W) i = Some p"
  shows "\<exists>q. bt_get (cw_proposals W') i = Some q \<and> proposal_core q = proposal_core p"
  using assms
proof (induction "(W', ps')" arbitrary: W' ps' rule: rtranclp_induct)
  case (step st1)
  obtain W1 ps1 where st1: "st1 = (W1, ps1)" by fastforce
  have inv: "change_inv (W1, ps1)"
    using step.hyps(1) step.prems(1) unfolding st1 by (induction rule: rtranclp_induct) (auto intro: change_inv_step)
  obtain q where q: "bt_get (cw_proposals W1) i = Some q" "proposal_core q = proposal_core p" using step st1 by blast
  then show ?case using change_step_get [OF inv step.hyps(2) [unfolded st1] q(1)] by metis
qed auto

text \<open>The caller and the change that an apply call was authorised for stay with it.\<close>

fun follows :: "protocol_context \<Rightarrow> proposal_record \<Rightarrow> phase \<Rightarrow> bool" where
  "follows c p (Started call) \<longleftrightarrow> False"
| "follows c p (Found call t q) \<longleftrightarrow> (\<exists>i. call = Apply c i) \<and> proposal_core q = proposal_core p"
| "follows c p (Authorized call t q) \<longleftrightarrow> (\<exists>i. call = Apply c i) \<and> proposal_core q = proposal_core p"
| "follows c p (Claimed c' q t) \<longleftrightarrow> c' = c \<and> proposal_core q = proposal_core p"
| "follows c p (Executing c' q t n rs ds) \<longleftrightarrow> c' = c \<and> proposal_core q = proposal_core p"
| "follows c p _ \<longleftrightarrow> True"

lemma follows_conclude [simp]: "follows c p (conclude next_step r)"
  by (cases next_step; cases r) auto

lemma follows_advance:
  assumes "follows c p ph" and "phase_ok (cw_proposals W) ph" and "table_ok (cw_proposals W)"
  shows "follows c p (fst (advance X env ph W))"
proof (cases ph)
  case (Authorized call t q)
  then show ?thesis using assms by (auto simp: claim_def stored_as_def split: option.split)
qed (use assms in \<open>auto simp: on_substrate_def reject_receipt_def preflight_def execute_next_def announce_def Let_def split_beta
    replace_proposal_if_status_def split: sum.split option.split\<close>)

lemma follows_steps:
  assumes "(change_step X)\<^sup>*\<^sup>* (W, ps) (W', ps')" and "change_inv (W, ps)" and "k < length ps" and "follows c p (ps ! k)"
  shows "k < length ps' \<and> follows c p (ps' ! k)"
  using assms
proof (induction "(W', ps')" arbitrary: W' ps' rule: rtranclp_induct)
  case (step st1)
  obtain W1 ps1 where st1: "st1 = (W1, ps1)" by fastforce
  have inv: "change_inv (W1, ps1)"
    using step.hyps(1) step.prems(1) unfolding st1 by (induction rule: rtranclp_induct) (auto intro: change_inv_step)
  have k: "k < length ps1 \<and> follows c p (ps1 ! k)" using step st1 by blast
  from step.hyps(2) [unfolded st1] show ?case
  proof (cases rule: change_step.cases)
    case (Advance l env ph)
    then show ?thesis using k inv follows_advance [of c p "ps1 ! k" W1 X env]
      by (cases "l = k") (auto simp: change_inv_def nth_list_update)
  qed (use k in \<open>auto simp: nth_append\<close>)
qed auto

section \<open>Schedules\<close>

text \<open>An interleaving that is given step by step.\<close>

datatype schedule_move = Begins proposal_call | Steps nat change_env

fun run_moves :: "('s, 'o) change_ext \<Rightarrow> schedule_move list \<Rightarrow> ('s, 'o) change_world \<times> phase list \<Rightarrow> ('s, 'o) change_world \<times> phase list" where
  "run_moves X [] st = st"
| "run_moves X (Begins call # ms) (W, ps) = run_moves X ms (W, ps @ [Started call])"
| "run_moves X (Steps k env # ms) (W, ps) = (let (ph, W') = advance X env (ps ! k) W in run_moves X ms (W', ps[k := ph]))"

fun moves_ok :: "('s, 'o) change_ext \<Rightarrow> schedule_move list \<Rightarrow> ('s, 'o) change_world \<times> phase list \<Rightarrow> bool" where
  "moves_ok X [] st = True"
| "moves_ok X (Begins call # ms) (W, ps) = moves_ok X ms (W, ps @ [Started call])"
| "moves_ok X (Steps k env # ms) (W, ps) = (k < length ps \<and> creates_fresh env (ps ! k) W
     \<and> (let (ph, W') = advance X env (ps ! k) W in moves_ok X ms (W', ps[k := ph])))"

lemma moves_append:
  "run_moves X (xs @ ys) st = run_moves X ys (run_moves X xs st)"
  "moves_ok X (xs @ ys) st \<longleftrightarrow> moves_ok X xs st \<and> moves_ok X ys (run_moves X xs st)"
  by (induction X xs st rule: run_moves.induct) (auto split: prod.splits)

lemma run_moves_steps: "moves_ok X ms st \<Longrightarrow> (change_step X)\<^sup>*\<^sup>* st (run_moves X ms st)"
proof (induction X ms st rule: run_moves.induct)
  case (2 X call ms W ps)
  then show ?case using converse_rtranclp_into_rtranclp [where r = "change_step X", OF change_step.Begin] by simp
next
  case (3 X k env ms W ps)
  obtain ph W' where a: "advance X env (ps ! k) W = (ph, W')" by fastforce
  then show ?case using 3 converse_rtranclp_into_rtranclp [where r = "change_step X", OF change_step.Advance [OF _ _ a]] by simp
qed simp

lemma run_moves_reachable: "moves_ok X ms (W, []) \<Longrightarrow> cw_proposals W = [] \<Longrightarrow> change_reachable X (run_moves X ms (W, []))"
  using run_moves_steps change_steps_reachable change_reachable.Start by blast

text \<open>An administrator proposes, approves and applies a change without operations; the object store is
  out of order.\<close>

definition broken_objects :: "unit object_store" where
  "broken_objects = \<lparr>os_put = (\<lambda>_ st. (Inl ObjectIo, st)), os_get = (\<lambda>_ st. (Inl ObjectIo, st)), os_has = (\<lambda>_ st. (Inl ObjectIo, st)),
     os_verify = (\<lambda>_ st. (Inl ObjectIo, st))\<rparr>"

definition sample_change :: "(event_envelope list, unit) change_ext" where
  "sample_change = \<lparr>cx_runtime = \<lparr>rx_ext = sample_ext, rx_step = spine_step, rx_objects = broken_objects, rx_execute = (\<lambda>_ _ _. None),
       rx_branch_from_value = (\<lambda>_. None), rx_projection_from_value = (\<lambda>_. None), rx_grant_from_value = (\<lambda>_. None),
       rx_asset_from_value = (\<lambda>_. None)\<rparr>,
     cx_codec = \<lparr>ec_receipt_to_vec = (\<lambda>_. []), ec_receipt_from_slice = (\<lambda>_. None), ec_value_from_slice = (\<lambda>_. None)\<rparr>,
     cx_message = (\<lambda>_. [])\<rparr>"

definition sample_world :: "(event_envelope list, unit) change_world" where
  "sample_world = \<lparr>cw_substrate = \<lparr>sb_store = [], sb_objects = (), sb_sessions = [], sb_branches = [], sb_projections = [], sb_grants = [],
     sb_assets = [], sb_packages = Map.empty, sb_hooks = [], sb_fabric = [], sb_default_labels = []\<rparr>, cw_proposals = []\<rparr>"

definition sample_admin :: protocol_context where
  "sample_admin = \<lparr>pc_principal = HostAdmin, pc_transport = ''t'', pc_authority = None, pc_host_operation = None, pc_session_id = None\<rparr>"

definition sample_moment :: change_env where
  "sample_moment = \<lparr>ce_id = (\<lambda>_. ''i''), ce_now = (\<lambda>_. 0), ce_elapsed = (\<lambda>_. 1), ce_stamp = (''e'', 0)\<rparr>"

definition sample_proposal :: proposal_record where
  "sample_proposal = \<lparr>prp_id = ''p'', prp_status = Status_Created, prp_created_by = Anonymous, prp_created_at = 0, prp_target_session_id = None,
     prp_target_branch_id = None, prp_operations = [], prp_required_permissions = [], prp_expected_effects = JNull, prp_approval = None,
     prp_result = None, prp_intent = None, prp_change_set = None, prp_policy_decision = None, prp_commit = None, prp_receipt = None\<rparr>"

definition sample_found :: "schedule_move list" where
  "sample_found = [Begins (Create sample_admin sample_proposal), Steps 0 sample_moment,
     Begins (Approve sample_admin ''p'' None), Steps 1 sample_moment, Steps 1 sample_moment, Steps 1 sample_moment,
     Begins (Apply sample_admin ''p''), Steps 2 sample_moment]"

definition sample_executing :: "schedule_move list" where
  "sample_executing = [Steps 2 sample_moment, Steps 2 sample_moment, Steps 2 sample_moment]"

abbreviation sample_at :: "schedule_move list \<Rightarrow> (event_envelope list, unit) change_world \<times> phase list" where
  "sample_at ms \<equiv> run_moves sample_change ms (sample_world, [])"

lemma sample_runs:
  "moves_ok sample_change sample_found (sample_world, [])"
  "moves_ok sample_change (sample_found @ sample_executing) (sample_world, [])"
  "moves_ok sample_change (sample_found @ sample_executing @ [Steps 2 sample_moment]) (sample_world, [])"
  by code_simp+

lemma sample_reachable: "moves_ok sample_change ms (sample_world, []) \<Longrightarrow> change_reachable sample_change (sample_at ms)"
  by (rule run_moves_reachable) (simp_all add: sample_world_def)

fun is_executing :: "phase \<Rightarrow> bool" where
  "is_executing (Executing c p t n rs ds) = True"
| "is_executing _ = False"

section \<open>Properties\<close>









text \<open>Creating a proposal under an id that exists replaces the stored proposal whatever its status:
  the record of an applied or rejected proposal is lost and it starts again as created, and one that is
  being applied is taken from the call that applies it. The approval and the result that the request
  carries are stored as they are.\<close>

theorem recreated_proposal_starts_again:
  assumes "\<not> has_findings (scan_value_for_raw_secrets (cx_ext X) (proposal_value (cx_ext X) p) [])" and "\<not> blank (prp_id p)"
  shows "\<exists>q. bt_get (cw_proposals (snd (advance X env (Started (Create c p)) W))) (prp_id p) = Some q \<and> prp_status q = Status_Created
    \<and> prp_commit q = None \<and> prp_receipt q = None \<and> prp_operations q = prp_operations p \<and> prp_approval q = prp_approval p \<and> prp_result q = prp_result p"
  using assms by (simp add: create_proposal_def Let_def store_proposal_def bt_get_insert created_proposal_def)

theorem recreated_proposal_starts_again_witness:
  "(let forged = \<lparr>pap_principal = HostAdmin, pap_decided_at = 0, pap_reason = None\<rparr>;
        (ph, W) = advance sample_change sample_moment (Started (Create sample_admin (sample_proposal\<lparr>prp_approval := Some forged\<rparr>)))
          (fst (sample_at (sample_found @ sample_executing))) in
    map_option (\<lambda>q. (prp_status q, prp_approval q)) (bt_get (cw_proposals W) ''p'') = Some (Status_Created, Some forged))"
proof -
  let ?forged = "\<lparr>pap_principal = HostAdmin, pap_decided_at = 0, pap_reason = None\<rparr>"
  let ?p = "sample_proposal\<lparr>prp_approval := Some ?forged\<rparr>"
  have "\<not> has_findings (scan_value_for_raw_secrets (cx_ext sample_change) (proposal_value (cx_ext sample_change) ?p) [])"
    "\<not> blank (prp_id ?p)" by code_simp+
  from recreated_proposal_starts_again [OF this, of sample_moment sample_admin "fst (sample_at (sample_found @ sample_executing))"]
  show ?thesis unfolding Let_def split_beta by (auto simp: sample_proposal_def)
qed

end
