(* ===== verification/Spec2Isabelle.thy ===== *)
theory Spec2Isabelle
  imports Resolver_Props Promotion Realization_Props Event_Props Capabilities Run_Props
    Substrate_Props Proposal_Props
begin

text \<open>
  A verification development of Plurora: the portable work model (\<open>src/crates/plurora-work\<close> with the
  parts of \<open>src/crates/plurora-core\<close> it rests on), the event spine, the capability handles and the
  capability fabric of the runtime (\<open>src/crates/plurora-runtime\<close>), and the control of runs
  (\<open>run_control.rs\<close> of the runtime and \<open>runs.rs\<close> of \<open>src/crates/plurora-service\<close>).

  \<^bold>\<open>The program.\<close> An author writes a \<^emph>\<open>work\<close>: an \<^emph>\<open>assembly\<close> (a graph of component nodes, which may
  be assemblies again, joined through ports), with state slots, declarations of rights and an
  operational intent. All of these are artifacts, addressed by the digest of their canonical JSON.
  The \<^emph>\<open>resolver\<close> turns an assembly into locks, flattened nodes and bindings; the \<^emph>\<open>realization planner\<close>
  places its workloads on the targets of an inventory. On a Host, the resolved work is an
  installation; \<^emph>\<open>run control\<close> starts and stops runs of it through a driver and records what happens as
  a journal in the \<^emph>\<open>event spine\<close>, which several Hosts may share. The packages of a run reach one
  another through \<^emph>\<open>capability handles\<close>, which the \<^emph>\<open>capability fabric\<close> resolves to a provider.

  \<^bold>\<open>Theories and sources.\<close>

  \<^item> \<open>Prelude\<close>, \<open>Rust_Text\<close>, \<open>Sorting\<close>: results and the \<open>?\<close> operator, loop shapes, ordered maps (locale
    \<open>ordered_map\<close>, extended by \<open>counting_map\<close>, interpreted on sorted association lists), saturating and
    checked arithmetic on words, the string operations of the Rust standard library, sorting by a key.
  \<^item> \<open>Json_Model\<close>, \<open>Canonical\<close>, \<open>Secrets\<close>, \<open>Ids\<close>, \<open>Diagnostics\<close>: \<open>canonical.rs\<close>, \<open>ids.rs\<close> and \<open>diagnostic.rs\<close> of
    the work crate; \<open>secret_ref.rs\<close> and the canonical encoding of \<open>world_bundle.rs\<close> of the core crate.
    The locale \<open>artifact_model\<close> is the trait of that name; every artifact type interprets it.
  \<^item> \<open>Ports\<close>, \<open>State_Slots\<close>, \<open>Assemblies\<close>, \<open>Locks\<close>, \<open>Rights\<close>, \<open>Operational\<close>, \<open>Works\<close>, \<open>Host_Records\<close>: the
    files \<open>port.rs\<close>, \<open>state.rs\<close>, \<open>assembly.rs\<close>, \<open>lock.rs\<close>, \<open>rights.rs\<close>, \<open>operational.rs\<close>, \<open>work.rs\<close> and
    \<open>host.rs\<close>; each struct is a record, each enum a datatype, each validator a definition of its name.
  \<^item> \<open>Containment\<close>, \<open>Resolver\<close>, \<open>Resolver_Invariant\<close>, \<open>Resolver_Results\<close>, \<open>Resolver_Props\<close>: \<open>resolver.rs\<close>,
    the walk over nested assemblies, \<open>resolve_occurrence\<close> with its memo table, the locks, the flattened
    output and \<open>resolve_assembly_at_phase\<close>; then the invariant of an occurrence and its consequences.
  \<^item> \<open>Promotion\<close>: \<open>promotion.rs\<close>, a selection of nodes turned into an assembly of its own.
  \<^item> \<open>Realization\<close>, \<open>Realization_Props\<close>: \<open>realization.rs\<close>, plans, revisions and the planner.
  \<^item> \<open>Event_Store\<close>, \<open>Event_Spine\<close>, \<open>Event_Sqlite\<close>, \<open>Event_Props\<close>: \<open>event_store.rs\<close>, the in-memory and the
    SQLite store, and the locale \<open>event_spine\<close> (simulation by a log) interpreted on both.
  \<^item> \<open>Handle_Table\<close>, \<open>Capabilities\<close>: \<open>runtime/handles.rs\<close>, \<open>capability.rs\<close> and the preparation of an
    invocation in \<open>runtime/capabilities.rs\<close>.
  \<^item> \<open>Run_Control\<close>, \<open>Run_Journal\<close>, \<open>Run_Registry\<close>: \<open>run_control.rs\<close> and \<open>runs.rs\<close>. A handler (\<open>start\<close>,
    \<open>stop\<close>, \<open>complete_stopping\<close>, \<open>hydrate\<close>, the loss of a package, the cleanup supervisor and others) is
    a state machine whose states are the points between two locked sections.
  \<^item> \<open>Run_Replay\<close>, \<open>Run_Store\<close>, \<open>Run_Effects\<close>, \<open>Run_System\<close>, \<open>Run_Liveness\<close>, \<open>Run_Codec\<close>, \<open>Run_Props\<close>: what a
    journal says, the locale \<open>run_store\<close> (a store shared with others who keep the journal replayable,
    interpreted on the specification of the event spine with arbitrary interference), the effect of each
    section, the system of hosts with its reachable states, runs that nobody disturbs, and the properties.

  \<^bold>\<open>What is shown.\<close>

  \<^item> Run control, for any number of hosts, any interleaving of their sections, any answers of their
    drivers and any failures of the store: at most one active run per installation in the journal, no
    step rewrites history, every activation has one owner, a host holds one activation per
    installation, a stop is recorded after the release of the activation, idempotent starts, the guards
    of start and stop, termination and exactness of reading the journal; and for a host that is left in
    peace, that a start and a stop come to their end.
  \<^item> The resolver never panics and always returns; its bindings are sound, multiplicities hold across
    all levels of nesting, its lock artifacts are closed, and its containment walk agrees with the
    recursive closure check of \<open>assembly.rs\<close>, which is characterised declaratively.
  \<^item> The validators are characterised: ports and their compatibility, transports, redlines, the grammar
    of ids against the patterns of the published schemas, the lifecycle of a run record.
  \<^item> The planner places every workload once on a suitable target, never beyond the exact, unwrapped
    sum of the observed capacity, and does not depend on the order of its input.
  \<^item> The stores of the event spine refine a log and agree with each other within stated bounds; outside
    them, two theorems say where the SQLite store departs from the contract.
  \<^item> Handles: private handles are invisible, leases bound invocations, revocation is final, and a
    prepared invocation is authorised.

  \<^bold>\<open>How the code is read.\<close>

  \<^item> A \<open>String\<close> is its sequence of UTF-8 bytes; integers keep their width (\<open>u32\<close>, \<open>u64\<close> as words) where
    the code computes with them; instants are integers (nanoseconds). A \<open>BTreeMap\<close> is a strictly sorted
    association list, a \<open>HashMap\<close> accessed by key a HOL map and one that is iterated an association list.
  \<^item> Errors are values: a \<open>ModelError\<close> is its diagnostic code, an error of run control or of a store a
    constructor of its own; the text of a message is dropped. A panic (\<open>expect\<close>, indexing,
    \<open>unreachable!\<close>) is an error value of its own, so that its absence is a theorem.
  \<^item> Code outside the repository is a parameter: Unicode tables, SemVer, SHA-256, \<open>serde\<close>'s number format
    and RFC 3339 in the record \<open>ext\<close>; chrono, JSON text and \<open>LIKE\<close> for SQLite in \<open>sql_ext\<close>; the codec
    of journal payloads, the run driver, the owner lease and the validator behind an authority as
    arguments. Where a theorem needs a law of a parameter (no collision of the digest on given values,
    a written payload reads back) it is a hypothesis, met in the witness by a concrete function.
  \<^item> A method that holds a lock is one step on the state it guards. A call to the store inside a section
    of run control may be preceded by any admissible use of the store by other hosts, given as a script.
  \<^item> SQL statements are read as SQL on the list of rows: constraints, byte order of text, ranges.

  \<^bold>\<open>Bounds and termination.\<close> No fuel is used: the recursion over nested assemblies is bounded by the
  depth 32 of the code (\<open>MAX_ASSEMBLY_DEPTH\<close>), which its measure counts down, the search for a fresh id
  by the ids in use, the other loops by a measure or by structure, and the loop of \<open>sync_journal\<close>, which another host may keep feeding,
  is a \<open>partial_function\<close> in the option type with a theorem that it returns.

  \<^bold>\<open>Not modelled.\<close> I/O and processes (package execution, WebAssembly, subprocesses, network, target
  agent, file stores, world-bundle archives), the HTTP service and protocol dispatch, the command
  line, the generated contract SDK and the first-party packages; backup and integrity check of the
  SQLite store and receivers that lag behind its broadcast; the wording of messages. Among the control
  planes of the service, those of installations, bindings, realizations and development hosts are not
  modelled; the driver behind runs (\<open>assembly_runtime.rs\<close>) is a parameter. Permissions, proposals and
  sessions of the runtime are the next components to be added.
\<close>

end
